(* ===== verification/Prelude.thy ===== *)
theory Prelude
  imports Main "HOL-Library.Multiset"
begin

text \<open>
  Shared vocabulary of the SummitFlow development: the collections of simplification
  rules the component theories fill, the combinators for Python's \<open>or\<close> on optional
  results and for \<open>next((x for x in xs if p(x)), None)\<close>, the result type of
  operations that raise, and list lemmas used by several components.
\<close>

named_theorems guard_simps "unfoldings of the command-guard policies"
named_theorems store_simps "unfoldings of the storage operations"
named_theorems step_intros "introduction rules of the step relations"

type_synonym ('e, 'a) result = "'e + 'a"

abbreviation raise :: "'e \<Rightarrow> ('e, 'a) result" where
  "raise \<equiv> Inl"

abbreviation return :: "'a \<Rightarrow> ('e, 'a) result" where
  "return \<equiv> Inr"

section \<open>Optional results\<close>

text \<open>\<open>a or b\<close> on values that are \<open>None\<close> or a (truthy) object.\<close>

fun or_else :: "'a option \<Rightarrow> 'a option \<Rightarrow> 'a option" where
  "or_else (Some a) _ = Some a"
| "or_else None b = b"

lemma or_else_None [simp]: "or_else a b = None \<longleftrightarrow> a = None \<and> b = None"
  by (cases a) auto

lemma or_else_None2 [simp]: "or_else a None = a"
  by (cases a) auto

lemma or_else_SomeD: "or_else a b = Some d \<Longrightarrow> a = Some d \<or> (a = None \<and> b = Some d)"
  by (cases a) auto

text \<open>The first non-\<open>None\<close> answer over a list, in order.\<close>

fun first_some :: "('a \<Rightarrow> 'b option) \<Rightarrow> 'a list \<Rightarrow> 'b option" where
  "first_some f [] = None"
| "first_some f (x # xs) = (case f x of Some y \<Rightarrow> Some y | None \<Rightarrow> first_some f xs)"

lemma first_some_None_iff: "first_some f xs = None \<longleftrightarrow> (\<forall>x\<in>set xs. f x = None)"
  by (induction xs) (auto split: option.splits)

lemma first_some_not_None: "x \<in> set xs \<Longrightarrow> f x \<noteq> None \<Longrightarrow> first_some f xs \<noteq> None"
  by (auto simp: first_some_None_iff)

lemma first_some_SomeD: "first_some f xs = Some y \<Longrightarrow> \<exists>x\<in>set xs. f x = Some y"
  by (induction xs) (auto split: option.splits)

lemma first_some_append: "first_some f (xs @ ys) = or_else (first_some f xs) (first_some f ys)"
  by (induction xs) (auto split: option.splits)

lemma first_some_cong [fundef_cong]:
  "xs = ys \<Longrightarrow> (\<And>x. x \<in> set ys \<Longrightarrow> f x = g x) \<Longrightarrow> first_some f xs = first_some g ys"
  by (induction ys arbitrary: xs) (auto split: option.splits)

text \<open>A postcondition on every answer of an optional computation, established by its structure.\<close>

definition answers :: "('a \<Rightarrow> bool) \<Rightarrow> 'a option \<Rightarrow> bool" where
  "answers P a \<longleftrightarrow> (\<forall>d. a = Some d \<longrightarrow> P d)"

lemma answersD: "answers P a \<Longrightarrow> a = Some d \<Longrightarrow> P d"
  by (simp add: answers_def)

named_theorems answer_intros "structural rules for postconditions of optional answers"

lemma answers_None [answer_intros]: "answers P None"
  by (simp add: answers_def)

lemma answers_Some [answer_intros]: "P d \<Longrightarrow> answers P (Some d)"
  by (simp add: answers_def)

lemma answers_if [answer_intros]: "answers P a \<Longrightarrow> answers P b \<Longrightarrow> answers P (if c then a else b)"
  by (simp add: answers_def)

lemma answers_or_else [answer_intros]: "answers P a \<Longrightarrow> answers P b \<Longrightarrow> answers P (or_else a b)"
  by (auto simp: answers_def dest: or_else_SomeD)

lemma answers_first_some [answer_intros]: "(\<And>x. answers P (f x)) \<Longrightarrow> answers P (first_some f xs)"
  by (auto simp: answers_def dest: first_some_SomeD)

lemma answers_case_list [answer_intros]:
  "answers P a \<Longrightarrow> (\<And>x xs. answers P (b x xs)) \<Longrightarrow> answers P (case ys of [] \<Rightarrow> a | x # xs \<Rightarrow> b x xs)"
  by (cases ys) auto

lemma answers_case_option [answer_intros]:
  "answers P a \<Longrightarrow> (\<And>x. answers P (b x)) \<Longrightarrow> answers P (case y of None \<Rightarrow> a | Some x \<Rightarrow> b x)"
  by (cases y) auto

lemma answers_let [answer_intros]: "(\<And>x. answers P (f x)) \<Longrightarrow> answers P (let x = a in f x)"
  by simp

lemma answers_case_prod [answer_intros]: "(\<And>x y. answers P (f x y)) \<Longrightarrow> answers P (case p of (x, y) \<Rightarrow> f x y)"
  by (cases p) auto

lemma find_None_iff_all: "List.find P xs = None \<longleftrightarrow> (\<forall>x\<in>set xs. \<not> P x)"
  by (induction xs) auto

section \<open>Lists\<close>

text \<open>\<open>drop_pairs\<close>-style suffix reasoning: being a suffix of the argument list.\<close>

definition suffix_of :: "'a list \<Rightarrow> 'a list \<Rightarrow> bool" where
  "suffix_of ys xs \<longleftrightarrow> (\<exists>zs. xs = zs @ ys)"

lemma suffix_of_refl [simp, intro]: "suffix_of xs xs"
  by (simp add: suffix_of_def)

lemma suffix_of_trans [trans]: "suffix_of zs ys \<Longrightarrow> suffix_of ys xs \<Longrightarrow> suffix_of zs xs"
  by (auto simp: suffix_of_def)

lemma suffix_of_drop [simp, intro]: "suffix_of (drop n xs) xs"
  by (metis suffix_of_def append_take_drop_id)

lemma suffix_of_tl [simp, intro]: "suffix_of (tl xs) xs"
  by (metis drop_Suc drop_0 suffix_of_drop)

lemma suffix_of_Cons: "suffix_of ys xs \<Longrightarrow> suffix_of ys (x # xs)"
  by (metis append_Cons suffix_of_def)

lemma suffix_of_dropWhile [simp, intro]: "suffix_of (dropWhile P xs) xs"
  by (metis suffix_of_def takeWhile_dropWhile_id)

lemma suffix_of_length: "suffix_of ys xs \<Longrightarrow> length ys \<le> length xs"
  by (auto simp: suffix_of_def)

lemma suffix_of_set: "suffix_of ys xs \<Longrightarrow> set ys \<subseteq> set xs"
  by (auto simp: suffix_of_def)

lemma suffix_of_Nil [simp]: "suffix_of [] xs"
  by (simp add: suffix_of_def)

text \<open>Dictionaries kept in insertion order: \<open>d[k] = v\<close> and \<open>d.pop(k)\<close>.\<close>

fun dict_set :: "'k \<Rightarrow> 'v \<Rightarrow> ('k \<times> 'v) list \<Rightarrow> ('k \<times> 'v) list" where
  "dict_set k v [] = [(k, v)]"
| "dict_set k v ((k', v') # d) = (if k = k' then (k, v) # d else (k', v') # dict_set k v d)"

lemma dict_set_map_of [simp]: "map_of (dict_set k v d) = (map_of d)(k \<mapsto> v)"
  by (induction d) auto

lemma dict_set_keys: "fst ` set (dict_set k v d) = insert k (fst ` set d)"
proof (induction d)
  case (Cons a d)
  then show ?case by (cases a) (simp, blast)
qed simp

lemma dict_set_distinct: "distinct (map fst d) \<Longrightarrow> distinct (map fst (dict_set k v d))"
proof (induction d)
  case (Cons a d)
  then show ?case using dict_set_keys [of k v d] by (cases a) (auto simp: image_iff)
qed simp

end
