(* ===== verification/PyStr.thy ===== *)
theory PyStr
  imports Prelude
begin

text \<open>
  The parts of Python's \<open>str\<close>, \<open>os.path\<close> (POSIX) and \<open>pathlib.PurePosixPath\<close> that the
  sources use, on ASCII text. A Python string is a HOL \<open>string\<close>; case folding and
  character classes are those of the ASCII range.
\<close>

section \<open>str\<close>

fun startswith :: "string \<Rightarrow> string \<Rightarrow> bool" where
  "startswith s [] = True"
| "startswith [] (p # ps) = False"
| "startswith (c # cs) (p # ps) = (c = p \<and> startswith cs ps)"

lemma startswith_iff: "startswith s p \<longleftrightarrow> (\<exists>r. s = p @ r)"
  by (induction s p rule: startswith.induct) auto

lemma startswith_append [simp]: "startswith (p @ r) p"
  by (simp add: startswith_iff)

definition endswith :: "string \<Rightarrow> string \<Rightarrow> bool" where
  "endswith s p = startswith (rev s) (rev p)"

lemma endswith_iff: "endswith s p \<longleftrightarrow> (\<exists>r. s = r @ p)"
proof -
  have "endswith s p \<longleftrightarrow> (\<exists>r. rev s = rev p @ r)"
    by (simp add: endswith_def startswith_iff)
  also have "\<dots> \<longleftrightarrow> (\<exists>r. s = r @ p)"
    by (metis rev_append rev_rev_ident)
  finally show ?thesis .
qed

text \<open>\<open>p in s\<close> for strings.\<close>

fun contains :: "string \<Rightarrow> string \<Rightarrow> bool" where
  "contains [] p = (p = [])"
| "contains (c # cs) p = (startswith (c # cs) p \<or> contains cs p)"

text \<open>\<open>s.removeprefix(p)\<close>\<close>

definition removeprefix :: "string \<Rightarrow> string \<Rightarrow> string" where
  "removeprefix s p = (if startswith s p then drop (length p) s else s)"

definition char_nat :: "char \<Rightarrow> nat" where
  "char_nat c = of_char c"

definition lower_char :: "char \<Rightarrow> char" where
  "lower_char c = (if 65 \<le> char_nat c \<and> char_nat c \<le> 90 then char_of (char_nat c + 32) else c)"

definition upper_char :: "char \<Rightarrow> char" where
  "upper_char c = (if 97 \<le> char_nat c \<and> char_nat c \<le> 122 then char_of (char_nat c - 32) else c)"

definition lower :: "string \<Rightarrow> string" where
  "lower = map lower_char"

definition upper :: "string \<Rightarrow> string" where
  "upper = map upper_char"

definition is_digit :: "char \<Rightarrow> bool" where
  "is_digit c \<longleftrightarrow> 48 \<le> char_nat c \<and> char_nat c \<le> 57"

definition is_alpha :: "char \<Rightarrow> bool" where
  "is_alpha c \<longleftrightarrow> (65 \<le> char_nat c \<and> char_nat c \<le> 90) \<or> (97 \<le> char_nat c \<and> char_nat c \<le> 122)"

definition is_word :: "char \<Rightarrow> bool" where
  "is_word c \<longleftrightarrow> is_alpha c \<or> is_digit c \<or> c = CHR ''_''"

definition is_space :: "char \<Rightarrow> bool" where
  "is_space c \<longleftrightarrow> (9 \<le> char_nat c \<and> char_nat c \<le> 13) \<or> (28 \<le> char_nat c \<and> char_nat c \<le> 32)"

definition lstrip_chars :: "string \<Rightarrow> string \<Rightarrow> string" where
  "lstrip_chars cs s = dropWhile (\<lambda>c. c \<in> set cs) s"

definition rstrip_chars :: "string \<Rightarrow> string \<Rightarrow> string" where
  "rstrip_chars cs s = rev (dropWhile (\<lambda>c. c \<in> set cs) (rev s))"

definition strip :: "string \<Rightarrow> string" where
  "strip s = rev (dropWhile is_space (rev (dropWhile is_space s)))"

text \<open>\<open>s.split(d)\<close> for a one-character separator.\<close>

fun split_on :: "char \<Rightarrow> string \<Rightarrow> string list" where
  "split_on d [] = [[]]"
| "split_on d (c # cs) =
     (if c = d then [] # split_on d cs
      else (case split_on d cs of [] \<Rightarrow> [[c]] | w # ws \<Rightarrow> (c # w) # ws))"

lemma split_on_not_Nil [simp]: "split_on d s \<noteq> []"
  by (induction s) (auto split: list.splits)

lemma split_on_none: "d \<notin> set s \<Longrightarrow> split_on d s = [s]"
  by (induction s) auto

lemma split_on_no_sep: "w \<in> set (split_on d s) \<Longrightarrow> d \<notin> set w"
  by (induction s arbitrary: w) (auto split: if_splits list.splits)

lemma split_on_append: "split_on d (a @ d # b) = split_on d a @ split_on d b"
proof (induction a)
  case (Cons c cs)
  show ?case
  proof (cases "split_on d cs")
    case Nil
    then show ?thesis by simp
  next
    case (Cons w ws)
    with Cons.IH show ?thesis by simp
  qed
qed simp

text \<open>\<open>s.split()\<close>: maximal runs of non-space characters.\<close>

fun split_ws_acc :: "string \<Rightarrow> string \<Rightarrow> string list" where
  "split_ws_acc acc [] = (if acc = [] then [] else [rev acc])"
| "split_ws_acc acc (c # cs) =
     (if is_space c then (if acc = [] then split_ws_acc [] cs else rev acc # split_ws_acc [] cs)
      else split_ws_acc (c # acc) cs)"

definition split_ws :: "string \<Rightarrow> string list" where
  "split_ws s = split_ws_acc [] s"

text \<open>\<open>sep.join(words)\<close>\<close>

fun join_with :: "string \<Rightarrow> string list \<Rightarrow> string" where
  "join_with sep [] = []"
| "join_with sep [w] = w"
| "join_with sep (w # ws) = w @ sep @ join_with sep ws"

lemma join_with_Cons: "ws \<noteq> [] \<Longrightarrow> join_with sep (w # ws) = w @ sep @ join_with sep ws"
  by (cases ws) auto

lemma join_with_append:
  "xs \<noteq> [] \<Longrightarrow> ys \<noteq> [] \<Longrightarrow> join_with sep (xs @ ys) = join_with sep xs @ sep @ join_with sep ys"
proof (induction xs)
  case (Cons x xs)
  then show ?case by (cases "xs = []") (simp_all add: join_with_Cons)
qed simp

lemma join_with_Nil_iff: "join_with sep ws = [] \<Longrightarrow> \<forall>w\<in>set ws. w = []"
  by (induction sep ws rule: join_with.induct) auto

lemma split_on_join:
  "ws \<noteq> [] \<Longrightarrow> \<forall>w\<in>set ws. d \<notin> set w \<Longrightarrow> split_on d (join_with [d] ws) = ws"
proof (induction ws)
  case (Cons w ws)
  then show ?case by (cases ws) (simp_all add: split_on_append split_on_none)
qed simp

text \<open>\<open>s.split(c, 1)[0]\<close> and the part after the first \<open>c\<close>.\<close>

definition before_first :: "char \<Rightarrow> string \<Rightarrow> string" where
  "before_first c s = takeWhile (\<lambda>x. x \<noteq> c) s"

definition after_first :: "char \<Rightarrow> string \<Rightarrow> string" where
  "after_first c s = drop 1 (dropWhile (\<lambda>x. x \<noteq> c) s)"

text \<open>\<open>s.rsplit(c, 1)[0]\<close> when \<open>c\<close> occurs in \<open>s\<close>.\<close>

definition before_last :: "char \<Rightarrow> string \<Rightarrow> string" where
  "before_last c s = rev (drop 1 (dropWhile (\<lambda>x. x \<noteq> c) (rev s)))"

definition has_prefix_of :: "string list \<Rightarrow> string \<Rightarrow> bool" where
  "has_prefix_of ps s = list_ex (startswith s) ps"

definition has_suffix_of :: "string list \<Rightarrow> string \<Rightarrow> bool" where
  "has_suffix_of ps s = list_ex (endswith s) ps"

section \<open>os.path and pathlib\<close>

text \<open>\<open>PurePosixPath(p).name\<close>: the last component that is neither empty nor \<open>.\<close>\<close>

definition path_name :: "string \<Rightarrow> string" where
  "path_name p =
     (case rev (filter (\<lambda>c. c \<noteq> [] \<and> c \<noteq> ''.'') (split_on CHR ''/'' p)) of
        [] \<Rightarrow> [] | c # _ \<Rightarrow> c)"

text \<open>The component loop of \<open>posixpath.normpath\<close>; the accumulator holds the kept components, last first.\<close>

fun norm_comps :: "bool \<Rightarrow> string list \<Rightarrow> string list \<Rightarrow> string list" where
  "norm_comps ab acc [] = rev acc"
| "norm_comps ab acc (c # cs) =
     (if c = [] \<or> c = ''.'' then norm_comps ab acc cs
      else if c \<noteq> ''..'' \<or> (\<not> ab \<and> acc = []) \<or> (acc \<noteq> [] \<and> hd acc = ''..'')
      then norm_comps ab (c # acc) cs
      else norm_comps ab (tl acc) cs)"

definition initial_slashes :: "string \<Rightarrow> nat" where
  "initial_slashes p =
     (if startswith p ''//'' \<and> \<not> startswith p ''///'' then 2
      else if startswith p ''/'' then 1 else 0)"

definition normpath :: "string \<Rightarrow> string" where
  "normpath p =
     (if p = [] then ''.''
      else let r = replicate (initial_slashes p) CHR ''/'' @
                     join_with ''/'' (norm_comps (initial_slashes p > 0) [] (split_on CHR ''/'' p))
           in if r = [] then ''.'' else r)"

text \<open>\<open>posixpath.join(a, b)\<close>\<close>

definition path_join :: "string \<Rightarrow> string \<Rightarrow> string" where
  "path_join a b =
     (if startswith b ''/'' then b
      else if a = [] \<or> endswith a ''/'' then a @ b else a @ ''/'' @ b)"

text \<open>\<open>str(PurePosixPath(p))\<close>\<close>

definition pure_path :: "string \<Rightarrow> string" where
  "pure_path p =
     (let parts = filter (\<lambda>c. c \<noteq> [] \<and> c \<noteq> ''.'') (split_on CHR ''/'' p);
          lead = replicate (initial_slashes p) CHR ''/''
      in if lead = [] \<and> parts = [] then ''.'' else lead @ join_with ''/'' parts)"

text \<open>\<open>posixpath.dirname\<close>\<close>

definition dirname :: "string \<Rightarrow> string" where
  "dirname p =
     (let head = rev (dropWhile (\<lambda>c. c \<noteq> CHR ''/'') (rev p))
      in if head \<noteq> [] \<and> head \<noteq> replicate (length head) CHR ''/''
         then rstrip_chars ''/'' head else head)"

text \<open>
  What \<open>os.path.expanduser\<close> reads of the process: \<open>HOME\<close>, and the password database's
  home of this user and of a named one.
\<close>

record user_env =
  HOME :: "string option"
  pwd_self :: "string option"
  pwd_nam :: "string \<Rightarrow> string option"

definition expanduser :: "user_env \<Rightarrow> string \<Rightarrow> string" where
  "expanduser e p =
     (case p of
        [] \<Rightarrow> p
      | c # rest \<Rightarrow>
          if c \<noteq> CHR ''~'' then p
          else let user = takeWhile (\<lambda>x. x \<noteq> CHR ''/'') rest;
                   tail = dropWhile (\<lambda>x. x \<noteq> CHR ''/'') rest;
                   userhome = (if user = [] then (case HOME e of Some h \<Rightarrow> Some h | None \<Rightarrow> pwd_self e)
                               else pwd_nam e user)
               in (case userhome of
                     None \<Rightarrow> p
                   | Some h \<Rightarrow> (let r = rstrip_chars ''/'' h @ tail in if r = [] then ''/'' else r)))"

lemma expanduser_plain: "\<not> startswith p ''~'' \<Longrightarrow> expanduser e p = p"
  by (cases p) (auto simp: expanduser_def)

end
