(* ===== verification/Regex.thy ===== *)
theory Regex
  imports PyStr
begin

text \<open>
  Backtracking regular expressions with Python's \<open>re\<close> semantics for the constructs the
  sources use: character classes, sequencing, ordered alternation, greedy repetition,
  \<open>^\<close>, \<open>$\<close>, \<open>\b\<close>, a one-character negative lookbehind and numbered groups.
  \<open>rx_run\<close> lists every way to match at a position in the order the engine tries them,
  so its head is the match Python reports.
\<close>

datatype rx =
    Eps
  | Cls "char \<Rightarrow> bool"
  | Seq rx rx
  | Alt rx rx
  | Star rx
  | Bol
  | Eol
  | WordB
  | NotBehind "char \<Rightarrow> bool"
  | Grp nat rx

text \<open>A position: the previous character, the text to the right, the groups captured so far.\<close>

type_synonym rx_caps = "(nat \<times> string) list"
type_synonym rx_pos = "char option \<times> string \<times> rx_caps"

fun word_opt :: "char option \<Rightarrow> bool" where
  "word_opt None = False"
| "word_opt (Some c) = is_word c"

fun word_hd :: "string \<Rightarrow> bool" where
  "word_hd [] = False"
| "word_hd (c # cs) = is_word c"

function rx_run :: "rx \<Rightarrow> rx_pos \<Rightarrow> rx_pos list" where
  "rx_run Eps st = [st]"
| "rx_run (Cls p) (prev, s, caps) =
     (case s of [] \<Rightarrow> [] | c # cs \<Rightarrow> if p c then [(Some c, cs, caps)] else [])"
| "rx_run (Seq a b) st = concat (map (rx_run b) (rx_run a st))"
| "rx_run (Alt a b) st = rx_run a st @ rx_run b st"
| "rx_run (Star a) st =
     concat (map (\<lambda>st'. if length (fst (snd st')) < length (fst (snd st))
                        then rx_run (Star a) st' else [])
                 (rx_run a st)) @ [st]"
| "rx_run Bol (prev, s, caps) = (if prev = None then [(prev, s, caps)] else [])"
| "rx_run Eol (prev, s, caps) = (if s = [] \<or> s = [CHR 0x0A] then [(prev, s, caps)] else [])"
| "rx_run WordB (prev, s, caps) =
     (if word_opt prev \<noteq> word_hd s then [(prev, s, caps)] else [])"
| "rx_run (NotBehind p) (prev, s, caps) =
     (case prev of Some c \<Rightarrow> (if p c then [] else [(prev, s, caps)]) | None \<Rightarrow> [(prev, s, caps)])"
| "rx_run (Grp n a) (prev, s, caps) =
     map (\<lambda>(prev', s', caps'). (prev', s', (n, take (length s - length s') s) # caps'))
         (rx_run a (prev, s, caps))"
  by pat_completeness auto
termination
  by (relation "measures [\<lambda>(r, st). size r, \<lambda>(r, st). length (fst (snd st))]") auto

declare rx_run.simps(5) [simp del]

section \<open>Derived patterns\<close>

definition plus :: "rx \<Rightarrow> rx" where
  "plus r = Seq r (Star r)"

definition opt :: "rx \<Rightarrow> rx" where
  "opt r = Alt r Eps"

definition chars :: "string \<Rightarrow> rx" where
  "chars s = Cls (\<lambda>c. c \<in> set s)"

definition not_chars :: "string \<Rightarrow> rx" where
  "not_chars s = Cls (\<lambda>c. c \<notin> set s)"

fun lit :: "string \<Rightarrow> rx" where
  "lit [] = Eps"
| "lit [c] = Cls (\<lambda>x. x = c)"
| "lit (c # cs) = Seq (Cls (\<lambda>x. x = c)) (lit cs)"

text \<open>A literal under \<open>re.IGNORECASE\<close>.\<close>

fun lit_ci :: "string \<Rightarrow> rx" where
  "lit_ci [] = Eps"
| "lit_ci [c] = Cls (\<lambda>x. lower_char x = lower_char c)"
| "lit_ci (c # cs) = Seq (Cls (\<lambda>x. lower_char x = lower_char c)) (lit_ci cs)"

fun alts :: "rx list \<Rightarrow> rx" where
  "alts [] = Cls (\<lambda>_. False)"
| "alts [r] = r"
| "alts (r # rs) = Alt r (alts rs)"

fun seqs :: "rx list \<Rightarrow> rx" where
  "seqs [] = Eps"
| "seqs [r] = r"
| "seqs (r # rs) = Seq r (seqs rs)"

section \<open>Searching\<close>

fun rx_search_at :: "rx \<Rightarrow> char option \<Rightarrow> string \<Rightarrow> bool" where
  "rx_search_at r prev [] = (rx_run r (prev, [], []) \<noteq> [])"
| "rx_search_at r prev (c # cs) =
     (rx_run r (prev, c # cs, []) \<noteq> [] \<or> rx_search_at r (Some c) cs)"

text \<open>\<open>r.search(s)\<close> and \<open>r.match(s)\<close> as truth values.\<close>

definition rx_search :: "rx \<Rightarrow> string \<Rightarrow> bool" where
  "rx_search r s = rx_search_at r None s"

definition rx_match :: "rx \<Rightarrow> string \<Rightarrow> bool" where
  "rx_match r s = (rx_run r (None, s, []) \<noteq> [])"

text \<open>A hit: the text before it, the matched text, its groups, the text after it.\<close>

record rx_hit =
  hit_pre :: string
  hit_text :: string
  hit_caps :: rx_caps
  hit_post :: string

fun last_opt :: "string \<Rightarrow> char option" where
  "last_opt [] = None"
| "last_opt (c # cs) = Some (last (c # cs))"

fun rx_next :: "rx \<Rightarrow> string \<Rightarrow> string \<Rightarrow> rx_hit option" where
  "rx_next r pre [] =
     (case rx_run r (last_opt pre, [], []) of
        [] \<Rightarrow> None
      | (p, s', caps) # _ \<Rightarrow> Some \<lparr>hit_pre = pre, hit_text = [], hit_caps = caps, hit_post = s'\<rparr>)"
| "rx_next r pre (c # cs) =
     (case rx_run r (last_opt pre, c # cs, []) of
        [] \<Rightarrow> rx_next r (pre @ [c]) cs
      | (p, s', caps) # _ \<Rightarrow>
          Some \<lparr>hit_pre = pre, hit_text = take (length (c # cs) - length s') (c # cs),
                hit_caps = caps, hit_post = s'\<rparr>)"

text \<open>
  \<open>r.finditer(s)\<close> from a position. The patterns iterated over never match the empty
  string, so every hit shortens the remaining text; the guard makes that explicit.
\<close>

function rx_iter :: "rx \<Rightarrow> string \<Rightarrow> string \<Rightarrow> rx_hit list" where
  "rx_iter r pre s =
     (case rx_next r pre s of
        None \<Rightarrow> []
      | Some h \<Rightarrow>
          h # (if length (hit_post h) < length s
               then rx_iter r (hit_pre h @ hit_text h) (hit_post h) else []))"
  by pat_completeness auto
termination
  by (relation "measure (\<lambda>(r, pre, s). length s)") auto

declare rx_iter.simps [simp del]

definition rx_finditer :: "rx \<Rightarrow> string \<Rightarrow> rx_hit list" where
  "rx_finditer r s = rx_iter r [] s"

text \<open>\<open>re.split(r, s)[0]\<close> and \<open>re.split(r, s)[-1]\<close>.\<close>

definition rx_split_first :: "rx \<Rightarrow> string \<Rightarrow> string" where
  "rx_split_first r s = (case rx_next r [] s of None \<Rightarrow> s | Some h \<Rightarrow> hit_pre h)"

definition rx_split_last :: "rx \<Rightarrow> string \<Rightarrow> string" where
  "rx_split_last r s = (case rev (rx_finditer r s) of [] \<Rightarrow> s | h # _ \<Rightarrow> hit_post h)"

text \<open>\<open>m.group(n)\<close>: the latest capture of the group, \<open>None\<close> when it did not take part.\<close>

definition rx_group :: "rx_hit \<Rightarrow> nat \<Rightarrow> string option" where
  "rx_group h n = map_of (hit_caps h) n"

section \<open>The remaining text only shrinks\<close>

lemma rx_star_length:
  assumes "\<And>st st'. st' \<in> set (rx_run a st) \<Longrightarrow> length (fst (snd st')) \<le> length (fst (snd st))"
  shows "st' \<in> set (rx_run (Star a) st) \<Longrightarrow> length (fst (snd st')) \<le> length (fst (snd st))"
proof (induction "length (fst (snd st))" arbitrary: st rule: less_induct)
  case less
  from less.prems consider "st' = st"
    | st1 where "length (fst (snd st1)) < length (fst (snd st))" "st' \<in> set (rx_run (Star a) st1)"
    by (subst (asm) rx_run.simps(5)) (auto split: if_splits)
  then show ?case
  proof cases
    case 2
    from less.hyps [OF this] have "length (fst (snd st')) \<le> length (fst (snd st1))" .
    with 2(1) show ?thesis by simp
  qed simp
qed

lemma rx_run_length: "st' \<in> set (rx_run r st) \<Longrightarrow> length (fst (snd st')) \<le> length (fst (snd st))"
proof (induction r arbitrary: st st')
  case (Seq a b)
  then obtain st1 where "st1 \<in> set (rx_run a st)" "st' \<in> set (rx_run b st1)" by auto
  with Seq.IH show ?case using le_trans by blast
next
  case (Star a)
  then show ?case using rx_star_length by blast
next
  case (Grp n a)
  obtain prev s caps where st: "st = (prev, s, caps)" by (cases st)
  from Grp.prems st obtain st1 where "st1 \<in> set (rx_run a (prev, s, caps))"
    and "fst (snd st') = fst (snd st1)" by auto
  with Grp.IH st show ?case by fastforce
qed (cases st; auto split: list.splits if_splits option.splits)+

end
