(* ===== verification/Shlex.thy ===== *)
theory Shlex
  imports Regex
begin

text \<open>
  The POSIX mode of Python's \<open>shlex\<close> lexer with \<open>whitespace_split\<close> set, as the sources
  use it (\<open>shlex.shlex(..., posix=True, punctuation_chars=...)\<close> and \<open>shlex.split\<close>), and
  \<open>shlex.quote\<close>/\<open>shlex.join\<close>. With \<open>whitespace_split\<close> a word character and any other
  unclassified character are treated alike, so \<open>wordchars\<close> does not occur.
  \<open>None\<close> is the \<open>ValueError\<close> for a missing closing quote or escaped character.
\<close>

abbreviation SQ :: char where "SQ \<equiv> CHR 0x27"
abbreviation DQ :: char where "DQ \<equiv> CHR 0x22"
abbreviation BSL :: char where "BSL \<equiv> CHR 0x5C"
abbreviation NL :: char where "NL \<equiv> CHR 0x0A"
abbreviation TAB :: char where "TAB \<equiv> CHR 0x09"
abbreviation CR :: char where "CR \<equiv> CHR 0x0D"
abbreviation BTICK :: char where "BTICK \<equiv> CHR 0x60"

record lex_conf =
  commenters :: string
  whitespace :: string
  punct :: string

text \<open>
  The lexer's \<open>state\<close> attribute: \<open>' '\<close>, \<open>'a'\<close>, \<open>'c'\<close>, a quote character, the escape
  character (with the state to return to), and the skipping of a comment line.
\<close>

datatype lex_state = SP | WORD | PUNCT | QUOTE char | ESC_WORD | ESC_DQ | COMMENT

text \<open>The state and token after reading a character that starts a token.\<close>

definition start_char :: "lex_conf \<Rightarrow> char \<Rightarrow> lex_state \<times> string" where
  "start_char cf c =
     (if c = BSL then (ESC_WORD, [])
      else if c \<in> set (punct cf) then (PUNCT, [c])
      else if c = SQ \<or> c = DQ then (QUOTE c, [])
      else (WORD, [c]))"

definition emit :: "string \<Rightarrow> string list option \<Rightarrow> string list option" where
  "emit tok r = map_option (\<lambda>ts. rev tok # ts) r"

definition emit_if :: "bool \<Rightarrow> string \<Rightarrow> string list option \<Rightarrow> string list option" where
  "emit_if q tok r = (if tok \<noteq> [] \<or> q then emit tok r else r)"

text \<open>
  The loop of \<open>read_token\<close> over the remaining characters, called again after every
  token. The current token is kept reversed; the flag is the local \<open>quoted\<close>.
\<close>

fun lex :: "lex_conf \<Rightarrow> lex_state \<Rightarrow> bool \<Rightarrow> string \<Rightarrow> string \<Rightarrow> string list option" where
  "lex cf SP q tok [] = Some []"
| "lex cf SP q tok (c # cs) =
     (if c \<in> set (whitespace cf) then lex cf SP False [] cs
      else if c \<in> set (commenters cf) then lex cf COMMENT False [] cs
      else lex cf (fst (start_char cf c)) False (snd (start_char cf c)) cs)"
| "lex cf WORD q tok [] = emit_if q tok (Some [])"
| "lex cf WORD q tok (c # cs) =
     (if c \<in> set (whitespace cf) then emit_if q tok (lex cf SP False [] cs)
      else if c \<in> set (commenters cf) then emit_if q tok (lex cf COMMENT False [] cs)
      else if c = SQ \<or> c = DQ then lex cf (QUOTE c) q tok cs
      else if c = BSL then lex cf ESC_WORD q tok cs
      else if c \<in> set (punct cf) then emit_if q tok (lex cf PUNCT False [c] cs)
      else lex cf WORD q (c # tok) cs)"
| "lex cf PUNCT q tok [] = emit tok (Some [])"
| "lex cf PUNCT q tok (c # cs) =
     (if c \<in> set (whitespace cf) then emit tok (lex cf SP False [] cs)
      else if c \<in> set (commenters cf) then emit tok (lex cf COMMENT False [] cs)
      else if c \<in> set (punct cf) then lex cf PUNCT q (c # tok) cs
      else emit tok (lex cf (fst (start_char cf c)) False (snd (start_char cf c)) cs))"
| "lex cf (QUOTE d) q tok [] = None"
| "lex cf (QUOTE d) q tok (c # cs) =
     (if c = d then lex cf WORD True tok cs
      else if c = BSL \<and> d = DQ then lex cf ESC_DQ True tok cs
      else lex cf (QUOTE d) True (c # tok) cs)"
| "lex cf ESC_WORD q tok [] = None"
| "lex cf ESC_WORD q tok (c # cs) = lex cf WORD q (c # tok) cs"
| "lex cf ESC_DQ q tok [] = None"
| "lex cf ESC_DQ q tok (c # cs) =
     lex cf (QUOTE DQ) True (if c \<noteq> BSL \<and> c \<noteq> DQ then c # BSL # tok else c # tok) cs"
| "lex cf COMMENT q tok [] = Some []"
| "lex cf COMMENT q tok (c # cs) = lex cf (if c = NL then SP else COMMENT) False [] cs"

definition lex_all :: "lex_conf \<Rightarrow> string \<Rightarrow> string list option" where
  "lex_all cf s = lex cf SP False [] s"

text \<open>\<open>shlex.split(s)\<close>\<close>

definition split_conf :: lex_conf where
  "split_conf = \<lparr>commenters = [], whitespace = [CHR '' '', TAB, CR, NL], punct = []\<rparr>"

definition shlex_split :: "string \<Rightarrow> string list option" where
  "shlex_split s = lex_all split_conf s"

text \<open>\<open>shlex.quote\<close> and \<open>shlex.join\<close>\<close>

definition safe_char :: "char \<Rightarrow> bool" where
  "safe_char c \<longleftrightarrow> is_word c \<or> c \<in> set ''@%+=:,./-''"

definition escape_sq :: "string \<Rightarrow> string" where
  "escape_sq s = concat (map (\<lambda>c. if c = SQ then [SQ, DQ, SQ, DQ, SQ] else [c]) s)"

definition shlex_quote :: "string \<Rightarrow> string" where
  "shlex_quote s =
     (if s = [] then [SQ, SQ]
      else if list_all safe_char s then s
      else SQ # escape_sq s @ [SQ])"

definition shlex_join :: "string list \<Rightarrow> string" where
  "shlex_join ws = join_with '' '' (map shlex_quote ws)"

section \<open>Quoting round-trips through the lexer\<close>

text \<open>
  A configuration whose special characters \<open>shlex.quote\<close> would quote, with the space
  that \<open>shlex.join\<close> inserts among its whitespace.
\<close>

definition quoting_conf :: "lex_conf \<Rightarrow> bool" where
  "quoting_conf cf \<longleftrightarrow>
     CHR '' '' \<in> set (whitespace cf) \<and>
     list_all (\<lambda>c. \<not> safe_char c) (commenters cf @ whitespace cf @ punct cf) \<and>
     SQ \<notin> set (commenters cf @ whitespace cf @ punct cf) \<and>
     DQ \<notin> set (commenters cf @ whitespace cf @ punct cf)"

lemma safe_char_plain [simp]: "safe_char c \<Longrightarrow> c \<noteq> SQ \<and> c \<noteq> DQ \<and> c \<noteq> BSL"
proof -
  have "\<not> safe_char SQ" "\<not> safe_char DQ" "\<not> safe_char BSL" by code_simp+
  then show "safe_char c \<Longrightarrow> c \<noteq> SQ \<and> c \<noteq> DQ \<and> c \<noteq> BSL" by metis
qed

lemma quoting_conf_safe:
  "quoting_conf cf \<Longrightarrow> safe_char c \<Longrightarrow>
     c \<notin> set (commenters cf) \<and> c \<notin> set (whitespace cf) \<and> c \<notin> set (punct cf)"
  by (auto simp: quoting_conf_def list_all_iff)

lemma lex_safe_word:
  "quoting_conf cf \<Longrightarrow> list_all safe_char w \<Longrightarrow>
     lex cf WORD q tok (w @ r) = lex cf WORD q (rev w @ tok) r"
proof (induction w arbitrary: tok)
  case (Cons c w)
  then show ?case using quoting_conf_safe [of cf c] by simp
qed simp

lemma lex_escaped:
  "quoting_conf cf \<Longrightarrow>
     lex cf (QUOTE SQ) q tok (escape_sq w @ SQ # r) = lex cf WORD True (rev w @ tok) r"
proof (induction w arbitrary: tok q)
  case (Cons c w)
  then show ?case by (cases "c = SQ") (auto simp: escape_sq_def quoting_conf_def)
qed (simp add: escape_sq_def)

lemma lex_quoted:
  assumes cf: "quoting_conf cf"
  shows "\<exists>q. lex cf SP q0 t0 (shlex_quote w @ r) = lex cf WORD q (rev w) r \<and> (w = [] \<longrightarrow> q)"
proof (cases "w \<noteq> [] \<and> list_all safe_char w")
  case True
  then obtain c w' where w: "w = c # w'" and c: "safe_char c" and w': "list_all safe_char w'"
    by (cases w) auto
  from cf c quoting_conf_safe [of cf c] safe_char_plain [OF c]
  have "lex cf SP q0 t0 (w @ r) = lex cf WORD False [c] (w' @ r)"
    by (simp add: w start_char_def)
  also have "\<dots> = lex cf WORD False (rev w) r"
    using lex_safe_word [OF cf w', of False "[c]" r] w by simp
  finally show ?thesis using True by (auto simp: shlex_quote_def)
next
  case False
  then have "shlex_quote w = SQ # escape_sq w @ [SQ]"
    by (auto simp: shlex_quote_def escape_sq_def)
  moreover from cf have "lex cf SP q0 t0 (SQ # escape_sq w @ SQ # r) = lex cf WORD True (rev w) r"
    using lex_escaped [OF cf, of False "[]" w r] by (simp add: quoting_conf_def start_char_def)
  ultimately show ?thesis by auto
qed

lemma lex_join:
  assumes cf: "quoting_conf cf"
  shows "lex cf SP False [] (shlex_join ws) = Some ws"
proof (induction ws)
  case (Cons w ws)
  have sp: "CHR '' '' \<in> set (whitespace cf)" using cf by (simp add: quoting_conf_def)
  show ?case
  proof (cases ws)
    case Nil
    with lex_quoted [OF cf, of False "[]" w "[]"] show ?thesis
      by (auto simp: shlex_join_def emit_if_def emit_def)
  next
    case (Cons v vs)
    then have "shlex_join (w # ws) = shlex_quote w @ CHR '' '' # shlex_join ws"
      by (simp add: shlex_join_def)
    with lex_quoted [OF cf, of False "[]" w "CHR '' '' # shlex_join ws"] sp Cons.IH show ?thesis
      by (auto simp: emit_if_def emit_def)
  qed
qed (simp add: shlex_join_def)

section \<open>The lexer never makes its input longer\<close>

text \<open>
  Width of a token list: a token made only of separator characters counts nothing, any
  other counts one more than its length, for the character that ended it.
\<close>

definition tok_width :: "string \<Rightarrow> string \<Rightarrow> nat" where
  "tok_width seps t = (if set t \<subseteq> set seps then 0 else Suc (length t))"

definition toks_width :: "string \<Rightarrow> string list \<Rightarrow> nat" where
  "toks_width seps ts = sum_list (map (tok_width seps) ts)"

lemma toks_width_simps [simp]:
  "toks_width seps [] = 0"
  "toks_width seps (t # ts) = tok_width seps t + toks_width seps ts"
  by (simp_all add: toks_width_def)

lemma tok_width_le: "tok_width seps t \<le> Suc (length t)"
  by (simp add: tok_width_def)

definition lex_slack :: "lex_state \<Rightarrow> string \<Rightarrow> nat" where
  "lex_slack st tok =
     (case st of SP \<Rightarrow> 1 | COMMENT \<Rightarrow> 1 | PUNCT \<Rightarrow> 1
      | ESC_WORD \<Rightarrow> length tok + 2 | ESC_DQ \<Rightarrow> length tok + 2 | _ \<Rightarrow> length tok + 1)"

lemma start_char_slack:
  "lex_slack (fst (start_char cf c)) (snd (start_char cf c)) \<le> 2"
  "fst (start_char cf c) = PUNCT \<Longrightarrow> set (snd (start_char cf c)) \<subseteq> set (punct cf)"
  by (auto simp: start_char_def lex_slack_def split: if_splits)

lemma lex_width:
  "set (punct cf) \<subseteq> set seps \<Longrightarrow> (st = PUNCT \<longrightarrow> set tok \<subseteq> set seps) \<Longrightarrow>
   lex cf st q tok s = Some ts \<Longrightarrow> toks_width seps ts \<le> length s + lex_slack st tok"
proof (induction cf st q tok s arbitrary: ts rule: lex.induct)
  case (2 cf q tok c cs)
  then show ?case
    using start_char_slack [of cf c] by (fastforce simp: lex_slack_def split: if_splits)
next
  case (3 cf q tok)
  then show ?case using tok_width_le [of seps "rev tok"]
    by (auto simp: emit_if_def emit_def lex_slack_def split: if_splits)
next
  case (4 cf q tok c cs)
  have w: "tok_width seps (rev tok) \<le> Suc (length tok)" using tok_width_le [of seps "rev tok"] by simp
  show ?case
    using "4.prems" "4.IH" w
    by (fastforce simp: emit_if_def emit_def lex_slack_def split: if_splits)
next
  case (5 cf q tok)
  then show ?case by (auto simp: emit_def lex_slack_def tok_width_def)
next
  case (6 cf q tok c cs)
  then have z: "tok_width seps (rev tok) = 0" by (simp add: tok_width_def)
  show ?case
    using "6.prems" "6.IH" z start_char_slack [of cf c]
    by (fastforce simp: emit_def lex_slack_def split: if_splits)
next
  case (8 cf d q tok c cs)
  then show ?case by (fastforce simp: lex_slack_def split: if_splits)
next
  case (12 cf q tok c cs)
  then show ?case by (fastforce simp: lex_slack_def split: if_splits)
next
  case (14 cf q tok c cs)
  then show ?case by (fastforce simp: lex_slack_def split: if_splits)
qed (auto simp: lex_slack_def)

text \<open>
  Whether the lexer fails depends only on the quoting structure: the automaton below
  forgets the tokens and does not tell whitespace from punctuation.
\<close>

fun lex_shape :: "lex_state \<Rightarrow> lex_state" where
  "lex_shape PUNCT = SP"
| "lex_shape st = st"

definition plain_step :: "(char \<Rightarrow> bool) \<Rightarrow> (char \<Rightarrow> bool) \<Rightarrow> char \<Rightarrow> lex_state" where
  "plain_step special comment c =
     (if special c then SP else if comment c then COMMENT else if c = BSL then ESC_WORD
      else if c = SQ \<or> c = DQ then QUOTE c else WORD)"

fun shape_step :: "(char \<Rightarrow> bool) \<Rightarrow> (char \<Rightarrow> bool) \<Rightarrow> lex_state \<Rightarrow> char \<Rightarrow> lex_state" where
  "shape_step sp cm (QUOTE d) c =
     (if c = d then WORD else if c = BSL \<and> d = DQ then ESC_DQ else QUOTE d)"
| "shape_step sp cm ESC_WORD c = WORD"
| "shape_step sp cm ESC_DQ c = QUOTE DQ"
| "shape_step sp cm COMMENT c = (if c = NL then SP else COMMENT)"
| "shape_step sp cm st c = plain_step sp cm c"

fun lex_open :: "lex_state \<Rightarrow> bool" where
  "lex_open (QUOTE d) = True"
| "lex_open ESC_WORD = True"
| "lex_open ESC_DQ = True"
| "lex_open st = False"

definition special_char :: "lex_conf \<Rightarrow> char \<Rightarrow> bool" where
  "special_char cf c \<longleftrightarrow> c \<in> set (whitespace cf) \<or> c \<in> set (punct cf)"

definition plain_specials :: "lex_conf \<Rightarrow> bool" where
  "plain_specials cf \<longleftrightarrow>
     \<not> special_char cf BSL \<and> \<not> special_char cf SQ \<and> \<not> special_char cf DQ \<and>
     list_all (\<lambda>c. \<not> special_char cf c) (commenters cf)"

lemma emit_None [simp]: "emit tok r = None \<longleftrightarrow> r = None" "emit_if q tok r = None \<longleftrightarrow> r = None"
  by (auto simp: emit_def emit_if_def)

lemma start_char_shape:
  "plain_specials cf \<Longrightarrow> c \<notin> set (whitespace cf) \<Longrightarrow> c \<notin> set (commenters cf) \<Longrightarrow>
     lex_shape (fst (start_char cf c)) = plain_step (special_char cf) (\<lambda>c. c \<in> set (commenters cf)) c"
  by (auto simp: start_char_def plain_step_def special_char_def plain_specials_def)

lemma lex_None_iff:
  "plain_specials cf \<Longrightarrow>
     lex cf st q tok s = None \<longleftrightarrow>
     lex_open (foldl (shape_step (special_char cf) (\<lambda>c. c \<in> set (commenters cf))) (lex_shape st) s)"
proof (induction cf st q tok s rule: lex.induct)
  case (2 cf q tok c cs)
  then show ?case
    using start_char_shape [of cf c]
    by (auto simp: plain_step_def special_char_def plain_specials_def list_all_iff)
next
  case (4 cf q tok c cs)
  then show ?case
    by (auto simp: plain_step_def special_char_def plain_specials_def list_all_iff)
next
  case (6 cf q tok c cs)
  then show ?case
    using start_char_shape [of cf c]
    by (auto simp: plain_step_def special_char_def plain_specials_def list_all_iff)
qed auto

end
