(* ===== verification/GuardTokens.thy ===== *)
theory GuardTokens
  imports Shlex
begin

text \<open>
  The token level of the command guard
  (\<open>backend/app/services/_command_guard_helpers.py\<close>): the decision object, splitting a
  shell line into segments, removing execution wrappers, and reading git arguments.
  Loops over an argument index become recursion on the remaining arguments.
\<close>

section \<open>Decisions\<close>

record decision =
  d_blocked :: bool
  d_code :: "string option"
  d_message :: "string option"
  d_source :: "string option"
  d_command :: string

definition deny :: "string \<Rightarrow> string \<Rightarrow> string \<Rightarrow> string \<Rightarrow> decision" where
  "deny cd msg src cmd =
     \<lparr>d_blocked = True, d_code = Some cd, d_message = Some msg, d_source = Some src, d_command = cmd\<rparr>"

definition allow :: "string \<Rightarrow> decision" where
  "allow cmd =
     \<lparr>d_blocked = False, d_code = None, d_message = None, d_source = None, d_command = cmd\<rparr>"

lemma deny_sel [simp]:
  "d_blocked (deny c m s x)" "d_code (deny c m s x) = Some c" "d_message (deny c m s x) = Some m"
  "d_source (deny c m s x) = Some s" "d_command (deny c m s x) = x"
  by (simp_all add: deny_def)

lemma allow_sel [simp]:
  "\<not> d_blocked (allow x)" "d_code (allow x) = None" "d_message (allow x) = None"
  "d_source (allow x) = None" "d_command (allow x) = x"
  by (simp_all add: allow_def)

section \<open>Constant tables\<close>

definition SHELL_SEPARATORS :: "string list" where
  "SHELL_SEPARATORS = ['';'', ''&&'', ''||'', ''|'']"

definition ASSIGNMENT_RE :: rx where
  "ASSIGNMENT_RE =
     seqs [Bol, Cls (\<lambda>c. is_alpha c \<or> c = CHR ''_''), Star (Cls is_word), chars ''='',
           Star (not_chars [NL]), Eol]"

definition COMMAND_WRAPPERS :: "string list" where
  "COMMAND_WRAPPERS = [''command'', ''builtin'', ''nohup'']"

definition OPTION_WRAPPERS :: "string list" where
  "OPTION_WRAPPERS = [''nice'', ''stdbuf'', ''timeout'']"

definition ENV_OPTIONS_WITH_VALUE :: "string list" where
  "ENV_OPTIONS_WITH_VALUE =
     [''-u'', ''--unset'', ''-C'', ''--chdir'', ''-S'', ''--split-string'', ''--argv0'']"

definition SUDO_OPTIONS_WITH_VALUE :: "string list" where
  "SUDO_OPTIONS_WITH_VALUE =
     [''-u'', ''--user'', ''-g'', ''--group'', ''-h'', ''--host'', ''-p'', ''--prompt'',
      ''-C'', ''--close-from'', ''-T'', ''--command-timeout'', ''-R'', ''--chroot'',
      ''-D'', ''--chdir'']"

definition UV_OPTIONS_WITH_VALUE :: "string list" where
  "UV_OPTIONS_WITH_VALUE =
     [''--extra'', ''--no-extra'', ''--group'', ''--no-group'', ''--only-group'', ''--env-file'', ''-w'', ''--with'',
      ''--with-editable'', ''--with-requirements'', ''--package'', ''--python-platform'', ''--index'', ''--default-index'',
      ''-i'', ''--index-url'', ''--extra-index-url'', ''-f'', ''--find-links'', ''--index-strategy'', ''--keyring-provider'',
      ''--upgrade-group'', ''--resolution'', ''--prerelease'', ''--fork-strategy'', ''--exclude-newer'',
      ''--exclude-newer-package'', ''--no-sources-package'', ''--reinstall-package'', ''--link-mode'',
      ''--config-settings-package'', ''--no-build-isolation-package'', ''--no-build-package'', ''--no-binary-package'',
      ''--cache-dir'', ''--refresh-package'', ''-p'', ''--python'', ''--color'', ''--allow-insecure-host'', ''--directory'',
      ''--project'', ''--config-file'', ''-P'', ''--upgrade-package'', ''-C'', ''--config-setting'', ''--from'',
      ''-c'', ''--constraints'', ''-b'', ''--build-constraints'', ''--overrides'', ''--torch-backend'']"

definition WRAPPER_VALUE_OPTIONS :: "string list" where
  "WRAPPER_VALUE_OPTIONS = [''-n'', ''--adjustment'', ''-s'', ''--signal'', ''-k'', ''--kill-after'']"

definition SHELL_EXECUTABLES :: "string list" where
  "SHELL_EXECUTABLES = [''bash'', ''sh'', ''zsh'', ''ksh'']"

section \<open>Segments\<close>

definition is_assignment :: "string \<Rightarrow> bool" where
  "is_assignment t = rx_match ASSIGNMENT_RE t"

definition normalize_segment :: "string list \<Rightarrow> string" where
  "normalize_segment seg = shlex_join seg"

definition split_segments_conf :: lex_conf where
  "split_segments_conf =
     \<lparr>commenters = ''#'', whitespace = [CHR '' '', TAB, CR, NL], punct = '';&|''\<rparr>"

text \<open>The loop that starts a new segment at every separator token.\<close>

fun group_segments :: "(string \<Rightarrow> bool) \<Rightarrow> string list \<Rightarrow> string list \<Rightarrow> string list list" where
  "group_segments sep current [] = (if current \<noteq> [] then [current] else [])"
| "group_segments sep current (t # ts) =
     (if sep t then (if current \<noteq> [] then [current] else []) @ group_segments sep [] ts
      else group_segments sep (current @ [t]) ts)"

definition split_shell_segments :: "string \<Rightarrow> string list list" where
  "split_shell_segments cmd =
     (case lex_all split_segments_conf cmd of
        None \<Rightarrow> [[cmd]]
      | Some tokens \<Rightarrow> group_segments (\<lambda>t. t \<in> set SHELL_SEPARATORS) [] tokens)"

section \<open>Removing execution wrappers\<close>

text \<open>The option loops of \<open>env\<close> and \<open>sudo\<close>, after the wrapper name.\<close>

fun skip_env_options :: "string list \<Rightarrow> string list \<Rightarrow> string list" where
  "skip_env_options vo [] = []"
| "skip_env_options vo [t] =
     (if t = ''--'' then [] else if startswith t ''-'' \<or> is_assignment t then [] else [t])"
| "skip_env_options vo (t # v # ts) =
     (if t = ''--'' then v # ts
      else if t \<in> set vo then skip_env_options vo ts
      else if startswith t ''-'' \<or> is_assignment t then skip_env_options vo (v # ts)
      else t # v # ts)"

fun skip_exec_options :: "string list \<Rightarrow> string list" where
  "skip_exec_options [] = []"
| "skip_exec_options [t] = (if startswith t ''-'' then [] else [t])"
| "skip_exec_options (t # v # ts) =
     (if \<not> startswith t ''-'' then t # v # ts
      else if t = ''--'' then v # ts
      else if endswith t ''a'' then skip_exec_options ts
      else skip_exec_options (v # ts))"

fun skip_uv_options :: "string list \<Rightarrow> string list" where
  "skip_uv_options [] = []"
| "skip_uv_options [t] = (if startswith t ''-'' then [] else [t])"
| "skip_uv_options (t # v # ts) =
     (if \<not> startswith t ''-'' then t # v # ts
      else if t = ''--'' then v # ts
      else if t \<in> set UV_OPTIONS_WITH_VALUE then skip_uv_options ts
      else skip_uv_options (v # ts))"

definition uv_command :: "string list \<Rightarrow> string list option" where
  "uv_command tokens =
     (let rest = skip_uv_options (tl tokens)
      in if take 1 rest = [''run''] then Some (skip_uv_options (tl rest))
         else if take 1 rest = [''tool''] then
           (let rest2 = skip_uv_options (tl rest)
            in if take 1 rest2 = [''run''] then Some (skip_uv_options (tl rest2)) else None)
         else None)"

text \<open>The option loop of \<open>nice\<close>, \<open>stdbuf\<close> and \<open>timeout\<close>.\<close>

fun skip_wrapper_options :: "string list \<Rightarrow> string list" where
  "skip_wrapper_options [] = []"
| "skip_wrapper_options [t] = (if startswith t ''-'' then [] else [t])"
| "skip_wrapper_options (t # v # ts) =
     (if \<not> startswith t ''-'' then t # v # ts
      else if t \<in> set WRAPPER_VALUE_OPTIONS then skip_wrapper_options ts
      else skip_wrapper_options (v # ts))"

definition lead_name :: "string \<Rightarrow> string" where
  "lead_name t = lower (path_name t)"

text \<open>
  One turn of the wrapper loop: the tokens after the leading wrapper and whether it was
  \<open>sudo\<close>; \<open>None\<close> where the loop breaks.
\<close>

definition unwrap_step :: "string list \<Rightarrow> (string list \<times> bool) option" where
  "unwrap_step tokens =
     (case tokens of
        [] \<Rightarrow> None
      | t # rest \<Rightarrow>
          (let lead = lead_name t in
           if lead = ''env'' then Some (skip_env_options ENV_OPTIONS_WITH_VALUE rest, False)
           else if lead = ''sudo'' then Some (skip_env_options SUDO_OPTIONS_WITH_VALUE rest, True)
           else if lead \<in> set COMMAND_WRAPPERS then Some (rest, False)
           else if lead = ''exec'' then Some (skip_exec_options rest, False)
           else if lead = ''uv'' then map_option (\<lambda>r. (r, False)) (uv_command tokens)
           else if lead = ''uvx'' then Some (skip_uv_options rest, False)
           else if lead \<in> set OPTION_WRAPPERS then
             (let r = skip_wrapper_options rest
              in Some (if lead = ''timeout'' then drop 1 r else r, False))
           else None))"

lemma skip_env_suffix: "suffix_of (skip_env_options vo ts) ts"
  by (induction vo ts rule: skip_env_options.induct) (auto intro: suffix_of_Cons)

lemma skip_exec_suffix: "suffix_of (skip_exec_options ts) ts"
  by (induction ts rule: skip_exec_options.induct) (auto intro: suffix_of_Cons)

lemma skip_uv_suffix: "suffix_of (skip_uv_options ts) ts"
  by (induction ts rule: skip_uv_options.induct) (auto intro: suffix_of_Cons)

lemma skip_wrapper_suffix: "suffix_of (skip_wrapper_options ts) ts"
  by (induction ts rule: skip_wrapper_options.induct) (auto intro: suffix_of_Cons)

lemma uv_command_suffix:
  assumes "uv_command ts = Some r"
  shows "suffix_of r (tl ts)"
proof -
  let ?a = "skip_uv_options (tl ts)"
  let ?b = "skip_uv_options (tl ?a)"
  have a: "suffix_of ?a (tl ts)" and b: "suffix_of ?b ?a" and c: "suffix_of (skip_uv_options (tl ?b)) ?b"
    using skip_uv_suffix suffix_of_tl suffix_of_trans by blast+
  from assms have "r = ?b \<or> r = skip_uv_options (tl ?b)"
    by (auto simp: uv_command_def Let_def split: if_splits)
  with a b c show ?thesis using suffix_of_trans by blast
qed

lemma unwrap_step_suffix:
  assumes "unwrap_step ts = Some (r, p)"
  shows "ts \<noteq> [] \<and> suffix_of r (tl ts)"
proof (cases ts)
  case Nil
  with assms show ?thesis by (simp add: unwrap_step_def)
next
  case (Cons t rest)
  have "suffix_of (drop 1 (skip_wrapper_options rest)) rest"
    using skip_wrapper_suffix suffix_of_drop suffix_of_trans by blast
  with assms Cons show ?thesis
    using skip_env_suffix skip_exec_suffix skip_uv_suffix skip_wrapper_suffix
      uv_command_suffix [of ts r]
    by (auto simp: unwrap_step_def Let_def split: if_splits)
qed

lemma unwrap_step_shorter: "unwrap_step ts = Some (r, p) \<Longrightarrow> length r < length ts"
  using unwrap_step_suffix [of ts r p] suffix_of_length [of r "tl ts"] by (cases ts) auto

text \<open>The \<open>while tokens\<close> loop of \<open>unwrap_segment_with_privilege\<close>.\<close>

function unwrap_loop :: "bool \<Rightarrow> string list \<Rightarrow> string list \<times> bool" where
  "unwrap_loop priv tokens =
     (case unwrap_step tokens of
        None \<Rightarrow> (tokens, priv)
      | Some (rest, sudo) \<Rightarrow> unwrap_loop (priv \<or> sudo) rest)"
  by pat_completeness auto
termination
  by (relation "measure (\<lambda>(p, ts). length ts)") (auto dest: unwrap_step_shorter)

declare unwrap_loop.simps [simp del]

definition unwrap_segment_with_privilege :: "string list \<Rightarrow> string list \<times> bool" where
  "unwrap_segment_with_privilege seg = unwrap_loop False (dropWhile is_assignment seg)"

definition unwrap_segment :: "string list \<Rightarrow> string list" where
  "unwrap_segment seg = fst (unwrap_segment_with_privilege seg)"

section \<open>Git and shell arguments\<close>

definition git_has_flag :: "string list \<Rightarrow> string list \<Rightarrow> bool" where
  "git_has_flag args flags =
     list_ex (\<lambda>a. a \<in> set flags \<or> list_ex (\<lambda>f. startswith a (f @ ''='')) flags) args"

fun shell_exec_args :: "string list \<Rightarrow> string option" where
  "shell_exec_args [] = None"
| "shell_exec_args [a] = None"
| "shell_exec_args (a # b # r) =
     (if a = ''-c'' then Some b
      else if startswith a ''-'' \<and> CHR ''c'' \<in> set (tl a) then Some b
      else shell_exec_args (b # r))"

definition git_paths_after_double_dash :: "string list \<Rightarrow> string list" where
  "git_paths_after_double_dash args =
     filter (\<lambda>t. \<not> startswith t ''-'') (drop 1 (dropWhile (\<lambda>t. t \<noteq> ''--'') args))"

fun strip_git_option_values :: "string list \<Rightarrow> string list \<Rightarrow> string list" where
  "strip_git_option_values vf [] = []"
| "strip_git_option_values vf [t] =
     (if t \<in> set vf then [] else if list_ex (\<lambda>f. startswith t (f @ ''='')) vf then [] else [t])"
| "strip_git_option_values vf (t # v # ts) =
     (if t \<in> set vf then strip_git_option_values vf ts
      else if list_ex (\<lambda>f. startswith t (f @ ''='')) vf then strip_git_option_values vf (v # ts)
      else t # strip_git_option_values vf (v # ts))"

definition git_restore_paths :: "string list \<Rightarrow> string list \<times> bool" where
  "git_restore_paths args =
     (if git_has_flag args [''--staged''] \<and> \<not> git_has_flag args [''--worktree''] then ([], True)
      else let cleaned = strip_git_option_values [''--source'', ''--pathspec-from-file''] args;
               explicit = git_paths_after_double_dash cleaned
           in if explicit \<noteq> [] then (explicit, False)
              else (filter (\<lambda>t. \<not> startswith t ''-'') cleaned, False))"

definition force_pushes_shared_main :: "string list \<Rightarrow> bool" where
  "force_pushes_shared_main args \<longleftrightarrow>
     git_has_flag args [''-f'', ''--force''] \<and>
     list_ex (\<lambda>a. a \<in> set [''main'', ''master'', ''origin/main'', ''origin/master''] \<or>
                  endswith a '':main'' \<or> endswith a '':master'') args"

fun short_flags :: "string list \<Rightarrow> char set" where
  "short_flags [] = {}"
| "short_flags (a # as) =
     (if a = ''--'' then {}
      else (if startswith a ''-'' \<and> \<not> startswith a ''--'' then set (tl a) else {}) \<union> short_flags as)"

fun positionals :: "string list \<Rightarrow> string list \<Rightarrow> string list" where
  "positionals vo [] = []"
| "positionals vo [a] = (if a \<in> set vo \<or> startswith a ''-'' then [] else [a])"
| "positionals vo (a # b # r) =
     (if a \<in> set vo then positionals vo r
      else if \<not> startswith a ''-'' then a # positionals vo (b # r)
      else positionals vo (b # r))"

section \<open>Properties\<close>

lemma group_segments_no_sep:
  "\<forall>t\<in>set ts. \<not> sep t \<Longrightarrow> cur @ ts \<noteq> [] \<Longrightarrow> group_segments sep cur ts = [cur @ ts]"
  by (induction sep cur ts rule: group_segments.induct) auto

lemma group_segments_nonempty: "seg \<in> set (group_segments sep cur ts) \<Longrightarrow> seg \<noteq> []"
  by (induction sep cur ts rule: group_segments.induct) (auto split: if_splits)

lemma split_segments_conf_quoting: "quoting_conf split_segments_conf"
  by code_simp

lemma split_shell_segments_nonempty: "seg \<in> set (split_shell_segments cmd) \<Longrightarrow> seg \<noteq> []"
  by (auto simp: split_shell_segments_def split: option.splits dest: group_segments_nonempty)

lemma unwrap_loop_suffix: "suffix_of (fst (unwrap_loop p ts)) ts"
proof (induction p ts rule: unwrap_loop.induct)
  case (1 p ts)
  show ?case
  proof (cases "unwrap_step ts")
    case None
    then show ?thesis by (simp add: unwrap_loop.simps [of p ts])
  next
    case (Some a)
    then obtain r s where a: "unwrap_step ts = Some (r, s)" by (cases a) auto
    with "1.IH" have "suffix_of (fst (unwrap_loop (p \<or> s) r)) r" by simp
    moreover have "suffix_of r ts"
      using unwrap_step_suffix [OF a] suffix_of_tl suffix_of_trans by blast
    ultimately show ?thesis
      using a suffix_of_trans by (auto simp: unwrap_loop.simps [of p ts])
  qed
qed

lemma unwrap_loop_done: "unwrap_step (fst (unwrap_loop p ts)) = None"
proof (induction p ts rule: unwrap_loop.induct)
  case (1 p ts)
  then show ?case
    by (cases "unwrap_step ts") (auto simp: unwrap_loop.simps [of p ts])
qed

lemma unwrap_segment_suffix: "suffix_of (unwrap_segment seg) seg"
  unfolding unwrap_segment_def unwrap_segment_with_privilege_def
  by (rule suffix_of_trans [OF unwrap_loop_suffix suffix_of_dropWhile])

lemma unwrap_segment_done: "unwrap_step (unwrap_segment seg) = None"
  by (simp add: unwrap_segment_def unwrap_segment_with_privilege_def unwrap_loop_done)

lemma positionals_subset: "set (positionals vo args) \<subseteq> set args"
  by (induction vo args rule: positionals.induct) auto

lemma shell_exec_args_mem: "shell_exec_args args = Some c \<Longrightarrow> c \<in> set (tl args)"
  by (induction args rule: shell_exec_args.induct) (auto split: if_splits dest: list.set_sel(2))

end
