(* ===== verification/GuardPolicy.thy ===== *)
theory GuardPolicy
  imports GuardTokens
begin

text \<open>
  The irreversible-command policy of \<open>_command_guard_helpers.py\<close>, shared by the live
  PreToolUse hook and \<open>evaluate_shell_command\<close>: whole-tree git discards, recursive
  deletion of protected roots, disks, snapshots, backups and Proxmox. A policy answers
  \<open>None\<close> or a denying decision.
\<close>

section \<open>Git\<close>

definition GIT_GLOBAL_OPTIONS_WITH_VALUE :: "string list" where
  "GIT_GLOBAL_OPTIONS_WITH_VALUE =
     [''-c'', ''--config-env'', ''--exec-path'', ''--git-dir'', ''--namespace'', ''--super-prefix'', ''--work-tree'']"

definition DISPOSABLE_ROOTS :: "string list" where
  "DISPOSABLE_ROOTS = [''/tmp'', ''/var/tmp'', ''/dev/shm'', ''/srv/scratch'']"

definition MOUNTED_STORAGE_ROOTS :: "string list" where
  "MOUNTED_STORAGE_ROOTS = [''/mnt'', ''/media'']"

definition PROXMOX_DATA_ROOTS :: "string list" where
  "PROXMOX_DATA_ROOTS = [''/var/lib/vz'', ''/etc/pve'']"

definition BROAD_PATHSPECS :: "string list" where
  "BROAD_PATHSPECS = [''.'', ''./'', '':/'', '':/*'', '':(top)'', ''*'']"

definition STASH_READ_OR_APPLY :: "string list" where
  "STASH_READ_OR_APPLY =
     [''list'', ''show'', ''apply'', ''pop'', ''branch'', ''create'', ''store'']"

definition under :: "string \<Rightarrow> string \<Rightarrow> bool" where
  "under path root \<longleftrightarrow> path = root \<or> startswith path (rstrip_chars ''/'' root @ ''/'')"

text \<open>The global-option loop of \<open>git_invocation\<close> over the tokens after \<open>git\<close>.\<close>

fun git_global :: "user_env \<Rightarrow> string \<Rightarrow> string list \<Rightarrow> (string \<times> string list \<times> string) option" where
  "git_global e git_cwd [] = None"
| "git_global e git_cwd [t] =
     (if startswith t ''-'' then None else Some (t, [], git_cwd))"
| "git_global e git_cwd (t # v # ts) =
     (if t = ''-C'' then git_global e (normpath (path_join git_cwd (expanduser e v))) ts
      else if startswith t ''-C'' then
        git_global e (normpath (path_join git_cwd (expanduser e (drop 2 t)))) (v # ts)
      else if t \<in> set GIT_GLOBAL_OPTIONS_WITH_VALUE then git_global e git_cwd ts
      else if startswith t ''-'' then git_global e git_cwd (v # ts)
      else Some (t, v # ts, git_cwd))"

definition git_invocation :: "user_env \<Rightarrow> string list \<Rightarrow> string \<Rightarrow> (string \<times> string list \<times> string) option" where
  "git_invocation e tokens cwd =
     (if length tokens < 2 \<or> path_name (hd tokens) \<noteq> ''git'' then None
      else git_global e cwd (tl tokens))"

definition git_blocked :: "string \<Rightarrow> string \<Rightarrow> string \<Rightarrow> decision" where
  "git_blocked cd msg cmd = deny cd msg ''git'' cmd"

definition force_push_policy :: "string \<Rightarrow> string list \<Rightarrow> string \<Rightarrow> decision option" where
  "force_push_policy sub args text =
     (if sub = ''push'' \<and> force_pushes_shared_main args then
        Some (git_blocked ''git_force_push_main''
          ''BLOCKED:git push --force main:Force push to main/master destroys shared history; publish with 'st vcs publish'.''
          text)
      else None)"

definition git_reset_policy :: "string \<Rightarrow> string list \<Rightarrow> string \<Rightarrow> decision option" where
  "git_reset_policy sub args text =
     (if sub = ''reset'' \<and> git_has_flag args [''--hard''] then
        Some (git_blocked ''git_reset_hard''
          ''BLOCKED:git reset --hard:Discards every agent's uncommitted work in this shared checkout; restore only your files with 'git restore -- <path>' or checkpoint with 'st commit --paths <path>'.''
          text)
      else None)"

definition git_clean_policy :: "string \<Rightarrow> string list \<Rightarrow> string \<Rightarrow> decision option" where
  "git_clean_policy sub args text =
     (if sub = ''clean'' then
        (let flags = short_flags args;
             forced = CHR ''f'' \<in> flags \<or> git_has_flag args [''--force''];
             dry_run = CHR ''n'' \<in> flags \<or> git_has_flag args [''--dry-run'']
         in if forced \<and> \<not> dry_run then
              Some (git_blocked ''git_clean_fd''
                ''BLOCKED:git clean:Permanently deletes untracked files other agents may own; remove your own files by explicit path (rm <path>), preview with 'git clean -n'.''
                text)
            else None)
      else None)"

definition git_checkout_policy :: "string \<Rightarrow> string list \<Rightarrow> string \<Rightarrow> decision option" where
  "git_checkout_policy sub args text =
     (if sub = ''checkout'' \<and>
         (take 1 args = [''.''] \<or>
          list_ex (\<lambda>p. p \<in> set BROAD_PATHSPECS) (git_paths_after_double_dash args)) then
        Some (git_blocked ''git_checkout_all''
          ''BLOCKED:git checkout .:Discards every agent's uncommitted changes in this shared checkout; name your own files: 'git checkout -- <path>'.''
          text)
      else None)"

definition git_restore_policy :: "string \<Rightarrow> string list \<Rightarrow> string \<Rightarrow> decision option" where
  "git_restore_policy sub args text =
     (if sub = ''restore'' \<and> \<not> snd (git_restore_paths args) \<and>
         list_ex (\<lambda>p. p \<in> set BROAD_PATHSPECS) (fst (git_restore_paths args)) then
        Some (git_blocked ''git_restore_all''
          ''BLOCKED:git restore .:Discards every agent's uncommitted changes in this shared checkout; name your own files: 'git restore -- <path>'.''
          text)
      else None)"

definition stash_action :: "string list \<Rightarrow> string" where
  "stash_action args =
     (case args of [] \<Rightarrow> ''push'' | a # _ \<Rightarrow> if startswith a ''-'' then ''push'' else a)"

definition git_stash_policy :: "string \<Rightarrow> string list \<Rightarrow> string \<Rightarrow> decision option" where
  "git_stash_policy sub args text =
     (if sub = ''stash'' then
        (if stash_action args \<in> set [''drop'', ''clear''] then
           Some (git_blocked ''git_stash_drop''
             ''BLOCKED:git stash drop/clear:Permanently deletes stashed work; leave stashes in place and inspect them with 'git stash list' / 'git stash show'.''
             text)
         else if stash_action args \<notin> set STASH_READ_OR_APPLY then
           Some (git_blocked ''git_stash''
             ''BLOCKED:git stash:Sweeps other agents' uncommitted changes out of this shared checkout; checkpoint your own files with 'st commit --paths <path>' instead.''
             text)
         else None)
      else None)"

definition irreversible_git_decision :: "string \<Rightarrow> string list \<Rightarrow> string \<Rightarrow> bool \<Rightarrow> decision option" where
  "irreversible_git_decision sub args text shared_checkout =
     or_else (force_push_policy sub args text)
       (if \<not> shared_checkout then None
        else or_else (git_reset_policy sub args text)
            (or_else (git_clean_policy sub args text)
            (or_else (git_checkout_policy sub args text)
            (or_else (git_restore_policy sub args text)
                     (git_stash_policy sub args text)))))"

section \<open>Recursive deletion\<close>

text \<open>The \<open>while\<close> loop that turns \<open>dir/*\<close> into \<open>dir\<close>.\<close>

definition ends_in_glob :: "string \<Rightarrow> bool" where
  "ends_in_glob t \<longleftrightarrow> endswith t ''/*'' \<or> endswith t ''/.*''"

definition drop_glob :: "string \<Rightarrow> string" where
  "drop_glob t =
     (let r = (if CHR ''/'' \<in> set t then before_last CHR ''/'' t else ''.'') in if r = [] then ''/'' else r)"

lemma ends_in_glob_split: "ends_in_glob t \<Longrightarrow> \<exists>a b. t = a @ CHR ''/'' # b \<and> CHR ''/'' \<notin> set b \<and> b \<noteq> []"
proof -
  assume "ends_in_glob t"
  then obtain r where "t = r @ CHR ''/'' # ''*'' \<or> t = r @ CHR ''/'' # ''.*''"
    by (auto simp: ends_in_glob_def endswith_iff)
  moreover have "CHR ''/'' \<notin> set ''*''" "CHR ''/'' \<notin> set ''.*''" by simp_all
  ultimately show ?thesis by blast
qed

lemma before_last_split: "CHR ''/'' \<notin> set b \<Longrightarrow> before_last CHR ''/'' (a @ CHR ''/'' # b) = a"
proof -
  assume "CHR ''/'' \<notin> set b"
  then have "dropWhile (\<lambda>x. x \<noteq> CHR ''/'') (rev b @ CHR ''/'' # rev a) = CHR ''/'' # rev a"
    by (subst dropWhile_append2) auto
  then show ?thesis by (simp add: before_last_def)
qed

lemma drop_glob_shorter: "ends_in_glob t \<Longrightarrow> length (drop_glob t) < length t"
proof -
  assume "ends_in_glob t"
  then obtain a b where t: "t = a @ CHR ''/'' # b" "CHR ''/'' \<notin> set b" "b \<noteq> []"
    using ends_in_glob_split by blast
  then show ?thesis by (cases b) (auto simp: drop_glob_def before_last_split Let_def)
qed

function strip_globs :: "string \<Rightarrow> string" where
  "strip_globs t =
     (if t = ''*'' \<or> t = ''.*'' then ''.''
      else if ends_in_glob t then strip_globs (drop_glob t) else t)"
  by pat_completeness auto
termination
  by (relation "measure length") (auto dest: drop_glob_shorter)

declare strip_globs.simps [simp del]

definition subst_home :: "string \<Rightarrow> string \<Rightarrow> string \<Rightarrow> string" where
  "subst_home home pre t =
     (if t = pre \<or> startswith t (pre @ ''/'') then home @ drop (length pre) t else t)"

definition deletion_target :: "user_env \<Rightarrow> string \<Rightarrow> string \<Rightarrow> string option" where
  "deletion_target e token cwd =
     (let home = expanduser e ''~'';
          t1 = subst_home home ''$HOME'' (subst_home home ''${HOME}'' token);
          t2 = expanduser e t1
      in if CHR ''$'' \<in> set t2 \<or> BTICK \<in> set t2 then None
         else Some (normpath (path_join cwd (strip_globs t2))))"

definition protected_deletion_root :: "user_env \<Rightarrow> string \<Rightarrow> bool" where
  "protected_deletion_root e target \<longleftrightarrow>
     count_list target CHR ''/'' \<le> 1 \<or> target = normpath (expanduser e ''~'') \<or>
     dirname target \<in> set [''/home'', ''/srv'', ''/srv/workspaces/projects''] \<or>
     target = ''/srv/workspaces/projects'' \<or>
     list_ex (under target) (MOUNTED_STORAGE_ROOTS @ PROXMOX_DATA_ROOTS)"

text \<open>The operand loop of \<open>irreversible_rm_decision\<close>: whether a recursive flag was seen, and the operands.\<close>

fun rm_scan :: "bool \<Rightarrow> string list \<Rightarrow> bool \<times> string list" where
  "rm_scan options_done [] = (False, [])"
| "rm_scan options_done (t # ts) =
     (if \<not> options_done \<and> t = ''--'' then rm_scan True ts
      else if \<not> options_done \<and> startswith t ''--'' then
        (t = ''--recursive'' \<or> fst (rm_scan options_done ts), snd (rm_scan options_done ts))
      else if \<not> options_done \<and> startswith t ''-'' \<and> t \<noteq> ''-'' then
        (CHR ''r'' \<in> set (tl t) \<or> CHR ''R'' \<in> set (tl t) \<or> fst (rm_scan options_done ts),
         snd (rm_scan options_done ts))
      else (fst (rm_scan options_done ts), t # snd (rm_scan options_done ts)))"

definition rm_protected :: "string \<Rightarrow> string list \<Rightarrow> decision" where
  "rm_protected target tokens =
     deny ''rm_protected_root''
       (''BLOCKED:rm -r '' @ target @ '':Recursive delete of a protected root (home, /srv, workspace or project root, mounted storage) is irreversible; delete the specific subpaths you own instead.'')
       ''dangerous'' (normalize_segment tokens)"

definition irreversible_rm_decision :: "user_env \<Rightarrow> string list \<Rightarrow> string \<Rightarrow> decision option" where
  "irreversible_rm_decision e tokens cwd =
     (if tokens = [] \<or> path_name (hd tokens) \<noteq> ''rm'' then None
      else if \<not> fst (rm_scan False (tl tokens)) then None
      else first_some
             (\<lambda>operand. case deletion_target e operand cwd of
                None \<Rightarrow> None
              | Some target \<Rightarrow>
                  if target \<noteq> [] \<and> protected_deletion_root e target
                  then Some (rm_protected target tokens) else None)
             (snd (rm_scan False (tl tokens))))"

section \<open>Disks\<close>

definition DISK_ADVICE :: string where
  "DISK_ADVICE = ''destroys every byte on a real disk and agents never run it; practice on an image file or loop device under /srv/scratch, or ask the owner to run it.''"

definition HARMLESS_DEVICES :: "string list" where
  "HARMLESS_DEVICES =
     [''/dev/null'', ''/dev/zero'', ''/dev/full'', ''/dev/random'', ''/dev/urandom'',
      ''/dev/stdin'', ''/dev/stdout'', ''/dev/stderr'', ''/dev/tty'']"

definition PARTED_WRITES :: "string list" where
  "PARTED_WRITES =
     [''mklabel'', ''mktable'', ''mkpart'', ''mkpartfs'', ''mkfs'', ''rm'', ''resize'', ''resizepart'',
      ''rescue'', ''name'', ''set'', ''toggle'', ''disk_set'', ''disk_toggle'', ''type'', ''move'', ''cp'']"

definition SGDISK_READ_ONLY :: "string list" where
  "SGDISK_READ_ONLY =
     [''-p'', ''--print'', ''-i'', ''--info'', ''-v'', ''--verify'', ''-O'', ''--print-mbr'', ''-b'', ''--backup'',
      ''-L'', ''--list-types'', ''-P'', ''--pretend'', ''-V'', ''--version'', ''-?'', ''--help'', ''-a'', ''--set-alignment'']"

definition PARTITIONER_READ_ONLY :: "(string \<times> string list) list" where
  "PARTITIONER_READ_ONLY =
     [(''fdisk'', [''-l'', ''--list'', ''-x'', ''--list-details'']),
      (''sfdisk'', [''-l'', ''--list'', ''-d'', ''--dump'', ''-J'', ''--json'', ''-s'', ''--show-size'', ''-V'', ''--verify'',
                    ''-g'', ''--show-geometry'', ''-F'', ''--list-free'', ''-n'', ''--no-act'']),
      (''gdisk'', [''-l'']),
      (''cfdisk'', [])]"

definition CRYPTSETUP_DESTRUCTIVE :: "string list" where
  "CRYPTSETUP_DESTRUCTIVE = [''luksformat'', ''erase'', ''lukserase'', ''lukskillslot'']"

definition FORMATTERS :: "string list" where
  "FORMATTERS = [''mke2fs'', ''mkswap'', ''mkdosfs'', ''mkntfs'', ''mkexfatfs'']"

text \<open>\<open>re.sub(r"[^a-z0-9]+", "_", s)\<close>; the flag says whether the previous character was replaced.\<close>

fun slug_chars :: "bool \<Rightarrow> string \<Rightarrow> string" where
  "slug_chars replaced [] = []"
| "slug_chars replaced (c # cs) =
     (if (97 \<le> char_nat c \<and> char_nat c \<le> 122) \<or> is_digit c then c # slug_chars False cs
      else if replaced then slug_chars True cs else CHR ''_'' # slug_chars True cs)"

definition system_blocked :: "string \<Rightarrow> string \<Rightarrow> string list \<Rightarrow> decision" where
  "system_blocked label reason tokens =
     deny (''irreversible_'' @ rstrip_chars ''_'' (lstrip_chars ''_'' (slug_chars False (lower label))))
          (''BLOCKED:'' @ label @ '':'' @ reason) ''dangerous'' (normalize_segment tokens)"

definition real_device :: "string \<Rightarrow> bool" where
  "real_device token =
     (let v = (if startswith token ''of='' \<or> startswith token ''if='' then after_first CHR ''='' token else token)
      in if CHR ''$'' \<in> set v \<or> BTICK \<in> set v then True
         else if \<not> startswith v ''/dev/'' then False
         else normpath v \<notin> set HARMLESS_DEVICES \<and>
              \<not> has_prefix_of [''/dev/fd/'', ''/dev/shm/'', ''/dev/pts/'', ''/dev/loop''] (normpath v))"

definition device_operands :: "string list \<Rightarrow> bool" where
  "device_operands args = list_ex (\<lambda>a. \<not> startswith a ''-'' \<and> real_device a) args"

definition sgdisk_writes :: "string list \<Rightarrow> bool" where
  "sgdisk_writes options =
     list_ex (\<lambda>opt. (if startswith opt ''--'' then opt else take 2 opt) \<notin> set SGDISK_READ_ONLY) options"

definition disk_decision :: "string \<Rightarrow> string list \<Rightarrow> decision option" where
  "disk_decision name tokens =
     (let args = tl tokens in
      if startswith name ''mkfs'' \<or> name \<in> set FORMATTERS \<or> name = ''blkdiscard'' then
        (if device_operands args
         then Some (system_blocked name (''Formatting or discarding a device '' @ DISK_ADVICE) tokens) else None)
      else if name = ''wipefs'' then
        (let flags = short_flags args;
             erasing = CHR ''a'' \<in> flags \<or> CHR ''o'' \<in> flags \<or> git_has_flag args [''--all'', ''--offset''];
             dry_run = CHR ''n'' \<in> flags \<or> git_has_flag args [''--no-act'']
         in if erasing \<and> \<not> dry_run \<and> device_operands args
            then Some (system_blocked ''wipefs''
                   (''Erasing filesystem signatures '' @ DISK_ADVICE @ '' List with plain 'wipefs <dev>'.'') tokens)
            else None)
      else if name = ''dd'' then
        (if list_ex (\<lambda>a. startswith a ''of='' \<and> real_device a) args
         then Some (system_blocked ''dd of=/dev''
                (''Writing raw data to a device '' @ DISK_ADVICE @ '' Write to a regular file instead.'') tokens)
         else None)
      else if name = ''parted'' then
        (if device_operands args \<and> list_ex (\<lambda>a. lower a \<in> set PARTED_WRITES) args
         then Some (system_blocked ''parted''
                (''Changing a partition table '' @ DISK_ADVICE @ '' Inspect with 'parted -l' or 'parted <dev> print'.'') tokens)
         else None)
      else if name = ''sgdisk'' then
        (let options = map (before_first CHR ''='') (filter (\<lambda>a. startswith a ''-'') args)
         in if sgdisk_writes options \<and> ''-P'' \<notin> set options \<and> ''--pretend'' \<notin> set options \<and> device_operands args
            then Some (system_blocked ''sgdisk'' (''Changing a GPT '' @ DISK_ADVICE @ '' Inspect with 'sgdisk -p <dev>'.'') tokens)
            else None)
      else (case map_of PARTITIONER_READ_ONLY name of
              Some read_only \<Rightarrow>
                (if \<not> list_ex (\<lambda>a. before_first CHR ''='' a \<in> set read_only) args \<and> device_operands args
                 then Some (system_blocked name (''Repartitioning a disk '' @ DISK_ADVICE @ '' Inspect with 'lsblk' or 'fdisk -l'.'') tokens)
                 else None)
            | None \<Rightarrow>
                (if name = ''cryptsetup'' \<and> list_ex (\<lambda>a. lower a \<in> set CRYPTSETUP_DESTRUCTIVE) args \<and> device_operands args
                 then Some (system_blocked ''cryptsetup''
                        (''Formatting or erasing a LUKS header makes the data unrecoverable; it '' @ DISK_ADVICE) tokens)
                 else None)))"

section \<open>Snapshots and backups\<close>

definition SNAPSHOT_STORE :: string where
  "SNAPSHOT_STORE = ''/mnt/summitflow-native''"

definition RESTIC_OPTIONS_WITH_VALUE :: "string list" where
  "RESTIC_OPTIONS_WITH_VALUE =
     [''-r'', ''--repo'', ''--repository-file'', ''-p'', ''--password-file'', ''--password-command'',
      ''--cacert'', ''--cache-dir'', ''-o'', ''--option'', ''--limit-upload'', ''--limit-download'',
      ''--tls-client-cert'', ''--pack-size'', ''--compression'', ''--key-hint'', ''--retry-lock'',
      ''--stuck-request-timeout'', ''--http-user-agent'']"

definition RCLONE_DESTRUCTIVE :: "string list" where
  "RCLONE_DESTRUCTIVE = [''delete'', ''purge'', ''deletefile'', ''cleanup'', ''rmdirs'', ''rmdir'']"

definition RCLONE_MIRRORS :: "string list" where
  "RCLONE_MIRRORS = [''sync'', ''move'']"

definition RCLONE_OPTIONS_WITH_VALUE :: "string list" where
  "RCLONE_OPTIONS_WITH_VALUE =
     [''--config'', ''--transfers'', ''--checkers'', ''--exclude'', ''--include'', ''--filter'', ''--exclude-from'',
      ''--include-from'', ''--filter-from'', ''--files-from'', ''--backup-dir'', ''--suffix'', ''--log-file'',
      ''--log-level'', ''--bwlimit'', ''--max-age'', ''--min-age'', ''--max-size'', ''--min-size'', ''--max-delete'',
      ''--max-transfer'', ''--compare-dest'', ''--copy-dest'', ''--tpslimit'', ''--retries'', ''--low-level-retries'',
      ''--timeout'', ''--contimeout'', ''--stats'', ''--order-by'', ''--drive-root-folder-id'', ''--user-agent'']"

definition BTRBK_OPTIONS_WITH_VALUE :: "string list" where
  "BTRBK_OPTIONS_WITH_VALUE =
     [''-c'', ''--config'', ''-l'', ''--loglevel'', ''--format'', ''--lockfile'', ''--override'']"

definition RCLONE_REMOTE :: rx where
  "RCLONE_REMOTE =
     seqs [Bol, Cls is_word, Star (Cls (\<lambda>c. is_word c \<or> c \<in> set ''. -'')), chars '':'']"

definition FIND_GLOBAL_OPTIONS :: "string list" where
  "FIND_GLOBAL_OPTIONS = [''-H'', ''-L'', ''-P'']"

definition FIND_SELECTIVE :: "string list" where
  "FIND_SELECTIVE =
     [''-name'', ''-iname'', ''-path'', ''-ipath'', ''-wholename'', ''-iwholename'', ''-regex'', ''-iregex'',
      ''-lname'', ''-ilname'', ''-empty'', ''-samefile'', ''-inum'']"

definition DELETING_EXECUTABLES :: "string list" where
  "DELETING_EXECUTABLES = [''rm'', ''rmdir'', ''unlink'', ''shred'']"

definition SSH_OPTIONS_WITH_VALUE :: string where
  "SSH_OPTIONS_WITH_VALUE = ''BbcDEeFIiJLlmOoPpQRSWw''"

definition snapshot_target :: "user_env \<Rightarrow> string \<Rightarrow> string \<Rightarrow> bool" where
  "snapshot_target e raw cwd =
     (let target = deletion_target e raw cwd;
          text = lower (case target of Some t \<Rightarrow> t | None \<Rightarrow> raw);
          parts = split_on CHR ''/'' text
      in (case target of
            Some t \<Rightarrow> under t SNAPSHOT_STORE \<or> protected_deletion_root e t
          | None \<Rightarrow> False) \<or>
         ''.btrbk'' \<in> set parts \<or> ''.snapshots'' \<in> set parts \<or>
         list_ex (\<lambda>p. contains p ''snap'' \<or> contains p ''btrbk'') parts)"

definition btrfs_decision :: "user_env \<Rightarrow> string list \<Rightarrow> string \<Rightarrow> decision option" where
  "btrfs_decision e tokens cwd =
     (let words = positionals [''-i'', ''--subvolid'', ''--format''] (tl tokens) in
      case words of
        grp # action # target0 # targets \<Rightarrow>
          (if length grp < 2 \<or> \<not> startswith ''subvolume'' grp \<or> \<not> startswith ''delete'' action then None
           else if list_ex (\<lambda>t. snapshot_target e t cwd) (target0 # targets) then
             Some (system_blocked ''btrfs subvolume delete''
               ''Deleting btrbk/snapper snapshots or subvolumes on protected storage destroys backup history; snapshot retention belongs to btrbk/snapper. Inspect with 'btrfs subvolume list'.''
               tokens)
           else None)
      | _ \<Rightarrow> None)"

definition restic_decision :: "string list \<Rightarrow> decision option" where
  "restic_decision tokens =
     (let words = positionals RESTIC_OPTIONS_WITH_VALUE (tl tokens);
          dry_run = git_has_flag tokens [''--dry-run''] \<or> CHR ''n'' \<in> short_flags (tl tokens)
      in case words of
           [] \<Rightarrow> None
         | w # ws \<Rightarrow>
             if (w \<in> set [''forget'', ''prune''] \<and> \<not> dry_run) \<or>
                (w = ''key'' \<and> (take 1 ws = [''remove''] \<or> take 1 ws = [''rm'']))
             then Some (system_blocked (''restic '' @ w)
               ''Permanently deletes backup snapshots, data, or keys; retention runs only from the scheduled SummitFlow backup jobs. Inspect with 'restic snapshots' or preview with '--dry-run'.''
               tokens)
             else None)"

definition rclone_command :: "string list \<Rightarrow> string option" where
  "rclone_command args = List.find (\<lambda>a. a \<in> set RCLONE_DESTRUCTIVE \<or> a \<in> set RCLONE_MIRRORS) args"

definition rclone_decision :: "string list \<Rightarrow> decision option" where
  "rclone_decision tokens =
     (let args = tl tokens in
      case rclone_command args of
        None \<Rightarrow> None
      | Some cmd \<Rightarrow>
          if git_has_flag args [''--dry-run''] \<or> ''-n'' \<in> set args then None
          else let operands = positionals RCLONE_OPTIONS_WITH_VALUE (drop 1 (dropWhile (\<lambda>a. a \<noteq> cmd) args)) in
               if cmd \<in> set RCLONE_MIRRORS then
                 (if length operands \<ge> 2 \<and> rx_match RCLONE_REMOTE (operands ! 1)
                  then Some (system_blocked (''rclone '' @ cmd)
                    ''Mirroring onto a remote deletes destination files that the source lacks (offsite backups such as summitflow-drive live there); offsite uploads run only from the scheduled backup jobs. Preview with --dry-run, or use 'rclone copy', which never deletes.''
                    tokens)
                  else None)
               else if list_ex (rx_match RCLONE_REMOTE) operands
               then Some (system_blocked (''rclone '' @ cmd)
                 ''Deletes files on a remote (offsite backups such as summitflow-drive live there); offsite expiry runs only from the scheduled backup jobs. Inspect with 'rclone ls'/'rclone lsd' or add --dry-run.''
                 tokens)
               else None)"

definition btrbk_decision :: "string list \<Rightarrow> decision option" where
  "btrbk_decision tokens =
     (let words = positionals BTRBK_OPTIONS_WITH_VALUE (tl tokens);
          dry_run = git_has_flag (tl tokens) [''--dry-run''] \<or> CHR ''n'' \<in> short_flags (tl tokens)
      in case words of
           [] \<Rightarrow> None
         | w # ws \<Rightarrow>
             if w \<in> set [''clean'', ''prune''] \<and> \<not> dry_run
             then Some (system_blocked (''btrbk '' @ w)
               ''Deletes btrbk snapshots and backups outside the scheduled retention run; preview with 'btrbk -n' / '--dry-run' or inspect with 'btrbk list'.''
               tokens)
             else None)"

definition dmsetup_decision :: "string list \<Rightarrow> decision option" where
  "dmsetup_decision tokens =
     (case positionals [''-j'', ''--major'', ''-m'', ''--minor'', ''-u'', ''--uuid''] (tl tokens) of
        [] \<Rightarrow> None
      | w # targets \<Rightarrow>
          if w \<notin> set [''remove'', ''remove_all''] then None
          else if w = ''remove_all'' \<or> targets = [] \<or> list_ex (\<lambda>t. \<not> contains (lower t) ''loop'') targets
          then Some (system_blocked (''dmsetup '' @ w)
            ''Tearing down a device-mapper device (LUKS, LVM) under a mounted system can corrupt or strand its data; only loop-backed scratch mappings may be removed. Inspect with 'dmsetup ls'.''
            tokens)
          else None)"

section \<open>find, Proxmox, and the dispatch\<close>

definition find_starts :: "string list \<Rightarrow> string list" where
  "find_starts args =
     takeWhile (\<lambda>a. \<not> startswith a ''-'' \<and> a \<notin> set [''('', ''!'', '','']) args"

definition find_expression :: "string list \<Rightarrow> string list" where
  "find_expression args =
     dropWhile (\<lambda>a. \<not> startswith a ''-'' \<and> a \<notin> set [''('', ''!'', '','']) args"

fun find_execs_deleter :: "string list \<Rightarrow> bool" where
  "find_execs_deleter [] = False"
| "find_execs_deleter [a] = False"
| "find_execs_deleter (a # b # r) =
     ((a \<in> set [''-exec'', ''-execdir'', ''-ok'', ''-okdir''] \<and> path_name b \<in> set DELETING_EXECUTABLES) \<or>
      find_execs_deleter (b # r))"

definition find_args :: "string list \<Rightarrow> string list" where
  "find_args args0 =
     (let args1 = dropWhile (\<lambda>a. a \<in> set FIND_GLOBAL_OPTIONS \<or> startswith a ''-O'') args0
      in if take 1 args1 = [''-D''] then drop 2 args1 else args1)"

definition find_decision :: "user_env \<Rightarrow> string list \<Rightarrow> string \<Rightarrow> decision option" where
  "find_decision e tokens cwd =
     (let args = find_args (tl tokens);
          starts = find_starts args;
          expr = find_expression args;
          deleting = (''-delete'' \<in> set expr \<or> find_execs_deleter expr);
          selective = list_ex (\<lambda>a. a \<in> set FIND_SELECTIVE) expr
      in if \<not> deleting then None
         else first_some
                (\<lambda>start. case deletion_target e start cwd of
                   None \<Rightarrow> None
                 | Some target \<Rightarrow>
                     if list_ex (under target) (MOUNTED_STORAGE_ROOTS @ PROXMOX_DATA_ROOTS) \<or>
                        (protected_deletion_root e target \<and> \<not> selective)
                     then Some (system_blocked (''find '' @ target @ '' -delete'')
                       ''Bulk delete across a protected root (home, /srv, workspace or project root, mounted storage) is irreversible; narrow it with -name/-path to files you own, or delete specific subpaths.''
                       tokens)
                     else None)
                (if starts = [] then [''.''] else starts))"

definition proxmox_advice :: string where
  "proxmox_advice = ''destroys Proxmox/LVM/ZFS storage or guests with no undo; VM and storage lifecycle is owner-run. Inspect with 'qm list', 'pct list', 'lvs', 'zfs list', or 'pvesm status'.''"

definition proxmox_decision :: "string \<Rightarrow> string list \<Rightarrow> decision option" where
  "proxmox_decision name tokens =
     (let words = positionals [] (tl tokens) in
      if name \<in> set [''qm'', ''pct''] \<and> take 1 words = [''destroy'']
      then Some (system_blocked (name @ '' destroy'') (''This '' @ proxmox_advice) tokens)
      else if name \<in> set [''lvremove'', ''vgremove'', ''pvremove''] \<and> \<not> git_has_flag (tl tokens) [''-t'', ''--test'']
      then Some (system_blocked name (''This '' @ proxmox_advice) tokens)
      else if name \<in> set [''zfs'', ''zpool''] \<and> take 1 words = [''destroy''] \<and> CHR ''n'' \<notin> short_flags (tl tokens)
      then Some (system_blocked (name @ '' destroy'') (''This '' @ proxmox_advice) tokens)
      else if name = ''pvesm'' \<and> take 1 words = [''free'']
      then Some (system_blocked ''pvesm free'' (''This '' @ proxmox_advice) tokens)
      else if name = ''pvesh'' \<and> take 1 words = [''delete'']
      then Some (system_blocked ''pvesh delete'' (''This API call '' @ proxmox_advice) tokens)
      else None)"

definition irreversible_system_decision :: "user_env \<Rightarrow> string list \<Rightarrow> string \<Rightarrow> decision option" where
  "irreversible_system_decision e tokens cwd =
     (if tokens = [] then None
      else let name = path_name (hd tokens) in
           if name = ''rm'' then irreversible_rm_decision e tokens cwd
           else if name = ''find'' then find_decision e tokens cwd
           else if name = ''btrfs'' then btrfs_decision e tokens cwd
           else if name = ''restic'' then restic_decision tokens
           else if name = ''rclone'' then rclone_decision tokens
           else if name = ''btrbk'' then btrbk_decision tokens
           else if name = ''dmsetup'' then dmsetup_decision tokens
           else or_else (disk_decision name tokens) (proxmox_decision name tokens))"

text \<open>
  The option loop of \<open>ssh_remote_command\<close>: an option cluster takes the next argument when
  its first value-taking letter is its last character.
\<close>

definition ssh_takes_next :: "string \<Rightarrow> bool" where
  "ssh_takes_next token =
     (case dropWhile (\<lambda>c. c \<notin> set SSH_OPTIONS_WITH_VALUE) (tl token) of
        [] \<Rightarrow> False | _ # rest \<Rightarrow> rest = [])"

fun skip_ssh_options :: "string list \<Rightarrow> string list" where
  "skip_ssh_options [] = []"
| "skip_ssh_options [t] = (if startswith t ''-'' then [] else [t])"
| "skip_ssh_options (t # v # ts) =
     (if \<not> startswith t ''-'' then t # v # ts
      else if t = ''--'' then v # ts
      else if ssh_takes_next t then skip_ssh_options ts
      else skip_ssh_options (v # ts))"

definition ssh_remote_command :: "string list \<Rightarrow> string option" where
  "ssh_remote_command args =
     (let remote = tl (skip_ssh_options (tl args))
      in if remote = [] then None else Some (join_with '' '' remote))"

definition irreversible_segment_decision :: "user_env \<Rightarrow> string list \<Rightarrow> string \<Rightarrow> decision option" where
  "irreversible_segment_decision e tokens cwd =
     or_else (irreversible_system_decision e tokens cwd)
       (case git_invocation e tokens cwd of
          None \<Rightarrow> None
        | Some (sub, args, git_cwd) \<Rightarrow>
            irreversible_git_decision sub args (normalize_segment tokens)
              (\<not> list_ex (under git_cwd) DISPOSABLE_ROOTS))"

end
