(* ===== verification/PublicationGuard.thy ===== *)
theory PublicationGuard
  imports GuardPolicy
begin

text \<open>
  The policies behind the synchronous tool-use hook
  (\<open>backend/app/services/_publication_guard.py\<close>): heredoc splitting, command
  substitutions, segments, and the publication and irreversible evaluators, which call
  themselves on every nested command.

  The evaluators take the depth of Python frames still available; a nested command one
  frame deeper than that is a \<open>RecursionError\<close>. \<open>os.getcwd()\<close> is the argument
  \<open>here\<close>, \<open>None\<close> when it raises \<open>OSError\<close>.
\<close>

datatype guard_error = RecursionError | OSError | ValueError string

definition REMOTE_CWD :: string where
  "REMOTE_CWD = ''/root''"

definition READ_ONLY :: "string list" where
  "READ_ONLY = [''rg'', ''grep'', ''cat'', ''less'', ''head'', ''tail'', ''echo'', ''printf'']"

definition DATA_SINKS :: "string list" where
  "DATA_SINKS = [''cat'', ''tee'']"

definition SHELL_KEYWORDS :: "string list" where
  "SHELL_KEYWORDS = [''if'', ''then'', ''elif'', ''else'', ''do'', ''while'', ''until'', ''!'', ''time'']"

definition HTTP_CLIENTS :: "string list" where
  "HTTP_CLIENTS = [''curl'', ''wget'', ''http'', ''https'', ''xh'', ''xhs'']"

definition HTTP_BODY_OPTIONS :: "string list" where
  "HTTP_BODY_OPTIONS =
     [''--data'', ''--data-raw'', ''--data-binary'', ''--data-urlencode'', ''--json'', ''--form'', ''--upload-file'',
      ''--post-data'', ''--post-file'', ''--body-data'', ''--body-file'']"

definition MUTATING_VERBS :: "string list" where
  "MUTATING_VERBS = [''POST'', ''PUT'', ''PATCH'', ''DELETE'']"

definition SEPARATOR_CHARS :: string where
  "SEPARATOR_CHARS = [CHR '';'', CHR ''&'', CHR ''|'', NL]"

definition XARGS_VALUE_OPTIONS :: "string list" where
  "XARGS_VALUE_OPTIONS =
     [''-a'', ''-d'', ''-E'', ''-I'', ''-L'', ''-n'', ''-P'', ''-s'', ''--arg-file'', ''--delimiter'', ''--max-args'',
      ''--max-procs'', ''--max-lines'', ''--max-chars'', ''--process-slot-var'']"

definition rx_space :: rx where
  "rx_space = Cls is_space"

definition rx_nonspace :: rx where
  "rx_nonspace = Cls (\<lambda>c. \<not> is_space c)"

definition DISABLE_RE :: rx where
  "DISABLE_RE = alts [
     seqs [alts [lit_ci ''--no-verify'', lit_ci ''--dangerously-bypass-hook-trust'', lit_ci ''--disable-hooks''], WordB],
     seqs [alts [lit_ci ''SF_COMMAND_GUARD_DISABLE'', lit_ci ''GIT_ALLOW_SECRET'', lit_ci ''SECRETGUARD_DISABLE''],
           Star rx_space, lit ''='', Star rx_space, opt (chars [DQ, SQ]), lit ''1''],
     seqs [alts [lit_ci ''core.hookspath'', lit_ci ''hooks.enabled''], Star rx_space, lit ''=''],
     seqs [alts [seqs [lit_ci ''--disable'', plus rx_space, lit_ci ''hooks''],
                 seqs [lit_ci ''features.hooks'', Star rx_space, lit ''='', Star rx_space, lit_ci ''false'']], WordB],
     seqs [lit_ci ''git'', plus rx_space, lit_ci ''config'', WordB, Star (not_chars [NL]),
           alts [lit_ci ''--unset'', lit_ci ''--remove-section''], Star (not_chars [NL]),
           alts [lit_ci ''core.hooks'', lit_ci ''hooks'']]]"

definition MUTATING_METHOD :: rx where
  "MUTATING_METHOD = seqs [
     alts [seqs [lit_ci ''-X'', alts [lit ''='', Star rx_space]],
           seqs [lit ''--'', alts [lit_ci ''method'', lit_ci ''request''], alts [lit ''='', plus rx_space]]],
     opt (chars [DQ, SQ]), alts [lit_ci ''POST'', lit_ci ''PUT'', lit_ci ''PATCH'', lit_ci ''DELETE''], WordB]"

definition GITHUB_API :: rx where
  "GITHUB_API = seqs [WordB, alts [lit ''api'', lit ''uploads''], lit ''.github.com'', WordB]"

definition HEREDOC :: rx where
  "HEREDOC = seqs [
     NotBehind (\<lambda>c. c = CHR ''<'' \<or> is_word c), lit ''<<'', Grp 1 (opt (lit ''-'')), Star (chars [CHR '' '', TAB]),
     alts [seqs [lit [SQ], Grp 2 (plus (not_chars [SQ, NL])), lit [SQ]],
           seqs [lit [DQ], Grp 3 (plus (not_chars [DQ, NL])), lit [DQ]],
           seqs [opt (lit [BSL]),
                 Grp 4 (seqs [Cls (\<lambda>c. is_alpha c \<or> c = CHR ''_''),
                              Star (Cls (\<lambda>c. is_word c \<or> c = CHR ''.'' \<or> c = CHR ''-''))])]]]"

definition SUBSTITUTION :: rx where
  "SUBSTITUTION = alts [
     seqs [lit ''$('', Grp 1 (Star (not_chars ''()'')), lit '')''],
     seqs [lit [BTICK], Grp 2 (Star (not_chars [BTICK])), lit [BTICK]]]"

definition BEFORE_SPLIT :: rx where
  "BEFORE_SPLIT = alts [lit ''$('', lit [BTICK], lit ''('', lit '';'', lit ''&&'', lit ''||'', lit ''|'']"

definition PIPELINE_SPLIT :: rx where
  "PIPELINE_SPLIT = alts [lit '';'', lit ''&&'', lit ''||'']"

definition OUTER_SPLIT :: rx where
  "OUTER_SPLIT = alts [lit '';'', lit ''&&'', lit ''||'', lit ''|'', lit ''$('', lit [BTICK], lit ''('']"

section \<open>Segments\<close>

definition segments_conf :: lex_conf where
  "segments_conf = \<lparr>commenters = ''#'', whitespace = [CHR '' '', TAB, CR], punct = SEPARATOR_CHARS\<rparr>"

definition separator_token :: "string \<Rightarrow> bool" where
  "separator_token t \<longleftrightarrow> t \<noteq> [] \<and> list_all (\<lambda>c. c \<in> set SEPARATOR_CHARS) t"

text \<open>The clean-up of one segment: leading group tokens, then brackets glued to the first and last token.\<close>

definition clean_segment :: "string list \<Rightarrow> string list option" where
  "clean_segment segment =
     (case dropWhile (\<lambda>t. t \<in> set [''('', ''{'', ''!'']) segment of
        [] \<Rightarrow> None
      | t # ts \<Rightarrow>
          (let s1 = lstrip_chars ''({'' t # ts;
               s2 = butlast s1 @ [rstrip_chars '')}'' (last s1)];
               s3 = filter (\<lambda>t. t \<noteq> []) s2
           in Some (if s3 \<noteq> [] then s3 else s2)))"

definition segments :: "string \<Rightarrow> string list list" where
  "segments cmd =
     (case lex_all segments_conf cmd of
        None \<Rightarrow> split_shell_segments cmd
      | Some tokens \<Rightarrow> List.map_filter clean_segment (group_segments separator_token [] tokens))"

text \<open>\<open>_unwrap\<close>: wrappers, shell keywords and \<open>xargs\<close> in front of the command.\<close>

fun skip_xargs_options :: "string list \<Rightarrow> string list" where
  "skip_xargs_options [] = []"
| "skip_xargs_options [t] = (if startswith t ''-'' then [] else [t])"
| "skip_xargs_options (t # v # ts) =
     (if \<not> startswith t ''-'' then t # v # ts
      else if t \<in> set XARGS_VALUE_OPTIONS then skip_xargs_options ts
      else skip_xargs_options (v # ts))"

lemma skip_xargs_suffix: "suffix_of (skip_xargs_options ts) ts"
  by (induction ts rule: skip_xargs_options.induct) (auto intro: suffix_of_Cons)

function unwrap_args :: "string list \<Rightarrow> string list" where
  "unwrap_args args =
     (case args of
        [] \<Rightarrow> []
      | t # rest \<Rightarrow>
          if t \<in> set SHELL_KEYWORDS then unwrap_args (unwrap_segment rest)
          else if lead_name t = ''xargs'' then unwrap_args (unwrap_segment (skip_xargs_options rest))
          else args)"
  by pat_completeness auto
termination
proof (relation "measure length", goal_cases)
  case (2 args t rest)
  then show ?case using suffix_of_length [OF unwrap_segment_suffix [of rest]] by simp
next
  case (3 args t rest)
  have "length (unwrap_segment (skip_xargs_options rest)) \<le> length rest"
    using suffix_of_length [OF unwrap_segment_suffix] suffix_of_length [OF skip_xargs_suffix] le_trans by blast
  with 3 show ?case by simp
qed simp

declare unwrap_args.simps [simp del]

definition unwrap :: "string list \<Rightarrow> string list" where
  "unwrap segment = unwrap_args (unwrap_segment segment)"

section \<open>Heredocs and substitutions\<close>

definition truthy :: "string option \<Rightarrow> string option" where
  "truthy s = (case s of None \<Rightarrow> None | Some t \<Rightarrow> if t = [] then None else Some t)"

definition str_or :: "string option \<Rightarrow> string \<Rightarrow> string" where
  "str_or s d = (case s of None \<Rightarrow> d | Some t \<Rightarrow> t)"

definition substitutions :: "string \<Rightarrow> string list" where
  "substitutions cmd =
     map (\<lambda>m. str_or (or_else (truthy (rx_group m 1)) (rx_group m 2)) []) (rx_finditer SUBSTITUTION cmd)"

text \<open>\<open>s.rfind(p)\<close>\<close>

definition rfind :: "string \<Rightarrow> string \<Rightarrow> int" where
  "rfind s p =
     (case rev (filter (\<lambda>i. startswith (drop i s) p) [0..<Suc (length s)]) of
        [] \<Rightarrow> - 1 | i # _ \<Rightarrow> int i)"

definition unquote_char :: "char \<Rightarrow> char" where
  "unquote_char c = (if c = DQ \<or> c = SQ then CHR '' '' else c)"

definition inert_output :: "string \<Rightarrow> bool" where
  "inert_output prefix =
     (let cut = max (rfind prefix ''$('') (rfind prefix [BTICK])
      in if cut < 0 then True
         else let outer = rx_split_last OUTER_SPLIT (take (nat cut) prefix);
                  words = map lead_name (split_ws (map unquote_char outer))
              in words \<noteq> [] \<and> \<not> list_ex (\<lambda>w. w \<in> set (SHELL_EXECUTABLES @ [''eval'', ''source'', ''.''])) words)"

datatype consumer = Shell | Data | Other

text \<open>The loop over the downstream parts of the pipeline.\<close>

definition pipes_to_shell :: "string list \<Rightarrow> bool" where
  "pipes_to_shell downstream =
     list_ex (\<lambda>part. case shlex_split part of
                None \<Rightarrow> True
              | Some ws \<Rightarrow> (case unwrap ws of [] \<Rightarrow> False | p # _ \<Rightarrow> lead_name p \<in> set SHELL_EXECUTABLES))
             downstream"

definition remote_reads_stdin :: "string list \<Rightarrow> bool" where
  "remote_reads_stdin args =
     (case (case ssh_remote_command args of None \<Rightarrow> [] | Some r \<Rightarrow> split_ws r) of
        [] \<Rightarrow> True
      | r # rs \<Rightarrow> lead_name r \<in> set SHELL_EXECUTABLES \<and> ''-c'' \<notin> set (r # rs))"

definition heredoc_consumer :: "string \<Rightarrow> rx_hit \<Rightarrow> consumer" where
  "heredoc_consumer line m =
     (let before_op = rx_split_last BEFORE_SPLIT (hit_pre m);
          pipeline = rx_split_first PIPELINE_SPLIT (hit_post m);
          downstream = map strip (tl (split_on CHR ''|'' pipeline))
      in case shlex_split before_op of
           None \<Rightarrow> Other
         | Some ws \<Rightarrow>
             (let args = unwrap ws;
                  executable = (if args = [] then [] else lead_name (hd args))
              in if pipes_to_shell downstream then Shell
                 else if executable \<in> set SHELL_EXECUTABLES \<and> shell_exec_args (tl args) = None then Shell
                 else if executable = ''ssh'' \<and> remote_reads_stdin args then Shell
                 else if executable \<in> set DATA_SINKS \<and>
                         ((if executable = ''cat''
                           then CHR ''>'' \<in> set (before_op @ '' '' @ hd (split_on CHR ''|'' pipeline))
                           else list_ex (\<lambda>a. \<not> startswith a ''-'') (tl args)) \<or>
                          (executable = ''cat'' \<and> inert_output (hit_pre m))) \<and>
                         downstream = [] then Data
                 else Other))"

text \<open>
  The inner loops of \<open>_split_heredocs\<close>: the lines of one body up to its closing line, then
  the bodies of all operators of a line. Results are the kept closing lines, the shell
  bodies, the data bodies and the remaining lines.
\<close>

fun take_body :: "(string \<Rightarrow> bool) \<Rightarrow> string list \<Rightarrow> string list \<times> string list \<times> string list" where
  "take_body closes [] = ([], [], [])"
| "take_body closes (l # ls) =
     (if closes l then ([], [l], ls)
      else (case take_body closes ls of (body, closing, rest) \<Rightarrow> (l # body, closing, rest)))"

definition heredoc_closes :: "rx_hit \<Rightarrow> string \<Rightarrow> bool" where
  "heredoc_closes m candidate \<longleftrightarrow>
     (if truthy (rx_group m 1) \<noteq> None then lstrip_chars [TAB] candidate else candidate) =
     str_or (or_else (truthy (rx_group m 2)) (or_else (truthy (rx_group m 3)) (rx_group m 4))) []"

fun take_bodies ::
  "consumer \<Rightarrow> rx_hit list \<Rightarrow> string list \<Rightarrow> string list \<times> string list \<times> string list \<times> string list" where
  "take_bodies kind [] ls = ([], [], [], ls)"
| "take_bodies kind (m # ms) ls =
     (case take_body (heredoc_closes m) ls of (body, closing, rest) \<Rightarrow>
        (let txt = join_with [NL] body;
             expanded = (if truthy (rx_group m 4) \<noteq> None \<and> BSL \<notin> set (hit_text m) then substitutions txt else [])
         in case take_bodies kind ms rest of (kept, shells, datas, rest') \<Rightarrow>
              (closing @ kept,
               expanded @ (if kind = Shell then [txt] else []) @ shells,
               (if kind = Other then [txt] else []) @ datas,
               rest')))"

lemma take_body_rest: "take_body p ls = (b, k, r) \<Longrightarrow> length r \<le> length ls"
  by (induction ls arbitrary: b) (auto split: if_splits prod.splits intro: le_SucI)

lemma take_bodies_rest: "take_bodies kind ms ls = (k, s, d, r) \<Longrightarrow> length r \<le> length ls"
proof (induction ms arbitrary: ls k s d)
  case (Cons m ms)
  obtain b cl r1 where t: "take_body (heredoc_closes m) ls = (b, cl, r1)" by (metis prod_cases3)
  obtain k2 s2 d2 r2 where t2: "take_bodies kind ms r1 = (k2, s2, d2, r2)" by (metis prod_cases4)
  from Cons.prems t t2 have r: "r2 = r" by (simp add: Let_def)
  show ?case using Cons.IH [OF t2 [unfolded r]] take_body_rest [OF t] by simp
qed simp

function heredoc_lines :: "string list \<Rightarrow> string list \<times> string list \<times> string list" where
  "heredoc_lines [] = ([], [], [])"
| "heredoc_lines (line # ls) =
     (case rx_finditer HEREDOC line of
        [] \<Rightarrow> (case heredoc_lines ls of (kept, shells, datas) \<Rightarrow> (line # kept, shells, datas))
      | m # ms \<Rightarrow>
          (case take_bodies (heredoc_consumer line m) (m # ms) ls of (k, s, d, rest) \<Rightarrow>
             (case heredoc_lines rest of (kept, shells, datas) \<Rightarrow>
                (line # k @ kept, s @ shells, d @ datas))))"
  by pat_completeness auto
termination
proof (relation "measure length", goal_cases)
  case 3
  then show ?case using take_bodies_rest by (metis in_measure length_Cons le_imp_less_Suc)
qed simp_all

definition split_heredocs :: "string \<Rightarrow> string \<times> string list \<times> string list" where
  "split_heredocs cmd =
     (case heredoc_lines (split_on NL cmd) of (kept, shells, datas) \<Rightarrow> (join_with [NL] kept, shells, datas))"

section \<open>The evaluators\<close>

definition nested_command :: "string \<Rightarrow> string list \<Rightarrow> string option" where
  "nested_command executable args =
     (if executable = ''eval'' then truthy (Some (join_with '' '' (tl args)))
      else shell_exec_args (tl args))"

definition has_option :: "string list \<Rightarrow> string list \<Rightarrow> string list \<Rightarrow> bool" where
  "has_option args short long =
     list_ex (\<lambda>a. a \<in> set short \<or> a \<in> set long \<or>
                  list_ex (\<lambda>f. startswith a (f @ ''='')) long \<or>
                  list_ex (\<lambda>f. startswith a f \<and> \<not> startswith a ''--'') short) args"

definition publication_endpoint :: "string \<Rightarrow> bool" where
  "publication_endpoint txt \<longleftrightarrow>
     rx_search (seqs [lit ''/'',
       alts [seqs [lit ''git/'', alts [lit ''refs'', lit ''commits'', lit ''trees'', lit ''blobs'']],
             lit ''contents'', lit ''releases'',
             seqs [lit ''pulls/'', plus rx_nonspace, lit ''/merge'']], WordB]) txt \<or>
     rx_search (seqs [lit ''/'',
       alts [seqs [lit ''branches/'', plus rx_nonspace, lit ''/protection''], lit ''rulesets'',
             seqs [opt (seqs [plus rx_nonspace, lit ''/'']), lit ''archive'']], WordB]) txt \<or>
     rx_search (seqs [WordB, alts [lit ''archived'', lit ''visibility'', lit ''public''],
       Star rx_space, lit ''='']) txt"

definition blocked :: "string \<Rightarrow> string \<Rightarrow> decision" where
  "blocked cd msg = deny cd msg ''publication'' []"

definition hook_disable :: decision where
  "hook_disable = blocked ''hook_disable'' ''Publication hooks must remain enabled.''"

definition direct_publication :: decision where
  "direct_publication = blocked ''direct_publication'' ''Use the canonical ST publication workflow.''"

text \<open>A loop that leaves at the first answer or the first raise.\<close>

fun scan :: "('a \<Rightarrow> (guard_error, decision option) result) \<Rightarrow> 'a list \<Rightarrow> (guard_error, decision option) result" where
  "scan f [] = return None"
| "scan f (x # xs) =
     (case f x of
        Inl err \<Rightarrow> raise err
      | Inr (Some d) \<Rightarrow> return (Some d)
      | Inr None \<Rightarrow> scan f xs)"

definition if_blocked :: "(guard_error, decision) result \<Rightarrow> (guard_error, decision option) result" where
  "if_blocked r =
     (case r of Inl err \<Rightarrow> raise err | Inr d \<Rightarrow> return (if d_blocked d then Some d else None))"

text \<open>\<open>if nested:\<close> judge it and answer with its decision when that blocks.\<close>

definition judge_nested ::
  "(string \<Rightarrow> (guard_error, decision) result) \<Rightarrow> string option \<Rightarrow> (guard_error, decision option) result" where
  "judge_nested evaluate nested =
     (case truthy nested of None \<Rightarrow> return None | Some c \<Rightarrow> if_blocked (evaluate c))"

text \<open>The git option loop in front of the subcommand.\<close>

definition GIT_VALUE_OPTIONS :: "string list" where
  "GIT_VALUE_OPTIONS =
     [''-C'', ''-c'', ''--git-dir'', ''--work-tree'', ''--config-env'', ''--namespace'', ''--exec-path'']"

fun skip_git_options :: "string list \<Rightarrow> string list" where
  "skip_git_options [] = []"
| "skip_git_options [t] = (if startswith t ''-'' then [] else [t])"
| "skip_git_options (t # v # ts) =
     (if \<not> startswith t ''-'' then t # v # ts
      else if t \<in> set GIT_VALUE_OPTIONS then skip_git_options ts
      else skip_git_options (v # ts))"

definition git_publishes :: "string list \<Rightarrow> bool" where
  "git_publishes args =
     (case skip_git_options (tl args) of [] \<Rightarrow> False | sub # _ \<Rightarrow> sub \<in> set [''push'', ''send-pack''])"

definition gh_publishes :: "string list \<Rightarrow> bool" where
  "gh_publishes args \<longleftrightarrow>
     length args > 2 \<and>
     (let a1 = args ! 1; a2 = args ! 2 in
      (a1 = ''pr'' \<and> a2 = ''merge'') \<or>
      (a1 = ''release'' \<and> a2 \<in> set [''create'', ''edit'', ''delete'', ''upload'']) \<or>
      (a1 = ''repo'' \<and> a2 \<in> set [''create'', ''delete'', ''archive'', ''unarchive'', ''rename'']) \<or>
      (a1 = ''repo'' \<and> a2 = ''edit'' \<and> ''--visibility'' \<in> set args) \<or>
      (a1 = ''api'' \<and>
       (let txt = lower (normalize_segment (drop 2 args));
            mutation = has_option (drop 2 args) [''-f'', ''-F''] [''--field'', ''--raw-field'', ''--input''] \<or>
                       rx_search MUTATING_METHOD (normalize_segment args)
        in (mutation \<and> publication_endpoint txt) \<or> (contains txt ''mutation'' \<and> contains txt ''graphql''))))"

definition http_publishes :: "string list \<Rightarrow> bool" where
  "http_publishes args \<longleftrightarrow>
     length args > 1 \<and>
     (let txt = lower (normalize_segment (tl args)) in
      rx_search GITHUB_API txt \<and>
      (let mutation = rx_search MUTATING_METHOD (normalize_segment args) \<or>
                      list_ex (\<lambda>a. upper a \<in> set MUTATING_VERBS) (tl args) \<or>
                      has_option (tl args) [''-d'', ''-F'', ''-T''] HTTP_BODY_OPTIONS
       in (mutation \<and> publication_endpoint txt) \<or> (contains txt ''mutation'' \<and> contains txt ''graphql'')))"

text \<open>The publication checks of one executable after its nested command was judged.\<close>

definition publishes :: "string \<Rightarrow> string list \<Rightarrow> bool" where
  "publishes executable args \<longleftrightarrow>
     (executable = ''git'' \<and> git_publishes args) \<or>
     (executable = ''jj'' \<and> ''push'' \<in> set (tl args)) \<or>
     (executable = ''gh'' \<and> gh_publishes args) \<or>
     (executable \<in> set HTTP_CLIENTS \<and> http_publishes args)"

definition disables_hooks :: "string \<Rightarrow> string list \<Rightarrow> string list \<Rightarrow> bool" where
  "disables_hooks executable segment args \<longleftrightarrow>
     rx_search DISABLE_RE (normalize_segment segment) \<or>
     (executable = ''git'' \<and> ''config'' \<in> set args \<and> list_ex (\<lambda>a. lower a = ''core.hookspath'') args \<and>
      \<not> list_ex (\<lambda>a. a \<in> set args) [''--get'', ''--get-all'', ''--get-regexp''])"

text \<open>One turn of the segment loop of \<open>evaluate_publication_command\<close>.\<close>

definition publication_segment ::
  "(string \<Rightarrow> (guard_error, decision) result) \<Rightarrow> string list \<Rightarrow> (guard_error, decision option) result" where
  "publication_segment evaluate segment =
     (let args = unwrap segment in
      if args = [] then return None
      else let executable = lead_name (hd args) in
        if executable \<in> set READ_ONLY then return None
        else if disables_hooks executable segment args then return (Some hook_disable)
        else (case (if executable \<in> set SHELL_EXECUTABLES \<or> executable = ''eval''
                    then judge_nested evaluate (nested_command executable args) else return None) of
                Inl err \<Rightarrow> raise err
              | Inr (Some d) \<Rightarrow> return (Some d)
              | Inr None \<Rightarrow> return (if publishes executable args then Some direct_publication else None)))"

primrec evaluate_publication_command :: "nat \<Rightarrow> string \<Rightarrow> (guard_error, decision) result" where
  "evaluate_publication_command 0 cmd0 = raise RecursionError"
| "evaluate_publication_command (Suc depth) cmd0 =
     (case split_heredocs cmd0 of (cmd, shell_bodies, data_bodies) \<Rightarrow>
        if list_ex (rx_search DISABLE_RE) data_bodies then return hook_disable
        else (case scan (\<lambda>nested. if_blocked (evaluate_publication_command depth nested))
                        (shell_bodies @ substitutions cmd) of
                Inl err \<Rightarrow> raise err
              | Inr (Some d) \<Rightarrow> return d
              | Inr None \<Rightarrow>
                  (case scan (publication_segment (evaluate_publication_command depth)) (segments cmd) of
                     Inl err \<Rightarrow> raise err
                   | Inr (Some d) \<Rightarrow> return d
                   | Inr None \<Rightarrow> return (allow []))))"

text \<open>\<open>cd\<close> moves the working directory of the segments after it.\<close>

definition cd_target :: "user_env \<Rightarrow> string list \<Rightarrow> string \<Rightarrow> string" where
  "cd_target e args working =
     (let target = (case List.find (\<lambda>a. \<not> startswith a ''-'') (tl args) of Some a \<Rightarrow> a | None \<Rightarrow> ''~'')
      in if CHR ''$'' \<in> set target \<or> BTICK \<in> set target then working
         else normpath (path_join working (expanduser e target)))"

text \<open>One turn of the segment loop, other than \<open>cd\<close>, of \<open>evaluate_irreversible_command\<close>.\<close>

definition irreversible_segment ::
  "(string \<Rightarrow> string \<Rightarrow> (guard_error, decision) result) \<Rightarrow> user_env \<Rightarrow> string list \<Rightarrow> string \<Rightarrow>
     (guard_error, decision option) result" where
  "irreversible_segment evaluate e args working =
     (let executable = lead_name (hd args) in
      if executable \<in> set SHELL_EXECUTABLES \<or> executable = ''eval'' then
        judge_nested (\<lambda>nested. evaluate nested working) (nested_command executable args)
      else if executable = ''ssh'' then
        judge_nested (\<lambda>remote. evaluate remote REMOTE_CWD) (ssh_remote_command args)
      else return (map_option (\<lambda>d. d\<lparr>d_blocked := True, d_command := []\<rparr>) (irreversible_segment_decision e args working)))"

fun irreversible_segments ::
  "(string \<Rightarrow> string \<Rightarrow> (guard_error, decision) result) \<Rightarrow> user_env \<Rightarrow> string \<Rightarrow> string list list \<Rightarrow>
     (guard_error, decision option) result" where
  "irreversible_segments evaluate e working [] = return None"
| "irreversible_segments evaluate e working (segment # segs) =
     (let args = unwrap segment in
      if args = [] then irreversible_segments evaluate e working segs
      else if lead_name (hd args) = ''cd'' then irreversible_segments evaluate e (cd_target e args working) segs
      else (case irreversible_segment evaluate e args working of
              Inl err \<Rightarrow> raise err
            | Inr (Some d) \<Rightarrow> return (Some d)
            | Inr None \<Rightarrow> irreversible_segments evaluate e working segs))"

definition start_directory :: "user_env \<Rightarrow> string option \<Rightarrow> string option \<Rightarrow> string option" where
  "start_directory e here cwd =
     (case truthy cwd of Some c \<Rightarrow> Some (normpath (expanduser e c)) | None \<Rightarrow> here)"

primrec evaluate_irreversible_command ::
  "nat \<Rightarrow> user_env \<Rightarrow> string option \<Rightarrow> string \<Rightarrow> string option \<Rightarrow> (guard_error, decision) result" where
  "evaluate_irreversible_command 0 e here cmd0 cwd = raise RecursionError"
| "evaluate_irreversible_command (Suc depth) e here cmd0 cwd =
     (case start_directory e here cwd of
        None \<Rightarrow> raise OSError
      | Some working \<Rightarrow>
          (case split_heredocs cmd0 of (cmd, shell_bodies, data_bodies) \<Rightarrow>
             (case scan (\<lambda>nested. if_blocked (evaluate_irreversible_command depth e here nested (Some working)))
                        (shell_bodies @ substitutions cmd) of
                Inl err \<Rightarrow> raise err
              | Inr (Some d) \<Rightarrow> return d
              | Inr None \<Rightarrow>
                  (case irreversible_segments
                          (\<lambda>nested dir. evaluate_irreversible_command depth e here nested (Some dir))
                          e working (segments cmd) of
                     Inl err \<Rightarrow> raise err
                   | Inr (Some d) \<Rightarrow> return d
                   | Inr None \<Rightarrow> return (allow [])))))"

end
