(* ===== verification/GuardFacts.thy ===== *)
theory GuardFacts
  imports GuardPolicy
begin

text \<open>
  What the token level and the irreversible-command policies of the command guard
  guarantee: quoting round trips, wrapper removal, which recursive deletions are
  denied, and the component-level reading of the protected roots.
\<close>

section \<open>Segments\<close>

text \<open>
  Rendering a segment with \<open>normalize_segment\<close> and splitting the text again gives back
  exactly that segment, whatever characters its tokens contain, as long as no token is
  itself a separator.
\<close>

theorem split_normalized_segment:
  assumes "seg \<noteq> []" and "\<forall>t\<in>set seg. t \<notin> set SHELL_SEPARATORS"
  shows "split_shell_segments (normalize_segment seg) = [seg]"
proof -
  have "lex_all split_segments_conf (normalize_segment seg) = Some seg"
    using lex_join [OF split_segments_conf_quoting] by (simp add: lex_all_def normalize_segment_def)
  with assms group_segments_no_sep [of seg _ "[]"] show ?thesis
    by (simp add: split_shell_segments_def)
qed

theorem split_normalized_segment_witness:
  "split_shell_segments (normalize_segment [''git'', ''commit'', ''-m'', ''a b; # c'', []])
     = [[''git'', ''commit'', ''-m'', ''a b; # c'', []]]"
  by (rule split_normalized_segment) (code_simp, code_simp)

section \<open>Wrappers\<close>

definition plain_wrapper :: "string \<Rightarrow> bool" where
  "plain_wrapper w \<longleftrightarrow>
     lead_name w \<in> set [''env'', ''sudo'', ''command'', ''builtin'', ''nohup'', ''exec'', ''nice'', ''stdbuf'', ''uvx'']"

lemma skip_plain:
  assumes "\<not> startswith t ''-''" "\<not> is_assignment t"
  shows "t \<notin> set vo \<Longrightarrow> skip_env_options vo (t # ts) = t # ts" "skip_exec_options (t # ts) = t # ts"
    "skip_uv_options (t # ts) = t # ts" "skip_wrapper_options (t # ts) = t # ts"
  using assms by (cases ts; auto)+

lemma env_values_dashed:
  "t \<in> set ENV_OPTIONS_WITH_VALUE \<Longrightarrow> startswith t ''-''"
  "t \<in> set SUDO_OPTIONS_WITH_VALUE \<Longrightarrow> startswith t ''-''"
  by (auto simp: ENV_OPTIONS_WITH_VALUE_def SUDO_OPTIONS_WITH_VALUE_def)

lemma unwrap_step_plain:
  assumes "plain_wrapper w" "\<not> startswith t ''-''" "\<not> is_assignment t"
  shows "\<exists>p. unwrap_step (w # t # ts) = Some (t # ts, p)"
proof -
  have "t \<notin> set ENV_OPTIONS_WITH_VALUE" "t \<notin> set SUDO_OPTIONS_WITH_VALUE"
    using env_values_dashed assms(2) by blast+
  note skips = skip_plain(1) [OF assms(2,3) this(1), of ts] skip_plain(1) [OF assms(2,3) this(2), of ts]
    skip_plain(2-) [OF assms(2,3), of ts]
  from assms(1) consider "lead_name w = ''env''" | "lead_name w = ''sudo''" | "lead_name w \<in> set COMMAND_WRAPPERS"
    | "lead_name w = ''exec''" | "lead_name w = ''nice''" | "lead_name w = ''stdbuf''" | "lead_name w = ''uvx''"
    by (auto simp: plain_wrapper_def COMMAND_WRAPPERS_def)
  then show ?thesis
    by cases (auto simp: unwrap_step_def COMMAND_WRAPPERS_def OPTION_WRAPPERS_def skips)
qed

lemma unwrap_loop_priv: "fst (unwrap_loop p ts) = fst (unwrap_loop q ts)"
proof (induction p ts arbitrary: q rule: unwrap_loop.induct)
  case (1 p ts)
  show ?case
  proof (cases "unwrap_step ts")
    case None
    then show ?thesis by (simp add: unwrap_loop.simps [of _ ts])
  next
    case (Some a)
    then obtain r s where a: "unwrap_step ts = Some (r, s)" by (cases a) auto
    then have "fst (unwrap_loop (p \<or> s) r) = fst (unwrap_loop (q \<or> s) r)"
      using "1.IH" [OF a refl] by blast
    with a show ?thesis by (simp add: unwrap_loop.simps [of _ ts])
  qed
qed

text \<open>
  The argv the policies judge is a tail of the segment whose leading command is no
  longer an execution wrapper: \<open>env\<close>, \<open>sudo\<close>, \<open>command\<close>, \<open>builtin\<close>, \<open>nohup\<close>, \<open>exec\<close>,
  \<open>nice\<close>, \<open>stdbuf\<close>, \<open>timeout\<close> and \<open>uvx\<close> never hide the command they run.
\<close>

theorem unwrap_exposes_command:
  "suffix_of (unwrap_segment seg) seg \<and>
   (case unwrap_segment seg of
      [] \<Rightarrow> True
    | t # _ \<Rightarrow>
        lead_name t \<notin> set ([''env'', ''sudo'', ''exec'', ''uvx''] @ COMMAND_WRAPPERS @ OPTION_WRAPPERS))"
proof -
  have "unwrap_step (unwrap_segment seg) = None" by (rule unwrap_segment_done)
  then show ?thesis
    using unwrap_segment_suffix [of seg]
    by (cases "unwrap_segment seg")
      (auto simp: unwrap_step_def Let_def COMMAND_WRAPPERS_def OPTION_WRAPPERS_def split: if_splits)
qed

text \<open>
  Putting a wrapper in front of a command changes nothing about the argv that is
  judged, wherever the wrapper's executable is installed.
\<close>

theorem unwrap_wrapper_transparent:
  assumes "plain_wrapper w" and "\<not> startswith t ''-''" and "\<not> is_assignment t"
  shows "unwrap_segment (w # t # ts) = unwrap_segment (t # ts)"
proof (cases "is_assignment w")
  case True
  then show ?thesis by (simp add: unwrap_segment_def unwrap_segment_with_privilege_def)
next
  case False
  obtain p where "unwrap_step (w # t # ts) = Some (t # ts, p)"
    using unwrap_step_plain [OF assms] by blast
  then have "fst (unwrap_loop False (w # t # ts)) = fst (unwrap_loop False (t # ts))"
    using unwrap_loop_priv [of p "t # ts" False]
    by (subst unwrap_loop.simps) simp
  with False assms show ?thesis
    by (simp add: unwrap_segment_def unwrap_segment_with_privilege_def)
qed

theorem unwrap_wrapper_transparent_witness:
  "unwrap_segment [''/usr/bin/SUDO'', ''rm'', ''-rf'', ''/srv''] = unwrap_segment [''rm'', ''-rf'', ''/srv'']"
  by (rule unwrap_wrapper_transparent) (code_simp, code_simp, code_simp)

section \<open>Recursive deletion\<close>

definition recursive_flag :: "string \<Rightarrow> bool" where
  "recursive_flag f \<longleftrightarrow>
     f = ''--recursive'' \<or>
     (startswith f ''-'' \<and> \<not> startswith f ''--'' \<and> (CHR ''r'' \<in> set (tl f) \<or> CHR ''R'' \<in> set (tl f)))"

lemma rm_scan_recursive:
  "f \<in> set args \<Longrightarrow> recursive_flag f \<Longrightarrow> ''--'' \<notin> set args \<Longrightarrow> fst (rm_scan False args)"
  by (induction args) (auto simp: recursive_flag_def)

lemma startswith_dashes: "startswith t ''--'' \<Longrightarrow> startswith t ''-''"
  by (auto simp: startswith_iff)

lemma rm_scan_operand:
  "op \<in> set args \<Longrightarrow> \<not> startswith op ''-'' \<Longrightarrow> ''--'' \<notin> set args \<Longrightarrow> op \<in> set (snd (rm_scan False args))"
  by (induction args) (auto dest: startswith_dashes)

lemma normpath_not_empty [simp]: "normpath p \<noteq> []"
  by (auto simp: normpath_def Let_def)

lemma deletion_target_not_empty: "deletion_target e op cwd = Some t \<Longrightarrow> t \<noteq> []"
  by (auto simp: deletion_target_def Let_def split: if_splits)

lemma rm_decision_shape:
  "irreversible_rm_decision e tokens cwd = Some d \<Longrightarrow> \<exists>t. d = rm_protected t tokens"
  by (auto simp: irreversible_rm_decision_def split: if_splits option.splits dest!: first_some_SomeD)


abbreviation sample_env :: user_env where
  "sample_env \<equiv> \<lparr>HOME = Some ''/home/kasadis'', pwd_self = None, pwd_nam = (\<lambda>_. None)\<rparr>"


text \<open>
  Without a recursive flag, or when every operand resolves outside the protected
  roots, \<open>rm\<close> is never denied.
\<close>

theorem rm_unprotected_allowed:
  assumes "\<not> fst (rm_scan False args) \<or>
           (\<forall>op\<in>set args. \<forall>t. deletion_target e op cwd = Some t \<longrightarrow> \<not> protected_deletion_root e t)"
  shows "irreversible_rm_decision e (r # args) cwd = None"
proof -
  have sub: "set (snd (rm_scan b as)) \<subseteq> set as" for b as
    by (induction b as rule: rm_scan.induct) auto
  from assms sub [of False args] show ?thesis
    by (auto simp: irreversible_rm_decision_def first_some_None_iff split: option.splits)
qed

theorem rm_unprotected_allowed_witness:
  "irreversible_rm_decision sample_env [''rm'', ''build'', ''notes.txt''] ''/srv/workspaces/projects/sf'' = None"
  by (rule rm_unprotected_allowed) (rule disjI1, code_simp)

lemma strip_globs_glob:
  assumes "d \<noteq> []"
  shows "strip_globs (d @ ''/*'') = strip_globs d" "strip_globs (d @ ''/.*'') = strip_globs d"
proof -
  have bl: "before_last CHR ''/'' (d @ ''/*'') = d" "before_last CHR ''/'' (d @ ''/.*'') = d"
    using before_last_split [of "''*''" d] before_last_split [of "''.*''" d] by simp_all
  then have dg: "drop_glob (d @ ''/*'') = d" "drop_glob (d @ ''/.*'') = d"
    using assms by (simp_all add: drop_glob_def Let_def)
  have eg: "ends_in_glob (d @ ''/*'')" "ends_in_glob (d @ ''/.*'')"
    by (auto simp: ends_in_glob_def endswith_iff)
  have ne: "d @ ''/*'' \<noteq> ''*''" "d @ ''/*'' \<noteq> ''.*''" "d @ ''/.*'' \<noteq> ''*''" "d @ ''/.*'' \<noteq> ''.*''"
    using assms by (cases d; auto)+
  show "strip_globs (d @ ''/*'') = strip_globs d" "strip_globs (d @ ''/.*'') = strip_globs d"
    by (subst strip_globs.simps, simp add: dg eg ne)+
qed

lemma expanduser_home_only: "startswith t ''$'' \<Longrightarrow> expanduser e t = t"
  by (cases t) (auto simp: expanduser_def)

text \<open>
  Emptying a directory with \<open>dir/*\<close> or \<open>dir/.*\<close> is judged as deleting \<open>dir\<close> itself.
\<close>

theorem deletion_target_of_glob:
  assumes "d \<noteq> []" and "\<not> startswith d ''~''" and "\<not> startswith d ''$''"
  shows "deletion_target e (d @ ''/*'') cwd = deletion_target e d cwd \<and>
         deletion_target e (d @ ''/.*'') cwd = deletion_target e d cwd"
proof -
  have plain: "\<not> startswith (d @ x) ''~''" "subst_home h ''${HOME}'' (d @ x) = d @ x"
    "subst_home h ''$HOME'' (d @ x) = d @ x" for h x
    using assms by (cases d; auto simp: subst_home_def startswith_iff)+
  from plain(1) have ex: "expanduser e (d @ x) = d @ x" for x
    by (rule expanduser_plain)
  show ?thesis
    using ex [of "[]"] ex [of "''/*''"] ex [of "''/.*''"] plain(2,3) [of _ "[]"] plain(2,3) [of _ "''/*''"]
      plain(2,3) [of _ "''/.*''"] strip_globs_glob [OF assms(1)]
    by (simp add: deletion_target_def Let_def)
qed

theorem deletion_target_of_glob_witness:
  "deletion_target sample_env ''/srv/models/*'' ''/tmp'' = Some ''/srv/models''"
  using deletion_target_of_glob [of "''/srv/models''" sample_env "''/tmp''"] by code_simp

section \<open>Protected roots, component by component\<close>

text \<open>An absolute path with one leading slash and these components.\<close>

definition abs_path :: "string list \<Rightarrow> string" where
  "abs_path cs = CHR ''/'' # join_with ''/'' cs"

definition components :: "string list \<Rightarrow> bool" where
  "components cs \<longleftrightarrow> (\<forall>c\<in>set cs. c \<noteq> [] \<and> CHR ''/'' \<notin> set c)"

lemma components_simps [simp]:
  "components []" "components (c # cs) \<longleftrightarrow> c \<noteq> [] \<and> CHR ''/'' \<notin> set c \<and> components cs"
  by (auto simp: components_def)

lemma split_abs_path: "components cs \<Longrightarrow> cs \<noteq> [] \<Longrightarrow> split_on CHR ''/'' (abs_path cs) = [] # cs"
  using split_on_join [of cs "CHR ''/''"] by (simp add: abs_path_def components_def)

lemma abs_path_empty: "components cs \<Longrightarrow> abs_path cs = ''/'' \<longleftrightarrow> cs = []"
  using join_with_Nil_iff [of "''/''" cs] by (cases cs) (auto simp: abs_path_def components_def)

lemma abs_path_inj:
  assumes "components cs" "components ds"
  shows "abs_path cs = abs_path ds \<longleftrightarrow> cs = ds"
proof (cases "cs = [] \<or> ds = []")
  case True
  have "abs_path [] = ''/''" by (simp add: abs_path_def)
  with True assms abs_path_empty [of cs] abs_path_empty [of ds] show ?thesis by auto
next
  case False
  then have "split_on CHR ''/'' (abs_path cs) = [] # cs" "split_on CHR ''/'' (abs_path ds) = [] # ds"
    using split_abs_path assms by blast+
  then have "abs_path cs = abs_path ds \<Longrightarrow> [] # cs = [] # ds" by argo
  then show ?thesis by blast
qed

lemma count_join: "components cs \<Longrightarrow> count_list (join_with ''/'' cs) CHR ''/'' = length cs - 1"
proof (induction cs)
  case (Cons c cs)
  then have "count_list c CHR ''/'' = 0" by (simp add: count_list_0_iff)
  with Cons show ?case by (cases cs) simp_all
qed simp

lemma abs_path_append:
  "cs \<noteq> [] \<Longrightarrow> ds \<noteq> [] \<Longrightarrow> abs_path (cs @ ds) = abs_path cs @ CHR ''/'' # join_with ''/'' ds"
  by (simp add: abs_path_def join_with_append)

lemma abs_path_last:
  assumes "components cs" "cs \<noteq> []"
  shows "\<exists>p x. abs_path cs = p @ [x] \<and> x \<noteq> CHR ''/''"
proof -
  obtain ds d where cs: "cs = ds @ [d]" using assms(2) by (cases cs rule: rev_cases) auto
  then have d: "d \<noteq> []" "CHR ''/'' \<notin> set d" using assms(1) by (auto simp: components_def)
  obtain p x where px: "d = p @ [x]" using d(1) by (cases d rule: rev_cases) auto
  with d(2) have "x \<noteq> CHR ''/''" by auto
  moreover have "\<exists>p'. abs_path cs = p' @ [x]"
    using px cs by (cases "ds = []") (simp_all add: abs_path_append, simp add: abs_path_def)
  ultimately show ?thesis by blast
qed

lemma rstrip_abs_path: "components cs \<Longrightarrow> cs \<noteq> [] \<Longrightarrow> rstrip_chars ''/'' (abs_path cs) = abs_path cs"
  using abs_path_last [of cs] by (auto simp: rstrip_chars_def)

lemma dirname_abs_path:
  assumes "components (cs @ [c])"
  shows "dirname (abs_path (cs @ [c])) = abs_path cs"
proof -
  have c: "CHR ''/'' \<notin> set (rev c)" using assms by (auto simp: components_def)
  have dw: "dropWhile (\<lambda>x. x \<noteq> CHR ''/'') (rev c @ CHR ''/'' # x) = CHR ''/'' # x" for x
    using c by (subst dropWhile_append2) auto
  show ?thesis
  proof (cases "cs = []")
    case True
    then show ?thesis using dw [of "[]"] by (simp add: dirname_def abs_path_def Let_def)
  next
    case False
    have ok: "components cs" using assms by (auto simp: components_def)
    obtain p x where px: "abs_path cs = p @ [x]" "x \<noteq> CHR ''/''" using abs_path_last [OF ok False] by blast
    have "x \<in> set (abs_path cs @ ''/'')" using px by simp
    then have ne: "abs_path cs @ ''/'' \<noteq> replicate n CHR ''/''" for n
      using px(2) by (metis in_set_replicate)
    have "rev (abs_path (cs @ [c])) = rev c @ CHR ''/'' # rev (abs_path cs)"
      using False by (simp add: abs_path_append)
    then have head: "rev (dropWhile (\<lambda>x. x \<noteq> CHR ''/'') (rev (abs_path (cs @ [c])))) = abs_path cs @ ''/''"
      using dw by simp
    have rs: "rstrip_chars ''/'' (abs_path cs @ ''/'') = abs_path cs"
      using rstrip_abs_path [OF ok False] by (simp add: rstrip_chars_def)
    have "abs_path cs @ ''/'' \<noteq> [] \<and> abs_path cs @ ''/'' \<noteq> replicate (length (abs_path cs @ ''/'')) CHR ''/''"
      using ne by blast
    then show ?thesis unfolding dirname_def Let_def head by (subst if_P) (rule conjI, simp, blast, rule rs)
  qed
qed

lemma under_abs_path:
  assumes "components cs" "components rs" "rs \<noteq> []"
  shows "under (abs_path cs) (abs_path rs) \<longleftrightarrow> take (length rs) cs = rs"
proof
  assume "take (length rs) cs = rs"
  then obtain ds where cs: "cs = rs @ ds" by (metis append_take_drop_id)
  then show "under (abs_path cs) (abs_path rs)"
    using assms rstrip_abs_path [OF assms(2,3)]
    by (cases "ds = []") (auto simp: under_def abs_path_append startswith_iff)
next
  assume "under (abs_path cs) (abs_path rs)"
  then consider "abs_path cs = abs_path rs" | x where "abs_path cs = abs_path rs @ CHR ''/'' # x"
    using rstrip_abs_path [OF assms(2,3)] by (auto simp: under_def startswith_iff)
  then show "take (length rs) cs = rs"
  proof cases
    case 1
    then show ?thesis using abs_path_inj assms by simp
  next
    case (2 x)
    have "cs \<noteq> []"
    proof
      assume "cs = []"
      with 2 have "''/'' = abs_path rs @ CHR ''/'' # x" by (simp add: abs_path_def)
      then show False by (simp add: abs_path_def Cons_eq_append_conv)
    qed
    from 2 have "split_on CHR ''/'' (abs_path cs) = split_on CHR ''/'' (abs_path rs) @ split_on CHR ''/'' x"
      by (simp add: split_on_append)
    then have "cs = rs @ split_on CHR ''/'' x"
      using split_abs_path [OF assms(1) \<open>cs \<noteq> []\<close>] split_abs_path [OF assms(2,3)] by simp
    then show ?thesis by simp
  qed
qed

text \<open>The named roots of the policy as component lists.\<close>

lemma protected_literals:
  "''/home'' = abs_path [''home'']" "''/srv'' = abs_path [''srv'']"
  "''/srv/workspaces/projects'' = abs_path [''srv'', ''workspaces'', ''projects'']"
  "''/mnt'' = abs_path [''mnt'']" "''/media'' = abs_path [''media'']"
  "''/var/lib/vz'' = abs_path [''var'', ''lib'', ''vz'']" "''/etc/pve'' = abs_path [''etc'', ''pve'']"
  by (simp_all add: abs_path_def)

lemma dirname_eq_abs:
  assumes "components cs" "components ps" "cs \<noteq> []"
  shows "dirname (abs_path cs) = abs_path ps \<longleftrightarrow> butlast cs = ps"
proof -
  have "dirname (abs_path cs) = abs_path (butlast cs)"
    using dirname_abs_path [of "butlast cs" "last cs"] assms by simp
  moreover have "components (butlast cs)"
    using assms(1) by (auto simp: components_def dest: in_set_butlastD)
  ultimately show ?thesis using abs_path_inj assms(2) by simp
qed

text \<open>
  On a normalised absolute path the string tests of \<open>protected_deletion_root\<close> decide
  exactly this component-wise policy: the root and every top-level directory, the user's
  home, every \<open>/home/<user>\<close> and \<open>/srv/<area>\<close>, the projects directory and each project
  root in it, and everything at or below \<open>/mnt\<close>, \<open>/media\<close>, \<open>/var/lib/vz\<close> and \<open>/etc/pve\<close>.
\<close>

theorem protected_root_components:
  assumes "components cs"
  shows "protected_deletion_root e (abs_path cs) \<longleftrightarrow>
     length cs \<le> 1 \<or> abs_path cs = normpath (expanduser e ''~'') \<or>
     butlast cs \<in> {[''home''], [''srv''], [''srv'', ''workspaces'', ''projects'']} \<or>
     cs = [''srv'', ''workspaces'', ''projects''] \<or>
     hd cs \<in> {''mnt'', ''media''} \<or> take 3 cs = [''var'', ''lib'', ''vz''] \<or> take 2 cs = [''etc'', ''pve'']"
proof (cases "length cs \<le> 1")
  case True
  then have "count_list (abs_path cs) CHR ''/'' \<le> 1"
    using count_join [OF assms] by (simp add: abs_path_def)
  with True show ?thesis by (simp add: protected_deletion_root_def)
next
  case False
  then have ne: "cs \<noteq> []" by auto
  have cnt: "\<not> count_list (abs_path cs) CHR ''/'' \<le> 1"
    using count_join [OF assms] False by (simp add: abs_path_def)
  have dir: "dirname (abs_path cs) = abs_path ps \<longleftrightarrow> butlast cs = ps" if "components ps" for ps
    using dirname_eq_abs [OF assms that ne] .
  have und: "under (abs_path cs) (abs_path rs) \<longleftrightarrow> take (length rs) cs = rs" if "components rs" "rs \<noteq> []" for rs
    using under_abs_path [OF assms that] .
  have h: "take (Suc 0) cs = [x] \<longleftrightarrow> hd cs = x" for x using ne by (cases cs) auto
  have inj: "abs_path cs = abs_path [''srv'', ''workspaces'', ''projects''] \<longleftrightarrow> cs = [''srv'', ''workspaces'', ''projects'']"
    by (rule abs_path_inj [OF assms]) simp
  show ?thesis
    using False cnt
    by (simp add: protected_deletion_root_def MOUNTED_STORAGE_ROOTS_def PROXMOX_DATA_ROOTS_def
        protected_literals dir und inj h numeral_2_eq_2 numeral_3_eq_3)
qed

theorem protected_root_components_witness:
  "\<not> protected_deletion_root sample_env ''/srv/workspaces/projects/sf/build'' \<and>
   protected_deletion_root sample_env ''/srv/workspaces/projects/sf''"
proof -
  have "components [''srv'', ''workspaces'', ''projects'', ''sf'', ''build'']" by simp
  from protected_root_components [OF this, of sample_env]
  have "\<not> protected_deletion_root sample_env ''/srv/workspaces/projects/sf/build''"
    by code_simp
  moreover have "components [''srv'', ''workspaces'', ''projects'', ''sf'']" by simp
  from protected_root_components [OF this, of sample_env]
  have "protected_deletion_root sample_env ''/srv/workspaces/projects/sf''"
    by code_simp
  ultimately show ?thesis by simp
qed

section \<open>A second leading slash escapes the policy\<close>

text \<open>
  POSIX lets \<open>//x\<close> differ from \<open>/x\<close>, so \<open>os.path.normpath\<close> keeps exactly two leading
  slashes. On Linux both name the same directory, but every comparison of
  \<open>protected_deletion_root\<close> is against a path with a single leading slash.
\<close>

definition plain_component :: "string \<Rightarrow> bool" where
  "plain_component c \<longleftrightarrow>
     c \<noteq> [] \<and> c \<noteq> ''.'' \<and> c \<noteq> ''..'' \<and> list_all (\<lambda>x. x \<notin> set [CHR ''/'', CHR ''*'', CHR ''$'', BTICK]) c"

lemma norm_comps_plain:
  "list_all plain_component cs \<Longrightarrow> norm_comps ab acc cs = rev acc @ cs"
  by (induction cs arbitrary: acc) (auto simp: plain_component_def)

lemma plain_components: "list_all plain_component cs \<Longrightarrow> components cs"
  by (auto simp: components_def plain_component_def list_all_iff)

lemma set_join: "set (join_with sep ws) \<subseteq> set sep \<union> \<Union> (set ` set ws)"
  by (induction sep ws rule: join_with.induct) auto

lemma plain_path_chars:
  assumes "list_all plain_component cs" "x \<in> set (abs_path cs)"
  shows "x \<notin> {CHR ''*'', CHR ''$'', BTICK}"
  using assms set_join [of "''/''" cs]
  by (fastforce simp: abs_path_def plain_component_def list_all_iff)

lemma ends_in_glob_star: "ends_in_glob t \<Longrightarrow> CHR ''*'' \<in> set t"
  by (auto simp: ends_in_glob_def endswith_iff)

lemma dirname_double:
  assumes "components (cs @ [c])"
  shows "dirname (CHR ''/'' # abs_path (cs @ [c])) = CHR ''/'' # abs_path cs"
proof -
  have c: "CHR ''/'' \<notin> set (rev c)" using assms by (auto simp: components_def)
  have dw: "dropWhile (\<lambda>x. x \<noteq> CHR ''/'') (rev c @ CHR ''/'' # x) = CHR ''/'' # x" for x
    using c by (subst dropWhile_append2) auto
  show ?thesis
  proof (cases "cs = []")
    case True
    then show ?thesis using dw [of "''/''"] by (simp add: dirname_def abs_path_def Let_def)
  next
    case False
    have ok: "components cs" using assms by (auto simp: components_def)
    let ?p = "CHR ''/'' # abs_path cs"
    obtain p x where px: "abs_path cs = p @ [x]" "x \<noteq> CHR ''/''" using abs_path_last [OF ok False] by blast
    have "x \<in> set (?p @ ''/'')" using px by simp
    then have ne: "?p @ ''/'' \<noteq> replicate n CHR ''/''" for n
      using px(2) by (metis in_set_replicate)
    have "rev (CHR ''/'' # abs_path (cs @ [c])) = rev c @ CHR ''/'' # rev ?p"
      using False by (simp add: abs_path_append)
    then have head: "rev (dropWhile (\<lambda>x. x \<noteq> CHR ''/'') (rev (CHR ''/'' # abs_path (cs @ [c])))) = ?p @ ''/''"
      using dw by simp
    have rs: "rstrip_chars ''/'' (?p @ ''/'') = ?p"
      using px by (simp add: rstrip_chars_def)
    have "?p @ ''/'' \<noteq> [] \<and> ?p @ ''/'' \<noteq> replicate (length (?p @ ''/'')) CHR ''/''"
      using ne by blast
    then show ?thesis unfolding dirname_def Let_def head by (subst if_P) (rule conjI, simp, blast, rule rs)
  qed
qed

lemma double_slash_unprotected:
  assumes "components cs" "cs \<noteq> []" "CHR ''/'' # abs_path cs \<noteq> normpath (expanduser e ''~'')"
  shows "\<not> protected_deletion_root e (CHR ''/'' # abs_path cs)"
proof -
  have "dirname (CHR ''/'' # abs_path cs) = CHR ''/'' # abs_path (butlast cs)"
    using dirname_double [of "butlast cs" "last cs"] assms(1,2) by simp
  then have "\<exists>x. dirname (CHR ''/'' # abs_path cs) = CHR ''/'' # CHR ''/'' # x"
    by (auto simp: abs_path_def)
  moreover have "count_list (CHR ''/'' # abs_path cs) CHR ''/'' > 1"
    by (simp add: abs_path_def)
  ultimately show ?thesis
    using assms(3)
    by (auto simp: protected_deletion_root_def MOUNTED_STORAGE_ROOTS_def PROXMOX_DATA_ROOTS_def
        under_def abs_path_def rstrip_chars_def)
qed

lemma deletion_target_double:
  assumes "list_all plain_component cs" "cs \<noteq> []"
  shows "deletion_target e (CHR ''/'' # abs_path cs) cwd = Some (CHR ''/'' # abs_path cs)"
proof -
  let ?t = "CHR ''/'' # abs_path cs"
  have ok: "components cs" by (rule plain_components [OF assms(1)])
  obtain c cs' where cs: "cs = c # cs'" using assms(2) by (cases cs) auto
  with ok obtain x y where c: "c = x # y" "x \<noteq> CHR ''/''" by (cases c) auto
  have no: "CHR ''*'' \<notin> set ?t" "CHR ''$'' \<notin> set ?t" "BTICK \<notin> set ?t"
    using plain_path_chars [OF assms(1)] by auto
  have sub: "subst_home h ''${HOME}'' ?t = ?t" "subst_home h ''$HOME'' ?t = ?t" for h
    by (simp_all add: subst_home_def)
  have "\<not> ends_in_glob ?t"
    using no(1) ends_in_glob_star by blast
  then have sg: "strip_globs ?t = ?t"
    by (subst strip_globs.simps) simp
  have "\<exists>z. abs_path cs = CHR ''/'' # x # z"
    using cs c by (cases cs') (auto simp: abs_path_def)
  then have sl: "initial_slashes ?t = 2"
    using c(2) by (auto simp: initial_slashes_def)
  have "split_on CHR ''/'' ?t = [] # [] # cs"
    using split_abs_path [OF ok assms(2)] by simp
  then have "norm_comps True [] (split_on CHR ''/'' ?t) = cs"
    using norm_comps_plain [OF assms(1), of True "[]"] by simp
  then have "normpath ?t = ?t"
    using sl by (simp add: normpath_def numeral_2_eq_2 abs_path_def)
  then show ?thesis
    using no sub sg
    by (simp add: deletion_target_def Let_def expanduser_def path_join_def)
qed

text \<open>
  A recursive \<open>rm\<close> of an absolute path written with two leading slashes is never
  denied, whichever protected root it names: \<open>rm -rf //srv\<close> or \<open>//mnt/backup\<close> pass
  although \<open>rm -rf /srv\<close> and \<open>/mnt/backup\<close> are refused.
\<close>

theorem double_slash_delete_not_denied:
  assumes "list_all plain_component cs" and "cs \<noteq> []"
    and "CHR ''/'' # abs_path cs \<noteq> normpath (expanduser e ''~'')"
  shows "irreversible_rm_decision e [''rm'', ''-rf'', CHR ''/'' # abs_path cs] cwd = None"
proof -
  have "\<not> startswith (CHR ''/'' # abs_path cs) ''-''" by simp
  then have "snd (rm_scan False [''-rf'', CHR ''/'' # abs_path cs]) = [CHR ''/'' # abs_path cs]"
    by (simp add: startswith_dashes)
  then show ?thesis
    using deletion_target_double [OF assms(1,2)] double_slash_unprotected [OF _ assms(2,3)]
      plain_components [OF assms(1)]
    by (simp add: irreversible_rm_decision_def)
qed

theorem double_slash_delete_not_denied_witness:
  "irreversible_rm_decision sample_env [''rm'', ''-rf'', ''//mnt/backup''] ''/'' = None \<and>
   irreversible_rm_decision sample_env [''rm'', ''-rf'', ''/mnt/backup''] ''/'' \<noteq> None"
proof -
  have "abs_path [''mnt'', ''backup''] = ''/mnt/backup''" by (simp add: abs_path_def)
  moreover have "list_all plain_component [''mnt'', ''backup'']" by code_simp
  moreover have "''//mnt/backup'' \<noteq> normpath (expanduser sample_env ''~'')" by code_simp
  ultimately have "irreversible_rm_decision sample_env [''rm'', ''-rf'', ''//mnt/backup''] ''/'' = None"
    using double_slash_delete_not_denied [of "[''mnt'', ''backup'']" sample_env "''/''"] by simp
  moreover have "irreversible_rm_decision sample_env [''rm'', ''-rf'', ''/mnt/backup''] ''/'' \<noteq> None"
    by code_simp
  ultimately show ?thesis by simp
qed

section \<open>Git and the shape of every denial\<close>

definition denial :: "string \<Rightarrow> string list \<Rightarrow> decision \<Rightarrow> bool" where
  "denial source tokens d \<longleftrightarrow>
     d_blocked d \<and> d_source d = Some source \<and> d_command d = normalize_segment tokens \<and>
     (\<exists>m. d_message d = Some m \<and> startswith m ''BLOCKED:'')"

lemma git_denialI: "startswith m ''BLOCKED:'' \<Longrightarrow> denial ''git'' tokens (git_blocked c m (normalize_segment tokens))"
  by (simp add: denial_def git_blocked_def)

lemma system_denialI: "denial ''dangerous'' tokens (system_blocked label reason tokens)"
  by (simp add: denial_def system_blocked_def)

lemma rm_denialI: "denial ''dangerous'' tokens (rm_protected target tokens)"
  by (simp add: denial_def rm_protected_def)

lemma force_push_denial: "answers (denial ''git'' tokens) (force_push_policy sub args (normalize_segment tokens))"
  unfolding force_push_policy_def by (intro answer_intros git_denialI) simp

lemma git_reset_denial: "answers (denial ''git'' tokens) (git_reset_policy sub args (normalize_segment tokens))"
  unfolding git_reset_policy_def by (intro answer_intros git_denialI) simp

lemma git_clean_denial: "answers (denial ''git'' tokens) (git_clean_policy sub args (normalize_segment tokens))"
  unfolding git_clean_policy_def by (intro answer_intros git_denialI) simp

lemma git_checkout_denial: "answers (denial ''git'' tokens) (git_checkout_policy sub args (normalize_segment tokens))"
  unfolding git_checkout_policy_def by (intro answer_intros git_denialI) simp

lemma git_restore_denial: "answers (denial ''git'' tokens) (git_restore_policy sub args (normalize_segment tokens))"
  unfolding git_restore_policy_def by (intro answer_intros git_denialI) simp

lemma git_stash_denial: "answers (denial ''git'' tokens) (git_stash_policy sub args (normalize_segment tokens))"
  unfolding git_stash_policy_def by (intro answer_intros git_denialI) simp_all

lemma git_decision_denial:
  "answers (denial ''git'' tokens) (irreversible_git_decision sub args (normalize_segment tokens) shared)"
  unfolding irreversible_git_decision_def
  by (intro answer_intros force_push_denial git_reset_denial git_clean_denial git_checkout_denial
      git_restore_denial git_stash_denial)

lemma rm_decision_denial: "answers (denial ''dangerous'' tokens) (irreversible_rm_decision e tokens cwd)"
  unfolding irreversible_rm_decision_def by (intro answer_intros rm_denialI)

lemma disk_decision_denial: "answers (denial ''dangerous'' tokens) (disk_decision name tokens)"
  unfolding disk_decision_def by (intro answer_intros system_denialI)

lemma proxmox_decision_denial: "answers (denial ''dangerous'' tokens) (proxmox_decision name tokens)"
  unfolding proxmox_decision_def by (intro answer_intros system_denialI)

lemma system_decision_denial: "answers (denial ''dangerous'' tokens) (irreversible_system_decision e tokens cwd)"
  unfolding irreversible_system_decision_def find_decision_def btrfs_decision_def restic_decision_def
    rclone_decision_def btrbk_decision_def dmsetup_decision_def
  by (intro answer_intros system_denialI rm_decision_denial disk_decision_denial proxmox_decision_denial)

lemma segment_denial:
  "answers (\<lambda>d. denial ''git'' tokens d \<or> denial ''dangerous'' tokens d) (irreversible_segment_decision e tokens cwd)"
  (is "answers ?P _")
proof -
  have weaken: "answers ?P a" if "answers (denial s tokens) a" and "s = ''git'' \<or> s = ''dangerous''" for a s
    using that by (auto simp: answers_def)
  show ?thesis
    unfolding irreversible_segment_decision_def
    by (intro answer_intros weaken [OF git_decision_denial] weaken [OF system_decision_denial]) simp_all
qed

text \<open>
  Whatever policy answers, its decision denies: it is blocked, carries a message that
  starts with \<open>BLOCKED:\<close>, names its source and reports the judged argv.
\<close>

theorem segment_denials_well_formed:
  assumes "irreversible_segment_decision e tokens cwd = Some d"
  shows "d_blocked d \<and> (\<exists>m. d_message d = Some m \<and> startswith m ''BLOCKED:'') \<and>
         d_source d \<in> {Some ''git'', Some ''dangerous''} \<and> d_command d = normalize_segment tokens"
  using answersD [OF segment_denial assms] by (auto simp: denial_def)

theorem segment_denials_well_formed_witness:
  "\<exists>d. irreversible_segment_decision sample_env [''git'', ''stash''] ''/srv/workspaces/projects/sf'' = Some d \<and>
       d_blocked d \<and> d_command d = ''git stash''"
proof -
  have "irreversible_segment_decision sample_env [''git'', ''stash''] ''/srv/workspaces/projects/sf'' \<noteq> None"
    by code_simp
  then obtain d where d: "irreversible_segment_decision sample_env [''git'', ''stash'']
      ''/srv/workspaces/projects/sf'' = Some d" by auto
  moreover have "normalize_segment [''git'', ''stash''] = ''git stash''" by code_simp
  ultimately show ?thesis using segment_denials_well_formed [OF d] by auto
qed

text \<open>
  \<open>git -C dir reset --hard\<close> is judged in the directory \<open>-C\<close> leads to: it is denied
  exactly when that directory is not at or below one of the throwaway roots.
\<close>

theorem git_reset_hard_judged_in_target_dir:
  assumes "path_name g = ''git''"
  shows "irreversible_segment_decision e [g, ''-C'', d, ''reset'', ''--hard''] cwd \<noteq> None \<longleftrightarrow>
         \<not> (\<exists>r\<in>set DISPOSABLE_ROOTS. under (normpath (path_join cwd (expanduser e d))) r)"
proof -
  have "map_of PARTITIONER_READ_ONLY ''git'' = None" by code_simp
  moreover have "''git'' \<notin> set FORMATTERS" by code_simp
  ultimately have "irreversible_system_decision e [g, ''-C'', d, ''reset'', ''--hard''] cwd = None"
    using assms by (simp add: irreversible_system_decision_def disk_decision_def proxmox_decision_def)
  moreover have "git_invocation e [g, ''-C'', d, ''reset'', ''--hard''] cwd =
      Some (''reset'', [''--hard''], normpath (path_join cwd (expanduser e d)))"
    using assms by (simp add: git_invocation_def GIT_GLOBAL_OPTIONS_WITH_VALUE_def)
  moreover have "git_has_flag [''--hard''] [''--hard'']" by code_simp
  ultimately show ?thesis
    by (simp add: irreversible_segment_decision_def irreversible_git_decision_def force_push_policy_def
        git_reset_policy_def list_ex_iff)
qed

theorem git_reset_hard_judged_in_target_dir_witness:
  "irreversible_segment_decision sample_env [''/usr/bin/git'', ''-C'', ''../scratch/x'', ''reset'', ''--hard''] ''/srv/models'' = None"
proof -
  have g: "path_name ''/usr/bin/git'' = ''git''" by code_simp
  have "under (normpath (path_join ''/srv/models'' (expanduser sample_env ''../scratch/x''))) ''/srv/scratch''"
    by code_simp
  moreover have "''/srv/scratch'' \<in> set DISPOSABLE_ROOTS" by code_simp
  ultimately show ?thesis
    using git_reset_hard_judged_in_target_dir [OF g, of sample_env "''../scratch/x''" "''/srv/models''"] by blast
qed

end
