(* ===== verification/PublicationFacts.thy ===== *)
theory PublicationFacts
  imports PublicationGuard GuardFacts
begin

text \<open>
  Correctness of the hook evaluators: every nested command is strictly shorter than the
  command that holds it, so the recursion ends within as many frames as the command has
  characters; deeper stacks give the same verdict; verdicts never reflect the command;
  and a publishing segment is denied wherever it stands.
\<close>

section \<open>The contract of a recursive evaluator\<close>

text \<open>
  An evaluator that judges a command by judging smaller ones, with a bound on the depth.
  Both laws speak of one level: a level returns when all smaller commands return, and it
  does not notice a deeper stack.
\<close>

locale nested_evaluator =
  fixes ev :: "nat \<Rightarrow> 'c \<Rightarrow> (guard_error, decision) result"
    and sz :: "'c \<Rightarrow> nat"
  assumes level_returns: "(\<And>c'. sz c' < sz c \<Longrightarrow> \<exists>d. ev n c' = Inr d) \<Longrightarrow> \<exists>d. ev (Suc n) c = Inr d"
    and level_mono: "(\<And>c' d'. ev n c' = Inr d' \<Longrightarrow> ev m c' = Inr d') \<Longrightarrow> ev (Suc n) c = Inr d \<Longrightarrow> ev (Suc m) c = Inr d"
    and no_frame: "ev 0 c = Inl RecursionError"
begin

lemma enough_depth: "sz c < n \<Longrightarrow> \<exists>d. ev n c = Inr d"
proof (induction n arbitrary: c)
  case (Suc n)
  show ?case
  proof (rule level_returns)
    fix c' assume "sz c' < sz c"
    with Suc.prems have "sz c' < n" by simp
    then show "\<exists>d. ev n c' = Inr d" by (rule Suc.IH)
  qed
qed simp

lemma deeper_same: "ev n c = Inr d \<Longrightarrow> n \<le> m \<Longrightarrow> ev m c = Inr d"
proof (induction n arbitrary: m c d)
  case 0
  then show ?case by (simp add: no_frame)
next
  case (Suc n)
  from \<open>Suc n \<le> m\<close> obtain k where m: "m = Suc k" "n \<le> k" by (cases m) auto
  have "ev k c' = Inr d'" if "ev n c' = Inr d'" for c' d'
    by (rule Suc.IH [OF that m(2)])
  from level_mono [OF this Suc.prems(1)] show ?case by (simp add: m)
qed

lemma verdict_independent_of_depth: "sz c < n \<Longrightarrow> sz c < m \<Longrightarrow> ev n c = ev m c"
  using enough_depth [of c n] enough_depth [of c m] deeper_same
  by (metis nat_le_linear)

end

section \<open>Loops that leave early\<close>

lemma scan_returns: "(\<And>x. x \<in> set xs \<Longrightarrow> \<exists>a. f x = Inr a) \<Longrightarrow> \<exists>a. scan f xs = Inr a"
proof (induction xs)
  case (Cons x xs)
  from Cons.prems [of x] obtain a where "f x = Inr a" by auto
  moreover from Cons have "\<exists>a. scan f xs = Inr a" by simp
  ultimately show ?case by (cases a) auto
qed simp

lemma scan_mono:
  "scan f xs = Inr a \<Longrightarrow> (\<And>x b. x \<in> set xs \<Longrightarrow> f x = Inr b \<Longrightarrow> g x = Inr b) \<Longrightarrow> scan g xs = Inr a"
proof (induction xs)
  case (Cons x xs)
  then obtain b where b: "f x = Inr b" by (cases "f x") auto
  with Cons.prems(2) [of x b] have g: "g x = Inr b" by simp
  show ?case
  proof (cases b)
    case None
    with b g Cons show ?thesis by simp
  next
    case (Some d)
    with b g Cons.prems(1) show ?thesis by auto
  qed
qed simp

lemma scan_Some: "scan f xs = Inr (Some d) \<Longrightarrow> \<exists>x\<in>set xs. f x = Inr (Some d)"
  by (induction xs) (auto split: sum.splits option.splits)

lemma scan_None: "scan f xs = Inr None \<Longrightarrow> x \<in> set xs \<Longrightarrow> f x = Inr None"
  by (induction xs) (auto split: sum.splits option.splits)

lemma if_blocked_returns: "\<exists>d. r = Inr d \<Longrightarrow> \<exists>a. if_blocked r = Inr a"
  by (auto simp: if_blocked_def)

lemma if_blocked_mono: "(\<And>d. r = Inr d \<Longrightarrow> r' = Inr d) \<Longrightarrow> if_blocked r = Inr a \<Longrightarrow> if_blocked r' = Inr a"
  by (cases r) (auto simp: if_blocked_def)

lemma if_blocked_None: "if_blocked r = Inr None \<Longrightarrow> \<exists>d. r = Inr d \<and> \<not> d_blocked d"
  by (cases r) (auto simp: if_blocked_def split: if_splits)

lemma if_blocked_Some: "if_blocked r = Inr (Some d) \<longleftrightarrow> r = Inr d \<and> d_blocked d"
  by (cases r) (auto simp: if_blocked_def)

section \<open>Nested commands are shorter\<close>

lemma rx_next_hit:
  "rx_next r pre s = Some h \<Longrightarrow>
     \<exists>prev s' st. length s' \<le> length s \<and> st \<in> set (rx_run r (prev, s', [])) \<and> hit_caps h = snd (snd st)"
proof (induction r pre s rule: rx_next.induct)
  case (1 r pre)
  then obtain p s' caps rest where "rx_run r (last_opt pre, [], []) = (p, s', caps) # rest" "hit_caps h = caps"
    by (auto split: list.splits)
  then have "(p, s', caps) \<in> set (rx_run r (last_opt pre, [], []))" "hit_caps h = snd (snd (p, s', caps))"
    by simp_all
  then show ?case by blast
next
  case (2 r pre c cs)
  show ?case
  proof (cases "rx_run r (last_opt pre, c # cs, [])")
    case Nil
    with 2 obtain prev s' st where "length s' \<le> length cs" "st \<in> set (rx_run r (prev, s', []))"
      "hit_caps h = snd (snd st)" by auto
    then show ?thesis by (metis le_SucI length_Cons)
  next
    case (Cons st rest)
    with "2.prems" have "hit_caps h = snd (snd st)" by (cases st) auto
    with Cons show ?thesis by (metis le_refl list.set_intros(1))
  qed
qed

lemma rx_iter_hit:
  "h \<in> set (rx_iter r pre s) \<Longrightarrow>
     \<exists>prev s' st. length s' \<le> length s \<and> st \<in> set (rx_run r (prev, s', [])) \<and> hit_caps h = snd (snd st)"
proof (induction r pre s rule: rx_iter.induct)
  case (1 r pre s)
  show ?case
  proof (cases "rx_next r pre s")
    case None
    with "1.prems" show ?thesis by (simp add: rx_iter.simps [of r pre s])
  next
    case (Some h')
    with "1.prems" consider "h = h'"
      | "length (hit_post h') < length s" "h \<in> set (rx_iter r (hit_pre h' @ hit_text h') (hit_post h'))"
      by (auto simp: rx_iter.simps [of r pre s] split: if_splits)
    then show ?thesis
    proof cases
      case 1
      with rx_next_hit [OF Some] show ?thesis by simp
    next
      case 2
      with "1.IH" [OF Some 2(1)] show ?thesis by (meson le_trans less_imp_le)
    qed
  qed
qed

lemma rx_run_SeqD: "st \<in> set (rx_run (Seq a b) st0) \<Longrightarrow> \<exists>st1. st1 \<in> set (rx_run a st0) \<and> st \<in> set (rx_run b st1)"
  by auto

lemma rx_run_lit1: "st' \<in> set (rx_run (lit [c]) (prev, s, caps)) \<Longrightarrow> \<exists>s'. s = c # s' \<and> st' = (Some c, s', caps)"
  by (cases s) (auto split: if_splits)

lemma rx_run_lit2:
  "st' \<in> set (rx_run (lit [c, d]) (prev, s, caps)) \<Longrightarrow> \<exists>s'. s = c # d # s' \<and> st' = (Some d, s', caps)"
  by (cases s; cases "tl s") (auto split: if_splits)

lemma bracketed_group_shorter:
  assumes "st' \<in> set (rx_run (Seq (Grp k (Star (Cls p))) (lit [d])) (prev, s, []))"
  shows "\<exists>g. snd (snd st') = [(k, g)] \<and> length g < length s"
proof -
  from assms obtain st1 where st1: "st1 \<in> set (rx_run (Star (Cls p)) (prev, s, []))"
    and st': "st' \<in> set (rx_run (lit [d]) (fst st1, fst (snd st1),
                (k, take (length s - length (fst (snd st1))) s) # snd (snd st1)))"
    by auto
  have caps: "snd (snd st1) = []" if "st1 \<in> set (rx_run (Star (Cls p)) (pr, t, []))" for pr t
    using that
  proof (induction "length t" arbitrary: pr t rule: less_induct)
    case less
    from less.prems show ?case
      by (subst (asm) rx_run.simps(5)) (auto split: if_splits list.splits intro: less.hyps [rotated])
  qed
  from rx_run_length [OF st1] have "length (fst (snd st1)) \<le> length s" by simp
  moreover from rx_run_lit1 [OF st'] obtain s3 where "fst (snd st1) = d # s3"
    "snd (snd st') = [(k, take (length s - length (fst (snd st1))) s)]"
    using caps [OF st1] by auto
  ultimately show ?thesis by auto
qed

lemma substitution_group:
  assumes "st \<in> set (rx_run SUBSTITUTION (prev, s, []))"
  shows "\<exists>k g. snd (snd st) = [(k, g)] \<and> length g < length s"
proof -
  from assms have "st \<in> set (rx_run (Seq (lit ''$('') (Seq (Grp 1 (Star (not_chars ''()''))) (lit '')''))) (prev, s, [])) \<or>
    st \<in> set (rx_run (Seq (lit [BTICK]) (Seq (Grp 2 (Star (not_chars [BTICK]))) (lit [BTICK]))) (prev, s, []))"
    unfolding SUBSTITUTION_def alts.simps seqs.simps rx_run.simps(4) set_append Un_iff .
  then consider
      st1 where "st1 \<in> set (rx_run (lit ''$('') (prev, s, []))"
        "st \<in> set (rx_run (Seq (Grp 1 (Star (not_chars ''()''))) (lit '')'')) st1)"
    | st1 where "st1 \<in> set (rx_run (lit [BTICK]) (prev, s, []))"
        "st \<in> set (rx_run (Seq (Grp 2 (Star (not_chars [BTICK]))) (lit [BTICK])) st1)"
    by (elim disjE) (drule rx_run_SeqD, blast)+
  then show ?thesis
  proof cases
    case 1
    from rx_run_lit2 [OF 1(1)] obtain s' where s: "s = CHR ''$'' # CHR ''('' # s'" "st1 = (Some CHR ''('', s', [])"
      by auto
    from bracketed_group_shorter [OF 1(2) [unfolded s(2) not_chars_def]] s(1) show ?thesis by fastforce
  next
    case 2
    from rx_run_lit1 [OF 2(1)] obtain s' where s: "s = BTICK # s'" "st1 = (Some BTICK, s', [])"
      by auto
    from bracketed_group_shorter [OF 2(2) [unfolded s(2) not_chars_def]] s(1) show ?thesis by fastforce
  qed
qed

lemma substitutions_shorter:
  assumes "t \<in> set (substitutions s)"
  shows "length t < length s"
proof -
  from assms obtain m where m: "m \<in> set (rx_iter SUBSTITUTION [] s)"
    and t: "t = str_or (or_else (truthy (rx_group m 1)) (rx_group m 2)) []"
    by (auto simp: substitutions_def rx_finditer_def)
  from rx_iter_hit [OF m] substitution_group obtain k g
    where c: "hit_caps m = [(k, g)]" and g: "length g < length s"
    by (metis less_le_trans)
  have "t = g \<or> t = []"
    by (simp add: t rx_group_def c str_or_def truthy_def)
  with g show ?thesis by auto
qed

text \<open>Width of a list of lines or arguments: each counts one more than its length.\<close>

definition width :: "string list \<Rightarrow> nat" where
  "width ws = sum_list (map (\<lambda>w. Suc (length w)) ws)"

lemma width_simps [simp]:
  "width [] = 0" "width (w # ws) = Suc (length w) + width ws" "width (xs @ ys) = width xs + width ys"
  by (simp_all add: width_def)

lemma width_join: "ws \<noteq> [] \<Longrightarrow> Suc (length (join_with [c] ws)) = width ws"
  by (induction "[c]" ws rule: join_with.induct) auto

lemma width_split_on: "width (split_on d s) = Suc (length s)"
proof (induction s)
  case (Cons c s)
  show ?case
  proof (cases "split_on d s")
    case Nil
    then show ?thesis by simp
  next
    case (Cons w ws)
    with Cons.IH show ?thesis by auto
  qed
qed simp

lemma width_suffix: "suffix_of ys xs \<Longrightarrow> width ys \<le> width xs"
  by (auto simp: suffix_of_def)

lemma width_mem: "w \<in> set ws \<Longrightarrow> Suc (length w) \<le> width ws"
  by (induction ws) auto

lemma take_body_width: "take_body p ls = (b, k, r) \<Longrightarrow> width b + width k + width r = width ls"
  by (induction ls arbitrary: b) (auto split: if_splits prod.splits)

lemma join_width: "length (join_with [c] ws) \<le> width ws"
  using width_join [of ws c] by (cases ws) auto

lemma take_bodies_width:
  "take_bodies kind ms ls = (k, s, d, r) \<Longrightarrow>
     width k + width r \<le> width ls \<and> (\<forall>t\<in>set s. length t \<le> width ls)"
proof (induction ms arbitrary: ls k s d r)
  case (Cons m ms)
  obtain b cl r1 where t: "take_body (heredoc_closes m) ls = (b, cl, r1)" by (metis prod_cases3)
  obtain k2 s2 d2 r2 where t2: "take_bodies kind ms r1 = (k2, s2, d2, r2)" by (metis prod_cases4)
  let ?txt = "join_with [NL] b"
  from Cons.prems t t2 have r: "r2 = r" "k = cl @ k2"
    and s: "set s \<subseteq> set (substitutions ?txt) \<union> {?txt} \<union> set s2"
    by (auto simp: Let_def)
  note w = take_body_width [OF t] and ih = Cons.IH [OF t2]
  have "length ?txt \<le> width ls" using join_width [of NL b] w by linarith
  moreover have "length t \<le> width ls" if "t \<in> set (substitutions ?txt)" for t
    using substitutions_shorter [OF that] join_width [of NL b] w by linarith
  moreover have "length t \<le> width ls" if "t \<in> set s2" for t
    using ih w that by fastforce
  ultimately show ?case using s r ih w by fastforce
qed simp

lemma heredoc_not_empty: "rx_finditer HEREDOC [] = []"
  by code_simp

lemma heredoc_lines_width:
  "heredoc_lines ls = (k, s, d) \<Longrightarrow>
     width k \<le> width ls \<and> (k = [] \<longleftrightarrow> ls = []) \<and> (\<forall>t\<in>set s. length t + 2 \<le> width ls)"
proof (induction ls arbitrary: k s d rule: heredoc_lines.induct)
  case (2 line ls)
  show ?case
  proof (cases "rx_finditer HEREDOC line")
    case Nil
    obtain k2 s2 d2 where h: "heredoc_lines ls = (k2, s2, d2)" by (metis prod_cases3)
    with "2.IH"(1) [OF Nil h] "2.prems" Nil show ?thesis by (auto intro: trans_le_add2)
  next
    case (Cons m ms)
    then have line: "line \<noteq> []" using heredoc_not_empty by auto
    obtain k1 s1 d1 r where b: "take_bodies (heredoc_consumer line m) (m # ms) ls = (k1, s1, d1, r)"
      by (metis prod_cases4)
    obtain k2 s2 d2 where h: "heredoc_lines r = (k2, s2, d2)" by (metis prod_cases3)
    have ks: "k = line # k1 @ k2" "s = s1 @ s2" using "2.prems" Cons b h by simp_all
    have ih: "width k2 \<le> width r" "\<forall>t\<in>set s2. length t + 2 \<le> width r"
      using "2.IH"(2) [OF Cons b [symmetric] refl refl h] by simp_all
    have bw: "width k1 + width r \<le> width ls" "\<forall>t\<in>set s1. length t \<le> width ls"
      using take_bodies_width [OF b] by simp_all
    have "length t + 2 \<le> width (line # ls)" if "t \<in> set s1" for t
      using bw(2) that line by (cases line) fastforce+
    moreover have "length t + 2 \<le> width (line # ls)" if "t \<in> set s2" for t
      using ih(2) bw(1) that by fastforce
    ultimately show ?thesis using ks ih(1) bw(1) by auto
  qed
qed simp

lemma split_heredocs_shorter:
  assumes "split_heredocs cmd0 = (cmd, shells, datas)"
  shows "length cmd \<le> length cmd0" and "t \<in> set (shells @ substitutions cmd) \<Longrightarrow> length t < length cmd0"
proof -
  obtain k where h: "heredoc_lines (split_on NL cmd0) = (k, shells, datas)" and cmd: "cmd = join_with [NL] k"
    using assms by (auto simp: split_heredocs_def split: prod.splits)
  note w = heredoc_lines_width [OF h] and ws = width_split_on [of NL cmd0]
  from w have "k \<noteq> []" by simp
  with width_join [of k NL] w ws show le: "length cmd \<le> length cmd0" by (simp add: cmd)
  assume "t \<in> set (shells @ substitutions cmd)"
  then show "length t < length cmd0"
    using w ws le substitutions_shorter [of t cmd] by fastforce
qed

section \<open>Arguments are shorter than the command\<close>

text \<open>Width that ignores empty arguments, which the clean-up drops.\<close>

definition solid_width :: "string list \<Rightarrow> nat" where
  "solid_width ws = width (filter (\<lambda>w. w \<noteq> []) ws)"

lemma solid_width_simps [simp]:
  "solid_width [] = 0"
  "solid_width (w # ws) = (if w = [] then 0 else Suc (length w)) + solid_width ws"
  "solid_width (xs @ ys) = solid_width xs + solid_width ys"
  by (simp_all add: solid_width_def)

lemma solid_width_suffix: "suffix_of ys xs \<Longrightarrow> solid_width ys \<le> solid_width xs"
  by (auto simp: suffix_of_def)

lemma lstrip_length: "length (lstrip_chars cs s) \<le> length s"
  by (simp add: lstrip_chars_def length_dropWhile_le)

lemma rstrip_length: "length (rstrip_chars cs s) \<le> length s"
  by (simp add: rstrip_chars_def) (metis length_dropWhile_le length_rev)

lemma solid_width_last: "length y \<le> length x \<Longrightarrow> solid_width (xs @ [y]) \<le> solid_width (xs @ [x])"
  by auto

lemma clean_segment_width:
  assumes "clean_segment seg = Some seg'" and "t \<in> set seg'" "t \<noteq> []"
  shows "width seg' \<le> solid_width seg"
proof -
  let ?d = "dropWhile (\<lambda>t. t \<in> set [''('', ''{'', ''!'']) seg"
  have "?d \<noteq> []" using assms(1) unfolding clean_segment_def by (metis list.case(1) option.distinct(1))
  then obtain u us where d: "?d = u # us" by (meson neq_Nil_conv)
  let ?s1 = "lstrip_chars ''({'' u # us"
  define s2 where "s2 = butlast ?s1 @ [rstrip_chars '')}'' (last ?s1)]"
  have seg': "seg' = (if filter (\<lambda>t. t \<noteq> []) s2 \<noteq> [] then filter (\<lambda>t. t \<noteq> []) s2 else s2)"
    using assms(1) [symmetric, unfolded clean_segment_def d list.case Let_def option.inject] unfolding s2_def .
  with assms(2,3) have "filter (\<lambda>t. t \<noteq> []) s2 \<noteq> []" by (auto simp: filter_empty_conv split: if_splits)
  with seg' have "width seg' = solid_width s2" by (simp add: solid_width_def)
  also have "\<dots> \<le> solid_width (butlast ?s1 @ [last ?s1])"
    unfolding s2_def by (rule solid_width_last) (rule rstrip_length)
  also have "butlast ?s1 @ [last ?s1] = ?s1" by (rule append_butlast_last_id) simp
  also have "solid_width ?s1 \<le> solid_width ?d" unfolding d using lstrip_length [of "''({''" u] by auto
  also have "\<dots> \<le> solid_width seg" by (rule solid_width_suffix) (rule suffix_of_dropWhile)
  finally show ?thesis .
qed

lemma solid_width_toks:
  "\<forall>t\<in>set ts. \<not> separator_token t \<Longrightarrow> solid_width ts = toks_width SEPARATOR_CHARS ts"
  by (induction ts) (auto simp: separator_token_def tok_width_def list_all_iff)

lemma group_segments_width:
  "seg \<in> set (group_segments separator_token cur ts) \<Longrightarrow> \<forall>t\<in>set cur. \<not> separator_token t \<Longrightarrow>
     solid_width seg \<le> toks_width SEPARATOR_CHARS cur + toks_width SEPARATOR_CHARS ts"
proof (induction separator_token cur ts rule: group_segments.induct)
  case (1 cur)
  then show ?case by (auto simp: solid_width_toks split: if_splits)
next
  case (2 cur t ts)
  show ?case
  proof (cases "separator_token t")
    case True
    with 2 show ?thesis by (fastforce simp: solid_width_toks split: if_splits)
  next
    case False
    have "toks_width SEPARATOR_CHARS (cur @ [t]) = toks_width SEPARATOR_CHARS cur + tok_width SEPARATOR_CHARS t"
      by (simp add: toks_width_def)
    with 2 False show ?thesis by simp
  qed
qed

lemma lexers_fail_alike: "lex_all segments_conf cmd = None \<longleftrightarrow> lex_all split_segments_conf cmd = None"
proof -
  have "plain_specials segments_conf" "plain_specials split_segments_conf" by code_simp+
  moreover have "special_char segments_conf = special_char split_segments_conf"
    by (rule ext) (auto simp: special_char_def segments_conf_def split_segments_conf_def SEPARATOR_CHARS_def)
  moreover have "commenters segments_conf = commenters split_segments_conf"
    by (simp add: segments_conf_def split_segments_conf_def)
  ultimately show ?thesis by (simp add: lex_all_def lex_None_iff)
qed

lemma segments_width:
  assumes "seg \<in> set (segments cmd)" and "t \<in> set seg" "t \<noteq> []"
  shows "seg = [cmd] \<or> width seg \<le> Suc (length cmd)"
proof (cases "lex_all segments_conf cmd")
  case None
  with lexers_fail_alike [of cmd] assms(1) show ?thesis
    by (simp add: segments_def split_shell_segments_def)
next
  case (Some tokens)
  with assms(1) obtain seg0 where g: "seg0 \<in> set (group_segments separator_token [] tokens)"
    and c: "clean_segment seg0 = Some seg"
    by (auto simp: segments_def List.map_filter_def)
  from Some have "toks_width SEPARATOR_CHARS tokens \<le> length cmd + lex_slack SP []"
    unfolding lex_all_def by (rule lex_width [rotated 2]) (simp_all add: segments_conf_def)
  with clean_segment_width [OF c assms(2,3)] group_segments_width [OF g] show ?thesis
    by (simp add: lex_slack_def)
qed

lemma unwrap_args_suffix: "suffix_of (unwrap_args ts) ts"
proof (induction ts rule: unwrap_args.induct)
  case (1 args)
  show ?case
  proof (cases args)
    case Nil
    then show ?thesis by (simp add: unwrap_args.simps)
  next
    case (Cons t rest)
    consider "t \<in> set SHELL_KEYWORDS" | "t \<notin> set SHELL_KEYWORDS" "lead_name t = ''xargs''"
      | "t \<notin> set SHELL_KEYWORDS" "lead_name t \<noteq> ''xargs''" by blast
    then show ?thesis
    proof cases
      case 1
      then have "unwrap_args args = unwrap_args (unwrap_segment rest)"
        by (simp add: Cons unwrap_args.simps [of "t # rest"])
      with "1.IH"(1) [OF Cons 1] show ?thesis
        using unwrap_segment_suffix suffix_of_Cons suffix_of_trans Cons by metis
    next
      case 2
      then have "unwrap_args args = unwrap_args (unwrap_segment (skip_xargs_options rest))"
        by (simp add: Cons unwrap_args.simps [of "t # rest"])
      with "1.IH"(2) [OF Cons 2] show ?thesis
        using unwrap_segment_suffix skip_xargs_suffix suffix_of_Cons suffix_of_trans Cons by metis
    next
      case 3
      then show ?thesis by (simp add: Cons unwrap_args.simps [of "t # rest"])
    qed
  qed
qed

lemma unwrap_suffix: "suffix_of (unwrap seg) seg"
  unfolding unwrap_def by (rule suffix_of_trans [OF unwrap_args_suffix unwrap_segment_suffix])

lemma lead_name_Nil [simp]: "lead_name [] = []"
  by code_simp

lemma skip_ssh_suffix: "suffix_of (skip_ssh_options ts) ts"
  by (induction ts rule: skip_ssh_options.induct) (auto intro: suffix_of_Cons)

lemma nested_command_width: "nested_command x args = Some c \<Longrightarrow> Suc (length c) \<le> width (tl args)"
proof (cases "x = ''eval''")
  case True
  assume "nested_command x args = Some c"
  with True have "c = join_with '' '' (tl args)" "c \<noteq> []"
    by (auto simp: nested_command_def truthy_def split: if_splits)
  then show ?thesis using width_join [of "tl args" "CHR '' ''"] by (cases "tl args") auto
next
  case False
  assume "nested_command x args = Some c"
  with False have "c \<in> set (tl (tl args))" by (simp add: nested_command_def shell_exec_args_mem)
  then show ?thesis using width_mem [of c] width_suffix [OF suffix_of_tl [of "tl args"]] le_trans by blast
qed

lemma ssh_remote_width: "ssh_remote_command args = Some c \<Longrightarrow> Suc (length c) \<le> width (tl args)"
proof -
  let ?r = "tl (skip_ssh_options (tl args))"
  assume "ssh_remote_command args = Some c"
  then have "?r \<noteq> []" "c = join_with '' '' ?r" by (auto simp: ssh_remote_command_def Let_def split: if_splits)
  then have "Suc (length c) = width ?r" using width_join by blast
  also have "\<dots> \<le> width (tl args)"
    by (intro width_suffix suffix_of_trans [OF suffix_of_tl skip_ssh_suffix])
  finally show ?thesis .
qed

text \<open>Every command the segment loops hand on is shorter than the command they split.\<close>

lemma nested_shorter:
  assumes "seg \<in> set (segments cmd)" and "unwrap seg = args" "args \<noteq> []"
    and "lead_name (hd args) \<noteq> []" and "Suc (length c) \<le> width (tl args)"
  shows "length c < length cmd"
proof -
  have h: "hd args \<noteq> []" using assms(4) by auto
  have suf: "suffix_of args seg" using unwrap_suffix assms(2) by blast
  have mem: "hd args \<in> set seg" using suffix_of_set [OF suf] assms(3) by auto
  have w: "width args = Suc (length (hd args)) + width (tl args)" using assms(3) by (cases args) auto
  from segments_width [OF assms(1) mem h] show ?thesis
  proof
    assume "seg = [cmd]"
    with suf assms(3) have "tl args = []" using suffix_of_length [OF suf] by (cases args) auto
    with assms(5) show ?thesis by simp
  next
    assume "width seg \<le> Suc (length cmd)"
    with width_suffix [OF suf] w assms(5) h show ?thesis by (cases "hd args") auto
  qed
qed

section \<open>The publication evaluator\<close>

lemma runs_nested_nonempty: "x \<in> set SHELL_EXECUTABLES \<or> x = ''eval'' \<or> x = ''ssh'' \<Longrightarrow> x \<noteq> []"
  by (auto simp: SHELL_EXECUTABLES_def)

lemma truthy_Some: "truthy a = Some t \<Longrightarrow> a = Some t \<and> t \<noteq> []"
  by (auto simp: truthy_def split: option.splits if_splits)

lemma judge_nested_returns:
  "(\<And>c. nested = Some c \<Longrightarrow> \<exists>d. ev c = Inr d) \<Longrightarrow> \<exists>a. judge_nested ev nested = Inr a"
  by (auto simp: judge_nested_def split: option.splits dest!: truthy_Some intro!: if_blocked_returns)

lemma judge_nested_mono:
  "judge_nested ev nested = Inr a \<Longrightarrow> (\<And>c d. ev c = Inr d \<Longrightarrow> ev' c = Inr d) \<Longrightarrow> judge_nested ev' nested = Inr a"
  by (auto simp: judge_nested_def split: option.splits intro: if_blocked_mono [rotated])

lemma judge_nested_Some: "judge_nested ev nested = Inr (Some d) \<Longrightarrow> \<exists>c. ev c = Inr d \<and> d_blocked d"
  by (auto simp: judge_nested_def if_blocked_Some split: option.splits)

lemma publication_segment_returns:
  assumes ev: "\<And>c. length c < length cmd \<Longrightarrow> \<exists>d. ev c = Inr d" and seg: "seg \<in> set (segments cmd)"
  shows "\<exists>a. publication_segment ev seg = Inr a"
proof -
  let ?args = "unwrap seg"
  let ?x = "lead_name (hd ?args)"
  show ?thesis
  proof (cases "?args = []")
    case True
    then show ?thesis by (simp add: publication_segment_def)
  next
    case False
    have "\<exists>a. judge_nested ev (nested_command ?x ?args) = Inr a"
      if "?x \<in> set SHELL_EXECUTABLES \<or> ?x = ''eval''"
      using nested_shorter [OF seg refl False runs_nested_nonempty nested_command_width] that
      by (intro judge_nested_returns ev) blast
    then obtain a where a: "(if ?x \<in> set SHELL_EXECUTABLES \<or> ?x = ''eval''
        then judge_nested ev (nested_command ?x ?args) else return None) = Inr a"
      by (cases "?x \<in> set SHELL_EXECUTABLES \<or> ?x = ''eval''") (simp_all only: if_True if_False, blast+)
    show ?thesis unfolding publication_segment_def Let_def a sum.case by (cases a) simp_all
  qed
qed

lemma publication_segment_mono:
  assumes "publication_segment ev seg = Inr a" and "\<And>c d. ev c = Inr d \<Longrightarrow> ev' c = Inr d"
  shows "publication_segment ev' seg = Inr a"
proof -
  let ?n = "nested_command (lead_name (hd (unwrap seg))) (unwrap seg)"
  show ?thesis
  proof (cases "judge_nested ev ?n")
    case (Inl err)
    with assms(1) show ?thesis by (auto simp: publication_segment_def Let_def split: if_splits)
  next
    case (Inr b)
    then have b: "judge_nested ev' ?n = Inr b" by (rule judge_nested_mono) (rule assms(2))
    show ?thesis using assms(1) unfolding publication_segment_def Let_def Inr b .
  qed
qed

lemma publication_segment_Some:
  assumes "publication_segment ev seg = Inr (Some d)"
  shows "d = hook_disable \<or> d = direct_publication \<or> (\<exists>c. ev c = Inr d \<and> d_blocked d)"
  using assms judge_nested_Some
  by (fastforce simp: publication_segment_def Let_def split: if_splits sum.splits option.splits)

interpretation pub: nested_evaluator evaluate_publication_command length
proof
  fix n :: nat and c :: string
  assume ev: "\<And>c'. length c' < length c \<Longrightarrow> \<exists>d. evaluate_publication_command n c' = Inr d"
  obtain cmd shells datas where h: "split_heredocs c = (cmd, shells, datas)" by (metis prod_cases3)
  have "\<exists>a. scan (\<lambda>t. if_blocked (evaluate_publication_command n t)) (shells @ substitutions cmd) = Inr a"
    by (rule scan_returns) (use split_heredocs_shorter(2) [OF h] ev if_blocked_returns in blast)
  moreover have "\<exists>a. scan (publication_segment (evaluate_publication_command n)) (segments cmd) = Inr a"
  proof (rule scan_returns, rule publication_segment_returns)
    fix t :: string
    assume "length t < length cmd"
    then show "\<exists>d. evaluate_publication_command n t = Inr d"
      using split_heredocs_shorter(1) [OF h] by (intro ev) simp
  qed
  ultimately show "\<exists>d. evaluate_publication_command (Suc n) c = Inr d"
    by (auto simp: h split: option.splits)
next
  fix n m :: nat and c :: string and d :: decision
  assume up: "\<And>c' d'. evaluate_publication_command n c' = Inr d' \<Longrightarrow> evaluate_publication_command m c' = Inr d'"
    and r: "evaluate_publication_command (Suc n) c = Inr d"
  obtain cmd shells datas where h: "split_heredocs c = (cmd, shells, datas)" by (metis prod_cases3)
  have "scan (\<lambda>t. if_blocked (evaluate_publication_command m t)) xs = Inr a"
    if "scan (\<lambda>t. if_blocked (evaluate_publication_command n t)) xs = Inr a" for xs a
    using that by (rule scan_mono) (rule if_blocked_mono [OF up])
  moreover have "scan (publication_segment (evaluate_publication_command m)) xs = Inr a"
    if "scan (publication_segment (evaluate_publication_command n)) xs = Inr a" for xs a
    using that by (rule scan_mono) (rule publication_segment_mono [OF _ up])
  ultimately show "evaluate_publication_command (Suc m) c = Inr d"
    using r by (auto simp: h split: if_splits sum.splits option.splits)
qed simp

lemma publication_verdict:
  "evaluate_publication_command n c = Inr d \<Longrightarrow> d \<in> {hook_disable, direct_publication, allow []}"
proof (induction n arbitrary: c d)
  case (Suc n)
  obtain cmd shells datas where h: "split_heredocs c = (cmd, shells, datas)" by (metis prod_cases3)
  from Suc.prems consider "d = hook_disable" | "d = allow []"
    | "scan (\<lambda>t. if_blocked (evaluate_publication_command n t)) (shells @ substitutions cmd) = Inr (Some d)"
    | "scan (publication_segment (evaluate_publication_command n)) (segments cmd) = Inr (Some d)"
    by (auto simp: h split: if_splits sum.splits option.splits)
  then show ?case
  proof cases
    case 3
    from scan_Some [OF this] Suc.IH show ?thesis by (auto simp: if_blocked_Some)
  next
    case 4
    from scan_Some [OF this] publication_segment_Some Suc.IH show ?thesis by blast
  qed simp_all
qed simp

lemma pub_blocked_simps [simp]: "d_blocked hook_disable" "d_blocked direct_publication"
  by (simp_all add: hook_disable_def direct_publication_def blocked_def)

lemma publication_segment_blocks:
  assumes "unwrap seg = args" "args \<noteq> []" and "lead_name (hd args) \<notin> set READ_ONLY"
    and "publishes (lead_name (hd args)) args" and "publication_segment ev seg = Inr a"
  shows "a \<noteq> None"
  using assms by (auto simp: publication_segment_def Let_def split: if_splits sum.splits option.splits)

section \<open>The irreversible evaluator\<close>

lemma irreversible_segment_returns:
  assumes ev: "\<And>c w. length c < length cmd \<Longrightarrow> \<exists>d. ev c w = Inr d" and seg: "seg \<in> set (segments cmd)"
    and args: "unwrap seg = args" "args \<noteq> []"
  shows "\<exists>a. irreversible_segment ev e args w = Inr a"
proof -
  let ?x = "lead_name (hd args)"
  have "\<exists>a. judge_nested (\<lambda>c. ev c w) (nested_command ?x args) = Inr a"
    if "?x \<in> set SHELL_EXECUTABLES \<or> ?x = ''eval''"
    using nested_shorter [OF seg args runs_nested_nonempty nested_command_width] that
    by (intro judge_nested_returns ev) blast
  moreover have "\<exists>a. judge_nested (\<lambda>c. ev c REMOTE_CWD) (ssh_remote_command args) = Inr a" if "?x = ''ssh''"
    using nested_shorter [OF seg args runs_nested_nonempty ssh_remote_width] that
    by (intro judge_nested_returns ev) blast
  ultimately show ?thesis unfolding irreversible_segment_def Let_def by auto
qed

lemma irreversible_segments_returns:
  assumes "\<And>c w. length c < length cmd \<Longrightarrow> \<exists>d. ev c w = Inr d"
  shows "set segs \<subseteq> set (segments cmd) \<Longrightarrow> \<exists>a. irreversible_segments ev e w segs = Inr a"
proof (induction segs arbitrary: w)
  case (Cons seg segs)
  then have ih: "\<exists>a. irreversible_segments ev e w segs = Inr a" for w by simp
  have "\<exists>a. irreversible_segment ev e (unwrap seg) w = Inr a" if "unwrap seg \<noteq> []"
    by (rule irreversible_segment_returns [OF assms _ refl that]) (use Cons.prems in auto)
  with ih show ?case by (auto simp: Let_def split: option.splits)
qed simp

lemma irreversible_segment_mono:
  assumes "irreversible_segment ev e args w = Inr a" and "\<And>c v d. ev c v = Inr d \<Longrightarrow> ev' c v = Inr d"
  shows "irreversible_segment ev' e args w = Inr a"
  using assms(1) judge_nested_mono [OF _ assms(2)]
  unfolding irreversible_segment_def Let_def by (auto split: if_splits)

lemma irreversible_segments_mono:
  "irreversible_segments ev e w segs = Inr a \<Longrightarrow> (\<And>c v d. ev c v = Inr d \<Longrightarrow> ev' c v = Inr d) \<Longrightarrow>
     irreversible_segments ev' e w segs = Inr a"
proof (induction segs arbitrary: w)
  case (Cons seg segs)
  show ?case
  proof (cases "unwrap seg = [] \<or> lead_name (hd (unwrap seg)) = ''cd''")
    case True
    with Cons show ?thesis by (auto simp: Let_def)
  next
    case False
    with Cons.prems(1) obtain b where b: "irreversible_segment ev e (unwrap seg) w = Inr b"
      by (auto simp: Let_def split: sum.splits)
    have "irreversible_segment ev' e (unwrap seg) w = Inr b"
      by (rule irreversible_segment_mono [OF b Cons.prems(2)])
    with b False Cons show ?thesis by (cases b) (auto simp: Let_def)
  qed
qed simp

text \<open>The evaluator on a command and its directory, for a process whose working directory exists.\<close>

abbreviation irreversible_at :: "user_env \<Rightarrow> string \<Rightarrow> nat \<Rightarrow> string \<times> string option \<Rightarrow> (guard_error, decision) result" where
  "irreversible_at e here n c \<equiv> evaluate_irreversible_command n e (Some here) (fst c) (snd c)"

lemma start_directory_Some: "\<exists>w. start_directory e (Some here) cwd = Some w"
  by (auto simp: start_directory_def split: option.splits)

lemma irreversible_level_returns:
  assumes ev: "\<And>c' w. length c' < length c \<Longrightarrow> \<exists>d. evaluate_irreversible_command n e (Some here) c' w = Inr d"
  shows "\<exists>d. evaluate_irreversible_command (Suc n) e (Some here) c cwd = Inr d"
proof -
  obtain cmd shells datas where h: "split_heredocs c = (cmd, shells, datas)" by (metis prod_cases3)
  obtain w where w: "start_directory e (Some here) cwd = Some w" using start_directory_Some by blast
  let ?ev = "\<lambda>t v. evaluate_irreversible_command n e (Some here) t (Some v)"
  have "\<exists>a. scan (\<lambda>t. if_blocked (?ev t w)) (shells @ substitutions cmd) = Inr a"
    by (rule scan_returns) (use split_heredocs_shorter(2) [OF h] ev if_blocked_returns in blast)
  moreover have "\<exists>a. irreversible_segments ?ev e w (segments cmd) = Inr a"
  proof (rule irreversible_segments_returns)
    fix t v :: string assume "length t < length cmd"
    then show "\<exists>d. ?ev t v = Inr d" using split_heredocs_shorter(1) [OF h] by (intro ev) simp
  qed simp
  ultimately show ?thesis by (auto simp: h w split: option.splits)
qed

lemma irreversible_level_mono:
  assumes up: "\<And>c' w d'. evaluate_irreversible_command n e here c' w = Inr d' \<Longrightarrow>
      evaluate_irreversible_command m e here c' w = Inr d'"
    and r: "evaluate_irreversible_command (Suc n) e here c cwd = Inr d"
  shows "evaluate_irreversible_command (Suc m) e here c cwd = Inr d"
proof -
  obtain cmd shells datas where h: "split_heredocs c = (cmd, shells, datas)" by (metis prod_cases3)
  obtain w where w: "start_directory e here cwd = Some w" using r by (auto split: option.splits)
  let ?ev = "\<lambda>n t v. evaluate_irreversible_command n e here t (Some v)"
  have "scan (\<lambda>t. if_blocked (?ev m t w)) xs = Inr a" if "scan (\<lambda>t. if_blocked (?ev n t w)) xs = Inr a" for xs a
    using that by (rule scan_mono) (rule if_blocked_mono [OF up])
  moreover have "irreversible_segments (?ev m) e w xs = Inr a"
    if "irreversible_segments (?ev n) e w xs = Inr a" for xs a
    using that by (rule irreversible_segments_mono) (rule up)
  ultimately show ?thesis using r by (auto simp: h w split: sum.splits option.splits)
qed

interpretation irr: nested_evaluator "irreversible_at e here" "\<lambda>c. length (fst c)" for e here
proof
  fix n and c :: "string \<times> string option"
  assume "\<And>c' :: string \<times> string option. length (fst c') < length (fst c) \<Longrightarrow> \<exists>d. irreversible_at e here n c' = Inr d"
  then show "\<exists>d. irreversible_at e here (Suc n) c = Inr d"
    by (intro irreversible_level_returns) (metis fst_conv snd_conv)
next
  fix n m and c :: "string \<times> string option" and d
  assume "\<And>(c' :: string \<times> string option) d'. irreversible_at e here n c' = Inr d' \<Longrightarrow> irreversible_at e here m c' = Inr d'"
    and "irreversible_at e here (Suc n) c = Inr d"
  then show "irreversible_at e here (Suc m) c = Inr d"
    by (intro irreversible_level_mono [of n e "Some here" m]) (metis fst_conv snd_conv)
qed simp

definition mute_denial :: "decision \<Rightarrow> bool" where
  "mute_denial d \<longleftrightarrow>
     d_blocked d \<and> d_command d = [] \<and> (\<exists>m. d_message d = Some m \<and> startswith m ''BLOCKED:'')"

lemma irreversible_segments_Some:
  "irreversible_segments ev e w segs = Inr (Some d) \<Longrightarrow>
     (\<exists>c v. ev c v = Inr d \<and> d_blocked d) \<or>
     (\<exists>args v d0. irreversible_segment_decision e args v = Some d0 \<and> d = d0\<lparr>d_blocked := True, d_command := []\<rparr>)"
proof (induction segs arbitrary: w)
  case (Cons seg segs)
  have one: "(\<exists>c v. ev c v = Inr d \<and> d_blocked d) \<or>
     (\<exists>args v d0. irreversible_segment_decision e args v = Some d0 \<and> d = d0\<lparr>d_blocked := True, d_command := []\<rparr>)"
    if "irreversible_segment ev e args w = Inr (Some d)" for args
    using that judge_nested_Some unfolding irreversible_segment_def Let_def
    by (fastforce split: if_splits)
  show ?case
    using Cons one by (auto simp: Let_def split: if_splits sum.splits option.splits)
qed simp

lemma irreversible_verdict:
  "evaluate_irreversible_command n e here c cwd = Inr d \<Longrightarrow> d = allow [] \<or> mute_denial d"
proof (induction n arbitrary: c cwd d)
  case (Suc n)
  obtain cmd shells datas where h: "split_heredocs c = (cmd, shells, datas)" by (metis prod_cases3)
  obtain w where w: "start_directory e here cwd = Some w" using Suc.prems by (auto split: option.splits)
  let ?ev = "\<lambda>t v. evaluate_irreversible_command n e here t (Some v)"
  from Suc.prems consider "d = allow []"
    | "scan (\<lambda>t. if_blocked (?ev t w)) (shells @ substitutions cmd) = Inr (Some d)"
    | "irreversible_segments ?ev e w (segments cmd) = Inr (Some d)"
    by (auto simp: h w split: sum.splits option.splits)
  then show ?case
  proof cases
    case 2
    from scan_Some [OF this] Suc.IH show ?thesis by (auto simp: if_blocked_Some)
  next
    case 3
    from irreversible_segments_Some [OF this] show ?thesis
    proof
      assume "\<exists>c v. ?ev c v = Inr d \<and> d_blocked d"
      with Suc.IH show ?thesis by blast
    next
      assume "\<exists>args v d0. irreversible_segment_decision e args v = Some d0 \<and> d = d0\<lparr>d_blocked := True, d_command := []\<rparr>"
      then obtain args v d0 where d0: "irreversible_segment_decision e args v = Some d0"
        and d: "d = d0\<lparr>d_blocked := True, d_command := []\<rparr>" by blast
      from answersD [OF segment_denial d0] show ?thesis by (auto simp: d denial_def mute_denial_def)
    qed
  qed simp
qed simp

section \<open>Publication anywhere in a command\<close>

text \<open>
  The command positions a shell would reach: a segment that publishes, directly or in a
  heredoc body read by a shell, a substitution, or the argument of \<open>bash -c\<close> and \<open>eval\<close>.
\<close>

inductive reaches_publication :: "string \<Rightarrow> bool" where
  segment: "split_heredocs c = (cmd, shells, datas) \<Longrightarrow> seg \<in> set (segments cmd) \<Longrightarrow> unwrap seg = x # r \<Longrightarrow>
    lead_name x \<notin> set READ_ONLY \<Longrightarrow> publishes (lead_name x) (x # r) \<Longrightarrow> reaches_publication c"
| body: "split_heredocs c = (cmd, shells, datas) \<Longrightarrow> t \<in> set (shells @ substitutions cmd) \<Longrightarrow>
    reaches_publication t \<Longrightarrow> reaches_publication c"
| shell: "split_heredocs c = (cmd, shells, datas) \<Longrightarrow> seg \<in> set (segments cmd) \<Longrightarrow> unwrap seg = x # r \<Longrightarrow>
    lead_name x \<in> set SHELL_EXECUTABLES \<or> lead_name x = ''eval'' \<Longrightarrow>
    nested_command (lead_name x) (x # r) = Some t \<Longrightarrow> t \<noteq> [] \<Longrightarrow> reaches_publication t \<Longrightarrow> reaches_publication c"

lemma shells_not_read_only: "x \<in> set SHELL_EXECUTABLES \<or> x = ''eval'' \<Longrightarrow> x \<notin> set READ_ONLY"
  by (auto simp: SHELL_EXECUTABLES_def READ_ONLY_def)

lemma publication_level_blocked:
  assumes "evaluate_publication_command (Suc n) c = Inr d" and "split_heredocs c = (cmd, shells, datas)"
    and "\<not> d_blocked d"
  shows "t \<in> set (shells @ substitutions cmd) \<Longrightarrow> \<exists>d'. evaluate_publication_command n t = Inr d' \<and> \<not> d_blocked d'"
    and "seg \<in> set (segments cmd) \<Longrightarrow> publication_segment (evaluate_publication_command n) seg = Inr None"
proof -
  let ?ev = "evaluate_publication_command n"
  have blocked: "d_blocked b" if "scan (\<lambda>t. if_blocked (?ev t)) xs = Inr (Some b)" for xs b
    using scan_Some [OF that] by (auto simp: if_blocked_Some)
  have blocked2: "d_blocked b" if "scan (publication_segment ?ev) xs = Inr (Some b)" for xs b
    using scan_Some [OF that] publication_segment_Some by fastforce
  have none: "scan (\<lambda>t. if_blocked (?ev t)) (shells @ substitutions cmd) = Inr None"
    "scan (publication_segment ?ev) (segments cmd) = Inr None"
    using assms blocked blocked2 by (auto split: if_splits sum.splits option.splits)
  show "t \<in> set (shells @ substitutions cmd) \<Longrightarrow> \<exists>d'. ?ev t = Inr d' \<and> \<not> d_blocked d'"
    by (rule if_blocked_None) (rule scan_None [OF none(1)])
  show "seg \<in> set (segments cmd) \<Longrightarrow> publication_segment ?ev seg = Inr None"
    by (rule scan_None [OF none(2)])
qed

lemma publication_segment_None:
  assumes "publication_segment ev seg = Inr None" and "unwrap seg = x # r" and "lead_name x \<notin> set READ_ONLY"
  shows "\<not> publishes (lead_name x) (x # r)"
    and "lead_name x \<in> set SHELL_EXECUTABLES \<or> lead_name x = ''eval'' \<Longrightarrow>
      judge_nested ev (nested_command (lead_name x) (x # r)) = Inr None"
  using assms unfolding publication_segment_def Let_def
  by (auto split: if_splits sum.splits option.splits)

lemma reaches_publication_blocked:
  "reaches_publication c \<Longrightarrow> evaluate_publication_command n c = Inr d \<Longrightarrow> d_blocked d"
proof (induction arbitrary: n d rule: reaches_publication.induct)
  case (segment c cmd shells datas seg x r)
  show ?case
  proof (rule ccontr)
    assume nb: "\<not> d_blocked d"
    from segment.prems obtain k where n: "n = Suc k" by (cases n) auto
    from publication_level_blocked(2) [OF segment.prems [unfolded n] segment.hyps(1) nb segment.hyps(2)]
      publication_segment_None(1) segment.hyps show False by blast
  qed
next
  case (body c cmd shells datas t)
  show ?case
  proof (rule ccontr)
    assume nb: "\<not> d_blocked d"
    from body.prems obtain k where n: "n = Suc k" by (cases n) auto
    from publication_level_blocked(1) [OF body.prems [unfolded n] body.hyps(1) nb body.hyps(2)] body.IH
    show False by blast
  qed
next
  case (shell c cmd shells datas seg x r t)
  show ?case
  proof (rule ccontr)
    assume nb: "\<not> d_blocked d"
    from shell.prems obtain k where n: "n = Suc k" by (cases n) auto
    have "judge_nested (evaluate_publication_command k) (Some t) = Inr None"
      using publication_segment_None(2)
        [OF publication_level_blocked(2) [OF shell.prems [unfolded n] shell.hyps(1) nb shell.hyps(2)] shell.hyps(3)]
        shell.hyps(4,5) shells_not_read_only by metis
    with \<open>t \<noteq> []\<close> obtain d' where "evaluate_publication_command k t = Inr d'" "\<not> d_blocked d'"
      by (auto simp: judge_nested_def truthy_def if_blocked_def split: sum.splits if_splits)
    with shell.IH show False by blast
  qed
qed

text \<open>
  C19: With more stack frames than the command has characters the publication guard returns,
  and its verdict is one of three fixed decisions: it never reflects the command.
\<close>

theorem publication_returns_fixed_verdict:
  assumes "length c < n"
  shows "\<exists>d\<in>{hook_disable, direct_publication, allow []}. evaluate_publication_command n c = Inr d"
  using pub.enough_depth [OF assms] publication_verdict by blast

theorem publication_returns_fixed_verdict_witness:
  "\<exists>d\<in>{hook_disable, direct_publication, allow []}. evaluate_publication_command 20 ''sudo git push; ls'' = Inr d"
  by (rule publication_returns_fixed_verdict) simp



text \<open>
  The irreversible guard returns within as many frames as the command has characters,
  and it either allows or denies with a \<open>BLOCKED:\<close> message that does not reflect the command.
\<close>

theorem irreversible_returns_mute_verdict:
  assumes "length c < n"
  shows "\<exists>d. evaluate_irreversible_command n e (Some here) c cwd = Inr d \<and> (d = allow [] \<or> mute_denial d)"
  using irr.enough_depth [of "(c, cwd)" n e here] assms irreversible_verdict by fastforce

theorem irreversible_returns_mute_verdict_witness:
  "\<exists>d. evaluate_irreversible_command 20 sample_env (Some ''/tmp'') ''ssh h rm -rf /srv'' None = Inr d \<and>
       (d = allow [] \<or> mute_denial d)"
  by (rule irreversible_returns_mute_verdict) simp

text \<open>The directory a segment runs in: the \<open>cd\<close> segments before it move it.\<close>

fun directory_after :: "user_env \<Rightarrow> string \<Rightarrow> string list list \<Rightarrow> string" where
  "directory_after e w [] = w"
| "directory_after e w (seg # segs) =
     directory_after e
       (if unwrap seg \<noteq> [] \<and> lead_name (hd (unwrap seg)) = ''cd'' then cd_target e (unwrap seg) w else w) segs"

lemma irreversible_segments_hit:
  assumes "irreversible_segment_decision e args (directory_after e w pre) \<noteq> None"
    and "unwrap seg = args" "args \<noteq> []" and "lead_name (hd args) \<notin> set (SHELL_EXECUTABLES @ [''eval'', ''ssh'', ''cd''])"
  shows "irreversible_segments ev e w (pre @ seg # post) = Inr a \<Longrightarrow> a \<noteq> None"
  using assms(1)
proof (induction pre arbitrary: w)
  case Nil
  then show ?case using assms(2-4) by (auto simp: Let_def irreversible_segment_def)
next
  case (Cons p pre)
  then show ?case by (auto simp: Let_def split: if_splits sum.splits option.splits)
qed

text \<open>
  C8: A segment that the argv policy refuses in the directory the preceding \<open>cd\<close> segments
  lead to is denied, wherever it stands among the segments of a command.
\<close>

theorem irreversible_segment_denied_after_cd:
  assumes "length c < n" and "split_heredocs c = (cmd, shells, datas)" and "segments cmd = pre @ seg # post"
    and "unwrap seg = args" "args \<noteq> []" and "lead_name (hd args) \<notin> set (SHELL_EXECUTABLES @ [''eval'', ''ssh'', ''cd''])"
    and "start_directory e (Some here) cwd = Some w"
    and "irreversible_segment_decision e args (directory_after e w pre) \<noteq> None"
  shows "\<exists>d. evaluate_irreversible_command n e (Some here) c cwd = Inr d \<and> mute_denial d"
proof -
  obtain k where n: "n = Suc k" using assms(1) by (cases n) auto
  let ?ev = "\<lambda>t v. evaluate_irreversible_command k e (Some here) t (Some v)"
  obtain d where d: "evaluate_irreversible_command n e (Some here) c cwd = Inr d"
    using irr.enough_depth [of "(c, cwd)" n e here] assms(1) by auto
  have hit: "irreversible_segments ?ev e w (segments cmd) \<noteq> Inr None"
    using irreversible_segments_hit [OF assms(8,4,5,6), where ev = ?ev and post = post] assms(3) by fastforce
  have "d_blocked d"
  proof (rule ccontr)
    assume nb: "\<not> d_blocked d"
    then have nm: "\<not> mute_denial d" by (simp add: mute_denial_def)
    have blocked: "d_blocked b" if "scan (\<lambda>t. if_blocked (?ev t w)) xs = Inr (Some b)" for xs b
      using scan_Some [OF that] by (auto simp: if_blocked_Some)
    have blocked2: "d_blocked b" if "irreversible_segments ?ev e w xs = Inr (Some b)" for xs b
      using irreversible_segments_Some [OF that] by auto
    from d nb blocked blocked2 hit show False
      by (auto simp: n assms(2,7) split: sum.splits option.splits)
  qed
  then show ?thesis using d irreversible_verdict [OF d] by auto
qed

theorem irreversible_segment_denied_after_cd_witness:
  "\<exists>d. evaluate_irreversible_command 30 sample_env (Some ''/srv'') ''cd /srv; cd x; rm -r .'' None = Inr d \<and> mute_denial d"
proof (rule irreversible_segment_denied_after_cd)
  show "split_heredocs ''cd /srv; cd x; rm -r .'' = (''cd /srv; cd x; rm -r .'', [], [])" by code_simp
  show "segments ''cd /srv; cd x; rm -r .'' = [[''cd'', ''/srv''], [''cd'', ''x'']] @ [''rm'', ''-r'', ''.''] # []" by code_simp
  show "unwrap [''rm'', ''-r'', ''.''] = [''rm'', ''-r'', ''.'']" by code_simp
  show "lead_name (hd [''rm'', ''-r'', ''.'']) \<notin> set (SHELL_EXECUTABLES @ [''eval'', ''ssh'', ''cd''])" by code_simp
  show "start_directory sample_env (Some ''/srv'') None = Some ''/srv''" by code_simp
  show "irreversible_segment_decision sample_env [''rm'', ''-r'', ''.'']
      (directory_after sample_env ''/srv'' [[''cd'', ''/srv''], [''cd'', ''x'']]) \<noteq> None" by code_simp
qed simp_all

text \<open>
  An unquoted \<open>#\<close> ends the segments the guards see: the lexer's comment runs to the end
  of the line and takes the newline with it. A command after a comment line, or after
  \<open>;\<close> behind a word that contains \<open>#\<close>, is not judged.
\<close>

theorem comment_hides_commands:
  "evaluate_publication_command 40 ''echo a#b; git push'' = Inr (allow []) \<and>
   evaluate_irreversible_command 40 sample_env (Some ''/tmp'') (''ls # c'' @ NL # ''rm -rf /srv'') None = Inr (allow []) \<and>
   irreversible_segment_decision sample_env [''rm'', ''-rf'', ''/srv''] ''/tmp'' \<noteq> None"
  by (intro conjI) code_simp+

end
