(* ===== verification/Json.thy ===== *)
theory Json
  imports Shlex "HOL-Library.List_Lexorder" "HOL-Library.Char_ord"
begin

text \<open>
  JSON values as the sources see them after decoding, and Python's \<open>str()\<close> of them. A
  Python \<open>dict\<close> is the list of its entries; where two dicts are compared they are taken in
  key order, so that equality of the lists is Python's \<open>==\<close>. JSON numbers are integers.
\<close>

datatype json = JNull | JBool bool | JNum int | JStr string | JList "json list" | JObj "(string \<times> json) list"

section \<open>str() of a JSON value\<close>

definition digit_char :: "nat \<Rightarrow> char" where
  "digit_char n = char_of (48 + n)"

fun nat_str :: "nat \<Rightarrow> string" where
  "nat_str n = (if n < 10 then [digit_char n] else nat_str (n div 10) @ [digit_char (n mod 10)])"

declare nat_str.simps [simp del]

definition int_str :: "int \<Rightarrow> string" where
  "int_str i = (if i < 0 then CHR ''-'' # nat_str (nat (- i)) else nat_str (nat i))"

definition hex_digit :: "nat \<Rightarrow> char" where
  "hex_digit n = (if n < 10 then char_of (48 + n) else char_of (87 + n))"

text \<open>\<open>repr\<close> of an ASCII string: single quotes unless it holds a single and no double quote.\<close>

definition repr_char :: "char \<Rightarrow> char \<Rightarrow> string" where
  "repr_char q c =
     (if c = q \<or> c = BSL then [BSL, c]
      else if c = NL then [BSL, CHR ''n''] else if c = CR then [BSL, CHR ''r'']
      else if c = TAB then [BSL, CHR ''t'']
      else if char_nat c < 32 \<or> char_nat c = 127
      then [BSL, CHR ''x'', hex_digit (char_nat c div 16), hex_digit (char_nat c mod 16)]
      else [c])"

definition str_repr :: "string \<Rightarrow> string" where
  "str_repr s =
     (let q = (if SQ \<in> set s \<and> DQ \<notin> set s then DQ else SQ) in q # concat (map (repr_char q) s) @ [q])"

fun json_repr :: "json \<Rightarrow> string" where
  "json_repr JNull = ''None''"
| "json_repr (JBool b) = (if b then ''True'' else ''False'')"
| "json_repr (JNum i) = int_str i"
| "json_repr (JStr s) = str_repr s"
| "json_repr (JList js) = ''['' @ join_with '', '' (map json_repr js) @ '']''"
| "json_repr (JObj kvs) =
     ''{'' @ join_with '', '' (map (\<lambda>(k, v). str_repr k @ '': '' @ json_repr v) kvs) @ ''}''"

definition json_str :: "json \<Rightarrow> string" where
  "json_str j = (case j of JStr s \<Rightarrow> s | _ \<Rightarrow> json_repr j)"

section \<open>Reading dicts\<close>

type_synonym dict = "(string \<times> json) list"

text \<open>Python's truth value of a decoded value.\<close>

fun truth :: "json \<Rightarrow> bool" where
  "truth JNull = False"
| "truth (JBool b) = b"
| "truth (JNum i) = (i \<noteq> 0)"
| "truth (JStr s) = (s \<noteq> [])"
| "truth (JList js) = (js \<noteq> [])"
| "truth (JObj d) = (d \<noteq> [])"

text \<open>\<open>d.get(k)\<close> and \<open>d.get(k, default)\<close>\<close>

definition get_or :: "dict \<Rightarrow> string \<Rightarrow> json \<Rightarrow> json" where
  "get_or d k v = (case map_of d k of Some w \<Rightarrow> w | None \<Rightarrow> v)"

definition get :: "dict \<Rightarrow> string \<Rightarrow> json" where
  "get d k = get_or d k JNull"

text \<open>
  \<open>d.get(k) or {}\<close> and \<open>d.get(k) or []\<close> where the entry, if there is a truthy one, is an
  object or an array, as its writers store it.
\<close>

definition get_dict :: "dict \<Rightarrow> string \<Rightarrow> dict" where
  "get_dict d k = (case get d k of JObj e \<Rightarrow> e | _ \<Rightarrow> [])"

definition get_list :: "dict \<Rightarrow> string \<Rightarrow> json list" where
  "get_list d k = (case get d k of JList js \<Rightarrow> js | _ \<Rightarrow> [])"

definition has_str :: "dict \<Rightarrow> string \<Rightarrow> string \<Rightarrow> bool" where
  "has_str d k s \<longleftrightarrow> map_of d k = Some (JStr s)"

section \<open>jsonb\<close>

text \<open>A \<open>jsonb\<close> object keeps one entry per key, in key order; \<open>||\<close> lets the right side win.\<close>

fun jput :: "string \<Rightarrow> json \<Rightarrow> dict \<Rightarrow> dict" where
  "jput k v [] = [(k, v)]"
| "jput k v ((k', v') # d) =
     (if k = k' then (k, v) # d else if k < k' then (k, v) # (k', v') # d else (k', v') # jput k v d)"

definition jmerge :: "dict \<Rightarrow> dict \<Rightarrow> dict" where
  "jmerge d e = fold (\<lambda>(k, v). jput k v) e d"

lemma map_of_jput [simp]: "map_of (jput k v d) = (map_of d)(k \<mapsto> v)"
  by (induction d) auto

lemma map_of_jmerge_single [simp]: "map_of (jmerge d [(k, v)]) = (map_of d)(k \<mapsto> v)"
  by (simp add: jmerge_def)

lemma map_of_jmerge: "distinct (map fst e) \<Longrightarrow> map_of (jmerge d e) = map_of d ++ map_of e"
proof (induction e arbitrary: d)
  case (Cons a e)
  obtain k v where a: "a = (k, v)" by (cases a)
  with Cons have "map_of (jmerge (jput k v d) e) = (map_of d)(k \<mapsto> v) ++ map_of e" by simp
  moreover have "map_of e k = None" using Cons.prems a by (simp add: map_of_eq_None_iff)
  ultimately show ?case
    by (auto simp: jmerge_def a map_add_def fun_eq_iff split: option.splits)
qed (simp add: jmerge_def)

text \<open>\<open>value ->> key\<close> on an entry that is a scalar or absent.\<close>

definition jtext :: "dict \<Rightarrow> string \<Rightarrow> string option" where
  "jtext d k =
     (case map_of d k of
        Some (JStr s) \<Rightarrow> Some s
      | Some (JNum i) \<Rightarrow> Some (int_str i)
      | Some (JBool b) \<Rightarrow> Some (if b then ''true'' else ''false'')
      | _ \<Rightarrow> None)"

lemma get_simps [simp]:
  "get_or ((k, v) # d) j w = (if j = k then v else get_or d j w)"
  "get_or [] j w = w"
  by (simp_all add: get_or_def)

end
