(* ===== verification/PublicationHook.thy ===== *)
theory PublicationHook
  imports PublicationFacts Json
begin

text \<open>
  The tool-use hook itself (\<open>backend/app/services/publication_hook.py\<close>): reading the JSON
  payload, running both guards, and the answer it prints. A payload is a JSON value;
  \<open>json.load\<close> gives \<open>None\<close> when it raises.
\<close>

definition CONNECTOR_MUTATIONS :: "string list" where
  "CONNECTOR_MUTATIONS =
     [''merge_pull_request'', ''create_release'', ''update_release'', ''delete_release'',
      ''push_files'', ''create_or_update_file'', ''create_repository'']"

definition SHELL_TOOLS :: "string list" where
  "SHELL_TOOLS = [''bash'', ''exec_command'', ''shell'']"

section \<open>Evaluating a payload\<close>

fun str_items :: "json list \<Rightarrow> string list option" where
  "str_items [] = Some []"
| "str_items (JStr s # js) = map_option (Cons s) (str_items js)"
| "str_items (_ # js) = None"

text \<open>
  The \<open>command\<close> entry, or \<open>cmd\<close> when there is no \<open>command\<close> entry; an argv list is joined.
\<close>

definition payload_command :: "(string \<times> json) list \<Rightarrow> json" where
  "payload_command tool_input =
     (let c = (case map_of tool_input ''command'' of
                 Some v \<Rightarrow> v
               | None \<Rightarrow> (case map_of tool_input ''cmd'' of Some v \<Rightarrow> v | None \<Rightarrow> JNull))
      in case c of
           JList js \<Rightarrow> (case str_items js of Some ws \<Rightarrow> JStr (shlex_join ws) | None \<Rightarrow> c)
         | _ \<Rightarrow> c)"

definition irreversible_decision :: "nat \<Rightarrow> user_env \<Rightarrow> string option \<Rightarrow> string \<Rightarrow> json option \<Rightarrow> decision" where
  "irreversible_decision depth e here cmd cwd =
     (case evaluate_irreversible_command depth e here cmd
             (case cwd of Some (JStr s) \<Rightarrow> truthy (Some s) | _ \<Rightarrow> None) of
        Inl _ \<Rightarrow> allow []
      | Inr d \<Rightarrow> d)"

definition evaluate_payload ::
  "nat \<Rightarrow> user_env \<Rightarrow> string option \<Rightarrow> json \<Rightarrow> (guard_error, decision) result" where
  "evaluate_payload depth e here payload =
     (case payload of
        JObj obj \<Rightarrow>
          (case map_of obj ''tool_input'' of
             Some (JObj tool_input) \<Rightarrow>
               (let tool = lower (json_str (case map_of obj ''tool_name'' of Some v \<Rightarrow> v | None \<Rightarrow> JStr []))
                in case payload_command tool_input of
                     JNull \<Rightarrow>
                       (if list_ex (contains tool) CONNECTOR_MUTATIONS then return direct_publication
                        else if list_ex (contains tool) SHELL_TOOLS then raise (ValueError ''Missing shell command'')
                        else return (allow []))
                   | JStr cmd \<Rightarrow>
                       (if strip cmd = [] then raise (ValueError ''Invalid command'')
                        else (case evaluate_publication_command depth cmd of
                                Inl err \<Rightarrow> raise err
                              | Inr d \<Rightarrow>
                                  if d_blocked d then return d
                                  else return (irreversible_decision depth e here cmd (map_of obj ''cwd''))))
                   | _ \<Rightarrow> raise (ValueError ''Invalid command''))
           | _ \<Rightarrow> raise (ValueError ''Missing tool input''))
      | _ \<Rightarrow> raise (ValueError ''Hook payload must be an object''))"

definition emit_json :: "decision \<Rightarrow> json" where
  "emit_json d =
     (if d_blocked d then
        JObj [(''hookSpecificOutput'',
          JObj [(''hookEventName'', JStr ''PreToolUse''), (''permissionDecision'', JStr ''deny''),
                (''permissionDecisionReason'', case d_message d of Some m \<Rightarrow> JStr m | None \<Rightarrow> JNull)])]
      else JObj [])"

definition publication_error :: decision where
  "publication_error =
     blocked ''publication_error'' ''Publication guard could not evaluate tool input; execution refused.''"

text \<open>What the hook prints for the parsed standard input, and its exit status.\<close>

definition publication_hook_main :: "nat \<Rightarrow> user_env \<Rightarrow> string option \<Rightarrow> json option \<Rightarrow> json \<times> int" where
  "publication_hook_main depth e here stdin =
     (let d = (case stdin of
                 None \<Rightarrow> publication_error
               | Some payload \<Rightarrow>
                   (case evaluate_payload depth e here payload of
                      Inl _ \<Rightarrow> publication_error
                    | Inr d \<Rightarrow> d))
      in (emit_json d, 0))"

section \<open>Fail closed, fail open\<close>

definition denies :: "json \<Rightarrow> bool" where
  "denies out \<longleftrightarrow>
     (case out of
        JObj [(k, JObj kvs)] \<Rightarrow> k = ''hookSpecificOutput'' \<and> map_of kvs ''permissionDecision'' = Some (JStr ''deny'')
      | _ \<Rightarrow> False)"

lemma denies_emit: "denies (emit_json d) \<longleftrightarrow> d_blocked d"
  by (simp add: denies_def emit_json_def)

definition shell_payload :: "(string \<times> json) list \<Rightarrow> (string \<times> json) list \<Rightarrow> string \<Rightarrow> bool" where
  "shell_payload obj tool_input cmd \<longleftrightarrow>
     map_of obj ''tool_input'' = Some (JObj tool_input) \<and> payload_command tool_input = JStr cmd"

lemma evaluate_shell_payload:
  assumes "shell_payload obj tool_input cmd"
  shows "evaluate_payload depth e here (JObj obj) =
    (if strip cmd = [] then raise (ValueError ''Invalid command'')
     else (case evaluate_publication_command depth cmd of
             Inl err \<Rightarrow> raise err
           | Inr d \<Rightarrow> if d_blocked d then return d
                      else return (irreversible_decision depth e here cmd (map_of obj ''cwd''))))"
  using assms by (simp add: shell_payload_def evaluate_payload_def)


text \<open>
  The two guards fail in opposite directions: for a shell payload the hook denies exactly
  when the publication guard raises or blocks, or the irreversible guard blocks; an error
  of the irreversible guard lets the call through.
\<close>

theorem guard_error_directions:
  assumes "shell_payload obj tool_input cmd" and "strip cmd \<noteq> []"
  shows "denies (fst (publication_hook_main depth e here (Some (JObj obj)))) \<longleftrightarrow>
    (case evaluate_publication_command depth cmd of
       Inl _ \<Rightarrow> True
     | Inr d \<Rightarrow> d_blocked d \<or>
         (case evaluate_irreversible_command depth e here cmd
                 (case map_of obj ''cwd'' of Some (JStr s) \<Rightarrow> truthy (Some s) | _ \<Rightarrow> None) of
            Inl _ \<Rightarrow> False
          | Inr d' \<Rightarrow> d_blocked d'))"
  using assms(2)
  by (simp add: publication_hook_main_def evaluate_shell_payload [OF assms(1)] denies_emit
      irreversible_decision_def publication_error_def blocked_def split: sum.splits)

theorem guard_error_directions_witness:
  "\<not> denies (fst (publication_hook_main 9 sample_env None (Some (JObj [(''tool_input'', JObj [(''cmd'', JStr ''ls'')])]))))"
proof -
  let ?obj = "[(''tool_input'', JObj [(''cmd'', JStr ''ls'')])]"
  have p: "shell_payload ?obj [(''cmd'', JStr ''ls'')] ''ls''" by code_simp
  have s: "strip ''ls'' \<noteq> []" by code_simp
  have pub_ok: "evaluate_publication_command 9 ''ls'' = Inr (allow [])" by code_simp
  have irr_err: "evaluate_irreversible_command 9 sample_env None ''ls'' None = Inl OSError" by code_simp
  show ?thesis unfolding guard_error_directions [OF p s] by (simp add: pub_ok irr_err)
qed

text \<open>
  Given more frames than the command has characters, the hook denies every shell payload
  whose command reaches a publication, and an argv-list payload is judged as its quoted join.
\<close>

theorem hook_denies_publication:
  assumes "shell_payload obj tool_input cmd" and "reaches_publication cmd" and "length cmd < depth"
  shows "denies (fst (publication_hook_main depth e here (Some (JObj obj))))"
proof -
  obtain d where d: "evaluate_publication_command depth cmd = Inr d"
    using pub.enough_depth [OF assms(3)] by blast
  have "d_blocked d" using reaches_publication_blocked [OF assms(2) d] .
  with d show ?thesis
    by (simp add: publication_hook_main_def evaluate_shell_payload [OF assms(1)] denies_emit
        publication_error_def blocked_def)
qed

theorem hook_denies_publication_witness:
  "denies (fst (publication_hook_main 60 sample_env None (Some (JObj
     [(''tool_name'', JStr ''Bash''),
      (''tool_input'', JObj [(''command'', JList [JStr ''git'', JStr ''-C'', JStr ''a b'', JStr ''push''])])]))))"
proof (rule hook_denies_publication)
  let ?c = "''git -C '' @ [SQ] @ ''a b'' @ [SQ] @ '' push''"
  show "shell_payload [(''tool_name'', JStr ''Bash''),
      (''tool_input'', JObj [(''command'', JList [JStr ''git'', JStr ''-C'', JStr ''a b'', JStr ''push''])])]
      [(''command'', JList [JStr ''git'', JStr ''-C'', JStr ''a b'', JStr ''push''])] ?c"
    by code_simp
  have s1: "split_heredocs ?c = (?c, [], [])" by code_simp
  have s2: "segments ?c = [[''git'', ''-C'', ''a b'', ''push'']]" by code_simp
  have s3: "unwrap [''git'', ''-C'', ''a b'', ''push''] = [''git'', ''-C'', ''a b'', ''push'']" by code_simp
  have s4: "lead_name ''git'' \<notin> set READ_ONLY" by code_simp
  have s5: "publishes (lead_name ''git'') [''git'', ''-C'', ''a b'', ''push'']" by code_simp
  show "reaches_publication ?c"
    by (rule reaches_publication.segment [OF s1 _ s3 s4 s5]) (unfold s2, simp)
qed simp

end
