(* ===== verification/PathOwnership.thy ===== *)
theory PathOwnership
  imports Json
begin

text \<open>
  Who owns a path: the scopes live sessions declare (\<open>backend/app/services/_scope_paths.py\<close>,
  \<open>_lane_scope.py\<close>) and the guard that refuses to delete or rename away a path of another live
  session in the same checkout (\<open>destructive_path_guard.py\<close> and its helpers).

  A session is the decoded JSON object the inventory service returns. The file system, git, the
  inventory service and the table of task spirits are the record \<open>surroundings\<close>. A
  \<open>frozenset\<close> is a set; paths are compared as the strings \<open>pathlib\<close> makes of them. \<open>Path.resolve\<close>
  of a repository root does not fail.
\<close>

section \<open>Scope paths\<close>

fun strip_dot_slash :: "string \<Rightarrow> string" where
  "strip_dot_slash (c # d # s) = (if c = CHR ''.'' \<and> d = CHR ''/'' then strip_dot_slash s else c # d # s)"
| "strip_dot_slash s = s"

definition normalize_single_scope_path :: "json \<Rightarrow> string option" where
  "normalize_single_scope_path raw =
     (case raw of
        JStr s \<Rightarrow>
          (let path = strip_dot_slash (strip s) in
           if path = [] \<or> startswith path ''/'' then None
           else if BSL \<in> set path \<or> contains path ''//'' \<or> endswith path ''/'' then None
           else if list_ex (\<lambda>part. part \<in> {[], ''.'', ''..''}) (split_on CHR ''/'' path) then None
           else let normalized = pure_path path
                in if normalized \<noteq> ''.'' \<and> \<not> endswith normalized ''/'' then Some normalized else None)
      | _ \<Rightarrow> None)"

definition normalize_scope_values :: "json \<Rightarrow> string set" where
  "normalize_scope_values values =
     (case values of JList js \<Rightarrow> set (List.map_filter normalize_single_scope_path js) | _ \<Rightarrow> {})"

section \<open>Live scopes\<close>

type_synonym session = dict

record surroundings =
  su_resolve :: "string \<Rightarrow> string option"
  su_index_project :: "string \<Rightarrow> string option"
  su_staged :: "string \<Rightarrow> (string, string) sum"
  su_inventory :: "string \<Rightarrow> (string, session list) sum"
  su_spirit :: "string \<Rightarrow> dict option"
  su_environ :: "(string \<times> string) list"

record lane_scope =
  ls_task :: string
  ls_write :: "string set"
  ls_read :: "string set"

definition UNKNOWN_TASK :: string where "UNKNOWN_TASK = ''unknown task''"

text \<open>\<open>load_task_scope\<close>: the files the task's spirit says it modifies or creates.\<close>

definition scope_field :: "dict \<Rightarrow> string \<Rightarrow> string set" where
  "scope_field ctx f = normalize_scope_values (get ctx f)"

definition load_task_scope :: "surroundings \<Rightarrow> string \<Rightarrow> string set option" where
  "load_task_scope su task_id =
     (case su_spirit su task_id of
        None \<Rightarrow> None
      | Some spirit \<Rightarrow>
          if spirit = [] then None
          else (case get spirit ''context'' of
                  JObj ctx \<Rightarrow>
                    (let saw = list_ex (\<lambda>f. get ctx f \<noteq> JNull) [''files_to_modify'', ''files_to_create''];
                         merged = scope_field ctx ''files_to_modify'' \<union> scope_field ctx ''files_to_create''
                     in if \<not> saw \<or> merged = {} then None else Some merged)
                | _ \<Rightarrow> None))"

definition load_live_lane_scope :: "surroundings \<Rightarrow> session \<Rightarrow> string option \<Rightarrow> lane_scope option" where
  "load_live_lane_scope su session task_id =
     (let declared = scope_field session ''declared_scope_paths'';
          write_paths = declared \<union> scope_field session ''observed_write_paths'';
          read_paths = scope_field session ''observed_read_paths'';
          scope_paths = scope_field session ''scope_paths'';
          conf = get session ''scope_confidence'';
          confidence = (if truth conf then json_str conf else ''unknown'');
          read_only = (confidence = ''observed_read'' \<and> write_paths = {});
          read' = (if scope_paths \<noteq> {} \<and> read_only then read_paths \<union> scope_paths else read_paths);
          write' = (if scope_paths \<noteq> {} \<and> \<not> read_only \<and> write_paths = {} then write_paths \<union> scope_paths else write_paths)
      in if write' = {} \<and> read' = {}
         then (case task_id of
                 None \<Rightarrow> None
               | Some t \<Rightarrow>
                   if t = [] then None
                   else (case load_task_scope su t of
                           None \<Rightarrow> None
                         | Some paths \<Rightarrow> Some \<lparr>ls_task = t, ls_write = paths, ls_read = {}\<rparr>))
         else Some \<lparr>ls_task = (case task_id of Some t \<Rightarrow> if t = [] then UNKNOWN_TASK else t | None \<Rightarrow> UNKNOWN_TASK),
                    ls_write = write', ls_read = read'\<rparr>)"

text \<open>\<open>classify_lane_scopes\<close> and \<open>find_scope_overlap\<close>, the preflight of a task session.\<close>

definition classify_lane_scopes ::
  "surroundings \<Rightarrow> (session \<Rightarrow> string option) \<Rightarrow> session list \<Rightarrow> (string \<times> lane_scope) list \<times> string list" where
  "classify_lane_scopes su lane_task_id sessions =
     (let lane = (\<lambda>s. case lane_task_id s of Some t \<Rightarrow> if t = [] then None else Some t | None \<Rightarrow> None);
          scope = (\<lambda>s. case lane s of Some t \<Rightarrow> load_live_lane_scope su s (Some t) | None \<Rightarrow> None);
          name = (\<lambda>s. case lane s of Some t \<Rightarrow> t | None \<Rightarrow> UNKNOWN_TASK)
      in (List.map_filter (\<lambda>s. map_option (\<lambda>sc. (name s, sc)) (scope s)) sessions,
          map name (filter (\<lambda>s. scope s = None) sessions)))"

definition SHARED_PLUMBING_PREFIXES :: "string list" where
  "SHARED_PLUMBING_PREFIXES =
     [''backend/app/adapters/'', ''backend/app/api/complete/'', ''backend/app/services/tools/'']"

definition shared_plumbing :: "string set \<Rightarrow> string set" where
  "shared_plumbing ps = Set.filter (\<lambda>p. has_prefix_of SHARED_PLUMBING_PREFIXES p) ps"

datatype overlap = Exact string "string list" | Plumbing string "string list"

fun find_scope_overlap :: "string set \<Rightarrow> (string \<times> lane_scope) list \<Rightarrow> overlap option" where
  "find_scope_overlap target [] = None"
| "find_scope_overlap target ((lane_id, scope) # scoped) =
     (if target \<inter> ls_write scope \<noteq> {} then Some (Exact lane_id (sorted_list_of_set (target \<inter> ls_write scope)))
      else if shared_plumbing target \<noteq> {} \<and> shared_plumbing (ls_write scope) \<noteq> {}
      then Some (Plumbing lane_id (sorted_list_of_set (shared_plumbing target \<union> shared_plumbing (ls_write scope))))
      else find_scope_overlap target scoped)"

section \<open>Sessions of a checkout\<close>

definition ENV_SESSION_ID_KEYS :: "string list" where
  "ENV_SESSION_ID_KEYS =
     [''ST_SESSION_ID'', ''AGENT_HUB_SESSION_ID'', ''CODEX_THREAD_ID'', ''CLAUDE_SESSION_ID'', ''CLAUDE_CODE_SESSION_ID'']"

definition set_value :: "string option \<Rightarrow> string option" where
  "set_value v = (case v of Some [] \<Rightarrow> None | _ \<Rightarrow> v)"

definition resolve_current_session_id :: "surroundings \<Rightarrow> string option \<Rightarrow> string option" where
  "resolve_current_session_id su explicit =
     (case set_value explicit of
        Some s \<Rightarrow> Some s
      | None \<Rightarrow> first_some (\<lambda>k. set_value (map_of (su_environ su) k)) ENV_SESSION_ID_KEYS)"

definition task_field :: "session \<Rightarrow> string \<Rightarrow> string option" where
  "task_field session f =
     (case get session f of JStr s \<Rightarrow> if startswith s ''task-'' then Some s else None | _ \<Rightarrow> None)"

definition derive_task_id :: "session \<Rightarrow> string option" where
  "derive_task_id session =
     (case first_some (task_field session) [''task_id'', ''external_id''] of
        Some t \<Rightarrow> Some t
      | None \<Rightarrow>
          (case get session ''current_branch'' of
             JStr branch \<Rightarrow>
               (let lead = before_first CHR ''/'' branch
                in if branch \<noteq> [] \<and> startswith lead ''task-'' then Some lead else None)
           | _ \<Rightarrow> None))"

definition resolved_or_same :: "surroundings \<Rightarrow> string \<Rightarrow> string" where
  "resolved_or_same su p = (case su_resolve su p of Some r \<Rightarrow> r | None \<Rightarrow> pure_path p)"

definition session_checkout_root :: "surroundings \<Rightarrow> session \<Rightarrow> string option" where
  "session_checkout_root su session =
     first_some (\<lambda>k. case get session k of
         JStr p \<Rightarrow> if p = [] then None else Some (resolved_or_same su p)
       | _ \<Rightarrow> None) [''working_dir'', ''checkout_path'', ''repo_root'']"

text \<open>The parts of an absolute path; the first is the root itself.\<close>

definition path_parts :: "string \<Rightarrow> string list" where
  "path_parts p = (if startswith p ''/'' then [''/''] else []) @ filter (\<lambda>c. c \<noteq> [] \<and> c \<noteq> ''.'') (split_on CHR ''/'' p)"

definition resolve_project_id :: "surroundings \<Rightarrow> string \<Rightarrow> string option" where
  "resolve_project_id su repo_root =
     (case su_index_project su repo_root of
        Some p \<Rightarrow> Some p
      | None \<Rightarrow>
          (let parts = rev (path_parts repo_root) in
           if length parts \<ge> 2 \<and> parts ! 1 = ''projects'' then Some (path_name repo_root)
           else if length parts \<ge> 3 \<and> parts ! 2 = ''lanes'' then Some (parts ! 1)
           else None))"

definition get_session_field_str :: "session \<Rightarrow> string \<Rightarrow> string option" where
  "get_session_field_str session key =
     (if truth (get session key) then set_value (Some (json_str (get session key))) else None)"

definition same_checkout_sessions :: "surroundings \<Rightarrow> session list \<Rightarrow> string \<Rightarrow> session list" where
  "same_checkout_sessions su sessions root = filter (\<lambda>s. session_checkout_root su s = Some root) sessions"

definition infer_self_session_ids :: "string option \<Rightarrow> string set" where
  "infer_self_session_ids current = (case set_value current of Some s \<Rightarrow> {s} | None \<Rightarrow> {})"

section \<open>The destructive path guard\<close>

datatype reason = UnknownScope | ScopeOverlap

record guard_conflict =
  gc_session :: string
  gc_task :: "string option"
  gc_branch :: "string option"
  gc_dir :: "string option"
  gc_reason :: reason
  gc_paths :: "string list"

record guard_decision =
  gd_blocked :: bool
  gd_project :: "string option"
  gd_root :: string
  gd_session :: "string option"
  gd_paths :: "string list"
  gd_conflicts :: "guard_conflict list"

text \<open>Old paths of deletions and renames in \<open>git diff --name-status -z\<close>, split at the NUL bytes.\<close>

fun diff_entries :: "string list \<Rightarrow> string list" where
  "diff_entries [] = []"
| "diff_entries [st] = []"
| "diff_entries (st # p # rest) =
     (if st = [] then []
      else if take 1 st = ''D'' then (if p = [] then [] else [p]) @ diff_entries rest
      else if take 1 st = ''R'' then (if p = [] then [] else [p]) @ diff_entries (tl rest)
      else diff_entries rest)"

definition parse_null_separated_diff_output :: "string \<Rightarrow> string list" where
  "parse_null_separated_diff_output raw = diff_entries (split_on (char_of (0::nat)) raw)"

definition scope_paths_of :: "string list \<Rightarrow> string list" where
  "scope_paths_of ps = sorted_list_of_set (normalize_scope_values (JList (map JStr ps)))"

definition staged_destructive_paths :: "surroundings \<Rightarrow> string \<Rightarrow> (string, string list) result" where
  "staged_destructive_paths su repo_root =
     (case su_staged su repo_root of
        Inl err \<Rightarrow> raise (''Failed to inspect staged destructive paths in '' @ repo_root @ '': '' @ err)
      | Inr out \<Rightarrow> return (if out = [] then [] else scope_paths_of (parse_null_separated_diff_output out)))"

definition build_session_conflict ::
  "surroundings \<Rightarrow> session \<Rightarrow> string \<Rightarrow> string option \<Rightarrow> string set \<Rightarrow> guard_conflict option" where
  "build_session_conflict su session session_id task_id target =
     (let conflict = (\<lambda>why paths. \<lparr>gc_session = session_id, gc_task = task_id,
            gc_branch = get_session_field_str session ''current_branch'',
            gc_dir = get_session_field_str session ''working_dir'', gc_reason = why, gc_paths = sorted_list_of_set paths\<rparr>)
      in case load_live_lane_scope su session task_id of
           None \<Rightarrow> Some (conflict UnknownScope target)
         | Some scope \<Rightarrow>
             if target \<inter> ls_write scope = {} then None
             else Some (conflict ScopeOverlap (target \<inter> ls_write scope)))"

definition session_conflict :: "surroundings \<Rightarrow> string set \<Rightarrow> string set \<Rightarrow> session \<Rightarrow> guard_conflict option" where
  "session_conflict su self target session =
     (case get session ''id'' of
        JStr i \<Rightarrow> if i = [] \<or> i \<in> self then None else build_session_conflict su session i (derive_task_id session) target
      | _ \<Rightarrow> None)"

definition evaluate_destructive_paths ::
  "surroundings \<Rightarrow> string \<Rightarrow> string list \<Rightarrow> session list \<Rightarrow> string option \<Rightarrow> string option \<Rightarrow> guard_decision" where
  "evaluate_destructive_paths su repo_root destructive_paths owner_sessions project_id current_session_id =
     (let root = resolved_or_same su repo_root;
          normalized = scope_paths_of destructive_paths;
          current = resolve_current_session_id su current_session_id;
          decision = (\<lambda>paths conflicts. \<lparr>gd_blocked = conflicts \<noteq> [], gd_project = project_id, gd_root = root,
            gd_session = current, gd_paths = paths, gd_conflicts = conflicts\<rparr>)
      in if normalized = [] then decision [] []
         else let shared = same_checkout_sessions su owner_sessions root
              in if shared = [] then decision normalized []
                 else decision normalized
                   (List.map_filter (session_conflict su (infer_self_session_ids current) (set normalized)) shared))"

text \<open>An inventory that cannot be read raises \<open>DestructivePathGuardError\<close>, here its message.\<close>

definition check_destructive_paths ::
  "surroundings \<Rightarrow> string \<Rightarrow> string list \<Rightarrow> string option \<Rightarrow> string option \<Rightarrow> (string, guard_decision) result" where
  "check_destructive_paths su repo_root0 destructive_paths project_id current_session_id =
     (let repo_root = resolved_or_same su repo_root0;
          project = or_else (set_value project_id) (resolve_project_id su repo_root);
          current = resolve_current_session_id su current_session_id;
          normalized = scope_paths_of destructive_paths
      in case set_value project of
           None \<Rightarrow> return \<lparr>gd_blocked = False, gd_project = project, gd_root = repo_root, gd_session = current,
                            gd_paths = normalized, gd_conflicts = []\<rparr>
         | Some p \<Rightarrow>
             if normalized = []
             then return \<lparr>gd_blocked = False, gd_project = project, gd_root = repo_root, gd_session = current,
                          gd_paths = normalized, gd_conflicts = []\<rparr>
             else (case su_inventory su p of
                     Inl err \<Rightarrow> raise (''Failed to verify live ownership for project '' @ p @ '': '' @ err)
                   | Inr sessions \<Rightarrow>
                       return (evaluate_destructive_paths su repo_root normalized sessions project current)))"

definition or_dash :: "string option \<Rightarrow> string" where
  "or_dash s = (case set_value s of Some t \<Rightarrow> t | None \<Rightarrow> ''-'')"

definition conflict_line :: "guard_conflict \<Rightarrow> string" where
  "conflict_line c =
     join_with '' | ''
       [if gc_reason c = UnknownScope then ''AMBIG'' else ''OWNED'', take 8 (gc_session c), or_dash (gc_task c), or_dash (gc_branch c),
        if gc_reason c = UnknownScope then ''scope=unknown'' else ''paths='' @ join_with '','' (gc_paths c)]"

definition format_guard_report :: "guard_decision \<Rightarrow> string" where
  "format_guard_report d =
     join_with [NL]
       ([''Refusing destructive path action: another live session shares this checkout.'', ''repo: '' @ gd_root d]
        @ (case set_value (gd_project d) of Some p \<Rightarrow> [''project: '' @ p] | None \<Rightarrow> [])
        @ (case set_value (gd_session d) of Some s \<Rightarrow> [''current_session: '' @ take 8 s] | None \<Rightarrow> [])
        @ [''targets: '' @ join_with '', '' (gd_paths d)]
        @ map conflict_line (gd_conflicts d))"

section \<open>Facts\<close>

text \<open>Another session of the checkout that works on one of the paths, or whose paths nobody knows.\<close>

definition claims_paths :: "surroundings \<Rightarrow> string set \<Rightarrow> session \<Rightarrow> bool" where
  "claims_paths su ps s \<longleftrightarrow>
     (case load_live_lane_scope su s (derive_task_id s) of None \<Rightarrow> ps \<noteq> {} | Some scope \<Rightarrow> ps \<inter> ls_write scope \<noteq> {})"

definition other_session :: "surroundings \<Rightarrow> string option \<Rightarrow> session \<Rightarrow> bool" where
  "other_session su current s \<longleftrightarrow> (\<exists>i. get s ''id'' = JStr i \<and> i \<noteq> [] \<and> resolve_current_session_id su current \<noteq> Some i)"

lemma finite_scope: "finite (normalize_scope_values j)"
  by (simp add: normalize_scope_values_def split: json.splits)

lemma set_scope_paths [simp]: "set (scope_paths_of ps) = normalize_scope_values (JList (map JStr ps))"
  by (simp add: scope_paths_of_def finite_scope)

lemma self_ids_iff: "i \<noteq> [] \<Longrightarrow> i \<in> infer_self_session_ids c \<longleftrightarrow> c = Some i"
  by (auto simp: infer_self_session_ids_def set_value_def split: option.splits list.splits)

lemma session_conflict_iff:
  assumes "ps \<noteq> {}" "c = resolve_current_session_id su current"
  shows "session_conflict su (infer_self_session_ids c) ps s \<noteq> None \<longleftrightarrow> other_session su current s \<and> claims_paths su ps s"
proof (cases "get s ''id''")
  case (JStr i)
  have "build_session_conflict su s i t ps \<noteq> None \<longleftrightarrow>
      (case load_live_lane_scope su s t of None \<Rightarrow> ps \<noteq> {} | Some scope \<Rightarrow> ps \<inter> ls_write scope \<noteq> {})" for t
    using assms(1) by (simp add: build_session_conflict_def Let_def split: option.splits)
  then show ?thesis
    using JStr self_ids_iff [of i c] assms(2)
    by (auto simp: session_conflict_def other_session_def claims_paths_def)
qed (auto simp: session_conflict_def other_session_def)

lemma map_filter_Nil: "List.map_filter f xs = [] \<longleftrightarrow> (\<forall>x\<in>set xs. f x = None)"
  by (induction xs) (auto simp: List.map_filter_def split: option.splits)

lemma evaluate_blocked_iff:
  "gd_blocked (evaluate_destructive_paths su root paths sessions project current) \<longleftrightarrow>
     normalize_scope_values (JList (map JStr paths)) \<noteq> {} \<and>
     (\<exists>s\<in>set sessions. session_checkout_root su s = Some (resolved_or_same su root) \<and> other_session su current s
        \<and> claims_paths su (normalize_scope_values (JList (map JStr paths))) s)"
  (is "?l \<longleftrightarrow> ?P \<noteq> {} \<and> ?r")
proof (cases "scope_paths_of paths = []")
  case True
  then have "?P = {}" by (metis set_scope_paths set_empty)
  with True show ?thesis by (simp add: evaluate_destructive_paths_def Let_def)
next
  case False
  then have ne: "?P \<noteq> {}" by (metis set_scope_paths set_empty)
  let ?f = "session_conflict su (infer_self_session_ids (resolve_current_session_id su current)) ?P"
  let ?shared = "same_checkout_sessions su sessions (resolved_or_same su root)"
  have "?l \<longleftrightarrow> \<not> (\<forall>s\<in>set ?shared. ?f s = None)"
    using False by (auto simp: evaluate_destructive_paths_def Let_def map_filter_Nil)
  also have "\<dots> \<longleftrightarrow> ?r"
    using session_conflict_iff [OF ne refl, of su current] by (auto simp: same_checkout_sessions_def)
  finally show ?thesis using ne by simp
qed

lemma resolve_again: "resolve_current_session_id su (resolve_current_session_id su c) = resolve_current_session_id su c"
proof (cases "resolve_current_session_id su c")
  case None
  then show ?thesis by (auto simp: resolve_current_session_id_def set_value_def split: option.splits list.splits)
next
  case (Some i)
  have "set_value v = Some i \<Longrightarrow> i \<noteq> []" for v by (auto simp: set_value_def split: option.splits list.splits)
  with Some have "i \<noteq> []"
    by (auto simp: resolve_current_session_id_def split: option.splits dest!: first_some_SomeD)
  with Some show ?thesis by (auto simp: resolve_current_session_id_def set_value_def split: option.splits list.splits)
qed

end
