(* ===== verification/CommandGuard.thy ===== *)
theory CommandGuard
  imports PublicationFacts PathOwnership
begin

text \<open>
  The interactive command guard (\<open>backend/app/services/command_guard.py\<close> and the repository
  helpers of \<open>_command_guard_helpers.py\<close>): redirects to shared wrappers, display servers,
  git in managed repositories, ownership of the paths a git command destroys, tasks an agent may
  close, and the irreversible and publication policies, judged segment by segment and inside
  nested shells.

  Git, the file system, the list of managed repositories, the tool registry and the Agent Hub are
  the record \<open>guard_env\<close>. The evaluators take the depth of Python frames still available, as
  the publication guard does.
\<close>

record registry =
  wrapper_patterns :: "rx list"
  tool_patterns :: "(rx \<times> string option \<times> string option) list"
  docker_patterns :: "(rx \<times> string option \<times> string option) list"
  service_patterns :: "(rx \<times> string option \<times> string option) list"

record guard_env =
  ge_user :: user_env
  ge_resolve :: "string \<Rightarrow> string"
  ge_exists :: "string \<Rightarrow> bool"
  ge_inside :: "string \<Rightarrow> bool"
  ge_toplevel :: "string \<Rightarrow> string option"
  ge_managed :: "string list option"
  ge_shown :: "string \<Rightarrow> string list \<Rightarrow> (string, string) sum"
  ge_registry :: "(string, registry) sum"
  ge_hub :: "string \<Rightarrow> json option"
  ge_around :: surroundings

text \<open>\<open>HomeUnknown\<close> is the \<open>RuntimeError\<close> of \<open>Path.expanduser\<close>.\<close>

datatype cg_error = CommandGuardError string | HomeUnknown | Fault guard_error

type_synonym verdict = "(cg_error, decision option) result"

section \<open>Repositories and paths\<close>

definition path_expanduser :: "user_env \<Rightarrow> string \<Rightarrow> (cg_error, string) result" where
  "path_expanduser e p =
     (let q = pure_path p; r = expanduser e q
      in if startswith q ''~'' \<and> startswith r ''~'' then raise HomeUnknown else return (pure_path r))"

text \<open>A path argument, relative ones below a directory and resolved.\<close>

definition located :: "guard_env \<Rightarrow> string \<Rightarrow> string \<Rightarrow> (cg_error, string) result" where
  "located g dir token =
     (case path_expanduser (ge_user g) token of
        Inl e \<Rightarrow> raise e
      | Inr target \<Rightarrow> return (if startswith target ''/'' then target else ge_resolve g (path_join dir target)))"

definition repo_root :: "guard_env \<Rightarrow> string \<Rightarrow> string option" where
  "repo_root g cwd =
     (case ge_toplevel g cwd of
        None \<Rightarrow> None
      | Some out \<Rightarrow> (let root = strip out in if root = [] then None else Some (ge_resolve g root)))"

definition is_managed_repo_root :: "guard_env \<Rightarrow> string option \<Rightarrow> bool" where
  "is_managed_repo_root g root =
     (case root of
        None \<Rightarrow> False
      | Some r \<Rightarrow> (case ge_managed g of None \<Rightarrow> True | Some repos \<Rightarrow> ge_resolve g r \<in> set repos))"

definition relative_to :: "string \<Rightarrow> string \<Rightarrow> string option" where
  "relative_to p root =
     (let ps = path_parts p; rs = path_parts root
      in if take (length rs) ps = rs
         then Some (if length ps = length rs then ''.'' else join_with ''/'' (drop (length rs) ps)) else None)"

fun normalize_repo_paths :: "guard_env \<Rightarrow> string \<Rightarrow> string list \<Rightarrow> (cg_error, string list) result" where
  "normalize_repo_paths g root [] = return []"
| "normalize_repo_paths g root (raw # raws) =
     (let path = strip raw in
      if path = [] then normalize_repo_paths g root raws
      else case path_expanduser (ge_user g) path of
             Inl e \<Rightarrow> raise e
           | Inr target \<Rightarrow>
               (case normalize_repo_paths g root raws of
                  Inl e \<Rightarrow> raise e
                | Inr rest \<Rightarrow>
                    if \<not> startswith target ''/'' then return (path # rest)
                    else return (case relative_to (ge_resolve g target) root of Some r \<Rightarrow> r # rest | None \<Rightarrow> rest)))"

text \<open>Whether \<open>rm\<close>, \<open>rmdir\<close> or \<open>find\<close> name a target inside a git repository.\<close>

fun find_in_repo :: "guard_env \<Rightarrow> string \<Rightarrow> string list \<Rightarrow> (cg_error, bool) result" where
  "find_in_repo g cwd [] = return False"
| "find_in_repo g cwd (t # ts) =
     (if t = ''-delete'' then return False
      else if startswith t ''-'' then find_in_repo g cwd ts
      else case located g cwd t of
             Inl e \<Rightarrow> raise e
           | Inr target \<Rightarrow> if ge_inside g target then return True else find_in_repo g cwd ts)"

definition explicit_repo_target :: "guard_env \<Rightarrow> string list \<Rightarrow> string \<Rightarrow> (cg_error, bool) result" where
  "explicit_repo_target g tokens cwd =
     (case tokens of
        [] \<Rightarrow> return False
      | command # args \<Rightarrow>
          if command \<in> set [''rm'', ''rmdir''] then
            (case List.find (\<lambda>t. \<not> startswith t ''-'') args of
               None \<Rightarrow> return False
             | Some t \<Rightarrow>
                 if t = [] then return False
                 else (case located g cwd t of
                         Inl e \<Rightarrow> raise e
                       | Inr target \<Rightarrow> return (ge_inside g (if ge_exists g target then target else pure_path (dirname target)))))
          else if command = ''find'' then find_in_repo g cwd args
          else return False)"

section \<open>Ownership\<close>

definition check_path_conflicts :: "guard_env \<Rightarrow> string \<Rightarrow> string list \<Rightarrow> string \<Rightarrow> verdict" where
  "check_path_conflicts g root raw_paths command =
     (case normalize_repo_paths g root raw_paths of
        Inl e \<Rightarrow> raise e
      | Inr paths \<Rightarrow>
          if paths = [] then return None
          else (case check_destructive_paths (ge_around g) root paths None None of
                  Inl msg \<Rightarrow> return (Some (deny ''ownership_error'' msg ''ownership'' command))
                | Inr d \<Rightarrow>
                    return (if gd_blocked d
                            then Some (deny ''ownership_conflict'' (format_guard_report d) ''ownership'' command)
                            else None)))"

text \<open>\<open>_make_path_conflict_fn\<close>: without a repository nothing is checked.\<close>

definition path_conflict_fn :: "guard_env \<Rightarrow> string option \<Rightarrow> string list \<Rightarrow> string \<Rightarrow> verdict" where
  "path_conflict_fn g root paths command =
     (case root of None \<Rightarrow> return None | Some r \<Rightarrow> check_path_conflicts g r paths command)"

definition staged_destructive_decision :: "guard_env \<Rightarrow> string \<Rightarrow> decision" where
  "staged_destructive_decision g repo_root0 =
     (let target = ge_resolve g repo_root0 in
      case staged_destructive_paths (ge_around g) target of
        Inl msg \<Rightarrow> deny ''ownership_error'' msg ''ownership'' target
      | Inr paths \<Rightarrow>
          if paths = [] then allow target
          else (case check_destructive_paths (ge_around g) target paths None None of
                  Inl msg \<Rightarrow> deny ''ownership_error'' msg ''ownership'' target
                | Inr d \<Rightarrow>
                    if gd_blocked d then deny ''ownership_conflict'' (format_guard_report d) ''ownership'' target
                    else allow target))"

section \<open>Redirects\<close>

definition redirect :: "string option \<Rightarrow> string option \<Rightarrow> string \<Rightarrow> decision" where
  "redirect message component segment_text =
     (let m = strip (str_or message []) in
      deny ''redirect'' (if m = [] then ''Use the canonical shared wrapper.'' else m) (str_or component ''registry'') segment_text)"

fun service_redirect ::
  "guard_env \<Rightarrow> string list \<Rightarrow> string list \<Rightarrow> string \<Rightarrow> string \<Rightarrow> (rx \<times> string option \<times> string option) list \<Rightarrow> verdict" where
  "service_redirect g segment unwrapped match_text cwd [] = return None"
| "service_redirect g segment unwrapped match_text cwd ((pattern, message, component) # ps) =
     (if \<not> rx_search pattern match_text then service_redirect g segment unwrapped match_text cwd ps
      else let tokens = (if unwrapped \<noteq> [] then unwrapped else segment);
               first = (case tokens of t # _ \<Rightarrow> t | [] \<Rightarrow> []);
               hit = return (Some (redirect message component (normalize_segment segment)))
           in if first \<in> set [''rm'', ''rmdir'', ''find''] \<and> \<not> ge_inside g cwd
              then (case explicit_repo_target g tokens cwd of
                      Inl e \<Rightarrow> raise e
                    | Inr True \<Rightarrow> hit
                    | Inr False \<Rightarrow> service_redirect g segment unwrapped match_text cwd ps)
              else hit)"

definition registry_redirect_decision :: "guard_env \<Rightarrow> string list \<Rightarrow> string \<Rightarrow> verdict" where
  "registry_redirect_decision g segment cwd =
     (let segment_text = normalize_segment segment; unwrapped = unwrap_segment segment;
          match_text = normalize_segment (if unwrapped \<noteq> [] then unwrapped else segment)
      in if segment_text = [] then return None
         else case ge_registry g of
                Inl msg \<Rightarrow> raise (CommandGuardError msg)
              | Inr reg \<Rightarrow>
                  if list_ex (\<lambda>p. rx_search p match_text) (wrapper_patterns reg) then return None
                  else (case List.find (\<lambda>(p, _, _). rx_search p match_text) (tool_patterns reg @ docker_patterns reg) of
                          Some (_, message, component) \<Rightarrow> return (Some (redirect message component segment_text))
                        | None \<Rightarrow> service_redirect g segment unwrapped match_text cwd (service_patterns reg)))"

section \<open>Dangerous commands\<close>

definition REAL_X_SERVER_LAUNCHERS :: "string list" where
  "REAL_X_SERVER_LAUNCHERS = [''x'', ''xinit'', ''xorg'', ''xorg.bin'', ''xorg.wrap'', ''startx'']"

definition xorg_blocked :: "string \<Rightarrow> decision" where
  "xorg_blocked command =
     deny ''dangerous'' ''BLOCKED:Xorg:Direct Xorg server launches are forbidden on operator hosts. Use unprivileged Xvfb for software rendering or an isolated Proxmox VM for GPU, compositor, driver, fullscreen, or performance testing.'' ''dangerous'' command"

definition xvfb_blocked :: "string \<Rightarrow> decision" where
  "xvfb_blocked command =
     deny ''dangerous'' ''BLOCKED:privileged Xvfb:Do not run Xvfb or xvfb-run through sudo/root. Use an unprivileged Xvfb display for software-rendering tests.'' ''dangerous'' command"

text \<open>A loop that leaves at the first answer or the first raise.\<close>

fun first_verdict :: "verdict list \<Rightarrow> verdict" where
  "first_verdict [] = return None"
| "first_verdict (v # vs) =
     (case v of Inl e \<Rightarrow> raise e | Inr (Some d) \<Rightarrow> return (Some d) | Inr None \<Rightarrow> first_verdict vs)"

fun display_server_decision :: "nat \<Rightarrow> bool \<Rightarrow> string option \<Rightarrow> string list \<Rightarrow> verdict" where
  "display_server_decision 0 inherited outer segment = raise (Fault RecursionError)"
| "display_server_decision (Suc depth) inherited outer segment =
     (case unwrap_segment_with_privilege segment of
        (unwrapped, sudo) \<Rightarrow>
          (let privileged = (inherited \<or> sudo);
               command = str_or outer (normalize_segment segment);
               executable = (case unwrapped of t # _ \<Rightarrow> lead_name t | [] \<Rightarrow> [])
           in if executable \<in> set REAL_X_SERVER_LAUNCHERS then return (Some (xorg_blocked command))
              else if privileged \<and> executable \<in> set [''xvfb'', ''xvfb-run''] then return (Some (xvfb_blocked command))
              else if executable \<in> set SHELL_EXECUTABLES then
                (case truthy (shell_exec_args (tl unwrapped)) of
                   None \<Rightarrow> return None
                 | Some nested \<Rightarrow>
                     first_verdict (map (display_server_decision depth privileged (Some command)) (split_shell_segments nested)))
              else return None))"

definition DANGEROUS_PATTERNS :: "(rx \<times> string) list" where
  "DANGEROUS_PATTERNS =
     [(seqs [Bol, lit ''rm'', plus rx_space, lit ''-'', Star (not_chars [NL]), lit ''r'', Star (not_chars [NL]), plus rx_space,
             alts [seqs [lit ''/'', opt (lit ''*'')], lit [BSL, CHR ''*'']], alts [Eol, rx_space]],
       ''BLOCKED:rm -r /:Recursive root deletion is never allowed.''),
      (seqs [Bol, lit ''systemctl'', plus rx_space, alts [lit ''stop'', lit ''disable''], WordB],
       ''BLOCKED:systemctl stop/disable:Do not stop or disable services directly.'')]"

definition dangerous_decision :: "nat \<Rightarrow> string list \<Rightarrow> verdict" where
  "dangerous_decision depth segment =
     (case display_server_decision depth False None segment of
        Inl e \<Rightarrow> raise e
      | Inr (Some d) \<Rightarrow> return (Some d)
      | Inr None \<Rightarrow>
          (let unwrapped = unwrap_segment segment;
               normalized = normalize_segment (if unwrapped \<noteq> [] then unwrapped else segment)
           in return (map_option (\<lambda>(_, message). deny ''dangerous'' message ''dangerous'' (normalize_segment segment))
                        (List.find (\<lambda>(p, _). rx_search p (lower normalized)) DANGEROUS_PATTERNS))))"

section \<open>Closing tasks\<close>

definition ST_GLOBAL_OPTIONS_WITH_VALUE :: "string list" where
  "ST_GLOBAL_OPTIONS_WITH_VALUE = [''-P'', ''--project'', ''--project-id'']"
definition ST_DONE_OPTIONS_WITH_VALUE :: "string list" where
  "ST_DONE_OPTIONS_WITH_VALUE = [''-m'', ''--message'']"
definition ST_DONE_TASK_OPTIONS :: "string list" where
  "ST_DONE_TASK_OPTIONS = [''-t'', ''--task'']"

definition is_task_id :: "string \<Rightarrow> bool" where
  "is_task_id v = startswith v ''task-''"

definition with_equals :: "string list \<Rightarrow> string \<Rightarrow> bool" where
  "with_equals options token = list_ex (\<lambda>f. startswith token (f @ ''='')) options"

definition environ :: "guard_env \<Rightarrow> string \<Rightarrow> string option" where
  "environ g key = truthy (map_of (su_environ (ge_around g)) key)"

definition current_agent_task_id :: "guard_env \<Rightarrow> string option" where
  "current_agent_task_id g =
     (case or_else (environ g ''AGENT_HUB_EXTERNAL_ID'') (environ g ''AGENT_HUB_TASK_ID'') of
        Some t \<Rightarrow> if is_task_id t then Some t else
          (case environ g ''AGENT_HUB_SESSION_ID'' of
             None \<Rightarrow> None
           | Some s \<Rightarrow> (case ge_hub g s of Some (JObj payload) \<Rightarrow> derive_task_id payload | _ \<Rightarrow> None))
      | None \<Rightarrow>
          (case environ g ''AGENT_HUB_SESSION_ID'' of
             None \<Rightarrow> None
           | Some s \<Rightarrow> (case ge_hub g s of Some (JObj payload) \<Rightarrow> derive_task_id payload | _ \<Rightarrow> None)))"

fun st_options :: "string list \<Rightarrow> (string \<times> string list) option" where
  "st_options [] = None"
| "st_options [t] = (if with_equals ST_GLOBAL_OPTIONS_WITH_VALUE t \<or> startswith t ''-'' then None else Some (t, []))"
| "st_options (t # v # ts) =
     (if t \<in> set ST_GLOBAL_OPTIONS_WITH_VALUE then st_options ts
      else if with_equals ST_GLOBAL_OPTIONS_WITH_VALUE t \<or> startswith t ''-'' then st_options (v # ts)
      else Some (t, v # ts))"

definition st_invocation :: "string list \<Rightarrow> (string \<times> string list) option" where
  "st_invocation segment =
     (let unwrapped = unwrap_segment segment in
      if length unwrapped < 2 \<or> path_name (hd unwrapped) \<noteq> ''st'' then None else st_options (tl unwrapped))"

fun done_targets :: "string list \<Rightarrow> string list" where
  "done_targets [] = []"
| "done_targets [t] =
     (if with_equals ST_DONE_TASK_OPTIONS t
      then (let target = after_first CHR ''='' t in if is_task_id target then [target] else [])
      else if with_equals ST_DONE_OPTIONS_WITH_VALUE t then []
      else if \<not> startswith t ''-'' \<and> is_task_id t then [t] else [])"
| "done_targets (t # v # ts) =
     (if t \<in> set ST_DONE_TASK_OPTIONS then (if is_task_id v then [v] else []) @ done_targets ts
      else if with_equals ST_DONE_TASK_OPTIONS t
      then (let target = after_first CHR ''='' t in if is_task_id target then [target] else []) @ done_targets (v # ts)
      else if t \<in> set ST_DONE_OPTIONS_WITH_VALUE then done_targets ts
      else if with_equals ST_DONE_OPTIONS_WITH_VALUE t then done_targets (v # ts)
      else (if \<not> startswith t ''-'' \<and> is_task_id t then [t] else []) @ done_targets (v # ts))"

definition task_ids_targeted_by_st_done :: "string list \<Rightarrow> string list" where
  "task_ids_targeted_by_st_done args = rev (remdups (rev (done_targets args)))"

definition st_done_task_decision :: "guard_env \<Rightarrow> string list \<Rightarrow> decision option" where
  "st_done_task_decision g segment =
     (case st_invocation segment of
        None \<Rightarrow> None
      | Some (subcommand, args) \<Rightarrow>
          if subcommand \<noteq> ''done'' then None
          else (case truthy (current_agent_task_id g) of
                  None \<Rightarrow> None
                | Some current \<Rightarrow>
                    (case filter (\<lambda>t. t \<noteq> current) (task_ids_targeted_by_st_done args) of
                       [] \<Rightarrow> None
                     | target # _ \<Rightarrow>
                         Some (deny ''st_done_task_mismatch''
                           (''BLOCKED:st done task mismatch:Current Agent Hub session owns '' @ current
                              @ ''; complete that task, not '' @ target @ ''.'') ''st'' (normalize_segment segment)))))"

section \<open>Git\<close>

definition CG_GIT_OPTIONS_WITH_VALUE :: "string list" where
  "CG_GIT_OPTIONS_WITH_VALUE =
     [''-c'', ''--config-env'', ''--exec-path'', ''--git-dir'', ''--namespace'', ''--super-prefix'', ''--work-tree'']"

definition GIT_MANAGED_REDIRECTS :: "(string \<times> string \<times> string) list" where
  "GIT_MANAGED_REDIRECTS =
     [(''status'', ''git_status_redirect'', ''BLOCKED:git status:Use 'st git status' or 'st vcs doctor'.''),
      (''fetch'', ''git_fetch_redirect'', ''BLOCKED:git fetch:Use 'st vcs reconcile'.''),
      (''pull'', ''git_pull_redirect'', ''BLOCKED:git pull:Use 'st vcs reconcile'.''),
      (''push'', ''git_push_redirect'', ''BLOCKED:git push:Use 'st vcs publish --source ID --sha FULL_OID --now'.'')]"

definition git_dir_option :: "guard_env \<Rightarrow> string \<Rightarrow> string \<Rightarrow> (cg_error, string) result" where
  "git_dir_option g git_cwd v =
     (case path_expanduser (ge_user g) v of
        Inl e \<Rightarrow> raise e
      | Inr target \<Rightarrow> return (ge_resolve g (if startswith target ''/'' then target else path_join git_cwd target)))"

fun git_options :: "guard_env \<Rightarrow> string \<Rightarrow> string list \<Rightarrow> (cg_error, (string \<times> string list \<times> string) option) result" where
  "git_options g git_cwd [] = return None"
| "git_options g git_cwd [t] =
     (if startswith t ''-C'' \<and> t \<noteq> ''-C''
      then (case git_dir_option g git_cwd (drop 2 t) of Inl e \<Rightarrow> raise e | Inr _ \<Rightarrow> return None)
      else if startswith t ''-'' then return None else return (Some (t, [], git_cwd)))"
| "git_options g git_cwd (t # v # ts) =
     (if t = ''-C''
      then (case git_dir_option g git_cwd v of Inl e \<Rightarrow> raise e | Inr dir \<Rightarrow> git_options g dir ts)
      else if startswith t ''-C''
      then (case git_dir_option g git_cwd (drop 2 t) of Inl e \<Rightarrow> raise e | Inr dir \<Rightarrow> git_options g dir (v # ts))
      else if t \<in> set CG_GIT_OPTIONS_WITH_VALUE then git_options g git_cwd ts
      else if startswith t ''-'' then git_options g git_cwd (v # ts)
      else return (Some (t, v # ts, git_cwd)))"

definition cg_git_invocation :: "guard_env \<Rightarrow> string list \<Rightarrow> string \<Rightarrow> (cg_error, (string \<times> string list \<times> string) option) result" where
  "cg_git_invocation g segment cwd =
     (let unwrapped = unwrap_segment segment in
      if length unwrapped < 2 \<or> hd unwrapped \<noteq> ''git'' then return None else git_options g cwd (tl unwrapped))"

definition git_checkout_decision :: "guard_env \<Rightarrow> string list \<Rightarrow> string \<Rightarrow> string option \<Rightarrow> verdict" where
  "git_checkout_decision g args segment_text root =
     (let paths = git_paths_after_double_dash args in
      if take 1 args = [''.''] \<or> take 2 args = [''--'', ''.''] \<or> ''.'' \<in> set paths
      then return (if is_managed_repo_root g root
                   then Some (deny ''git_checkout_all'' ''BLOCKED:git checkout .:Discards all uncommitted changes at once.'' ''git'' segment_text)
                   else None)
      else if paths = [] then return None else path_conflict_fn g root paths segment_text)"

definition git_restore_decision :: "guard_env \<Rightarrow> string list \<Rightarrow> string \<Rightarrow> string option \<Rightarrow> verdict" where
  "git_restore_decision g args segment_text root =
     (let everything = return (if is_managed_repo_root g root
            then Some (deny ''git_restore_all'' ''BLOCKED:git restore .:Discards all uncommitted changes at once.'' ''git'' segment_text)
            else None)
      in if take 1 args = [''.''] then everything
         else case git_restore_paths args of
                (paths, staging_only) \<Rightarrow>
                  if staging_only then return None
                  else if ''.'' \<in> set paths then everything
                  else path_conflict_fn g root paths segment_text)"

definition GIT_ABORT_ACTIONS :: "string list" where
  "GIT_ABORT_ACTIONS = [''--abort'', ''--continue'', ''--quit'', ''--skip'']"

definition line_break :: "char \<Rightarrow> bool" where
  "line_break c \<longleftrightarrow> char_nat c \<in> {10, 11, 12, 13, 28, 29, 30, 133}"

definition stripped_lines :: "string \<Rightarrow> string list" where
  "stripped_lines out =
     filter (\<lambda>l. l \<noteq> []) (map strip (split_on NL (map (\<lambda>c. if line_break c then NL else c) out)))"

definition git_revert_paths :: "guard_env \<Rightarrow> string \<Rightarrow> string list \<Rightarrow> (cg_error, string list) result" where
  "git_revert_paths g root args =
     (let cleaned = strip_git_option_values [''-m'', ''--mainline'', ''-X'', ''--strategy-option'', ''--strategy''] args;
          revisions = filter (\<lambda>a. a \<noteq> [] \<and> \<not> startswith a ''-'') cleaned
      in if revisions = [] then return []
         else case ge_shown g root revisions of
                Inl err \<Rightarrow> raise (CommandGuardError (''Failed to inspect git revert paths for '' @ join_with '' '' revisions @ '': '' @ err))
              | Inr out \<Rightarrow> return (stripped_lines out))"

definition git_revert_decision :: "guard_env \<Rightarrow> string list \<Rightarrow> string \<Rightarrow> string option \<Rightarrow> verdict" where
  "git_revert_decision g args segment_text root =
     (case root of
        None \<Rightarrow> return None
      | Some r \<Rightarrow>
          if list_ex (\<lambda>f. f \<in> set args) GIT_ABORT_ACTIONS then return None
          else (case git_revert_paths g r args of
                  Inl e \<Rightarrow> raise e
                | Inr paths \<Rightarrow> path_conflict_fn g root paths segment_text))"

definition git_rm_operands :: "string list \<Rightarrow> string list" where
  "git_rm_operands args =
     (let plain = filter (\<lambda>t. t \<noteq> [] \<and> \<not> startswith t ''-'');
          explicit = (if ''--'' \<in> set args then plain (drop 1 (dropWhile (\<lambda>t. t \<noteq> ''--'') args)) else [])
      in if explicit \<noteq> [] then explicit else plain args)"

text \<open>What is left of \<open>_git_decision\<close> once the irreversible policy has no objection.\<close>

definition git_managed_decision :: "guard_env \<Rightarrow> string \<Rightarrow> string list \<Rightarrow> string option \<Rightarrow> string \<Rightarrow> verdict" where
  "git_managed_decision g subcommand args root segment_text =
     (if subcommand = ''commit''
      then return (Some (deny ''git_commit_redirect'' ''BLOCKED:git commit:Use 'st commit --message \"...\"' for a local checkpoint.'' ''git'' segment_text))
      else case (if is_managed_repo_root g root then map_of GIT_MANAGED_REDIRECTS subcommand else None) of
             Some (cd, message) \<Rightarrow> return (Some (deny cd message ''git'' segment_text))
           | None \<Rightarrow>
               if subcommand = ''checkout'' then git_checkout_decision g args segment_text root
               else if subcommand = ''restore'' then git_restore_decision g args segment_text root
               else if subcommand = ''rm'' then path_conflict_fn g root (git_rm_operands args) segment_text
               else if subcommand = ''revert'' then git_revert_decision g args segment_text root
               else return None)"

definition git_decision :: "guard_env \<Rightarrow> string list \<Rightarrow> string \<Rightarrow> verdict" where
  "git_decision g segment cwd =
     (case cg_git_invocation g segment cwd of
        Inl e \<Rightarrow> raise e
      | Inr None \<Rightarrow> return None
      | Inr (Some (subcommand, args, git_cwd)) \<Rightarrow>
          (let segment_text = normalize_segment segment; root = repo_root g git_cwd in
           case (if subcommand \<in> set [''reset'', ''clean'', ''push'', ''stash'']
                 then irreversible_git_decision subcommand args segment_text True else None) of
             Some d \<Rightarrow> return (Some d)
           | None \<Rightarrow> git_managed_decision g subcommand args root segment_text))"

definition retired_vcs_decision :: "guard_env \<Rightarrow> string list \<Rightarrow> string \<Rightarrow> decision option" where
  "retired_vcs_decision g segment cwd =
     (let unwrapped = unwrap_segment segment in
      if unwrapped = [] \<or> hd unwrapped \<noteq> ''jj'' \<or> \<not> is_managed_repo_root g (repo_root g cwd) then None
      else Some (deny ''retired_vcs'' ''BLOCKED:jj:Retired workflow; use Git inspection, st commit for local checkpoints, and st vcs publish for authorized publication.'' ''jj'' (normalize_segment segment)))"

section \<open>The evaluator\<close>

definition working_directory :: "guard_env \<Rightarrow> string option \<Rightarrow> (cg_error, string) result" where
  "working_directory g cwd =
     (case path_expanduser (ge_user g) (str_or cwd ''.'') of Inl e \<Rightarrow> raise e | Inr p \<Rightarrow> return (ge_resolve g p))"

definition if_refused :: "(cg_error, decision) result \<Rightarrow> verdict" where
  "if_refused r = (case r of Inl e \<Rightarrow> raise e | Inr d \<Rightarrow> return (if d_blocked d then Some d else None))"

definition nested_shell_decision :: "(string \<Rightarrow> (cg_error, decision) result) \<Rightarrow> string list \<Rightarrow> verdict" where
  "nested_shell_decision evaluate segment =
     (let unwrapped = unwrap_segment segment in
      if unwrapped = [] \<or> hd unwrapped \<notin> set SHELL_EXECUTABLES then return None
      else case truthy (shell_exec_args (tl unwrapped)) of
             None \<Rightarrow> return None
           | Some nested \<Rightarrow> if_refused (evaluate nested))"

definition publication_decision :: "nat \<Rightarrow> string list \<Rightarrow> verdict" where
  "publication_decision depth segment =
     (case evaluate_publication_command depth (normalize_segment segment) of
        Inl e \<Rightarrow> raise (Fault e)
      | Inr d \<Rightarrow> return (if d_blocked d then Some d else None))"

text \<open>One turn of the segment loop, the policies in the order of the code.\<close>

definition segment_decision :: "nat \<Rightarrow> guard_env \<Rightarrow> string \<Rightarrow> (string \<Rightarrow> (cg_error, decision) result) \<Rightarrow> string list \<Rightarrow> verdict" where
  "segment_decision depth g working evaluate segment =
     first_verdict
       [dangerous_decision depth segment,
        return (irreversible_system_decision (ge_user g) (unwrap_segment segment) working),
        registry_redirect_decision g segment working,
        nested_shell_decision evaluate segment,
        return (st_done_task_decision g segment),
        git_decision g segment working,
        return (retired_vcs_decision g segment working),
        publication_decision depth segment]"

primrec evaluate_shell_command :: "nat \<Rightarrow> guard_env \<Rightarrow> string \<Rightarrow> string option \<Rightarrow> (cg_error, decision) result" where
  "evaluate_shell_command 0 g command cwd = raise (Fault RecursionError)"
| "evaluate_shell_command (Suc depth) g command cwd =
     (case working_directory g cwd of
        Inl e \<Rightarrow> raise e
      | Inr working \<Rightarrow>
          (case first_verdict (map (segment_decision depth g working (\<lambda>nested. evaluate_shell_command depth g nested (Some working)))
                                   (split_shell_segments command)) of
             Inl e \<Rightarrow> raise e
           | Inr (Some d) \<Rightarrow> return d
           | Inr None \<Rightarrow> return (allow command)))"

text \<open>The exit status of \<open>main\<close>; other exceptions leave it.\<close>

definition guard_exit :: "(cg_error, decision) result \<Rightarrow> nat option" where
  "guard_exit r =
     (case r of
        Inl (CommandGuardError _) \<Rightarrow> Some 1
      | Inl _ \<Rightarrow> None
      | Inr d \<Rightarrow> Some (if d_blocked d then 2 else 0))"

end
