(* ===== verification/CommandGuardFacts.thy ===== *)
theory CommandGuardFacts
  imports CommandGuard
begin

text \<open>
  Facts about the interactive command guard: it returns within a depth linear in the length of
  the command, an offence in any segment of any nested shell is never allowed, and what the
  ownership check covers.
\<close>

section \<open>Segments are no longer than the command\<close>

text \<open>A bound on the quoted length of a token with a separating blank.\<close>

definition tok_weight :: "string \<Rightarrow> nat" where
  "tok_weight t = (if t = [] then 3 else 8 * length t)"

definition seg_weight :: "string list \<Rightarrow> nat" where
  "seg_weight ts = sum_list (map tok_weight ts)"

lemma seg_weight_simps [simp]:
  "seg_weight [] = 0" "seg_weight (t # ts) = tok_weight t + seg_weight ts" "seg_weight (xs @ ys) = seg_weight xs + seg_weight ys"
  by (simp_all add: seg_weight_def)

lemma tok_weight_rev [simp]: "tok_weight (rev t) = tok_weight t"
  by (simp add: tok_weight_def)

definition weight_slack :: "lex_state \<Rightarrow> bool \<Rightarrow> string \<Rightarrow> nat" where
  "weight_slack st q tok =
     (case st of SP \<Rightarrow> 0 | COMMENT \<Rightarrow> 0 | PUNCT \<Rightarrow> tok_weight tok
      | QUOTE _ \<Rightarrow> 8 * length tok + 3 | ESC_DQ \<Rightarrow> 8 * length tok + 11
      | _ \<Rightarrow> 8 * length tok + (if q then 3 else 0))"

lemma start_char_weight: "weight_slack (fst (start_char cf c)) False (snd (start_char cf c)) \<le> 8"
  by (simp add: start_char_def weight_slack_def tok_weight_def)

lemma lex_weight: "lex cf st q tok s = Some ts \<Longrightarrow> seg_weight ts \<le> 8 * length s + weight_slack st q tok"
proof (induction cf st q tok s arbitrary: ts rule: lex.induct)
  case (2 cf q tok c cs)
  then show ?case using start_char_weight [of cf c] by (fastforce simp: weight_slack_def split: if_splits)
next
  case (4 cf q tok c cs)
  then show ?case by (fastforce simp: weight_slack_def emit_if_def emit_def tok_weight_def split: if_splits)
next
  case (6 cf q tok c cs)
  then show ?case using start_char_weight [of cf c]
    by (fastforce simp: weight_slack_def emit_def tok_weight_def split: if_splits)
next
  case (8 cf d q tok c cs)
  then show ?case by (fastforce simp: weight_slack_def split: if_splits)
next
  case (12 cf q tok c cs)
  then show ?case by (fastforce simp: weight_slack_def split: if_splits)
next
  case (14 cf q tok c cs)
  then show ?case by (fastforce simp: weight_slack_def split: if_splits)
qed (auto simp: weight_slack_def emit_if_def emit_def tok_weight_def split: if_splits)

lemma group_segments_weight:
  "seg \<in> set (group_segments sep cur ts) \<Longrightarrow> seg_weight seg \<le> seg_weight cur + seg_weight ts"
  by (induction sep cur ts rule: group_segments.induct) (fastforce split: if_splits)+

lemma split_weight: "seg \<in> set (split_shell_segments c) \<Longrightarrow> seg_weight seg \<le> 8 * length c"
proof (cases "lex_all split_segments_conf c")
  case None
  then have "c \<noteq> []" by (auto simp: lex_all_def)
  moreover assume "seg \<in> set (split_shell_segments c)"
  ultimately show ?thesis using None by (simp add: split_shell_segments_def tok_weight_def)
next
  case (Some ts)
  assume "seg \<in> set (split_shell_segments c)"
  with Some have "seg_weight seg \<le> seg_weight ts"
    using group_segments_weight [of seg _ "[]" ts] by (simp add: split_shell_segments_def)
  also have "\<dots> \<le> 8 * length c" using lex_weight [OF Some [unfolded lex_all_def]] by (simp add: weight_slack_def)
  finally show ?thesis .
qed

lemma shlex_quote_length: "Suc (length (shlex_quote t)) \<le> tok_weight t"
proof -
  have "length (escape_sq t) \<le> 5 * length t"
    by (induction t) (auto simp: escape_sq_def)
  then show ?thesis by (cases t) (auto simp: shlex_quote_def tok_weight_def)
qed

lemma normalize_weight: "length (normalize_segment seg) \<le> seg_weight seg"
proof (cases seg)
  case (Cons t ts)
  have "Suc (length (join_with '' '' (map shlex_quote (t # ts)))) = width (map shlex_quote (t # ts))"
    by (rule width_join) simp
  also have "\<dots> = sum_list (map (\<lambda>t. Suc (length (shlex_quote t))) (t # ts))"
    by (induction "t # ts" arbitrary: t ts) (auto simp: o_def width_def)
  also have "\<dots> \<le> seg_weight (t # ts)"
    unfolding seg_weight_def by (rule sum_list_mono) (rule shlex_quote_length)
  finally show ?thesis using Cons by (simp add: normalize_segment_def shlex_join_def)
qed (simp add: normalize_segment_def shlex_join_def)

text \<open>The command of a nested shell is shorter than its segment.\<close>

lemma seg_weight_suffix: "suffix_of ys xs \<Longrightarrow> seg_weight ys \<le> seg_weight xs"
  by (auto simp: suffix_of_def)

lemma seg_weight_mem: "t \<in> set ts \<Longrightarrow> tok_weight t \<le> seg_weight ts"
  by (induction ts) auto

lemma nested_weight:
  assumes "unwrap_segment seg = x # args" "x \<noteq> []" "shell_exec_args args = Some c"
  shows "8 * length c < seg_weight seg"
proof -
  have "suffix_of (x # args) seg" using unwrap_segment_suffix [of seg] assms(1) by simp
  then have "tok_weight x + seg_weight args \<le> seg_weight seg" using seg_weight_suffix by fastforce
  moreover have "c \<in> set args" using shell_exec_args_mem [OF assms(3)] by (cases args) auto
  then have "tok_weight c \<le> seg_weight args" by (rule seg_weight_mem)
  moreover have "8 * length c \<le> tok_weight c" by (simp add: tok_weight_def)
  moreover have "tok_weight x > 0" using assms(2) by (simp add: tok_weight_def)
  ultimately show ?thesis by linarith
qed

section \<open>Verdicts\<close>

definition refuses :: "verdict \<Rightarrow> bool" where
  "refuses v \<longleftrightarrow> (\<forall>d. v = Inr (Some d) \<longrightarrow> d_blocked d)"

definition calm :: "cg_error \<Rightarrow> bool" where
  "calm e \<longleftrightarrow> (\<forall>f. e \<noteq> Fault f)"

definition faultless :: "(cg_error, 'a) result \<Rightarrow> bool" where
  "faultless v \<longleftrightarrow> (\<forall>e. v = Inl e \<longrightarrow> calm e)"

lemma calm_simps [simp]: "calm HomeUnknown" "calm (CommandGuardError m)" "\<not> calm (Fault f)"
  by (simp_all add: calm_def)

lemma faultless_simps [simp]: "faultless (Inr a)" "faultless (Inl e) \<longleftrightarrow> calm e"
  by (simp_all add: faultless_def)

lemma faultlessD: "faultless v \<Longrightarrow> v = Inl e \<Longrightarrow> calm e"
  by (simp add: faultless_def)

lemma refuses_simps [simp]:
  "refuses (Inl e)" "refuses (Inr None)" "refuses (Inr (Some d)) \<longleftrightarrow> d_blocked d"
  by (simp_all add: refuses_def)

lemma first_verdict_None: "first_verdict vs = Inr None \<Longrightarrow> v \<in> set vs \<Longrightarrow> v = Inr None"
  by (induction vs) (auto split: sum.splits option.splits)

lemma first_verdict_refuses: "\<forall>v\<in>set vs. refuses v \<Longrightarrow> refuses (first_verdict vs)"
  by (induction vs) (auto split: sum.splits option.splits)

lemma first_verdict_faultless: "\<forall>v\<in>set vs. faultless v \<Longrightarrow> faultless (first_verdict vs)"
proof (induction vs)
  case (Cons v vs)
  then have "faultless v" "faultless (first_verdict vs)" by simp_all
  then show ?case by (cases v) (auto split: option.splits)
qed simp

lemma first_verdict_returns: "\<forall>v\<in>set vs. \<exists>a. v = Inr a \<Longrightarrow> \<exists>a. first_verdict vs = Inr a"
  by (induction vs) (auto split: option.splits)

section \<open>Each policy refuses or has nothing to say\<close>

lemma path_expanduser_faultless: "faultless (path_expanduser e p)"
  by (simp add: path_expanduser_def Let_def)

lemmas path_expanduser_calm [dest] = faultlessD [OF path_expanduser_faultless]

lemma located_faultless: "faultless (located g dir t)"
  by (auto simp: located_def split: sum.splits)

lemmas located_calm [dest] = faultlessD [OF located_faultless]

lemma normalize_repo_paths_faultless: "faultless (normalize_repo_paths g root raws)"
proof (induction raws)
  case (Cons raw raws)
  then show ?case by (auto simp: Let_def split: sum.splits option.splits)
qed simp

lemmas normalize_repo_paths_calm [dest] = faultlessD [OF normalize_repo_paths_faultless]

lemma find_in_repo_faultless [simp]: "faultless (find_in_repo g cwd ts)"
  by (induction ts) (auto split: sum.splits)

lemma explicit_repo_target_faultless: "faultless (explicit_repo_target g ts cwd)"
  by (auto simp: explicit_repo_target_def split: list.splits option.splits sum.splits)

lemmas explicit_repo_target_calm [dest] = faultlessD [OF explicit_repo_target_faultless]

lemma check_path_conflicts_ok [simp]:
  "refuses (check_path_conflicts g root ps c)" "faultless (check_path_conflicts g root ps c)"
  by (auto simp: check_path_conflicts_def split: sum.splits)

lemma path_conflict_fn_ok [simp]:
  "refuses (path_conflict_fn g root ps c)" "faultless (path_conflict_fn g root ps c)"
  by (simp_all add: path_conflict_fn_def split: option.splits)

lemma redirect_blocked [simp]: "d_blocked (redirect m c t)"
  by (simp add: redirect_def Let_def)

lemma service_redirect_ok:
  "refuses (service_redirect g seg un txt cwd ps) \<and> faultless (service_redirect g seg un txt cwd ps)"
proof (induction ps)
  case (Cons a ps)
  obtain p m k where a: "a = (p, m, k)" by (rule prod_cases3)
  let ?t = "if un \<noteq> [] then un else seg"
  show ?case
  proof (cases "explicit_repo_target g ?t cwd")
    case (Inl e)
    with Cons explicit_repo_target_calm [OF Inl] show ?thesis by (simp add: a Let_def)
  next
    case (Inr b)
    with Cons show ?thesis by (cases b) (simp_all add: a Let_def)
  qed
qed simp

lemma registry_redirect_ok [simp]:
  "refuses (registry_redirect_decision g seg cwd)" "faultless (registry_redirect_decision g seg cwd)"
  using service_redirect_ok [of g seg]
  by (simp_all add: registry_redirect_decision_def Let_def split: sum.splits option.splits prod.splits)

lemma git_dir_option_faultless: "faultless (git_dir_option g d v)"
  by (auto simp: git_dir_option_def split: sum.splits)

lemmas git_dir_option_calm [dest] = faultlessD [OF git_dir_option_faultless]

lemma git_options_faultless [simp]: "faultless (git_options g d ts)"
  by (induction g d ts rule: git_options.induct) (auto split: sum.splits)

lemma cg_git_invocation_faultless: "faultless (cg_git_invocation g seg cwd)"
  by (simp add: cg_git_invocation_def Let_def)

lemmas cg_git_invocation_calm [dest] = faultlessD [OF cg_git_invocation_faultless]

lemma git_revert_ok [simp]:
  "refuses (git_revert_decision g args t root)" "faultless (git_revert_decision g args t root)"
  by (auto simp: git_revert_decision_def git_revert_paths_def Let_def split: option.splits sum.splits if_splits)

lemma git_checkout_ok [simp]:
  "refuses (git_checkout_decision g args t root)" "faultless (git_checkout_decision g args t root)"
  by (simp_all add: git_checkout_decision_def Let_def)

lemma git_restore_ok [simp]:
  "refuses (git_restore_decision g args t root)" "faultless (git_restore_decision g args t root)"
  by (simp_all add: git_restore_decision_def Let_def split: prod.splits)

lemma git_managed_ok [simp]:
  "refuses (git_managed_decision g sub args root t)" "faultless (git_managed_decision g sub args root t)"
  by (simp_all add: git_managed_decision_def split: option.splits prod.splits)

lemma answers_denial: "answers (denial s ts) a \<Longrightarrow> a = Some d \<Longrightarrow> d_blocked d"
  by (simp add: answers_def denial_def)

lemma git_decision_ok [simp]: "refuses (git_decision g seg cwd)" "faultless (git_decision g seg cwd)"
proof -
  let ?i = "\<lambda>sub args. if sub \<in> set [''reset'', ''clean'', ''push'', ''stash'']
    then irreversible_git_decision sub args (normalize_segment seg) True else None"
  let ?v = "\<lambda>sub args root. case ?i sub args of Some d \<Rightarrow> return (Some d)
      | None \<Rightarrow> git_managed_decision g sub args root (normalize_segment seg)"
  have blocked: "d_blocked d" if "?i sub args = Some d" for sub args d
    using that answers_denial [OF git_decision_denial] by (metis option.distinct(1))
  have v: "refuses (?v sub args root) \<and> faultless (?v sub args root)" for sub args root
    using blocked [of sub args] by (cases "?i sub args") (simp_all only: option.case refuses_simps faultless_simps git_managed_ok)
  show "refuses (git_decision g seg cwd)" "faultless (git_decision g seg cwd)"
    unfolding git_decision_def Let_def using v
    by (auto split: sum.splits option.splits prod.splits)
qed

lemma display_refuses: "refuses (display_server_decision n inh outer seg)"
proof (induction n arbitrary: inh outer seg)
  case (Suc n)
  obtain un sudo where u: "unwrap_segment_with_privilege seg = (un, sudo)" by (rule prod.exhaust)
  have "refuses (first_verdict (map (display_server_decision n p c) segs))" for p c segs
    by (rule first_verdict_refuses) (simp add: Suc)
  then show ?case by (simp add: u Let_def xorg_blocked_def xvfb_blocked_def split: option.splits)
qed simp

lemma shell_nonempty: "lead_name x \<in> set SHELL_EXECUTABLES \<Longrightarrow> x \<noteq> []"
  using runs_nested_nonempty by fastforce

lemma display_returns: "seg_weight seg < n \<Longrightarrow> \<exists>v. display_server_decision n inh outer seg = Inr v"
proof (induction n arbitrary: inh outer seg)
  case (Suc n)
  obtain un sudo where u: "unwrap_segment_with_privilege seg = (un, sudo)" by (rule prod.exhaust)
  have nested: "\<exists>v. first_verdict (map (display_server_decision n p c) (split_shell_segments t)) = Inr v"
    if "lead_name x \<in> set SHELL_EXECUTABLES" "un = x # args" "truthy (shell_exec_args args) = Some t" for x args t p c
  proof (rule first_verdict_returns, clarsimp)
    fix seg' assume "seg' \<in> set (split_shell_segments t)"
    then have "seg_weight seg' \<le> 8 * length t" by (rule split_weight)
    moreover have "8 * length t < seg_weight seg"
      using nested_weight [of seg x args t] that u shell_nonempty [of x] truthy_Some
      by (auto simp: unwrap_segment_def)
    ultimately show "\<exists>v. display_server_decision n p c seg' = Inr v" using Suc.prems by (intro Suc.IH) linarith
  qed
  show ?case
  proof (cases un)
    case Nil
    then show ?thesis by (simp add: u Let_def SHELL_EXECUTABLES_def REAL_X_SERVER_LAUNCHERS_def)
  next
    case (Cons x args)
    with nested [of x args] show ?thesis by (simp add: u Let_def split: option.splits)
  qed
qed simp

lemma refuses_map: "(\<And>x. d_blocked (f x)) \<Longrightarrow> refuses (Inr (map_option f a))"
  by (cases a) simp_all

lemma dangerous_ok: "refuses (dangerous_decision n seg)" "seg_weight seg < n \<Longrightarrow> faultless (dangerous_decision n seg)"
  using display_refuses [of n False None seg] display_returns [of seg n False None]
  by (auto simp: dangerous_decision_def Let_def split: sum.splits option.splits prod.splits intro!: refuses_map)

lemma nested_shell_ok:
  "refuses (nested_shell_decision ev seg)"
  "(\<And>c. 8 * length c < seg_weight seg \<Longrightarrow> faultless (ev c)) \<Longrightarrow> faultless (nested_shell_decision ev seg)"
proof -
  show "refuses (nested_shell_decision ev seg)"
    by (auto simp: nested_shell_decision_def if_refused_def Let_def split: option.splits sum.splits)
  assume ev: "\<And>c. 8 * length c < seg_weight seg \<Longrightarrow> faultless (ev c)"
  have "faultless (ev c)" if "unwrap_segment seg = x # args" "x \<in> set SHELL_EXECUTABLES" "truthy (shell_exec_args args) = Some c" for x args c
    using that truthy_Some by (intro ev nested_weight [of seg x args c]) (auto simp: SHELL_EXECUTABLES_def)
  then show "faultless (nested_shell_decision ev seg)"
    by (cases "unwrap_segment seg") (auto simp: nested_shell_decision_def if_refused_def split: option.splits sum.splits dest: faultlessD)
qed

lemma publication_ok: "refuses (publication_decision n seg)" "seg_weight seg < n \<Longrightarrow> faultless (publication_decision n seg)"
proof -
  show "refuses (publication_decision n seg)" by (simp add: publication_decision_def split: sum.splits)
  assume "seg_weight seg < n"
  with normalize_weight [of seg] have "length (normalize_segment seg) < n" by linarith
  from pub.enough_depth [OF this] show "faultless (publication_decision n seg)" by (auto simp: publication_decision_def)
qed

lemma segment_decision_refuses: "refuses (segment_decision n g wd ev seg)"
proof -
  have "d_blocked d" if "irreversible_system_decision e ts wd = Some d" for e ts d
    using that by (rule answers_denial [OF system_decision_denial])
  then have sys: "refuses (Inr (irreversible_system_decision e ts wd))" for e ts by (simp add: refuses_def)
  have st: "refuses (Inr (st_done_task_decision g seg))" "refuses (Inr (retired_vcs_decision g seg wd))"
    by (auto simp: refuses_def st_done_task_decision_def retired_vcs_decision_def Let_def split: option.splits if_splits prod.splits list.splits)
  show ?thesis unfolding segment_decision_def
    by (rule first_verdict_refuses) (simp add: sys st dangerous_ok nested_shell_ok publication_ok)
qed

lemma segment_decision_faultless:
  "seg_weight seg < n \<Longrightarrow> (\<And>c. 8 * length c < seg_weight seg \<Longrightarrow> faultless (ev c)) \<Longrightarrow> faultless (segment_decision n g wd ev seg)"
  unfolding segment_decision_def
  by (rule first_verdict_faultless) (simp add: dangerous_ok nested_shell_ok publication_ok)

section \<open>The guard returns\<close>

lemma working_directory_faultless: "faultless (working_directory g cwd)"
  by (auto simp: working_directory_def split: sum.splits)

lemma evaluate_faultless: "8 * length c + 1 < n \<Longrightarrow> faultless (evaluate_shell_command n g c cwd)"
proof (induction n arbitrary: c cwd)
  case (Suc n)
  show ?case
  proof (cases "working_directory g cwd")
    case (Inl e)
    with faultlessD [OF working_directory_faultless] show ?thesis by simp
  next
    case (Inr wd)
    let ?ev = "\<lambda>nested. evaluate_shell_command n g nested (Some wd)"
    have "faultless (first_verdict (map (segment_decision n g wd ?ev) (split_shell_segments c)))"
    proof (rule first_verdict_faultless, clarsimp)
      fix seg assume "seg \<in> set (split_shell_segments c)"
      then have w: "seg_weight seg \<le> 8 * length c" by (rule split_weight)
      with Suc.prems show "faultless (segment_decision n g wd ?ev seg)"
        by (intro segment_decision_faultless Suc.IH) linarith+
    qed
    with Inr show ?thesis by (auto split: sum.splits option.splits)
  qed
qed simp

text \<open>
  C27: The interactive guard always comes back: with eight frames per character of the command
  (and two more) it returns a decision, or raises one of its two documented errors; it never runs
  out of stack, however deeply shells are nested in the command.
\<close>

theorem command_guard_returns:
  assumes "8 * length c + 1 < n"
  shows "(\<exists>d. evaluate_shell_command n g c cwd = Inr d) \<or> (\<exists>m. evaluate_shell_command n g c cwd = Inl (CommandGuardError m))
    \<or> evaluate_shell_command n g c cwd = Inl HomeUnknown"
proof (cases "evaluate_shell_command n g c cwd")
  case (Inl e)
  with faultlessD [OF evaluate_faultless [OF assms]] have "calm e" by blast
  with Inl show ?thesis by (cases e) auto
qed simp

definition sample_session :: session where
  "sample_session =
     [(''id'', JStr ''s2''), (''working_dir'', JStr ''/srv/projects/app''), (''task_id'', JStr ''task-2''),
      (''declared_scope_paths'', JList [JStr ''src/a.py''])]"

definition sample_guard :: guard_env where
  "sample_guard =
     \<lparr>ge_user = \<lparr>HOME = Some ''/home/u'', pwd_self = None, pwd_nam = (\<lambda>_. None)\<rparr>, ge_resolve = (\<lambda>p. p), ge_exists = (\<lambda>_. True),
      ge_inside = (\<lambda>_. True), ge_toplevel = (\<lambda>_. Some ''/srv/projects/app''), ge_managed = Some [],
      ge_shown = (\<lambda>_ _. Inr []),
      ge_registry = Inr \<lparr>wrapper_patterns = [], tool_patterns = [], docker_patterns = [], service_patterns = []\<rparr>,
      ge_hub = (\<lambda>_. None),
      ge_around = \<lparr>su_resolve = Some, su_index_project = (\<lambda>_. None), su_staged = (\<lambda>_. Inr []),
        su_inventory = (\<lambda>_. Inr [sample_session]), su_spirit = (\<lambda>_. None), su_environ = [(''ST_SESSION_ID'', ''s1'')]\<rparr>\<rparr>"

theorem command_guard_returns_witness:
  "(\<exists>d. evaluate_shell_command 200 sample_guard ''sudo bash -c ls'' (Some ''/srv'') = Inr d)
   \<or> (\<exists>m. evaluate_shell_command 200 sample_guard ''sudo bash -c ls'' (Some ''/srv'') = Inl (CommandGuardError m))
   \<or> evaluate_shell_command 200 sample_guard ''sudo bash -c ls'' (Some ''/srv'') = Inl HomeUnknown"
  by (rule command_guard_returns) simp

section \<open>Offences are never allowed\<close>

text \<open>A path that another live session of the checkout declares to write.\<close>

definition foreign_owner :: "surroundings \<Rightarrow> string \<Rightarrow> string \<Rightarrow> bool" where
  "foreign_owner su root p \<longleftrightarrow>
     (\<exists>project sessions s scope. resolve_project_id su (resolved_or_same su root) = Some project \<and> project \<noteq> []
        \<and> su_inventory su project = Inr sessions \<and> s \<in> set sessions
        \<and> session_checkout_root su s = Some (resolved_or_same su (resolved_or_same su root)) \<and> other_session su None s
        \<and> load_live_lane_scope su s (derive_task_id s) = Some scope \<and> p \<in> ls_write scope)"

text \<open>A plain relative path.\<close>

definition plain_path :: "string \<Rightarrow> bool" where
  "plain_path p \<longleftrightarrow> normalize_single_scope_path (JStr p) = Some p \<and> strip p = p \<and> \<not> startswith p ''~''"

text \<open>The paths a git command names to remove or overwrite, when it does not name everything.\<close>

definition destroyed :: "string \<Rightarrow> string list \<Rightarrow> string list" where
  "destroyed sub args =
     (if sub = ''rm'' then git_rm_operands args
      else if sub = ''checkout'' \<and> take 1 args \<noteq> [''.''] \<and> take 2 args \<noteq> [''--'', ''.''] \<and> ''.'' \<notin> set (git_paths_after_double_dash args)
      then git_paths_after_double_dash args
      else if sub = ''restore'' \<and> take 1 args \<noteq> [''.''] \<and> \<not> snd (git_restore_paths args) \<and> ''.'' \<notin> set (fst (git_restore_paths args))
      then fst (git_restore_paths args)
      else [])"

inductive offends :: "guard_env \<Rightarrow> string \<Rightarrow> string \<Rightarrow> bool" for g where
  system: "seg \<in> set (split_shell_segments c) \<Longrightarrow>
    irreversible_system_decision (ge_user g) (unwrap_segment seg) wd \<noteq> None \<Longrightarrow> offends g wd c"
| git: "seg \<in> set (split_shell_segments c) \<Longrightarrow> cg_git_invocation g seg wd = Inr (Some (sub, args, dir)) \<Longrightarrow>
    sub \<in> set [''reset'', ''clean'', ''push'', ''stash''] \<Longrightarrow>
    irreversible_git_decision sub args (normalize_segment seg) True \<noteq> None \<Longrightarrow> offends g wd c"
| publication: "seg \<in> set (split_shell_segments c) \<Longrightarrow> reaches_publication (normalize_segment seg) \<Longrightarrow> offends g wd c"
| owned: "seg \<in> set (split_shell_segments c) \<Longrightarrow> cg_git_invocation g seg wd = Inr (Some (sub, args, dir)) \<Longrightarrow>
    repo_root g dir = Some root \<Longrightarrow> p \<in> set (destroyed sub args) \<Longrightarrow> plain_path p \<Longrightarrow>
    foreign_owner (ge_around g) root p \<Longrightarrow> offends g wd c"
| nested: "seg \<in> set (split_shell_segments c) \<Longrightarrow> unwrap_segment seg = x # args \<Longrightarrow> x \<in> set SHELL_EXECUTABLES \<Longrightarrow>
    shell_exec_args args = Some c' \<Longrightarrow> c' \<noteq> [] \<Longrightarrow> working_directory g (Some wd) = Inr wd' \<Longrightarrow> offends g wd' c' \<Longrightarrow> offends g wd c"

lemma join_split_on: "join_with [d] (split_on d s) = s"
proof (induction s)
  case (Cons c s)
  obtain w ws where w: "split_on d s = w # ws" using split_on_not_Nil [of d s] by (cases "split_on d s") auto
  with Cons have "join_with [d] (w # ws) = s" by simp
  then show ?case by (cases ws) (auto simp: w)
qed simp

lemma pure_path_plain:
  assumes "q \<noteq> []" "\<not> startswith q ''/''" "\<not> list_ex (\<lambda>part. part \<in> {[], ''.'', ''..''}) (split_on CHR ''/'' q)"
  shows "pure_path q = q"
proof -
  have "filter (\<lambda>c. c \<noteq> [] \<and> c \<noteq> ''.'') (split_on CHR ''/'' q) = split_on CHR ''/'' q"
    using assms(3) by (auto simp: list_ex_iff filter_id_conv)
  moreover have "initial_slashes q = 0" using assms(1,2) by (cases q) (auto simp: initial_slashes_def)
  ultimately show ?thesis by (simp add: pure_path_def Let_def join_split_on)
qed

lemma plain_pathD:
  assumes "plain_path p"
  shows "p \<noteq> []" "\<not> startswith p ''~''" "\<not> startswith p ''/''" "strip p = p" "pure_path p = p"
proof -
  let ?q = "strip_dot_slash p"
  show strip: "strip p = p" and "\<not> startswith p ''~''" using assms by (simp_all add: plain_path_def)
  with assms have q: "?q \<noteq> []" "\<not> startswith ?q ''/''" "pure_path ?q = p"
    "\<not> list_ex (\<lambda>part. part \<in> {[], ''.'', ''..''}) (split_on CHR ''/'' ?q)"
    by (auto simp: plain_path_def normalize_single_scope_path_def Let_def split: if_splits)
  from pure_path_plain [OF q(1,2,4)] q(3) have "?q = p" by simp
  with q show "p \<noteq> []" "\<not> startswith p ''/''" "pure_path p = p" by simp_all
qed

lemma normalize_repo_paths_keeps:
  assumes "normalize_repo_paths g root raws = Inr ps" "p \<in> set raws" "plain_path p"
  shows "p \<in> set ps"
  using assms(1,2)
proof (induction raws arbitrary: ps)
  case (Cons raw raws)
  note p = plain_pathD [OF assms(3)]
  have "path_expanduser (ge_user g) p = Inr p" using p by (simp add: path_expanduser_def expanduser_plain)
  with Cons p show ?case
    by (cases "raw = p") (auto simp: Let_def split: if_splits sum.splits option.splits)
qed simp

lemma plain_in_scope: "p \<in> set ps \<Longrightarrow> plain_path p \<Longrightarrow> p \<in> set (scope_paths_of ps)"
  by (force simp: normalize_scope_values_def List.map_filter_def plain_path_def)

lemma foreign_path_refused:
  assumes "check_destructive_paths su root ps None None = Inr d" "p \<in> set ps" "plain_path p" "foreign_owner su root p"
  shows "gd_blocked d"
proof -
  let ?root = "resolved_or_same su root" and ?cur = "resolve_current_session_id su None"
  from assms(4) obtain project sessions s scope where
    project: "resolve_project_id su ?root = Some project" "project \<noteq> []" and
    inv: "su_inventory su project = Inr sessions" "s \<in> set sessions" and
    s: "session_checkout_root su s = Some (resolved_or_same su ?root)" "other_session su None s"
      "load_live_lane_scope su s (derive_task_id s) = Some scope" "p \<in> ls_write scope"
    unfolding foreign_owner_def by blast
  have p: "p \<in> set (scope_paths_of ps)" by (rule plain_in_scope [OF assms(2,3)])
  then have ne: "scope_paths_of ps \<noteq> []" by (metis list.set(1) empty_iff)
  have sv: "set_value (Some project) = Some project" "set_value None = None" using project(2) by (auto simp: set_value_def split: list.splits)
  have d: "d = evaluate_destructive_paths su ?root (scope_paths_of ps) sessions (Some project) ?cur"
    using assms(1) ne inv(1) by (simp add: check_destructive_paths_def Let_def project sv)
  have again: "p \<in> normalize_scope_values (JList (map JStr (scope_paths_of ps)))"
    using plain_in_scope [OF p assms(3)] by simp
  have "other_session su ?cur s" using s(2) by (simp add: other_session_def resolve_again)
  moreover have "claims_paths su (normalize_scope_values (JList (map JStr (scope_paths_of ps)))) s"
    using s(3,4) again by (auto simp: claims_paths_def)
  ultimately show ?thesis unfolding d evaluate_blocked_iff using again inv(2) s(1) by blast
qed

lemma path_conflict_refused:
  assumes "path_conflict_fn g (Some root) ps t = Inr None" "p \<in> set ps" "plain_path p"
  shows "\<not> foreign_owner (ge_around g) root p"
proof
  assume own: "foreign_owner (ge_around g) root p"
  from assms(1) obtain qs where q: "normalize_repo_paths g root ps = Inr qs"
    by (auto simp: path_conflict_fn_def check_path_conflicts_def split: sum.splits)
  have p: "p \<in> set qs" by (rule normalize_repo_paths_keeps [OF q assms(2,3)])
  then obtain d where d: "check_destructive_paths (ge_around g) root qs None None = Inr d" "\<not> gd_blocked d"
    using assms(1) q by (auto simp: path_conflict_fn_def check_path_conflicts_def split: sum.splits if_splits)
  with foreign_path_refused [OF d(1) p assms(3) own] show False by simp
qed

lemma git_managed_paths:
  assumes "git_managed_decision g sub args root t = Inr None" "p \<in> set (destroyed sub args)"
  shows "\<exists>ps. path_conflict_fn g root ps t = Inr None \<and> p \<in> set ps"
  using assms
  by (auto simp: git_managed_decision_def destroyed_def git_checkout_decision_def git_restore_decision_def Let_def
      split: if_splits option.splits prod.splits)

lemma allowed_segments:
  assumes "evaluate_shell_command n g c cwd = Inr d" "\<not> d_blocked d" "working_directory g cwd = Inr wd"
  shows "\<exists>m. n = Suc m \<and> (\<forall>seg\<in>set (split_shell_segments c).
    segment_decision m g wd (\<lambda>nested. evaluate_shell_command m g nested (Some wd)) seg = Inr None)"
proof (cases n)
  case 0
  with assms(1) show ?thesis by simp
next
  case (Suc m)
  let ?vs = "map (segment_decision m g wd (\<lambda>nested. evaluate_shell_command m g nested (Some wd))) (split_shell_segments c)"
  have "refuses (first_verdict ?vs)" by (rule first_verdict_refuses) (simp add: segment_decision_refuses)
  with assms Suc have "first_verdict ?vs = Inr None" by (auto split: sum.splits option.splits simp: refuses_def)
  with first_verdict_None [OF this] Suc show ?thesis by auto
qed

lemma segment_allowed:
  assumes "segment_decision n g wd ev seg = Inr None"
  shows "irreversible_system_decision (ge_user g) (unwrap_segment seg) wd = None"
    "nested_shell_decision ev seg = Inr None" "git_decision g seg wd = Inr None" "publication_decision n seg = Inr None"
proof -
  let ?vs = "[dangerous_decision n seg, return (irreversible_system_decision (ge_user g) (unwrap_segment seg) wd),
    registry_redirect_decision g seg wd, nested_shell_decision ev seg, return (st_done_task_decision g seg),
    git_decision g seg wd, return (retired_vcs_decision g seg wd), publication_decision n seg]"
  have "\<forall>v\<in>set ?vs. v = Inr None" using first_verdict_None [OF assms [unfolded segment_decision_def]] by blast
  then show "irreversible_system_decision (ge_user g) (unwrap_segment seg) wd = None"
    "nested_shell_decision ev seg = Inr None" "git_decision g seg wd = Inr None" "publication_decision n seg = Inr None"
    by simp_all
qed

lemma allowed_segment:
  assumes "evaluate_shell_command n g c cwd = Inr d" "\<not> d_blocked d" "working_directory g cwd = Inr wd"
    and "seg \<in> set (split_shell_segments c)"
  obtains m where "segment_decision m g wd (\<lambda>nested. evaluate_shell_command m g nested (Some wd)) seg = Inr None"
  using allowed_segments [OF assms(1-3)] assms(4) by blast

lemma git_allowed:
  assumes "git_decision g seg wd = Inr None" "cg_git_invocation g seg wd = Inr (Some (sub, args, dir))"
  shows "git_managed_decision g sub args (repo_root g dir) (normalize_segment seg) = Inr None"
    "sub \<in> set [''reset'', ''clean'', ''push'', ''stash''] \<Longrightarrow> irreversible_git_decision sub args (normalize_segment seg) True = None"
proof -
  let ?i = "if sub \<in> set [''reset'', ''clean'', ''push'', ''stash''] then irreversible_git_decision sub args (normalize_segment seg) True else None"
  have v: "(case ?i of Some d \<Rightarrow> return (Some d) | None \<Rightarrow> git_managed_decision g sub args (repo_root g dir) (normalize_segment seg)) = Inr None"
    using assms unfolding git_decision_def Let_def by (simp only: sum.case option.case prod.case)
  then have none: "?i = None" by (cases ?i) (simp_all only: option.case, simp)
  with v show "git_managed_decision g sub args (repo_root g dir) (normalize_segment seg) = Inr None" by (simp only: option.case)
  assume "sub \<in> set [''reset'', ''clean'', ''push'', ''stash'']"
  with none show "irreversible_git_decision sub args (normalize_segment seg) True = None" by (simp only: if_True)
qed

lemma offends_blocked:
  assumes "offends g wd c" "working_directory g cwd = Inr wd" "evaluate_shell_command n g c cwd = Inr d"
  shows "d_blocked d"
  using assms
proof (induction arbitrary: cwd n d rule: offends.induct)
  case (system seg c wd)
  show ?case
  proof (rule ccontr)
    assume "\<not> d_blocked d"
    from allowed_segment [OF system(4) this system(3,1)] obtain m where
      "segment_decision m g wd (\<lambda>nested. evaluate_shell_command m g nested (Some wd)) seg = Inr None" .
    with system(2) show False by (simp add: segment_allowed(1))
  qed
next
  case (git seg c wd sub args dir)
  show ?case
  proof (rule ccontr)
    assume "\<not> d_blocked d"
    from allowed_segment [OF git(6) this git(5,1)] have "git_decision g seg wd = Inr None"
      by (auto dest: segment_allowed(3))
    from git_allowed(2) [OF this git(2,3)] git(4) show False by simp
  qed
next
  case (publication seg c wd)
  show ?case
  proof (rule ccontr)
    assume "\<not> d_blocked d"
    from allowed_segment [OF publication(4) this publication(3,1)] obtain m where
      "segment_decision m g wd (\<lambda>nested. evaluate_shell_command m g nested (Some wd)) seg = Inr None" .
    then have "publication_decision m seg = Inr None" by (rule segment_allowed(4))
    then obtain p where "evaluate_publication_command m (normalize_segment seg) = Inr p" "\<not> d_blocked p"
      by (auto simp: publication_decision_def split: sum.splits if_splits)
    with reaches_publication_blocked [OF publication(2)] show False by blast
  qed
next
  case (owned seg c wd sub args dir root p)
  show ?case
  proof (rule ccontr)
    assume "\<not> d_blocked d"
    from allowed_segment [OF owned(8) this owned(7,1)] have "git_decision g seg wd = Inr None"
      by (auto dest: segment_allowed(3))
    from git_managed_paths [OF git_allowed(1) [OF this owned(2)] owned(4)] obtain ps where
      "path_conflict_fn g (Some root) ps (normalize_segment seg) = Inr None" "p \<in> set ps" using owned(3) by auto
    from path_conflict_refused [OF this owned(5)] owned(6) show False by simp
  qed
next
  case (nested seg c x args c' wd wd')
  show ?case
  proof (rule ccontr)
    assume "\<not> d_blocked d"
    from allowed_segment [OF nested(10) this nested(9,1)] obtain m where
      "segment_decision m g wd (\<lambda>nested. evaluate_shell_command m g nested (Some wd)) seg = Inr None" .
    then have m: "nested_shell_decision (\<lambda>t. evaluate_shell_command m g t (Some wd)) seg = Inr None" by (rule segment_allowed(2))
    have "truthy (shell_exec_args args) = Some c'" using nested(4,5) by (simp add: truthy_def)
    with m nested(2,3) obtain d' where "evaluate_shell_command m g c' (Some wd) = Inr d'" "\<not> d_blocked d'"
      by (auto simp: nested_shell_decision_def if_refused_def split: sum.splits if_splits)
    with nested.IH [OF nested(6)] show False by blast
  qed
qed



section \<open>Ownership\<close>

text \<open>
  The destructive path guard refuses exactly when it must: some normalised target path is
  named, and a session with another id that works in the same checkout either writes one of the
  targets or has a scope nobody knows.
\<close>

theorem destruction_blocked_exactly:
  "gd_blocked (evaluate_destructive_paths su root paths sessions project current) \<longleftrightarrow>
     normalize_scope_values (JList (map JStr paths)) \<noteq> {} \<and>
     (\<exists>s\<in>set sessions. session_checkout_root su s = Some (resolved_or_same su root)
        \<and> (\<exists>i. get s ''id'' = JStr i \<and> i \<noteq> [] \<and> resolve_current_session_id su current \<noteq> Some i)
        \<and> (case load_live_lane_scope su s (derive_task_id s) of
             None \<Rightarrow> True
           | Some scope \<Rightarrow> normalize_scope_values (JList (map JStr paths)) \<inter> ls_write scope \<noteq> {}))"
  by (auto simp: evaluate_blocked_iff other_session_def claims_paths_def split: option.splits)

text \<open>
  Ownership that cannot be established refuses: when the inventory of live sessions cannot be
  read for the project of the repository, a git command that names paths to destroy is denied.
\<close>

theorem unknown_ownership_refuses:
  assumes "normalize_repo_paths g root raws = Inr ps" "scope_paths_of ps \<noteq> []"
    and "resolve_project_id (ge_around g) (resolved_or_same (ge_around g) root) = Some project" "project \<noteq> []"
    and "su_inventory (ge_around g) project = Inl err"
  shows "check_path_conflicts g root raws t =
    Inr (Some (deny ''ownership_error'' (''Failed to verify live ownership for project '' @ project @ '': '' @ err) ''ownership'' t))"
proof -
  have "set_value (Some project) = Some project" "set_value None = None"
    using assms(4) by (auto simp: set_value_def split: list.splits)
  then have "check_destructive_paths (ge_around g) root ps None None =
      Inl (''Failed to verify live ownership for project '' @ project @ '': '' @ err)"
    using assms(2-5) by (simp add: check_destructive_paths_def Let_def)
  moreover have "ps \<noteq> []" using assms(2) by (auto simp: scope_paths_of_def normalize_scope_values_def)
  ultimately show ?thesis using assms(1) by (simp add: check_path_conflicts_def)
qed

definition dark_guard :: guard_env where
  "dark_guard = sample_guard\<lparr>ge_around := (ge_around sample_guard)\<lparr>su_inventory := (\<lambda>_. Inl ''timeout'')\<rparr>\<rparr>"

theorem unknown_ownership_refuses_witness:
  "check_path_conflicts dark_guard ''/srv/projects/app'' [''src/a.py''] ''t'' =
    Inr (Some (deny ''ownership_error'' (''Failed to verify live ownership for project '' @ ''app'' @ '': '' @ ''timeout'') ''ownership'' ''t''))"
proof (rule unknown_ownership_refuses)
  show "normalize_repo_paths dark_guard ''/srv/projects/app'' [''src/a.py''] = Inr [''src/a.py'']" "scope_paths_of [''src/a.py''] \<noteq> []"
    "resolve_project_id (ge_around dark_guard) (resolved_or_same (ge_around dark_guard) ''/srv/projects/app'') = Some ''app''"
    "''app'' \<noteq> []" by code_simp+
  show "su_inventory (ge_around dark_guard) ''app'' = Inl ''timeout''" by (simp add: dark_guard_def)
qed

text \<open>
  Only the exact spelling of an owned path is guarded. Another live session declares
  src/a.py: removing the file by that name is denied, but removing its whole directory, or
  removing it from inside the directory, is allowed.
\<close>

theorem owned_directory_not_guarded:
  "(\<exists>d. git_decision sample_guard [''git'', ''rm'', ''src/a.py''] ''/srv/projects/app'' = Inr (Some d) \<and> d_code d = Some ''ownership_conflict'')
   \<and> git_decision sample_guard [''git'', ''rm'', ''-r'', ''src''] ''/srv/projects/app'' = Inr None
   \<and> git_decision sample_guard [''git'', ''-C'', ''src'', ''rm'', ''a.py''] ''/srv/projects/app'' = Inr None"
proof (intro conjI)
  have "case git_decision sample_guard [''git'', ''rm'', ''src/a.py''] ''/srv/projects/app'' of
      Inr (Some d) \<Rightarrow> d_code d = Some ''ownership_conflict'' | _ \<Rightarrow> False" by code_simp
  then show "\<exists>d. git_decision sample_guard [''git'', ''rm'', ''src/a.py''] ''/srv/projects/app'' = Inr (Some d) \<and> d_code d = Some ''ownership_conflict''"
    by (auto split: sum.splits option.splits)
  show "git_decision sample_guard [''git'', ''rm'', ''-r'', ''src''] ''/srv/projects/app'' = Inr None"
    "git_decision sample_guard [''git'', ''-C'', ''src'', ''rm'', ''a.py''] ''/srv/projects/app'' = Inr None" by code_simp+
qed

end
