(* ===== verification/AutomationDispatch.thy ===== *)
theory AutomationDispatch
  imports Json
begin

text \<open>
  Durable receipts of automation dispatches (\<open>backend/app/storage/automation_dispatches.py\<close>).
  The table is the list of its rows by run id; every operation is one transaction that
  takes the transaction's time and returns its result with the new table. An operation
  that raises leaves the table unchanged, since its connection is rolled back.
\<close>

datatype run_status = Pending | Queued | Running | Waiting | Succeeded | Failed | Skipped | Cancelled

type_synonym control = "(string \<times> json) list"

record envelope =
  e_run_id :: string
  e_profile_id :: string
  e_project_id :: string
  e_workflow_key :: string
  e_definition_version :: int
  e_profile_revision :: int
  e_occurrence_key :: string
  e_trigger :: string
  e_scheduled_for :: string
  e_extra :: "(string \<times> json) list"

record receipt =
  request_payload :: envelope
  owner_run_id :: string
  status :: run_status
  worker_run_id :: "string option"
  result_doc :: "json option"
  error_text :: "string option"
  completion_reported_at :: "int option"
  created_at :: int
  updated_at :: int
  completed_at :: "int option"
  control_action :: "control option"
  control_history :: "(string \<times> control) list"

type_synonym receipts = "(string \<times> receipt) list"

datatype dispatch_error =
    CheckViolation
  | UniqueViolation
  | DifferentEnvelope
  | ReceiptDisappeared
  | UnsupportedStatus string
  | NotOwned
  | BrowserNotOwned
  | UnboundedKey
  | NoSuchBrowserRun string
  | KeyReused
  | NoCheckpoint

definition WORKFLOW_KEYS :: "string list" where
  "WORKFLOW_KEYS = [''work_pickup'', ''task_generation'', ''browser_workflow'']"

definition TERMINAL :: "run_status list" where
  "TERMINAL = [Succeeded, Failed, Skipped, Cancelled]"

definition terminal_of :: "string \<Rightarrow> run_status option" where
  "terminal_of s =
     map_of [(''succeeded'', Succeeded), (''failed'', Failed), (''skipped'', Skipped), (''cancelled'', Cancelled)] s"

definition is_cancel :: "control \<Rightarrow> bool" where
  "is_cancel c \<longleftrightarrow> map_of c ''action'' = Some (JStr ''cancel'')"

definition cancel_requested :: "receipt \<Rightarrow> bool" where
  "cancel_requested r \<longleftrightarrow> (case control_action r of Some c \<Rightarrow> is_cancel c | None \<Rightarrow> False)"

definition workflow_key :: "receipt \<Rightarrow> string" where
  "workflow_key r = e_workflow_key (request_payload r)"

section \<open>Operations\<close>

definition get_automation_run :: "string \<Rightarrow> receipts \<Rightarrow> receipt option" where
  "get_automation_run run_id db = map_of db run_id"

definition list_pending_automation_runs :: "int \<Rightarrow> nat \<Rightarrow> receipts \<Rightarrow> receipt list" where
  "list_pending_automation_runs now limit db =
     take limit (sort_key created_at (filter (\<lambda>r. status r = Pending \<and> updated_at r < now - 60) (map snd db)))"

definition list_browser_cancellation_requests :: "nat \<Rightarrow> receipts \<Rightarrow> receipt list" where
  "list_browser_cancellation_requests limit db =
     take limit (sort_key updated_at
       (filter (\<lambda>r. workflow_key r = ''browser_workflow'' \<and> status r = Running \<and> cancel_requested r) (map snd db)))"

definition defer_pending_automation_run :: "int \<Rightarrow> string \<Rightarrow> receipts \<Rightarrow> receipts" where
  "defer_pending_automation_run now run_id db =
     (case map_of db run_id of
        Some r \<Rightarrow> if status r = Pending then dict_set run_id (r\<lparr>updated_at := now\<rparr>) db else db
      | None \<Rightarrow> db)"

definition new_receipt :: "int \<Rightarrow> envelope \<Rightarrow> string \<Rightarrow> receipt" where
  "new_receipt now payload owner =
     \<lparr>request_payload = payload, owner_run_id = owner, status = Pending, worker_run_id = None,
      result_doc = None, error_text = None, completion_reported_at = None,
      created_at = now, updated_at = now, completed_at = None,
      control_action = None, control_history = []\<rparr>"

text \<open>
  The column \<open>owner_run_id\<close> carries a unique constraint; the check constraints of the
  table are tested before the conflict on the primary key.
\<close>

definition create_or_get_automation_run ::
  "int \<Rightarrow> envelope \<Rightarrow> string \<Rightarrow> receipts \<Rightarrow> (dispatch_error, receipt) result \<times> receipts" where
  "create_or_get_automation_run now payload owner db =
     (let run_id = e_run_id payload in
      if e_workflow_key payload \<notin> set WORKFLOW_KEYS \<or> e_definition_version payload \<le> 0 \<or> e_profile_revision payload \<le> 0
      then (raise CheckViolation, db)
      else (case map_of db run_id of
              Some r \<Rightarrow>
                (if request_payload r \<noteq> payload then (raise DifferentEnvelope, db) else (return r, db))
            | None \<Rightarrow>
                (if owner \<in> set (map (owner_run_id \<circ> snd) db) then (raise UniqueViolation, db)
                 else (return (new_receipt now payload owner), dict_set run_id (new_receipt now payload owner) db))))"

definition mark_automation_run_queued ::
  "int \<Rightarrow> string \<Rightarrow> receipts \<Rightarrow> (dispatch_error, receipt) result \<times> receipts" where
  "mark_automation_run_queued now run_id db =
     (case map_of db run_id of
        None \<Rightarrow> (raise ReceiptDisappeared, db)
      | Some r \<Rightarrow>
          if status r = Pending
          then let r' = r\<lparr>status := Queued, updated_at := now\<rparr> in (return r', dict_set run_id r' db)
          else (return r, db))"

definition claimable :: "string \<Rightarrow> receipt \<Rightarrow> bool" where
  "claimable worker r \<longleftrightarrow>
     status r \<in> set [Pending, Queued] \<or> (status r = Running \<and> worker_run_id r = Some worker)"

definition claim_automation_run ::
  "int \<Rightarrow> string \<Rightarrow> string \<Rightarrow> receipts \<Rightarrow> receipt option \<times> receipts" where
  "claim_automation_run now run_id worker db =
     (case map_of db run_id of
        None \<Rightarrow> (None, db)
      | Some r \<Rightarrow>
          if claimable worker r
          then let r' = r\<lparr>status := Running, worker_run_id := Some worker, updated_at := now\<rparr>
               in (Some r', dict_set run_id r' db)
          else (None, db))"

definition finish_automation_run ::
  "int \<Rightarrow> string \<Rightarrow> string \<Rightarrow> string \<Rightarrow> json option \<Rightarrow> string option \<Rightarrow> receipts \<Rightarrow>
     (dispatch_error, receipt) result \<times> receipts" where
  "finish_automation_run now run_id worker st res err db =
     (case terminal_of st of
        None \<Rightarrow> (raise (UnsupportedStatus st), db)
      | Some final \<Rightarrow>
          (case map_of db run_id of
             None \<Rightarrow> (raise NotOwned, db)
           | Some r \<Rightarrow>
               if status r \<noteq> Running \<or> worker_run_id r \<noteq> Some worker then (raise NotOwned, db)
               else let pending_cancel = (cancel_requested r \<and> final \<in> set [Failed, Skipped]);
                        r' = r\<lparr>status := (if pending_cancel then Pending else final), result_doc := res, error_text := err,
                               control_action := (if pending_cancel then control_action r else None),
                               worker_run_id := (if pending_cancel then None else Some worker),
                               completed_at := (if pending_cancel then None else Some now), updated_at := now\<rparr>
                    in (return r', dict_set run_id r' db)))"

definition wait_automation_run ::
  "int \<Rightarrow> string \<Rightarrow> string \<Rightarrow> json \<Rightarrow> receipts \<Rightarrow> (dispatch_error, receipt) result \<times> receipts" where
  "wait_automation_run now run_id worker res db =
     (case map_of db run_id of
        None \<Rightarrow> (raise BrowserNotOwned, db)
      | Some r \<Rightarrow>
          if workflow_key r = ''browser_workflow'' \<and> status r = Running \<and> worker_run_id r = Some worker
          then let r' = r\<lparr>status := (if cancel_requested r then Pending else Waiting),
                          worker_run_id := None, result_doc := Some res,
                          control_action := (if cancel_requested r then control_action r else None),
                          updated_at := now\<rparr>
               in (return r', dict_set run_id r' db)
          else (raise BrowserNotOwned, db))"

definition control_key :: "control \<Rightarrow> string option" where
  "control_key c =
     (case map_of c ''idempotency_key'' of
        Some (JStr k) \<Rightarrow> if k = [] \<or> length k > 200 then None else Some k
      | _ \<Rightarrow> None)"

definition cancelled_before :: json where
  "cancelled_before = JObj [(''status'', JStr ''cancelled''), (''reason'', JStr ''cancelled_before_execution'')]"

definition apply_control :: "int \<Rightarrow> control \<Rightarrow> string \<Rightarrow> receipt \<Rightarrow> receipt option" where
  "apply_control now c key r =
     (let history = dict_set key c (control_history r);
          is_queued_cancel = (is_cancel c \<and> status r \<in> set [Pending, Queued]);
          is_running_cancel = (is_cancel c \<and> status r = Running)
      in if status r \<noteq> Waiting \<and> \<not> is_queued_cancel \<and> \<not> is_running_cancel then None
         else if is_running_cancel
         then Some (r\<lparr>control_action := Some c, control_history := history, updated_at := now\<rparr>)
         else if is_queued_cancel \<and> result_doc r = None \<and> control_action r = None
         then Some (r\<lparr>status := Cancelled, control_history := history, result_doc := Some cancelled_before,
                      completed_at := Some now, updated_at := now\<rparr>)
         else Some (r\<lparr>status := Pending, worker_run_id := None, control_action := Some c,
                      control_history := history, updated_at := now\<rparr>))"

definition request_browser_workflow_control ::
  "int \<Rightarrow> string \<Rightarrow> control \<Rightarrow> receipts \<Rightarrow> (dispatch_error, receipt) result \<times> receipts" where
  "request_browser_workflow_control now run_id c db =
     (case control_key c of
        None \<Rightarrow> (raise UnboundedKey, db)
      | Some key \<Rightarrow>
          (case map_of db run_id of
             None \<Rightarrow> (raise (NoSuchBrowserRun run_id), db)
           | Some r \<Rightarrow>
               if workflow_key r \<noteq> ''browser_workflow'' then (raise (NoSuchBrowserRun run_id), db)
               else (case map_of (control_history r) key of
                       Some c' \<Rightarrow> (if c' \<noteq> c then (raise KeyReused, db) else (return r, db))
                     | None \<Rightarrow>
                         (case apply_control now c key r of
                            None \<Rightarrow> (raise NoCheckpoint, db)
                          | Some r' \<Rightarrow> (return r', dict_set run_id r' db)))))"

definition mark_automation_completion_reported :: "int \<Rightarrow> string \<Rightarrow> receipts \<Rightarrow> receipts" where
  "mark_automation_completion_reported now run_id db =
     (case map_of db run_id of
        Some r \<Rightarrow>
          if status r \<in> set TERMINAL
          then dict_set run_id (r\<lparr>completion_reported_at := Some now, updated_at := now\<rparr>) db else db
      | None \<Rightarrow> db)"

section \<open>The table as a state machine\<close>

text \<open>
  One call by any process, with any arguments, at any time. Transactions of concurrent
  processes are serialised by the row locks, so a history is a sequence of such calls.
\<close>

datatype dispatch_op =
    Defer string
  | Create envelope string
  | MarkQueued string
  | Claim string string
  | Finish string string string "json option" "string option"
  | Wait string string json
  | Control string control
  | Reported string

fun dispatch_exec :: "int \<Rightarrow> dispatch_op \<Rightarrow> receipts \<Rightarrow> receipts" where
  "dispatch_exec now (Defer i) db = defer_pending_automation_run now i db"
| "dispatch_exec now (Create payload owner) db = snd (create_or_get_automation_run now payload owner db)"
| "dispatch_exec now (MarkQueued i) db = snd (mark_automation_run_queued now i db)"
| "dispatch_exec now (Claim i w) db = snd (claim_automation_run now i w db)"
| "dispatch_exec now (Finish i w st res err) db = snd (finish_automation_run now i w st res err db)"
| "dispatch_exec now (Wait i w res) db = snd (wait_automation_run now i w res db)"
| "dispatch_exec now (Control i c) db = snd (request_browser_workflow_control now i c db)"
| "dispatch_exec now (Reported i) db = mark_automation_completion_reported now i db"

inductive dispatch_step :: "receipts \<Rightarrow> dispatch_op \<Rightarrow> receipts \<Rightarrow> bool" where
  "dispatch_exec now opn db = db' \<Longrightarrow> dispatch_step db opn db'"

inductive_cases dispatch_stepE: "dispatch_step db opn db'"

inductive dispatch_reachable :: "receipts \<Rightarrow> bool" where
  empty: "dispatch_reachable []"
| step: "dispatch_reachable db \<Longrightarrow> dispatch_step db opn db' \<Longrightarrow> dispatch_reachable db'"

text \<open>The same on one row: how a single call changes the receipt of one run, if at all.\<close>

inductive row_step :: "int \<Rightarrow> dispatch_op \<Rightarrow> receipt \<Rightarrow> receipt \<Rightarrow> bool" where
  deferred: "status r = Pending \<Longrightarrow> row_step now (Defer i) r (r\<lparr>updated_at := now\<rparr>)"
| queued: "status r = Pending \<Longrightarrow> row_step now (MarkQueued i) r (r\<lparr>status := Queued, updated_at := now\<rparr>)"
| claim: "claimable w r \<Longrightarrow>
    row_step now (Claim i w) r (r\<lparr>status := Running, worker_run_id := Some w, updated_at := now\<rparr>)"
| finish: "terminal_of st = Some final \<Longrightarrow> status r = Running \<Longrightarrow> worker_run_id r = Some w \<Longrightarrow>
    \<not> (cancel_requested r \<and> final \<in> {Failed, Skipped}) \<Longrightarrow>
    row_step now (Finish i w st res err) r
      (r\<lparr>status := final, result_doc := res, error_text := err, control_action := None,
         worker_run_id := Some w, completed_at := Some now, updated_at := now\<rparr>)"
| requeue: "terminal_of st = Some final \<Longrightarrow> status r = Running \<Longrightarrow> worker_run_id r = Some w \<Longrightarrow>
    cancel_requested r \<Longrightarrow> final \<in> {Failed, Skipped} \<Longrightarrow>
    row_step now (Finish i w st res err) r
      (r\<lparr>status := Pending, result_doc := res, error_text := err, worker_run_id := None,
         completed_at := None, updated_at := now\<rparr>)"
| wait: "workflow_key r = ''browser_workflow'' \<Longrightarrow> status r = Running \<Longrightarrow> worker_run_id r = Some w \<Longrightarrow>
    \<not> cancel_requested r \<Longrightarrow>
    row_step now (Wait i w res) r
      (r\<lparr>status := Waiting, worker_run_id := None, result_doc := Some res, control_action := None, updated_at := now\<rparr>)"
| wait_cancel: "workflow_key r = ''browser_workflow'' \<Longrightarrow> status r = Running \<Longrightarrow> worker_run_id r = Some w \<Longrightarrow>
    cancel_requested r \<Longrightarrow>
    row_step now (Wait i w res) r
      (r\<lparr>status := Pending, worker_run_id := None, result_doc := Some res, updated_at := now\<rparr>)"
| control: "control_key c = Some key \<Longrightarrow> workflow_key r = ''browser_workflow'' \<Longrightarrow>
    map_of (control_history r) key = None \<Longrightarrow> apply_control now c key r = Some r' \<Longrightarrow> row_step now (Control i c) r r'"
| reported: "status r \<in> set TERMINAL \<Longrightarrow>
    row_step now (Reported i) r (r\<lparr>completion_reported_at := Some now, updated_at := now\<rparr>)"

end
