(* ===== verification/ExclusiveClaims.thy ===== *)
theory ExclusiveClaims
  imports Prelude
begin

text \<open>
  The contract shared by every claim of the program (automation runs, tasks, path leases):
  a state says who holds a key; a claim either is refused or makes the claimant the
  holder, it is refused while somebody else holds the key, and it touches no other key.
  The consequences for races are proved once here.
\<close>

text \<open>A race: claim attempts one after the other, each with its time; the winners in order and the final state.\<close>

fun race ::
  "('t \<Rightarrow> 'w \<Rightarrow> 'k \<Rightarrow> 's \<Rightarrow> 's option) \<Rightarrow> 'k \<Rightarrow> ('t \<times> 'w) list \<Rightarrow> 's \<Rightarrow> 'w list \<times> 's" where
  "race claim k [] s = ([], s)"
| "race claim k ((t, w) # ws) s =
     (case claim t w k s of
        None \<Rightarrow> race claim k ws s
      | Some s' \<Rightarrow> (w # fst (race claim k ws s'), snd (race claim k ws s')))"

locale exclusive_claims =
  fixes holder :: "'s \<Rightarrow> 'k \<Rightarrow> 'w option"
    and claim :: "'t \<Rightarrow> 'w \<Rightarrow> 'k \<Rightarrow> 's \<Rightarrow> 's option"
  assumes claim_holds: "claim t w k s = Some s' \<Longrightarrow> holder s' k = Some w"
    and claim_refused: "holder s k = Some v \<Longrightarrow> v \<noteq> w \<Longrightarrow> claim t w k s = None"
    and claim_frame: "claim t w k s = Some s' \<Longrightarrow> j \<noteq> k \<Longrightarrow> holder s' j = holder s j"
begin

lemma race_held: "holder s k = Some v \<Longrightarrow> set (fst (race claim k ws s)) \<subseteq> {v} \<and> holder (snd (race claim k ws s)) k = Some v"
proof (induction ws arbitrary: s)
  case (Cons a ws)
  obtain t w where a: "a = (t, w)" by (cases a)
  show ?case
  proof (cases "claim t w k s")
    case None
    with Cons a show ?thesis by simp
  next
    case (Some s')
    with claim_refused [OF Cons.prems, of w t] have "w = v" by auto
    moreover from this claim_holds [OF Some] have "holder s' k = Some v" by simp
    ultimately show ?thesis using Cons.IH [of s'] a Some by auto
  qed
qed simp

lemma race_one_winner: "x \<in> set (fst (race claim k ws s)) \<Longrightarrow> y \<in> set (fst (race claim k ws s)) \<Longrightarrow> x = y"
proof (induction ws arbitrary: s)
  case (Cons a ws)
  obtain t w where a: "a = (t, w)" by (cases a)
  show ?case
  proof (cases "claim t w k s")
    case None
    with Cons a show ?thesis by simp
  next
    case (Some s')
    from race_held [OF claim_holds [OF Some]] Cons.prems a Some show ?thesis by auto
  qed
qed simp

lemma race_winner_holds: "x \<in> set (fst (race claim k ws s)) \<Longrightarrow> holder (snd (race claim k ws s)) k = Some x"
proof (induction ws arbitrary: s)
  case (Cons a ws)
  obtain t w where a: "a = (t, w)" by (cases a)
  show ?case
  proof (cases "claim t w k s")
    case None
    with Cons a show ?thesis by simp
  next
    case (Some s')
    from race_held [OF claim_holds [OF Some]] Cons.prems a Some show ?thesis by auto
  qed
qed simp

lemma race_frame: "j \<noteq> k \<Longrightarrow> holder (snd (race claim k ws s)) j = holder s j"
proof (induction ws arbitrary: s)
  case (Cons a ws)
  obtain t w where a: "a = (t, w)" by (cases a)
  with Cons claim_frame show ?case by (auto split: option.splits)
qed simp

end

end
