(* ===== verification/DispatchFacts.thy ===== *)
theory DispatchFacts
  imports AutomationDispatch ExclusiveClaims
begin

text \<open>
  What the dispatch table guarantees over every history of calls: the invariant of its
  rows, who may change a running receipt, and that controls and creation are idempotent.
\<close>

section \<open>The invariant of a row\<close>

definition terminal :: "receipt \<Rightarrow> bool" where
  "terminal r \<longleftrightarrow> status r \<in> set TERMINAL"

lemma terminal_iff: "terminal r \<longleftrightarrow> status r = Succeeded \<or> status r = Failed \<or> status r = Skipped \<or> status r = Cancelled"
  by (auto simp: terminal_def TERMINAL_def)

text \<open>A worker is recorded exactly while it runs or has finished, and completion times belong to final states.\<close>

definition worker_ok :: "receipt \<Rightarrow> bool" where
  "worker_ok r \<longleftrightarrow>
     (status r = Running \<longrightarrow> worker_run_id r \<noteq> None) \<and>
     (status r \<in> {Pending, Queued, Waiting} \<longrightarrow> worker_run_id r = None)"

definition completion_ok :: "receipt \<Rightarrow> bool" where
  "completion_ok r \<longleftrightarrow>
     (completed_at r \<noteq> None \<longleftrightarrow> terminal r) \<and> (completion_reported_at r \<noteq> None \<longrightarrow> terminal r)"

text \<open>A parked run shows its checkpoint; an outstanding control is recorded in the history under its key.\<close>

definition control_ok :: "receipt \<Rightarrow> bool" where
  "control_ok r \<longleftrightarrow>
     (status r = Waiting \<longrightarrow> control_action r = None \<and> result_doc r \<noteq> None) \<and>
     (control_action r \<noteq> None \<or> status r = Waiting \<longrightarrow> workflow_key r = ''browser_workflow'') \<and>
     (terminal r \<longrightarrow> control_action r = None) \<and>
     (\<forall>c. control_action r = Some c \<longrightarrow> (\<exists>k. control_key c = Some k \<and> map_of (control_history r) k = Some c))"

definition row_inv :: "receipt \<Rightarrow> bool" where
  "row_inv r \<longleftrightarrow> worker_ok r \<and> completion_ok r \<and> control_ok r"

lemma terminal_of_status: "terminal_of st = Some f \<Longrightarrow> f \<in> {Succeeded, Failed, Skipped, Cancelled}"
  by (auto simp: terminal_of_def split: if_splits)

lemma new_receipt_inv: "row_inv (new_receipt now p owner)"
  by (simp add: row_inv_def worker_ok_def completion_ok_def control_ok_def terminal_iff new_receipt_def)

lemma workflow_key_update [simp]:
  "workflow_key (r\<lparr>status := a\<rparr>) = workflow_key r" "workflow_key (r\<lparr>worker_run_id := b\<rparr>) = workflow_key r"
  "workflow_key (r\<lparr>result_doc := c\<rparr>) = workflow_key r" "workflow_key (r\<lparr>error_text := d\<rparr>) = workflow_key r"
  "workflow_key (r\<lparr>control_action := e\<rparr>) = workflow_key r" "workflow_key (r\<lparr>control_history := f\<rparr>) = workflow_key r"
  "workflow_key (r\<lparr>updated_at := t\<rparr>) = workflow_key r" "workflow_key (r\<lparr>completed_at := g\<rparr>) = workflow_key r"
  "workflow_key (r\<lparr>completion_reported_at := h\<rparr>) = workflow_key r"
  by (simp_all add: workflow_key_def)

text \<open>The three ways a control changes a receipt.\<close>

lemma apply_controlE:
  assumes "apply_control now c key r = Some r'"
  obtains (running) "status r = Running" "is_cancel c"
      "r' = r\<lparr>control_action := Some c, control_history := dict_set key c (control_history r), updated_at := now\<rparr>"
  | (unstarted) "status r = Pending \<or> status r = Queued" "is_cancel c" "result_doc r = None" "control_action r = None"
      "r' = r\<lparr>status := Cancelled, control_history := dict_set key c (control_history r),
               result_doc := Some cancelled_before, completed_at := Some now, updated_at := now\<rparr>"
  | (resumed) "status r = Waiting \<or> status r = Pending \<or> status r = Queued"
      "r' = r\<lparr>status := Pending, worker_run_id := None, control_action := Some c,
               control_history := dict_set key c (control_history r), updated_at := now\<rparr>"
  using assms unfolding apply_control_def Let_def by (auto split: if_splits)

lemma worker_ok_step: "row_step now opn r r' \<Longrightarrow> worker_ok r \<Longrightarrow> worker_ok r'"
proof (induction rule: row_step.induct)
  case (control c key r now r' i)
  from control.hyps(4) control.prems show ?case by (cases rule: apply_controlE) (auto simp: worker_ok_def)
qed (auto simp: worker_ok_def TERMINAL_def dest: terminal_of_status)

lemma completion_ok_step: "row_step now opn r r' \<Longrightarrow> completion_ok r \<Longrightarrow> completion_ok r'"
proof (induction rule: row_step.induct)
  case (control c key r now r' i)
  from control.hyps(4) control.prems show ?case
    by (cases rule: apply_controlE) (auto simp: completion_ok_def terminal_iff)
qed (auto simp: completion_ok_def terminal_iff TERMINAL_def claimable_def dest: terminal_of_status)

lemma control_ok_step: "row_step now opn r r' \<Longrightarrow> control_ok r \<Longrightarrow> control_ok r'"
proof (induction rule: row_step.induct)
  case (control c key r now r' i)
  from control.hyps(4) control.prems control.hyps(1,2) show ?case
    by (cases rule: apply_controlE) (auto simp: control_ok_def terminal_iff)
qed (auto simp: control_ok_def terminal_iff TERMINAL_def claimable_def cancel_requested_def
      dest: terminal_of_status split: option.splits)

lemma row_inv_step: "row_step now opn r r' \<Longrightarrow> row_inv r \<Longrightarrow> row_inv r'"
  by (simp add: row_inv_def worker_ok_step completion_ok_step control_ok_step)

text \<open>What no call may change: the admitted envelope, its owner run, its creation time.\<close>

definition same_identity :: "receipt \<Rightarrow> receipt \<Rightarrow> bool" where
  "same_identity r r' \<longleftrightarrow>
     request_payload r' = request_payload r \<and> owner_run_id r' = owner_run_id r \<and> created_at r' = created_at r"

lemma same_identity_refl [simp]: "same_identity r r"
  by (simp add: same_identity_def)

lemma row_step_identity: "row_step now opn r r' \<Longrightarrow> same_identity r r'"
proof (induction rule: row_step.induct)
  case (control c key r now r' i)
  from control.hyps(4) show ?case by (cases rule: apply_controlE) (auto simp: same_identity_def)
qed (simp_all add: same_identity_def)

definition same_outcome :: "receipt \<Rightarrow> receipt \<Rightarrow> bool" where
  "same_outcome r r' \<longleftrightarrow>
     status r' = status r \<and> worker_run_id r' = worker_run_id r \<and> result_doc r' = result_doc r \<and>
     error_text r' = error_text r \<and> completed_at r' = completed_at r \<and> control_action r' = control_action r"

lemma row_step_terminal: "row_step now opn r r' \<Longrightarrow> terminal r \<Longrightarrow> same_outcome r r'"
proof (induction rule: row_step.induct)
  case (control c key r now r' i)
  from control.hyps(4) control.prems show ?case by (cases rule: apply_controlE) (auto simp: terminal_iff)
qed (auto simp: terminal_iff same_outcome_def claimable_def)

section \<open>The invariant of the table\<close>

definition table_inv :: "receipts \<Rightarrow> bool" where
  "table_inv db \<longleftrightarrow>
     distinct (map fst db) \<and> distinct (map (owner_run_id \<circ> snd) db) \<and>
     (\<forall>i r. map_of db i = Some r \<longrightarrow> row_inv r \<and> e_run_id (request_payload r) = i)"

lemma dict_set_owners:
  "map_of db i = Some r \<Longrightarrow> f r' = f r \<Longrightarrow> map (f \<circ> snd) (dict_set i r' db) = map (f \<circ> snd) db"
  by (induction db) (auto split: if_splits)

lemma dict_set_fresh: "map_of db i = None \<Longrightarrow> dict_set i r db = db @ [(i, r)]"
  by (induction db) (auto split: if_splits)

text \<open>Every call either keeps the table, replaces one row by a row step, or appends a new receipt.\<close>

lemma dispatch_exec_cases:
  obtains (kept) "dispatch_exec now opn db = db"
  | (row) i r r' where "map_of db i = Some r" "row_step now opn r r'" "dispatch_exec now opn db = dict_set i r' db"
  | (new) p owner where "map_of db (e_run_id p) = None" "owner \<notin> set (map (owner_run_id \<circ> snd) db)"
      "dispatch_exec now opn db = dict_set (e_run_id p) (new_receipt now p owner) db"
proof (cases opn)
  case (Defer j)
  show ?thesis
  proof (cases "dispatch_exec now opn db = db")
    case False
    with Defer obtain r where r: "map_of db j = Some r" "status r = Pending"
      by (auto simp: defer_pending_automation_run_def split: option.splits if_splits)
    from row [OF r(1) row_step.deferred [OF r(2), of now j, folded Defer]] r Defer show ?thesis
      by (simp add: defer_pending_automation_run_def)
  qed (rule kept)
next
  case (Create p owner)
  show ?thesis
  proof (cases "dispatch_exec now opn db = db")
    case False
    with Create have c: "map_of db (e_run_id p) = None" "owner \<notin> set (map (owner_run_id \<circ> snd) db)"
      "dispatch_exec now opn db = dict_set (e_run_id p) (new_receipt now p owner) db"
      by (auto simp: create_or_get_automation_run_def Let_def split: option.splits if_splits)
    show ?thesis by (rule new [OF c])
  qed (rule kept)
next
  case (MarkQueued j)
  show ?thesis
  proof (cases "dispatch_exec now opn db = db")
    case False
    with MarkQueued obtain r where r: "map_of db j = Some r" "status r = Pending"
      by (auto simp: mark_automation_run_queued_def Let_def split: option.splits if_splits)
    from row [OF r(1) row_step.queued [OF r(2), of now j, folded MarkQueued]] r MarkQueued show ?thesis
      by (simp add: mark_automation_run_queued_def Let_def)
  qed (rule kept)
next
  case (Claim j w)
  show ?thesis
  proof (cases "dispatch_exec now opn db = db")
    case False
    with Claim obtain r where r: "map_of db j = Some r" "claimable w r"
      by (auto simp: claim_automation_run_def Let_def split: option.splits if_splits)
    from row [OF r(1) row_step.claim [OF r(2), of now j, folded Claim]] r Claim show ?thesis
      by (simp add: claim_automation_run_def Let_def)
  qed (rule kept)
next
  case (Finish j w st res err)
  show ?thesis
  proof (cases "dispatch_exec now opn db = db")
    case False
    with Finish obtain final r where f: "terminal_of st = Some final" "map_of db j = Some r"
      and own: "status r = Running" "worker_run_id r = Some w"
      by (auto simp: finish_automation_run_def split: option.splits if_splits)
    show ?thesis
    proof (cases "cancel_requested r \<and> final \<in> {Failed, Skipped}")
      case True
      then show ?thesis
        using row [OF f(2) row_step.requeue [OF f(1) own, of now j res err, folded Finish]] f own
        by (auto simp: Finish finish_automation_run_def Let_def)
    next
      case False
      then show ?thesis
        using row [OF f(2) row_step.finish [OF f(1) own False, of now j res err, folded Finish]] f own
        by (auto simp: Finish finish_automation_run_def Let_def)
    qed
  qed (rule kept)
next
  case (Wait j w res)
  show ?thesis
  proof (cases "dispatch_exec now opn db = db")
    case False
    with Wait obtain r where r: "map_of db j = Some r" "workflow_key r = ''browser_workflow''" "status r = Running"
      "worker_run_id r = Some w"
      by (auto simp: wait_automation_run_def Let_def split: option.splits if_splits)
    show ?thesis
    proof (cases "cancel_requested r")
      case True
      with row [OF r(1) row_step.wait_cancel [OF r(2-4) True, of now j res, folded Wait]] r Wait show ?thesis
        by (simp add: wait_automation_run_def Let_def)
    next
      case False
      with row [OF r(1) row_step.wait [OF r(2-4) False, of now j res, folded Wait]] r Wait show ?thesis
        by (simp add: wait_automation_run_def Let_def)
    qed
  qed (rule kept)
next
  case (Control j c)
  show ?thesis
  proof (cases "dispatch_exec now opn db = db")
    case False
    with Control obtain k r r' where r: "map_of db j = Some r" "control_key c = Some k"
      "workflow_key r = ''browser_workflow''" "map_of (control_history r) k = None" "apply_control now c k r = Some r'"
      by (auto simp: request_browser_workflow_control_def split: option.splits if_splits)
    from row [OF r(1) row_step.control [OF r(2-5), of j, folded Control]] r Control show ?thesis
      by (simp add: request_browser_workflow_control_def)
  qed (rule kept)
next
  case (Reported j)
  show ?thesis
  proof (cases "dispatch_exec now opn db = db")
    case False
    with Reported obtain r where r: "map_of db j = Some r" "status r \<in> set TERMINAL"
      by (auto simp: mark_automation_completion_reported_def Let_def split: option.splits if_splits)
    from row [OF r(1) row_step.reported [OF r(2), of now j, folded Reported]] r Reported show ?thesis
      by (simp add: mark_automation_completion_reported_def Let_def)
  qed (rule kept)
qed

lemma dispatch_effect:
  assumes "map_of db i = Some r"
  shows "map_of (dispatch_exec now opn db) i = Some r \<or>
    (\<exists>r'. map_of (dispatch_exec now opn db) i = Some r' \<and> row_step now opn r r')"
proof (cases rule: dispatch_exec_cases [of now opn db])
  case (row j r0 r')
  with assms show ?thesis by (cases "i = j") auto
next
  case (new p owner)
  with assms show ?thesis by (cases "i = e_run_id p") auto
qed (simp add: assms)

lemma table_inv_exec: "table_inv db \<Longrightarrow> table_inv (dispatch_exec now opn db)"
proof (cases rule: dispatch_exec_cases [of now opn db])
  case kept
  assume "table_inv db"
  with kept show ?thesis by simp
next
  case (row i r r')
  assume inv: "table_inv db"
  have id: "same_identity r r'" by (rule row_step_identity [OF row(2)])
  then have own: "map (owner_run_id \<circ> snd) (dict_set i r' db) = map (owner_run_id \<circ> snd) db"
    by (intro dict_set_owners [OF row(1)]) (simp add: same_identity_def)
  from inv row id show ?thesis
    by (auto simp: table_inv_def row(3) own dict_set_distinct row_inv_step same_identity_def)
next
  case (new p owner)
  assume inv: "table_inv db"
  have "map_of db (e_run_id p) = None \<Longrightarrow> e_run_id p \<notin> fst ` set db" by (simp add: map_of_eq_None_iff)
  with inv new show ?thesis
    by (auto simp: table_inv_def dict_set_fresh new_receipt_inv [unfolded new_receipt_def] new_receipt_def map_of_append split: if_splits)
qed

lemma reachable_inv: "dispatch_reachable db \<Longrightarrow> table_inv db"
proof (induction rule: dispatch_reachable.induct)
  case empty
  then show ?case by (simp add: table_inv_def)
next
  case (step db opn db')
  from step.hyps(2) obtain now where "db' = dispatch_exec now opn db" by (auto elim: dispatch_stepE)
  with step.IH table_inv_exec show ?case by blast
qed

section \<open>Properties\<close>

text \<open>
  C9: In every table that calls can produce, run ids and owner runs are unique; a worker is
  recorded while a run is running and none while it is pending, queued or waiting; a
  completion time is recorded exactly for final runs and completion is reported only for
  them; a parked run has a checkpoint and no outstanding control; an outstanding control
  stands in the history under its own key.
\<close>

theorem dispatch_table_invariant:
  assumes "dispatch_reachable db"
  shows "distinct (map fst db) \<and> distinct (map (owner_run_id \<circ> snd) db) \<and>
    list_all (\<lambda>(i, r). worker_ok r \<and> completion_ok r \<and> control_ok r \<and> e_run_id (request_payload r) = i) db"
  using reachable_inv [OF assms]
  by (auto simp: table_inv_def row_inv_def list_all_iff)

definition sample_envelope :: envelope where
  "sample_envelope =
     \<lparr>e_run_id = ''r1'', e_profile_id = ''p'', e_project_id = ''sf'', e_workflow_key = ''browser_workflow'',
      e_definition_version = 1, e_profile_revision = 2, e_occurrence_key = ''manual'', e_trigger = ''manual'',
      e_scheduled_for = ''2026'', e_extra = []\<rparr>"

definition sample_cancel :: control where
  "sample_cancel = [(''action'', JStr ''cancel''), (''idempotency_key'', JStr ''k1'')]"

definition sample_table :: receipts where
  "sample_table =
     dispatch_exec 4 (Control ''r1'' sample_cancel) (dispatch_exec 3 (Claim ''r1'' ''w1'')
       (dispatch_exec 2 (MarkQueued ''r1'') (dispatch_exec 1 (Create sample_envelope ''o1'') [])))"

lemma reachable_exec: "dispatch_reachable db \<Longrightarrow> dispatch_reachable (dispatch_exec now opn db)"
  by (rule dispatch_reachable.step) (auto intro: dispatch_step.intros)

lemma sample_reachable: "dispatch_reachable sample_table"
  unfolding sample_table_def by (intro reachable_exec dispatch_reachable.empty)

theorem dispatch_table_invariant_witness:
  "distinct (map fst sample_table) \<and> length sample_table = 1 \<and>
   list_all (\<lambda>(i, r). worker_ok r \<and> completion_ok r \<and> control_ok r \<and> e_run_id (request_payload r) = i) sample_table"
proof -
  have "length sample_table = 1" by code_simp
  with dispatch_table_invariant [OF sample_reachable] show ?thesis by blast
qed

text \<open>
  No call changes the admitted envelope, the owner run or the creation time of a receipt,
  no receipt disappears, and once a run is final no call changes its outcome.
\<close>

theorem receipts_are_durable:
  assumes "map_of db i = Some r"
  shows "\<exists>r'. map_of (dispatch_exec now opn db) i = Some r' \<and> same_identity r r' \<and>
    (terminal r \<longrightarrow> same_outcome r r')"
  using dispatch_effect [OF assms, of now opn] row_step_identity row_step_terminal
  by (metis same_identity_refl same_outcome_def)

theorem receipts_are_durable_witness:
  "\<exists>r r'. map_of sample_table ''r1'' = Some r \<and>
     map_of (dispatch_exec 9 (Finish ''r1'' ''w1'' ''cancelled'' None None) sample_table) ''r1'' = Some r' \<and>
     same_identity r r' \<and> status r = Running \<and> status r' = Cancelled"
proof -
  let ?db = "dispatch_exec 9 (Finish ''r1'' ''w1'' ''cancelled'' None None) sample_table"
  have s: "map_option status (map_of sample_table ''r1'') = Some Running"
    "map_option status (map_of ?db ''r1'') = Some Cancelled" by code_simp+
  then obtain r where r: "map_of sample_table ''r1'' = Some r" "status r = Running" by auto
  from receipts_are_durable [OF r(1), of 9 "Finish ''r1'' ''w1'' ''cancelled'' None None"] s(2) r
  show ?thesis by auto
qed

text \<open>
  A running receipt belongs to its worker: no call of anybody else and no enqueue
  acknowledgement, control request or repeated claim takes it away or makes it anything
  but running.
\<close>

theorem running_receipt_is_fenced:
  assumes "map_of db i = Some r" and "status r = Running" and "worker_run_id r = Some w"
    and "\<And>st res err. opn \<noteq> Finish i w st res err" and "\<And>res. opn \<noteq> Wait i w res"
  shows "\<exists>r'. map_of (dispatch_exec now opn db) i = Some r' \<and> status r' = Running \<and> worker_run_id r' = Some w"
proof (cases opn)
  case (Finish j v st res err)
  show ?thesis
  proof (cases "i = j")
    case True
    with Finish assms(4) have "v \<noteq> w" by auto
    with True Finish assms(1-3) show ?thesis by (simp add: finish_automation_run_def split: option.splits)
  qed (use assms(1-3) Finish in \<open>auto simp: finish_automation_run_def Let_def split: option.splits\<close>)
next
  case (Wait j v res)
  show ?thesis
  proof (cases "i = j")
    case True
    with Wait assms(5) have "v \<noteq> w" by auto
    with True Wait assms(1-3) show ?thesis by (simp add: wait_automation_run_def)
  qed (use assms(1-3) Wait in \<open>auto simp: wait_automation_run_def Let_def split: option.splits\<close>)
next
  case (Control j c)
  show ?thesis
  proof (cases "i = j")
    case True
    with Control assms(1-3) show ?thesis
      by (auto simp: request_browser_workflow_control_def split: option.splits elim: apply_controlE)
  qed (use assms(1-3) Control in \<open>auto simp: request_browser_workflow_control_def split: option.splits\<close>)
qed (use assms(1-3) in \<open>auto simp: defer_pending_automation_run_def create_or_get_automation_run_def
      mark_automation_run_queued_def claim_automation_run_def mark_automation_completion_reported_def
      claimable_def TERMINAL_def Let_def split: option.splits\<close>)

theorem running_receipt_is_fenced_witness:
  "\<exists>r'. map_of (dispatch_exec 9 (Claim ''r1'' ''w2'') sample_table) ''r1'' = Some r' \<and>
     status r' = Running \<and> worker_run_id r' = Some ''w1''"
proof -
  have "map_option (\<lambda>r. (status r, worker_run_id r)) (map_of sample_table ''r1'') = Some (Running, Some ''w1'')"
    by code_simp
  then obtain r where "map_of sample_table ''r1'' = Some r" "status r = Running" "worker_run_id r = Some ''w1''"
    by auto
  then show ?thesis by (rule running_receipt_is_fenced) simp_all
qed

section \<open>Claims are exclusive\<close>

definition run_holder :: "receipts \<Rightarrow> string \<Rightarrow> string option" where
  "run_holder db i =
     (case map_of db i of Some r \<Rightarrow> if status r = Running then worker_run_id r else None | None \<Rightarrow> None)"

definition try_claim :: "int \<Rightarrow> string \<Rightarrow> string \<Rightarrow> receipts \<Rightarrow> receipts option" where
  "try_claim now w i db =
     (case claim_automation_run now i w db of (Some _, db') \<Rightarrow> Some db' | (None, _) \<Rightarrow> None)"

lemma try_claim_Some:
  "try_claim now w i db = Some db' \<longleftrightarrow>
     (\<exists>r. map_of db i = Some r \<and> claimable w r \<and>
          db' = dict_set i (r\<lparr>status := Running, worker_run_id := Some w, updated_at := now\<rparr>) db)"
  by (auto simp: try_claim_def claim_automation_run_def Let_def split: option.splits)

interpretation runs: exclusive_claims run_holder try_claim
proof
  show "try_claim t w k s = Some s' \<Longrightarrow> run_holder s' k = Some w" for t w k s s'
    by (auto simp: try_claim_Some run_holder_def)
  show "run_holder s k = Some v \<Longrightarrow> v \<noteq> w \<Longrightarrow> try_claim t w k s = None" for t w k s v
    by (auto simp: try_claim_def claim_automation_run_def run_holder_def claimable_def
        split: option.splits if_splits)
  show "try_claim t w k s = Some s' \<Longrightarrow> j \<noteq> k \<Longrightarrow> run_holder s' j = run_holder s j" for t w k s s' j
    by (auto simp: try_claim_Some run_holder_def)
qed

text \<open>
  C21: However many workers race to claim one run, at most one of them is told that it got
  it, that worker is the one recorded at the end, and no other run's worker changes.
\<close>

theorem claim_race_has_one_winner:
  assumes "x \<in> set (fst (race try_claim i attempts db))" and "y \<in> set (fst (race try_claim i attempts db))" and "j \<noteq> i"
  shows "x = y \<and> run_holder (snd (race try_claim i attempts db)) i = Some x \<and>
    run_holder (snd (race try_claim i attempts db)) j = run_holder db j"
  using runs.race_one_winner [OF assms(1,2)] runs.race_winner_holds [OF assms(1)] runs.race_frame [OF assms(3)]
  by blast

definition queued_table :: receipts where
  "queued_table = dispatch_exec 1 (Create sample_envelope ''o1'') []"

theorem claim_race_has_one_winner_witness:
  "run_holder (snd (race try_claim ''r1'' [(2, ''w1''), (3, ''w2''), (4, ''w1'')] queued_table)) ''r1'' = Some ''w1'' \<and>
   run_holder (snd (race try_claim ''r1'' [(2, ''w1''), (3, ''w2''), (4, ''w1'')] queued_table)) ''r2'' = run_holder queued_table ''r2''"
proof -
  have "fst (race try_claim ''r1'' [(2, ''w1''), (3, ''w2''), (4, ''w1'')] queued_table) = [''w1'', ''w1'']"
    by code_simp
  then show ?thesis
    using claim_race_has_one_winner [of "''w1''" "''r1''" "[(2, ''w1''), (3, ''w2''), (4, ''w1'')]" queued_table "''w1''" "''r2''"]
    by simp
qed

section \<open>Repeated requests\<close>

text \<open>
  Creating a run and controlling a run are idempotent: a repeated request finds what the
  first one stored, returns it and changes nothing; a create with another envelope or a
  control with another action under the same key is refused.
\<close>

theorem repeated_requests_change_nothing:
  "(case create_or_get_automation_run t p owner db of
      (Inr r, db') \<Rightarrow> create_or_get_automation_run t' p owner db' = (Inr r, db') \<and>
        (\<forall>q owner'. e_run_id q = e_run_id p \<and> q \<noteq> p \<longrightarrow>
           (\<exists>err. create_or_get_automation_run t' q owner' db' = (Inl err, db')))
    | (Inl _, db') \<Rightarrow> db' = db) \<and>
   (case request_browser_workflow_control t i c db of
      (Inr r, db') \<Rightarrow> request_browser_workflow_control t' i c db' = (Inr r, db') \<and>
        (\<forall>c'. control_key c' = control_key c \<and> c' \<noteq> c \<longrightarrow>
           request_browser_workflow_control t' i c' db' = (Inl KeyReused, db'))
    | (Inl _, db') \<Rightarrow> db' = db)"
proof (rule conjI)
  show "case create_or_get_automation_run t p owner db of
      (Inr r, db') \<Rightarrow> create_or_get_automation_run t' p owner db' = (Inr r, db') \<and>
        (\<forall>q owner'. e_run_id q = e_run_id p \<and> q \<noteq> p \<longrightarrow>
           (\<exists>err. create_or_get_automation_run t' q owner' db' = (Inl err, db')))
    | (Inl _, db') \<Rightarrow> db' = db"
    by (auto simp: create_or_get_automation_run_def Let_def new_receipt_def split: option.splits)
  have hist: "map_of (control_history r') k = Some c" if "apply_control t c k r = Some r'" for r r' k
    using that by (cases rule: apply_controlE) simp_all
  have wk: "workflow_key r' = workflow_key r" if "apply_control t c k r = Some r'" for r r' k
    using that by (cases rule: apply_controlE) simp_all
  show "case request_browser_workflow_control t i c db of
      (Inr r, db') \<Rightarrow> request_browser_workflow_control t' i c db' = (Inr r, db') \<and>
        (\<forall>c'. control_key c' = control_key c \<and> c' \<noteq> c \<longrightarrow>
           request_browser_workflow_control t' i c' db' = (Inl KeyReused, db'))
    | (Inl _, db') \<Rightarrow> db' = db"
    using hist wk by (auto simp: request_browser_workflow_control_def split: option.splits)
qed

theorem repeated_requests_change_nothing_witness:
  "request_browser_workflow_control 9 ''r1'' sample_cancel sample_table =
     (Inr (the (map_of sample_table ''r1'')), sample_table) \<and>
   request_browser_workflow_control 9 ''r1'' [(''action'', JStr ''resume''), (''idempotency_key'', JStr ''k1'')] sample_table =
     (Inl KeyReused, sample_table)"
proof -
  let ?r = "the (map_of sample_table ''r1'')"
  have e: "request_browser_workflow_control 9 ''r1'' sample_cancel sample_table = (Inr ?r, sample_table)" by code_simp
  have k: "control_key [(''action'', JStr ''resume''), (''idempotency_key'', JStr ''k1'')] = control_key sample_cancel \<and>
      [(''action'', JStr ''resume''), (''idempotency_key'', JStr ''k1'')] \<noteq> sample_cancel" by code_simp
  from repeated_requests_change_nothing
      [where t = 9 and t' = 9 and i = "''r1''" and c = sample_cancel and db = sample_table] e k
  show ?thesis by simp
qed

section \<open>A requested cancellation is not lost\<close>

lemma cancel_persists_row:
  "row_step now opn r r' \<Longrightarrow> cancel_requested r \<Longrightarrow> row_inv r \<Longrightarrow> cancel_requested r' \<or> terminal r'"
proof (induction rule: row_step.induct)
  case (control c key r now r' i)
  from control.prems have "status r \<noteq> Waiting"
    by (auto simp: cancel_requested_def row_inv_def control_ok_def split: option.splits)
  with control.hyps(4) have "is_cancel c \<and> (control_action r' = Some c \<or> terminal r')"
    unfolding apply_control_def Let_def by (auto simp: terminal_iff split: if_splits)
  then show ?case by (auto simp: cancel_requested_def)
next
  case (finish st final r w now i res err)
  then show ?case using terminal_of_status [OF finish.hyps(1)] by (auto simp: terminal_iff)
qed (auto simp: cancel_requested_def)



end
