(* ===== verification/TaskAcceptance.thy ===== *)
theory TaskAcceptance
  imports Json
begin

text \<open>
  Completion evidence of a task (\<open>backend/app/services/task_acceptance.py\<close>): the owner's
  declared requirements, the acceptance receipt, and the gates that still stand in the way of
  completion. What the gates ask the native deployment service, the evidence family of a project
  and whether its server accepts a pair of receipts, is an argument; NativeDeployment provides it.
\<close>

record native_service =
  evidence_family :: "string \<Rightarrow> string"
  native_accepts :: "dict \<Rightarrow> dict \<Rightarrow> string \<Rightarrow> string \<Rightarrow> dict \<Rightarrow> bool"

text \<open>The task fields the assessment reads.\<close>

record evidence_task =
  ev_id :: string
  ev_project :: string
  ev_context :: dict
  ev_requirements :: json
  ev_files_to_modify :: json
  ev_files_to_create :: json
  ev_commits :: "string list"
  ev_verification :: dict

section \<open>Amendments\<close>

definition AMENDMENT_KINDS :: "string list" where
  "AMENDMENT_KINDS = [''waived'', ''replaced'']"

definition amendment_ok :: "json \<Rightarrow> bool" where
  "amendment_ok item =
     (case item of
        JObj d \<Rightarrow>
          list_ex (has_str d ''kind'') AMENDMENT_KINDS \<and>
          (case get d ''check'' of JStr _ \<Rightarrow> True | _ \<Rightarrow> False) \<and>
          strip (if truth (get d ''reason'') then json_str (get d ''reason'') else []) \<noteq> []
      | _ \<Rightarrow> False)"

definition completion_amendments :: "json \<Rightarrow> json list" where
  "completion_amendments declared =
     (case declared of JObj d \<Rightarrow> filter amendment_ok (get_list d ''waivers'') | _ \<Rightarrow> [])"

definition waived_checks :: "json \<Rightarrow> json list" where
  "waived_checks declared =
     List.map_filter
       (\<lambda>item. case item of JObj d \<Rightarrow> if has_str d ''kind'' ''waived'' then Some (get d ''check'') else None | _ \<Rightarrow> None)
       (completion_amendments declared)"

definition active_live_checks :: "json \<Rightarrow> json list" where
  "active_live_checks declared =
     filter (\<lambda>check. check \<notin> set (waived_checks declared))
       (case declared of JObj d \<Rightarrow> get_list d ''live_checks'' | _ \<Rightarrow> [])"

section \<open>Requirements\<close>

datatype coverage = TaskCoverage | FullCoverage

record completion_requirements =
  rq_acceptance :: bool
  rq_coverage :: coverage
  rq_stages :: "string list"
  rq_deployment :: bool
  rq_live_checks :: "string list"

datatype requirement_error = NotAnObject | BadCoverage | BadStages | BadLiveChecks

text \<open>A list of unique nonempty identifiers, after \<open>or []\<close>; \<open>None\<close> where the source raises.\<close>

fun id_strings :: "json list \<Rightarrow> string list option" where
  "id_strings [] = Some []"
| "id_strings (JStr s # js) = (if strip s = [] then None else map_option (Cons s) (id_strings js))"
| "id_strings (_ # js) = None"

definition unique_ids :: "json \<Rightarrow> string list option" where
  "unique_ids v =
     (if \<not> truth v then Some []
      else case v of
             JList js \<Rightarrow> (case id_strings js of Some ids \<Rightarrow> if distinct ids then Some ids else None | None \<Rightarrow> None)
           | _ \<Rightarrow> None)"

definition declared_requirements :: "evidence_task \<Rightarrow> json" where
  "declared_requirements t =
     (if truth (ev_requirements t) then ev_requirements t
      else if truth (get (ev_context t) ''completion_requirements'')
      then get (ev_context t) ''completion_requirements''
      else JObj [])"

definition acceptance_coverage :: "dict \<Rightarrow> coverage option" where
  "acceptance_coverage declared =
     (case get_or declared ''acceptance'' (JStr ''task'') of
        JBool _ \<Rightarrow> Some TaskCoverage
      | JStr s \<Rightarrow> if s = ''full'' then Some FullCoverage else if s = ''task'' then Some TaskCoverage else None
      | _ \<Rightarrow> None)"

definition from_task :: "evidence_task \<Rightarrow> (requirement_error, completion_requirements) result" where
  "from_task t =
     (case declared_requirements t of
        JObj declared \<Rightarrow>
          (case acceptance_coverage declared of
             None \<Rightarrow> raise BadCoverage
           | Some cov \<Rightarrow>
               (case unique_ids (get declared ''acceptance_stages'') of
                  None \<Rightarrow> raise BadStages
                | Some stages \<Rightarrow>
                    (case unique_ids (get declared ''live_checks'') of
                       None \<Rightarrow> raise BadLiveChecks
                     | Some checks \<Rightarrow>
                         (let live = filter (\<lambda>c. JStr c \<notin> set (waived_checks (JObj declared))) checks;
                              required =
                                (ev_commits t \<noteq> [] \<or> truth (ev_files_to_modify t) \<or> truth (get (ev_context t) ''files_to_modify'') \<or>
                                 truth (ev_files_to_create t) \<or> truth (get (ev_context t) ''files_to_create'') \<or>
                                 truth (get declared ''acceptance'') \<or> stages \<noteq> [] \<or> truth (get declared ''deployment'') \<or>
                                 live \<noteq> [])
                          in return \<lparr>rq_acceptance = required, rq_coverage = cov, rq_stages = stages,
                                     rq_deployment = truth (get declared ''deployment''), rq_live_checks = live\<rparr>))))
      | _ \<Rightarrow> raise NotAnObject)"

section \<open>Acceptance\<close>

definition is_hex :: "char \<Rightarrow> bool" where
  "is_hex c \<longleftrightarrow> is_digit c \<or> (97 \<le> char_nat c \<and> char_nat c \<le> 102)"

definition is_oid :: "string \<Rightarrow> bool" where
  "is_oid s \<longleftrightarrow> (length s = 40 \<or> length s = 64) \<and> list_all is_hex s"

definition accepted_source :: "dict \<Rightarrow> (string \<times> coverage) option" where
  "accepted_source acceptance =
     (if \<not> has_str acceptance ''state'' ''success'' then None
      else case get acceptance ''source_commit'' of
             JStr source \<Rightarrow>
               (if \<not> is_oid source \<or> get_or acceptance ''outcome'' (JStr ''pass'') \<noteq> JStr ''pass'' then None
                else let cov = get_or acceptance ''coverage'' (JStr ''full'')
                     in if cov = JStr ''full'' then Some (source, FullCoverage)
                        else if cov = JStr ''task'' then Some (source, TaskCoverage) else None)
           | _ \<Rightarrow> None)"

text \<open>\<open>{stage.get("id"): stage for stage in stages if isinstance(stage, dict)}\<close>\<close>

definition indexed_stages :: "json list \<Rightarrow> (json \<times> dict) list" where
  "indexed_stages stages =
     fold (\<lambda>stage idx. case stage of JObj d \<Rightarrow> dict_set (get d ''id'') d idx | _ \<Rightarrow> idx) stages []"

definition stage_passed :: "coverage \<Rightarrow> dict \<Rightarrow> bool" where
  "stage_passed cov stage \<longleftrightarrow>
     list_ex (has_str stage ''state'') [''success'', ''pass''] \<and>
     get_or stage ''outcome'' (JStr ''pass'') = JStr ''pass'' \<and>
     list_ex (has_str stage ''coverage'')
       (if cov = TaskCoverage then [''task'', ''full'', ''focused''] else [''task'', ''full''])"

text \<open>The loop that lets a successful required full suite stand for a stage it covers.\<close>

definition covered_step :: "(json \<times> dict) list \<Rightarrow> json \<times> dict \<Rightarrow> json list \<Rightarrow> json list" where
  "covered_step indexed entry passed =
     (let stage = snd entry;
          by_id = get stage ''covered_by'';
          covering = (case map_of indexed by_id of Some d \<Rightarrow> d | None \<Rightarrow> [])
      in if has_str stage ''state'' ''not-applicable'' \<and> by_id \<in> set passed \<and>
            list_ex (has_str covering ''state'') [''pass'', ''success''] \<and>
            get_or covering ''outcome'' (JStr ''pass'') = JStr ''pass'' \<and>
            has_str covering ''coverage'' ''full'' \<and> map_of covering ''required'' = Some (JBool True)
         then fst entry # passed else passed)"

definition passed_stages :: "coverage \<Rightarrow> (json \<times> dict) list \<Rightarrow> json list" where
  "passed_stages cov indexed =
     fold (covered_step indexed) indexed (map fst (filter (\<lambda>e. stage_passed cov (snd e)) indexed))"

definition acceptance_satisfies :: "dict \<Rightarrow> completion_requirements \<Rightarrow> (string \<times> coverage) option \<Rightarrow> bool" where
  "acceptance_satisfies acceptance rq src =
     (case src of
        None \<Rightarrow> False
      | Some (source, cov) \<Rightarrow>
          if rq_coverage rq = FullCoverage \<and> cov \<noteq> FullCoverage then False
          else rq_stages rq = [] \<or>
               list_all (\<lambda>s. JStr s \<in> set (passed_stages cov (indexed_stages (get_list acceptance ''required_stages''))))
                 (rq_stages rq))"

definition satisfied_by :: "completion_requirements \<Rightarrow> dict \<Rightarrow> bool" where
  "satisfied_by rq acceptance = acceptance_satisfies acceptance rq (accepted_source acceptance)"

section \<open>Assessment\<close>

datatype gate =
    RequirementsGate requirement_error
  | AcceptanceGate coverage
  | DeploymentGate
  | LiveGate "json list"

record assessment =
  as_requirements :: "completion_requirements option"
  as_source :: "(string \<times> coverage) option"
  as_gates :: "gate list"

definition NATIVE_KIND :: string where
  "NATIVE_KIND = ''native_deployment_observation.v1''"

definition NATIVE_FIELDS :: "string list" where
  "NATIVE_FIELDS = [''receipt_id'', ''accepted_source_commit'', ''source_binding'']"

definition family_of :: "native_service \<Rightarrow> evidence_task \<Rightarrow> dict \<Rightarrow> string" where
  "family_of ns t requirements =
     (if ev_project t \<noteq> [] \<and> (truth (get requirements ''deployment'') \<or> active_live_checks (JObj requirements) \<noteq> [])
      then evidence_family ns (ev_project t) else ''legacy'')"

definition uses_native :: "string \<Rightarrow> dict \<Rightarrow> dict \<Rightarrow> dict \<Rightarrow> bool" where
  "uses_native family requirements deployment live \<longleftrightarrow>
     (family \<noteq> ''legacy'' \<and>
       (map_of requirements ''deployment'' \<noteq> Some (JBool False) \<or> deployment \<noteq> [] \<or> ''kind'' \<in> set (map fst live))) \<or>
     list_ex (\<lambda>f. f \<in> set (map fst deployment) \<or> f \<in> set (map fst live)) NATIVE_FIELDS \<or>
     has_str deployment ''kind'' NATIVE_KIND \<or> has_str live ''kind'' NATIVE_KIND"

definition live_check_passed :: "json \<Rightarrow> bool" where
  "live_check_passed check =
     (case check of
        JObj d \<Rightarrow>
          has_str d ''state'' ''success'' \<and> truth (get d ''artifact'') \<and>
          (let sha = (if truth (get d ''sha256'') then json_str (get d ''sha256'') else [])
           in length sha = 64 \<and> list_all is_hex sha)
      | _ \<Rightarrow> False)"

definition passed_live_ids :: "dict \<Rightarrow> json list" where
  "passed_live_ids live =
     List.map_filter (\<lambda>check. case check of JObj d \<Rightarrow> if live_check_passed check then Some (get d ''id'') else None | _ \<Rightarrow> None)
       (get_list live ''checks'')"

definition assess_completion :: "native_service \<Rightarrow> evidence_task \<Rightarrow> assessment" where
  "assess_completion ns t =
     (case from_task t of
        Inl err \<Rightarrow> \<lparr>as_requirements = None, as_source = None, as_gates = [RequirementsGate err]\<rparr>
      | Inr rq \<Rightarrow>
          (let requirements = (case declared_requirements t of JObj d \<Rightarrow> d | _ \<Rightarrow> []);
               acceptance = get_dict (ev_verification t) ''acceptance'';
               src = accepted_source acceptance;
               deployment = get_dict (ev_verification t) ''deployment'';
               live = get_dict (ev_verification t) ''live_validation'';
               family = family_of ns t requirements;
               native = uses_native family requirements deployment live;
               native_valid = (native \<and> native_accepts ns deployment live (ev_id t) (ev_project t) acceptance \<and>
                               src \<noteq> None \<and> family \<noteq> ''unknown'');
               g1 = (if rq_acceptance rq \<and> \<not> satisfied_by rq acceptance then [AcceptanceGate (rq_coverage rq)] else []);
               deploy_ok = (if native then native_valid
                            else case src of
                                   None \<Rightarrow> False
                                 | Some (s, _) \<Rightarrow> has_str deployment ''state'' ''succeeded'' \<and> has_str deployment ''source_commit'' s);
               g2 = (if truth (get requirements ''deployment'') \<and> \<not> deploy_ok then [DeploymentGate] else []);
               required = active_live_checks (JObj requirements);
               live_bound = (native_valid \<or>
                             (\<not> native \<and> (case src of None \<Rightarrow> False | Some (s, _) \<Rightarrow> has_str live ''source_commit'' s)));
               missing = filter (\<lambda>n. n \<notin> set (if live_bound then passed_live_ids live else [])) required;
               g3 = (if missing \<noteq> [] then [LiveGate missing] else [])
           in \<lparr>as_requirements = Some rq, as_source = src, as_gates = g1 @ g2 @ g3\<rparr>))"

definition completion_gates :: "native_service \<Rightarrow> evidence_task \<Rightarrow> gate list" where
  "completion_gates ns t = as_gates (assess_completion ns t)"

definition release_ready :: "assessment \<Rightarrow> bool" where
  "release_ready a = (case as_source a of Some (s, FullCoverage) \<Rightarrow> s \<noteq> [] | _ \<Rightarrow> False)"

section \<open>What completion certifies\<close>

text \<open>The evidence of a passed stage: it passed itself, or a required full suite that passed covers it.\<close>

definition stage_evidence :: "coverage \<Rightarrow> (json \<times> dict) list \<Rightarrow> json \<Rightarrow> bool" where
  "stage_evidence cov indexed name \<longleftrightarrow>
     (\<exists>stage. (name, stage) \<in> set indexed \<and> stage_passed cov stage) \<or>
     (\<exists>stage covering. (name, stage) \<in> set indexed \<and> has_str stage ''state'' ''not-applicable'' \<and>
        map_of indexed (get stage ''covered_by'') = Some covering \<and>
        (has_str covering ''state'' ''pass'' \<or> has_str covering ''state'' ''success'') \<and>
        has_str covering ''coverage'' ''full'' \<and> map_of covering ''required'' = Some (JBool True))"

lemma covered_step_sound:
  assumes "\<forall>n\<in>set passed. stage_evidence cov indexed n" and "entry \<in> set indexed"
  shows "\<forall>n\<in>set (covered_step indexed entry passed). stage_evidence cov indexed n"
proof -
  have "has_str [] k v = False" for k v by (simp add: has_str_def)
  with assms show ?thesis
    by (cases entry) (auto simp: covered_step_def Let_def stage_evidence_def split: if_splits option.splits)
qed

lemma passed_stages_sound: "n \<in> set (passed_stages cov indexed) \<Longrightarrow> stage_evidence cov indexed n"
proof -
  have "\<forall>n\<in>set (fold (covered_step indexed) es passed). stage_evidence cov indexed n"
    if "\<forall>n\<in>set passed. stage_evidence cov indexed n" "set es \<subseteq> set indexed" for es passed
    using that
  proof (induction es arbitrary: passed)
    case (Cons e es)
    have "\<forall>n\<in>set (covered_step indexed e passed). stage_evidence cov indexed n"
      by (rule covered_step_sound) (use Cons.prems in auto)
    then show ?case using Cons by simp
  qed simp
  moreover have "\<forall>n\<in>set (map fst (filter (\<lambda>e. stage_passed cov (snd e)) indexed)). stage_evidence cov indexed n"
    by (auto simp: stage_evidence_def)
  ultimately show "n \<in> set (passed_stages cov indexed) \<Longrightarrow> stage_evidence cov indexed n"
    unfolding passed_stages_def by blast
qed

lemma accepted_source_oid: "accepted_source acc = Some (s, cov) \<Longrightarrow> is_oid s \<and> has_str acc ''state'' ''success'' \<and> has_str acc ''source_commit'' s"
  by (auto simp: accepted_source_def has_str_def get_def get_or_def Let_def split: if_splits json.splits option.splits)

lemma gates_unfold:
  assumes "from_task t = Inr rq" and "completion_gates ns t = []" and "declared_requirements t = JObj req"
    and "acc = get_dict (ev_verification t) ''acceptance''"
    and "dep = get_dict (ev_verification t) ''deployment''" and "live = get_dict (ev_verification t) ''live_validation''"
    and "native = uses_native (family_of ns t req) req dep live"
  shows "rq_acceptance rq \<longrightarrow> satisfied_by rq acc"
    and "truth (get req ''deployment'') \<longrightarrow>
      (if native then native_accepts ns dep live (ev_id t) (ev_project t) acc \<and> accepted_source acc \<noteq> None
       else \<exists>s cov. accepted_source acc = Some (s, cov) \<and> has_str dep ''state'' ''succeeded'' \<and> has_str dep ''source_commit'' s)"
    and "\<forall>n\<in>set (active_live_checks (JObj req)). n \<in> set (passed_live_ids live) \<and>
      (if native then native_accepts ns dep live (ev_id t) (ev_project t) acc
       else \<exists>s cov. accepted_source acc = Some (s, cov) \<and> has_str live ''source_commit'' s)"
  using assms
  by (auto simp: completion_gates_def assess_completion_def Let_def filter_empty_conv split: if_splits option.splits)

lemma from_task_requires:
  assumes "from_task t = Inr rq" and "ev_commits t \<noteq> []"
  shows "rq_acceptance rq"
  using assms by (auto simp: from_task_def Let_def split: json.splits option.splits)

lemma from_task_object: "from_task t = Inr rq \<Longrightarrow> \<exists>req. declared_requirements t = JObj req"
  by (auto simp: from_task_def split: json.splits)

lemma gates_from_task: "completion_gates ns t = [] \<Longrightarrow> \<exists>rq. from_task t = Inr rq"
  by (cases "from_task t") (auto simp: completion_gates_def assess_completion_def)

text \<open>
  A task with recorded commits has no open completion gate only if its acceptance
  receipt is a success for a full commit id, with full coverage where the owner asked for it,
  and every declared stage passed or is covered by a required full suite that passed.
\<close>

theorem completion_needs_acceptance:
  assumes "completion_gates ns t = []" and "ev_commits t \<noteq> []"
    and "acc = get_dict (ev_verification t) ''acceptance''"
  shows "\<exists>rq s cov. from_task t = Inr rq \<and> accepted_source acc = Some (s, cov) \<and> is_oid s \<and>
    has_str acc ''state'' ''success'' \<and> has_str acc ''source_commit'' s \<and>
    (rq_coverage rq = FullCoverage \<longrightarrow> cov = FullCoverage) \<and>
    (\<forall>st\<in>set (rq_stages rq). stage_evidence cov (indexed_stages (get_list acc ''required_stages'')) (JStr st))"
proof -
  obtain rq where rq: "from_task t = Inr rq" using gates_from_task [OF assms(1)] by blast
  obtain req where req: "declared_requirements t = JObj req" using from_task_object [OF rq] by blast
  have "satisfied_by rq acc"
    using gates_unfold(1) [OF rq assms(1) req refl refl refl refl] from_task_requires [OF rq assms(2)] assms(3) by simp
  then obtain s cov where src: "accepted_source acc = Some (s, cov)"
    and full: "rq_coverage rq = FullCoverage \<longrightarrow> cov = FullCoverage"
    and st: "rq_stages rq = [] \<or>
      list_all (\<lambda>s. JStr s \<in> set (passed_stages cov (indexed_stages (get_list acc ''required_stages'')))) (rq_stages rq)"
    by (auto simp: satisfied_by_def acceptance_satisfies_def split: option.splits if_splits)
  from st have "\<forall>st\<in>set (rq_stages rq). stage_evidence cov (indexed_stages (get_list acc ''required_stages'')) (JStr st)"
    using passed_stages_sound by (auto simp: list_all_iff)
  with rq src full accepted_source_oid [OF src] show ?thesis by blast
qed

definition sample_oid :: string where
  "sample_oid = replicate 40 CHR ''a''"

definition sample_service :: native_service where
  "sample_service = \<lparr>evidence_family = (\<lambda>_. ''legacy''), native_accepts = (\<lambda>_ _ _ _ _. False)\<rparr>"

definition sample_task :: evidence_task where
  "sample_task =
     \<lparr>ev_id = ''task-1'', ev_project = ''sf'',
      ev_context = [(''completion_requirements'',
        JObj [(''acceptance_stages'', JList [JStr ''lint'']), (''deployment'', JBool True), (''live_checks'', JList [JStr ''home''])])],
      ev_requirements = JNull, ev_files_to_modify = JNull, ev_files_to_create = JNull, ev_commits = [sample_oid],
      ev_verification =
        [(''acceptance'', JObj [(''state'', JStr ''success''), (''source_commit'', JStr sample_oid), (''coverage'', JStr ''task''),
            (''required_stages'', JList
               [JObj [(''id'', JStr ''suite''), (''state'', JStr ''pass''), (''coverage'', JStr ''full''), (''required'', JBool True)],
                JObj [(''id'', JStr ''lint''), (''state'', JStr ''not-applicable''), (''covered_by'', JStr ''suite'')]])]),
         (''deployment'', JObj [(''state'', JStr ''succeeded''), (''source_commit'', JStr sample_oid)]),
         (''live_validation'', JObj [(''source_commit'', JStr sample_oid),
            (''checks'', JList [JObj [(''id'', JStr ''home''), (''state'', JStr ''success''), (''artifact'', JStr ''a.png''),
               (''sha256'', JStr (replicate 64 CHR ''0''))]])])]\<rparr>"

lemma sample_task_complete: "completion_gates sample_service sample_task = []"
  by code_simp

theorem completion_needs_acceptance_witness:
  "\<exists>rq s cov. from_task sample_task = Inr rq \<and>
    accepted_source (get_dict (ev_verification sample_task) ''acceptance'') = Some (s, cov) \<and> is_oid s \<and>
    (\<forall>st\<in>set (rq_stages rq). stage_evidence cov
       (indexed_stages (get_list (get_dict (ev_verification sample_task) ''acceptance'') ''required_stages'')) (JStr st))"
proof -
  have "ev_commits sample_task \<noteq> []" by code_simp
  from completion_needs_acceptance [OF sample_task_complete this refl] show ?thesis by blast
qed

text \<open>
  Where the owner declared a deployment or live checks, a task without open gates shows
  them for the accepted source: the receipts name exactly that commit, or, for a project with
  native deployments, the deployment service itself accepted them; every live check that was
  not waived has passed.
\<close>

theorem completion_needs_declared_evidence:
  assumes "completion_gates ns t = []" and "declared_requirements t = JObj req"
    and "acc = get_dict (ev_verification t) ''acceptance''" and "dep = get_dict (ev_verification t) ''deployment''"
    and "live = get_dict (ev_verification t) ''live_validation''"
    and "native = uses_native (family_of ns t req) req dep live"
  shows "(truth (get req ''deployment'') \<longrightarrow>
      (if native then native_accepts ns dep live (ev_id t) (ev_project t) acc
       else \<exists>s cov. accepted_source acc = Some (s, cov) \<and> has_str dep ''state'' ''succeeded'' \<and> has_str dep ''source_commit'' s)) \<and>
    (\<forall>n\<in>set (active_live_checks (JObj req)). n \<in> set (passed_live_ids live) \<and>
      (if native then native_accepts ns dep live (ev_id t) (ev_project t) acc
       else \<exists>s cov. accepted_source acc = Some (s, cov) \<and> has_str live ''source_commit'' s))"
proof -
  obtain rq where rq: "from_task t = Inr rq" using gates_from_task [OF assms(1)] by blast
  show ?thesis
    using gates_unfold(2,3) [OF rq assms(1,2) assms(3-6)] by (cases native) auto
qed

theorem completion_needs_declared_evidence_witness:
  "\<exists>s cov. accepted_source (get_dict (ev_verification sample_task) ''acceptance'') = Some (s, cov) \<and>
    has_str (get_dict (ev_verification sample_task) ''deployment'') ''source_commit'' s"
proof -
  let ?req = "[(''acceptance_stages'', JList [JStr ''lint'']), (''deployment'', JBool True), (''live_checks'', JList [JStr ''home''])]"
  have d: "declared_requirements sample_task = JObj ?req" by code_simp
  have t: "truth (get ?req ''deployment'')" by code_simp
  have n: "\<not> uses_native (family_of sample_service sample_task ?req) ?req
      (get_dict (ev_verification sample_task) ''deployment'') (get_dict (ev_verification sample_task) ''live_validation'')"
    by code_simp
  from completion_needs_declared_evidence [OF sample_task_complete d refl refl refl refl] t n show ?thesis by auto
qed

end
