(* ===== verification/TaskStore.thy ===== *)
theory TaskStore
  imports TaskAcceptance "HOL-Library.Product_Lexorder"
begin

text \<open>
  The task table and the operations that move a task through its life:
  claims (\<open>backend/app/storage/tasks/claims.py\<close>), status changes (\<open>status.py\<close>), closeout
  intents and verification receipts (\<open>closeout.py\<close>), sessions (\<open>sessions.py\<close>) and the repair
  findings that stand in the way of cancellation (\<open>publication_repair.py\<close>).

  Each operation is one transaction at the database time \<open>now\<close>, in seconds; one that
  raises leaves the store unchanged. Evidence columns are \<open>jsonb\<close> objects.
\<close>

record task =
  t_project_id :: string
  t_status :: string
  t_claimed_by :: "string option"
  t_claimed_at :: "int option"
  t_lock_expires_at :: "int option"
  t_started_at :: "int option"
  t_completed_at :: "int option"
  t_error_message :: "string option"
  t_current_phase :: "string option"
  t_verification :: "dict option"
  t_labels :: "string list"
  t_commits :: "string list"
  t_merge_sha :: "string option"
  t_sessions :: "string list"
  t_updated_at :: int

text \<open>The tables the operations read: tasks, subtasks (task, subtask, passes) and plan contexts.\<close>

record store =
  tasks :: "(string \<times> task) list"
  subtasks :: "(string \<times> string \<times> bool) list"
  spirits :: "(string \<times> dict) list"

datatype task_error =
    InvalidStatus string
  | InvalidTransition string string
  | ExactClaimRequired
  | ClaimChanged
  | IncompleteSubtasks "string list"
  | UnresolvedRepair
  | AcceptanceIncomplete "gate list"
  | Superseded
  | NotInProject
  | UnsupportedReceipt
  | UnknownClassification
  | ReasonRequired
  | NotAdministrative
  | NotLegacyCloseout
  | CleanupRaised

definition canonicalize_task_id :: "string \<Rightarrow> string" where
  "canonicalize_task_id task_id =
     (let raw = strip task_id in if startswith raw ''task-'' then raw else ''task-'' @ raw)"

definition set_task :: "string \<Rightarrow> task \<Rightarrow> store \<Rightarrow> store" where
  "set_task i t s = s\<lparr>tasks := dict_set i t (tasks s)\<rparr>"

section \<open>Lifecycle projection of the evidence\<close>

text \<open>\<open>||\<close> on \<open>jsonb\<close> values; anything but two objects concatenates as arrays.\<close>

fun jconcat :: "json \<Rightarrow> json \<Rightarrow> json" where
  "jconcat (JObj a) (JObj b) = JObj (jmerge a b)"
| "jconcat (JList a) (JList b) = JList (a @ b)"
| "jconcat (JList a) b = JList (a @ [b])"
| "jconcat a (JList b) = JList (a # b)"
| "jconcat a b = JList [a, b]"

definition sub_dict :: "dict \<Rightarrow> string \<Rightarrow> dict" where
  "sub_dict d k = (case map_of d k of Some (JObj e) \<Rightarrow> e | _ \<Rightarrow> [])"

definition vr :: "task \<Rightarrow> dict" where
  "vr t = (case t_verification t of Some d \<Rightarrow> d | None \<Rightarrow> [])"

definition STALE_LIFECYCLE :: json where
  "STALE_LIFECYCLE =
     JObj [(''reason'', JStr ''task_lifecycle_changed_requires_acceptance''), (''state'', JStr ''stale'')]"

definition historical_closeout :: "json \<Rightarrow> json" where
  "historical_closeout c =
     JObj [(''kind'', JStr ''lifecycle_closeout_history.v1''), (''previous_closeout'', c),
           (''reason'', JStr ''task_lifecycle_changed''), (''state'', JStr ''historical'')]"

definition kept_closeout :: "bool \<Rightarrow> dict \<Rightarrow> json option" where
  "kept_closeout preserve_closeout d =
     (case map_of d ''closeout'' of
        None \<Rightarrow> None
      | Some c \<Rightarrow>
          (let co = sub_dict d ''closeout'';
               retire = (\<not> preserve_closeout \<or>
                         (case jtext co ''state'' of None \<Rightarrow> False | Some s \<Rightarrow> s \<notin> set [''pending'', ''blocked'']))
           in if jtext co ''kind'' = Some ''local_closeout.v1'' \<and> retire then Some (historical_closeout c) else Some c))"

definition preserved_verification :: "bool \<Rightarrow> dict option \<Rightarrow> dict option" where
  "preserved_verification preserve_closeout v =
     (let d = (case v of Some d \<Rightarrow> d | None \<Rightarrow> []);
          entries =
            [(''acceptance'', map_option (\<lambda>a. jconcat a STALE_LIFECYCLE) (map_of d ''acceptance'')),
             (''closeout'', kept_closeout preserve_closeout d),
             (''deployment'', map_of d ''deployment''),
             (''live_validation'', map_of d ''live_validation''),
             (''publication'', map_of d ''publication''),
             (''publication_repair'', map_of d ''publication_repair'')];
          kept = List.map_filter (\<lambda>(k, e). case e of Some j \<Rightarrow> if j = JNull then None else Some (k, j) | None \<Rightarrow> None) entries
      in if kept = [] then None else Some kept)"

section \<open>Claims\<close>

definition CLAIMABLE_STATUSES :: "string list" where
  "CLAIMABLE_STATUSES = [''pending'', ''paused'', ''failed'']"

definition has_valid_lock :: "int \<Rightarrow> task \<Rightarrow> bool" where
  "has_valid_lock now t =
     (case (t_claimed_by t, t_lock_expires_at t) of
        (Some w, Some e) \<Rightarrow> w \<noteq> [] \<and> e > now
      | _ \<Rightarrow> False)"

definition claim_task :: "int \<Rightarrow> string \<Rightarrow> string \<Rightarrow> int \<Rightarrow> bool \<Rightarrow> store \<Rightarrow> task option \<times> store" where
  "claim_task now task_id worker minutes renew_only s =
     (let i = canonicalize_task_id task_id in
      case map_of (tasks s) i of
        None \<Rightarrow> (None, s)
      | Some t \<Rightarrow>
          if t_status t = ''running'' then
            (if t_claimed_by t \<noteq> Some worker then (None, s)
             else let t' = t\<lparr>t_lock_expires_at := Some (now + minutes * 60), t_updated_at := now\<rparr>
                  in (Some t', set_task i t' s))
          else if renew_only then (None, s)
          else if t_status t \<notin> set CLAIMABLE_STATUSES then (None, s)
          else if has_valid_lock now t then (None, s)
          else let t' = t\<lparr>t_claimed_by := Some worker, t_claimed_at := Some now,
                          t_lock_expires_at := Some (now + minutes * 60), t_status := ''running'',
                          t_verification := preserved_verification False (t_verification t),
                          t_started_at := (case t_started_at t of Some b \<Rightarrow> Some b | None \<Rightarrow> Some now),
                          t_updated_at := now\<rparr>
               in (Some t', set_task i t' s))"

definition renew_task_claim :: "int \<Rightarrow> string \<Rightarrow> string \<Rightarrow> int \<Rightarrow> store \<Rightarrow> task option \<times> store" where
  "renew_task_claim now task_id worker minutes s =
     (let i = canonicalize_task_id task_id in
      case map_of (tasks s) i of
        None \<Rightarrow> (None, s)
      | Some t \<Rightarrow>
          if t_status t = ''running'' \<and> t_claimed_by t = Some worker
          then let t' = t\<lparr>t_lock_expires_at := Some (now + minutes * 60), t_updated_at := now\<rparr>
               in (Some t', set_task i t' s)
          else (None, s))"

definition to_pending :: "int \<Rightarrow> bool \<Rightarrow> task \<Rightarrow> task" where
  "to_pending now preserve_closeout t =
     t\<lparr>t_claimed_by := None, t_claimed_at := None, t_lock_expires_at := None, t_status := ''pending'',
       t_verification := preserved_verification preserve_closeout (t_verification t), t_updated_at := now\<rparr>"

definition release_task :: "int \<Rightarrow> string \<Rightarrow> string option \<Rightarrow> store \<Rightarrow> task option \<times> store" where
  "release_task now task_id expected_worker s =
     (let i = canonicalize_task_id task_id in
      case map_of (tasks s) i of
        None \<Rightarrow> (None, s)
      | Some t \<Rightarrow>
          if expected_worker = None \<or> t_claimed_by t = expected_worker
          then (Some (to_pending now False t), set_task i (to_pending now False t) s)
          else (None, s))"

definition claim_expired :: "int \<Rightarrow> task \<Rightarrow> bool" where
  "claim_expired now t \<longleftrightarrow>
     t_status t = ''running'' \<and> t_claimed_by t \<noteq> None \<and>
     (case t_lock_expires_at t of Some e \<Rightarrow> e < now | None \<Rightarrow> False)"

definition reset_expired_claims :: "int \<Rightarrow> store \<Rightarrow> nat \<times> store" where
  "reset_expired_claims now s =
     (length (filter (claim_expired now \<circ> snd) (tasks s)),
      s\<lparr>tasks := map (\<lambda>(i, t). (i, if claim_expired now t then to_pending now True t else t)) (tasks s)\<rparr>)"

definition count_running_tasks :: "int \<Rightarrow> string \<Rightarrow> string option \<Rightarrow> store \<Rightarrow> nat" where
  "count_running_tasks now project exclude s =
     length (filter
       (\<lambda>(i, t). t_project_id t = project \<and> t_status t = ''running'' \<and> t_claimed_by t \<noteq> None \<and>
          (case t_lock_expires_at t of None \<Rightarrow> True | Some e \<Rightarrow> e > now) \<and>
          (case exclude of Some x \<Rightarrow> x = [] \<or> i \<noteq> canonicalize_task_id x | None \<Rightarrow> True))
       (tasks s))"

section \<open>Repair findings\<close>

definition REPAIR_LABEL :: string where
  "REPAIR_LABEL = ''publication-repair''"

definition ADMINISTRATIVE_REASONS :: "string list" where
  "ADMINISTRATIVE_REASONS =
     [''cloud_ci_missing'', ''outside_publication_window'', ''outside_nightly_window'',
      ''nightly_repair_confirmation_pending'']"

definition finding_actionable :: "dict \<Rightarrow> bool" where
  "finding_actionable f =
     (if has_str f ''state'' ''resolved'' then False
      else let d = get_dict f ''disposition'' in
           \<not> (has_str d ''kind'' ''publication_disposition.v1'' \<and> has_str d ''classification'' ''administrative'' \<and>
              has_str d ''state'' ''no_longer_required'' \<and> list_ex (has_str f ''reason'') ADMINISTRATIVE_REASONS \<and>
              map_of d ''prior_finding'' = Some (JObj (filter (\<lambda>(k, v). k \<noteq> ''disposition'') f))))"

definition unresolved_repair :: "string list \<Rightarrow> dict option \<Rightarrow> string list" where
  "unresolved_repair labels v =
     (if REPAIR_LABEL \<notin> set labels then []
      else List.map_filter
             (\<lambda>(k, f). case f of JObj d \<Rightarrow> if finding_actionable d then Some k else None | _ \<Rightarrow> None)
             (get_dict (case v of Some d \<Rightarrow> d | None \<Rightarrow> []) ''publication_repair''))"

definition CLASSIFICATIONS :: "string list" where
  "CLASSIFICATIONS = [''administrative'', ''product_defect'', ''security_investigation'', ''investigation'']"

definition disposition_of :: "string \<Rightarrow> dict \<Rightarrow> string \<Rightarrow> string \<Rightarrow> string \<Rightarrow> dict" where
  "disposition_of at_iso expected classification reason evidence =
     [(''classification'', JStr classification), (''evidence'', JStr evidence),
      (''kind'', JStr ''publication_disposition.v1''), (''observed_at'', JStr at_iso),
      (''prior_finding'', JObj expected), (''reason'', JStr reason),
      (''state'', JStr (if classification = ''administrative'' then ''no_longer_required'' else ''actionable''))]"

definition disposition_finding ::
  "int \<Rightarrow> string \<Rightarrow> string \<Rightarrow> string \<Rightarrow> string \<Rightarrow> dict \<Rightarrow> string \<Rightarrow> string \<Rightarrow> string \<Rightarrow> store \<Rightarrow>
     (task_error, bool) result \<times> store" where
  "disposition_finding now at_iso task_id project category expected classification reason evidence s =
     (if classification \<notin> set CLASSIFICATIONS then (raise UnknownClassification, s)
      else if strip reason = [] \<or> strip evidence = [] then (raise ReasonRequired, s)
      else if classification = ''administrative'' \<and> \<not> list_ex (has_str expected ''reason'') ADMINISTRATIVE_REASONS
      then (raise NotAdministrative, s)
      else if has_str expected ''state'' ''resolved'' then (return False, s)
      else let updated = jput ''disposition'' (JObj (disposition_of at_iso expected classification reason evidence)) expected in
           case map_of (tasks s) task_id of
             None \<Rightarrow> (return False, s)
           | Some t \<Rightarrow>
               if t_project_id t = project \<and> map_of (sub_dict (vr t) ''publication_repair'') category = Some (JObj expected)
               then let repair = jput category (JObj updated) (sub_dict (vr t) ''publication_repair'');
                        t' = t\<lparr>t_verification := Some (jput ''publication_repair'' (JObj repair) (vr t)), t_updated_at := now\<rparr>
                    in (return True, set_task task_id t' s)
               else (return False, s))"

section \<open>Status changes\<close>

definition VALID_TRANSITIONS :: "(string \<times> string list) list" where
  "VALID_TRANSITIONS =
     [(''pending'', [''running'', ''paused'', ''cancelled'']),
      (''running'', [''completed'', ''failed'', ''cancelled'', ''pending'', ''paused'']),
      (''paused'', [''pending'', ''running'', ''cancelled'']),
      (''completed'', [''pending'', ''cancelled'']),
      (''failed'', [''pending'', ''running'', ''cancelled'', ''completed'']),
      (''cancelled'', [''pending''])]"

definition VALID_STATUSES :: "string list" where
  "VALID_STATUSES = map fst VALID_TRANSITIONS"

definition validate_status_transition :: "string \<Rightarrow> string \<Rightarrow> bool" where
  "validate_status_transition current target =
     (case map_of VALID_TRANSITIONS current of Some ts \<Rightarrow> target \<in> set ts | None \<Rightarrow> False)"

definition CLOSED_STATUSES :: "string list" where
  "CLOSED_STATUSES = [''completed'', ''failed'', ''cancelled'']"

definition OPEN_STATUSES :: "string list" where
  "OPEN_STATUSES = [''pending'', ''running'', ''paused'']"

definition apply_status :: "int \<Rightarrow> string \<Rightarrow> string option \<Rightarrow> task \<Rightarrow> task" where
  "apply_status now st err t =
     (let unclaim = (st \<in> set (CLOSED_STATUSES @ [''paused'']))
      in t\<lparr>t_status := st,
           t_started_at := (if st = ''running'' then (case t_started_at t of Some b \<Rightarrow> Some b | None \<Rightarrow> Some now) else t_started_at t),
           t_completed_at := (if st \<in> set CLOSED_STATUSES then Some now else if st \<in> set OPEN_STATUSES then None else t_completed_at t),
           t_error_message := (if st \<in> set OPEN_STATUSES then None else if st \<in> set CLOSED_STATUSES then err else t_error_message t),
           t_verification := (if st = ''completed'' then t_verification t else preserved_verification False (t_verification t)),
           t_current_phase := (if st = ''completed'' then Some ''complete'' else t_current_phase t),
           t_claimed_by := (if unclaim then None else t_claimed_by t),
           t_claimed_at := (if unclaim then None else t_claimed_at t),
           t_lock_expires_at := (if unclaim then None else t_lock_expires_at t),
           t_updated_at := now\<rparr>)"

text \<open>The optional expectations of the caller.\<close>

record expectations =
  x_request_id :: "string option"
  x_worker :: "string option"
  x_claimed_at :: "int option"
  x_project_id :: "string option"

definition owned_claim :: "int \<Rightarrow> string \<Rightarrow> string \<Rightarrow> int option \<Rightarrow> task \<Rightarrow> bool" where
  "owned_claim now project worker claimed t \<longleftrightarrow>
     t_project_id t = project \<and> t_status t = ''running'' \<and> t_claimed_by t = Some worker \<and>
     claimed \<noteq> None \<and> t_claimed_at t = claimed \<and> (case t_lock_expires_at t of Some e \<Rightarrow> e > now | None \<Rightarrow> False)"

text \<open>The blocks of \<open>_execute_status_update\<close> before the update, each a check that may raise.\<close>

definition check_owner :: "int \<Rightarrow> string \<Rightarrow> string \<Rightarrow> expectations \<Rightarrow> store \<Rightarrow> task_error option" where
  "check_owner now i st x s =
     (case x_worker x of
        None \<Rightarrow> None
      | Some worker \<Rightarrow>
          if x_claimed_at x = None \<or> (case x_project_id x of None \<Rightarrow> True | Some p \<Rightarrow> p = []) \<or> st \<noteq> ''completed''
          then Some ExactClaimRequired
          else if \<not> (case map_of (tasks s) i of
                       Some t \<Rightarrow> owned_claim now (the (x_project_id x)) worker (x_claimed_at x) t | None \<Rightarrow> False)
          then Some ClaimChanged
          else let incomplete = map (\<lambda>(_, sub, _). sub) (filter (\<lambda>(tid, sub, passes). tid = i \<and> \<not> passes) (subtasks s))
               in if incomplete \<noteq> [] then Some (IncompleteSubtasks incomplete) else None)"

definition check_cancel :: "string \<Rightarrow> string \<Rightarrow> store \<Rightarrow> task_error option" where
  "check_cancel i st s =
     (if st = ''cancelled''
      then (case map_of (tasks s) i of
              Some t \<Rightarrow> if unresolved_repair (t_labels t) (t_verification t) \<noteq> [] then Some UnresolvedRepair else None
            | None \<Rightarrow> None)
      else None)"

definition evidence_of :: "string \<Rightarrow> task \<Rightarrow> store \<Rightarrow> evidence_task" where
  "evidence_of i t s =
     \<lparr>ev_id = i, ev_project = t_project_id t,
      ev_context = (case map_of (spirits s) i of Some c \<Rightarrow> c | None \<Rightarrow> []),
      ev_requirements = JNull, ev_files_to_modify = JNull, ev_files_to_create = JNull,
      ev_commits = t_commits t, ev_verification = vr t\<rparr>"

definition check_gates :: "native_service \<Rightarrow> string \<Rightarrow> string \<Rightarrow> store \<Rightarrow> task_error option" where
  "check_gates ns i st s =
     (if st = ''completed''
      then (case map_of (tasks s) i of
              Some t \<Rightarrow>
                (let gates = completion_gates ns (evidence_of i t s)
                 in if gates \<noteq> [] then Some (AcceptanceIncomplete gates) else None)
            | None \<Rightarrow> None)
      else None)"

definition closeout_current :: "string \<Rightarrow> string \<Rightarrow> task \<Rightarrow> bool" where
  "closeout_current request_id st t \<longleftrightarrow>
     (let intent = get_dict (vr t) ''closeout''; acceptance = get_dict (vr t) ''acceptance'' in
      t_status t \<in> set [''pending'', ''running'', ''completed''] \<and> st = ''completed'' \<and>
      has_str intent ''request_id'' request_id \<and> has_str intent ''kind'' ''local_closeout.v1'' \<and>
      has_str intent ''project_id'' (t_project_id t) \<and> has_str acceptance ''state'' ''success'' \<and>
      get acceptance ''source_commit'' = get intent ''source_sha'')"

definition check_closeout :: "string \<Rightarrow> string \<Rightarrow> expectations \<Rightarrow> store \<Rightarrow> task_error option" where
  "check_closeout i st x s =
     (case x_request_id x of
        None \<Rightarrow> None
      | Some request_id \<Rightarrow>
          if (case map_of (tasks s) i of Some t \<Rightarrow> closeout_current request_id st t | None \<Rightarrow> False)
          then None else Some Superseded)"

definition check_transition :: "string \<Rightarrow> string \<Rightarrow> task_error option" where
  "check_transition current st =
     (if current \<noteq> st \<and> \<not> validate_status_transition current st then Some (InvalidTransition current st) else None)"

definition execute_status_update ::
  "native_service \<Rightarrow> int \<Rightarrow> string \<Rightarrow> string \<Rightarrow> string option \<Rightarrow> bool \<Rightarrow> expectations \<Rightarrow> store \<Rightarrow>
     (task_error, task option) result \<times> store" where
  "execute_status_update ns now task_id st err validate x s =
     (let i = canonicalize_task_id task_id in
      case first_some id [check_owner now i st x s, check_cancel i st s, check_gates ns i st s, check_closeout i st x s] of
        Some e \<Rightarrow> (raise e, s)
      | None \<Rightarrow>
          (case map_of (tasks s) i of
             None \<Rightarrow> (return None, s)
           | Some t \<Rightarrow>
               (case (if validate then check_transition (t_status t) st else None) of
                  Some e \<Rightarrow> (raise e, s)
                | None \<Rightarrow> (return (Some (apply_status now st err t)), set_task i (apply_status now st err t) s))))"

definition update_task_status ::
  "native_service \<Rightarrow> int \<Rightarrow> string \<Rightarrow> string \<Rightarrow> string option \<Rightarrow> bool \<Rightarrow> expectations \<Rightarrow> store \<Rightarrow>
     (task_error, task option) result \<times> store" where
  "update_task_status ns now task_id st err validate x s =
     (if st \<notin> set VALID_STATUSES then (raise (InvalidStatus st), s)
      else execute_status_update ns now task_id st err validate x s)"

definition STALE_COMMIT :: json where
  "STALE_COMMIT = JObj [(''reason'', JStr ''new_task_commit_requires_acceptance''), (''state'', JStr ''stale'')]"

definition commit_verification :: "string \<Rightarrow> json option \<Rightarrow> task \<Rightarrow> dict option" where
  "commit_verification sha publication t =
     (if t_verification t = None \<and> publication = None then None
      else let base = (case map_of (vr t) ''acceptance'' of
                         Some a \<Rightarrow>
                           if sha \<notin> set (t_commits t) \<and> jtext (sub_dict (vr t) ''acceptance'') ''source_commit'' \<noteq> Some sha
                           then jput ''acceptance'' (jconcat a STALE_COMMIT) (vr t) else vr t
                       | None \<Rightarrow> vr t)
           in Some (case publication of Some p \<Rightarrow> jput ''publication'' p base | None \<Rightarrow> base))"

definition add_commit ::
  "int \<Rightarrow> string \<Rightarrow> string \<Rightarrow> string option \<Rightarrow> json option \<Rightarrow> string option \<Rightarrow> store \<Rightarrow> task option \<times> store" where
  "add_commit now task_id sha project publication merge_sha s =
     (let i = canonicalize_task_id task_id in
      case map_of (tasks s) i of
        None \<Rightarrow> (None, s)
      | Some t \<Rightarrow>
          if project = None \<or> project = Some (t_project_id t)
          then let t' = t\<lparr>t_commits := (if sha \<in> set (t_commits t) then t_commits t else t_commits t @ [sha]),
                          t_verification := commit_verification sha publication t,
                          t_merge_sha := (case merge_sha of Some m \<Rightarrow> Some m | None \<Rightarrow> t_merge_sha t),
                          t_updated_at := now\<rparr>
               in (Some t', set_task i t' s)
          else (None, s))"

text \<open>\<open>add_agent_hub_session\<close> takes the id as it is stored.\<close>

definition add_agent_hub_session :: "string \<Rightarrow> string \<Rightarrow> store \<Rightarrow> task option \<times> store" where
  "add_agent_hub_session i session s =
     (case map_of (tasks s) i of
        None \<Rightarrow> (None, s)
      | Some t \<Rightarrow>
          if session \<in> set (t_sessions t) then (Some t, s)
          else let t' = t\<lparr>t_sessions := t_sessions t @ [session]\<rparr> in (Some t', set_task i t' s))"

definition get_agent_hub_sessions :: "string \<Rightarrow> store \<Rightarrow> string list" where
  "get_agent_hub_sessions i s = (case map_of (tasks s) i of Some t \<Rightarrow> t_sessions t | None \<Rightarrow> [])"

section \<open>Closeout intents and receipts\<close>

text \<open>
  The compare-and-set guards of \<open>store_closeout\<close>; an absent expectation always holds. The last
  one compares whole receipts, an absent one counting as the empty object.
\<close>

record closeout_guard =
  g_request_id :: "string option"
  g_closeout :: "dict option"
  g_source_sha :: "string option"
  g_worker :: "string option"
  g_claimed_at :: "int option"
  g_acceptance :: "dict option"
  g_verification :: dict

definition entry_is :: "dict \<Rightarrow> string \<Rightarrow> json \<Rightarrow> bool" where
  "entry_is d k v \<longleftrightarrow> (case map_of d k of Some w \<Rightarrow> w | None \<Rightarrow> JObj []) = v"

definition prior_matches :: "dict \<Rightarrow> dict \<Rightarrow> bool" where
  "prior_matches d prior \<longleftrightarrow> list_all (\<lambda>(k, v). entry_is d k v) prior"

definition guard_holds :: "int \<Rightarrow> closeout_guard \<Rightarrow> task \<Rightarrow> bool" where
  "guard_holds now g t \<longleftrightarrow>
     (case g_request_id g of None \<Rightarrow> True | Some r \<Rightarrow> jtext (sub_dict (vr t) ''closeout'') ''request_id'' = Some r) \<and>
     (case g_closeout g of None \<Rightarrow> True | Some c \<Rightarrow> entry_is (vr t) ''closeout'' (JObj c)) \<and>
     (case g_source_sha g of
        None \<Rightarrow> True
      | Some sha \<Rightarrow>
          t_status t \<in> set [''pending'', ''running'', ''completed''] \<and>
          jtext (sub_dict (vr t) ''acceptance'') ''state'' = Some ''success'' \<and>
          jtext (sub_dict (vr t) ''acceptance'') ''source_commit'' = Some sha) \<and>
     (case g_worker g of None \<Rightarrow> True | Some w \<Rightarrow> owned_claim now (t_project_id t) w (g_claimed_at g) t) \<and>
     (case g_acceptance g of None \<Rightarrow> True | Some a \<Rightarrow> entry_is (vr t) ''acceptance'' (JObj a)) \<and>
     prior_matches (vr t) (g_verification g)"

text \<open>An update of the evidence column of one row that satisfies its \<open>WHERE\<close> clause: whether a row changed.\<close>

definition update_evidence :: "int \<Rightarrow> string \<Rightarrow> (task \<Rightarrow> bool) \<Rightarrow> dict \<Rightarrow> store \<Rightarrow> bool \<times> store" where
  "update_evidence now i ok receipts s =
     (case map_of (tasks s) i of
        Some t \<Rightarrow>
          if ok t then (True, set_task i (t\<lparr>t_verification := Some (jmerge (vr t) receipts), t_updated_at := now\<rparr>) s)
          else (False, s)
      | None \<Rightarrow> (False, s))"

definition store_closeout ::
  "int \<Rightarrow> string \<Rightarrow> string \<Rightarrow> dict \<Rightarrow> closeout_guard \<Rightarrow> store \<Rightarrow> (task_error, bool) result \<times> store" where
  "store_closeout now task_id project closeout g s =
     (if g_worker g \<noteq> None \<and> g_claimed_at g = None then (raise ExactClaimRequired, s)
      else case update_evidence now (canonicalize_task_id task_id) (\<lambda>t. t_project_id t = project \<and> guard_holds now g t)
                  [(''closeout'', JObj closeout)] s of
             (changed, s') \<Rightarrow>
               if \<not> changed \<and> g_request_id g = None \<and> g_closeout g = None \<and> g_source_sha g = None
               then (raise NotInProject, s) else (return changed, s'))"

definition pending_closeout_ids :: "store \<Rightarrow> string list" where
  "pending_closeout_ids s =
     map fst (sort_key (\<lambda>(i, t). (t_updated_at t, i)) (filter
       (\<lambda>(i, t). jtext (sub_dict (vr t) ''closeout'') ''state'' = Some ''pending'' \<and>
          jtext (sub_dict (vr t) ''closeout'') ''kind'' = Some ''local_closeout.v1'' \<and>
          t_status t \<in> set [''pending'', ''running'', ''completed'']) (tasks s)))"

definition release_closeout_claim :: "int \<Rightarrow> string \<Rightarrow> string \<Rightarrow> string \<Rightarrow> store \<Rightarrow> bool \<times> store" where
  "release_closeout_claim now task_id project request_id s =
     (let i = canonicalize_task_id task_id in
      case map_of (tasks s) i of
        None \<Rightarrow> (False, s)
      | Some t \<Rightarrow>
          (let co = sub_dict (vr t) ''closeout'' in
           if t_project_id t = project \<and> t_status t \<in> set [''pending'', ''running''] \<and>
              jtext co ''request_id'' = Some request_id \<and> jtext co ''state'' \<in> set [Some ''pending'', Some ''blocked'']
           then (True, set_task i (t\<lparr>t_status := ''pending'', t_claimed_by := None, t_claimed_at := None,
                                     t_lock_expires_at := None, t_updated_at := now\<rparr>) s)
           else (False, s)))"

definition LOCAL_RECEIPTS :: "string list" where
  "LOCAL_RECEIPTS = [''acceptance'', ''deployment'', ''live_validation'']"

definition only_keys :: "string list \<Rightarrow> dict \<Rightarrow> bool" where
  "only_keys ks d \<longleftrightarrow> d \<noteq> [] \<and> list_all (\<lambda>(k, v). k \<in> set ks) d"

definition merge_in_project ::
  "int \<Rightarrow> string list \<Rightarrow> string \<Rightarrow> string \<Rightarrow> dict \<Rightarrow> store \<Rightarrow> (task_error, unit) result \<times> store" where
  "merge_in_project now keys task_id project receipts s =
     (if \<not> only_keys keys receipts then (raise UnsupportedReceipt, s)
      else case update_evidence now (canonicalize_task_id task_id) (\<lambda>t. t_project_id t = project) receipts s of
             (changed, s') \<Rightarrow> if changed then (return (), s') else (raise NotInProject, s))"

definition store_verification ::
  "int \<Rightarrow> string \<Rightarrow> string \<Rightarrow> dict \<Rightarrow> store \<Rightarrow> (task_error, unit) result \<times> store" where
  "store_verification now task_id project receipts s = merge_in_project now LOCAL_RECEIPTS task_id project receipts s"

definition EXECUTION_VERIFICATION_KEYS :: "string list" where
  "EXECUTION_VERIFICATION_KEYS =
     [''autonomous_failure'', ''evidence_verified'', ''execution_clean'', ''external_work'', ''subtask_count'',
      ''total_extensions_granted'', ''total_self_fix_attempts'', ''total_supervisor_attempts'', ''verification_source'']"

definition store_execution_verification ::
  "int \<Rightarrow> string \<Rightarrow> string \<Rightarrow> dict \<Rightarrow> store \<Rightarrow> (task_error, unit) result \<times> store" where
  "store_execution_verification now task_id project facts s =
     merge_in_project now EXECUTION_VERIFICATION_KEYS task_id project facts s"

definition store_owned_verification ::
  "int \<Rightarrow> string \<Rightarrow> string \<Rightarrow> dict \<Rightarrow> string \<Rightarrow> int option \<Rightarrow> dict \<Rightarrow> store \<Rightarrow> (task_error, bool) result \<times> store" where
  "store_owned_verification now task_id project receipts worker claimed expected s =
     (if \<not> only_keys LOCAL_RECEIPTS receipts then (raise UnsupportedReceipt, s)
      else if worker = [] \<or> claimed = None then (raise ExactClaimRequired, s)
      else let prior = map (\<lambda>(k, _). (k, if truth (get expected k) then get expected k else JObj [])) receipts in
           case update_evidence now (canonicalize_task_id task_id)
                  (\<lambda>t. owned_claim now project worker claimed t \<and> prior_matches (vr t) prior) receipts s of
             (changed, s') \<Rightarrow> (return changed, s'))"

definition store_owned_acceptance ::
  "int \<Rightarrow> string \<Rightarrow> string \<Rightarrow> dict \<Rightarrow> string \<Rightarrow> int option \<Rightarrow> dict \<Rightarrow> store \<Rightarrow> (task_error, bool) result \<times> store" where
  "store_owned_acceptance now task_id project receipt worker claimed expected s =
     (if worker = [] \<or> claimed = None \<or> \<not> has_str receipt ''state'' ''success'' then (raise ExactClaimRequired, s)
      else store_owned_verification now task_id project [(''acceptance'', JObj receipt)] worker claimed
             [(''acceptance'', JObj expected)] s)"

definition retire_remote_closeout ::
  "int \<Rightarrow> string \<Rightarrow> string \<Rightarrow> string \<Rightarrow> dict \<Rightarrow> store \<Rightarrow> (task_error, bool) result \<times> store" where
  "retire_remote_closeout now at_iso task_id project expected s =
     (if expected = [] \<or> has_str expected ''kind'' ''local_closeout.v1'' then (raise NotLegacyCloseout, s)
      else let retired = jmerge expected [(''state'', JStr ''retired''), (''reason'', JStr ''no_longer_required''),
                                          (''retired_at'', JStr at_iso), (''previous_closeout'', JObj expected)] in
           case update_evidence now (canonicalize_task_id task_id)
                  (\<lambda>t. t_project_id t = project \<and> map_of (vr t) ''closeout'' = Some (JObj expected))
                  [(''closeout'', JObj retired)] s of
             (changed, s') \<Rightarrow> (return changed, s'))"

text \<open>
  The cleanups run a callback under the row lock; the argument says whether it returns, since
  a raise rolls the transaction back.
\<close>

definition closeout_finished :: "string \<Rightarrow> string \<Rightarrow> task \<Rightarrow> bool" where
  "closeout_finished request_id sha t \<longleftrightarrow>
     (let intent = get_dict (vr t) ''closeout''; acceptance = get_dict (vr t) ''acceptance'' in
      t_status t = ''completed'' \<and> has_str intent ''kind'' ''local_closeout.v1'' \<and>
      has_str intent ''request_id'' request_id \<and> has_str intent ''source_sha'' sha \<and>
      has_str acceptance ''state'' ''success'' \<and> has_str acceptance ''source_commit'' sha)"

definition finish_closeout_cleanup ::
  "int \<Rightarrow> string \<Rightarrow> string \<Rightarrow> string \<Rightarrow> string \<Rightarrow> string \<Rightarrow> bool \<Rightarrow> store \<Rightarrow> (task_error, bool) result \<times> store" where
  "finish_closeout_cleanup now at_iso task_id project request_id sha cleanup_returns s =
     (let i = canonicalize_task_id task_id in
      case map_of (tasks s) i of
        None \<Rightarrow> (return False, s)
      | Some t \<Rightarrow>
          if t_project_id t = project \<and> closeout_finished request_id sha t
          then (if \<not> cleanup_returns then (raise CleanupRaised, s)
                else let finished = jmerge (get_dict (vr t) ''closeout'')
                           [(''state'', JStr ''complete''), (''completed_at'', JStr at_iso), (''reason'', JStr [])]
                     in (return True,
                         set_task i (t\<lparr>t_verification := Some (jmerge (vr t) [(''closeout'', JObj finished)]), t_updated_at := now\<rparr>) s))
          else (return False, s))"

definition cleanup_completed_checkpoint ::
  "string \<Rightarrow> string \<Rightarrow> dict \<Rightarrow> bool \<Rightarrow> bool \<Rightarrow> store \<Rightarrow> (task_error, bool) result" where
  "cleanup_completed_checkpoint task_id project expected require_acceptance cleanup_returns s =
     (case map_of (tasks s) (canonicalize_task_id task_id) of
        None \<Rightarrow> return False
      | Some t \<Rightarrow>
          (let acceptance = get_dict (vr t) ''acceptance'' in
           if t_project_id t \<noteq> project \<or> t_status t \<noteq> ''completed'' \<or> acceptance \<noteq> expected \<or>
              (require_acceptance \<and> \<not> has_str acceptance ''state'' ''success'') then return False
           else if cleanup_returns then return True else raise CleanupRaised))"

end
