(* ===== verification/Dependencies.thy ===== *)
theory Dependencies
  imports TaskStore
begin

text \<open>
  Ordering of work: the dependency order of subtasks (\<open>build_graph\<close> and \<open>kahn_sort\<close> of
  \<open>backend/app/storage/_subtask_dep_helpers.py\<close> and the ordering of \<open>st\<close>'s progress view,
  \<open>backend/cli/commands/tasks_progress.py\<close>), the subtask dependency table with the cycle
  trigger of its schema (\<open>subtask_dependencies.py\<close>), the gate that lets a subtask pass
  (\<open>subtasks_passes.py\<close>) and the dependencies between tasks (\<open>task_dependencies.py\<close>).

  Database errors are values; a raised error leaves the tables as they were (rollback).
\<close>

datatype dep_error =
    DepKeyError string
  | CycleError "string list"
  | SelfDependency string
  | ForeignKeyViolation
  | SubtaskGateError "string list"
  | ProjectClaimRequired
  | PrerequisiteClaimChanged
  | InvalidDependencyType string

section \<open>Kahn's algorithm\<close>

type_synonym degrees = "(string \<times> int) list"
type_synonym adjacency = "(string \<times> string list) list"

text \<open>\<open>{s: v for s in xs}\<close>\<close>

definition dict_from :: "string list \<Rightarrow> 'v \<Rightarrow> (string \<times> 'v) list" where
  "dict_from xs v = fold (\<lambda>s. dict_set s v) xs []"

fun add_edges :: "(string \<times> string) list \<Rightarrow> degrees \<Rightarrow> adjacency \<Rightarrow> (dep_error, degrees \<times> adjacency) result" where
  "add_edges [] deg adj = return (deg, adj)"
| "add_edges ((subtask_id, depends_on) # es) deg adj =
     (if map_of deg depends_on = None then add_edges es deg adj
      else case map_of deg subtask_id of
             None \<Rightarrow> raise (DepKeyError subtask_id)
           | Some n \<Rightarrow>
               (case map_of adj depends_on of
                  None \<Rightarrow> raise (DepKeyError depends_on)
                | Some ds \<Rightarrow> add_edges es (dict_set subtask_id (n + 1) deg)
                                          (dict_set depends_on (ds @ [subtask_id]) adj)))"

definition build_graph ::
  "string list \<Rightarrow> (string \<times> string) list \<Rightarrow> (dep_error, degrees \<times> adjacency) result" where
  "build_graph all_subtasks dependencies =
     add_edges dependencies (dict_from all_subtasks 0) (dict_from all_subtasks [])"

text \<open>The inner loop over \<open>dependents[current]\<close>.\<close>

fun relax :: "string list \<Rightarrow> degrees \<Rightarrow> string list \<Rightarrow> (dep_error, degrees \<times> string list) result" where
  "relax [] deg queue = return (deg, queue)"
| "relax (d # ds) deg queue =
     (case map_of deg d of
        None \<Rightarrow> raise (DepKeyError d)
      | Some n \<Rightarrow> relax ds (dict_set d (n - 1) deg) (if n - 1 = 0 then queue @ [d] else queue))"

definition positives :: "degrees \<Rightarrow> nat" where
  "positives deg = length (filter (\<lambda>(_, n). n > 0) deg)"

lemma positives_dict_set:
  "map_of deg d = Some n \<Longrightarrow>
   positives (dict_set d m deg) + (if n > 0 then 1 else 0) = positives deg + (if m > 0 then 1 else 0)"
  by (induction deg) (auto simp: positives_def split: if_splits)

lemma relax_measure:
  "relax ds deg q = Inr (deg', q') \<Longrightarrow> length q' + positives deg' \<le> length q + positives deg"
proof (induction ds arbitrary: deg q)
  case (Cons d ds)
  then obtain n where n: "map_of deg d = Some n" by (auto split: option.splits)
  from Cons.prems n have "relax ds (dict_set d (n - 1) deg) (if n - 1 = 0 then q @ [d] else q) = Inr (deg', q')"
    by simp
  from Cons.IH [OF this] positives_dict_set [OF n, of "n - 1"] show ?case by (auto split: if_splits)
qed simp

text \<open>The \<open>while queue\<close> loop; each turn either shortens the queue or uses up a positive degree.\<close>

function kahn_loop ::
  "adjacency \<Rightarrow> string list \<Rightarrow> degrees \<Rightarrow> string list \<Rightarrow> (dep_error, string list \<times> degrees) result" where
  "kahn_loop adj [] deg result = return (result, deg)"
| "kahn_loop adj (current # queue) deg result =
     (case map_of adj current of
        None \<Rightarrow> raise (DepKeyError current)
      | Some ds \<Rightarrow>
          (case relax ds deg queue of
             Inl e \<Rightarrow> raise e
           | Inr (deg', queue') \<Rightarrow> kahn_loop adj queue' deg' (result @ [current])))"
  by pat_completeness auto
termination
  by (relation "measure (\<lambda>(_, q, deg, _). length q + positives deg)") (auto dest!: relax_measure)

definition kahn_sort :: "string list \<Rightarrow> degrees \<Rightarrow> adjacency \<Rightarrow> (dep_error, string list) result" where
  "kahn_sort all_subtasks in_degree dependents =
     (case List.find (\<lambda>s. map_of in_degree s = None) all_subtasks of
        Some s \<Rightarrow> raise (DepKeyError s)
      | None \<Rightarrow>
          (case kahn_loop dependents (filter (\<lambda>s. map_of in_degree s = Some 0) all_subtasks) in_degree [] of
             Inl e \<Rightarrow> raise e
           | Inr (result, deg) \<Rightarrow>
               if length result \<noteq> length all_subtasks
               then raise (CycleError (filter (\<lambda>s. case map_of deg s of Some n \<Rightarrow> n > 0 | None \<Rightarrow> False) all_subtasks))
               else return result))"

section \<open>The progress view\<close>

definition sub_key :: "dict \<Rightarrow> string" where
  "sub_key subtask = json_str (get_or subtask ''subtask_id'' (JStr []))"

definition ordered_ids :: "dict list \<Rightarrow> string list" where
  "ordered_ids sts = map sub_key (filter (\<lambda>s. truth (get s ''subtask_id'')) sts)"

definition dependency_pairs :: "dict list \<Rightarrow> (string \<times> string) list" where
  "dependency_pairs sts =
     concat (map (\<lambda>s. if sub_key s = [] then [] else
                       case get s ''depends_on'' of
                         JList ds \<Rightarrow> map (Pair (sub_key s)) (filter (\<lambda>d. d \<in> set (ordered_ids sts)) (map json_str ds))
                       | _ \<Rightarrow> [])
              sts)"

text \<open>\<open>{x: i for i, x in enumerate(xs)}\<close> read with a default.\<close>

fun position :: "string list \<Rightarrow> string \<Rightarrow> nat" where
  "position [] x = 0"
| "position (y # ys) x = (if x = y \<and> x \<notin> set ys then 0 else Suc (position ys x))"

definition dependency_ordered_subtasks :: "dict list \<Rightarrow> (dep_error, dict list) result" where
  "dependency_ordered_subtasks sts =
     (let ids = ordered_ids sts in
      if ids = [] then return sts
      else case build_graph ids (dependency_pairs sts) of
             Inl (CycleError p) \<Rightarrow> return sts
           | Inl e \<Rightarrow> raise e
           | Inr (in_degree, dependents) \<Rightarrow>
               (case kahn_sort ids in_degree dependents of
                  Inl (CycleError p) \<Rightarrow> return sts
                | Inl e \<Rightarrow> raise e
                | Inr topo_ids \<Rightarrow> return (sort_key (\<lambda>s. position topo_ids (sub_key s)) sts)))"

section \<open>Subtask rows and their dependency table\<close>

record subtask =
  st_task_id :: string
  st_subtask_id :: string
  st_passes :: bool
  st_passed_at :: "int option"
  st_display_order :: int

record listed_task = task +
  t_title :: string
  t_priority :: int
  t_created_at :: int
  t_task_type :: string

record task_dep =
  td_id :: nat
  td_task :: string
  td_on :: string
  td_type :: string
  td_created :: int

record plan =
  plan_tasks :: "(string \<times> listed_task) list"
  plan_subs :: "(string \<times> subtask) list"
  plan_sub_deps :: "(string \<times> string) list"
  plan_task_deps :: "task_dep list"

text \<open>The trigger's recursive query: the rows found by following dependencies for at most \<open>depth\<close> levels.\<close>

fun dependency_chain :: "nat \<Rightarrow> (string \<times> string) list \<Rightarrow> string list \<Rightarrow> string list" where
  "dependency_chain 0 deps rows = []"
| "dependency_chain (Suc depth) deps rows =
     rows @ dependency_chain depth deps (concat (map (\<lambda>x. map snd (filter (\<lambda>(a, _). a = x) deps)) rows))"

definition cycle_detected :: "(string \<times> string) list \<Rightarrow> string \<Rightarrow> string \<Rightarrow> bool" where
  "cycle_detected deps subtask_id depends_on \<longleftrightarrow> subtask_id \<in> set (dependency_chain 100 deps [depends_on])"

text \<open>One row of the insert: trigger, unique key (\<open>DO NOTHING\<close>), foreign keys; the flag says whether it was inserted.\<close>

definition insert_dep :: "string \<Rightarrow> string \<Rightarrow> plan \<Rightarrow> (dep_error, bool \<times> plan) result" where
  "insert_dep subtask_id depends_on p =
     (if cycle_detected (plan_sub_deps p) subtask_id depends_on then raise (CycleError [])
      else if (subtask_id, depends_on) \<in> set (plan_sub_deps p) then return (False, p)
      else if map_of (plan_subs p) subtask_id = None \<or> map_of (plan_subs p) depends_on = None
      then raise ForeignKeyViolation
      else return (True, p\<lparr>plan_sub_deps := plan_sub_deps p @ [(subtask_id, depends_on)]\<rparr>))"

definition add_subtask_dependency :: "string \<Rightarrow> string \<Rightarrow> plan \<Rightarrow> (dep_error, bool \<times> plan) result" where
  "add_subtask_dependency subtask_id depends_on p =
     (if subtask_id = depends_on then raise (SelfDependency subtask_id) else insert_dep subtask_id depends_on p)"

definition remove_subtask_dependency :: "string \<Rightarrow> string \<Rightarrow> plan \<Rightarrow> bool \<times> plan" where
  "remove_subtask_dependency subtask_id depends_on p =
     ((subtask_id, depends_on) \<in> set (plan_sub_deps p),
      p\<lparr>plan_sub_deps := filter (\<lambda>e. e \<noteq> (subtask_id, depends_on)) (plan_sub_deps p)\<rparr>)"

definition get_subtask_dependencies :: "string \<Rightarrow> plan \<Rightarrow> string list" where
  "get_subtask_dependencies subtask_id p = map snd (filter (\<lambda>(a, _). a = subtask_id) (plan_sub_deps p))"

text \<open>\<open>JOIN task_subtasks ts ON sd.depends_on_subtask_id = ts.id WHERE \<dots> AND ts.passes = FALSE\<close>\<close>

definition get_blocking_dependencies :: "string \<Rightarrow> plan \<Rightarrow> (string \<times> subtask) list" where
  "get_blocking_dependencies subtask_id p =
     List.map_filter
       (\<lambda>d. case map_of (plan_subs p) d of
              Some r \<Rightarrow> if st_passes r then None else Some (d, r)
            | None \<Rightarrow> None)
       (get_subtask_dependencies subtask_id p)"

definition is_blocked :: "string \<Rightarrow> plan \<Rightarrow> bool" where
  "is_blocked subtask_id p \<longleftrightarrow> get_blocking_dependencies subtask_id p \<noteq> []"

definition get_all_dependencies_for_task :: "string \<Rightarrow> plan \<Rightarrow> (string \<times> string) list" where
  "get_all_dependencies_for_task task_id p =
     filter (\<lambda>(a, _). case map_of (plan_subs p) a of Some r \<Rightarrow> st_task_id r = task_id | None \<Rightarrow> False) (plan_sub_deps p)"

definition fetch_task_subtasks_and_deps :: "string \<Rightarrow> plan \<Rightarrow> string list \<times> (string \<times> string) list" where
  "fetch_task_subtasks_and_deps task_id p =
     (let all_subtasks = map fst (sort_key (\<lambda>(_, r). st_display_order r) (filter (\<lambda>(_, r). st_task_id r = task_id) (plan_subs p)))
      in if all_subtasks = [] then ([], []) else (all_subtasks, get_all_dependencies_for_task task_id p))"

fun insert_deps :: "(string \<times> string) list \<Rightarrow> plan \<Rightarrow> (dep_error, plan) result" where
  "insert_deps [] p = return p"
| "insert_deps ((a, d) # ds) p =
     (case insert_dep a d p of Inl e \<Rightarrow> raise e | Inr (_, p') \<Rightarrow> insert_deps ds p')"

definition bulk_add_dependencies ::
  "(string \<times> string) list \<Rightarrow> plan \<Rightarrow> (dep_error, (string \<times> string) list \<times> plan) result" where
  "bulk_add_dependencies dependencies p =
     (if dependencies = [] then return ([], p)
      else case List.find (\<lambda>(a, d). a = d) dependencies of
             Some (a, _) \<Rightarrow> raise (SelfDependency a)
           | None \<Rightarrow>
               (case insert_deps dependencies p of
                  Inl e \<Rightarrow> raise e
                | Inr p' \<Rightarrow> return (filter (\<lambda>e. e \<in> set dependencies) (plan_sub_deps p'), p')))"

section \<open>The pass gate\<close>

definition generate_subtask_id :: "string \<Rightarrow> string \<Rightarrow> string" where
  "generate_subtask_id task_id subtask_id = task_id @ ''-'' @ subtask_id"

record exact_claim =
  oc_claimed_by :: string
  oc_claimed_at :: "int option"
  oc_project_id :: string

definition claim_exact :: "exact_claim \<Rightarrow> bool" where
  "claim_exact c \<longleftrightarrow> oc_claimed_by c \<noteq> [] \<and> oc_claimed_at c \<noteq> None \<and> oc_project_id c \<noteq> []"

definition claim_current :: "int \<Rightarrow> string \<Rightarrow> exact_claim \<Rightarrow> plan \<Rightarrow> bool" where
  "claim_current now task_id c p \<longleftrightarrow>
     (case map_of (plan_tasks p) task_id of
        None \<Rightarrow> False
      | Some t \<Rightarrow> t_project_id t = oc_project_id c \<and> t_status t = ''running''
                  \<and> t_claimed_by t = Some (oc_claimed_by c) \<and> t_claimed_at t = oc_claimed_at c
                  \<and> (case t_lock_expires_at t of Some e \<Rightarrow> e > now | None \<Rightarrow> False))"

definition blocker_names :: "string \<Rightarrow> plan \<Rightarrow> string list" where
  "blocker_names table_id p =
     map (\<lambda>(_, r). st_subtask_id r)
       (sort_key (\<lambda>(_, r). (st_display_order r, st_subtask_id r)) (get_blocking_dependencies table_id p))"

text \<open>\<open>enforce_subtask_dependencies\<close>: fires only when \<open>passes\<close> turns true.\<close>

definition pass_trigger_refuses :: "string \<Rightarrow> subtask \<Rightarrow> plan \<Rightarrow> bool" where
  "pass_trigger_refuses table_id r p \<longleftrightarrow> \<not> st_passes r \<and> get_blocking_dependencies table_id p \<noteq> []"

definition clear_subtask_passes :: "string \<Rightarrow> plan \<Rightarrow> subtask option \<times> plan" where
  "clear_subtask_passes table_id p =
     (case map_of (plan_subs p) table_id of
        None \<Rightarrow> (None, p)
      | Some r \<Rightarrow> let r' = r\<lparr>st_passes := False, st_passed_at := None\<rparr>
                  in (Some r', p\<lparr>plan_subs := dict_set table_id r' (plan_subs p)\<rparr>))"

definition set_subtask_passes ::
  "int \<Rightarrow> string \<Rightarrow> string \<Rightarrow> exact_claim option \<Rightarrow> plan \<Rightarrow> (dep_error, subtask option \<times> plan) result" where
  "set_subtask_passes now table_id task_id claim p =
     (if (case claim of Some c \<Rightarrow> \<not> claim_exact c | None \<Rightarrow> False) then raise ProjectClaimRequired
      else if (case claim of Some c \<Rightarrow> \<not> claim_current now task_id c p | None \<Rightarrow> False)
      then raise PrerequisiteClaimChanged
      else let blockers = blocker_names table_id p in
           if join_with '', '' blockers \<noteq> [] then raise (SubtaskGateError blockers)
           else case map_of (plan_subs p) table_id of
                  None \<Rightarrow> return (None, p)
                | Some r \<Rightarrow>
                    if pass_trigger_refuses table_id r p then raise (SubtaskGateError blockers)
                    else let r' = r\<lparr>st_passes := True, st_passed_at := Some now\<rparr>
                         in return (Some r', p\<lparr>plan_subs := dict_set table_id r' (plan_subs p)\<rparr>))"

definition update_subtask_passes ::
  "int \<Rightarrow> string \<Rightarrow> string \<Rightarrow> bool \<Rightarrow> exact_claim option \<Rightarrow> plan \<Rightarrow> (dep_error, subtask option \<times> plan) result" where
  "update_subtask_passes now task_id subtask_id passes claim p =
     (let table_id = generate_subtask_id task_id subtask_id in
      if \<not> passes then return (clear_subtask_passes table_id p)
      else set_subtask_passes now table_id task_id claim p)"

section \<open>Dependencies between tasks\<close>

definition VALID_DEPENDENCY_TYPES :: "string list" where
  "VALID_DEPENDENCY_TYPES = [''blocks'', ''discovered-from'']"

definition same_dep :: "string \<Rightarrow> string \<Rightarrow> string \<Rightarrow> task_dep \<Rightarrow> bool" where
  "same_dep a b ty d \<longleftrightarrow> td_task d = a \<and> td_on d = b \<and> td_type d = ty"

definition next_dep_id :: "plan \<Rightarrow> nat" where
  "next_dep_id p = Suc (fold (max \<circ> td_id) (plan_task_deps p) 0)"

definition add_task_dependency ::
  "int \<Rightarrow> string \<Rightarrow> string \<Rightarrow> string \<Rightarrow> plan \<Rightarrow> (dep_error, task_dep option \<times> plan) result" where
  "add_task_dependency now task_id depends_on ty p =
     (if ty \<notin> set VALID_DEPENDENCY_TYPES then raise (InvalidDependencyType ty)
      else if task_id = depends_on then raise (SelfDependency task_id)
      else case List.find (same_dep task_id depends_on ty) (plan_task_deps p) of
             Some d \<Rightarrow> return (Some d, p)
           | None \<Rightarrow>
               if map_of (plan_tasks p) task_id = None \<or> map_of (plan_tasks p) depends_on = None then return (None, p)
               else let d = \<lparr>td_id = next_dep_id p, td_task = task_id, td_on = depends_on, td_type = ty, td_created = now\<rparr>
                    in return (Some d, p\<lparr>plan_task_deps := plan_task_deps p @ [d]\<rparr>))"

definition remove_task_dependency :: "string \<Rightarrow> string \<Rightarrow> string option \<Rightarrow> plan \<Rightarrow> bool \<times> plan" where
  "remove_task_dependency task_id depends_on ty p =
     (let hit = (\<lambda>d. td_task d = task_id \<and> td_on d = depends_on \<and>
                     (case ty of Some t \<Rightarrow> t = [] \<or> td_type d = t | None \<Rightarrow> True))
      in (List.find hit (plan_task_deps p) \<noteq> None, p\<lparr>plan_task_deps := filter (\<lambda>d. \<not> hit d) (plan_task_deps p)\<rparr>))"

text \<open>\<open>JOIN tasks t ON d.depends_on_task_id = t.id\<close>\<close>

definition joined :: "plan \<Rightarrow> (task_dep \<times> listed_task) list" where
  "joined p = List.map_filter (\<lambda>d. map_option (Pair d) (map_of (plan_tasks p) (td_on d))) (plan_task_deps p)"

definition get_task_dependencies :: "string \<Rightarrow> plan \<Rightarrow> (task_dep \<times> listed_task) list" where
  "get_task_dependencies task_id p =
     sort_key (\<lambda>(d, _). td_created d) (filter (\<lambda>(d, _). td_task d = task_id) (joined p))"

definition unresolved :: "task_dep \<times> listed_task \<Rightarrow> bool" where
  "unresolved = (\<lambda>(d, t). td_type d = ''blocks'' \<and> t_status t \<notin> set [''completed''])"

definition blocker_row :: "task_dep \<times> listed_task \<Rightarrow> string \<times> string \<times> string \<times> int" where
  "blocker_row = (\<lambda>(d, t). (td_on d, t_title t, t_status t, t_priority t))"

definition blocker_order :: "task_dep \<times> listed_task \<Rightarrow> int \<times> int" where
  "blocker_order = (\<lambda>(_, t). (t_priority t, t_created_at t))"

definition get_blocking_tasks :: "string \<Rightarrow> plan \<Rightarrow> (string \<times> string \<times> string \<times> int) list" where
  "get_blocking_tasks task_id p =
     map blocker_row (sort_key blocker_order (filter (\<lambda>e. td_task (fst e) = task_id \<and> unresolved e) (joined p)))"

text \<open>\<open>result.setdefault(row[0], []).append(\<dots>)\<close>\<close>

definition group_row ::
  "task_dep \<times> listed_task \<Rightarrow> (string \<times> (string \<times> string \<times> string \<times> int) list) list
   \<Rightarrow> (string \<times> (string \<times> string \<times> string \<times> int) list) list" where
  "group_row e acc =
     (let k = td_task (fst e) in
      dict_set k ((case map_of acc k of Some rs \<Rightarrow> rs | None \<Rightarrow> []) @ [blocker_row e]) acc)"

definition get_blocking_tasks_batch ::
  "string list \<Rightarrow> plan \<Rightarrow> (string \<times> (string \<times> string \<times> string \<times> int) list) list" where
  "get_blocking_tasks_batch task_ids p =
     (if task_ids = [] then []
      else fold group_row
             (sort_key blocker_order (filter (\<lambda>e. td_task (fst e) \<in> set task_ids \<and> unresolved e) (joined p))) [])"

definition is_task_blocked :: "string \<Rightarrow> plan \<Rightarrow> bool" where
  "is_task_blocked task_id p \<longleftrightarrow> list_ex (\<lambda>e. td_task (fst e) = task_id \<and> unresolved e) (joined p)"

text \<open>\<open>JOIN tasks dependent ON d.task_id = dependent.id \<dots> GROUP BY d.depends_on_task_id\<close>\<close>

definition open_dependent :: "plan \<Rightarrow> task_dep \<Rightarrow> bool" where
  "open_dependent p d \<longleftrightarrow>
     td_type d = ''blocks'' \<and> (case map_of (plan_tasks p) (td_task d) of Some t \<Rightarrow> t_status t \<notin> set [''completed''] | None \<Rightarrow> False)"

definition count_blocked_dependents_batch :: "string list \<Rightarrow> plan \<Rightarrow> (string \<times> nat) list" where
  "count_blocked_dependents_batch task_ids p =
     (let rows = filter (\<lambda>d. td_on d \<in> set task_ids \<and> open_dependent p d) (plan_task_deps p)
      in if task_ids = [] then []
         else map (\<lambda>k. (k, length (filter (\<lambda>d. td_on d = k) rows))) (remdups (map td_on rows)))"

end
