(* ===== verification/DependencyFacts.thy ===== *)
theory DependencyFacts
  imports Dependencies
begin

text \<open>
  Facts about the ordering of work: Kahn's algorithm orders exactly the acyclic plans, the
  trigger keeps the dependency table acyclic, a subtask passes only after what it depends on,
  and the batch query of blocking tasks agrees with the single one.
\<close>

section \<open>The graph\<close>

text \<open>The edges the graph keeps: those whose dependency is one of the subtasks.\<close>

definition kept_edges :: "string list \<Rightarrow> (string \<times> string) list \<Rightarrow> (string \<times> string) list" where
  "kept_edges xs es = filter (\<lambda>(_, d). d \<in> set xs) es"

lemma map_of_fold_dict_set: "map_of (fold (\<lambda>s. dict_set s v) xs d) s = (if s \<in> set xs then Some v else map_of d s)"
  by (induction xs arbitrary: d) auto

lemma map_of_dict_from [simp]: "map_of (dict_from xs v) s = (if s \<in> set xs then Some v else None)"
  by (simp add: dict_from_def map_of_fold_dict_set)

text \<open>The degree of a node counts its kept edges; its adjacency lists who depends on it, edge by edge.\<close>

definition degree :: "(string \<times> string) list \<Rightarrow> string \<Rightarrow> nat" where
  "degree es s = length (filter (\<lambda>(a, _). a = s) es)"

definition dependents_of :: "(string \<times> string) list \<Rightarrow> string \<Rightarrow> string list" where
  "dependents_of es d = map fst (filter (\<lambda>(_, b). b = d) es)"

lemma add_edges_graph:
  assumes "\<forall>s. map_of deg s = (if s \<in> set xs then Some (f s) else None)"
    and "\<forall>s. map_of adj s = (if s \<in> set xs then Some (g s) else None)"
    and "fst ` set es \<subseteq> set xs"
  shows "\<exists>deg' adj'. add_edges es deg adj = Inr (deg', adj')
     \<and> (\<forall>s. map_of deg' s = (if s \<in> set xs then Some (f s + int (degree (kept_edges xs es) s)) else None))
     \<and> (\<forall>s. map_of adj' s = (if s \<in> set xs then Some (g s @ dependents_of (kept_edges xs es) s) else None))"
  using assms
proof (induction es arbitrary: deg adj f g)
  case Nil
  then show ?case by (simp add: kept_edges_def degree_def dependents_of_def)
next
  case (Cons e es)
  obtain a d where e: "e = (a, d)" by (cases e)
  have a: "a \<in> set xs" using Cons.prems(3) e by simp
  show ?case
  proof (cases "d \<in> set xs")
    case False
    then have skip: "kept_edges xs (e # es) = kept_edges xs es" "add_edges (e # es) deg adj = add_edges es deg adj"
      using Cons.prems(1) e by (simp_all add: kept_edges_def)
    have "fst ` set es \<subseteq> set xs" using Cons.prems(3) by simp
    then show ?thesis unfolding skip by (rule Cons.IH [OF Cons.prems(1,2)])
  next
    case True
    let ?deg = "dict_set a (f a + 1) deg" and ?adj = "dict_set d (g d @ [a]) adj"
    let ?f = "f(a := f a + 1)" and ?g = "g(d := g d @ [a])"
    have step: "add_edges (e # es) deg adj = add_edges es ?deg ?adj"
      using Cons.prems True a by (simp add: e)
    have "\<exists>deg' adj'. add_edges es ?deg ?adj = Inr (deg', adj')
     \<and> (\<forall>s. map_of deg' s = (if s \<in> set xs then Some (?f s + int (degree (kept_edges xs es) s)) else None))
     \<and> (\<forall>s. map_of adj' s = (if s \<in> set xs then Some (?g s @ dependents_of (kept_edges xs es) s) else None))"
      by (rule Cons.IH) (use Cons.prems True a in auto)
    then obtain deg' adj' where r: "add_edges es ?deg ?adj = Inr (deg', adj')"
      and d': "\<forall>s. map_of deg' s = (if s \<in> set xs then Some (?f s + int (degree (kept_edges xs es) s)) else None)"
      and a': "\<forall>s. map_of adj' s = (if s \<in> set xs then Some (?g s @ dependents_of (kept_edges xs es) s) else None)"
      by blast
    have "kept_edges xs (e # es) = (a, d) # kept_edges xs es" using True e by (simp add: kept_edges_def)
    then show ?thesis using step r d' a' by (simp add: degree_def dependents_of_def)
  qed
qed

lemma build_graph_spec:
  assumes "fst ` set es \<subseteq> set xs"
  obtains deg adj where "build_graph xs es = Inr (deg, adj)"
    "\<And>s. map_of deg s = (if s \<in> set xs then Some (int (degree (kept_edges xs es) s)) else None)"
    "\<And>s. map_of adj s = (if s \<in> set xs then Some (dependents_of (kept_edges xs es) s) else None)"
  using add_edges_graph [of "dict_from xs 0" xs "\<lambda>_. 0" "dict_from xs []" "\<lambda>_. []" es] assms
  by (auto simp: build_graph_def)

section \<open>The loop\<close>

lemma relax_spec:
  assumes "\<forall>s\<in>set ds. \<exists>n. map_of deg s = Some n \<and> int (count_list ds s) \<le> n"
  shows "\<exists>deg' new. relax ds deg q = Inr (deg', q @ new)
     \<and> (\<forall>s. map_of deg' s = map_option (\<lambda>n. n - int (count_list ds s)) (map_of deg s))
     \<and> distinct new \<and> set new = {s \<in> set ds. map_of deg s = Some (int (count_list ds s))}"
  using assms
proof (induction ds arbitrary: deg q)
  case Nil
  have "map_option (\<lambda>n. n - int (count_list [] s)) (map_of deg s) = map_of deg s" for s
    by (cases "map_of deg s") simp_all
  then show ?case by simp
next
  case (Cons d ds)
  obtain n where n: "map_of deg d = Some n" "int (count_list ds d) + 1 \<le> n" using Cons.prems by fastforce
  let ?deg = "dict_set d (n - 1) deg" and ?q = "if n - 1 = 0 then q @ [d] else q"
  have "\<forall>s\<in>set ds. \<exists>m. map_of ?deg s = Some m \<and> int (count_list ds s) \<le> m"
    using Cons.prems n by (fastforce split: if_splits)
  from Cons.IH [OF this, of ?q] obtain deg' new where r: "relax ds ?deg ?q = Inr (deg', ?q @ new)"
    and m: "\<forall>s. map_of deg' s = map_option (\<lambda>n. n - int (count_list ds s)) (map_of ?deg s)"
    and new: "distinct new" "set new = {s \<in> set ds. map_of ?deg s = Some (int (count_list ds s))}"
    by blast
  let ?new = "if n - 1 = 0 then d # new else new"
  have "relax (d # ds) deg q = Inr (deg', q @ ?new)" using r n by simp
  moreover have "\<forall>s. map_of deg' s = map_option (\<lambda>n. n - int (count_list (d # ds) s)) (map_of deg s)"
    using m n by (auto simp: option.map_comp o_def)
  moreover have "distinct ?new \<and> set ?new = {s \<in> set (d # ds). map_of deg s = Some (int (count_list (d # ds) s))}"
  proof (cases "n = 1")
    case True
    then have "count_list ds d = 0" using n by simp
    then have "d \<notin> set ds" by (simp add: count_list_0_iff)
    then show ?thesis using True n new by (auto simp: count_list_0_iff)
  next
    case False
    have "d \<in> set new \<longleftrightarrow> d \<in> set ds \<and> n = int (count_list ds d) + 1" using new n by auto
    moreover have "d \<in> set ds" if "n = int (count_list ds d) + 1"
      using that False by (cases "count_list ds d = 0") (auto simp: count_list_0_iff)
    ultimately have "d \<in> set new \<longleftrightarrow> n = int (count_list ds d) + 1" by blast
    moreover have "s \<in> set new \<longleftrightarrow> s \<in> set ds \<and> map_of deg s = Some (int (count_list ds s))" if "s \<noteq> d" for s
      using new that by simp
    ultimately have "s \<in> set new \<longleftrightarrow> s \<in> set (d # ds) \<and> map_of deg s = Some (int (count_list (d # ds) s))" for s
      using n by (cases "s = d") (simp_all add: add.commute)
    then have "set new = {s \<in> set (d # ds). map_of deg s = Some (int (count_list (d # ds) s))}" by blast
    then show ?thesis using False new(1) by simp
  qed
  ultimately show ?case by blast
qed

text \<open>
  The loop invariant: the processed nodes and the queue are distinct nodes, the remaining
  degree of a node counts its edges to unprocessed nodes, it is zero exactly for nodes
  processed or queued, and every processed node comes after the nodes it depends on.
\<close>

definition pending_degree :: "(string \<times> string) list \<Rightarrow> string list \<Rightarrow> string \<Rightarrow> nat" where
  "pending_degree es done s = length (filter (\<lambda>(a, d). a = s \<and> d \<notin> set done) es)"

definition well_ordered :: "(string \<times> string) list \<Rightarrow> string list \<Rightarrow> bool" where
  "well_ordered es r \<longleftrightarrow> (\<forall>a d. (a, d) \<in> set es \<and> a \<in> set r \<longrightarrow> (\<exists>us vs. r = us @ a # vs \<and> d \<in> set us))"

definition loop_inv :: "string list \<Rightarrow> (string \<times> string) list \<Rightarrow> string list \<Rightarrow> degrees \<Rightarrow> string list \<Rightarrow> bool" where
  "loop_inv xs es q deg r \<longleftrightarrow>
     distinct (r @ q) \<and> set (r @ q) \<subseteq> set xs
     \<and> (\<forall>s. map_of deg s = (if s \<in> set xs then Some (int (pending_degree es r s)) else None))
     \<and> (\<forall>s\<in>set xs. pending_degree es r s = 0 \<longleftrightarrow> s \<in> set (r @ q))
     \<and> well_ordered es r"

lemma pending_degree_snoc:
  "c \<notin> set r \<Longrightarrow> pending_degree es r s = pending_degree es (r @ [c]) s + count_list (dependents_of es c) s"
proof (induction es)
  case (Cons e es)
  then show ?case by (cases e) (auto simp: pending_degree_def dependents_of_def)
qed (simp add: pending_degree_def dependents_of_def)

lemma well_ordered_snoc:
  assumes "well_ordered es r" "c \<notin> set r" "pending_degree es r c = 0"
  shows "well_ordered es (r @ [c])"
  unfolding well_ordered_def
proof (intro allI impI, elim conjE)
  fix a d assume e: "(a, d) \<in> set es" and a: "a \<in> set (r @ [c])"
  show "\<exists>us vs. r @ [c] = us @ a # vs \<and> d \<in> set us"
  proof (cases "a = c")
    case True
    have "d \<in> set r"
    proof (rule ccontr)
      assume "d \<notin> set r"
      with e True have "(a, d) \<in> set (filter (\<lambda>(a, d). a = c \<and> d \<notin> set r) es)" by simp
      with assms(3) show False by (auto simp: pending_degree_def)
    qed
    with True show ?thesis by blast
  next
    case False
    with a have "a \<in> set r" by simp
    with assms(1) e obtain us vs where "r = us @ a # vs" "d \<in> set us" unfolding well_ordered_def by blast
    then have "r @ [c] = us @ a # (vs @ [c]) \<and> d \<in> set us" by simp
    then show ?thesis by blast
  qed
qed

lemma loop_inv_step:
  assumes inv: "loop_inv xs es (c # q) deg r" and nodes: "fst ` set es \<subseteq> set xs"
  shows "\<exists>deg' q'. relax (dependents_of es c) deg q = Inr (deg', q') \<and> loop_inv xs es q' deg' (r @ [c])"
proof -
  let ?ds = "dependents_of es c"
  have c: "c \<notin> set r" "c \<in> set xs" "c \<notin> set q" and deg: "\<And>s. map_of deg s = (if s \<in> set xs then Some (int (pending_degree es r s)) else None)"
    and zero: "\<And>s. s \<in> set xs \<Longrightarrow> pending_degree es r s = 0 \<longleftrightarrow> s \<in> set (r @ c # q)"
    using inv by (auto simp: loop_inv_def)
  have ds: "set ?ds \<subseteq> set xs" using nodes by (force simp: dependents_of_def)
  note split = pending_degree_snoc [OF c(1), of es]
  have "\<forall>s\<in>set ?ds. \<exists>n. map_of deg s = Some n \<and> int (count_list ?ds s) \<le> n"
    using ds deg split by auto
  from relax_spec [OF this, of q] obtain deg' new where r: "relax ?ds deg q = Inr (deg', q @ new)"
    and deg': "\<And>s. map_of deg' s = map_option (\<lambda>n. n - int (count_list ?ds s)) (map_of deg s)"
    and new: "distinct new" "set new = {s \<in> set ?ds. map_of deg s = Some (int (count_list ?ds s))}" by blast
  have new': "s \<in> set new \<longleftrightarrow> s \<in> set ?ds \<and> pending_degree es (r @ [c]) s = 0" for s
    using new ds deg split [of s] by auto
  have fresh: "s \<notin> set (r @ c # q)" if "s \<in> set ?ds" for s
  proof -
    have "0 < count_list ?ds s" using that by (simp add: count_list_0_iff neq0_conv [symmetric])
    then show ?thesis using zero [of s] split [of s] that ds by auto
  qed
  have "pending_degree es (r @ [c]) s = 0 \<longleftrightarrow> s \<in> set ((r @ [c]) @ q @ new)" if "s \<in> set xs" for s
  proof (cases "s \<in> set ?ds")
    case True
    then show ?thesis using new' fresh [OF True] by auto
  next
    case False
    then have "count_list ?ds s = 0" by (simp add: count_list_0_iff)
    then show ?thesis using zero [OF that] split [of s] False new' by auto
  qed
  moreover have "well_ordered es (r @ [c])"
    using well_ordered_snoc [OF _ c(1)] inv zero [OF c(2)] by (simp add: loop_inv_def)
  moreover have "distinct ((r @ [c]) @ q @ new)" "set ((r @ [c]) @ q @ new) \<subseteq> set xs"
    using inv new(1) new' fresh ds by (auto simp: loop_inv_def)
  moreover have "map_of deg' s = (if s \<in> set xs then Some (int (pending_degree es (r @ [c]) s)) else None)" for s
    using deg' deg split [of s] by simp
  ultimately have "loop_inv xs es (q @ new) deg' (r @ [c])"
    unfolding loop_inv_def by blast
  with r show ?thesis by blast
qed

lemma kahn_loop_inv:
  assumes "loop_inv xs es q deg r" "fst ` set es \<subseteq> set xs"
    and "\<And>s. map_of adj s = (if s \<in> set xs then Some (dependents_of es s) else None)"
  shows "\<exists>r' deg'. kahn_loop adj q deg r = Inr (r', deg') \<and> loop_inv xs es [] deg' r'"
  using assms
proof (induction adj q deg r rule: kahn_loop.induct)
  case (1 adj deg result)
  then show ?case by auto
next
  case (2 adj c q deg r)
  have c: "map_of adj c = Some (dependents_of es c)" using 2(2,4) by (auto simp: loop_inv_def)
  from loop_inv_step [OF 2(2,3)] obtain deg' q' where s: "relax (dependents_of es c) deg q = Inr (deg', q')"
    "loop_inv xs es q' deg' (r @ [c])" by blast
  from 2(1) [OF c s(1) refl s(2) 2(3,4)] show ?case using c s(1) by simp
qed

lemma loop_inv_init:
  assumes "distinct xs" "\<And>s. map_of deg s = (if s \<in> set xs then Some (int (degree es s)) else None)"
  shows "loop_inv xs es (filter (\<lambda>s. map_of deg s = Some 0) xs) deg []"
proof -
  have "pending_degree es [] s = degree es s" for s by (simp add: pending_degree_def degree_def)
  then show ?thesis using assms by (auto simp: loop_inv_def well_ordered_def)
qed

lemma distinct_length_eq_set: "distinct r \<Longrightarrow> distinct xs \<Longrightarrow> set r \<subseteq> set xs \<Longrightarrow> length r = length xs \<longleftrightarrow> set r = set xs"
  by (metis List.finite_set card_subset_eq distinct_card)

text \<open>Nodes left over have an edge to a node left over, so some of them lie on a cycle.\<close>

lemma leftover_cycle:
  assumes "loop_inv xs es [] deg r" "set r \<noteq> set xs" "snd ` set es \<subseteq> set xs"
  shows "\<not> acyclic (set es)"
proof
  assume "acyclic (set es)"
  then have wf: "wf ((set es)\<inverse>)" by (intro finite_acyclic_wf_converse) simp_all
  obtain x where "x \<in> set xs - set r" using assms by (auto simp: loop_inv_def)
  with wf obtain z where z: "z \<in> set xs - set r" "\<And>y. (y, z) \<in> (set es)\<inverse> \<Longrightarrow> y \<notin> set xs - set r"
    by (rule wfE_min) blast
  then have "pending_degree es r z \<noteq> 0" using assms(1) by (auto simp: loop_inv_def)
  then obtain d where "(z, d) \<in> set es" "d \<notin> set r" by (auto simp: pending_degree_def filter_empty_conv)
  with z(2) [of d] assms(3) show False by force
qed

lemma well_ordered_acyclic:
  assumes "well_ordered es r" "distinct r" "fst ` set es \<subseteq> set r"
  shows "acyclic (set es)"
proof -
  have step: "\<exists>us vs ws. r = us @ d # vs @ a # ws" if "(a, d) \<in> set es" for a d
  proof -
    have "a \<in> set r" using that assms(3) by force
    with assms(1) that obtain us vs where r: "r = us @ a # vs" "d \<in> set us" unfolding well_ordered_def by blast
    obtain u1 u2 where "us = u1 @ d # u2" using split_list [OF r(2)] by blast
    with r have "r = u1 @ d # u2 @ a # vs" by simp
    then show ?thesis by blast
  qed
  define idx where "idx s = (THE i. i < length r \<and> r ! i = s)" for s
  have idx: "idx s = i" if "i < length r" "r ! i = s" for s i
    unfolding idx_def using that assms(2) by (auto simp: nth_eq_iff_index_eq)
  have "idx d < idx a" if e: "(a, d) \<in> set es" for a d
  proof -
    from step [OF e] obtain us vs ws where r: "r = us @ d # vs @ a # ws" by blast
    have "idx d = length us" "idx a = length us + 1 + length vs"
      using r by (auto intro!: idx simp: nth_append)
    then show ?thesis by simp
  qed
  then have "set es \<subseteq> (measure idx)\<inverse>" by auto
  moreover have "acyclic ((measure idx)\<inverse>)" by (simp add: wf_acyclic)
  ultimately show ?thesis by (rule acyclic_subset [rotated])
qed

text \<open>What a run of the sort gives, for any plan whose dependents are its own subtasks.\<close>

lemma kahn_sort_spec:
  assumes "distinct xs" "fst ` set es \<subseteq> set xs"
  defines "ks \<equiv> kept_edges xs es"
  obtains (order) deg adj r where "build_graph xs es = Inr (deg, adj)" "kahn_sort xs deg adj = Inr r"
      "acyclic (set ks)" "distinct r" "set r = set xs" "well_ordered ks r"
  | (cycle) deg adj p where "build_graph xs es = Inr (deg, adj)" "kahn_sort xs deg adj = Inl (CycleError p)"
      "\<not> acyclic (set ks)" "set p = {s \<in> set xs. \<exists>d\<in>set p. (s, d) \<in> set ks}" "p \<noteq> []"
proof -
  have ks: "fst ` set ks \<subseteq> set xs" "snd ` set ks \<subseteq> set xs" using assms(2) by (auto simp: ks_def kept_edges_def)
  obtain deg adj where g: "build_graph xs es = Inr (deg, adj)"
    and deg: "\<And>s. map_of deg s = (if s \<in> set xs then Some (int (degree ks s)) else None)"
    and adj: "\<And>s. map_of adj s = (if s \<in> set xs then Some (dependents_of ks s) else None)"
    using build_graph_spec [OF assms(2)] unfolding ks_def by blast
  from kahn_loop_inv [OF loop_inv_init [OF assms(1) deg] ks(1) adj] obtain r deg' where
    l: "kahn_loop adj (filter (\<lambda>s. map_of deg s = Some 0) xs) deg [] = Inr (r, deg')"
    and inv: "loop_inv xs ks [] deg' r" by blast
  have none: "List.find (\<lambda>s. map_of deg s = None) xs = None" by (auto simp: find_None_iff deg)
  have r: "distinct r" "set r \<subseteq> set xs" "well_ordered ks r" using inv by (auto simp: loop_inv_def)
  show ?thesis
  proof (cases "set r = set xs")
    case True
    then have "kahn_sort xs deg adj = Inr r"
      using distinct_length_eq_set [OF r(1) assms(1) r(2)] l none by (simp add: kahn_sort_def)
    moreover have "acyclic (set ks)" using well_ordered_acyclic [OF r(3,1)] ks True by simp
    ultimately show ?thesis using order [OF g] r True by blast
  next
    case False
    let ?p = "filter (\<lambda>s. case map_of deg' s of Some n \<Rightarrow> n > 0 | None \<Rightarrow> False) xs"
    have p: "set ?p = set xs - set r" using inv by (auto simp: loop_inv_def)
    have "pending_degree ks r s \<noteq> 0 \<longleftrightarrow> (\<exists>d\<in>set xs - set r. (s, d) \<in> set ks)" for s
      using ks(2) by (force simp: pending_degree_def filter_empty_conv)
    moreover have "s \<notin> set r \<longleftrightarrow> pending_degree ks r s \<noteq> 0" if "s \<in> set xs" for s
      using inv that by (auto simp: loop_inv_def)
    ultimately have "set ?p = {s \<in> set xs. \<exists>d\<in>set ?p. (s, d) \<in> set ks}" unfolding p by blast
    moreover have "kahn_sort xs deg adj = Inl (CycleError ?p)"
      using distinct_length_eq_set [OF r(1) assms(1) r(2)] l none False by (simp add: kahn_sort_def)
    moreover have "?p \<noteq> []" using p False r(2) by (metis Diff_eq_empty_iff empty_set subset_antisym)
    ultimately show ?thesis using cycle [OF g] leftover_cycle [OF inv False ks(2)] by blast
  qed
qed


lemma well_ordered_precedes:
  "well_ordered es r \<Longrightarrow> fst ` set es \<subseteq> set r \<Longrightarrow> (a, d) \<in> set es \<Longrightarrow> \<exists>us vs ws. r = us @ d # vs @ a # ws"
proof -
  assume "well_ordered es r" "fst ` set es \<subseteq> set r" and e: "(a, d) \<in> set es"
  moreover from this have "a \<in> set r" by force
  ultimately obtain us vs where r: "r = us @ a # vs" "d \<in> set us" unfolding well_ordered_def by blast
  obtain u1 u2 where "us = u1 @ d # u2" using split_list [OF r(2)] by blast
  with r have "r = u1 @ d # u2 @ a # vs" by simp
  then show ?thesis by blast
qed

text \<open>
  C24: Kahn's algorithm over a plan (distinct subtasks, every dependency row owned by one of
  them) always returns: building the graph raises no error, and the sort either returns a
  permutation of the subtasks in which each stands after everything it depends on, exactly
  when the dependencies inside the plan are acyclic, or raises \<open>CycleError\<close> with the
  non-empty set of subtasks that wait for each other for ever.
\<close>

theorem kahn_sort_orders_acyclic_plans:
  assumes "distinct xs" "fst ` set es \<subseteq> set xs"
  shows "\<exists>deg adj. build_graph xs es = Inr (deg, adj) \<and>
    (case kahn_sort xs deg adj of
       Inr r \<Rightarrow> acyclic {(s, d) \<in> set es. d \<in> set xs} \<and> mset r = mset xs
               \<and> (\<forall>s d. (s, d) \<in> set es \<and> d \<in> set xs \<longrightarrow> (\<exists>us vs ws. r = us @ d # vs @ s # ws))
     | Inl (CycleError p) \<Rightarrow> \<not> acyclic {(s, d) \<in> set es. d \<in> set xs} \<and> p \<noteq> []
               \<and> set p = {s \<in> set xs. \<exists>d\<in>set p. (s, d) \<in> set es}
     | Inl _ \<Rightarrow> False)"
proof -
  have ks: "set (kept_edges xs es) = {(s, d) \<in> set es. d \<in> set xs}" by (auto simp: kept_edges_def)
  show ?thesis
  proof (rule kahn_sort_spec [OF assms])
    fix deg adj r
    assume g: "build_graph xs es = Inr (deg, adj)" "kahn_sort xs deg adj = Inr r" "acyclic (set (kept_edges xs es))"
      "distinct r" "set r = set xs" "well_ordered (kept_edges xs es) r"
    moreover have "mset r = mset xs" using g(4,5) assms(1) by (simp add: set_eq_iff_mset_eq_distinct)
    moreover have "\<exists>us vs ws. r = us @ d # vs @ s # ws" if "(s, d) \<in> set es" "d \<in> set xs" for s d
    proof (rule well_ordered_precedes [OF g(6)])
      show "fst ` set (kept_edges xs es) \<subseteq> set r" using g(5) assms(2) by (auto simp: kept_edges_def)
      show "(s, d) \<in> set (kept_edges xs es)" using that ks by simp
    qed
    ultimately show ?thesis using ks by auto
  next
    fix deg adj p
    assume g: "build_graph xs es = Inr (deg, adj)" "kahn_sort xs deg adj = Inl (CycleError p)"
      "\<not> acyclic (set (kept_edges xs es))" "set p = {s \<in> set xs. \<exists>d\<in>set p. (s, d) \<in> set (kept_edges xs es)}" "p \<noteq> []"
    have "set p \<subseteq> set xs" using g(4) by blast
    then have "set p = {s \<in> set xs. \<exists>d\<in>set p. (s, d) \<in> set es}" using g(4) ks by blast
    then show ?thesis using g ks by auto
  qed
qed

theorem kahn_sort_orders_acyclic_plans_witness:
  "\<exists>deg adj. build_graph [''c'', ''a'', ''b''] [(''b'', ''a''), (''c'', ''b'')] = Inr (deg, adj) \<and>
    (case kahn_sort [''c'', ''a'', ''b''] deg adj of
       Inr r \<Rightarrow> acyclic {(s, d) \<in> set [(''b'', ''a''), (''c'', ''b'')]. d \<in> set [''c'', ''a'', ''b'']} \<and> mset r = mset [''c'', ''a'', ''b'']
               \<and> (\<forall>s d. (s, d) \<in> set [(''b'', ''a''), (''c'', ''b'')] \<and> d \<in> set [''c'', ''a'', ''b''] \<longrightarrow> (\<exists>us vs ws. r = us @ d # vs @ s # ws))
     | Inl (CycleError p) \<Rightarrow> \<not> acyclic {(s, d) \<in> set [(''b'', ''a''), (''c'', ''b'')]. d \<in> set [''c'', ''a'', ''b'']} \<and> p \<noteq> []
               \<and> set p = {s \<in> set [''c'', ''a'', ''b'']. \<exists>d\<in>set p. (s, d) \<in> set [(''b'', ''a''), (''c'', ''b'')]}
     | Inl _ \<Rightarrow> False)"
  by (rule kahn_sort_orders_acyclic_plans) simp_all

section \<open>The progress view\<close>

lemma position_nth: "distinct r \<Longrightarrow> r = us @ x # vs \<Longrightarrow> position r x = length us"
  by (induction us arbitrary: r) auto

lemma sorted_key_before:
  assumes "sorted (map f xs)" "x \<in> set xs" "y \<in> set xs" "f x < f y"
  shows "\<exists>us vs ws. xs = us @ x # vs @ y # ws"
proof -
  obtain us ws where xs: "xs = us @ y # ws" using split_list [OF assms(3)] by blast
  have "x \<in> set us" using assms xs by (auto simp: sorted_append)
  then obtain u1 u2 where "us = u1 @ x # u2" using split_list by fastforce
  with xs have "xs = u1 @ x # u2 @ y # ws" by simp
  then show ?thesis by blast
qed

lemma dependency_pairs_nodes: "(a, d) \<in> set (dependency_pairs sts) \<Longrightarrow> d \<in> set (ordered_ids sts) \<and> a \<in> sub_key ` set sts"
  by (auto simp: dependency_pairs_def split: if_splits json.splits)

text \<open>
  The progress view never fails and never loses a subtask: for subtasks with distinct,
  non-empty identifiers it returns a permutation of the list it was given. When the declared
  dependencies are acyclic, each subtask comes after every subtask it depends on; when they
  are cyclic, the list is returned as it was.
\<close>

theorem progress_view_respects_dependencies:
  assumes "distinct (map sub_key sts)" "\<forall>s\<in>set sts. truth (get s ''subtask_id'')"
  shows "\<exists>out. dependency_ordered_subtasks sts = Inr out \<and> mset out = mset sts
    \<and> (if acyclic (set (dependency_pairs sts))
       then \<forall>a\<in>set sts. \<forall>b\<in>set sts. (sub_key a, sub_key b) \<in> set (dependency_pairs sts)
              \<longrightarrow> (\<exists>us vs ws. out = us @ b # vs @ a # ws)
       else out = sts)"
proof (cases "sts = []")
  case True
  then show ?thesis by (simp add: dependency_ordered_subtasks_def ordered_ids_def)
next
  case False
  let ?ids = "ordered_ids sts" and ?es = "dependency_pairs sts"
  have ids: "?ids = map sub_key sts" using assms(2) by (simp add: ordered_ids_def)
  have d: "distinct ?ids" and e: "fst ` set ?es \<subseteq> set ?ids" and ne: "?ids \<noteq> []"
    using assms(1) ids False dependency_pairs_nodes [of _ _ sts] by (auto simp: ids)
  have kept: "kept_edges ?ids ?es = ?es"
    unfolding kept_edges_def by (rule filter_True) (use dependency_pairs_nodes [of _ _ sts] in auto)
  show ?thesis
  proof (rule kahn_sort_spec [OF d e])
    fix deg adj r
    assume g: "build_graph ?ids ?es = Inr (deg, adj)" "kahn_sort ?ids deg adj = Inr r" "acyclic (set (kept_edges ?ids ?es))"
      "distinct r" "set r = set ?ids" "well_ordered (kept_edges ?ids ?es) r"
    let ?key = "\<lambda>s. position r (sub_key s)" and ?out = "sort_key (\<lambda>s. position r (sub_key s)) sts"
    have "\<exists>us vs ws. ?out = us @ b # vs @ a # ws"
      if a: "a \<in> set sts" and b: "b \<in> set sts" and ab: "(sub_key a, sub_key b) \<in> set ?es" for a b
    proof -
      obtain us vs ws where r: "r = us @ sub_key b # vs @ sub_key a # ws"
        using well_ordered_precedes [OF g(6) [unfolded kept]] e ab unfolding g(5) by blast
      have "?key b = length us" using position_nth [OF g(4), of us "sub_key b"] r by simp
      moreover have "?key a = length us + 1 + length vs"
        using position_nth [OF g(4), of "us @ sub_key b # vs" "sub_key a" ws] r by simp
      ultimately have "?key b < ?key a" by simp
      then show ?thesis using sorted_key_before [of ?key ?out b a] a b by simp
    qed
    moreover have "dependency_ordered_subtasks sts = Inr ?out"
      using g(1,2) ne by (simp add: dependency_ordered_subtasks_def)
    ultimately show ?thesis using g(3) kept by auto
  next
    fix deg adj p
    assume g: "build_graph ?ids ?es = Inr (deg, adj)" "kahn_sort ?ids deg adj = Inl (CycleError p)"
      "\<not> acyclic (set (kept_edges ?ids ?es))"
    then have "dependency_ordered_subtasks sts = Inr sts" using ne by (simp add: dependency_ordered_subtasks_def)
    then show ?thesis using g(3) kept by simp
  qed
qed

theorem progress_view_respects_dependencies_witness:
  "let sts = [[(''subtask_id'', JStr ''1.2''), (''depends_on'', JList [JStr ''1.1''])], [(''subtask_id'', JStr ''1.1'')]] in
   \<exists>out. dependency_ordered_subtasks sts = Inr out \<and> mset out = mset sts
    \<and> (if acyclic (set (dependency_pairs sts))
       then \<forall>a\<in>set sts. \<forall>b\<in>set sts. (sub_key a, sub_key b) \<in> set (dependency_pairs sts)
              \<longrightarrow> (\<exists>us vs ws. out = us @ b # vs @ a # ws)
       else out = sts)"
  unfolding Let_def
  by (rule progress_view_respects_dependencies) (simp_all add: sub_key_def json_str_def get_def)


section \<open>The dependency table\<close>

lemma dependency_chain_iff:
  "x \<in> set (dependency_chain n deps rows) \<longleftrightarrow> (\<exists>k<n. \<exists>y\<in>set rows. (y, x) \<in> (set deps) ^^ k)"
proof (induction n arbitrary: rows)
  case (Suc n)
  let ?next = "concat (map (\<lambda>x. map snd (filter (\<lambda>(a, _). a = x) deps)) rows)"
  have next_rows: "z \<in> set ?next \<longleftrightarrow> (\<exists>y\<in>set rows. (y, z) \<in> set deps)" for z by force
  have "x \<in> set (dependency_chain (Suc n) deps rows) \<longleftrightarrow>
        x \<in> set rows \<or> (\<exists>k<n. \<exists>y\<in>set rows. (y, x) \<in> (set deps) ^^ Suc k)"
  proof -
    have "(y, x) \<in> (set deps) ^^ Suc k \<longleftrightarrow> (\<exists>z. (y, z) \<in> set deps \<and> (z, x) \<in> (set deps) ^^ k)" for y k
      by (metis relpow_Suc_D2 relpow_Suc_I2)
    then show ?thesis using Suc.IH [of ?next] by (simp only: dependency_chain.simps set_append Un_iff next_rows Bex_def) blast
  qed
  also have "\<dots> \<longleftrightarrow> (\<exists>k<Suc n. \<exists>y\<in>set rows. (y, x) \<in> (set deps) ^^ k)"
    by (metis Suc_less_eq less_Suc_eq_0_disj relpow_0_E relpow_0_I)
  finally show ?case .
qed simp

lemma cycle_detected_iff: "cycle_detected deps a d \<longleftrightarrow> (\<exists>k<100. (d, a) \<in> (set deps) ^^ k)"
  by (simp add: cycle_detected_def dependency_chain_iff)

lemma cycle_detected_exact:
  assumes "length deps < 100"
  shows "cycle_detected deps a d \<longleftrightarrow> (d, a) \<in> (set deps)\<^sup>*"
proof
  assume "(d, a) \<in> (set deps)\<^sup>*"
  then obtain k where "k \<le> card (set deps)" "(d, a) \<in> (set deps) ^^ k"
    by (auto simp: rtrancl_finite_eq_relpow)
  moreover have "card (set deps) < 100" using assms card_length [of deps] by simp
  ultimately show "cycle_detected deps a d" unfolding cycle_detected_iff by (meson le_less_trans)
qed (auto simp: cycle_detected_iff dest: relpow_imp_rtrancl)

lemma insert_dep_acyclic:
  assumes "acyclic (set (plan_sub_deps p))" "length (plan_sub_deps p) < 100" "insert_dep a d p = Inr (i, p')"
  shows "acyclic (set (plan_sub_deps p'))" "set (plan_sub_deps p') = insert (a, d) (set (plan_sub_deps p))"
    "length (plan_sub_deps p') \<le> Suc (length (plan_sub_deps p))"
  using assms by (auto simp: insert_dep_def cycle_detected_exact acyclic_insert split: if_splits)

lemma insert_dep_cycle:
  assumes "length (plan_sub_deps p) < 100" "insert_dep a d p = Inl (CycleError q)"
  shows "\<not> acyclic (insert (a, d) (set (plan_sub_deps p)))"
  using assms by (auto simp: insert_dep_def cycle_detected_exact acyclic_insert split: if_splits)

lemma insert_deps_table:
  assumes "acyclic (set (plan_sub_deps p))" "length (plan_sub_deps p) + length ds \<le> 100"
  shows "case insert_deps ds p of
           Inr p' \<Rightarrow> acyclic (set (plan_sub_deps p')) \<and> set (plan_sub_deps p') = set (plan_sub_deps p) \<union> set ds
         | Inl (CycleError q) \<Rightarrow> \<not> acyclic (set (plan_sub_deps p) \<union> set ds)
         | Inl _ \<Rightarrow> True"
  using assms
proof (induction ds arbitrary: p)
  case (Cons e ds)
  obtain a d where e: "e = (a, d)" by (cases e)
  have len: "length (plan_sub_deps p) < 100" using Cons.prems(2) by simp
  show ?case
  proof (cases "insert_dep a d p")
    case (Inl err)
    have "\<not> acyclic (set (plan_sub_deps p) \<union> set (e # ds))" if "err = CycleError q" for q
      using insert_dep_cycle [OF len Inl [unfolded that]] e
      by (metis Un_insert_right Un_upper1 acyclic_subset insert_mono list.simps(15))
    then show ?thesis using Inl e by (auto split: dep_error.splits)
  next
    case (Inr x)
    obtain i p' where x: "x = (i, p')" by (cases x)
    note ok = insert_dep_acyclic [OF Cons.prems(1) len Inr [unfolded x]]
    have "length (plan_sub_deps p') + length ds \<le> 100" using ok(3) Cons.prems(2) by simp
    from Cons.IH [OF ok(1) this] have "case insert_deps ds p' of
           Inr p'' \<Rightarrow> acyclic (set (plan_sub_deps p'')) \<and> set (plan_sub_deps p'') = set (plan_sub_deps p') \<union> set ds
         | Inl (CycleError q) \<Rightarrow> \<not> acyclic (set (plan_sub_deps p') \<union> set ds)
         | Inl _ \<Rightarrow> True" .
    moreover have "insert_deps (e # ds) p = insert_deps ds p'" using Inr x e by simp
    moreover have "set (plan_sub_deps p) \<union> set (e # ds) = set (plan_sub_deps p') \<union> set ds" using ok(2) e by auto
    ultimately show ?thesis by (simp only:)
  qed
qed simp


definition two_subtasks :: plan where
  "two_subtasks = \<lparr>plan_tasks = [],
     plan_subs = [(''t-1'', \<lparr>st_task_id = ''t'', st_subtask_id = ''1'', st_passes = True, st_passed_at = Some 3, st_display_order = 0\<rparr>),
                  (''t-2'', \<lparr>st_task_id = ''t'', st_subtask_id = ''2'', st_passes = False, st_passed_at = None, st_display_order = 1\<rparr>)],
     plan_sub_deps = [(''t-2'', ''t-1'')], plan_task_deps = []\<rparr>"


section \<open>The pass gate\<close>

lemma blocking_iff:
  "get_blocking_dependencies i p = [] \<longleftrightarrow>
   (\<forall>d\<in>set (get_subtask_dependencies i p). case map_of (plan_subs p) d of Some q \<Rightarrow> st_passes q | None \<Rightarrow> True)"
  by (auto simp: get_blocking_dependencies_def map_filter_def filter_empty_conv split: option.splits if_splits)

lemma join_with_nonempty: "sep \<noteq> [] \<Longrightarrow> \<forall>x\<in>set xs. x \<noteq> [] \<Longrightarrow> join_with sep xs = [] \<longleftrightarrow> xs = []"
  by (induction sep xs rule: join_with.induct) auto

lemma set_blocker_names: "set (blocker_names i p) = (\<lambda>(_, r). st_subtask_id r) ` set (get_blocking_dependencies i p)"
  by (simp add: blocker_names_def)

lemma blocker_names_Nil: "blocker_names i p = [] \<longleftrightarrow> \<not> is_blocked i p"
proof -
  have "set (blocker_names i p) = {} \<longleftrightarrow> set (get_blocking_dependencies i p) = {}" by (simp add: set_blocker_names)
  then show ?thesis by (simp add: is_blocked_def)
qed

lemma blocker_names_nonempty:
  assumes "\<forall>(j, q)\<in>set (plan_subs p). st_subtask_id q \<noteq> []"
  shows "\<forall>x\<in>set (blocker_names i p). x \<noteq> []"
  using assms
  by (fastforce simp: set_blocker_names get_blocking_dependencies_def map_filter_def dest: map_of_SomeD split: option.splits if_splits)

definition claim_refusal :: "int \<Rightarrow> string \<Rightarrow> exact_claim option \<Rightarrow> plan \<Rightarrow> dep_error option" where
  "claim_refusal now task_id claim p =
     (case claim of
        None \<Rightarrow> None
      | Some c \<Rightarrow> if \<not> claim_exact c then Some ProjectClaimRequired
                  else if \<not> claim_current now task_id c p then Some PrerequisiteClaimChanged else None)"

lemma set_subtask_passes_cases:
  assumes "\<forall>(j, q)\<in>set (plan_subs p). st_subtask_id q \<noteq> []"
  shows "set_subtask_passes now i task_id claim p =
    (case claim_refusal now task_id claim p of
       Some e \<Rightarrow> Inl e
     | None \<Rightarrow> if is_blocked i p then Inl (SubtaskGateError (blocker_names i p))
               else case map_of (plan_subs p) i of
                      None \<Rightarrow> Inr (None, p)
                    | Some r \<Rightarrow> let r' = r\<lparr>st_passes := True, st_passed_at := Some now\<rparr>
                                in Inr (Some r', p\<lparr>plan_subs := dict_set i r' (plan_subs p)\<rparr>))"
proof -
  have "join_with '', '' (blocker_names i p) = [] \<longleftrightarrow> \<not> is_blocked i p"
    using join_with_nonempty [OF _ blocker_names_nonempty [OF assms], of "'', ''" i] by (simp add: blocker_names_Nil)
  then show ?thesis
    by (auto simp: set_subtask_passes_def claim_refusal_def pass_trigger_refuses_def is_blocked_def Let_def split: option.splits)
qed

text \<open>
  A subtask is marked passed only after everything it depends on. Where subtasks have
  names, marking one succeeds exactly when the caller's claim (if one is given) is complete
  and current, no dependency is incomplete, and the row exists; then every dependency has
  passed, the row carries the time, and no other row changes. A blocked one is refused with
  the incomplete dependencies, in plan order.
\<close>

theorem subtask_passes_after_dependencies:
  fixes task_id subtask_id :: string
  assumes "\<forall>(j, q)\<in>set (plan_subs p). st_subtask_id q \<noteq> []"
  defines "i \<equiv> generate_subtask_id task_id subtask_id"
  shows "case update_subtask_passes now task_id subtask_id True claim p of
      Inr (Some r, p') \<Rightarrow>
        map_of (plan_subs p') i = Some r \<and> st_passes r \<and> st_passed_at r = Some now
        \<and> (\<forall>d\<in>set (get_subtask_dependencies i p'). case map_of (plan_subs p') d of Some q \<Rightarrow> st_passes q | None \<Rightarrow> True)
        \<and> (\<forall>j. j \<noteq> i \<longrightarrow> map_of (plan_subs p') j = map_of (plan_subs p) j)
        \<and> (\<forall>c. claim = Some c \<longrightarrow> claim_exact c \<and> claim_current now task_id c p)
    | Inr (None, p') \<Rightarrow> p' = p \<and> map_of (plan_subs p) i = None
    | Inl (SubtaskGateError bs) \<Rightarrow> is_blocked i p \<and> bs = blocker_names i p
    | Inl e \<Rightarrow> claim_refusal now task_id claim p = Some e"
proof -
  have up: "update_subtask_passes now task_id subtask_id True claim p = set_subtask_passes now i task_id claim p"
    by (simp add: update_subtask_passes_def i_def Let_def)
  show ?thesis
  proof (cases "claim_refusal now task_id claim p")
    case (Some e)
    then have "e \<noteq> SubtaskGateError bs" for bs by (auto simp: claim_refusal_def split: option.splits if_splits)
    then show ?thesis using Some by (simp add: up set_subtask_passes_cases [OF assms(1)] split: dep_error.splits)
  next
    case None
    show ?thesis
    proof (cases "is_blocked i p \<or> map_of (plan_subs p) i = None")
      case True
      then show ?thesis using None by (auto simp: up set_subtask_passes_cases [OF assms(1)])
    next
      case False
      then obtain r where r: "map_of (plan_subs p) i = Some r" "\<not> is_blocked i p" by blast
      have "\<forall>d\<in>set (get_subtask_dependencies i p). case map_of (plan_subs p) d of Some q \<Rightarrow> st_passes q | None \<Rightarrow> True"
        using r(2) by (simp add: is_blocked_def blocking_iff)
      moreover have "claim_exact c \<and> claim_current now task_id c p" if "claim = Some c" for c
        using None that by (simp add: claim_refusal_def split: if_splits)
      ultimately show ?thesis using None r
        by (simp add: up set_subtask_passes_cases [OF assms(1)] Let_def get_subtask_dependencies_def)
    qed
  qed
qed

theorem subtask_passes_after_dependencies_witness:
  "case update_subtask_passes 9 ''t'' ''2'' True None two_subtasks of
      Inr (Some r, p') \<Rightarrow> map_of (plan_subs p') ''t-2'' = Some r \<and> st_passes r \<and> st_passed_at r = Some 9
    | _ \<Rightarrow> False"
proof -
  have "\<forall>(j, q)\<in>set (plan_subs two_subtasks). st_subtask_id q \<noteq> []" by (simp add: two_subtasks_def)
  note gate = subtask_passes_after_dependencies [OF this, where now = 9 and task_id = "''t''" and subtask_id = "''2''" and claim = None]
  have "\<not> is_blocked ''t-2'' two_subtasks" "map_of (plan_subs two_subtasks) ''t-2'' \<noteq> None"
    by (simp_all add: two_subtasks_def is_blocked_def blocking_iff get_subtask_dependencies_def)
  then show ?thesis using gate
    by (auto simp: generate_subtask_id_def claim_refusal_def split: sum.splits option.splits dep_error.splits prod.splits)
qed

section \<open>Blocking tasks\<close>

lemma group_rows:
  "map_of (fold group_row es acc) k =
   (let rows = map blocker_row (filter (\<lambda>e. td_task (fst e) = k) es) in
    if rows = [] then map_of acc k else Some ((case map_of acc k of Some rs \<Rightarrow> rs | None \<Rightarrow> []) @ rows))"
proof (induction es arbitrary: acc)
  case (Cons e es)
  then show ?case by (auto simp: group_row_def Let_def split: option.splits)
qed simp

text \<open>
  The batch query agrees with the single one: for every requested task it holds exactly
  the list \<open>get_blocking_tasks\<close> returns, in the same order, and it omits exactly the tasks
  that are not blocked and those not asked for; and a task is blocked exactly when that list
  is non-empty.
\<close>

theorem blocking_batch_agrees:
  "map_of (get_blocking_tasks_batch task_ids p) k =
     (if k \<in> set task_ids \<and> is_task_blocked k p then Some (get_blocking_tasks k p) else None)
   \<and> (is_task_blocked k p \<longleftrightarrow> get_blocking_tasks k p \<noteq> [])"
proof -
  let ?P = "\<lambda>e. td_task (fst e) \<in> set task_ids \<and> unresolved e" and ?Q = "\<lambda>e. td_task (fst e) = k \<and> unresolved e"
  have blocked: "is_task_blocked k p \<longleftrightarrow> get_blocking_tasks k p \<noteq> []"
  proof -
    have "get_blocking_tasks k p = [] \<longleftrightarrow> set (get_blocking_tasks k p) = {}" by simp
    also have "\<dots> \<longleftrightarrow> filter ?Q (joined p) = []" by (auto simp: get_blocking_tasks_def filter_empty_conv)
    also have "\<dots> \<longleftrightarrow> \<not> is_task_blocked k p" by (auto simp: is_task_blocked_def list_ex_iff filter_empty_conv)
    finally show ?thesis by blast
  qed
  have rows: "filter (\<lambda>e. td_task (fst e) = k) (sort_key blocker_order (filter ?P (joined p))) =
        (if k \<in> set task_ids then sort_key blocker_order (filter ?Q (joined p)) else [])"
  proof (cases "k \<in> set task_ids")
    case True
    then have "filter (\<lambda>e. td_task (fst e) = k) (filter ?P (joined p)) = filter ?Q (joined p)"
      by (auto intro: filter_cong)
    then show ?thesis using True by (simp add: filter_sort)
  next
    case False
    then have none: "filter (\<lambda>e. td_task (fst e) = k) (filter ?P (joined p)) = []" by (auto simp: filter_empty_conv)
    show ?thesis unfolding filter_sort none using False by simp
  qed
  have "map_of (get_blocking_tasks_batch task_ids p) k =
     (if k \<in> set task_ids \<and> is_task_blocked k p then Some (get_blocking_tasks k p) else None)"
  proof (cases "task_ids = []")
    case False
    then have "get_blocking_tasks_batch task_ids p = fold group_row (sort_key blocker_order (filter ?P (joined p))) []"
      by (simp add: get_blocking_tasks_batch_def)
    then show ?thesis unfolding blocked by (simp add: group_rows rows get_blocking_tasks_def)
  qed (simp add: get_blocking_tasks_batch_def)
  then show ?thesis using blocked by blast
qed

end
