(* ===== verification/TaskFacts.thy ===== *)
theory TaskFacts
  imports TaskStore ExclusiveClaims
begin

text \<open>
  What the task table guarantees: claims exclude each other, evidence does not survive a
  change of the task's life, status changes respect the transition table and the completion
  gates, expired claims and only those are reset, and closeout intents are compare-and-set.
\<close>

lemma map_of_set_task [simp]: "map_of (tasks (set_task i t s)) = (map_of (tasks s))(i \<mapsto> t)"
  by (simp add: set_task_def)

lemma set_task_sel [simp]: "subtasks (set_task i t s) = subtasks s" "spirits (set_task i t s) = spirits s"
  by (simp_all add: set_task_def)

section \<open>Claims exclude each other\<close>

definition task_holder :: "store \<Rightarrow> string \<Rightarrow> string option" where
  "task_holder s i =
     (case map_of (tasks s) i of Some t \<Rightarrow> if t_status t = ''running'' then t_claimed_by t else None | None \<Rightarrow> None)"

text \<open>A claim attempt on a stored id; the attempt carries its time, its lock duration and whether it only renews.\<close>

definition try_task :: "int \<times> int \<times> bool \<Rightarrow> string \<Rightarrow> string \<Rightarrow> store \<Rightarrow> store option" where
  "try_task p w i s =
     (case p of (now, minutes, renew) \<Rightarrow>
        if canonicalize_task_id i = i
        then (case claim_task now i w minutes renew s of (Some _, s') \<Rightarrow> Some s' | (None, _) \<Rightarrow> None)
        else None)"

lemma claim_task_Some:
  assumes "claim_task now task_id w minutes renew s = (Some t', s')" and "i = canonicalize_task_id task_id"
  shows "\<exists>t. map_of (tasks s) i = Some t \<and> s' = set_task i t' s \<and>
    t_status t' = ''running'' \<and> t_claimed_by t' = Some w \<and> t_lock_expires_at t' = Some (now + minutes * 60) \<and>
    (t_status t = ''running'' \<and> t_claimed_by t = Some w \<and> t_verification t' = t_verification t \<or>
     t_status t \<noteq> ''running'' \<and> t_status t \<in> set CLAIMABLE_STATUSES \<and> \<not> has_valid_lock now t \<and> \<not> renew \<and>
     t_verification t' = preserved_verification False (t_verification t)) \<and> t_commits t' = t_commits t"
  using assms by (auto simp: claim_task_def Let_def split: option.splits if_splits)

lemma claim_task_foreign:
  "map_of (tasks s) (canonicalize_task_id task_id) = Some t \<Longrightarrow> t_status t = ''running'' \<Longrightarrow> t_claimed_by t \<noteq> Some w \<Longrightarrow>
     claim_task now task_id w minutes renew s = (None, s)"
  by (simp add: claim_task_def)

interpretation task_claims: exclusive_claims task_holder try_task
proof
  fix p :: "int \<times> int \<times> bool" and w i :: string and s s' :: store
  assume "try_task p w i s = Some s'"
  then obtain now minutes renew t' where
    c: "claim_task now i w minutes renew s = (Some t', s')" "canonicalize_task_id i = i"
    by (auto simp: try_task_def split: prod.splits if_splits option.splits)
  from claim_task_Some [OF c(1) c(2) [symmetric]] obtain t where
    s': "s' = set_task i t' s" "t_status t' = ''running''" "t_claimed_by t' = Some w" by blast
  show "task_holder s' i = Some w" by (simp add: task_holder_def s')
  show "task_holder s' j = task_holder s j" if "j \<noteq> i" for j using that by (simp add: task_holder_def s')
next
  fix p :: "int \<times> int \<times> bool" and v w i :: string and s :: store
  assume "task_holder s i = Some v" and "v \<noteq> w"
  then obtain t where "map_of (tasks s) i = Some t" "t_status t = ''running''" "t_claimed_by t \<noteq> Some w"
    by (auto simp: task_holder_def split: option.splits if_splits)
  then show "try_task p w i s = None"
    using claim_task_foreign by (auto simp: try_task_def split: prod.splits)
qed

text \<open>
  However many workers race to claim a task, at most one of them is told that it owns
  it, that worker is the recorded owner at the end, and claims of other tasks do not move.
\<close>

theorem task_claim_race:
  assumes "x \<in> set (fst (race try_task i attempts s))" and "y \<in> set (fst (race try_task i attempts s))" and "j \<noteq> i"
  shows "x = y \<and> task_holder (snd (race try_task i attempts s)) i = Some x \<and>
    task_holder (snd (race try_task i attempts s)) j = task_holder s j"
  using task_claims.race_one_winner [OF assms(1,2)] task_claims.race_winner_holds [OF assms(1)]
    task_claims.race_frame [OF assms(3)] by blast

definition sample_row :: task where
  "sample_row =
     \<lparr>t_project_id = ''sf'', t_status = ''pending'', t_claimed_by = None, t_claimed_at = None, t_lock_expires_at = None,
      t_started_at = None, t_completed_at = None, t_error_message = None, t_current_phase = None,
      t_verification = Some [(''acceptance'', JObj [(''source_commit'', JStr sample_oid), (''state'', JStr ''success'')])],
      t_labels = [], t_commits = [sample_oid], t_merge_sha = None, t_sessions = [], t_updated_at = 0\<rparr>"

definition sample_store :: store where
  "sample_store = \<lparr>tasks = [(''task-1'', sample_row)], subtasks = [], spirits = []\<rparr>"

theorem task_claim_race_witness:
  "task_holder (snd (race try_task ''task-1'' [((1, 30, False), ''w1''), ((2, 30, False), ''w2'')] sample_store)) ''task-1'' = Some ''w1'' \<and>
   task_holder (snd (race try_task ''task-1'' [((1, 30, False), ''w1''), ((2, 30, False), ''w2'')] sample_store)) ''task-2'' = None"
proof -
  let ?a = "[((1, 30, False), ''w1''), ((2, 30, False), ''w2'')]"
  have w: "fst (race try_task ''task-1'' ?a sample_store) = [''w1'']" by code_simp
  have f: "task_holder sample_store ''task-2'' = None" by code_simp
  from task_claim_race [of "''w1''" "''task-1''" ?a sample_store "''w1''" "''task-2''"] w f show ?thesis by simp
qed

section \<open>Evidence does not survive a lifecycle change\<close>

definition accepted :: "dict option \<Rightarrow> (string \<times> coverage) option" where
  "accepted v = accepted_source (get_dict (case v of Some d \<Rightarrow> d | None \<Rightarrow> []) ''acceptance'')"

lemma accepted_source_stale: "map_of acc ''state'' = Some (JStr ''stale'') \<Longrightarrow> accepted_source acc = None"
  by (simp add: accepted_source_def has_str_def)

lemma accepted_Nil [simp]: "accepted_source [] = None"
  by (simp add: accepted_source_def has_str_def)

lemma jconcat_stale: "accepted_source (case jconcat a STALE_LIFECYCLE of JObj e \<Rightarrow> e | _ \<Rightarrow> []) = None"
  by (cases a) (auto simp: STALE_LIFECYCLE_def jmerge_def intro!: accepted_source_stale)

lemma jconcat_stale_commit: "accepted_source (case jconcat a STALE_COMMIT of JObj e \<Rightarrow> e | _ \<Rightarrow> []) = None"
  by (cases a) (auto simp: STALE_COMMIT_def jmerge_def intro!: accepted_source_stale)

lemma jconcat_not_null: "jconcat a STALE_LIFECYCLE \<noteq> JNull"
  by (cases a) (auto simp: STALE_LIFECYCLE_def)

definition non_null :: "(string \<times> json option) \<Rightarrow> (string \<times> json) option" where
  "non_null = (\<lambda>(k, e). case e of Some j \<Rightarrow> if j = JNull then None else Some (k, j) | None \<Rightarrow> None)"

lemma map_of_non_null:
  "distinct (map fst es) \<Longrightarrow>
     map_of (List.map_filter non_null es) k =
     (case map_of es k of Some (Some j) \<Rightarrow> if j = JNull then None else Some j | _ \<Rightarrow> None)"
proof (induction es)
  case (Cons e es)
  obtain j v where e: "e = (j, v)" by (cases e)
  have "map_of es j = None" using Cons.prems by (simp add: e map_of_eq_None_iff)
  with Cons show ?case
    by (auto simp: e non_null_def List.map_filter_def split: option.splits)
qed (simp add: List.map_filter_def)

text \<open>The entries of the projection, read one at a time.\<close>

lemma preserved_lookup:
  fixes v :: "dict option" and keep :: bool
  defines "d \<equiv> case v of Some d \<Rightarrow> d | None \<Rightarrow> []"
  defines "p \<equiv> case preserved_verification keep v of Some p \<Rightarrow> p | None \<Rightarrow> []"
  shows "map_of p ''acceptance'' = map_option (\<lambda>a. jconcat a STALE_LIFECYCLE) (map_of d ''acceptance'')"
    and "k \<in> {''deployment'', ''live_validation'', ''publication'', ''publication_repair''} \<Longrightarrow>
      map_of p k = (if map_of d k = Some JNull then None else map_of d k)"
proof -
  define es where "es =
      [(''acceptance'', map_option (\<lambda>a. jconcat a STALE_LIFECYCLE) (map_of d ''acceptance'')),
       (''closeout'', kept_closeout keep d),
       (''deployment'', map_of d ''deployment''),
       (''live_validation'', map_of d ''live_validation''),
       (''publication'', map_of d ''publication''),
       (''publication_repair'', map_of d ''publication_repair'')]"
  have p: "p = List.map_filter non_null es"
    by (simp add: p_def d_def es_def preserved_verification_def non_null_def Let_def)
  have look: "map_of p k = (case map_of es k of Some (Some j) \<Rightarrow> if j = JNull then None else Some j | _ \<Rightarrow> None)" for k
    unfolding p by (rule map_of_non_null) (simp add: es_def)
  have "map_of es ''acceptance'' = Some (map_option (\<lambda>a. jconcat a STALE_LIFECYCLE) (map_of d ''acceptance''))"
    by (simp add: es_def)
  then show "map_of p ''acceptance'' = map_option (\<lambda>a. jconcat a STALE_LIFECYCLE) (map_of d ''acceptance'')"
    by (simp add: look jconcat_not_null split: option.splits)
  assume "k \<in> {''deployment'', ''live_validation'', ''publication'', ''publication_repair''}"
  then have "map_of es k = Some (map_of d k)" by (auto simp: es_def)
  then show "map_of p k = (if map_of d k = Some JNull then None else map_of d k)"
    by (simp add: look split: option.splits)
qed

lemma preserved_not_accepted: "accepted (preserved_verification keep v) = None"
proof -
  let ?d = "case v of Some d \<Rightarrow> d | None \<Rightarrow> []"
  let ?p = "case preserved_verification keep v of Some p \<Rightarrow> p | None \<Rightarrow> []"
  have "map_of ?p ''acceptance'' = map_option (\<lambda>a. jconcat a STALE_LIFECYCLE) (map_of ?d ''acceptance'')"
    by (rule preserved_lookup(1))
  then show ?thesis
    unfolding accepted_def using jconcat_stale
    by (cases "map_of ?d ''acceptance''") (auto simp: get_dict_def get_def get_or_def)
qed

lemma accepted_vr: "accepted (t_verification t) = accepted_source (get_dict (vr t) ''acceptance'')"
  by (simp add: accepted_def vr_def)

text \<open>The durable receipts a lifecycle change carries over unless they are JSON null.\<close>

definition carried :: "dict option \<Rightarrow> dict option \<Rightarrow> bool" where
  "carried v v' \<longleftrightarrow>
     list_all (\<lambda>k. map_of (case v' of Some d \<Rightarrow> d | None \<Rightarrow> []) k =
        (if map_of (case v of Some d \<Rightarrow> d | None \<Rightarrow> []) k = Some JNull then None
         else map_of (case v of Some d \<Rightarrow> d | None \<Rightarrow> []) k))
       [''deployment'', ''live_validation'', ''publication'', ''publication_repair'']"

lemma preserved_carried: "carried v (preserved_verification keep v)"
  by (simp add: carried_def preserved_lookup(2) [where v = v and keep = keep])

text \<open>
  Taking a task up, releasing it and any status change other than completion make its
  acceptance void while carrying its deployment, live validation, publication and repair
  receipts over.
\<close>

theorem lifecycle_change_voids_acceptance:
  assumes "map_of (tasks s) (canonicalize_task_id task_id) = Some t"
    and "claim_task now task_id w minutes renew s = (Some t', s') \<and> t_status t \<noteq> ''running'' \<or>
      release_task now task_id ow s = (Some t', s') \<or>
      update_task_status ns now task_id st err validate x s = (Inr (Some t'), s') \<and> st \<noteq> ''completed''"
  shows "accepted (t_verification t') = None \<and> carried (t_verification t) (t_verification t')"
proof -
  have "\<exists>keep. t_verification t' = preserved_verification keep (t_verification t)"
    using assms(2)
  proof (elim disjE conjE)
    assume "claim_task now task_id w minutes renew s = (Some t', s')" "t_status t \<noteq> ''running''"
    with claim_task_Some [OF _ refl, of now task_id w minutes renew s t' s'] assms(1) show ?thesis by auto
  next
    assume "release_task now task_id ow s = (Some t', s')"
    with assms(1) show ?thesis by (auto simp: release_task_def to_pending_def Let_def split: if_splits)
  next
    assume "update_task_status ns now task_id st err validate x s = (Inr (Some t'), s')" "st \<noteq> ''completed''"
    with assms(1) show ?thesis
      by (auto simp: update_task_status_def execute_status_update_def apply_status_def Let_def split: if_splits option.splits)
  qed
  then show ?thesis using preserved_not_accepted preserved_carried by auto
qed

theorem lifecycle_change_voids_acceptance_witness:
  "accepted (t_verification sample_row) = Some (sample_oid, FullCoverage) \<and>
   (\<exists>t' s'. claim_task 5 ''1'' ''w1'' 30 False sample_store = (Some t', s') \<and> accepted (t_verification t') = None)"
proof -
  have a: "accepted (t_verification sample_row) = Some (sample_oid, FullCoverage)" by code_simp
  have m: "map_of (tasks sample_store) (canonicalize_task_id ''1'') = Some sample_row" by code_simp
  have r: "t_status sample_row \<noteq> ''running''" by code_simp
  have "fst (claim_task 5 ''1'' ''w1'' 30 False sample_store) \<noteq> None" by code_simp
  then obtain t' s' where c: "claim_task 5 ''1'' ''w1'' 30 False sample_store = (Some t', s')"
    by (cases "claim_task 5 ''1'' ''w1'' 30 False sample_store") auto
  from lifecycle_change_voids_acceptance [OF m] c r a show ?thesis by blast
qed

section \<open>Status changes\<close>

lemma first_some_id_None: "first_some id es = None \<Longrightarrow> e \<in> set es \<Longrightarrow> e = None"
  by (auto simp: first_some_None_iff)

lemma execute_status_Some:
  assumes "execute_status_update ns now task_id st err validate x s = (Inr (Some t'), s')"
    and "i = canonicalize_task_id task_id"
  shows "\<exists>t. map_of (tasks s) i = Some t \<and> t' = apply_status now st err t \<and> s' = set_task i t' s \<and>
    (validate \<longrightarrow> t_status t = st \<or> validate_status_transition (t_status t) st) \<and>
    check_owner now i st x s = None \<and> check_cancel i st s = None \<and> check_gates ns i st s = None \<and>
    check_closeout i st x s = None"
proof -
  from assms have none: "first_some id [check_owner now i st x s, check_cancel i st s, check_gates ns i st s, check_closeout i st x s] = None"
    by (auto simp: execute_status_update_def Let_def split: option.splits)
  obtain t where t: "map_of (tasks s) i = Some t"
    using assms none by (auto simp: execute_status_update_def Let_def split: option.splits)
  have "t' = apply_status now st err t \<and> s' = set_task i t' s \<and>
      (validate \<longrightarrow> t_status t = st \<or> validate_status_transition (t_status t) st)"
    using assms none t
    by (auto simp: execute_status_update_def check_transition_def Let_def split: option.splits if_splits)
  with t first_some_id_None [OF none] show ?thesis by simp
qed


definition no_expectations :: expectations where
  "no_expectations = \<lparr>x_request_id = None, x_worker = None, x_claimed_at = None, x_project_id = None\<rparr>"




section \<open>Expired claims\<close>

text \<open>
  The reset touches exactly the running tasks whose claim has expired: they become
  pending without a claim and are the ones counted, no expired claim is left, and every other
  task stays as it is.
\<close>

theorem reset_touches_only_expired_claims:
  "map fst (tasks (snd (reset_expired_claims now s))) = map fst (tasks s) \<and>
   fst (reset_expired_claims now s) = length (filter (claim_expired now) (map snd (tasks s))) \<and>
   map_of (tasks (snd (reset_expired_claims now s))) i =
     map_option (\<lambda>t. if claim_expired now t then to_pending now True t else t) (map_of (tasks s) i) \<and>
   list_all (\<lambda>t. \<not> claim_expired now t) (map snd (tasks (snd (reset_expired_claims now s))))"
proof (intro conjI)
  let ?f = "\<lambda>t. if claim_expired now t then to_pending now True t else t"
  have ts: "tasks (snd (reset_expired_claims now s)) = map (\<lambda>(i, t). (i, ?f t)) (tasks s)"
    by (simp add: reset_expired_claims_def)
  show "map fst (tasks (snd (reset_expired_claims now s))) = map fst (tasks s)"
    unfolding ts by (simp add: case_prod_beta' comp_def)
  show "fst (reset_expired_claims now s) = length (filter (claim_expired now) (map snd (tasks s)))"
    by (simp add: reset_expired_claims_def filter_map)
  have "map_of (map (\<lambda>(i, t). (i, f t)) ts) i = map_option f (map_of ts i)" for f :: "task \<Rightarrow> task" and ts
    by (induction ts) auto
  then show "map_of (tasks (snd (reset_expired_claims now s))) i = map_option ?f (map_of (tasks s) i)"
    unfolding ts .
  have "\<not> claim_expired now (?f t)" for t by (simp add: claim_expired_def to_pending_def)
  then show "list_all (\<lambda>t. \<not> claim_expired now t) (map snd (tasks (snd (reset_expired_claims now s))))"
    unfolding ts list_all_iff by auto
qed

section \<open>Closeout intents\<close>

lemma update_evidence_cases:
  "update_evidence now i ok receipts s = (b, s') \<Longrightarrow>
     (b \<longrightarrow> (\<exists>t. map_of (tasks s) i = Some t \<and> ok t \<and>
        s' = set_task i (t\<lparr>t_verification := Some (jmerge (vr t) receipts), t_updated_at := now\<rparr>) s)) \<and> (\<not> b \<longrightarrow> s' = s)"
  by (auto simp: update_evidence_def split: option.splits if_splits)

lemma store_closeout_True:
  assumes "store_closeout now task_id project closeout g s = (Inr True, s')" and "i = canonicalize_task_id task_id"
  shows "\<exists>t. map_of (tasks s) i = Some t \<and> t_project_id t = project \<and> guard_holds now g t \<and>
    s' = set_task i (t\<lparr>t_verification := Some (jmerge (vr t) [(''closeout'', JObj closeout)]), t_updated_at := now\<rparr>) s"
proof -
  obtain b u where u: "update_evidence now i (\<lambda>t. t_project_id t = project \<and> guard_holds now g t)
      [(''closeout'', JObj closeout)] s = (b, u)" by (rule prod.exhaust)
  with assms have "b \<and> u = s'" by (simp add: store_closeout_def split: if_splits)
  with update_evidence_cases [OF u] show ?thesis by auto
qed

text \<open>
  Closeout intents are compare-and-set. A stored intent replaces only the closeout entry
  of the evidence; and of two writers that both expected the same earlier intent, the second
  changes nothing once the first has stored a different one.
\<close>

theorem closeout_is_compare_and_set:
  assumes "store_closeout now task_id project new1 g1 s = (Inr True, s1)"
    and "g_closeout g1 = Some old" and "g_closeout g2 = Some old" and "new1 \<noteq> old"
  shows "(\<exists>t t1. map_of (tasks s) (canonicalize_task_id task_id) = Some t \<and>
      map_of (tasks s1) (canonicalize_task_id task_id) = Some t1 \<and>
      map_of (vr t1) = (map_of (vr t))(''closeout'' \<mapsto> JObj new1) \<and> t_status t1 = t_status t \<and> t_claimed_by t1 = t_claimed_by t) \<and>
    snd (store_closeout now' task_id project new2 g2 s1) = s1 \<and>
    fst (store_closeout now' task_id project new2 g2 s1) \<noteq> Inr True"
proof -
  let ?i = "canonicalize_task_id task_id"
  obtain t where t: "map_of (tasks s) ?i = Some t"
    and s1: "s1 = set_task ?i (t\<lparr>t_verification := Some (jmerge (vr t) [(''closeout'', JObj new1)]), t_updated_at := now\<rparr>) s"
    using store_closeout_True [OF assms(1) refl] by blast
  define t1 where "t1 = t\<lparr>t_verification := Some (jmerge (vr t) [(''closeout'', JObj new1)]), t_updated_at := now\<rparr>"
  have vr1: "map_of (vr t1) = (map_of (vr t))(''closeout'' \<mapsto> JObj new1)" by (simp add: t1_def vr_def)
  then have "\<not> entry_is (vr t1) ''closeout'' (JObj old)" using assms(4) by (simp add: entry_is_def)
  then have "\<not> guard_holds now' g2 t1" using assms(3) by (simp add: guard_holds_def)
  then have "update_evidence now' ?i (\<lambda>t. t_project_id t = project \<and> guard_holds now' g2 t) r s1 = (False, s1)" for r
    by (simp add: update_evidence_def s1 flip: t1_def)
  then show ?thesis
    using t vr1 assms(3) by (auto simp: store_closeout_def s1 t1_def)
qed

definition open_guard :: "dict \<Rightarrow> closeout_guard" where
  "open_guard old =
     \<lparr>g_request_id = None, g_closeout = Some old, g_source_sha = None, g_worker = None, g_claimed_at = None,
      g_acceptance = None, g_verification = []\<rparr>"

theorem closeout_is_compare_and_set_witness:
  "\<exists>s1. store_closeout 3 ''task-1'' ''sf'' [(''request_id'', JStr ''a'')] (open_guard []) sample_store = (Inr True, s1) \<and>
     fst (store_closeout 4 ''task-1'' ''sf'' [(''request_id'', JStr ''b'')] (open_guard []) s1) \<noteq> Inr True"
proof -
  let ?r = "store_closeout 3 ''task-1'' ''sf'' [(''request_id'', JStr ''a'')] (open_guard []) sample_store"
  have "fst ?r = Inr True" by code_simp
  then have r: "?r = (Inr True, snd ?r)" by (metis prod.collapse)
  have g: "g_closeout (open_guard []) = Some []" by (simp add: open_guard_def)
  from closeout_is_compare_and_set [OF r g g] r show ?thesis by blast
qed

section \<open>New commits and repair findings\<close>

text \<open>
  Recording a commit that the acceptance was not made for voids the acceptance; recording
  a known commit again changes neither the commits nor the acceptance.
\<close>

theorem new_commit_voids_acceptance:
  assumes "add_commit now task_id sha project None merge_sha s = (Some t', s')"
    and "map_of (tasks s) (canonicalize_task_id task_id) = Some t"
  shows "(sha \<notin> set (t_commits t) \<and> jtext (sub_dict (vr t) ''acceptance'') ''source_commit'' \<noteq> Some sha \<longrightarrow>
      accepted (t_verification t') = None \<and> t_commits t' = t_commits t @ [sha]) \<and>
    (sha \<in> set (t_commits t) \<longrightarrow> t_commits t' = t_commits t \<and> accepted (t_verification t') = accepted (t_verification t))"
proof -
  have t': "t_commits t' = (if sha \<in> set (t_commits t) then t_commits t else t_commits t @ [sha])"
    "t_verification t' = commit_verification sha None t"
    using assms by (auto simp: add_commit_def Let_def split: if_splits)
  have "accepted (commit_verification sha None t) = None"
    if "sha \<notin> set (t_commits t)" "jtext (sub_dict (vr t) ''acceptance'') ''source_commit'' \<noteq> Some sha"
  proof (cases "map_of (vr t) ''acceptance''")
    case None
    then show ?thesis
      by (auto simp: commit_verification_def accepted_def get_dict_def get_def get_or_def Let_def)
  next
    case (Some a)
    then have "t_verification t \<noteq> None" by (cases "t_verification t") (simp_all add: vr_def)
    with Some that have "commit_verification sha None t = Some (jput ''acceptance'' (jconcat a STALE_COMMIT) (vr t))"
      by (simp add: commit_verification_def)
    then show ?thesis using jconcat_stale_commit [of a] by (simp add: accepted_def get_dict_def get_def get_or_def)
  qed
  moreover have "accepted (commit_verification sha None t) = accepted (t_verification t)" if "sha \<in> set (t_commits t)"
    using that by (auto simp: commit_verification_def accepted_vr Let_def accepted_def vr_def split: option.splits)
  ultimately show ?thesis by (simp add: t')
qed

theorem new_commit_voids_acceptance_witness:
  "\<exists>t' s'. add_commit 3 ''task-1'' ''beef'' None None None sample_store = (Some t', s') \<and> accepted (t_verification t') = None"
proof -
  let ?r = "add_commit 3 ''task-1'' ''beef'' None None None sample_store"
  have "fst ?r \<noteq> None" by code_simp
  then obtain t' s' where r: "?r = (Some t', s')" by (cases ?r) auto
  have m: "map_of (tasks sample_store) (canonicalize_task_id ''task-1'') = Some sample_row" by code_simp
  have c: "''beef'' \<notin> set (t_commits sample_row)" "jtext (sub_dict (vr sample_row) ''acceptance'') ''source_commit'' \<noteq> Some ''beef''"
    by code_simp+
  from new_commit_voids_acceptance [OF r m] r c show ?thesis by blast
qed

lemma filter_jput: "filter (\<lambda>(k, v). k \<noteq> j) (jput j w d) = filter (\<lambda>(k, v). k \<noteq> j) d"
  by (induction d) auto

lemma filter_no_key: "filter (\<lambda>(k, v). k \<noteq> j) d = d \<longleftrightarrow> map_of d j = None"
proof (induction d)
  case (Cons e d)
  obtain k v where e: "e = (k, v)" by (cases e)
  have "filter (\<lambda>(k, v). k \<noteq> j) d \<noteq> e # d" by (metis impossible_Cons length_filter_le)
  with Cons show ?case by (auto simp: e)
qed simp

text \<open>
  An owner's administrative disposition settles a finding only if the finding has not been
  classified before. The compared earlier finding keeps its old disposition, which the check
  drops, so a finding first sent to investigation stays actionable after it is retired as
  administrative, and the task can still not be cancelled.
\<close>

theorem administrative_disposition_effect:
  assumes "list_ex (has_str f ''reason'') ADMINISTRATIVE_REASONS" and "\<not> has_str f ''state'' ''resolved''"
  shows "finding_actionable (jput ''disposition'' (JObj (disposition_of at_iso f ''administrative'' reason evidence)) f) \<longleftrightarrow>
    map_of f ''disposition'' \<noteq> None"
proof -
  let ?d = "disposition_of at_iso f ''administrative'' reason evidence"
  have g: "get_dict (jput ''disposition'' (JObj ?d) f) ''disposition'' = ?d"
    by (simp add: get_dict_def get_def get_or_def)
  have r: "list_ex (has_str (jput ''disposition'' (JObj ?d) f) ''reason'') ADMINISTRATIVE_REASONS"
  proof -
    have "has_str (jput ''disposition'' (JObj ?d) f) ''reason'' = has_str f ''reason''"
      by (simp add: has_str_def fun_eq_iff)
    with assms(1) show ?thesis by simp
  qed
  have st: "\<not> has_str (jput ''disposition'' (JObj ?d) f) ''state'' ''resolved''" using assms(2) by (simp add: has_str_def)
  have d: "has_str ?d ''kind'' ''publication_disposition.v1''" "has_str ?d ''classification'' ''administrative''"
    "has_str ?d ''state'' ''no_longer_required''" "map_of ?d ''prior_finding'' = Some (JObj f)"
    by (simp_all add: has_str_def disposition_of_def)
  show ?thesis
    using filter_no_key [of "''disposition''" f]
    by (simp add: finding_actionable_def Let_def g r st d filter_jput eq_commute [of f])
qed

theorem administrative_disposition_effect_witness:
  "finding_actionable (jput ''disposition'' (JObj (disposition_of ''t'' 
     [(''disposition'', JObj [(''classification'', JStr ''investigation'')]), (''reason'', JStr ''cloud_ci_missing'')]
     ''administrative'' ''r'' ''e''))
     [(''disposition'', JObj [(''classification'', JStr ''investigation'')]), (''reason'', JStr ''cloud_ci_missing'')])"
proof -
  let ?f = "[(''disposition'', JObj [(''classification'', JStr ''investigation'')]), (''reason'', JStr ''cloud_ci_missing'')]"
  have "list_ex (has_str ?f ''reason'') ADMINISTRATIVE_REASONS" "\<not> has_str ?f ''state'' ''resolved''" by code_simp+
  from administrative_disposition_effect [OF this] show ?thesis by simp
qed

end
