(* ===== verification/AgentIdentity.thy ===== *)
theory AgentIdentity
  imports PyStr
begin

text \<open>
  Who is acting: the identity of the calling agent and of its family
  (\<open>identify_agent\<close>, \<open>_lineage\<close> and their clients in \<open>backend/cli/lib/leases.py\<close>) and the
  process anchor that survives context resets (\<open>backend/cli/lib/coord_lineage.py\<close>).

  The operating system is the process table; instants are integers in microseconds, and a
  stored time that is absent or that \<open>datetime.fromisoformat\<close> refuses is \<open>None\<close>.
\<close>

type_synonym stamp = "int option"

record proc =
  p_comm :: string
  p_ppid :: int
  p_start :: string
  p_exe :: "string option"
  p_cmdline :: "string list option"

type_synonym proc_table = "(int \<times> proc) list"

record identity =
  id_anchor :: "string option"
  id_main :: bool
  id_session :: "string option"
  id_last :: stamp

text \<open>What a call can see: its environment, its process, the process table, the registry (rows that are not objects are \<open>None\<close>) and whether its session is marked sensitive.\<close>

record host =
  h_env :: "(string \<times> string) list"
  h_pid :: int
  h_procs :: proc_table
  h_identities :: "(string \<times> identity option) list"
  h_sensitive :: bool

section \<open>Processes and anchors\<close>

definition process_start :: "proc_table \<Rightarrow> int \<Rightarrow> string option" where
  "process_start procs pid = map_option p_start (map_of procs pid)"

definition process_alive :: "proc_table \<Rightarrow> int option \<Rightarrow> string option \<Rightarrow> bool" where
  "process_alive procs pid start =
     (case pid of None \<Rightarrow> False | Some p \<Rightarrow> p \<noteq> 0 \<and> process_start procs p = start)"

definition HARNESS_COMMS :: "(string \<times> string) list" where
  "HARNESS_COMMS = [(''claude'', ''claude_code''), (''codex'', ''codex''), (''pi'', ''pi''), (''agy'', ''antigravity'')]"

definition PREFIX :: "(string \<times> string) list" where
  "PREFIX = [(''claude_code'', ''cc:''), (''codex'', ''codex:''), (''pi'', ''pi:''), (''antigravity'', ''agy:'')]"

definition harness_provider :: "proc \<Rightarrow> string option" where
  "harness_provider p =
     (case map_of HARNESS_COMMS (p_comm p) of
        Some provider \<Rightarrow> Some provider
      | None \<Rightarrow>
          (case p_exe p of
             None \<Rightarrow> None
           | Some exe \<Rightarrow>
               if path_name (dirname exe) = ''versions''
               then map_of HARNESS_COMMS (path_name (dirname (dirname exe))) else None))"

definition shared_host :: "proc \<Rightarrow> bool" where
  "shared_host p =
     (case p_cmdline p of
        None \<Rightarrow> True
      | Some args \<Rightarrow>
          list_ex (\<lambda>a. endswith a ''-server'' \<or> endswith a ''-host'' \<or> endswith a ''bg-spare'' \<or> a = ''daemon'') (tl args))"

fun digits :: "nat \<Rightarrow> string" where
  "digits n = (if n < 10 then [char_of (48 + n)] else digits (n div 10) @ [char_of (48 + n mod 10)])"

declare digits.simps [simp del]

definition pid_str :: "int \<Rightarrow> string" where
  "pid_str i = (if i < 0 then CHR ''-'' # digits (nat (- i)) else digits (nat i))"

text \<open>The walk over the ancestors, at most 40 of them.\<close>

fun proc_anchor :: "nat \<Rightarrow> proc_table \<Rightarrow> int \<Rightarrow> (string \<times> string) option" where
  "proc_anchor 0 procs pid = None"
| "proc_anchor (Suc n) procs pid =
     (if pid \<le> 1 then None
      else case map_of procs pid of
             None \<Rightarrow> None
           | Some p \<Rightarrow>
               (case harness_provider p of
                  Some provider \<Rightarrow> if shared_host p then None else Some (pid_str pid @ '':'' @ p_start p, provider)
                | None \<Rightarrow> proc_anchor n procs (p_ppid p)))"

definition nonempty :: "string option \<Rightarrow> string option" where
  "nonempty s = (case s of Some [] \<Rightarrow> None | _ \<Rightarrow> s)"

definition harness :: "host \<Rightarrow> string option \<times> string option" where
  "harness h =
     (case map_of (h_env h) ''ST_COORD_ANCHOR'' of
        Some override \<Rightarrow> (nonempty (Some override), nonempty (map_of (h_env h) ''ST_COORD_HARNESS''))
      | None \<Rightarrow>
          (case proc_anchor 40 (h_procs h) (h_pid h) of
             Some (anchor, provider) \<Rightarrow> (Some anchor, Some provider)
           | None \<Rightarrow> (None, None)))"

definition number_of :: "string \<Rightarrow> int" where
  "number_of s = fold (\<lambda>c n. n * 10 + (int (char_nat c) - 48)) s 0"

definition isdigit :: "string \<Rightarrow> bool" where
  "isdigit s \<longleftrightarrow> s \<noteq> [] \<and> list_all is_digit s"

definition anchor_alive :: "proc_table \<Rightarrow> string option \<Rightarrow> bool" where
  "anchor_alive procs anchor =
     (case anchor of
        None \<Rightarrow> False
      | Some a \<Rightarrow>
          CHR '':'' \<in> set a \<and>
          (let pid = before_first CHR '':'' a; start = after_first CHR '':'' a
           in isdigit pid \<and> process_alive procs (Some (number_of pid)) (Some start)))"

section \<open>The calling agent\<close>

definition is_alnum :: "char \<Rightarrow> bool" where
  "is_alnum c \<longleftrightarrow> is_digit c \<or> is_alpha c"

text \<open>\<open>[A-Za-z0-9][A-Za-z0-9._:-]{0,127}\<close>, with the allowed punctuation as a parameter\<close>

definition token_ok :: "string \<Rightarrow> string \<Rightarrow> bool" where
  "token_ok punct v =
     (case v of
        [] \<Rightarrow> False
      | c # cs \<Rightarrow> is_alnum c \<and> length cs \<le> 127 \<and> list_all (\<lambda>d. is_alnum d \<or> d \<in> set punct) cs)"

definition session :: "host \<Rightarrow> string \<Rightarrow> string option" where
  "session h key =
     (case map_of (h_env h) key of
        Some v \<Rightarrow> if token_ok ''._:-'' v then Some v else None
      | None \<Rightarrow> None)"

definition is_hex_digit :: "char \<Rightarrow> bool" where
  "is_hex_digit c \<longleftrightarrow> is_digit c \<or> c \<in> set ''abcdefABCDEF''"

text \<open>\<open>_UUID7\<close>: hex groups of 8, 4, 4, 4 and 12 digits, the third starting with 7\<close>

definition uuid7_groups :: "string list \<Rightarrow> bool" where
  "uuid7_groups gs \<longleftrightarrow>
     map length gs = [8, 4, 4, 4, 12] \<and> list_all (list_all is_hex_digit) gs \<and> hd (gs ! 2) = CHR ''7''"

definition is_uuid7 :: "string \<Rightarrow> bool" where
  "is_uuid7 s \<longleftrightarrow> uuid7_groups (split_on CHR ''-'' s)"

definition ROOT_HANDLE_PREFIX :: string where
  "ROOT_HANDLE_PREFIX = ''aico-root-''"

definition short_id :: "string \<Rightarrow> string" where
  "short_id sid0 =
     (let sid = removeprefix sid0 ROOT_HANDLE_PREFIX
      in if is_uuid7 sid then drop (length sid - 6) sid else take 6 sid)"

type_synonym agent = "string \<times> string \<times> string \<times> string"

definition named :: "(string \<Rightarrow> string) \<Rightarrow> string \<Rightarrow> string \<Rightarrow> string \<Rightarrow> string option \<Rightarrow> agent option" where
  "named short prefix slug provider sid =
     map_option (\<lambda>s. (prefix @ '':'' @ short s, slug, s, provider)) sid"

text \<open>The table of the enclosing harness's own session variable.\<close>

definition OWN :: "(string \<times> string \<times> string \<times> string \<times> string) list" where
  "OWN = [(''claude_code'', ''CLAUDE_CODE_SESSION_ID'', ''cc'', ''claude-code'', ''claude_code''),
          (''codex'', ''CODEX_THREAD_ID'', ''codex'', ''codex'', ''codex_cli''),
          (''pi'', ''PI_SESSION_ID'', ''pi'', ''pi'', ''pi''),
          (''antigravity'', ''ANTIGRAVITY_CONVERSATION_ID'', ''agy'', ''antigravity'', ''antigravity'')]"

definition own_session :: "host \<Rightarrow> (string \<Rightarrow> string) \<Rightarrow> agent option" where
  "own_session h short =
     (case map_of OWN (case snd (harness h) of Some p \<Rightarrow> p | None \<Rightarrow> []) of
        Some (key, prefix, slug, provider) \<Rightarrow> named short prefix slug provider (session h key)
      | None \<Rightarrow> None)"

definition hub_agent :: "host \<Rightarrow> (string \<Rightarrow> string) \<Rightarrow> agent option" where
  "hub_agent h short =
     (case map_of (h_env h) ''AGENT_HUB_AGENT_SLUG'' of
        Some slug \<Rightarrow> if token_ok ''._-'' slug
                     then named short slug slug ''agent_hub_specialist'' (session h ''AGENT_HUB_SESSION_ID'') else None
      | None \<Rightarrow> None)"

definition tmux_pane :: "host \<Rightarrow> string option" where
  "tmux_pane h = nonempty (map_of (h_env h) ''TMUX_PANE'')"

definition identify_agent :: "bool \<Rightarrow> host \<Rightarrow> agent" where
  "identify_agent native h =
     (let short = (if native then short_id else take 6);
          st_sid = session h ''ST_SESSION_ID'';
          explicit = (case st_sid of
                        Some s \<Rightarrow> if native \<and> startswith s ROOT_HANDLE_PREFIX then None else st_sid
                      | None \<Rightarrow> None);
          candidates =
            [named short ''st'' ''st'' ''st'' explicit,
             (if native then own_session h short else None),
             named short ''cc'' ''claude-code'' ''claude_code''
               (or_else (session h ''CLAUDE_SESSION_ID'') (if native then session h ''CLAUDE_CODE_SESSION_ID'' else None)),
             named short ''codex'' ''codex'' ''codex_cli''
               (or_else (session h ''CODEX_SESSION_ID'') (if native then session h ''CODEX_THREAD_ID'' else None)),
             hub_agent h short,
             named short ''pi'' ''pi'' ''pi'' (session h ''PI_SESSION_ID''),
             named short ''agy'' ''antigravity'' ''antigravity'' (session h ''ANTIGRAVITY_CONVERSATION_ID''),
             named short ''st'' ''st'' ''st'' st_sid,
             map_option (\<lambda>pane. (''tmux:'' @ lstrip_chars ''%'' pane, ''tmux'', pane, ''unknown'')) (tmux_pane h)]
      in case first_some id candidates of
           Some a \<Rightarrow> a
         | None \<Rightarrow> (''pid:'' @ pid_str (h_pid h), ''pid'', pid_str (h_pid h), ''unknown''))"

definition agent_key :: "host \<Rightarrow> string" where
  "agent_key h = fst (identify_agent True h)"

section \<open>Families\<close>

definition current_anchor :: "host \<Rightarrow> string \<Rightarrow> string option" where
  "current_anchor h agent_id =
     (case fst (harness h) of
        Some anchor \<Rightarrow> if anchor_alive (h_procs h) (Some anchor) then Some anchor else None
      | None \<Rightarrow>
          (let registered = (case map_of (h_identities h) agent_id of Some (Some row) \<Rightarrow> id_anchor row | _ \<Rightarrow> None)
           in if anchor_alive (h_procs h) registered then registered else None))"

definition family_rows :: "host \<Rightarrow> string \<Rightarrow> (string \<times> identity) list" where
  "family_rows h anchor =
     List.map_filter (\<lambda>(aid, row). case row of
         Some r \<Rightarrow> if id_anchor r = Some anchor then Some (aid, r) else None
       | None \<Rightarrow> None) (h_identities h)"

definition family_ids :: "host \<Rightarrow> string list" where
  "family_ids h =
     (case current_anchor h (agent_key h) of
        Some a \<Rightarrow> if anchor_alive (h_procs h) (Some a) then map fst (family_rows h a) else []
      | None \<Rightarrow> [])"

definition row_anchor :: "host \<Rightarrow> string \<Rightarrow> string option" where
  "row_anchor h a = (case map_of (h_identities h) a of Some (Some r) \<Rightarrow> id_anchor r | _ \<Rightarrow> None)"

definition same_agent :: "host \<Rightarrow> string option \<Rightarrow> string option \<Rightarrow> string option \<Rightarrow> bool" where
  "same_agent h a b b_anchor =
     (case (nonempty a, nonempty b) of
        (Some x, Some y) \<Rightarrow>
          x = y \<or>
          (let anchor_a = nonempty (row_anchor h x); anchor_b = or_else (nonempty b_anchor) (row_anchor h y)
           in anchor_a \<noteq> None \<and> anchor_a = anchor_b \<and> anchor_alive (h_procs h) anchor_a)
      | _ \<Rightarrow> False)"

definition REGISTRY_TTL :: int where "REGISTRY_TTL = 24 * 3600 * 1000000"

definition fresh :: "stamp \<Rightarrow> int \<Rightarrow> int \<Rightarrow> bool" where
  "fresh s ttl now = (case s of Some t \<Rightarrow> now - t \<le> ttl | None \<Rightarrow> False)"

definition prune_identities :: "proc_table \<Rightarrow> int \<Rightarrow> (string \<times> 'a identity_scheme option) list \<Rightarrow> (string \<times> 'a identity_scheme) list" where
  "prune_identities procs now ids =
     List.map_filter (\<lambda>(aid, row). case row of
         Some r \<Rightarrow> if anchor_alive procs (id_anchor r) \<and> fresh (id_last r) REGISTRY_TTL now then Some (aid, r) else None
       | None \<Rightarrow> None) ids"

text \<open>\<open>_lineage\<close>: agent id, live anchor, whole family, main-thread family, whether the id is a child thread.\<close>

definition lineage :: "host \<Rightarrow> string \<times> string option \<times> string list \<times> string list \<times> bool" where
  "lineage h =
     (let agent_id = agent_key h in
      case current_anchor h agent_id of
        None \<Rightarrow> (agent_id, None, [], [], False)
      | Some anchor \<Rightarrow>
          (let rows = family_rows h anchor; mains = map fst (filter (\<lambda>(_, r). id_main r) rows)
           in if mains = [] then (agent_id, Some anchor, map fst rows, map fst rows, False)
              else (agent_id, Some anchor, map fst rows, mains, agent_id \<notin> set mains)))"

definition with_tmux :: "host \<Rightarrow> string list \<Rightarrow> string list" where
  "with_tmux h ids =
     (case tmux_pane h of Some pane \<Rightarrow> ids @ [''tmux:'' @ lstrip_chars ''%'' pane] | None \<Rightarrow> ids)"

definition self_ids :: "host \<Rightarrow> string list" where
  "self_ids h = (case lineage h of (agent_id, _, _, mains, child) \<Rightarrow> with_tmux h (agent_id # (if child then [] else mains)))"

definition my_anchor :: "host \<Rightarrow> string option" where
  "my_anchor h = (case lineage h of (_, anchor, _, _, child) \<Rightarrow> if child then None else anchor)"

definition session_ids :: "host \<Rightarrow> string list \<times> string option" where
  "session_ids h = (case lineage h of (agent_id, anchor, family, _, _) \<Rightarrow> (with_tmux h (agent_id # family), anchor))"

text \<open>The latest main-thread key; a key without a time counts as the earliest.\<close>

definition last_seen :: "host \<Rightarrow> string \<Rightarrow> stamp" where
  "last_seen h a = (case map_of (h_identities h) a of Some (Some r) \<Rightarrow> id_last r | _ \<Rightarrow> None)"

definition stamp_less :: "stamp \<Rightarrow> stamp \<Rightarrow> bool" where
  "stamp_less a b = (case (a, b) of (Some s, Some t) \<Rightarrow> s < t | (None, Some _) \<Rightarrow> True | _ \<Rightarrow> False)"

fun latest_key :: "host \<Rightarrow> string \<Rightarrow> string list \<Rightarrow> string" where
  "latest_key h best [] = best"
| "latest_key h best (a # as) = latest_key h (if stamp_less (last_seen h best) (last_seen h a) then a else best) as"

definition root_key :: "host \<Rightarrow> string" where
  "root_key h =
     (case lineage h of
        (agent_id, _, _, mains, child) \<Rightarrow>
          if \<not> child then agent_id
          else case mains of [] \<Rightarrow> agent_id | m # ms \<Rightarrow> latest_key h m ms)"

section \<open>Facts\<close>

lemma nonempty_simps [simp]: "nonempty None = None" "nonempty (Some (c # cs)) = Some (c # cs)" "nonempty (Some []) = None"
  by (simp_all add: nonempty_def)

lemma agent_in_self_ids: "agent_key h \<in> set (self_ids h)"
  by (auto simp: self_ids_def lineage_def with_tmux_def Let_def split: option.splits prod.splits if_splits)

lemma agent_in_session_ids: "agent_key h \<in> set (fst (session_ids h))"
  by (auto simp: session_ids_def lineage_def with_tmux_def Let_def split: option.splits prod.splits if_splits)

lemma latest_key_in: "latest_key h best as \<in> set (best # as)"
  by (induction h best as rule: latest_key.induct) auto

lemma family_rowsD: "(a, r) \<in> set (family_rows h anchor) \<Longrightarrow> (a, Some r) \<in> set (h_identities h) \<and> id_anchor r = Some anchor"
  by (auto simp: family_rows_def map_filter_def split: option.splits if_splits)

lemma self_within_session: "set (self_ids h) \<subseteq> set (fst (session_ids h))"
  by (force simp: self_ids_def session_ids_def lineage_def with_tmux_def Let_def split: option.splits prod.splits if_splits)

lemma my_anchor_alive: "my_anchor h = Some a \<Longrightarrow> anchor_alive (h_procs h) (Some a)"
  by (auto simp: my_anchor_def lineage_def current_anchor_def Let_def split: option.splits if_splits prod.splits)

lemma root_key_in_session: "root_key h \<in> set (fst (session_ids h))"
proof (cases "current_anchor h (agent_key h)")
  case None
  then show ?thesis by (simp add: root_key_def session_ids_def lineage_def with_tmux_def split: option.splits)
next
  case (Some anchor)
  let ?rows = "family_rows h anchor"
  let ?mains = "map fst (filter (\<lambda>(_, r). id_main r) ?rows)"
  have "root_key h = agent_key h \<or> root_key h \<in> set ?mains"
  proof (cases ?mains)
    case (Cons m ms)
    then have "root_key h = (if agent_key h \<in> set ?mains then agent_key h else latest_key h m ms)"
      unfolding root_key_def lineage_def Let_def Some by simp
    then show ?thesis using latest_key_in [of h m ms] Cons by (metis (no_types))
  qed (use Some in \<open>simp add: root_key_def lineage_def Let_def\<close>)
  moreover have "insert (agent_key h) (set ?mains) \<subseteq> set (fst (session_ids h))"
    using Some by (auto simp: session_ids_def lineage_def with_tmux_def Let_def split: option.splits)
  ultimately show ?thesis by blast
qed

end
