(* ===== verification/Fnmatch.thy ===== *)
theory Fnmatch
  imports PyStr
begin

text \<open>
  Python's \<open>fnmatch.fnmatch\<close> on POSIX: \<open>*\<close> matches any text (slashes included), \<open>?\<close> one
  character, \<open>[seq]\<close> and \<open>[!seq]\<close> one character in or outside a set with ranges; a \<open>[\<close>
  that is never closed matches itself.
\<close>

text \<open>The members of a bracket: \<open>x-y\<close> is a range (empty when it runs backwards), anything else stands for itself.\<close>

fun bracket_has :: "string \<Rightarrow> char \<Rightarrow> bool" where
  "bracket_has [] c = False"
| "bracket_has (x # m # y # rest) c =
     (if m = CHR ''-'' then (char_nat x \<le> char_nat c \<and> char_nat c \<le> char_nat y) \<or> bracket_has rest c
      else x = c \<or> bracket_has (m # y # rest) c)"
| "bracket_has (x # rest) c = (x = c \<or> bracket_has rest c)"

text \<open>What follows \<open>[\<close>: negation, members and the rest of the pattern; a \<open>]\<close> in first place is a member.\<close>

definition bracket :: "string \<Rightarrow> (bool \<times> string \<times> string) option" where
  "bracket p =
     (let neg = (case p of c # _ \<Rightarrow> c = CHR ''!'' | [] \<Rightarrow> False);
          q = (if neg then tl p else p);
          lead = (case q of c # _ \<Rightarrow> if c = CHR '']'' then [c] else [] | [] \<Rightarrow> []);
          body = takeWhile (\<lambda>c. c \<noteq> CHR '']'') (drop (length lead) q);
          rest = drop (length lead + length body) q
      in case rest of [] \<Rightarrow> None | _ # r \<Rightarrow> Some (neg, lead @ body, r))"

lemma bracket_shorter: "bracket p = Some (neg, ms, r) \<Longrightarrow> length r < length p"
proof -
  assume b: "bracket p = Some (neg, ms, r)"
  define q where "q = (if (case p of c # _ \<Rightarrow> c = CHR ''!'' | [] \<Rightarrow> False) then tl p else p)"
  define lead where "lead = (case q of c # _ \<Rightarrow> if c = CHR '']'' then [c] else [] | [] \<Rightarrow> [])"
  define k where "k = length lead + length (takeWhile (\<lambda>c. c \<noteq> CHR '']'') (drop (length lead) q))"
  have "bracket p = (case drop k q of [] \<Rightarrow> None | _ # r' \<Rightarrow>
      Some (case p of c # _ \<Rightarrow> c = CHR ''!'' | [] \<Rightarrow> False, lead @ takeWhile (\<lambda>c. c \<noteq> CHR '']'') (drop (length lead) q), r'))"
    unfolding bracket_def Let_def q_def [symmetric] lead_def [symmetric] k_def [symmetric] ..
  with b obtain x where "drop k q = x # r" by (cases "drop k q") auto
  then have "length (drop k q) = Suc (length r)" by simp
  then have "length r < length q" by simp
  moreover have "length q \<le> length p" by (simp add: q_def)
  ultimately show ?thesis by simp
qed

function glob_match :: "string \<Rightarrow> string \<Rightarrow> bool" where
  "glob_match [] s = (s = [])"
| "glob_match (p # ps) s =
     (if p = CHR ''*'' then glob_match ps s \<or> (case s of [] \<Rightarrow> False | _ # s' \<Rightarrow> glob_match (p # ps) s')
      else case s of
             [] \<Rightarrow> False
           | c # s' \<Rightarrow>
               if p = CHR ''?'' then glob_match ps s'
               else if p = CHR ''['' then
                 (case bracket ps of
                    None \<Rightarrow> c = CHR ''['' \<and> glob_match ps s'
                  | Some (neg, ms, r) \<Rightarrow> bracket_has ms c \<noteq> neg \<and> glob_match r s')
               else p = c \<and> glob_match ps s')"
  by pat_completeness auto
termination
  by (relation "measure (\<lambda>(p, s). length p + length s)") (auto dest: bracket_shorter)

declare glob_match.simps [simp del]

lemmas glob_match_Nil = glob_match.simps(1)
lemmas glob_match_Cons = glob_match.simps(2)

definition fnmatch :: "string \<Rightarrow> string \<Rightarrow> bool" where
  "fnmatch name pat = glob_match pat name"

section \<open>Facts\<close>

definition plain_char :: "char \<Rightarrow> bool" where
  "plain_char c \<longleftrightarrow> c \<notin> set ''*?[''"

lemma glob_match_plain: "list_all plain_char ps \<Longrightarrow> glob_match (ps @ qs) s \<longleftrightarrow> (\<exists>t. s = ps @ t \<and> glob_match qs t)"
proof (induction ps arbitrary: s)
  case (Cons p ps)
  then show ?case by (cases s) (auto simp: glob_match_Cons [of p] plain_char_def)
qed simp

lemma glob_match_star: "glob_match (CHR ''*'' # ps) s \<longleftrightarrow> (\<exists>u t. s = u @ t \<and> glob_match ps t)"
proof (induction s)
  case Nil
  then show ?case by (simp add: glob_match_Cons [of _ _ "[]"])
next
  case (Cons c s)
  have "glob_match (CHR ''*'' # ps) (c # s) \<longleftrightarrow> glob_match ps (c # s) \<or> glob_match (CHR ''*'' # ps) s"
    by (simp add: glob_match_Cons [of _ ps "c # s"])
  also have "\<dots> \<longleftrightarrow> (\<exists>u t. c # s = u @ t \<and> glob_match ps t)"
    unfolding Cons.IH by (auto simp: Cons_eq_append_conv)
  finally show ?case .
qed

text \<open>A path without wildcards matches itself and, with \<open>/**\<close> after it, exactly what lies below it.\<close>

lemma fnmatch_plain: "list_all plain_char p \<Longrightarrow> fnmatch s p \<longleftrightarrow> s = p"
  using glob_match_plain [of p "[]" s] by (auto simp: fnmatch_def glob_match_Nil)

lemma fnmatch_below: "list_all plain_char p \<Longrightarrow> fnmatch s (p @ ''/**'') \<longleftrightarrow> (\<exists>t. s = p @ CHR ''/'' # t)"
proof -
  assume p: "list_all plain_char p"
  have "list_all plain_char (p @ ''/'')" using p by (simp add: plain_char_def)
  from glob_match_plain [OF this, of "''**''" s]
  have "fnmatch s (p @ ''/**'') \<longleftrightarrow> (\<exists>t. s = p @ CHR ''/'' # t \<and> glob_match ''**'' t)"
    by (simp add: fnmatch_def)
  moreover have "glob_match ''**'' t" for t by (auto simp: glob_match_star glob_match_Nil)
  ultimately show ?thesis by simp
qed

end
