(* ===== verification/CoordStore.thy ===== *)
theory CoordStore
  imports Json "HOL-Library.Sublist"
begin

text \<open>
  The coordination store client (\<open>backend/cli/lib/coord_store.py\<close>): documents of another
  process (Tether), read with a version and replaced by compare-and-set.

  Tether itself is not part of the repository. It is the parameter \<open>request\<close>, which takes the
  state of the outside world to an answer (\<open>None\<close> when the transport raises) and the next state,
  so that other processes may act between any two requests. What the client relies on is the
  locale \<open>cas_documents\<close>. An answer's body is read through the fields the client uses; \<open>None\<close>
  stands for a field that is absent or has the wrong type.
\<close>

datatype meth = GET | PUT

record 'd body =
  b_doc :: "'d option"
  b_version :: "int option"
  b_error :: "string option"
  b_items :: "string option list option"

type_synonym ('d, 'w) request = "meth \<Rightarrow> string \<Rightarrow> ('d \<times> int) option \<Rightarrow> 'w \<Rightarrow> (int \<times> 'd body) option \<times> 'w"

datatype store_error = Unavailable string | Conflict string | OutsideLock string | Unreachable

text \<open>\<open>_changes\<close>: the changes in progress, with the version and the copy they read.\<close>

type_synonym 'd changes = "(string \<times> int \<times> 'd) list"
type_synonym ('d, 'w, 'a) action = "'d changes \<times> 'w \<Rightarrow> (store_error, 'a) result \<times> 'd changes \<times> 'w"

section \<open>Requests\<close>

definition hex_upper :: "nat \<Rightarrow> char" where
  "hex_upper n = (if n < 10 then char_of (48 + n) else char_of (55 + n))"

definition quote_char :: "char \<Rightarrow> string" where
  "quote_char c =
     (if is_digit c \<or> is_alpha c \<or> c \<in> set ''_.-~'' then [c]
      else [CHR ''%'', hex_upper (char_nat c div 16), hex_upper (char_nat c mod 16)])"

definition quote :: "string \<Rightarrow> string" where
  "quote s = concat (map quote_char s)"

definition coord_path :: "string \<Rightarrow> string" where
  "coord_path name = ''/v1/coordination/docs/'' @ quote name"

definition fetch :: "('d, 'w) request \<Rightarrow> string \<Rightarrow> 'w \<Rightarrow> (store_error, int \<times> 'd) result \<times> 'w" where
  "fetch request name w =
     (case request GET (coord_path name) None w of
        (None, w') \<Rightarrow> (raise (Unavailable ''transport''), w')
      | (Some (status, body), w') \<Rightarrow>
          (case (b_doc body, b_version body) of
             (Some doc, Some version) \<Rightarrow>
               if status \<noteq> 200 then (raise (Unavailable (''reading '' @ name @ '' answered '' @ int_str status)), w')
               else (return (version, doc), w')
           | _ \<Rightarrow> (raise (Unavailable (''reading '' @ name @ '' answered '' @ int_str status)), w')))"

definition enabled :: "('d, 'w) request \<Rightarrow> bool \<Rightarrow> bool option \<Rightarrow> 'w \<Rightarrow> bool \<times> bool option \<times> 'w" where
  "enabled request leases_dir has_routes w =
     (if leases_dir then (False, has_routes, w)
      else case has_routes of
             Some b \<Rightarrow> (b, has_routes, w)
           | None \<Rightarrow>
               (case request GET ''/v1/coordination/docs'' None w of
                  (None, w') \<Rightarrow> (True, None, w')
                | (Some (status, _), w') \<Rightarrow> (status \<noteq> 404, Some (status \<noteq> 404), w')))"

definition names :: "('d, 'w) request \<Rightarrow> 'w \<Rightarrow> (store_error, string list) result \<times> 'w" where
  "names request w =
     (case request GET ''/v1/coordination/docs'' None w of
        (None, w') \<Rightarrow> (raise (Unavailable ''transport''), w')
      | (Some (status, body), w') \<Rightarrow>
          if status \<noteq> 200 then (raise (Unavailable (''listing documents answered '' @ int_str status)), w')
          else (return (sort (List.map_filter id (case b_items body of Some xs \<Rightarrow> xs | None \<Rightarrow> []))), w'))"

section \<open>Changes\<close>

definition coord_read :: "('d, 'w) request \<Rightarrow> string \<Rightarrow> ('d, 'w, 'd) action" where
  "coord_read request name = (\<lambda>(ch, w).
     case map_of ch name of
       Some (_, doc) \<Rightarrow> (return doc, ch, w)
     | None \<Rightarrow> (case fetch request name w of
                 (Inl e, w') \<Rightarrow> (raise e, ch, w')
               | (Inr (_, doc), w') \<Rightarrow> (return doc, ch, w')))"

definition coord_write :: "('d, 'w) request \<Rightarrow> string \<Rightarrow> 'd \<Rightarrow> ('d, 'w, unit) action" where
  "coord_write request name doc = (\<lambda>(ch, w).
     case map_of ch name of
       None \<Rightarrow> (raise (OutsideLock name), ch, w)
     | Some (version, _) \<Rightarrow>
         (case request PUT (coord_path name) (Some (doc, version)) w of
            (None, w') \<Rightarrow> (raise (Unavailable ''transport''), ch, w')
          | (Some (status, body), w') \<Rightarrow>
              if status = 409 \<and> b_error body = Some ''version_conflict'' then (raise (Conflict name), ch, w')
              else case b_version body of
                     None \<Rightarrow> (raise (Unavailable (''writing '' @ name @ '' answered '' @ int_str status)), ch, w')
                   | Some v \<Rightarrow>
                       if status \<noteq> 200
                       then (raise (Unavailable (''writing '' @ name @ '' answered '' @ int_str status)), ch, w')
                       else (return (), dict_set name (v, doc) ch, w')))"

text \<open>\<open>with lock(name):\<close> around a body; inside a change of the same document it joins it.\<close>

definition with_lock :: "('d, 'w) request \<Rightarrow> string \<Rightarrow> ('d, 'w, 'a) action \<Rightarrow> ('d, 'w, 'a) action" where
  "with_lock request name body = (\<lambda>(ch, w).
     if map_of ch name \<noteq> None then body (ch, w)
     else case fetch request name w of
            (Inl e, w') \<Rightarrow> (raise e, ch, w')
          | (Inr (version, doc), w') \<Rightarrow>
              (case body (dict_set name (version, doc) ch, w') of
                 (r, ch', w'') \<Rightarrow> (r, filter (\<lambda>(n, _). n \<noteq> name) ch', w'')))"

definition ATTEMPTS :: nat where "ATTEMPTS = 40"

text \<open>The attempts that are left; \<open>outer\<close> are the changes of callers further up.\<close>

fun attempts :: "nat \<Rightarrow> string list \<Rightarrow> ('d, 'w, 'a) action \<Rightarrow> ('d, 'w, 'a) action" where
  "attempts 0 outer fn st = (raise Unreachable, st)"
| "attempts (Suc n) outer fn st =
     (case fn st of
        (Inl (Conflict name), st') \<Rightarrow>
          if name \<in> set outer then (raise (Conflict name), st')
          else if n = 0 then (raise (Unavailable (name @ '' kept changing under 40 tries'')), st')
          else attempts n outer fn st'
      | (r, st') \<Rightarrow> (r, st'))"

definition retrying :: "('d, 'w, 'a) action \<Rightarrow> ('d, 'w, 'a) action" where
  "retrying fn st = attempts ATTEMPTS (map fst (fst st)) fn st"

text \<open>
  The shape of every change the lease module makes: in the lock, read the document, compute
  an answer and perhaps a new document, save it.
\<close>

definition edit :: "('d, 'w) request \<Rightarrow> string \<Rightarrow> ('d \<Rightarrow> 'a \<times> 'd option) \<Rightarrow> ('d, 'w, 'a) action" where
  "edit request name f = with_lock request name (\<lambda>st.
     case coord_read request name st of
       (Inl e, st') \<Rightarrow> (raise e, st')
     | (Inr doc, st') \<Rightarrow>
         (case f doc of
            (r, None) \<Rightarrow> (return r, st')
          | (r, Some doc') \<Rightarrow>
              (case coord_write request name doc' st' of
                 (Inl e, st'') \<Rightarrow> (raise e, st'')
               | (Inr _, st'') \<Rightarrow> (return r, st''))))"

definition change :: "('d, 'w) request \<Rightarrow> string \<Rightarrow> ('d \<Rightarrow> 'a \<times> 'd option) \<Rightarrow> ('d, 'w, 'a) action" where
  "change request name f = retrying (edit request name f)"

lemma filter_dict_set: "map_of d k = None \<Longrightarrow> filter (\<lambda>(n, _). n \<noteq> k) (dict_set k v d) = d"
  by (induction d) (auto split: if_splits simp: filter_id_conv map_of_eq_None_iff)

lemma dict_set_again [simp]: "dict_set k v (dict_set k u d) = dict_set k v d"
  by (induction d) auto

lemma edit_leaves_no_change:
  assumes "edit request n f (ch, w) = (r, ch', w')" "map_of ch n = None"
  shows "ch' = ch" "r = Inl (Conflict m) \<Longrightarrow> m = n" "r \<noteq> Inl Unreachable"
proof -
  have wr: "(\<exists>u. x = Inr u \<and> c2 = dict_set n (u', d) c1) \<or> (\<exists>t. x = Inl (Unavailable t) \<and> c2 = c1) \<or> (x = Inl (Conflict n) \<and> c2 = c1)"
    if "coord_write request n d (c1, w1) = (x, c2, w2)" "map_of c1 n \<noteq> None"
      "u' = (case fst (request PUT (coord_path n) (Some (d, fst (the (map_of c1 n)))) w1) of Some (_, b) \<Rightarrow> the (b_version b) | None \<Rightarrow> 0)"
    for x c1 c2 w1 w2 d u'
    using that by (auto simp: coord_write_def split: option.splits prod.splits if_splits)
  have ft: "x \<noteq> Inl (Conflict m)" "x \<noteq> Inl Unreachable" if "fetch request n w1 = (x, w2)" for x w1 w2 m
    using that by (auto simp: fetch_def split: option.splits prod.splits if_splits)
  obtain x w1 where f: "fetch request n w = (x, w1)" by (rule prod.exhaust)
  have "ch' = ch \<and> (r = Inl (Conflict m) \<longrightarrow> m = n) \<and> r \<noteq> Inl Unreachable"
  proof (cases x)
    case (Inl er)
    with assms f ft [OF f] show ?thesis by (auto simp: edit_def with_lock_def)
  next
    case (Inr vc)
    obtain v c where vc: "vc = (v, c)" by (rule prod.exhaust)
    obtain r' o' where fc: "f c = (r', o')" by (rule prod.exhaust)
    have rd: "coord_read request n (dict_set n (v, c) ch, w1) = (Inr c, dict_set n (v, c) ch, w1)" by (simp add: coord_read_def)
    show ?thesis
    proof (cases o')
      case None
      with assms f Inr vc fc rd show ?thesis by (auto simp: edit_def with_lock_def filter_dict_set)
    next
      case (Some d)
      obtain q ch2 w2 where q: "coord_write request n d (dict_set n (v, c) ch, w1) = (q, ch2, w2)"
        by (rule prod.exhaust) (metis prod.exhaust)
      with assms f Inr vc fc rd Some
      have "ch' = filter (\<lambda>(m, _). m \<noteq> n) ch2" "r = (case q of Inl e \<Rightarrow> Inl e | Inr _ \<Rightarrow> Inr r')"
        by (auto simp: edit_def with_lock_def split: sum.splits)
      with wr [OF q _ refl] assms(2) show ?thesis by (auto simp: filter_dict_set)
    qed
  qed
  then show "ch' = ch" "r = Inl (Conflict m) \<Longrightarrow> m = n" "r \<noteq> Inl Unreachable" by blast+
qed

section \<open>What the client relies on\<close>

text \<open>
  The service keeps, per document, the list of its saved contents; the version is their
  number, a read answers the last one (or the empty document) with the version, and a write is
  accepted only against the current version and appends. Contents are never forgotten.
\<close>

definition latest :: "'d \<Rightarrow> 'd list \<Rightarrow> 'd" where
  "latest blank h = (if h = [] then blank else last h)"

text \<open>
  \<open>r\<close> and the history \<open>h'\<close> afterwards are what \<open>f\<close> made of the latest contents in \<open>h\<close>:
  either nothing was saved, or what was saved directly follows them.
\<close>

definition committed :: "'d \<Rightarrow> ('d \<Rightarrow> 'a \<times> 'd option) \<Rightarrow> 'a \<Rightarrow> 'd list \<Rightarrow> 'd list \<Rightarrow> bool" where
  "committed blank f r h h' \<longleftrightarrow>
     (case f (latest blank h) of
        (r', None) \<Rightarrow> r' = r \<and> prefix h h'
      | (r', Some d) \<Rightarrow> r' = r \<and> h' = h @ [d])"

locale cas_documents =
  fixes request :: "('d, 'w) request" and history :: "'w \<Rightarrow> string \<Rightarrow> 'd list" and blank :: 'd
  assumes grows: "request m p b w = (a, w') \<Longrightarrow> prefix (history w n) (history w' n)"
    and reads: "request GET (coord_path n) None w = (Some (200, body), w') \<Longrightarrow>
      b_doc body = Some d \<Longrightarrow> b_version body = Some v \<Longrightarrow>
      v = int (length (history w' n)) \<and> d = latest blank (history w' n)"
    and saves: "request PUT (coord_path n) (Some (d, v)) w = (Some (200, body), w') \<Longrightarrow>
      b_version body = Some v' \<Longrightarrow> \<exists>h. prefix (history w n) h \<and> int (length h) = v \<and> history w' n = h @ [d]"
begin

lemma fetch_latest:
  assumes "fetch request n w = (Inr (v, d), w')"
  shows "v = int (length (history w' n))" "d = latest blank (history w' n)" "prefix (history w n) (history w' n)"
proof -
  obtain a w1 where a: "request GET (coord_path n) None w = (a, w1)" by (rule prod.exhaust)
  with assms obtain body where b: "a = Some (200, body)" "b_doc body = Some d" "b_version body = Some v" "w1 = w'"
    by (cases a) (auto simp: fetch_def split: option.splits if_splits)
  from a b reads [of n w body w' d v] grows [of GET "coord_path n" None w a w' n]
  show "v = int (length (history w' n))" "d = latest blank (history w' n)" "prefix (history w n) (history w' n)"
    by simp_all
qed

lemma fetch_grows: "fetch request n w = (r, w') \<Longrightarrow> prefix (history w m) (history w' m)"
proof -
  assume f: "fetch request n w = (r, w')"
  obtain a w1 where a: "request GET (coord_path n) None w = (a, w1)" by (rule prod.exhaust)
  with f have "w1 = w'" by (auto simp: fetch_def split: option.splits if_splits)
  with grows [OF a] show ?thesis by simp
qed

lemma write_grows: "coord_write request n d (ch, w) = (r, ch', w') \<Longrightarrow> prefix (history w m) (history w' m)"
proof -
  assume f: "coord_write request n d (ch, w) = (r, ch', w')"
  show ?thesis
  proof (cases "map_of ch n")
    case None
    with f show ?thesis by (simp add: coord_write_def)
  next
    case (Some x)
    obtain a w1 where a: "request PUT (coord_path n) (Some (d, fst x)) w = (a, w1)" by (rule prod.exhaust)
    with f Some have "w1 = w'" by (auto simp: coord_write_def split: option.splits if_splits prod.splits)
    with grows [OF a] show ?thesis by simp
  qed
qed

lemma write_appends:
  assumes "coord_write request n d (ch, w) = (Inr u, ch', w')" "map_of ch n = Some (v, c)"
    "v = int (length h0)" "prefix h0 (history w n)"
  shows "history w' n = h0 @ [d]"
proof -
  obtain a w1 where a: "request PUT (coord_path n) (Some (d, v)) w = (a, w1)" by (rule prod.exhaust)
  with assms obtain body v' where b: "a = Some (200, body)" "b_version body = Some v'" "w1 = w'"
    by (cases a) (auto simp: coord_write_def split: option.splits if_splits)
  from saves [OF a [unfolded b(1,3)] b(2)] obtain h where
    h: "prefix (history w n) h" "int (length h) = v" "history w' n = h @ [d]" by blast
  have "prefix h0 h" using assms(4) h(1) by (rule prefix_order.trans)
  moreover have "length h0 = length h" using h(2) assms(3) by simp
  ultimately have "h0 = h" by (auto simp: prefix_def)
  with h(3) show ?thesis by simp
qed

text \<open>One successful attempt: the saved document was computed from the contents right before it.\<close>

lemma edit_atomic:
  assumes "edit request n f (ch, w) = (Inr r, ch', w')" "map_of ch n = None"
  shows "\<exists>h. prefix (history w n) h \<and> committed blank f r h (history w' n)"
proof -
  obtain x w1 where f: "fetch request n w = (x, w1)" by (rule prod.exhaust)
  with assms obtain v c where x: "x = Inr (v, c)" by (cases x) (auto simp: edit_def with_lock_def)
  note l = fetch_latest [OF f [unfolded x]]
  let ?h = "history w1 n" and ?ch = "dict_set n (v, c) ch"
  have rd: "coord_read request n (?ch, w1) = (Inr c, ?ch, w1)" by (simp add: coord_read_def)
  obtain r' o' where fc: "f c = (r', o')" by (rule prod.exhaust)
  show ?thesis
  proof (cases o')
    case None
    with assms f x rd fc have "r' = r" "w' = w1" by (auto simp: edit_def with_lock_def)
    with None fc l show ?thesis by (intro exI [of _ ?h]) (simp add: committed_def)
  next
    case (Some d)
    obtain q ch2 w2 where wr: "coord_write request n d (?ch, w1) = (q, ch2, w2)"
      by (rule prod.exhaust) (metis prod.exhaust)
    with assms f x rd fc Some have q: "r' = r" "w2 = w'" "\<exists>u. q = Inr u"
      by (auto simp: edit_def with_lock_def split: sum.splits)
    then obtain u where "q = Inr u" by blast
    with wr q write_appends [of n d ?ch w1 u ch2 w' v c ?h] l have "history w' n = ?h @ [d]" by simp
    with Some fc l q show ?thesis by (intro exI [of _ ?h]) (simp add: committed_def)
  qed
qed

lemma edit_grows: "edit request n f (ch, w) = (r, ch', w') \<Longrightarrow> map_of ch n = None \<Longrightarrow> prefix (history w m) (history w' m)"
proof -
  assume e: "edit request n f (ch, w) = (r, ch', w')" and ch: "map_of ch n = None"
  obtain x w1 where f: "fetch request n w = (x, w1)" by (rule prod.exhaust)
  show ?thesis
  proof (cases x)
    case (Inl er)
    with e f ch show ?thesis using fetch_grows [OF f] by (auto simp: edit_def with_lock_def)
  next
    case (Inr vc)
    obtain v c where vc: "vc = (v, c)" by (rule prod.exhaust)
    let ?ch = "dict_set n (v, c) ch"
    have rd: "coord_read request n (?ch, w1) = (Inr c, ?ch, w1)" by (simp add: coord_read_def)
    obtain r' o' where fc: "f c = (r', o')" by (rule prod.exhaust)
    show ?thesis
    proof (cases o')
      case None
      with e f Inr vc rd fc ch have "w' = w1" by (auto simp: edit_def with_lock_def)
      with fetch_grows [OF f] show ?thesis by simp
    next
      case (Some d)
      obtain q ch2 w2 where wr: "coord_write request n d (?ch, w1) = (q, ch2, w2)"
        by (rule prod.exhaust) (metis prod.exhaust)
      with e f Inr vc rd fc ch Some have "w2 = w'"
        by (auto simp: edit_def with_lock_def split: sum.splits)
      with fetch_grows [OF f] write_grows [OF wr] show ?thesis by (blast intro: prefix_order.trans)
    qed
  qed
qed

text \<open>Attempts repeat until one succeeds; the loop never reports its own conflict.\<close>

lemma attempts_atomic:
  assumes "attempts k outer (edit request n f) (ch, w) = (Inr r, ch', w')" "map_of ch n = None"
  shows "\<exists>h. prefix (history w n) h \<and> committed blank f r h (history w' n)"
  using assms
proof (induction k arbitrary: ch w)
  case (Suc k)
  obtain x ch1 w1 where e: "edit request n f (ch, w) = (x, ch1, w1)"
    by (rule prod.exhaust) (metis prod.exhaust)
  show ?case
  proof (cases "\<exists>m. x = Inl (Conflict m)")
    case True
    with e Suc.prems have again: "attempts k outer (edit request n f) (ch1, w1) = (Inr r, ch', w')"
      by (auto split: if_splits)
    have "map_of ch1 n = None" using edit_leaves_no_change(1) [OF e Suc.prems(2)] Suc.prems(2) by simp
    from Suc.IH [OF again this] obtain h where h: "prefix (history w1 n) h"
      "committed blank f r h (history w' n)" by blast
    from prefix_order.trans [OF edit_grows [OF e Suc.prems(2)] h(1)] h(2) show ?thesis by blast
  next
    case False
    have "attempts (Suc k) outer (edit request n f) (ch, w) = (x, ch1, w1)"
    proof (cases x)
      case (Inl er)
      with e False show ?thesis by (cases er) simp_all
    qed (simp add: e)
    with Suc.prems(1) have "x = Inr r" "ch1 = ch'" "w1 = w'" by simp_all
    with edit_atomic [of n f ch w r ch' w'] e Suc.prems(2) show ?thesis by blast
  qed
qed simp

lemma attempts_grows:
  assumes "attempts k outer (edit request n f) (ch, w) = (r, ch', w')" "map_of ch n = None"
  shows "ch' = ch \<and> prefix (history w m) (history w' m)"
  using assms
proof (induction k arbitrary: ch w)
  case (Suc k)
  obtain x ch1 w1 where e: "edit request n f (ch, w) = (x, ch1, w1)"
    by (rule prod.exhaust) (metis prod.exhaust)
  have same: "ch1 = ch" and grows: "prefix (history w m) (history w1 m)"
    using edit_leaves_no_change(1) [OF e Suc.prems(2)] edit_grows [OF e Suc.prems(2)] by simp_all
  have "ch' = ch1 \<and> w' = w1 \<or> attempts k outer (edit request n f) (ch1, w1) = (r, ch', w')"
    using Suc.prems(1) e by (cases x) (auto split: store_error.splits if_splits)
  with Suc.IH [of ch1 w1] same grows Suc.prems(2) show ?case by (auto intro: prefix_order.trans)
qed simp

lemma change_grows:
  "change request n f (ch, w) = (r, ch', w') \<Longrightarrow> map_of ch n = None \<Longrightarrow> ch' = ch \<and> prefix (history w m) (history w' m)"
  using attempts_grows by (simp add: change_def retrying_def)

lemma change_commits:
  "change request n f (ch, w) = (Inr r, ch', w') \<Longrightarrow> map_of ch n = None
   \<Longrightarrow> \<exists>h. prefix (history w n) h \<and> committed blank f r h (history w' n)"
  using attempts_atomic by (simp add: change_def retrying_def)

end

lemma attempts_errors:
  assumes "attempts (Suc k) outer (edit request n f) (ch, w) = (r, ch', w')" "map_of ch n = None" "n \<notin> set outer"
  shows "ch' = ch \<and> r \<noteq> Inl (Conflict m) \<and> r \<noteq> Inl Unreachable"
  using assms
proof (induction k arbitrary: ch w)
  case 0
  obtain x ch1 w1 where e: "edit request n f (ch, w) = (x, ch1, w1)" by (rule prod.exhaust) (metis prod.exhaust)
  from 0 e edit_leaves_no_change [OF e 0(2)] show ?case
    by (cases x) (auto split: store_error.splits if_splits)
next
  case (Suc k)
  obtain x ch1 w1 where e: "edit request n f (ch, w) = (x, ch1, w1)" by (rule prod.exhaust) (metis prod.exhaust)
  note leaves = edit_leaves_no_change [OF e Suc.prems(2)]
  show ?case
  proof (cases "x = Inl (Conflict n)")
    case True
    with Suc.prems e have "attempts (Suc k) outer (edit request n f) (ch1, w1) = (r, ch', w')" by simp
    with Suc.IH leaves(1) Suc.prems show ?thesis by blast
  next
    case False
    with Suc.prems(1) e leaves show ?thesis by (cases x) (auto split: store_error.splits)
  qed
qed

text \<open>
  C4: Changes of a shared document are atomic and no update is lost. Against any service that
  keeps the compare-and-set contract, whatever other processes write between the requests:
  when a change returns, its answer and the document it saved were computed from the contents
  that the saved document directly follows in the document's history; a change that saved
  nothing answered from contents the document really had. The retry loop ends, never leaves a
  change open and never reports its own lost race as such.
\<close>

theorem change_is_atomic:
  assumes "cas_documents request history blank" "map_of ch n = None"
  shows "case change request n f (ch, w) of
      (Inr r, ch', w') \<Rightarrow> ch' = ch \<and> (\<exists>h. prefix (history w n) h \<and> committed blank f r h (history w' n))
    | (Inl e, ch', w') \<Rightarrow> ch' = ch \<and> (\<forall>m. e \<noteq> Conflict m) \<and> e \<noteq> Unreachable"
proof -
  obtain x ch' w' where c: "change request n f (ch, w) = (x, ch', w')" by (rule prod.exhaust) (metis prod.exhaust)
  have out: "n \<notin> set (map fst ch)" using assms(2) by (simp add: map_of_eq_None_iff)
  have a: "attempts (Suc 39) (map fst ch) (edit request n f) (ch, w) = (x, ch', w')"
    using c by (simp add: change_def retrying_def ATTEMPTS_def del: attempts.simps)
  show ?thesis
    using c attempts_errors [OF a assms(2) out] cas_documents.change_commits [OF assms(1), of n f ch w _ ch' w'] assms(2)
    by (cases x) (auto simp del: attempts.simps)
qed

text \<open>A service with the contract, in which other processes save documents before each request.\<close>

type_synonym 'd service = "(string \<times> 'd list) list \<times> (string \<times> 'd) list list"

definition service_docs :: "(string \<times> 'd list) list \<Rightarrow> string \<Rightarrow> 'd list" where
  "service_docs docs p = (case map_of docs p of Some h \<Rightarrow> h | None \<Rightarrow> [])"

definition service_save :: "string \<Rightarrow> 'd \<Rightarrow> (string \<times> 'd list) list \<Rightarrow> (string \<times> 'd list) list" where
  "service_save p d docs = dict_set p (service_docs docs p @ [d]) docs"

definition service_others :: "(string \<times> 'd) list \<Rightarrow> (string \<times> 'd list) list \<Rightarrow> (string \<times> 'd list) list" where
  "service_others ws docs = fold (\<lambda>(p, d). service_save p d) ws docs"

definition service_request :: "'d \<Rightarrow> ('d, 'd service) request" where
  "service_request blank m p b = (\<lambda>(docs0, others).
     let docs = (case others of [] \<Rightarrow> docs0 | ws # _ \<Rightarrow> service_others ws docs0);
         h = service_docs docs p; more = tl others
     in case (m, b) of
          (PUT, Some (d, v)) \<Rightarrow>
            if v = int (length h)
            then (Some (200, \<lparr>b_doc = None, b_version = Some (v + 1), b_error = None, b_items = None\<rparr>), service_save p d docs, more)
            else (Some (409, \<lparr>b_doc = None, b_version = None, b_error = Some ''version_conflict'', b_items = None\<rparr>), docs, more)
        | _ \<Rightarrow> (Some (200, \<lparr>b_doc = Some (latest blank h), b_version = Some (int (length h)), b_error = None, b_items = None\<rparr>), docs, more))"

definition service_history :: "'d service \<Rightarrow> string \<Rightarrow> 'd list" where
  "service_history w n = service_docs (fst w) (coord_path n)"

lemma service_save_docs: "service_docs (service_save p d docs) q = service_docs docs q @ (if q = p then [d] else [])"
  by (simp add: service_docs_def service_save_def)

lemma service_others_prefix: "prefix (service_docs docs q) (service_docs (service_others ws docs) q)"
  unfolding service_others_def
proof (induction ws arbitrary: docs)
  case (Cons a ws)
  have "prefix (service_docs docs q) (service_docs (service_save (fst a) (snd a) docs) q)" by (simp add: service_save_docs)
  with Cons.IH [of "service_save (fst a) (snd a) docs"] show ?case
    by (cases a) (auto intro: prefix_order.trans)
qed simp

interpretation service: cas_documents "service_request blank" service_history blank for blank :: 'd
proof
  fix m p b w a w' n
  assume r: "service_request blank m p b w = (a, w')"
  obtain docs others where w: "w = (docs, others)" by (cases w)
  define now where "now = (case others of [] \<Rightarrow> docs | ws # _ \<Rightarrow> service_others ws docs)"
  have "prefix (service_docs docs q) (service_docs now q)" for q
    unfolding now_def by (cases others) (simp_all add: service_others_prefix)
  moreover have "fst w' = now \<or> (\<exists>d. fst w' = service_save p d now)"
    using r by (auto simp: w service_request_def Let_def now_def split: meth.splits option.splits prod.splits if_splits)
  ultimately show "prefix (service_history w n) (service_history w' n)"
    by (auto simp: w service_history_def service_save_docs)
next
  fix n w body w' d v
  assume "service_request blank GET (coord_path n) None w = (Some (200, body), w')" "b_doc body = Some d" "b_version body = Some v"
  then show "v = int (length (service_history w' n)) \<and> d = latest blank (service_history w' n)"
    by (cases w) (auto simp: service_request_def service_history_def Let_def)
next
  fix n d v w body w' v'
  assume r: "service_request blank PUT (coord_path n) (Some (d, v)) w = (Some (200, body), w')" "b_version body = Some v'"
  obtain docs others where w: "w = (docs, others)" by (cases w)
  define now where "now = (case others of [] \<Rightarrow> docs | ws # _ \<Rightarrow> service_others ws docs)"
  have "prefix (service_history w n) (service_docs now (coord_path n))"
    unfolding now_def by (cases others) (simp_all add: w service_history_def service_others_prefix)
  moreover have "fst w' = service_save (coord_path n) d now \<and> v = int (length (service_docs now (coord_path n)))"
    using r by (auto simp: w service_request_def Let_def now_def split: if_splits)
  ultimately show "\<exists>h. prefix (service_history w n) h \<and> int (length h) = v \<and> service_history w' n = h @ [d]"
    by (intro exI [of _ "service_docs now (coord_path n)"]) (auto simp: service_history_def service_save_docs)
qed

text \<open>The witness: another process saves between the read and the write, the change is redone and wins.\<close>

theorem change_is_atomic_witness:
  "case change (service_request (0::int)) ''p'' (\<lambda>d. (d, Some (d + 1))) ([], ([], [[], [(coord_path ''p'', 5)]])) of
      (Inr r, ch', w') \<Rightarrow> ch' = [] \<and> (\<exists>h. prefix (service_history ([], [[], [(coord_path ''p'', 5)]]) ''p'') h \<and>
         latest 0 h = r \<and> service_history w' ''p'' = h @ [latest 0 h + 1])
    | (Inl e, ch', w') \<Rightarrow> ch' = [] \<and> (\<forall>m. e \<noteq> Conflict m) \<and> e \<noteq> Unreachable"
  using change_is_atomic [OF service.cas_documents_axioms [where blank = "0::int"],
    where ch = "[]" and n = "''p''" and f = "\<lambda>d. (d, Some (d + 1))" and w = "([], [[], [(coord_path ''p'', 5)]])"]
  by (auto simp: committed_def split: sum.splits prod.splits)

end
