(* ===== verification/Leases.thy ===== *)
theory Leases
  imports AgentIdentity Fnmatch CoordStore
begin

text \<open>
  The lease table (\<open>backend/cli/lib/leases.py\<close>): advisory file leases, repository holds and
  operation marks of the agents that share a checkout, and the sets of sessions that wrote a
  dirty path. One document per project is kept in the coordination store; every operation is a
  function from the document it read to its answer and, perhaps, the document it saves, and
  runs as a \<open>change\<close> of that store.

  Entries that \<open>Lease(**item)\<close> refuses, and rows that are not objects or lists, are \<open>None\<close>.
  One call reads the clock once, and its fresh lease id is an argument. The file store selected
  by \<open>ST_LEASES_DIR\<close> is not modelled.
\<close>

record lease =
  l_id :: string
  l_agent :: string
  l_slug :: string
  l_session :: string
  l_provider :: string
  l_globs :: "string list"
  l_task :: "string option"
  l_acquired :: stamp
  l_heartbeat :: stamp
  l_taken_over_by :: "string option"
  l_kind :: string
  l_purpose :: "string option"
  l_pid :: "int option"
  l_pid_start :: "string option"
  l_sensitive :: bool
  l_anchor :: "string option"

record writer =
  w_agent :: "string option"
  w_session :: string
  w_anchor :: "string option"
  w_at :: stamp
  w_sensitive :: bool
  w_reason :: "string option"
  w_by :: "string option"

type_synonym writer_sets = "(string \<times> writer list) list"

record doc =
  doc_leases :: "lease option list"
  doc_writers :: "(string \<times> writer option list option) list"
  doc_touches :: "(string \<times> writer option) list option"

record call =
  c_host :: host
  c_now :: int
  c_id :: string

definition DEFAULT_IDLE_TTL :: int where "DEFAULT_IDLE_TTL = 30 * 60 * 1000000"

section \<open>Leases\<close>

definition is_stale :: "proc_table \<Rightarrow> int \<Rightarrow> lease \<Rightarrow> bool" where
  "is_stale procs now l =
     (if l_kind l = ''op'' then \<not> process_alive procs (l_pid l) (l_pid_start l)
      else case l_heartbeat l of None \<Rightarrow> True | Some hb \<Rightarrow> now - hb > DEFAULT_IDLE_TTL)"

definition matches :: "lease \<Rightarrow> string \<Rightarrow> bool" where
  "matches l path = list_ex (\<lambda>g. fnmatch path g \<or> fnmatch path (rstrip_chars ''/'' g @ ''/**'')) (l_globs l)"

definition is_mine :: "lease \<Rightarrow> string list \<Rightarrow> string option \<Rightarrow> bool" where
  "is_mine l mine anchor = (l_agent l \<in> set mine \<or> (nonempty anchor \<noteq> None \<and> l_anchor l = anchor))"

definition own_lease :: "call \<Rightarrow> lease \<Rightarrow> bool" where
  "own_lease c l = is_mine l (self_ids (c_host c)) (my_anchor (c_host c))"

definition own_session_lease :: "call \<Rightarrow> lease \<Rightarrow> bool" where
  "own_session_lease c l = is_mine l (fst (session_ids (c_host c))) (snd (session_ids (c_host c)))"

definition valid_project_id :: "string \<Rightarrow> bool" where
  "valid_project_id p =
     (case p of
        [] \<Rightarrow> False
      | c # cs \<Rightarrow> (is_alnum c \<or> c = CHR ''_'') \<and> length cs \<le> 127 \<and> list_all (\<lambda>d. is_alnum d \<or> d \<in> set ''._-'') cs)"

definition project_path :: "string \<Rightarrow> string option \<Rightarrow> string" where
  "project_path path project_root =
     normpath (case nonempty project_root of
                 Some root \<Rightarrow> if startswith path ''/'' then path else path_join root path
               | None \<Rightarrow> path)"

section \<open>Writer sets\<close>

definition TOUCH_TTL :: int where "TOUCH_TTL = 24 * 3600 * 1000000"

definition UNKNOWN_WRITER :: string where "UNKNOWN_WRITER = ''unknown''"

definition writer_entry :: "call \<Rightarrow> string option \<Rightarrow> bool option \<Rightarrow> writer" where
  "writer_entry c unknown sens =
     (case identify_agent True (c_host c) of
        (agent_id, _, sid, _) \<Rightarrow>
          \<lparr>w_agent = Some (if nonempty unknown \<noteq> None then UNKNOWN_WRITER else root_key (c_host c)),
           w_session = sid, w_anchor = snd (session_ids (c_host c)), w_at = Some (c_now c),
           w_sensitive = (case sens of Some b \<Rightarrow> b | None \<Rightarrow> h_sensitive (c_host c)),
           w_reason = nonempty unknown,
           w_by = (if nonempty unknown \<noteq> None then Some agent_id else None)\<rparr>)"

definition entries_at :: "writer_sets \<Rightarrow> string \<Rightarrow> writer list" where
  "entries_at ws path = (case map_of ws path of Some es \<Rightarrow> es | None \<Rightarrow> [])"

definition add_writer :: "string \<Rightarrow> writer \<Rightarrow> writer_sets \<Rightarrow> writer_sets" where
  "add_writer path e ws = dict_set path (filter (\<lambda>x. w_agent x \<noteq> w_agent e) (entries_at ws path) @ [e]) ws"

definition has_agent :: "writer \<Rightarrow> bool" where
  "has_agent e \<longleftrightarrow> nonempty (w_agent e) \<noteq> None"

definition fold_touch :: "int \<Rightarrow> string \<times> writer option \<Rightarrow> writer_sets \<Rightarrow> writer_sets" where
  "fold_touch now pt ws =
     (case pt of
        (path, Some t) \<Rightarrow> if fresh (w_at t) TOUCH_TTL now \<and> has_agent t then add_writer path t ws else ws
      | (path, None) \<Rightarrow> ws)"

definition load_writers :: "int \<Rightarrow> doc \<Rightarrow> writer_sets" where
  "load_writers now d =
     (let base = List.map_filter (\<lambda>(path, es). map_option (\<lambda>l. (path, filter has_agent (List.map_filter (\<lambda>x. x) l))) es) (doc_writers d);
          legacy = (case doc_touches d of Some ts \<Rightarrow> ts | None \<Rightarrow> [])
      in filter (\<lambda>(_, es). es \<noteq> []) (fold (fold_touch now) legacy base))"

definition is_own_writer :: "writer \<Rightarrow> string list \<Rightarrow> string option \<Rightarrow> bool" where
  "is_own_writer e mine anchor =
     (if w_agent e = Some UNKNOWN_WRITER then False
      else (case w_agent e of Some a \<Rightarrow> a \<in> set mine | None \<Rightarrow> False)
           \<or> (nonempty anchor \<noteq> None \<and> w_anchor e = anchor))"

definition writer_label :: "writer \<Rightarrow> string" where
  "writer_label e =
     (if w_agent e = Some UNKNOWN_WRITER
      then UNKNOWN_WRITER @ ''('' @ (case nonempty (w_reason e) of Some r \<Rightarrow> r | None \<Rightarrow> ''?'') @ '')''
      else case w_agent e of Some a \<Rightarrow> a | None \<Rightarrow> ''None'')"

definition at_or_after :: "stamp \<Rightarrow> int \<Rightarrow> bool" where
  "at_or_after s since = (case s of Some t \<Rightarrow> t \<ge> since | None \<Rightarrow> False)"

definition prune_under :: "string \<Rightarrow> string list \<Rightarrow> writer_sets \<Rightarrow> writer_sets" where
  "prune_under root dirty ws =
     filter (\<lambda>(p, _). \<not> (startswith p (rstrip_chars ''/'' root @ ''/'') \<and> p \<notin> set dirty)) ws"

section \<open>Loading and saving\<close>

definition load_leases :: "doc \<Rightarrow> lease list" where
  "load_leases d = List.map_filter (\<lambda>x. x) (doc_leases d)"

definition purge_stale :: "call \<Rightarrow> lease list \<Rightarrow> lease list" where
  "purge_stale c ls = filter (\<lambda>l. \<not> is_stale (h_procs (c_host c)) (c_now c) l) ls"

definition live_leases :: "call \<Rightarrow> doc \<Rightarrow> lease list" where
  "live_leases c d = purge_stale c (load_leases d)"

definition saved :: "call \<Rightarrow> doc \<Rightarrow> lease list \<Rightarrow> writer_sets option \<Rightarrow> doc" where
  "saved c d ls writers =
     \<lparr>doc_leases = map Some ls,
      doc_writers = map (\<lambda>(p, es). (p, Some (map Some es))) (case writers of Some ws \<Rightarrow> ws | None \<Rightarrow> load_writers (c_now c) d),
      doc_touches = None\<rparr>"

section \<open>Operations\<close>

definition new_lease :: "call \<Rightarrow> string list \<Rightarrow> string option \<Rightarrow> lease" where
  "new_lease c globs task =
     (case identify_agent True (c_host c) of
        (agent_id, slug, sid, provider) \<Rightarrow>
          \<lparr>l_id = c_id c, l_agent = agent_id, l_slug = slug, l_session = sid, l_provider = provider,
           l_globs = globs, l_task = task, l_acquired = Some (c_now c), l_heartbeat = Some (c_now c),
           l_taken_over_by = None, l_kind = ''file'', l_purpose = None, l_pid = None, l_pid_start = None,
           l_sensitive = False, l_anchor = my_anchor (c_host c)\<rparr>)"

fun update_first :: "('a \<Rightarrow> bool) \<Rightarrow> ('a \<Rightarrow> 'a) \<Rightarrow> 'a list \<Rightarrow> ('a \<times> 'a list) option" where
  "update_first P f [] = None"
| "update_first P f (x # xs) =
     (if P x then Some (f x, f x # xs) else map_option (\<lambda>(y, ys). (y, x # ys)) (update_first P f xs))"

definition acquire ::
  "call \<Rightarrow> string list \<Rightarrow> string option \<Rightarrow> string option \<Rightarrow> doc \<Rightarrow> lease \<times> doc option" where
  "acquire c globs0 task project_root d =
     (let globs = map (\<lambda>g. project_path g project_root) globs0;
          ls = live_leases c d;
          same = (\<lambda>l. l_kind l = ''file'' \<and> l_agent l = agent_key (c_host c) \<and> set (l_globs l) = set globs);
          touch = (\<lambda>l. l\<lparr>l_heartbeat := Some (c_now c),
                         l_task := (if nonempty task \<noteq> None \<and> nonempty (l_task l) = None then task else l_task l)\<rparr>)
      in case update_first same touch ls of
           Some (l, ls') \<Rightarrow> (l, Some (saved c d ls' None))
         | None \<Rightarrow> (let l = new_lease c globs task in (l, Some (saved c d (ls @ [l]) None))))"

definition list_active :: "call \<Rightarrow> string list \<Rightarrow> doc \<Rightarrow> lease list \<times> doc option" where
  "list_active c kinds d =
     (let ls = live_leases c d
      in (filter (\<lambda>l. l_kind l \<in> set kinds) ls,
          if length ls \<noteq> length (load_leases d) then Some (saved c d ls None) else None))"

definition heartbeat :: "call \<Rightarrow> doc \<Rightarrow> nat \<times> doc option" where
  "heartbeat c d =
     (let ls = live_leases c d
      in (length (filter (own_lease c) ls),
          Some (saved c d (map (\<lambda>l. if own_lease c l then l\<lparr>l_heartbeat := Some (c_now c)\<rparr> else l) ls) None)))"

definition drop_glob :: "call \<Rightarrow> string \<Rightarrow> lease \<Rightarrow> lease option" where
  "drop_glob c target l =
     (if own_lease c l \<and> target \<in> set (l_globs l)
      then let gs = filter (\<lambda>g. g \<noteq> target) (l_globs l) in if gs = [] then None else Some (l\<lparr>l_globs := gs\<rparr>)
      else Some l)"

definition release :: "call \<Rightarrow> string option \<Rightarrow> string option \<Rightarrow> doc \<Rightarrow> nat \<times> doc option" where
  "release c glob project_root d =
     (let ls = live_leases c d in
      case glob of
        None \<Rightarrow>
          (let kept = filter (\<lambda>l. \<not> (l_kind l \<noteq> ''op'' \<and> own_lease c l)) ls
           in (length ls - length kept, Some (saved c d kept None)))
      | Some g \<Rightarrow>
          if list_ex (\<lambda>l. l_id l = g \<and> l_kind l \<noteq> ''op'' \<and> own_lease c l) ls
          then (1, Some (saved c d (filter (\<lambda>l. l_id l \<noteq> g) ls) None))
          else (let target = project_path g project_root
                in (length (filter (\<lambda>l. own_lease c l \<and> target \<in> set (l_globs l)) ls),
                    Some (saved c d (List.map_filter (drop_glob c target) ls) None))))"

definition release_task :: "call \<Rightarrow> string \<Rightarrow> doc \<Rightarrow> nat \<times> doc option" where
  "release_task c task d =
     (if task = [] then (0, None)
      else let ls = live_leases c d; kept = filter (\<lambda>l. l_task l \<noteq> Some task) ls
           in (length ls - length kept, Some (saved c d kept None)))"

text \<open>\<open>take\<close> is three changes: drop the others' leases, acquire, adopt the dirty change.\<close>

definition take_drop :: "call \<Rightarrow> string \<Rightarrow> doc \<Rightarrow> unit \<times> doc option" where
  "take_drop c path d =
     ((), Some (saved c d (filter (\<lambda>l. \<not> (l_kind l \<noteq> ''op'' \<and> matches l path \<and> \<not> own_lease c l)) (live_leases c d)) None))"

definition take_adopt :: "call \<Rightarrow> string \<Rightarrow> lease \<Rightarrow> doc \<Rightarrow> unit \<times> doc option" where
  "take_adopt c path new d =
     ((), Some (saved c d
       (map (\<lambda>l. if l_id l = l_id new then l\<lparr>l_taken_over_by := Some (agent_key (c_host c))\<rparr> else l) (load_leases d))
       (Some (dict_set path [writer_entry c None None] (load_writers (c_now c) d)))))"

definition saved_by :: "doc \<Rightarrow> 'a \<times> doc option \<Rightarrow> doc" where
  "saved_by d r = (case snd r of Some d' \<Rightarrow> d' | None \<Rightarrow> d)"

definition take_lease :: "call \<Rightarrow> string \<Rightarrow> string option \<Rightarrow> doc \<Rightarrow> lease \<times> doc" where
  "take_lease c path0 project_root d =
     (let path = project_path path0 project_root;
          d1 = saved_by d (take_drop c path d);
          acquired = acquire c [path] None None d1;
          d2 = saved_by d1 acquired
      in ((fst acquired)\<lparr>l_taken_over_by := Some (agent_key (c_host c))\<rparr>,
          saved_by d2 (take_adopt c path (fst acquired) d2)))"

definition claim :: "call \<Rightarrow> string \<Rightarrow> string option \<Rightarrow> doc \<Rightarrow> (bool \<times> lease) \<times> doc option" where
  "claim c path0 project_root d =
     (let path = project_path path0 project_root;
          ls = live_leases c d;
          conflict = List.find (\<lambda>l. l_kind l = ''file'' \<and> matches l path \<and> \<not> own_session_lease c l) ls;
          beat = map (\<lambda>l. if l_kind l \<noteq> ''op'' \<and> own_lease c l then l\<lparr>l_heartbeat := Some (c_now c)\<rparr> else l) ls;
          held = filter (\<lambda>l. l_kind l = ''file'' \<and> own_lease c l \<and> matches l path) beat;
          own = (if held = [] then (new_lease c [path] None)\<lparr>l_sensitive := h_sensitive (c_host c)\<rparr> else last held);
          ls' = (if held = [] then beat @ [own] else beat);
          ws = add_writer path (writer_entry c None (Some (l_sensitive own))) (load_writers (c_now c) d)
      in ((conflict = None, case conflict of Some l \<Rightarrow> l | None \<Rightarrow> own), Some (saved c d ls' (Some ws))))"

definition concurrent_write :: "call \<Rightarrow> int \<Rightarrow> string \<Rightarrow> lease list \<Rightarrow> writer_sets \<Rightarrow> bool" where
  "concurrent_write c since path ls ws =
     (list_ex (\<lambda>e. \<not> is_own_writer e (fst (session_ids (c_host c))) (snd (session_ids (c_host c))) \<and> at_or_after (w_at e) since)
        (entries_at ws path)
      \<or> list_ex (\<lambda>l. l_kind l = ''file'' \<and> matches l path \<and> \<not> own_lease c l \<and> at_or_after (l_acquired l) since) ls)"

definition record_path :: "call \<Rightarrow> int option \<Rightarrow> string option \<Rightarrow> lease list \<Rightarrow> string \<Rightarrow> writer_sets \<Rightarrow> writer_sets" where
  "record_path c since unknown ls path ws =
     (let entry = writer_entry c unknown None;
          concurrent = (if nonempty unknown \<noteq> None then entry else writer_entry c (Some ''concurrent'') None)
      in add_writer path
           (if (case since of Some s \<Rightarrow> concurrent_write c s path ls ws | None \<Rightarrow> False) then concurrent else entry) ws)"

definition record_writes ::
  "call \<Rightarrow> string list \<Rightarrow> int option \<Rightarrow> string option \<Rightarrow> string list option \<Rightarrow> string option \<Rightarrow> doc
   \<Rightarrow> string list \<times> doc option" where
  "record_writes c paths since unknown dirty root d =
     (let ls = live_leases c d;
          ws0 = load_writers (c_now c) d;
          ws1 = (case (dirty, nonempty root) of (Some dirty', Some r) \<Rightarrow> prune_under r dirty' ws0 | _ \<Rightarrow> ws0)
      in (paths, Some (saved c d ls (Some (fold (record_path c since unknown ls) paths ws1)))))"

definition prune_writers :: "call \<Rightarrow> string \<Rightarrow> string list \<Rightarrow> doc \<Rightarrow> unit \<times> doc option" where
  "prune_writers c root dirty d =
     (let ws = load_writers (c_now c) d; ws' = prune_under root dirty ws
      in ((), if length ws' \<noteq> length ws \<or> doc_touches d \<noteq> None then Some (saved c d (load_leases d) (Some ws')) else None))"

definition writers :: "call \<Rightarrow> doc \<Rightarrow> writer_sets \<times> doc option" where
  "writers c d = (load_writers (c_now c) d, None)"

fun latest_writer :: "writer \<Rightarrow> writer list \<Rightarrow> writer" where
  "latest_writer best [] = best"
| "latest_writer best (e # es) = latest_writer (if stamp_less (w_at best) (w_at e) then e else best) es"

definition touches :: "call \<Rightarrow> doc \<Rightarrow> (string \<times> writer) list" where
  "touches c d =
     List.map_filter (\<lambda>(path, es). case filter (\<lambda>e. w_agent e \<noteq> Some UNKNOWN_WRITER) es of
                                     [] \<Rightarrow> None
                                   | e # es' \<Rightarrow> Some (path, latest_writer e es'))
       (fst (writers c d))"

definition release_paths :: "call \<Rightarrow> string list \<Rightarrow> string option \<Rightarrow> doc \<Rightarrow> nat \<times> doc option" where
  "release_paths c paths project_root d =
     (let targets = map (\<lambda>p. project_path p project_root) paths;
          ls = live_leases c d;
          kept = filter (\<lambda>l. \<not> (l_kind l = ''file'' \<and> own_lease c l \<and> set (l_globs l) \<subseteq> set targets)) ls
      in (length ls - length kept, Some (saved c d kept None)))"

definition mark_lease :: "call \<Rightarrow> string \<Rightarrow> string \<Rightarrow> string \<Rightarrow> lease" where
  "mark_lease c root kind purpose =
     (let pid = (if kind = ''op'' then Some (h_pid (c_host c)) else None)
      in (new_lease c [rstrip_chars ''/'' (project_path root None) @ ''/**''] None)
           \<lparr>l_kind := kind, l_purpose := Some (take 40 purpose), l_pid := pid,
            l_pid_start := (case pid of Some p \<Rightarrow> if p \<noteq> 0 then process_start (h_procs (c_host c)) p else None | None \<Rightarrow> None),
            l_sensitive := h_sensitive (c_host c)\<rparr>)"

definition acquire_mark :: "call \<Rightarrow> string \<Rightarrow> string \<Rightarrow> string \<Rightarrow> doc \<Rightarrow> lease \<times> doc option" where
  "acquire_mark c root kind purpose d =
     (let l = mark_lease c root kind purpose;
          ls = filter (\<lambda>i. \<not> (kind = ''hold'' \<and> l_kind i = ''hold'' \<and> own_lease c i)) (live_leases c d)
      in (l, Some (saved c d (ls @ [l]) None)))"

definition release_mark :: "call \<Rightarrow> string \<Rightarrow> doc \<Rightarrow> unit \<times> doc option" where
  "release_mark c lease_id d = ((), Some (saved c d (filter (\<lambda>l. l_id l \<noteq> lease_id) (load_leases d)) None))"

definition repo_marks :: "call \<Rightarrow> doc \<Rightarrow> lease list \<times> doc option" where
  "repo_marks c d = list_active c [''hold'', ''op''] d"

definition idle_string :: "lease \<Rightarrow> int \<Rightarrow> string" where
  "idle_string l now =
     (case l_heartbeat l of
        None \<Rightarrow> ''?''
      | Some hb \<Rightarrow>
          (let d = now - hb; secs = (if d < 0 then - ((- d) div 1000000) else d div 1000000)
           in if secs < 60 then int_str secs @ ''s''
              else if secs < 3600 then int_str (secs div 60) @ ''m''
              else int_str (secs div 3600) @ ''h''))"

definition all_projects :: "('d, 'w) request \<Rightarrow> 'w \<Rightarrow> (store_error, string list) result \<times> 'w" where
  "all_projects request w =
     (case names request w of
        (Inl e, w') \<Rightarrow> (raise e, w')
      | (Inr ns, w') \<Rightarrow> (return (filter (\<lambda>n. \<not> startswith n ''_'') ns), w'))"

text \<open>An operation on the project's document in the store: an invalid project id is refused before any request.\<close>

definition BLANK_DOC :: doc where
  "BLANK_DOC = \<lparr>doc_leases = [], doc_writers = [], doc_touches = None\<rparr>"

definition on_project :: "(doc, 'w) request \<Rightarrow> string \<Rightarrow> (doc \<Rightarrow> 'a \<times> doc option) \<Rightarrow> (doc, 'w, 'a option) action" where
  "on_project request project_id f st =
     (if valid_project_id project_id
      then (case change request project_id f st of (Inl e, st') \<Rightarrow> (raise e, st') | (Inr a, st') \<Rightarrow> (return (Some a), st'))
      else (return None, st))"

end
