(* ===== verification/Handshake.thy ===== *)
theory Handshake
  imports Leases
begin

text \<open>
  The handshake ledger and the guard of repository operations (\<open>backend/cli/lib/coord.py\<close>):
  requests between agents that are acknowledged and confirmed, the notices made of them, and
  the check that refuses a commit, rebuild, publication or reconciliation while another agent
  holds the repository and has not agreed.

  The ledger is the list of messages of the \<open>_coord\<close> document; an operation maps the rows it
  read to its answer and the rows it saves, or raises. What hooks and watchers have already
  shown to an agent (\<open>coord_wake.load_seen\<close>) is part of the call.
\<close>

datatype mstate = Open | Acked | Closed | Fyi

datatype intent = Yes | No | Eta

record message =
  m_id :: string
  m_from :: string
  m_from_session :: string
  m_to :: string
  m_project :: "string option"
  m_source_key :: "string option"
  m_text :: string
  m_created :: stamp
  m_state :: mstate
  m_intent :: "intent option"
  m_eta_min :: "int option"
  m_note :: "string option"
  m_acked_at :: stamp
  m_acked_by :: "string option"
  m_closed_at :: stamp
  m_surfaced_at :: stamp
  m_ack_seen :: bool
  m_withdrawn :: bool
  m_auto_closed :: bool
  m_remote :: "(string \<times> string) list"

datatype seen_key = SeenReq string | SeenFyi string | SeenAck string stamp

record hcall = call +
  c_seen :: "(string \<times> seen_key list) list"

datatype ledger_error =
    EmptyText
  | TextTooLong
  | BadIntent
  | ReasonNeeded
  | UnknownRequest string
  | NotAddressed
  | AlreadyClosed
  | FyiNote
  | NotSender
  | NotOpen mstate
  | NoAck mstate
  | ReceiptMismatch

definition ACTIVE_WINDOW :: int where "ACTIVE_WINDOW = 10 * 60 * 1000000"
definition UNACKED_AFTER :: int where "UNACKED_AFTER = 10 * 60 * 1000000"
definition ACK_VALID_FOR :: int where "ACK_VALID_FOR = 2 * 3600 * 1000000"
definition LEDGER_TTL :: int where "LEDGER_TTL = 24 * 3600 * 1000000"
definition MAX_TEXT :: nat where "MAX_TEXT = 500"

section \<open>Reading the ledger\<close>

definition lapsed :: "int \<Rightarrow> message \<Rightarrow> bool" where
  "lapsed now m =
     (m_state m = Acked \<and> m_intent m = Some Eta \<and>
      (case (m_eta_min m, m_acked_at m) of
         (Some e, Some t) \<Rightarrow> now \<ge> t + e * 60 * 1000000
       | _ \<Rightarrow> False))"

definition reopen_lapsed_eta :: "int \<Rightarrow> message \<Rightarrow> message" where
  "reopen_lapsed_eta now m = (if lapsed now m then m\<lparr>m_state := Open\<rparr> else m)"

definition current_row :: "int \<Rightarrow> message \<Rightarrow> bool" where
  "current_row now m = (case m_created m of Some t \<Rightarrow> now - t \<le> LEDGER_TTL | None \<Rightarrow> False)"

definition load_ledger :: "int \<Rightarrow> message list \<Rightarrow> message list" where
  "load_ledger now rows = map (reopen_lapsed_eta now) (filter (current_row now) rows)"

definition clean_text :: "string \<Rightarrow> nat option \<Rightarrow> (ledger_error, string) result" where
  "clean_text text limit =
     (let flat = join_with '' '' (split_ws text) in
      if flat = [] then raise EmptyText
      else case limit of
             Some n \<Rightarrow> if length flat > n then raise TextTooLong else return flat
           | None \<Rightarrow> return flat)"

definition session_of :: "host \<Rightarrow> string \<Rightarrow> string" where
  "session_of h a =
     (case map_of (h_identities h) a of
        Some (Some r) \<Rightarrow> (case id_session r of Some s \<Rightarrow> s | None \<Rightarrow> [])
      | _ \<Rightarrow> [])"

definition addresses :: "host \<Rightarrow> string \<Rightarrow> string \<Rightarrow> string \<Rightarrow> bool" where
  "addresses h to agent_id session_id =
     (if to = [] then False
      else if to = agent_id \<or> (length to \<ge> 13 \<and> startswith session_id to) then True
      else let family = self_ids h in
           if to \<in> set family then True
           else if length to < 13 \<or> family = [] then False
           else list_ex (\<lambda>i. startswith (session_of h i) to) family)"

definition known_target :: "host \<Rightarrow> string \<Rightarrow> bool" where
  "known_target h to =
     (to \<in> set (map fst (h_identities h)) \<or>
      (length to \<ge> 13 \<and>
       list_ex (\<lambda>(_, row). case row of
                  Some r \<Rightarrow> startswith (case id_session r of Some s \<Rightarrow> s | None \<Rightarrow> []) to
                | None \<Rightarrow> False) (h_identities h)))"

definition live_agents :: "host \<Rightarrow> string list" where
  "live_agents h =
     sort (map fst (filter (\<lambda>(_, row). case row of Some r \<Rightarrow> anchor_alive (h_procs h) (id_anchor r) | None \<Rightarrow> False)
                           (h_identities h)))"

definition my_ids :: "hcall \<Rightarrow> string list" where
  "my_ids c = self_ids (c_host c)"

definition seen_by :: "hcall \<Rightarrow> seen_key \<Rightarrow> string list \<Rightarrow> bool" where
  "seen_by c key ids =
     list_ex (\<lambda>i. key \<in> set (case map_of (c_seen c) i of Some ks \<Rightarrow> ks | None \<Rightarrow> [])) ids"

definition surfaced :: "hcall \<Rightarrow> message \<Rightarrow> bool" where
  "surfaced c m = seen_by c (SeenReq (m_id m)) [m_to m]"

definition fyi_shown :: "hcall \<Rightarrow> message \<Rightarrow> bool" where
  "fyi_shown c m = seen_by c (SeenFyi (m_id m)) (m_to m # my_ids c)"

definition closed_ack_shown :: "hcall \<Rightarrow> message \<Rightarrow> bool" where
  "closed_ack_shown c m = seen_by c (SeenAck (m_id m) (m_acked_at m)) (m_from m # my_ids c)"

section \<open>Operations\<close>

definition repeats :: "hcall \<Rightarrow> string \<Rightarrow> string \<Rightarrow> string \<Rightarrow> string option \<Rightarrow> bool \<Rightarrow> message \<Rightarrow> bool" where
  "repeats c agent_id to body source_key fyi m =
     (m_from m = agent_id \<and> m_to m = to \<and>
      ((nonempty source_key \<noteq> None \<and> m_source_key m = source_key) \<or>
       (m_text m = body \<and>
        ((\<not> fyi \<and> m_state m = Open) \<or> (fyi \<and> m_state m = Fyi \<and> \<not> fyi_shown c m)))))"

definition new_message ::
  "hcall \<Rightarrow> string \<Rightarrow> string \<Rightarrow> string \<Rightarrow> string \<Rightarrow> string option \<Rightarrow> string option \<Rightarrow> (string \<times> string) list \<Rightarrow> bool \<Rightarrow> message" where
  "new_message c agent_id session_id to body project source_key remote fyi =
     \<lparr>m_id = c_id c, m_from = agent_id, m_from_session = session_id, m_to = to, m_project = project,
      m_source_key = source_key, m_text = body, m_created = Some (c_now c),
      m_state = (if fyi then Fyi else Open), m_intent = None, m_eta_min = None, m_note = None,
      m_acked_at = None, m_acked_by = None, m_closed_at = None, m_surfaced_at = None, m_ack_seen = False,
      m_withdrawn = False, m_auto_closed = False, m_remote = remote\<rparr>"

definition acting :: "hcall \<Rightarrow> string option \<Rightarrow> string \<times> string" where
  "acting c sender =
     (case nonempty sender of
        Some a \<Rightarrow> (a, [])
      | None \<Rightarrow> (case identify_agent True (c_host c) of (agent_id, _, session_id, _) \<Rightarrow> (agent_id, session_id)))"

text \<open>The answer carries whether the row was a duplicate.\<close>

definition send ::
  "hcall \<Rightarrow> string \<Rightarrow> string \<Rightarrow> string option \<Rightarrow> nat \<Rightarrow> string option \<Rightarrow> string option \<Rightarrow> (string \<times> string) list \<Rightarrow> bool
   \<Rightarrow> message list \<Rightarrow> (ledger_error, message \<times> bool) result \<times> message list option" where
  "send c to text project limit source_key sender remote fyi rows0 =
     (case clean_text text (Some limit) of
        Inl e \<Rightarrow> (raise e, None)
      | Inr body \<Rightarrow>
          (case acting c sender of
             (agent_id, session_id) \<Rightarrow>
               (let rows = load_ledger (c_now c) rows0 in
                case List.find (repeats c agent_id to body source_key fyi) rows of
                  Some m \<Rightarrow> (return (m, True), None)
                | None \<Rightarrow>
                    (let m = new_message c agent_id session_id to body project source_key remote fyi
                     in (return (m, False), Some (rows @ [m]))))))"

definition drop_message :: "hcall \<Rightarrow> string \<Rightarrow> message list \<Rightarrow> unit \<times> message list option" where
  "drop_message c message_id rows0 = ((), Some (filter (\<lambda>m. m_id m \<noteq> message_id) (load_ledger (c_now c) rows0)))"

definition find_message :: "string \<Rightarrow> message list \<Rightarrow> (ledger_error, message) result" where
  "find_message message_id rows =
     (case List.find (\<lambda>m. m_id m = message_id) rows of
        Some m \<Rightarrow> return m
      | None \<Rightarrow> raise (UnknownRequest message_id))"

text \<open>\<open>row.update(...)\<close> on the row that \<open>_find\<close> returned, the first with the id.\<close>

fun update_row :: "string \<Rightarrow> (message \<Rightarrow> message) \<Rightarrow> message list \<Rightarrow> message list" where
  "update_row i f [] = []"
| "update_row i f (m # ms) = (if m_id m = i then f m # ms else m # update_row i f ms)"

text \<open>\<open>eta:(\d{1,4})\<close>\<close>

definition eta_minutes :: "string \<Rightarrow> int option" where
  "eta_minutes intent =
     (let ds = drop 4 intent in
      if startswith intent ''eta:'' \<and> isdigit ds \<and> length ds \<le> 4 then Some (number_of ds) else None)"

definition clean_note :: "string option \<Rightarrow> (ledger_error, string option) result" where
  "clean_note note =
     (case nonempty note of
        None \<Rightarrow> return None
      | Some n \<Rightarrow> (case clean_text n None of Inl e \<Rightarrow> raise e | Inr t \<Rightarrow> return (Some t)))"

definition intent_of :: "string \<Rightarrow> intent" where
  "intent_of s = (if eta_minutes s \<noteq> None then Eta else if s = ''yes'' then Yes else No)"

definition acked_row :: "hcall \<Rightarrow> string \<Rightarrow> string \<Rightarrow> string option \<Rightarrow> message \<Rightarrow> message" where
  "acked_row c agent_id intent note m =
     m\<lparr>m_state := Acked, m_intent := Some (intent_of intent),
       m_eta_min := eta_minutes intent, m_note := note, m_acked_at := Some (c_now c),
       m_acked_by := Some agent_id, m_ack_seen := False\<rparr>"

definition ack ::
  "hcall \<Rightarrow> string \<Rightarrow> string \<Rightarrow> string option \<Rightarrow> (string \<times> string) option \<Rightarrow> message list
   \<Rightarrow> (ledger_error, message) result \<times> message list option" where
  "ack c message_id intent note remote rows0 =
     (if intent \<notin> set [''yes'', ''no''] \<and> eta_minutes intent = None then (raise BadIntent, None)
      else if intent = ''no'' \<and> nonempty note = None then (raise ReasonNeeded, None)
      else let rows = load_ledger (c_now c) rows0;
               who = (case remote of Some (a, _) \<Rightarrow> (a, []) | None \<Rightarrow> acting c None)
           in case find_message message_id rows of
                Inl e \<Rightarrow> (raise e, None)
              | Inr m \<Rightarrow>
                  if \<not> (case remote of Some (_, addr) \<Rightarrow> m_to m = addr
                                   | None \<Rightarrow> addresses (c_host c) (m_to m) (fst who) (snd who))
                  then (raise NotAddressed, None)
                  else if m_state m = Closed then (raise AlreadyClosed, None)
                  else if m_state m = Fyi then (raise FyiNote, None)
                  else case clean_note note of
                         Inl e \<Rightarrow> (raise e, None)
                       | Inr n \<Rightarrow>
                           (return (acked_row c (fst who) intent n m),
                            Some (update_row message_id (acked_row c (fst who) intent n) rows)))"

definition bare_row :: "hcall \<Rightarrow> message \<Rightarrow> message" where
  "bare_row c m = m\<lparr>m_state := Closed, m_auto_closed := True, m_closed_at := Some (c_now c), m_ack_seen := True\<rparr>"

definition close_bare_ack ::
  "hcall \<Rightarrow> string \<Rightarrow> bool \<Rightarrow> message list \<Rightarrow> (ledger_error, message) result \<times> message list option" where
  "close_bare_ack c message_id lane rows0 =
     (let rows = load_ledger (c_now c) rows0 in
      case find_message message_id rows of
        Inl e \<Rightarrow> (raise e, None)
      | Inr m \<Rightarrow>
          if m_state m \<noteq> Acked \<or> m_intent m \<noteq> Some Yes \<or> (nonempty (m_note m) \<noteq> None \<and> \<not> lane)
          then (return m, None)
          else (return (bare_row c m), Some (update_row message_id (bare_row c) rows)))"

definition confirmed_row :: "hcall \<Rightarrow> bool \<Rightarrow> message \<Rightarrow> message" where
  "confirmed_row c withdraw m =
     m\<lparr>m_withdrawn := m_withdrawn m \<or> withdraw, m_state := Closed, m_closed_at := Some (c_now c), m_ack_seen := True\<rparr>"

definition confirm ::
  "hcall \<Rightarrow> string \<Rightarrow> bool \<Rightarrow> string list option \<Rightarrow> message list \<Rightarrow> (ledger_error, message) result \<times> message list option" where
  "confirm c message_id withdraw senders rows0 =
     (let rows = load_ledger (c_now c) rows0;
          from = (case senders of Some (s # ss) \<Rightarrow> s # ss | _ \<Rightarrow> my_ids c)
      in case find_message message_id rows of
           Inl e \<Rightarrow> (raise e, None)
         | Inr m \<Rightarrow>
             if m_from m \<notin> set from then (raise NotSender, None)
             else if m_state m = Closed \<and> m_auto_closed m \<and> \<not> withdraw then (return m, None)
             else if m_state m = Fyi then (raise FyiNote, None)
             else if withdraw \<and> m_state m \<noteq> Open then (raise (NotOpen (m_state m)), None)
             else if \<not> withdraw \<and> m_state m \<noteq> Acked then (raise (NoAck (m_state m)), None)
             else (return (confirmed_row c withdraw m), Some (update_row message_id (confirmed_row c withdraw) rows)))"

text \<open>The loop of \<open>ack_authorizes\<close>: rows that are not this request, or carry no yes, are passed over.\<close>

fun authorizing :: "hcall \<Rightarrow> string \<Rightarrow> lease \<Rightarrow> string \<Rightarrow> message list \<Rightarrow> bool" where
  "authorizing c message_id holder project_id [] = False"
| "authorizing c message_id holder project_id (m # ms) =
     (if m_id m \<noteq> message_id \<or> m_from m \<notin> set (my_ids c) \<or> m_intent m \<noteq> Some Yes
      then authorizing c message_id holder project_id ms
      else if \<not> same_agent (c_host c) (m_acked_by m) (Some (l_agent holder)) (l_anchor holder)
              \<or> m_project m \<notin> {None, Some project_id}
      then False
      else case m_acked_at m of Some t \<Rightarrow> c_now c - t \<le> ACK_VALID_FOR | None \<Rightarrow> False)"

definition ack_authorizes :: "hcall \<Rightarrow> string \<Rightarrow> lease \<Rightarrow> string \<Rightarrow> message list \<Rightarrow> bool" where
  "ack_authorizes c message_id holder project_id rows0 =
     authorizing c message_id holder project_id (load_ledger (c_now c) rows0)"

datatype delivery = Unknown | State mstate | Seen | Queued

definition delivery_status ::
  "hcall \<Rightarrow> string \<Rightarrow> string \<Rightarrow> string \<Rightarrow> string \<Rightarrow> message list
   \<Rightarrow> (ledger_error, delivery \<times> bool \<times> intent option \<times> bool) result" where
  "delivery_status c message_id to project source_key rows0 =
     (case List.find (\<lambda>m. m_id m = message_id) (load_ledger (c_now c) rows0) of
        None \<Rightarrow> return (Unknown, False, None, False)
      | Some m \<Rightarrow>
          if m_from m \<notin> set (my_ids c) \<or> m_to m \<noteq> to \<or> m_project m \<noteq> Some project \<or> m_source_key m \<noteq> Some source_key
          then raise ReceiptMismatch
          else let observed = (m_acked_at m \<noteq> None \<or> surfaced c m)
               in return (if m_state m \<noteq> Open then State (m_state m) else if observed then Seen else Queued,
                          observed, m_intent m, m_withdrawn m))"

definition in_inbox :: "hcall \<Rightarrow> message \<Rightarrow> bool" where
  "in_inbox c m =
     (let to_me = (case acting c None of (a, s) \<Rightarrow> addresses (c_host c) (m_to m) a s); from_me = m_from m \<in> set (my_ids c)
      in (m_state m = Open \<and> to_me)
         \<or> (m_state m = Fyi \<and> to_me \<and> \<not> fyi_shown c m)
         \<or> (m_state m = Acked \<and> from_me)
         \<or> (m_state m = Open \<and> from_me)
         \<or> (m_state m = Closed \<and> m_auto_closed m \<and> nonempty (m_note m) \<noteq> None \<and> from_me \<and> \<not> closed_ack_shown c m))"

definition inbox :: "hcall \<Rightarrow> message list \<Rightarrow> message list" where
  "inbox c rows0 = filter (in_inbox c) (load_ledger (c_now c) rows0)"

definition closed_acks :: "hcall \<Rightarrow> message list \<Rightarrow> message list" where
  "closed_acks c rows0 =
     filter (\<lambda>m. m_state m = Closed \<and> m_auto_closed m \<and> m_from m \<in> set (my_ids c)) (load_ledger (c_now c) rows0)"

text \<open>The ledger's part of \<open>notices\<close>: what is surfaced for each row, and the row afterwards.\<close>

datatype notice = InboxNotice nat "string list" | AckNotice string | UnackedNotice string

definition notice_row :: "hcall \<Rightarrow> message \<Rightarrow> notice option \<times> message" where
  "notice_row c m =
     (if m_from m \<notin> set (my_ids c) then (None, m)
      else if m_state m = Acked \<and> \<not> m_ack_seen m then (Some (AckNotice (m_id m)), m\<lparr>m_ack_seen := True\<rparr>)
      else if m_state m = Open \<and> m_surfaced_at m = None \<and> m_intent m = None
              \<and> (case m_created m of Some t \<Rightarrow> c_now c - t \<ge> UNACKED_AFTER | None \<Rightarrow> False)
      then (Some (UnackedNotice (m_id m)), m\<lparr>m_surfaced_at := Some (c_now c)\<rparr>)
      else (None, m))"

definition ledger_notices :: "hcall \<Rightarrow> message list \<Rightarrow> notice list \<times> message list option" where
  "ledger_notices c rows0 =
     (let rows = load_ledger (c_now c) rows0;
          to_me = filter (\<lambda>m. m_state m = Open \<and> (case acting c None of (a, s) \<Rightarrow> addresses (c_host c) (m_to m) a s)) rows;
          head = (if to_me = [] then [] else [InboxNotice (length to_me) (map m_id (take 3 to_me))]);
          shown = map (notice_row c) rows
      in (head @ List.map_filter fst shown,
          if list_ex (\<lambda>(n, _). n \<noteq> None) shown then Some (map snd shown) else None))"

section \<open>The guard of repository operations\<close>

definition guard_kinds :: "string \<Rightarrow> string list" where
  "guard_kinds operation =
     (if operation \<in> set [''commit'', ''rebuild'', ''publish''] then [''op'', ''hold'']
      else if operation = ''acceptance'' then [''hold'']
      else [''op'', ''hold'', ''file''])"

text \<open>Whether a live lease is passed over: the caller's own operation, its own session, or a file nobody is working on.\<close>

definition passed_over :: "hcall \<Rightarrow> lease \<Rightarrow> bool" where
  "passed_over c l =
     (if l_kind l = ''op'' then l_pid l = Some (h_pid (c_host c))
      else is_mine l (fst (session_ids (c_host c))) (snd (session_ids (c_host c))) \<or>
           (l_kind l = ''file'' \<and> (case l_heartbeat l of Some t \<Rightarrow> c_now c - t > ACTIVE_WINDOW | None \<Rightarrow> True)))"

text \<open>The loop of \<open>_guard\<close>: the first lease that is neither passed over nor agreed to.\<close>

fun first_block :: "hcall \<Rightarrow> string option \<Rightarrow> string \<Rightarrow> message list \<Rightarrow> lease list \<Rightarrow> lease option" where
  "first_block c with_ack project_id rows [] = None"
| "first_block c with_ack project_id rows (l # ls) =
     (if passed_over c l then first_block c with_ack project_id rows ls
      else if l_kind l \<noteq> ''op'' \<and> (case nonempty with_ack of
                 Some i \<Rightarrow> ack_authorizes c i l project_id rows
               | None \<Rightarrow> False)
      then first_block c with_ack project_id rows ls
      else Some l)"

datatype guard_outcome = Proceed | Blocked lease | RefusedUnknown | InvalidProject | Raised store_error

definition unanswered :: "string \<Rightarrow> store_error \<Rightarrow> guard_outcome" where
  "unanswered operation e =
     (case e of
        Unavailable _ \<Rightarrow> if operation = ''rebuild'' then Proceed else RefusedUnknown
      | Conflict _ \<Rightarrow> if operation = ''rebuild'' then Proceed else RefusedUnknown
      | _ \<Rightarrow> Raised e)"

text \<open>
  \<open>guard\<close> with \<open>_guard\<close> and \<open>_keep_alive\<close>. \<open>resolved\<close> is \<open>project_for_path\<close> of the repository,
  \<open>command_ack\<close> the value of \<open>_COMMAND_ACK\<close>; \<open>coord\<close> is what reading the document \<open>_coord\<close> gives,
  which holds the registry and the ledger and is read first. The heartbeat's own failure is
  suppressed; an id that is not a project id raises.
\<close>

definition guard ::
  "(doc, 'w) request \<Rightarrow> hcall \<Rightarrow> (string \<times> string) option \<Rightarrow> string \<Rightarrow> string option \<Rightarrow> string option
   \<Rightarrow> (store_error, message list) result \<Rightarrow> doc changes \<times> 'w \<Rightarrow> guard_outcome \<times> doc changes \<times> 'w" where
  "guard request c resolved operation with_ack command_ack coord st =
     (case resolved of
        None \<Rightarrow> (Proceed, st)
      | Some (project_id, _) \<Rightarrow>
          (case coord of
             Inl e \<Rightarrow> (unanswered operation e, st)
           | Inr rows \<Rightarrow>
               (case on_project request project_id (heartbeat (call.truncate c)) st of
                  (Inr None, st1) \<Rightarrow> (InvalidProject, st1)
                | (_, st1) \<Rightarrow>
                    (case on_project request project_id (list_active (call.truncate c) (guard_kinds operation)) st1 of
                       (Inl e, st2) \<Rightarrow> (unanswered operation e, st2)
                     | (Inr None, st2) \<Rightarrow> (InvalidProject, st2)
                     | (Inr (Some active), st2) \<Rightarrow>
                         (case first_block c (or_else (nonempty with_ack) command_ack) project_id rows active of
                            None \<Rightarrow> (Proceed, st2)
                          | Some l \<Rightarrow> (Blocked l, st2))))))"

section \<open>Edits\<close>

datatype edit_outcome = EditBlocked lease | EditWarned lease

definition op_block :: "call \<Rightarrow> (string \<Rightarrow> bool) \<Rightarrow> string \<Rightarrow> doc \<Rightarrow> lease option \<times> doc" where
  "op_block c ignored real d =
     (let marks = filter (\<lambda>l. l_kind l = ''op'') (fst (repo_marks c d)); d' = saved_by d (repo_marks c d)
      in (case marks of [] \<Rightarrow> None | m # _ \<Rightarrow> if ignored real then None else Some m, d'))"

definition claim_edit :: "call \<Rightarrow> (string \<Rightarrow> bool) \<Rightarrow> bool \<Rightarrow> string \<Rightarrow> string \<Rightarrow> doc \<Rightarrow> edit_outcome option \<times> doc" where
  "claim_edit c ignored check_op root real d =
     (let ob = (if check_op then op_block c ignored real d else (None, d)) in
      case fst ob of
        Some m \<Rightarrow> (Some (EditBlocked m), snd ob)
      | None \<Rightarrow>
          (let cl = claim c real (Some root) (snd ob);
               d1 = saved_by (snd ob) cl;
               d2 = saved_by d1 (heartbeat c d1)
           in (if fst (fst cl) then None else Some (EditWarned (snd (fst cl))), d2)))"

section \<open>Foreign writers\<close>

text \<open>\<open>foreign_writers\<close>: the writer entries of the dirty paths that are not the caller's session; \<open>realpath\<close> is the
  file system's, \<open>pure_path\<close> the string of a \<open>pathlib\<close> path.\<close>

definition writers_of :: "(string \<Rightarrow> string) \<Rightarrow> string \<Rightarrow> writer_sets \<Rightarrow> string \<Rightarrow> writer list" where
  "writers_of realpath root ws rel =
     (let direct = entries_at ws (realpath (path_join root rel))
      in if direct \<noteq> [] then direct else entries_at ws (pure_path (path_join root rel)))"

definition foreign_writers ::
  "call \<Rightarrow> (string \<Rightarrow> string) \<Rightarrow> string \<Rightarrow> string list \<Rightarrow> doc \<Rightarrow> (string \<times> writer list) list" where
  "foreign_writers c realpath root rels d =
     (let ws = load_writers (c_now c) d;
          foreign = (\<lambda>rel. filter (\<lambda>e. \<not> is_own_writer e (fst (session_ids (c_host c))) (snd (session_ids (c_host c))))
                            (writers_of realpath root ws rel))
      in if ws = [] then [] else fold (\<lambda>rel out. if foreign rel = [] then out else dict_set rel (foreign rel) out) rels [])"

end
