(* ===== verification/Lineage.thy ===== *)
theory Lineage
  imports Handshake
begin

text \<open>
  Identity across context resets (\<open>backend/cli/lib/coord_lineage.py\<close> and \<open>session_start\<close> of
  \<open>coord.py\<close>): the registry of identities on a harness process, the line that tells a successor
  what its predecessor left open, and the notes for peers with an open exchange.

  The document \<open>_coord\<close> is the record \<open>coord_doc\<close>; lines and notes are kept as the data
  they show. \<open>active\<close> lists the live leases of every project, as \<open>list_active\<close> read them.
\<close>

datatype part =
    Holds "string list"
  | LeasedFiles "(string \<times> nat) list"
  | AwaitingAck string string
  | AckToConfirm "intent option" "string option" string
  | AwaitsYourAck string string

datatype reset_line = Continuing string "part list" nat

record reg_row = identity +
  r_provider :: string
  r_first :: stamp
  r_saved :: stamp
  r_notice :: "reset_line option"

record peer_note =
  n_to :: string
  n_about :: string
  n_created :: stamp
  n_successor :: string

record coord_doc =
  cd_identities :: "(string \<times> reg_row option) list"
  cd_messages :: "message list"
  cd_notes :: "peer_note list"

definition NOTE_TTL :: int where "NOTE_TTL = 24 * 3600 * 1000000"

text \<open>What a call sees of the registry.\<close>

definition seen_host :: "host \<Rightarrow> coord_doc \<Rightarrow> host" where
  "seen_host h d = h\<lparr>h_identities := map (\<lambda>(a, r). (a, map_option identity.truncate r)) (cd_identities d)\<rparr>"

section \<open>What a reset leaves open\<close>

definition to_any :: "string \<Rightarrow> string list \<Rightarrow> (string \<times> reg_row option) list \<Rightarrow> bool" where
  "to_any to ids identities =
     (if to = [] then False
      else to \<in> set ids \<or>
           (length to \<ge> 13 \<and>
            list_ex (\<lambda>i. startswith (case map_of identities i of
                                       Some (Some r) \<Rightarrow> (case id_session r of Some s \<Rightarrow> s | None \<Rightarrow> [])
                                     | _ \<Rightarrow> []) to) ids))"

definition held_projects :: "string list \<Rightarrow> (string \<times> lease list) list \<Rightarrow> string list" where
  "held_projects predecessors active =
     map fst (filter (\<lambda>(_, ls). list_ex (\<lambda>l. l_kind l = ''hold'' \<and> l_agent l \<in> set predecessors) ls) active)"

definition file_counts :: "string list \<Rightarrow> (string \<times> lease list) list \<Rightarrow> (string \<times> nat) list" where
  "file_counts predecessors active =
     filter (\<lambda>(_, n). n > 0)
       (map (\<lambda>(p, ls). (p, length (filter (\<lambda>l. l_kind l = ''file'' \<and> l_agent l \<in> set predecessors) ls))) active)"

definition message_part :: "string list \<Rightarrow> (string \<times> reg_row option) list \<Rightarrow> message \<Rightarrow> part option" where
  "message_part predecessors identities m =
     (if m_state m \<in> set [Closed, Fyi] then None
      else if m_from m \<in> set predecessors
      then Some (if m_state m = Open then AwaitingAck (m_to m) (m_id m) else AckToConfirm (m_intent m) (m_acked_by m) (m_id m))
      else if m_state m = Open \<and> to_any (m_to m) predecessors identities then Some (AwaitsYourAck (m_id m) (m_from m))
      else None)"

definition continuing_line :: "string \<Rightarrow> string list \<Rightarrow> (string \<times> lease list) list \<Rightarrow> coord_doc \<Rightarrow> reset_line option" where
  "continuing_line newest predecessors active d =
     (let holds = sort (remdups (held_projects predecessors active));
          files = sort_key fst (file_counts predecessors active);
          parts = (if holds = [] then [] else [Holds holds]) @ (if files = [] then [] else [LeasedFiles files])
                  @ List.map_filter (message_part predecessors (cd_identities d)) (cd_messages d)
      in if parts = [] then None else Some (Continuing newest (take 4 parts) (length parts - 4)))"

text \<open>The peer of an open exchange with one of the predecessors.\<close>

definition message_peer :: "string list \<Rightarrow> (string \<times> reg_row option) list \<Rightarrow> message \<Rightarrow> string option" where
  "message_peer predecessors identities m =
     (if m_state m \<in> set [Closed, Fyi] then None
      else if m_from m \<in> set predecessors \<and> m_to m \<noteq> []
      then Some (case nonempty (m_acked_by m) of Some a \<Rightarrow> a | None \<Rightarrow> m_to m)
      else if to_any (m_to m) predecessors identities \<and> m_from m \<noteq> [] then Some (m_from m)
      else None)"

definition add_note :: "string \<Rightarrow> string \<Rightarrow> int \<Rightarrow> string \<Rightarrow> peer_note list \<Rightarrow> peer_note list" where
  "add_note successor newest now peer notes =
     (if list_ex (\<lambda>n. n_to n = peer \<and> n_about n = newest) notes then notes
      else notes @ [\<lparr>n_to = peer, n_about = newest, n_created = Some now, n_successor = successor\<rparr>])"

definition note_peers :: "string \<Rightarrow> string list \<Rightarrow> string \<Rightarrow> int \<Rightarrow> coord_doc \<Rightarrow> coord_doc" where
  "note_peers successor predecessors newest now d =
     (let peers = filter (\<lambda>p. p \<notin> set (successor # predecessors))
            (List.map_filter (message_peer predecessors (cd_identities d)) (cd_messages d));
          notes = filter (\<lambda>n. fresh (n_created n) NOTE_TTL now) (cd_notes d)
      in d\<lparr>cd_notes := fold (add_note successor newest now) (sort (remdups peers)) notes\<rparr>)"

definition pop_notes :: "int \<Rightarrow> (string \<Rightarrow> bool) \<Rightarrow> coord_doc \<Rightarrow> peer_note list \<times> coord_doc option" where
  "pop_notes now is_me d =
     (let mine = filter (\<lambda>n. is_me (n_to n)) (cd_notes d)
      in if mine = [] then ([], None)
         else (mine, Some (d\<lparr>cd_notes := filter (\<lambda>n. n \<notin> set mine \<and> fresh (n_created n) NOTE_TTL now) (cd_notes d)\<rparr>)))"

section \<open>The registry\<close>

text \<open>An id inherited from another harness never joins this process's family.\<close>

definition joins_family :: "host \<Rightarrow> bool" where
  "joins_family h =
     (case map_of PREFIX (case snd (harness h) of Some p \<Rightarrow> p | None \<Rightarrow> []) of
        Some expected \<Rightarrow> startswith (agent_key h) expected
      | None \<Rightarrow> list_ex (startswith (agent_key h)) (map snd PREFIX))"

definition predecessors_of :: "string \<Rightarrow> string \<Rightarrow> (string \<times> reg_row) list \<Rightarrow> string list" where
  "predecessors_of agent_id anchor ids =
     map fst (sort_key (\<lambda>(_, r). case id_last r of Some t \<Rightarrow> t | None \<Rightarrow> 0)
       (filter (\<lambda>(a, r). id_anchor r = Some anchor \<and> a \<noteq> agent_id) ids))"

definition new_row :: "call \<Rightarrow> string \<Rightarrow> string option \<Rightarrow> reg_row" where
  "new_row c anchor provider =
     (case identify_agent True (c_host c) of (_, _, session_id, ident_provider) \<Rightarrow>
        \<lparr>id_anchor = Some anchor, id_main = False, id_session = Some session_id, id_last = Some (c_now c),
         r_provider = (case nonempty provider of Some p \<Rightarrow> p | None \<Rightarrow> ident_provider),
         r_first = Some (c_now c), r_saved = Some (c_now c), r_notice = None\<rparr>)"

definition with_ids :: "(string \<times> reg_row) list \<Rightarrow> coord_doc \<Rightarrow> coord_doc" where
  "with_ids ids d = d\<lparr>cd_identities := map (\<lambda>(a, r). (a, Some r)) ids\<rparr>"

definition is_codex :: "call \<Rightarrow> string option \<Rightarrow> bool" where
  "is_codex c provider =
     (provider = Some ''codex'' \<or> (case identify_agent True (c_host c) of (_, _, _, p) \<Rightarrow> p = ''codex_cli''))"

text \<open>A first sight of the identity on this anchor.\<close>

definition register ::
  "call \<Rightarrow> (string \<times> lease list) list \<Rightarrow> bool \<Rightarrow> bool \<Rightarrow> bool \<Rightarrow> string \<Rightarrow> string option \<Rightarrow> (string \<times> reg_row) list \<Rightarrow> coord_doc
   \<Rightarrow> reset_line list \<times> coord_doc option" where
  "register c active reset subagent emit_now anchor provider ids d =
     (let agent_id = agent_key (c_host c);
          predecessors = predecessors_of agent_id anchor ids;
          row = new_row c anchor provider;
          d1 = with_ids (dict_set agent_id row ids) d;
          is_reset = (predecessors \<noteq> [] \<and> \<not> subagent \<and> (reset \<or> \<not> is_codex c provider));
          line = (if is_reset then continuing_line (last predecessors) predecessors active d1 else None);
          d2 = (if is_reset then note_peers agent_id predecessors (last predecessors) (c_now c) d1 else d1);
          d3 = (if line \<noteq> None \<and> \<not> emit_now
                then d2\<lparr>cd_identities := dict_set agent_id (Some (row\<lparr>r_notice := line\<rparr>)) (cd_identities d2)\<rparr> else d2)
      in (case line of Some l \<Rightarrow> if emit_now then [l] else [] | None \<Rightarrow> [], Some d3))"

text \<open>An identity seen before: note that it lives, hand over its waiting line, save at most once a minute.\<close>

definition refresh :: "call \<Rightarrow> bool \<Rightarrow> reg_row \<Rightarrow> (string \<times> reg_row) list \<Rightarrow> coord_doc \<Rightarrow> reset_line list \<times> coord_doc option" where
  "refresh c emit_now mine ids d =
     (let pending = (if emit_now then r_notice mine else None);
          row = mine\<lparr>id_last := Some (c_now c), r_notice := (if emit_now then None else r_notice mine)\<rparr>
      in (case pending of Some l \<Rightarrow> [l] | None \<Rightarrow> [],
          if pending \<noteq> None \<or> \<not> fresh (r_saved mine) (60 * 1000000) (c_now c)
          then Some (with_ids (dict_set (agent_key (c_host c)) (row\<lparr>r_saved := Some (c_now c)\<rparr>) ids) d) else None))"

definition observe ::
  "call \<Rightarrow> (string \<times> lease list) list \<Rightarrow> bool \<Rightarrow> bool \<Rightarrow> bool \<Rightarrow> coord_doc \<Rightarrow> reset_line list \<times> coord_doc option" where
  "observe c active reset subagent emit_now d =
     (case harness (c_host c) of
        (None, _) \<Rightarrow> ([], None)
      | (Some anchor, provider) \<Rightarrow>
          if \<not> joins_family (c_host c) then ([], None)
          else let ids = prune_identities (h_procs (c_host c)) (c_now c) (cd_identities d) in
               case map_of ids (agent_key (c_host c)) of
                 Some mine \<Rightarrow> if id_anchor mine \<noteq> Some anchor then ([], None) else refresh c emit_now mine ids d
               | None \<Rightarrow> register c active reset subagent emit_now anchor provider ids d)"

definition mark_main_thread :: "call \<Rightarrow> coord_doc \<Rightarrow> unit \<times> coord_doc option" where
  "mark_main_thread c d =
     (let agent_id = agent_key (c_host c) in
      case map_of (cd_identities d) agent_id of
        Some (Some r) \<Rightarrow>
          ((), if id_main r then None
               else Some (d\<lparr>cd_identities := dict_set agent_id (Some (r\<lparr>id_main := True\<rparr>)) (cd_identities d)\<rparr>))
      | _ \<Rightarrow> ((), None))"

definition kept :: "'d \<Rightarrow> 'a \<times> 'd option \<Rightarrow> 'd" where
  "kept d r = (case snd r of Some d' \<Rightarrow> d' | None \<Rightarrow> d)"

text \<open>\<open>session_start\<close>: a resumed or compacted session and a worker are no reset; workers are no main thread.\<close>

definition session_start :: "call \<Rightarrow> (string \<times> lease list) list \<Rightarrow> string \<Rightarrow> bool \<Rightarrow> coord_doc \<Rightarrow> reset_line list \<times> coord_doc" where
  "session_start c active source worker d =
     (let subagent = (worker \<or> source \<in> set [''resume'', ''compact'']);
          seen = observe c active True subagent True d;
          d1 = kept d seen
      in (fst seen, if worker then d1 else kept d1 (mark_main_thread c d1)))"

section \<open>Facts\<close>

lemma map_of_prune:
  assumes "distinct (map fst ids)"
  shows "map_of (prune_identities procs now ids) a = Some r \<longleftrightarrow>
    map_of ids a = Some (Some r) \<and> anchor_alive procs (id_anchor r) \<and> fresh (id_last r) REGISTRY_TTL now"
  using assms
proof (induction ids)
  case (Cons x ids)
  obtain b row where x: "x = (b, row)" by (cases x)
  have "map_of ids b = None" using Cons.prems x by (simp add: map_of_eq_None_iff)
  with Cons show ?case
    by (auto simp: x prune_identities_def List.map_filter_def split: option.splits if_splits)
qed (simp add: prune_identities_def List.map_filter_def)

lemma with_ids_sel [simp]: "map_of (cd_identities (with_ids ids d)) a = map_option Some (map_of ids a)"
  by (induction ids) (auto simp: with_ids_def)

lemma note_peers_identities [simp]: "cd_identities (note_peers s ps l now d) = cd_identities d"
  by (simp add: note_peers_def Let_def)

lemma kept_simps [simp]: "kept d (a, None) = d" "kept d (a, Some d') = d'"
  by (simp_all add: kept_def)

text \<open>What \<open>observe\<close> does to the row of an identity that is alive on its own process.\<close>

lemma register_row:
  assumes "map_of ids (agent_key (c_host c)) = None"
  shows "a \<noteq> agent_key (c_host c) \<Longrightarrow>
      map_of (cd_identities (kept d (register c active reset sub emit_now anchor provider ids d))) a = map_option Some (map_of ids a)"
    "\<exists>r. map_of (cd_identities (kept d (register c active reset sub emit_now anchor provider ids d))) (agent_key (c_host c)) = Some (Some r)
      \<and> id_anchor r = Some anchor"
  by (auto simp: register_def Let_def new_row_def split: prod.splits)

lemma observe_keeps_row:
  assumes "distinct (map fst (cd_identities d))" "map_of (cd_identities d) a = Some (Some r)"
    and "anchor_alive (h_procs (c_host c)) (id_anchor r)" "fresh (id_last r) REGISTRY_TTL (c_now c)"
  shows "\<exists>r'. map_of (cd_identities (kept d (observe c active reset sub emit_now d))) a = Some (Some r')
    \<and> id_anchor r' = id_anchor r \<and> id_session r' = id_session r \<and> id_main r' = id_main r"
proof -
  let ?ids = "prune_identities (h_procs (c_host c)) (c_now c) (cd_identities d)" and ?k = "agent_key (c_host c)"
  have a: "map_of ?ids a = Some r" using map_of_prune [OF assms(1)] assms(2-4) by blast
  have same: "\<exists>r'. map_of (cd_identities d) a = Some (Some r') \<and> id_anchor r' = id_anchor r \<and> id_session r' = id_session r \<and> id_main r' = id_main r"
    using assms(2) by blast
  obtain anchor provider where h: "harness (c_host c) = (anchor, provider)" by (rule prod.exhaust)
  show ?thesis
  proof (cases "anchor = None \<or> \<not> joins_family (c_host c)")
    case True
    then have "kept d (observe c active reset sub emit_now d) = d" by (auto simp: observe_def h split: option.splits)
    with same show ?thesis by simp
  next
    case False
    then obtain an where an: "anchor = Some an" "joins_family (c_host c)" by auto
    show ?thesis
    proof (cases "map_of ?ids ?k")
      case None
      with a have ne: "a \<noteq> ?k" by auto
      have "observe c active reset sub emit_now d = register c active reset sub emit_now an provider ?ids d"
        by (simp add: observe_def h an None Let_def)
      with register_row(1) [OF None ne] a show ?thesis by simp
    next
      case (Some mine)
      have ob: "observe c active reset sub emit_now d = (if id_anchor mine \<noteq> Some an then ([], None) else refresh c emit_now mine ?ids d)"
        by (simp add: observe_def h an Some Let_def)
      have "mine = r" if "a = ?k" using that a Some by simp
      then show ?thesis using same a by (auto simp: ob refresh_def Let_def)
    qed
  qed
qed

text \<open>An identity belongs to one process: while it lives there, no call on any process moves it.\<close>

lemma observe_own_row:
  assumes "distinct (map fst (cd_identities d))" "harness (c_host c) = (Some anchor, provider)" "joins_family (c_host c)"
    and "\<And>r. map_of (cd_identities d) (agent_key (c_host c)) = Some (Some r) \<Longrightarrow> id_anchor r = Some anchor"
  shows "\<exists>r. map_of (cd_identities (kept d (observe c active reset sub emit_now d))) (agent_key (c_host c)) = Some (Some r)
    \<and> id_anchor r = Some anchor"
proof -
  let ?ids = "prune_identities (h_procs (c_host c)) (c_now c) (cd_identities d)"
  show ?thesis
  proof (cases "map_of ?ids (agent_key (c_host c))")
    case None
    then have "observe c active reset sub emit_now d = register c active reset sub emit_now anchor provider ?ids d"
      by (simp add: observe_def assms(2,3) Let_def)
    with register_row(2) [OF None] show ?thesis by simp
  next
    case (Some mine)
    then have reg: "map_of (cd_identities d) (agent_key (c_host c)) = Some (Some mine)" using map_of_prune [OF assms(1)] by blast
    then have "id_anchor mine = Some anchor" by (rule assms(4))
    with Some reg show ?thesis by (auto simp: observe_def assms(2,3) Let_def refresh_def)
  qed
qed

lemma mark_main_row:
  assumes "map_of (cd_identities d) (agent_key (c_host c)) = Some (Some r)"
  shows "map_of (cd_identities (kept d (mark_main_thread c d))) a =
    (if a = agent_key (c_host c) then Some (Some (r\<lparr>id_main := True\<rparr>)) else map_of (cd_identities d) a)"
  using assms by (auto simp: mark_main_thread_def Let_def)

section \<open>Ownership survives a reset\<close>

lemma seen_host_sel [simp]:
  "h_procs (seen_host h d) = h_procs h" "h_env (seen_host h d) = h_env h" "h_pid (seen_host h d) = h_pid h"
  by (simp_all add: seen_host_def)

lemma harness_seen [simp]: "harness (seen_host h d) = harness h"
  unfolding harness_def seen_host_sel ..

lemma tmux_pane_seen [simp]: "tmux_pane (seen_host h d) = tmux_pane h"
  unfolding tmux_pane_def seen_host_sel ..

lemma agent_key_seen [simp]: "agent_key (seen_host h d) = agent_key h"
  unfolding agent_key_def identify_agent_def session_def own_session_def hub_agent_def seen_host_sel harness_seen tmux_pane_seen ..

lemma seen_row:
  "map_of (cd_identities d) a = Some (Some r) \<Longrightarrow> (a, Some (identity.truncate r)) \<in> set (h_identities (seen_host h d))"
  by (force simp: seen_host_def dest: map_of_SomeD)

lemma main_family_owned:
  assumes "fst (harness h) = Some anchor" "anchor_alive (h_procs h) (Some anchor)"
    and "map_of (cd_identities d) (agent_key h) = Some (Some r)" "id_anchor r = Some anchor" "id_main r"
    and "map_of (cd_identities d) p = Some (Some q)" "id_anchor q = Some anchor" "id_main q"
  shows "p \<in> set (self_ids (seen_host h d))"
proof -
  let ?h = "seen_host h d"
  have cur: "current_anchor ?h (agent_key h) = Some anchor" using assms(1,2) by (simp add: current_anchor_def)
  have mem: "(a, identity.truncate x) \<in> set (filter (\<lambda>(_, r). id_main r) (family_rows ?h anchor))"
    if "map_of (cd_identities d) a = Some (Some x)" "id_anchor x = Some anchor" "id_main x" for a x
    using seen_row [OF that(1), of h] that(2,3)
    by (force simp: family_rows_def List.map_filter_def identity.defs)
  have "agent_key h \<in> fst ` set (filter (\<lambda>(_, r). id_main r) (family_rows ?h anchor))"
    "p \<in> fst ` set (filter (\<lambda>(_, r). id_main r) (family_rows ?h anchor))"
    using mem [OF assms(3-5)] mem [OF assms(6-8)] by force+
  then show ?thesis using cur
    by (auto simp: self_ids_def lineage_def Let_def with_tmux_def split: option.splits)
qed

lemma mark_main_keeps:
  assumes "map_of (cd_identities d) a = Some (Some r)"
  shows "\<exists>r'. map_of (cd_identities (kept d (mark_main_thread c d))) a = Some (Some r')
    \<and> id_anchor r' = id_anchor r \<and> id_session r' = id_session r \<and> (id_main r \<longrightarrow> id_main r')"
  using assms by (auto simp: mark_main_thread_def Let_def split: option.splits)

text \<open>
  An identity stays with its process. When a session starts, resumes or is reset anywhere on
  the host, every identity that is registered on a live process and was seen within a day keeps
  its process and its session.
\<close>

theorem identity_stays_with_process:
  assumes "distinct (map fst (cd_identities d))" "map_of (cd_identities d) a = Some (Some r)"
    and "anchor_alive (h_procs (c_host c)) (id_anchor r)" "fresh (id_last r) REGISTRY_TTL (c_now c)"
  shows "\<exists>r'. map_of (cd_identities (snd (session_start c active source worker d))) a = Some (Some r')
    \<and> id_anchor r' = id_anchor r \<and> id_session r' = id_session r"
proof -
  let ?sub = "worker \<or> source \<in> set [''resume'', ''compact'']"
  from observe_keeps_row [OF assms, of active True ?sub True] obtain r1 where
    r1: "map_of (cd_identities (kept d (observe c active True ?sub True d))) a = Some (Some r1)"
      "id_anchor r1 = id_anchor r" "id_session r1 = id_session r" by blast
  from mark_main_keeps [OF r1(1), of c] r1 show ?thesis by (cases worker) (auto simp: session_start_def Let_def)
qed

text \<open>
  A context reset does not orphan work. When a harness process starts a new session, the new
  identity owns every lease of the main-thread identities that were registered on the same live
  process, so that it can renew, release and hand over what its predecessor held.
\<close>

theorem reset_keeps_leases:
  assumes "harness (c_host c) = (Some anchor, provider)" "anchor_alive (h_procs (c_host c)) (Some anchor)"
    and "joins_family (c_host c)" "distinct (map fst (cd_identities d))"
    and "\<And>r. map_of (cd_identities d) (agent_key (c_host c)) = Some (Some r) \<Longrightarrow> id_anchor r = Some anchor"
    and "map_of (cd_identities d) p = Some (Some q)" "id_anchor q = Some anchor" "id_main q" "fresh (id_last q) REGISTRY_TTL (c_now c)"
    and "l_agent l = p"
  shows "own_lease (c\<lparr>c_host := seen_host (c_host c) (snd (session_start c active source False d))\<rparr>) l"
proof -
  let ?sub = "source \<in> set [''resume'', ''compact'']" and ?k = "agent_key (c_host c)"
  let ?d1 = "kept d (observe c active True ?sub True d)" and ?d2 = "snd (session_start c active source False d)"
  have d2: "?d2 = kept ?d1 (mark_main_thread c ?d1)" by (simp add: session_start_def Let_def)
  from observe_own_row [OF assms(4,1,3,5), of active True ?sub True] obtain r where
    r: "map_of (cd_identities ?d1) ?k = Some (Some r)" "id_anchor r = Some anchor" by blast
  from observe_keeps_row [OF assms(4,6) _ assms(9), of active True ?sub True] assms(2,7,8) obtain q1 where
    q1: "map_of (cd_identities ?d1) p = Some (Some q1)" "id_anchor q1 = Some anchor" "id_main q1" by auto
  note row = mark_main_row [OF r(1), folded d2]
  have k: "map_of (cd_identities ?d2) ?k = Some (Some (r\<lparr>id_main := True\<rparr>))" by (simp add: row)
  have "\<exists>x. map_of (cd_identities ?d2) p = Some (Some x) \<and> id_anchor x = Some anchor \<and> id_main x"
    using row [of p] q1 r by auto
  then obtain x where x: "map_of (cd_identities ?d2) p = Some (Some x)" "id_anchor x = Some anchor" "id_main x" by blast
  have "p \<in> set (self_ids (seen_host (c_host c) ?d2))"
    by (rule main_family_owned [OF _ assms(2) k _ _ x]) (use assms(1) r(2) in simp_all)
  then show ?thesis using assms(10) by (simp add: own_lease_def is_mine_def)
qed

definition reset_host :: "string \<Rightarrow> host" where
  "reset_host sid =
     \<lparr>h_env = [(''CLAUDE_CODE_SESSION_ID'', sid)], h_pid = 9,
      h_procs = [(9, \<lparr>p_comm = ''python3'', p_ppid = 7, p_start = ''90'', p_exe = None, p_cmdline = Some [''python3'']\<rparr>),
                 (7, \<lparr>p_comm = ''claude'', p_ppid = 1, p_start = ''70'', p_exe = None, p_cmdline = Some [''claude'']\<rparr>)],
      h_identities = [], h_sensitive = False\<rparr>"

definition reset_call :: "string \<Rightarrow> int \<Rightarrow> call" where
  "reset_call sid now = \<lparr>c_host = reset_host sid, c_now = now, c_id = ''lease-1''\<rparr>"

definition first_session :: coord_doc where
  "first_session =
     snd (session_start (reset_call ''aaaaaa-1'' 10) [] ''startup'' False \<lparr>cd_identities = [], cd_messages = [], cd_notes = []\<rparr>)"

definition old_row :: reg_row where
  "old_row = the (the (map_of (cd_identities first_session) ''cc:aaaaaa''))"

definition old_lease :: lease where
  "old_lease = new_lease (reset_call ''aaaaaa-1'' 20) [''/r/a''] None"

lemma first_session_facts:
  "distinct (map fst (cd_identities first_session))" "map_of (cd_identities first_session) ''cc:aaaaaa'' = Some (Some old_row)"
  "id_anchor old_row = Some ''7:70''" "id_main old_row" "fresh (id_last old_row) REGISTRY_TTL 30"
  "map_of (cd_identities first_session) (agent_key (reset_host ''bbbbbb-2'')) = None"
  "harness (reset_host ''bbbbbb-2'') = (Some ''7:70'', Some ''claude_code'')"
  "anchor_alive (h_procs (reset_host ''bbbbbb-2'')) (Some ''7:70'')" "joins_family (reset_host ''bbbbbb-2'')"
  by code_simp+

theorem identity_stays_with_process_witness:
  "\<exists>r'. map_of (cd_identities (snd (session_start (reset_call ''bbbbbb-2'' 30) [] ''clear'' False first_session))) ''cc:aaaaaa'' = Some (Some r')
    \<and> id_anchor r' = Some ''7:70'' \<and> id_session r' = id_session old_row"
  using identity_stays_with_process [OF first_session_facts(1,2), of "reset_call ''bbbbbb-2'' 30" "[]" "''clear''" False]
    first_session_facts(3,5,8) by (simp add: reset_call_def)

theorem reset_keeps_leases_witness:
  "agent_key (reset_host ''bbbbbb-2'') \<noteq> l_agent old_lease \<and>
   own_lease ((reset_call ''bbbbbb-2'' 30)\<lparr>c_host := seen_host (reset_host ''bbbbbb-2'')
     (snd (session_start (reset_call ''bbbbbb-2'' 30) [] ''clear'' False first_session))\<rparr>) old_lease"
proof
  show "agent_key (reset_host ''bbbbbb-2'') \<noteq> l_agent old_lease" by code_simp
  have c: "c_host (reset_call ''bbbbbb-2'' 30) = reset_host ''bbbbbb-2''" "c_now (reset_call ''bbbbbb-2'' 30) = 30"
    by (simp_all add: reset_call_def)
  have l: "l_agent old_lease = ''cc:aaaaaa''" by code_simp
  show "own_lease ((reset_call ''bbbbbb-2'' 30)\<lparr>c_host := seen_host (reset_host ''bbbbbb-2'')
     (snd (session_start (reset_call ''bbbbbb-2'' 30) [] ''clear'' False first_session))\<rparr>) old_lease"
    using reset_keeps_leases [of "reset_call ''bbbbbb-2'' 30", unfolded c, OF first_session_facts(7,8,9,1) _ first_session_facts(2,3,4,5) l]
      first_session_facts(6) by simp
qed

end
