(* ===== verification/LeaseFacts.thy ===== *)
theory LeaseFacts
  imports Leases
begin

text \<open>
  Facts about the lease table: which calls can touch whose leases, what a claim reports and
  leaves behind, that earlier claims are seen by later ones, what taking a path over does, and
  how concurrent writes are attributed.
\<close>

section \<open>Loading what was saved\<close>

lemma map_filter_Some: "List.map_filter (\<lambda>x. x) (map Some xs) = xs"
  by (induction xs) (simp_all add: map_filter_simps)

lemma load_leases_saved [simp]: "load_leases (saved c d ls ws) = ls"
  by (simp add: load_leases_def saved_def map_filter_Some)

lemma saved_by_simps [simp]: "saved_by d (a, Some d') = d'" "saved_by d (a, None) = d"
  by (simp_all add: saved_by_def)

lemma map_filter_all: "(\<And>x. x \<in> set xs \<Longrightarrow> f x = Some (g x)) \<Longrightarrow> List.map_filter f xs = map g xs"
  by (induction xs) (auto simp: map_filter_simps)

definition agents_ok :: "writer_sets \<Rightarrow> bool" where
  "agents_ok ws \<longleftrightarrow> (\<forall>p es. (p, es) \<in> set ws \<longrightarrow> (\<forall>e\<in>set es. has_agent e))"

definition good_writers :: "writer_sets \<Rightarrow> bool" where
  "good_writers ws \<longleftrightarrow> distinct (map fst ws) \<and> agents_ok ws \<and> (\<forall>p. (p, []) \<notin> set ws)"

text \<open>What is saved is what the next call loads.\<close>

lemma load_writers_saved:
  assumes "good_writers ws"
  shows "load_writers now (saved c d ls (Some ws)) = ws"
proof -
  have "List.map_filter (\<lambda>(path, es). map_option (\<lambda>l. (path, filter has_agent (List.map_filter (\<lambda>x. x) l))) es)
          (map (\<lambda>(p, es). (p, Some (map Some es))) ws) = ws"
  proof -
    have "agents_ok ws" using assms by (simp add: good_writers_def)
    then show ?thesis
    proof (induction ws)
      case (Cons a ws)
      obtain p es where a: "a = (p, es)" by (cases a)
      have "filter has_agent es = es" using Cons.prems a by (auto simp: agents_ok_def filter_id_conv)
      moreover have "agents_ok ws" using Cons.prems by (simp add: agents_ok_def)
      ultimately show ?case using Cons.IH a by (simp add: map_filter_simps map_filter_Some)
    qed (simp add: map_filter_simps)
  qed
  moreover have "filter (\<lambda>(_, es). es \<noteq> []) ws = ws"
    using assms by (auto simp: good_writers_def filter_id_conv)
  ultimately show ?thesis by (simp add: load_writers_def saved_def)
qed

lemma entries_at_add [simp]:
  "entries_at (add_writer p e ws) q =
     (if q = p then filter (\<lambda>x. w_agent x \<noteq> w_agent e) (entries_at ws p) @ [e] else entries_at ws q)"
  by (simp add: add_writer_def entries_at_def)

lemma dict_set_pairs: "distinct (map fst ws) \<Longrightarrow> set (dict_set p v ws) = insert (p, v) {x \<in> set ws. fst x \<noteq> p}"
proof (induction ws)
  case (Cons a ws)
  then show ?case by (cases a) (auto simp: image_iff)
qed simp

definition doc_ok :: "doc \<Rightarrow> bool" where
  "doc_ok d \<longleftrightarrow> distinct (map fst (doc_writers d))"

lemma add_writer_keys: "distinct (map fst ws) \<Longrightarrow> distinct (map fst (add_writer p e ws))"
  by (simp add: add_writer_def dict_set_distinct)

lemma add_writer_agents:
  assumes "distinct (map fst ws)" "agents_ok ws" "has_agent e"
  shows "agents_ok (add_writer p e ws)"
proof -
  have "\<forall>x\<in>set (entries_at ws p). has_agent x"
  proof (cases "map_of ws p")
    case (Some es)
    with map_of_SomeD [OF Some] assms(2) show ?thesis by (auto simp: entries_at_def agents_ok_def)
  qed (simp add: entries_at_def)
  then show ?thesis using assms by (auto simp: agents_ok_def add_writer_def dict_set_pairs)
qed

lemma good_add_writer: "good_writers ws \<Longrightarrow> has_agent e \<Longrightarrow> good_writers (add_writer p e ws)"
  using add_writer_keys [of ws p e] add_writer_agents [of ws e p]
  unfolding good_writers_def by (auto simp: add_writer_def dict_set_pairs)

lemma fold_touch_inv:
  assumes "distinct (map fst ws)" "agents_ok ws"
  shows "distinct (map fst (fold (fold_touch now) ts ws)) \<and> agents_ok (fold (fold_touch now) ts ws)"
  using assms
proof (induction ts arbitrary: ws)
  case (Cons t ts)
  have "distinct (map fst (fold_touch now t ws)) \<and> agents_ok (fold_touch now t ws)"
    using Cons.prems add_writer_keys add_writer_agents
    by (cases t) (auto simp: fold_touch_def split: option.splits if_splits)
  with Cons.IH show ?case by simp
qed simp

lemma load_writers_good:
  assumes "doc_ok d"
  shows "good_writers (load_writers now d)"
proof -
  let ?f = "\<lambda>(path, es). map_option (\<lambda>l. (path, filter has_agent (List.map_filter (\<lambda>x. x) l))) es"
  let ?base = "List.map_filter ?f (doc_writers d)"
  have keys: "distinct (map fst es) \<Longrightarrow> distinct (map fst (List.map_filter ?f es)) \<and> fst ` set (List.map_filter ?f es) \<subseteq> fst ` set es" for es
  proof (induction es)
    case (Cons a es)
    then show ?case by (cases a; cases "snd a") (auto simp: map_filter_simps image_iff)
  qed (simp add: map_filter_simps)
  have "distinct (map fst ?base)" using keys [OF assms [unfolded doc_ok_def]] by (rule conjunct1)
  moreover have "agents_ok ?base" by (auto simp: agents_ok_def map_filter_def)
  ultimately have W: "distinct (map fst W) \<and> agents_ok W" if "W = fold (fold_touch now) ts ?base" for W ts
    unfolding that by (rule fold_touch_inv)
  have good: "good_writers (filter (\<lambda>(_, es). es \<noteq> []) W)" if "distinct (map fst W) \<and> agents_ok W" for W
    using that by (auto simp: good_writers_def agents_ok_def distinct_map_filter)
  show ?thesis unfolding load_writers_def Let_def by (rule good [OF W [OF refl]])
qed

section \<open>Whose leases a call can touch\<close>

datatype lease_op =
    Acquire "string list" "string option" "string option"
  | ListActive "string list"
  | Heartbeat
  | Release "string option" "string option"
  | Claim string "string option"
  | RecordWrites "string list" "int option" "string option" "string list option" "string option"
  | PruneWriters string "string list"
  | ReleasePaths "string list" "string option"
  | AcquireMark string string string

fun lease_exec :: "call \<Rightarrow> lease_op \<Rightarrow> doc \<Rightarrow> doc" where
  "lease_exec c (Acquire globs task root) d = saved_by d (acquire c globs task root d)"
| "lease_exec c (ListActive kinds) d = saved_by d (list_active c kinds d)"
| "lease_exec c Heartbeat d = saved_by d (heartbeat c d)"
| "lease_exec c (Release glob root) d = saved_by d (release c glob root d)"
| "lease_exec c (Claim path root) d = saved_by d (claim c path root d)"
| "lease_exec c (RecordWrites paths since unknown dirty root) d = saved_by d (record_writes c paths since unknown dirty root d)"
| "lease_exec c (PruneWriters root dirty) d = saved_by d (prune_writers c root dirty d)"
| "lease_exec c (ReleasePaths paths root) d = saved_by d (release_paths c paths root d)"
| "lease_exec c (AcquireMark root kind purpose) d = saved_by d (acquire_mark c root kind purpose d)"

lemma agent_is_own: "l_agent l = agent_key (c_host c) \<Longrightarrow> own_lease c l"
  using agent_in_self_ids [of "c_host c"] by (simp add: own_lease_def is_mine_def)

lemma update_first_keeps:
  "update_first P f xs = Some (y, ys) \<Longrightarrow> x \<in> set xs \<Longrightarrow> \<not> P x \<Longrightarrow> x \<in> set ys"
  by (induction xs arbitrary: ys) (auto split: if_splits)

lemma live_in_load: "l \<in> set (live_leases c d) \<Longrightarrow> l \<in> set (load_leases d)"
  by (simp add: live_leases_def purge_stale_def)

lemma drop_glob_other: "\<not> own_lease c l \<Longrightarrow> drop_glob c t l = Some l"
  by (simp add: drop_glob_def)

lemma in_map_filter: "x \<in> set xs \<Longrightarrow> f x = Some y \<Longrightarrow> y \<in> set (List.map_filter f xs)"
  by (force simp: map_filter_def)

lemma in_map_unchanged: "x \<in> set xs \<Longrightarrow> f x = x \<Longrightarrow> x \<in> set (map f xs)"
  by force

lemma other_lease_kept:
  assumes "l \<in> set (live_leases c d)" "\<not> own_lease c l" "\<And>root. op \<noteq> Release (Some (l_id l)) root"
  shows "l \<in> set (load_leases (lease_exec c op d))"
proof (cases op)
  case (Acquire globs task root)
  have "l_agent l \<noteq> agent_key (c_host c)" using assms(2) agent_is_own by blast
  then show ?thesis using assms(1)
    by (auto simp: Acquire acquire_def Let_def split: option.splits elim!: update_first_keeps)
next
  case (ListActive kinds)
  then show ?thesis using assms(1) live_in_load by (simp add: list_active_def Let_def)
next
  case Heartbeat
  then show ?thesis using assms(1,2) by (simp add: heartbeat_def Let_def image_iff)
next
  case (Release glob root)
  have "l \<in> set (List.map_filter (drop_glob c g) (live_leases c d))" for g
    by (rule in_map_filter [where f = "drop_glob c g", OF assms(1)]) (rule drop_glob_other [OF assms(2)])
  then show ?thesis using assms(1,2) assms(3) [of root]
    by (auto simp: Release release_def Let_def split: option.splits)
next
  case (Claim path root)
  have "l \<in> set (map (\<lambda>l. if l_kind l \<noteq> ''op'' \<and> own_lease c l then l\<lparr>l_heartbeat := Some (c_now c)\<rparr> else l) (live_leases c d))"
    using assms(1,2) by (intro in_map_unchanged) simp_all
  then show ?thesis by (simp add: Claim claim_def Let_def)
next
  case (RecordWrites paths since unknown dirty root)
  then show ?thesis using assms(1) by (simp add: record_writes_def Let_def)
next
  case (PruneWriters root dirty)
  then show ?thesis using assms(1) live_in_load by (simp add: prune_writers_def Let_def)
next
  case (ReleasePaths paths root)
  then show ?thesis using assms(1,2) by (simp add: release_paths_def Let_def)
next
  case (AcquireMark root kind purpose)
  then show ?thesis using assms(1,2) by (simp add: acquire_mark_def Let_def)
qed


definition sample_host :: "string \<Rightarrow> host" where
  "sample_host sid = \<lparr>h_env = [(''ST_SESSION_ID'', sid)], h_pid = 900, h_procs = [], h_identities = [], h_sensitive = False\<rparr>"

definition sample_call :: "string \<Rightarrow> int \<Rightarrow> call" where
  "sample_call sid now = \<lparr>c_host = sample_host sid, c_now = now, c_id = sid\<rparr>"

definition sample_lease :: lease where
  "sample_lease = new_lease (sample_call ''bob'' 5) [''/r/a.py''] None"

definition sample_doc :: doc where
  "sample_doc = BLANK_DOC\<lparr>doc_leases := [Some sample_lease]\<rparr>"

lemma sample_facts:
  "sample_lease \<in> set (live_leases (sample_call ''alice'' 7) sample_doc)"
  "\<not> own_lease (sample_call ''alice'' 7) sample_lease"
  "\<not> own_session_lease (sample_call ''alice'' 7) sample_lease"
  by code_simp+


section \<open>Claims\<close>

lemma own_heartbeat [simp]: "own_lease c (l\<lparr>l_heartbeat := t\<rparr>) = own_lease c l" "matches (l\<lparr>l_heartbeat := t\<rparr>) p = matches l p"
  by (simp_all add: own_lease_def is_mine_def matches_def)

lemma new_lease_simps [simp]:
  "l_agent (new_lease c gs t) = agent_key (c_host c)" "l_globs (new_lease c gs t) = gs"
  "l_kind (new_lease c gs t) = ''file''" "l_heartbeat (new_lease c gs t) = Some (c_now c)" "l_id (new_lease c gs t) = c_id c"
  by (simp_all add: new_lease_def agent_key_def split: prod.splits)

lemma new_lease_own: "own_lease c ((new_lease c gs t)\<lparr>l_sensitive := b\<rparr>)" "own_lease c (new_lease c gs t)"
  by (rule agent_is_own, simp)+

lemma matches_itself: "list_all plain_char p \<Longrightarrow> p \<in> set (l_globs l) \<Longrightarrow> matches l p"
  using fnmatch_plain [of p p] by (auto simp: matches_def list_ex_iff)

lemma writer_entry_agent: "w_agent (writer_entry c None b) = Some (root_key (c_host c))"
  by (simp add: writer_entry_def split: prod.splits)

text \<open>What a claim saves: the live leases with the own ones renewed, one of them covering the path, and the writer.\<close>

lemma claim_leaves_mark:
  assumes "project_path path root = p" "list_all plain_char p" "root_key (c_host c) \<noteq> []"
  obtains ls e where "snd (claim c path root d) = Some (saved c d ls (Some (add_writer p e (load_writers (c_now c) d))))"
    and "w_agent e = Some (root_key (c_host c))" "has_agent e"
    and "\<exists>m\<in>set ls. l_kind m = ''file'' \<and> own_lease c m \<and> matches m p \<and> l_heartbeat m = Some (c_now c)"
    and "\<forall>m\<in>set (live_leases c d). l_heartbeat m = Some (c_now c) \<longrightarrow> m \<in> set ls"
proof -
  define beat where "beat = map (\<lambda>l. if l_kind l \<noteq> ''op'' \<and> own_lease c l then l\<lparr>l_heartbeat := Some (c_now c)\<rparr> else l) (live_leases c d)"
  define held where "held = filter (\<lambda>l. l_kind l = ''file'' \<and> own_lease c l \<and> matches l p) beat"
  define own where "own = (if held = [] then (new_lease c [p] None)\<lparr>l_sensitive := h_sensitive (c_host c)\<rparr> else last held)"
  define e where "e = writer_entry c None (Some (l_sensitive own))"
  define ls where "ls = (if held = [] then beat @ [own] else beat)"
  have ea: "w_agent e = Some (root_key (c_host c))" by (simp add: e_def writer_entry_agent)
  then have ha: "has_agent e" using assms(3) by (cases "root_key (c_host c)") (simp_all add: has_agent_def)
  have "own \<in> set ls \<and> l_kind own = ''file'' \<and> own_lease c own \<and> matches own p \<and> l_heartbeat own = Some (c_now c)"
  proof (cases "held = []")
    case True
    then show ?thesis using new_lease_own assms(2) by (simp add: own_def ls_def matches_itself)
  next
    case False
    then have "own \<in> set held" by (simp add: own_def)
    then show ?thesis using False by (auto simp: ls_def held_def beat_def)
  qed
  then have cover: "\<exists>m\<in>set ls. l_kind m = ''file'' \<and> own_lease c m \<and> matches m p \<and> l_heartbeat m = Some (c_now c)" by blast
  have "m \<in> set beat" if "m \<in> set (live_leases c d)" "l_heartbeat m = Some (c_now c)" for m
  proof -
    have "m\<lparr>l_heartbeat := Some (c_now c)\<rparr> = m" using that(2) by (cases m) simp
    then show ?thesis unfolding beat_def set_map using that(1) by (intro image_eqI [of _ _ m]) simp_all
  qed
  then have kept: "\<forall>m\<in>set (live_leases c d). l_heartbeat m = Some (c_now c) \<longrightarrow> m \<in> set ls" by (simp add: ls_def)
  have "snd (claim c path root d) = Some (saved c d ls (Some (add_writer p e (load_writers (c_now c) d))))"
    unfolding claim_def assms(1) Let_def beat_def [symmetric] held_def [symmetric] own_def [symmetric] e_def [symmetric] ls_def [symmetric]
    by (rule snd_conv)
  then show thesis by (rule that [OF _ ea ha cover kept])
qed

lemma claim_answer:
  assumes "project_path path root = p" "claim c path root d = ((ok, l), d')"
  shows "ok \<longleftrightarrow> \<not> (\<exists>m\<in>set (live_leases c d). l_kind m = ''file'' \<and> matches m p \<and> \<not> own_session_lease c m)"
    "\<not> ok \<longrightarrow> l \<in> set (live_leases c d) \<and> l_kind l = ''file'' \<and> matches l p \<and> \<not> own_session_lease c l"
proof -
  define conflict where "conflict = List.find (\<lambda>l. l_kind l = ''file'' \<and> matches l p \<and> \<not> own_session_lease c l) (live_leases c d)"
  have c: "ok = (conflict = None)" "\<And>m. conflict = Some m \<Longrightarrow> l = m"
    using assms(2) unfolding claim_def assms(1) Let_def conflict_def [symmetric] by simp_all
  show "ok \<longleftrightarrow> \<not> (\<exists>m\<in>set (live_leases c d). l_kind m = ''file'' \<and> matches m p \<and> \<not> own_session_lease c m)"
    unfolding c(1) conflict_def find_None_iff by blast
  show "\<not> ok \<longrightarrow> l \<in> set (live_leases c d) \<and> l_kind l = ''file'' \<and> matches l p \<and> \<not> own_session_lease c l"
  proof
    assume "\<not> ok"
    then obtain m where m: "conflict = Some m" using c(1) by auto
    then show "l \<in> set (live_leases c d) \<and> l_kind l = ''file'' \<and> matches l p \<and> \<not> own_session_lease c l"
      using c(2) [OF m] by (auto simp: conflict_def find_Some_iff)
  qed
qed

text \<open>
  A claim is truthful and always leaves its mark. It reports success exactly when no live
  file lease of another session covers the path, and otherwise returns such a lease; in both
  cases the caller afterwards holds a file lease that covers the path with a fresh heartbeat
  (for paths without wildcard characters), and the caller's session is the latest writer of
  the path while every other writer of it is kept.
\<close>

theorem claim_reports_and_records:
  assumes "project_path path root = p" "list_all plain_char p" "doc_ok d" "root_key (c_host c) \<noteq> []"
  shows "case claim c path root d of
      ((ok, l), Some d') \<Rightarrow>
        (ok \<longleftrightarrow> \<not> (\<exists>m\<in>set (live_leases c d). l_kind m = ''file'' \<and> matches m p \<and> \<not> own_session_lease c m))
        \<and> (\<not> ok \<longrightarrow> l \<in> set (live_leases c d) \<and> l_kind l = ''file'' \<and> matches l p \<and> \<not> own_session_lease c l)
        \<and> (\<exists>m\<in>set (load_leases d'). l_kind m = ''file'' \<and> own_lease c m \<and> matches m p \<and> l_heartbeat m = Some (c_now c))
        \<and> (\<exists>e. w_agent e = Some (root_key (c_host c)) \<and>
              entries_at (load_writers now d') p =
                filter (\<lambda>x. w_agent x \<noteq> w_agent e) (entries_at (load_writers (c_now c) d) p) @ [e])
    | _ \<Rightarrow> False"
proof -
  obtain ls e where m: "snd (claim c path root d) = Some (saved c d ls (Some (add_writer p e (load_writers (c_now c) d))))"
    "w_agent e = Some (root_key (c_host c))" "has_agent e"
    "\<exists>m\<in>set ls. l_kind m = ''file'' \<and> own_lease c m \<and> matches m p \<and> l_heartbeat m = Some (c_now c)"
    by (rule claim_leaves_mark [OF assms(1,2,4)])
  obtain ok l where a: "claim c path root d = ((ok, l), snd (claim c path root d))" by (metis prod.collapse)
  note answer = claim_answer [OF assms(1) a]
  have "good_writers (add_writer p e (load_writers (c_now c) d))"
    by (rule good_add_writer [OF load_writers_good [OF assms(3)] m(3)])
  note wr = load_writers_saved [OF this, of now c d]
  have rec: "\<exists>e'. w_agent e' = Some (root_key (c_host c)) \<and>
      entries_at (load_writers now (saved c d ls (Some (add_writer p e (load_writers (c_now c) d))))) p =
        filter (\<lambda>x. w_agent x \<noteq> w_agent e') (entries_at (load_writers (c_now c) d) p) @ [e']"
    using m(2) wr by (intro exI [of _ e] conjI) simp_all
  show ?thesis by (subst a, unfold m(1) prod.case option.case load_leases_saved) (intro conjI answer m(4) rec)
qed

theorem claim_reports_and_records_witness:
  "case claim (sample_call ''alice'' 7) ''a.py'' (Some ''/r'') sample_doc of
      ((ok, l), Some d') \<Rightarrow> \<not> ok \<and> l_agent l = ''st:bob'' \<and>
        (\<exists>m\<in>set (load_leases d'). l_kind m = ''file'' \<and> own_lease (sample_call ''alice'' 7) m
           \<and> matches m ''/r/a.py'' \<and> l_heartbeat m = Some 7)
    | _ \<Rightarrow> False"
proof -
  have "project_path ''a.py'' (Some ''/r'') = ''/r/a.py''" "list_all plain_char ''/r/a.py''" "doc_ok sample_doc"
    "root_key (c_host (sample_call ''alice'' 7)) \<noteq> []" by code_simp+
  note spec = claim_reports_and_records [OF this, where now = 8]
  have m: "l_kind sample_lease = ''file''" "matches sample_lease ''/r/a.py''" "l_agent sample_lease = ''st:bob''"
    "live_leases (sample_call ''alice'' 7) sample_doc = [sample_lease]" "c_now (sample_call ''alice'' 7) = 7" by code_simp+
  show ?thesis using spec sample_facts(3) m by (auto split: option.splits prod.splits)
qed

section \<open>Later claims see earlier ones\<close>

fun lease_run :: "(call \<times> lease_op) list \<Rightarrow> doc \<Rightarrow> doc" where
  "lease_run [] d = d"
| "lease_run ((c, op) # steps) d = lease_run steps (lease_exec c op d)"

text \<open>A call that leaves the lease alone: not its owner's, within its lifetime, not a release of its id.\<close>

definition bystander :: "lease \<Rightarrow> int \<Rightarrow> call \<times> lease_op \<Rightarrow> bool" where
  "bystander l t = (\<lambda>(c, op). \<not> own_lease c l \<and> c_now c \<le> t + DEFAULT_IDLE_TTL \<and> (\<forall>root. op \<noteq> Release (Some (l_id l)) root))"

lemma file_lease_live:
  assumes "l \<in> set (load_leases d)" "l_kind l = ''file''" "l_heartbeat l = Some t" "c_now c \<le> t + DEFAULT_IDLE_TTL"
  shows "l \<in> set (live_leases c d)"
  using assms by (simp add: live_leases_def purge_stale_def is_stale_def)

lemma lease_run_keeps:
  assumes "l \<in> set (load_leases d)" "l_kind l = ''file''" "l_heartbeat l = Some t" "\<forall>s\<in>set steps. bystander l t s"
  shows "l \<in> set (load_leases (lease_run steps d))"
  using assms(1,4)
proof (induction steps arbitrary: d)
  case (Cons s steps)
  obtain c op where s: "s = (c, op)" by (cases s)
  from Cons.prems(2) s have b: "\<not> own_lease c l" "c_now c \<le> t + DEFAULT_IDLE_TTL" "\<And>root. op \<noteq> Release (Some (l_id l)) root"
    by (auto simp: bystander_def)
  have "l \<in> set (load_leases (lease_exec c op d))"
    by (rule other_lease_kept [OF file_lease_live [OF Cons.prems(1) assms(2,3) b(2)] b(1,3)])
  with Cons s show ?case by simp
qed simp



lemma unmatched_path_claimed_twice:
  assumes "project_path p None = p" "\<not> fnmatch p p" "\<not> fnmatch p (rstrip_chars ''/'' p @ ''/**'')"
  shows "fst (fst (claim c2 p None (saved_by BLANK_DOC (claim c1 p None BLANK_DOC))))"
proof -
  have blank: "live_leases c1 BLANK_DOC = []" by (simp add: live_leases_def purge_stale_def load_leases_def BLANK_DOC_def map_filter_simps)
  obtain d1 l where c1: "claim c1 p None BLANK_DOC = ((True, l), Some d1)" "load_leases d1 = [l]" "l_globs l = [p]"
    by (auto simp: claim_def assms(1) blank Let_def)
  have "\<not> matches m p" if "m \<in> set (live_leases c2 d1)" for m
    using live_in_load [OF that] c1 assms by (auto simp: matches_def)
  then have "List.find (\<lambda>l. l_kind l = ''file'' \<and> matches l p \<and> \<not> own_session_lease c2 l) (live_leases c2 d1) = None"
    by (auto simp: find_None_iff)
  then have "fst (fst (claim c2 p None d1))" by (simp add: claim_def assms(1) Let_def)
  then show ?thesis by (simp add: c1(1))
qed

text \<open>
  A path with a bracketed segment, such as a route file of the frontend, is not protected:
  the lease a claim makes for it is read as a character class and does not cover the path
  itself, so any two sessions claim it one after the other and both are told that it is free.
\<close>

theorem bracket_path_claimed_twice:
  "fst (fst (claim c2 ''/app/[id]/page.tsx'' None
      (saved_by BLANK_DOC (claim c1 ''/app/[id]/page.tsx'' None BLANK_DOC))))"
proof (rule unmatched_path_claimed_twice)
  show "project_path ''/app/[id]/page.tsx'' None = ''/app/[id]/page.tsx''" by code_simp
  show "\<not> fnmatch ''/app/[id]/page.tsx'' ''/app/[id]/page.tsx''" by code_simp
  show "\<not> fnmatch ''/app/[id]/page.tsx'' (rstrip_chars ''/'' ''/app/[id]/page.tsx'' @ ''/**'')" by code_simp
qed

section \<open>Taking a path over\<close>

lemma update_first_result: "update_first P f xs = Some (y, ys) \<Longrightarrow> y \<in> set ys \<and> (\<exists>x\<in>set xs. P x \<and> y = f x)"
  by (induction xs arbitrary: ys) (auto split: if_splits)

lemma update_first_set: "update_first P f xs = Some (y, ys) \<Longrightarrow> z \<in> set ys \<Longrightarrow> z = y \<or> z \<in> set xs"
  by (induction xs arbitrary: ys) (auto split: if_splits)

lemma own_updates [simp]:
  "own_lease c (l\<lparr>l_taken_over_by := x\<rparr>) = own_lease c l" "own_lease c (l\<lparr>l_task := y\<rparr>) = own_lease c l"
  "matches (l\<lparr>l_taken_over_by := x\<rparr>) p = matches l p" "matches (l\<lparr>l_task := y\<rparr>) p = matches l p"
  by (simp_all add: own_lease_def is_mine_def matches_def)

lemma acquire_leases:
  assumes "acquire c [p] None None d = (l, Some d')" "project_path p None = p"
  shows "l \<in> set (load_leases d')" "own_lease c l" "l_kind l = ''file''" "set (l_globs l) = {p}"
    "m \<in> set (load_leases d') \<Longrightarrow> m = l \<or> m \<in> set (load_leases d)"
proof -
  let ?same = "\<lambda>l. l_kind l = ''file'' \<and> l_agent l = agent_key (c_host c) \<and> set (l_globs l) = {p}"
  let ?touch = "\<lambda>l. l\<lparr>l_heartbeat := Some (c_now c), l_task := l_task l\<rparr>"
  have step: "acquire c [p] None None d =
      (case update_first ?same ?touch (live_leases c d) of
         Some (l, ls') \<Rightarrow> (l, Some (saved c d ls' None))
       | None \<Rightarrow> (new_lease c [p] None, Some (saved c d (live_leases c d @ [new_lease c [p] None]) None)))"
    by (simp add: acquire_def assms(2) Let_def cong: option.case_cong)
  have "l \<in> set (load_leases d') \<and> own_lease c l \<and> l_kind l = ''file'' \<and> set (l_globs l) = {p}
     \<and> (m \<in> set (load_leases d') \<longrightarrow> m = l \<or> m \<in> set (load_leases d))"
  proof (cases "update_first ?same ?touch (live_leases c d)")
    case None
    then show ?thesis using assms(1) step new_lease_own(2) [of c "[p]" None] live_in_load by auto
  next
    case (Some r)
    obtain l' ls where r: "r = (l', ls)" by (cases r)
    from update_first_result [OF Some [unfolded r]] obtain x where x: "l' \<in> set ls" "?same x" "l' = ?touch x" by blast
    then have "own_lease c l'" using agent_is_own [of l' c] by simp
    have "l' = l" "d' = saved c d ls None" using assms(1) step Some r by simp_all
    with \<open>own_lease c l'\<close> x update_first_set [OF Some [unfolded r], of m] live_in_load [of m c d] show ?thesis by auto
  qed
  then show "l \<in> set (load_leases d')" "own_lease c l" "l_kind l = ''file''" "set (l_globs l) = {p}"
    "m \<in> set (load_leases d') \<Longrightarrow> m = l \<or> m \<in> set (load_leases d)" by blast+
qed

lemma acquire_saves: "\<exists>l d'. acquire c gs t r d = (l, Some d')"
  by (auto simp: acquire_def Let_def split: option.splits)

lemma saved_doc_ok: "distinct (map fst ws) \<Longrightarrow> doc_ok (saved c d ls (Some ws))"
  by (auto simp: doc_ok_def saved_def o_def case_prod_beta' map_map)

lemma saved_keeps_ok: "doc_ok d \<Longrightarrow> doc_ok (saved c d ls None)"
  using load_writers_good [of d "c_now c"] saved_doc_ok [of "load_writers (c_now c) d" c d ls]
  by (simp add: good_writers_def doc_ok_def saved_def)

text \<open>
  Taking a path over makes it the caller's. Undisturbed, \<open>take\<close> ends with a file lease of
  the caller on exactly the path; every other lease that still covers it is the caller's own
  or an operation mark; and the caller's session is the only recorded writer of the path, so
  that its dirty change can be committed.
\<close>

theorem take_adopts_path:
  assumes "project_path path root = p" "project_path p None = p" "doc_ok d" "root_key (c_host c) \<noteq> []"
  shows "case take_lease c path root d of (l, d') \<Rightarrow>
      own_lease c l \<and> l_kind l = ''file'' \<and> set (l_globs l) = {p} \<and> l \<in> set (load_leases d')
      \<and> (\<forall>m\<in>set (load_leases d'). matches m p \<longrightarrow> own_lease c m \<or> l_kind m = ''op'')
      \<and> (\<exists>e. entries_at (load_writers now d') p = [e] \<and> w_agent e = Some (root_key (c_host c)))"
proof -
  define d1 where "d1 = saved c d (filter (\<lambda>l. \<not> (l_kind l \<noteq> ''op'' \<and> matches l p \<and> \<not> own_lease c l)) (live_leases c d)) None"
  obtain l d2 where a: "acquire c [p] None None d1 = (l, Some d2)" using acquire_saves by blast
  note acq = acquire_leases [OF a assms(2)]
  define me where "me = Some (agent_key (c_host c))"
  define e where "e = writer_entry c None None"
  define ws where "ws = dict_set p [e] (load_writers (c_now c) d2)"
  define d3 where "d3 = saved c d2 (map (\<lambda>m. if l_id m = l_id l then m\<lparr>l_taken_over_by := me\<rparr> else m) (load_leases d2)) (Some ws)"
  have tk: "take_lease c path root d = (l\<lparr>l_taken_over_by := me\<rparr>, d3)"
    using a unfolding take_lease_def take_drop_def take_adopt_def assms(1) Let_def d3_def ws_def e_def
    by (simp add: d1_def me_def cong: if_cong)
  have "doc_ok d2" using a saved_keeps_ok [of d1 c] saved_keeps_ok [OF assms(3), of c]
    by (auto simp: acquire_def Let_def d1_def split: option.splits)
  then have good: "good_writers (load_writers (c_now c) d2)" by (rule load_writers_good)
  have ea: "w_agent e = Some (root_key (c_host c))" by (simp add: e_def writer_entry_agent)
  then have "has_agent e" using assms(4) by (cases "root_key (c_host c)") (simp_all add: has_agent_def)
  then have "good_writers ws"
    using good unfolding ws_def good_writers_def agents_ok_def by (auto simp: dict_set_pairs dict_set_distinct)
  then have "load_writers now d3 = ws" unfolding d3_def by (rule load_writers_saved)
  then have wr: "entries_at (load_writers now d3) p = [e]" by (simp add: ws_def entries_at_def)
  have in3: "l\<lparr>l_taken_over_by := me\<rparr> \<in> set (load_leases d3)" using acq(1) by (force simp: d3_def)
  have "own_lease c m \<or> l_kind m = ''op''" if m: "m \<in> set (load_leases d3)" "matches m p" for m
  proof -
    from m(1) obtain k where k: "k \<in> set (load_leases d2)" "m = k \<or> m = k\<lparr>l_taken_over_by := me\<rparr>" by (auto simp: d3_def)
    have "own_lease c k \<or> l_kind k = ''op''"
    proof (cases "k = l")
      case False
      with acq(5) [OF k(1)] have "k \<in> set (load_leases d1)" by blast
      moreover have "matches k p" using m(2) k(2) by auto
      ultimately show ?thesis by (auto simp: d1_def)
    qed (simp add: acq(2))
    then show ?thesis using k(2) by auto
  qed
  then show ?thesis using acq(2-4) in3 wr ea by (simp add: tk)
qed

theorem take_adopts_path_witness:
  "case take_lease (sample_call ''alice'' 7) ''a.py'' (Some ''/r'') sample_doc of (l, d') \<Rightarrow>
      own_lease (sample_call ''alice'' 7) l \<and> l_kind l = ''file'' \<and> set (l_globs l) = {''/r/a.py''} \<and> l \<in> set (load_leases d')
      \<and> (\<forall>m\<in>set (load_leases d'). matches m ''/r/a.py'' \<longrightarrow> own_lease (sample_call ''alice'' 7) m \<or> l_kind m = ''op'')
      \<and> (\<exists>e. entries_at (load_writers 8 d') ''/r/a.py'' = [e] \<and> w_agent e = Some (root_key (c_host (sample_call ''alice'' 7))))"
proof (rule take_adopts_path)
  show "project_path ''a.py'' (Some ''/r'') = ''/r/a.py''" "project_path ''/r/a.py'' None = ''/r/a.py''" "doc_ok sample_doc"
    "root_key (c_host (sample_call ''alice'' 7)) \<noteq> []" by code_simp+
qed

section \<open>Attribution of writes\<close>

lemma record_path_entries:
  "entries_at (record_path c since unknown ls path ws) q =
     (if q = path then entries_at (record_path c since unknown ls path ws) path else entries_at ws q)"
  by (simp add: record_path_def Let_def)

lemma record_fold_other: "q \<notin> set paths \<Longrightarrow> entries_at (fold (record_path c since unknown ls) paths ws) q = entries_at ws q"
proof (induction paths arbitrary: ws)
  case (Cons p paths)
  then show ?case using record_path_entries [of c since unknown ls p ws q] by simp
qed simp

lemma concurrent_write_cong: "entries_at ws path = entries_at ws' path \<Longrightarrow> concurrent_write c s path ls ws = concurrent_write c s path ls ws'"
  by (simp add: concurrent_write_def)

lemma record_path_cong:
  assumes "entries_at ws q = entries_at ws' q"
  shows "entries_at (record_path c since unknown ls q ws) q = entries_at (record_path c since unknown ls q ws') q"
  using concurrent_write_cong [OF assms] assms by (cases since) (simp_all add: record_path_def Let_def)

lemma record_fold_at:
  assumes "distinct paths" "q \<in> set paths"
  shows "entries_at (fold (record_path c since unknown ls) paths ws) q = entries_at (record_path c since unknown ls q ws) q"
  using assms
proof (induction paths arbitrary: ws)
  case (Cons p paths)
  show ?case
  proof (cases "q = p")
    case True
    then show ?thesis using Cons.prems record_fold_other [of q paths] by simp
  next
    case False
    let ?ws = "record_path c since unknown ls p ws"
    have same: "entries_at ?ws q = entries_at ws q" using record_path_entries [of c since unknown ls p ws q] False by simp
    have "entries_at (fold (record_path c since unknown ls) (p # paths) ws) q = entries_at (record_path c since unknown ls q ?ws) q"
      using Cons.IH [of ?ws] Cons.prems False by simp
    also have "\<dots> = entries_at (record_path c since unknown ls q ws) q"
      by (rule record_path_cong [OF same])
    finally show ?thesis .
  qed
qed simp

lemma record_path_good: "good_writers ws \<Longrightarrow> root_key (c_host c) \<noteq> [] \<Longrightarrow> good_writers (record_path c since unknown ls p ws)"
proof -
  assume g: "good_writers ws" and r: "root_key (c_host c) \<noteq> []"
  have "has_agent (writer_entry c u b)" for u b
    using r by (cases "root_key (c_host c)") (simp_all add: has_agent_def writer_entry_def UNKNOWN_WRITER_def split: prod.splits)
  then show ?thesis using good_add_writer [OF g] by (simp add: record_path_def Let_def)
qed

lemma record_fold_good: "good_writers ws \<Longrightarrow> root_key (c_host c) \<noteq> [] \<Longrightarrow> good_writers (fold (record_path c since unknown ls) paths ws)"
  by (induction paths arbitrary: ws) (simp_all add: record_path_good)

text \<open>
  Concurrent writes are never attributed to one side. When a shell command that started at
  \<open>s\<close> reports a path that another session recorded or newly leased since then, the path gets an
  \<open>unknown(concurrent)\<close> writer, which is nobody's own, and the other session's entry stays; so
  neither session can commit the path as its own. A path without such activity gets the
  caller's entry. Paths not reported keep their writers.
\<close>

theorem concurrent_writes_unattributed:
  assumes "distinct paths" "doc_ok d" "root_key (c_host c) \<noteq> []"
  shows "case record_writes c paths (Some s) None None None d of
      (recorded, Some d') \<Rightarrow>
        recorded = paths \<and>
        (\<forall>q. let old = entries_at (load_writers (c_now c) d) q; new = entries_at (load_writers now d') q in
          if q \<notin> set paths then new = old
          else if concurrent_write c s q (live_leases c d) (load_writers (c_now c) d)
          then new = filter (\<lambda>e. w_agent e \<noteq> Some UNKNOWN_WRITER) old @ [writer_entry c (Some ''concurrent'') None]
               \<and> (\<forall>mine anchor. \<not> is_own_writer (last new) mine anchor)
          else w_agent (last new) = Some (root_key (c_host c)))
    | _ \<Rightarrow> False"
proof -
  define ls where "ls = live_leases c d"
  define ws where "ws = load_writers (c_now c) d"
  define ws' where "ws' = fold (record_path c (Some s) None ls) paths ws"
  have rw: "record_writes c paths (Some s) None None None d = (paths, Some (saved c d ls (Some ws')))"
    by (simp add: record_writes_def Let_def ls_def ws_def ws'_def)
  have "good_writers ws'" unfolding ws'_def ws_def
    by (rule record_fold_good [OF load_writers_good [OF assms(2)] assms(3)])
  note wr = load_writers_saved [OF this, of now c d ls]
  have unk: "w_agent (writer_entry c (Some ''concurrent'') None) = Some UNKNOWN_WRITER"
    by (simp add: writer_entry_def split: prod.splits)
  then have nobody: "\<not> is_own_writer (writer_entry c (Some ''concurrent'') None) mine anchor" for mine anchor
    by (simp add: is_own_writer_def)
  have "entries_at ws' q = entries_at ws q" if "q \<notin> set paths" for q
    unfolding ws'_def by (rule record_fold_other [OF that])
  moreover have "entries_at ws' q = filter (\<lambda>e. w_agent e \<noteq> Some UNKNOWN_WRITER) (entries_at ws q) @ [writer_entry c (Some ''concurrent'') None]"
    if "q \<in> set paths" "concurrent_write c s q ls ws" for q
    unfolding ws'_def record_fold_at [OF assms(1) that(1)] using that(2) unk by (simp add: record_path_def Let_def)
  moreover have "w_agent (last (entries_at ws' q)) = Some (root_key (c_host c))" if "q \<in> set paths" "\<not> concurrent_write c s q ls ws" for q
    unfolding ws'_def record_fold_at [OF assms(1) that(1)] using that(2) writer_entry_agent [of c None]
    by (simp add: record_path_def Let_def)
  ultimately show ?thesis using nobody
    unfolding rw prod.case option.case wr ls_def [symmetric] ws_def [symmetric] Let_def by auto
qed

definition touched_doc :: doc where
  "touched_doc = saved_by BLANK_DOC (record_writes (sample_call ''bob'' 5) [''/r/a.py''] None None None None BLANK_DOC)"

theorem concurrent_writes_unattributed_witness:
  "concurrent_write (sample_call ''alice'' 7) 4 ''/r/a.py'' (live_leases (sample_call ''alice'' 7) touched_doc) (load_writers 7 touched_doc)
   \<and> (case record_writes (sample_call ''alice'' 7) [''/r/a.py''] (Some 4) None None None touched_doc of
        (recorded, Some d') \<Rightarrow> \<not> is_own_writer (last (entries_at (load_writers 8 d') ''/r/a.py'')) [''st:alice''] None
      | _ \<Rightarrow> False)"
proof -
  have h: "distinct [''/r/a.py'']" "doc_ok touched_doc" "root_key (c_host (sample_call ''alice'' 7)) \<noteq> []"
    and n: "c_now (sample_call ''alice'' 7) = 7"
    and cw: "concurrent_write (sample_call ''alice'' 7) 4 ''/r/a.py'' (live_leases (sample_call ''alice'' 7) touched_doc) (load_writers 7 touched_doc)"
    by code_simp+
  show ?thesis using concurrent_writes_unattributed [OF h, where s = 4 and now = 8] cw n
    by (auto simp: Let_def split: option.splits dest!: spec [of _ "''/r/a.py''"])
qed

end
