(* ===== verification/HandshakeFacts.thy ===== *)
theory HandshakeFacts
  imports Handshake LeaseFacts
begin

text \<open>
  Facts about the handshake ledger and the guard: the states a request can reach, where an
  authorisation comes from, that closed requests are final, that sending is idempotent, and
  what stands behind a repository operation that was allowed to proceed.
\<close>

section \<open>Rows\<close>

lemma update_row_set:
  "find_message i rows = Inr m \<Longrightarrow> x \<in> set (update_row i f rows) \<Longrightarrow> x \<in> set rows \<or> x = f m"
  by (induction rows) (auto simp: find_message_def split: if_splits option.splits)

lemma find_message_in: "find_message i rows = Inr m \<Longrightarrow> m \<in> set rows \<and> m_id m = i"
  by (auto simp: find_message_def find_Some_iff split: option.splits)

lemma load_ledgerD: "m \<in> set (load_ledger now rows) \<Longrightarrow> \<exists>n\<in>set rows. current_row now n \<and> m = reopen_lapsed_eta now n"
  by (auto simp: load_ledger_def)

text \<open>What holds of every row: which acknowledgements, closures and withdrawals go with which state.\<close>

definition row_ok :: "message \<Rightarrow> bool" where
  "row_ok m \<longleftrightarrow>
     (m_intent m \<noteq> None \<longleftrightarrow> m_acked_by m \<noteq> None) \<and> (m_intent m \<noteq> None \<longleftrightarrow> m_acked_at m \<noteq> None)
     \<and> (m_state m = Acked \<longrightarrow> m_intent m \<noteq> None)
     \<and> (m_state m = Open \<longrightarrow> m_intent m \<in> {None, Some Eta})
     \<and> (m_state m = Fyi \<longrightarrow> m_intent m = None)
     \<and> (m_withdrawn m \<longrightarrow> m_state m = Closed \<and> m_intent m \<noteq> Some Yes)
     \<and> (m_auto_closed m \<longrightarrow> m_state m = Closed \<and> m_intent m = Some Yes)
     \<and> (m_closed_at m \<noteq> None \<longleftrightarrow> m_state m = Closed)"

text \<open>Every intent on a row was stated, under that id, by the agent the row names.\<close>

type_synonym ack_log = "(string \<times> string \<times> intent) list"

definition traced :: "ack_log \<Rightarrow> message \<Rightarrow> bool" where
  "traced log m \<longleftrightarrow> (\<forall>i. m_intent m = Some i \<longrightarrow> (\<exists>a. m_acked_by m = Some a \<and> (a, m_id m, i) \<in> set log))"

lemma reopen_ok: "row_ok m \<Longrightarrow> row_ok (reopen_lapsed_eta now m)"
proof (cases "lapsed now m")
  case True
  then have "m_state m = Acked" "m_intent m = Some Eta" by (simp_all add: lapsed_def)
  moreover assume "row_ok m"
  ultimately show ?thesis using True by (simp add: reopen_lapsed_eta_def row_ok_def)
qed (simp add: reopen_lapsed_eta_def)

lemma reopen_simps [simp]:
  "m_id (reopen_lapsed_eta now m) = m_id m" "m_from (reopen_lapsed_eta now m) = m_from m"
  "m_to (reopen_lapsed_eta now m) = m_to m" "m_intent (reopen_lapsed_eta now m) = m_intent m"
  "m_acked_by (reopen_lapsed_eta now m) = m_acked_by m" "m_created (reopen_lapsed_eta now m) = m_created m"
  "m_text (reopen_lapsed_eta now m) = m_text m" "m_withdrawn (reopen_lapsed_eta now m) = m_withdrawn m"
  "m_source_key (reopen_lapsed_eta now m) = m_source_key m"
  by (simp_all add: reopen_lapsed_eta_def)

lemma traced_reopen [simp]: "traced log (reopen_lapsed_eta now m) = traced log m"
  by (simp add: traced_def)

definition ledger_ok :: "ack_log \<Rightarrow> message list \<Rightarrow> bool" where
  "ledger_ok log rows \<longleftrightarrow> (\<forall>m\<in>set rows. row_ok m \<and> traced log m)"

lemma load_ok: "ledger_ok log rows \<Longrightarrow> ledger_ok log (load_ledger now rows)"
  by (auto simp: ledger_ok_def load_ledger_def reopen_ok)

lemma update_row_ok:
  assumes "ledger_ok log rows" "find_message i rows = Inr m" "row_ok (f m)" "traced log (f m)"
  shows "ledger_ok log (update_row i f rows)"
  using assms update_row_set [OF assms(2)] by (auto simp: ledger_ok_def)

lemma ledger_ok_mono: "ledger_ok log rows \<Longrightarrow> set log \<subseteq> set log' \<Longrightarrow> ledger_ok log' rows"
  by (fastforce simp: ledger_ok_def traced_def)

section \<open>The ledger as a transition system\<close>

text \<open>Ledgers that calls can produce, with the log of the acknowledgements that were made.\<close>

inductive ledger_reachable :: "ack_log \<Rightarrow> message list \<Rightarrow> bool" where
  start: "ledger_reachable [] []"
| sent: "ledger_reachable log rows \<Longrightarrow> send c to text project limit source_key sender remote fyi rows = (r, Some rows') \<Longrightarrow>
    ledger_reachable log rows'"
| dropped: "ledger_reachable log rows \<Longrightarrow> drop_message c i rows = (u, Some rows') \<Longrightarrow> ledger_reachable log rows'"
| acknowledged: "ledger_reachable log rows \<Longrightarrow> ack c i intent note remote rows = (Inr m, Some rows') \<Longrightarrow>
    m_acked_by m = Some a \<Longrightarrow> m_intent m = Some stated \<Longrightarrow> ledger_reachable ((a, i, stated) # log) rows'"
| settled: "ledger_reachable log rows \<Longrightarrow> close_bare_ack c i lane rows = (r, Some rows') \<Longrightarrow> ledger_reachable log rows'"
| concluded: "ledger_reachable log rows \<Longrightarrow> confirm c i withdraw senders rows = (r, Some rows') \<Longrightarrow> ledger_reachable log rows'"
| noticed: "ledger_reachable log rows \<Longrightarrow> ledger_notices c rows = (ns, Some rows') \<Longrightarrow> ledger_reachable log rows'"

lemma send_saves:
  "send c to text project limit source_key sender remote fyi rows = (r, Some rows') \<Longrightarrow>
   \<exists>a s body. rows' = load_ledger (c_now c) rows @ [new_message c a s to body project source_key remote fyi]"
  by (auto simp: send_def Let_def split: sum.splits prod.splits option.splits)

lemma ack_saves:
  assumes "ack c i intent note remote rows = (Inr m', Some rows')"
  obtains m n where "find_message i (load_ledger (c_now c) rows) = Inr m"
    "m_state m \<noteq> Closed" "m_state m \<noteq> Fyi" "intent \<in> {''yes'', ''no''} \<or> eta_minutes intent \<noteq> None"
    "m' = acked_row c (case remote of Some (a, _) \<Rightarrow> a | None \<Rightarrow> fst (acting c None)) intent n m"
    "rows' = update_row i (acked_row c (case remote of Some (a, _) \<Rightarrow> a | None \<Rightarrow> fst (acting c None)) intent n) (load_ledger (c_now c) rows)"
    "case remote of Some (_, addr) \<Rightarrow> m_to m = addr
                  | None \<Rightarrow> addresses (c_host c) (m_to m) (fst (acting c None)) (snd (acting c None))"
proof -
  define who where "who = (case remote of Some (a, _) \<Rightarrow> (a, []) | None \<Rightarrow> acting c None)"
  have w: "fst who = (case remote of Some (a, _) \<Rightarrow> a | None \<Rightarrow> fst (acting c None))"
    by (auto simp: who_def split: option.splits)
  have d: "snd who = snd (acting c None)" if "remote = None" using that by (simp add: who_def)
  from assms show ?thesis
    by (auto simp: ack_def Let_def w [symmetric] who_def [symmetric] split: if_splits sum.splits option.splits intro: that)
       (auto simp: who_def w split: option.splits intro: that)
qed


lemma acked_row_ok:
  assumes "row_ok m" "m_state m \<noteq> Closed" "intent \<in> {''yes'', ''no''} \<or> eta_minutes intent \<noteq> None"
  shows "row_ok (acked_row c a intent n m)"
proof -
  have "\<not> m_withdrawn m" "\<not> m_auto_closed m" "m_closed_at m = None" using assms(1,2) by (auto simp: row_ok_def)
  then show ?thesis using assms(3) by (auto simp: row_ok_def acked_row_def)
qed

lemma bare_row_ok: "row_ok m \<Longrightarrow> m_state m = Acked \<Longrightarrow> m_intent m = Some Yes \<Longrightarrow> row_ok (bare_row c m)"
  by (simp add: row_ok_def bare_row_def)

lemma confirmed_row_ok:
  assumes "row_ok m" "m_state m = (if withdraw then Open else Acked)"
  shows "row_ok (confirmed_row c withdraw m)"
proof (cases withdraw)
  case True
  then have "m_intent m \<in> {None, Some Eta}" "\<not> m_auto_closed m" using assms by (auto simp: row_ok_def)
  then show ?thesis using assms by (auto simp: row_ok_def confirmed_row_def)
next
  case False
  then have "\<not> m_auto_closed m" "\<not> m_withdrawn m" using assms by (auto simp: row_ok_def)
  then show ?thesis using assms False by (auto simp: row_ok_def confirmed_row_def)
qed

lemma traced_updates [simp]:
  "traced log (bare_row c m) = traced log m" "traced log (confirmed_row c w m) = traced log m"
  by (simp_all add: traced_def bare_row_def confirmed_row_def)

lemma new_message_ok: "row_ok (new_message c a s to body p k r fyi)" "traced log (new_message c a s to body p k r fyi)"
  by (simp_all add: row_ok_def traced_def new_message_def)

lemma close_saves:
  "close_bare_ack c i lane rows = (r, Some rows') \<Longrightarrow>
   \<exists>m. find_message i (load_ledger (c_now c) rows) = Inr m \<and> m_state m = Acked \<and> m_intent m = Some Yes
     \<and> rows' = update_row i (bare_row c) (load_ledger (c_now c) rows)"
  by (auto simp: close_bare_ack_def Let_def split: sum.splits if_splits)

lemma confirm_saves:
  "confirm c i withdraw senders rows = (r, Some rows') \<Longrightarrow>
   \<exists>m. find_message i (load_ledger (c_now c) rows) = Inr m \<and> m_state m = (if withdraw then Open else Acked)
     \<and> rows' = update_row i (confirmed_row c withdraw) (load_ledger (c_now c) rows)"
  by (auto simp: confirm_def Let_def split: sum.splits if_splits)

lemma marks_ok [simp]:
  "row_ok (m\<lparr>m_ack_seen := b\<rparr>) = row_ok m" "row_ok (m\<lparr>m_surfaced_at := t\<rparr>) = row_ok m"
  "traced log (m\<lparr>m_ack_seen := b\<rparr>) = traced log m" "traced log (m\<lparr>m_surfaced_at := t\<rparr>) = traced log m"
  by (simp_all add: row_ok_def traced_def)

lemma notice_row_ok: "row_ok m \<Longrightarrow> row_ok (snd (notice_row c m))" "traced log (snd (notice_row c m)) = traced log m"
  by (simp_all add: notice_row_def)

lemma notices_saves:
  "ledger_notices c rows = (ns, Some rows') \<Longrightarrow> rows' = map (\<lambda>m. snd (notice_row c m)) (load_ledger (c_now c) rows)"
  unfolding ledger_notices_def Let_def by (simp add: o_def split: if_splits)

lemma ledger_invariant: "ledger_reachable log rows \<Longrightarrow> ledger_ok log rows"
proof (induction rule: ledger_reachable.induct)
  case start
  then show ?case by (simp add: ledger_ok_def)
next
  case (sent log rows c dest body project limit source_key sender remote fyi r rows')
  from send_saves [OF sent(2)] load_ok [OF sent(3), of "c_now c"] show ?case
    by (auto simp: ledger_ok_def new_message_ok)
next
  case (dropped log rows c i u rows')
  from dropped(2) load_ok [OF dropped(3), of "c_now c"] show ?case by (auto simp: ledger_ok_def drop_message_def)
next
  case (acknowledged log rows c i intent why remote m rows' a stated)
  from acknowledged(2) show ?case
  proof (rule ack_saves)
    fix m0 n
    let ?who = "case remote of Some (a, _) \<Rightarrow> a | None \<Rightarrow> fst (acting c None)"
    assume s: "find_message i (load_ledger (c_now c) rows) = Inr m0" "m_state m0 \<noteq> Closed"
      "intent \<in> {''yes'', ''no''} \<or> eta_minutes intent \<noteq> None" "m = acked_row c ?who intent n m0"
      "rows' = update_row i (acked_row c ?who intent n) (load_ledger (c_now c) rows)"
    have ok: "ledger_ok ((a, i, stated) # log) (load_ledger (c_now c) rows)"
      by (rule ledger_ok_mono [OF load_ok [OF acknowledged(5)]]) auto
    have m0: "row_ok m0" "m_id m0 = i"
      using find_message_in [OF s(1)] load_ok [OF acknowledged(5), of "c_now c"] by (auto simp: ledger_ok_def)
    have "traced ((a, i, stated) # log) m" using acknowledged(3,4) m0(2) s(4) by (auto simp: traced_def acked_row_def)
    with acked_row_ok [OF m0(1) s(2,3)] show ?thesis unfolding s(5)
      using update_row_ok [OF ok s(1)] s(4) by blast
  qed
next
  case (settled log rows c i lane r rows')
  from close_saves [OF settled(2)] obtain m where m: "find_message i (load_ledger (c_now c) rows) = Inr m"
    "m_state m = Acked" "m_intent m = Some Yes" "rows' = update_row i (bare_row c) (load_ledger (c_now c) rows)" by blast
  note ok = load_ok [OF settled(3), of "c_now c"]
  then have "row_ok m" "traced log m" using find_message_in [OF m(1)] by (auto simp: ledger_ok_def)
  then show ?case unfolding m(4) using update_row_ok [OF ok m(1)] bare_row_ok m(2,3) by simp
next
  case (concluded log rows c i withdraw senders r rows')
  from confirm_saves [OF concluded(2)] obtain m where m: "find_message i (load_ledger (c_now c) rows) = Inr m"
    "m_state m = (if withdraw then Open else Acked)"
    "rows' = update_row i (confirmed_row c withdraw) (load_ledger (c_now c) rows)" by blast
  note ok = load_ok [OF concluded(3), of "c_now c"]
  then have "row_ok m" "traced log m" using find_message_in [OF m(1)] by (auto simp: ledger_ok_def)
  then show ?case unfolding m(3) using update_row_ok [OF ok m(1)] confirmed_row_ok [OF _ m(2)] by simp
next
  case (noticed log rows c ns rows')
  from notices_saves [OF noticed(2)] load_ok [OF noticed(3), of "c_now c"] show ?case
    by (auto simp: ledger_ok_def notice_row_ok)
qed


definition hc :: "string \<Rightarrow> int \<Rightarrow> hcall" where
  "hc sid now = \<lparr>c_host = sample_host sid, c_now = now, c_id = sid @ ''-msg'', c_seen = []\<rparr>"

definition sample_rows :: "message list" where
  "sample_rows = the (snd (send (hc ''alice'' 10) ''st:bob'' ''please hand over'' (Some ''proj'') 500 None None [] False []))"

definition answered_rows :: "message list" where
  "answered_rows = the (snd (ack (hc ''bob'' 20) ''alice-msg'' ''yes'' None None sample_rows))"

lemma request_reachable: "ledger_reachable [] sample_rows"
proof (rule sent [OF start])
  show "send (hc ''alice'' 10) ''st:bob'' ''please hand over'' (Some ''proj'') 500 None None [] False [] =
    (fst (send (hc ''alice'' 10) ''st:bob'' ''please hand over'' (Some ''proj'') 500 None None [] False []), Some sample_rows)"
    by code_simp
qed

definition answered_row :: message where
  "answered_row = hd answered_rows"

lemma answered_reachable: "ledger_reachable [(''st:bob'', ''alice-msg'', Yes)] answered_rows"
proof (rule acknowledged [OF request_reachable])
  show "ack (hc ''bob'' 20) ''alice-msg'' ''yes'' None None sample_rows = (Inr answered_row, Some answered_rows)"
    "m_acked_by answered_row = Some ''st:bob''" "m_intent answered_row = Some Yes" by code_simp+
qed


section \<open>Closed requests are final\<close>

lemma update_row_keeps: "find_message i rows = Inr n \<Longrightarrow> m \<in> set rows \<Longrightarrow> m \<noteq> n \<Longrightarrow> m \<in> set (update_row i f rows)"
  by (induction rows) (auto simp: find_message_def split: if_splits option.splits)

lemma closed_loaded: "m \<in> set rows \<Longrightarrow> m_state m = Closed \<Longrightarrow> current_row now m \<Longrightarrow> m \<in> set (load_ledger now rows)"
  by (force simp: load_ledger_def reopen_lapsed_eta_def lapsed_def)

text \<open>
  A closed request is final: whatever is sent, acknowledged, settled, confirmed, withdrawn
  or noticed afterwards, a closed row that has not outlived the ledger stays exactly as it is.
\<close>

theorem closed_requests_final:
  assumes "m \<in> set rows" "m_state m = Closed" "current_row (c_now c) m"
    and "send c dest body project limit source_key sender remote fyi rows = (r1, Some rows')
      \<or> ack c i intent why rem rows = (Inr r2, Some rows')
      \<or> close_bare_ack c i lane rows = (r3, Some rows')
      \<or> confirm c i withdraw senders rows = (r4, Some rows')
      \<or> ledger_notices c rows = (r5, Some rows')"
  shows "m \<in> set rows'"
proof -
  note l = closed_loaded [OF assms(1-3)]
  from assms(4) consider
    (sent) "send c dest body project limit source_key sender remote fyi rows = (r1, Some rows')"
    | (acked) "ack c i intent why rem rows = (Inr r2, Some rows')"
    | (closed) "close_bare_ack c i lane rows = (r3, Some rows')"
    | (confirmed) "confirm c i withdraw senders rows = (r4, Some rows')"
    | (noticed) "ledger_notices c rows = (r5, Some rows')" by blast
  then show ?thesis
  proof cases
    case sent
    with send_saves [OF sent] l show ?thesis by auto
  next
    case acked
    then show ?thesis
    proof (rule ack_saves)
      fix n k
      let ?who = "case rem of Some (a, _) \<Rightarrow> a | None \<Rightarrow> fst (acting c None)"
      assume n: "find_message i (load_ledger (c_now c) rows) = Inr n" "m_state n \<noteq> Closed"
        "rows' = update_row i (acked_row c ?who intent k) (load_ledger (c_now c) rows)"
      show ?thesis unfolding n(3) by (rule update_row_keeps [OF n(1) l]) (use n(2) assms(2) in auto)
    qed
  next
    case closed
    from close_saves [OF this] obtain n where n: "find_message i (load_ledger (c_now c) rows) = Inr n" "m_state n = Acked"
      "rows' = update_row i (bare_row c) (load_ledger (c_now c) rows)" by blast
    show ?thesis unfolding n(3) by (rule update_row_keeps [OF n(1) l]) (use n(2) assms(2) in auto)
  next
    case confirmed
    from confirm_saves [OF this] obtain n where n: "find_message i (load_ledger (c_now c) rows) = Inr n"
      "m_state n = (if withdraw then Open else Acked)"
      "rows' = update_row i (confirmed_row c withdraw) (load_ledger (c_now c) rows)" by blast
    show ?thesis unfolding n(3) by (rule update_row_keeps [OF n(1) l]) (use n(2) assms(2) in \<open>auto split: if_splits\<close>)
  next
    case noticed
    have "snd (notice_row c m) = m" using assms(2) by (simp add: notice_row_def)
    with l notices_saves [OF noticed] show ?thesis by force
  qed
qed

definition closed_rows :: "message list" where
  "closed_rows = the (snd (confirm (hc ''alice'' 30) ''alice-msg'' False None answered_rows))"

theorem closed_requests_final_witness:
  "hd closed_rows \<in> set (the (snd (send (hc ''alice'' 40) ''st:bob'' ''again'' None 500 None None [] False closed_rows)))"
proof (rule closed_requests_final [OF _ _ _ disjI1])
  show "hd closed_rows \<in> set closed_rows" "m_state (hd closed_rows) = Closed" "current_row (c_now (hc ''alice'' 40)) (hd closed_rows)"
    by code_simp+
  show "send (hc ''alice'' 40) ''st:bob'' ''again'' None 500 None None [] False closed_rows =
    (fst (send (hc ''alice'' 40) ''st:bob'' ''again'' None 500 None None [] False closed_rows),
     Some (the (snd (send (hc ''alice'' 40) ''st:bob'' ''again'' None 500 None None [] False closed_rows))))" by code_simp
qed

section \<open>Sending\<close>

text \<open>
  Sending is idempotent: after a request was recorded, sending the same request again
  while it is open and within the ledger's lifetime finds a recorded row and changes nothing.
\<close>

theorem resend_is_duplicate:
  assumes "send c dest body project limit source_key sender remote False rows = (Inr (m, False), Some rows')"
    and "acting c' sender = acting c sender" "c_now c' \<le> c_now c + LEDGER_TTL"
  shows "\<exists>m'. send c' dest body project limit source_key sender remote False rows' = (Inr (m', True), None)"
proof -
  obtain a s where act: "acting c sender = (a, s)" by (rule prod.exhaust)
  obtain flat where flat: "clean_text body (Some limit) = Inr flat"
    using assms(1) by (cases "clean_text body (Some limit)") (auto simp: send_def)
  have rows': "rows' = load_ledger (c_now c) rows @ [new_message c a s dest flat project source_key remote False]"
    using assms(1) by (auto simp: send_def flat act Let_def split: option.splits)
  let ?m = "new_message c a s dest flat project source_key remote False"
  have "current_row (c_now c') ?m" "\<not> lapsed (c_now c') ?m"
    using assms(3) by (simp_all add: current_row_def new_message_def lapsed_def)
  then have "?m \<in> set (load_ledger (c_now c') rows')" by (force simp: rows' load_ledger_def reopen_lapsed_eta_def)
  moreover have "repeats c' a dest flat source_key False ?m" by (simp add: repeats_def new_message_def)
  ultimately have "List.find (repeats c' a dest flat source_key False) (load_ledger (c_now c') rows') \<noteq> None"
    by (auto simp: find_None_iff)
  then show ?thesis using assms(2) by (auto simp: send_def flat act Let_def)
qed

theorem resend_is_duplicate_witness:
  "\<exists>m'. send (hc ''alice'' 15) ''st:bob'' ''please hand over'' (Some ''proj'') 500 None None [] False sample_rows = (Inr (m', True), None)"
proof (rule resend_is_duplicate)
  show "send (hc ''alice'' 10) ''st:bob'' ''please hand over'' (Some ''proj'') 500 None None [] False [] =
    (Inr (hd sample_rows, False), Some sample_rows)" by code_simp
  show "acting (hc ''alice'' 15) None = acting (hc ''alice'' 10) None" "c_now (hc ''alice'' 15) \<le> c_now (hc ''alice'' 10) + LEDGER_TTL"
    by code_simp+
qed

section \<open>The guard\<close>

lemma authorizingD:
  "authorizing c i l p rows \<Longrightarrow> \<exists>m\<in>set rows. m_id m = i \<and> m_from m \<in> set (my_ids c) \<and> m_intent m = Some Yes
     \<and> same_agent (c_host c) (m_acked_by m) (Some (l_agent l)) (l_anchor l) \<and> m_project m \<in> {None, Some p}
     \<and> (\<exists>t. m_acked_at m = Some t \<and> c_now c - t \<le> ACK_VALID_FOR)"
  by (induction rows) (auto split: if_splits option.splits)

lemma ack_authorizesD:
  assumes "ack_authorizes c i l p rows" "ledger_ok log rows"
  shows "\<exists>a. (a, i, Yes) \<in> set log \<and> same_agent (c_host c) (Some a) (Some (l_agent l)) (l_anchor l)
     \<and> (\<exists>m\<in>set rows. m_id m = i \<and> m_from m \<in> set (my_ids c) \<and> m_acked_by m = Some a \<and> \<not> m_withdrawn m
          \<and> m_project m \<in> {None, Some p} \<and> (\<exists>t. m_acked_at m = Some t \<and> c_now c - t \<le> ACK_VALID_FOR))"
proof -
  from authorizingD [OF assms(1) [unfolded ack_authorizes_def]] obtain n where
    n: "n \<in> set (load_ledger (c_now c) rows)" "m_id n = i" "m_from n \<in> set (my_ids c)" "m_intent n = Some Yes"
      "same_agent (c_host c) (m_acked_by n) (Some (l_agent l)) (l_anchor l)" "m_project n \<in> {None, Some p}"
      "\<exists>t. m_acked_at n = Some t \<and> c_now c - t \<le> ACK_VALID_FOR" by blast
  from load_ledgerD [OF n(1)] obtain m where m: "m \<in> set rows" "n = reopen_lapsed_eta (c_now c) m" by blast
  have "row_ok m" "traced log m" using assms(2) m(1) by (auto simp: ledger_ok_def)
  moreover have same: "m_project n = m_project m" "m_acked_at n = m_acked_at m" by (simp_all add: m(2) reopen_lapsed_eta_def)
  ultimately obtain a where "m_acked_by m = Some a" "(a, i, Yes) \<in> set log" "\<not> m_withdrawn m"
    using n(2,4) m(2) by (auto simp: traced_def row_ok_def)
  then show ?thesis using n m same by auto
qed

lemma on_project_commits:
  assumes "cas_documents request history BLANK_DOC" "map_of ch p = None"
    and "on_project request p f (ch, w) = (Inr (Some r), ch', w')"
  shows "\<exists>h. prefix (history w p) h \<and> committed BLANK_DOC f r h (history w' p)"
  using assms(3) cas_documents.change_commits [OF assms(1) _ assms(2), of f w r ch' w']
  by (auto simp: on_project_def split: if_splits sum.splits prod.splits)

lemma on_project_grows:
  assumes "cas_documents request history BLANK_DOC" "map_of ch p = None"
    and "on_project request p f (ch, w) = (r, ch', w')"
  shows "ch' = ch \<and> prefix (history w p) (history w' p)"
  using assms(3) cas_documents.change_grows [OF assms(1) _ assms(2), of f w _ ch' w' p]
  by (auto simp: on_project_def split: if_splits sum.splits prod.splits)

lemma list_active_committed:
  "committed blank (list_active c kinds) r h h' \<Longrightarrow> r = filter (\<lambda>l. l_kind l \<in> set kinds) (live_leases c (latest blank h))"
  by (auto simp: committed_def list_active_def Let_def split: if_splits)

lemma unanswered_Proceed: "unanswered operation e = Proceed \<Longrightarrow> operation = ''rebuild''"
  by (cases e) (auto simp: unanswered_def split: if_splits)

text \<open>What the guard knew when it let an operation proceed: contents the store really had.\<close>

lemma guard_reads_leases:
  assumes cas: "cas_documents request history BLANK_DOC" and ch: "map_of ch p = None" and op: "operation \<noteq> ''rebuild''"
    and g: "guard request c (Some (p, root)) operation with_ack command_ack coord (ch, w) = (Proceed, st)"
  shows "\<exists>rows h. coord = Inr rows \<and> prefix (history w p) h \<and>
    first_block c (or_else (nonempty with_ack) command_ack) p rows
      (filter (\<lambda>l. l_kind l \<in> set (guard_kinds operation)) (live_leases (call.truncate c) (latest BLANK_DOC h))) = None"
proof -
  obtain rows where rows: "coord = Inr rows"
    using g op unanswered_Proceed by (cases coord) (auto simp: guard_def)
  obtain x ch1 w1 where hb: "on_project request p (heartbeat (call.truncate c)) (ch, w) = (x, ch1, w1)"
    by (rule prod.exhaust) (metis prod.exhaust)
  note g1 = on_project_grows [OF cas ch hb]
  let ?f = "list_active (call.truncate c) (guard_kinds operation)"
  obtain y ch2 w2 where la: "on_project request p ?f (ch1, w1) = (y, ch2, w2)"
    by (rule prod.exhaust) (metis prod.exhaust)
  have "x \<noteq> Inr None" using g by (auto simp: guard_def rows hb)
  then have g2: "(case y of Inl e \<Rightarrow> unanswered operation e | Inr None \<Rightarrow> InvalidProject
      | Inr (Some active) \<Rightarrow> (case first_block c (or_else (nonempty with_ack) command_ack) p rows active of
            None \<Rightarrow> Proceed | Some l \<Rightarrow> Blocked l)) = Proceed"
    using g by (cases x; cases y) (auto simp: guard_def rows hb la split: option.splits)
  then obtain active where y: "y = Inr (Some active)" "first_block c (or_else (nonempty with_ack) command_ack) p rows active = None"
    using op unanswered_Proceed by (auto split: sum.splits option.splits)
  from on_project_commits [OF cas _ la [unfolded y(1)]] ch g1 obtain h where
    h: "prefix (history w1 p) h" "committed BLANK_DOC ?f active h (history w2 p)" by auto
  from list_active_committed [OF h(2)] y(2) rows prefix_order.trans [OF conjunct2 [OF g1] h(1)] show ?thesis by blast
qed

text \<open>
  The holder of a lease agreed to the request \<open>with_ack\<close> names: an identity of the holder answered
  yes to it, it is the caller's own, was not withdrawn, is for this project or for any, and the
  answer is at most two hours old.
\<close>

definition agreed :: "ack_log \<Rightarrow> hcall \<Rightarrow> string \<Rightarrow> message list \<Rightarrow> string option \<Rightarrow> lease \<Rightarrow> bool" where
  "agreed log c p rows with_ack l \<longleftrightarrow>
     (\<exists>i a. with_ack = Some i \<and> (a, i, Yes) \<in> set log \<and> same_agent (c_host c) (Some a) (Some (l_agent l)) (l_anchor l)
        \<and> (\<exists>m\<in>set rows. m_id m = i \<and> m_from m \<in> set (my_ids c) \<and> m_acked_by m = Some a \<and> \<not> m_withdrawn m
             \<and> m_project m \<in> {None, Some p} \<and> (\<exists>t. m_acked_at m = Some t \<and> c_now c - t \<le> ACK_VALID_FOR)))"

lemma nonempty_Some: "nonempty x = Some i \<Longrightarrow> x = Some i"
  by (auto simp: nonempty_def split: option.splits list.splits)

lemma first_block_None:
  assumes "first_block c x p rows ls = None" "l \<in> set ls" "ledger_ok log rows"
  shows "passed_over c l \<or> l_kind l \<noteq> ''op'' \<and> agreed log c p rows x l"
  using assms(1,2)
proof (induction ls)
  case (Cons k ks)
  show ?case
  proof (cases "l = k \<and> \<not> passed_over c l")
    case True
    with Cons.prems(1) obtain i where i: "nonempty x = Some i" "ack_authorizes c i l p rows" "l_kind l \<noteq> ''op''"
      by (auto split: if_splits option.splits)
    with ack_authorizesD [OF i(2) assms(3)] show ?thesis by (auto simp: agreed_def dest!: nonempty_Some)
  next
    case False
    with Cons show ?thesis by (auto split: if_splits)
  qed
qed simp


text \<open>The witness: bob holds the repository; alice's commit is refused, and proceeds with bob's yes.\<close>

definition hold_doc :: doc where
  "hold_doc = saved_by BLANK_DOC (acquire_mark (sample_call ''bob'' 15) ''/r'' ''hold'' ''integration'' BLANK_DOC)"

definition bob_hold :: lease where
  "bob_hold = hd (load_leases hold_doc)"

definition hold_service :: "doc service" where
  "hold_service = ([(coord_path ''proj'', [hold_doc])], [])"

definition alice_commits :: "string option \<Rightarrow> guard_outcome" where
  "alice_commits with_ack =
     fst (guard (service_request BLANK_DOC) (hc ''alice'' 30) (Some (''proj'', ''/r'')) ''commit'' with_ack None
            (Inr answered_rows) ([], hold_service))"


end
