(* ===== verification/CoordHook.thy ===== *)
theory CoordHook
  imports Lineage HandshakeFacts
begin

text \<open>
  The harness hooks of \<open>backend/cli/lib/coord.py\<close>: which paths an edit names, the identity an
  event carries, the pass that refuses an edit while an operation runs, the claims the other
  edits make, and the attribution of what a shell command wrote.

  Git, the file system and the password database are the record \<open>checkout_env\<close>; the lease
  documents of all projects are a function, and \<open>ck_reach\<close> says for which of them the store
  answers during the hook (a project id the store refuses does not answer); \<open>_coord\<close> is taken to
  answer. \<open>ck_uid\<close> supplies the ids of new leases.
\<close>

record checkout_env =
  ck_expand :: "string \<Rightarrow> string option"
  ck_project :: "string \<Rightarrow> (string \<times> string) option"
  ck_real :: "string \<Rightarrow> string"
  ck_ignored :: "string \<Rightarrow> string \<Rightarrow> bool"
  ck_reach :: "string \<Rightarrow> bool"
  ck_uid :: "nat \<Rightarrow> string"

type_synonym docs = "string \<Rightarrow> doc"

record hook_world =
  hw_docs :: docs
  hw_coord :: coord_doc

section \<open>The paths of an edit\<close>

text \<open>\<open>_PATCH_FILE\<close>: its two alternatives match whole lines.\<close>

definition after_prefix :: "string \<Rightarrow> string \<Rightarrow> string option" where
  "after_prefix p s = (if startswith s p \<and> length s > length p then Some (drop (length p) s) else None)"

definition patch_line :: "string \<Rightarrow> string option" where
  "patch_line line =
     first_some (\<lambda>p. after_prefix p line)
       [''*** Add File: '', ''*** Update File: '', ''*** Delete File: '', ''*** Move to: '']"

definition patch_files :: "string \<Rightarrow> string list" where
  "patch_files s = List.map_filter patch_line (split_on NL s)"

definition string_values :: "json list \<Rightarrow> string list" where
  "string_values js = List.map_filter (\<lambda>j. case j of JStr s \<Rightarrow> Some s | _ \<Rightarrow> None) js"

definition hook_paths :: "dict \<Rightarrow> string list" where
  "hook_paths payload =
     (let cwd = (if truth (get payload ''cwd'') then json_str (get payload ''cwd'') else ''.'');
          found = (case get payload ''tool_input'' of
                     JObj d \<Rightarrow>
                       (let named = filter (\<lambda>s. s \<noteq> []) (string_values (map (get d) [''file_path'', ''notebook_path'', ''path'']))
                        in if named \<noteq> [] then named else concat (map patch_files (string_values (map snd d))))
                   | JStr s \<Rightarrow> patch_files s
                   | _ \<Rightarrow> []);
          stripped = filter (\<lambda>p. p \<noteq> []) (map strip found)
      in map (\<lambda>p. if startswith p ''/'' then p else pure_path (path_join (pure_path cwd) p)) stripped)"

section \<open>The event's identity\<close>

definition IDENTITY_ENV :: "string list" where
  "IDENTITY_ENV = [''CLAUDE_SESSION_ID'', ''CLAUDE_CODE_SESSION_ID'', ''CODEX_SESSION_ID'', ''CODEX_THREAD_ID'',
                   ''PI_SESSION_ID'', ''ANTIGRAVITY_CONVERSATION_ID'']"

definition SESSION_ENV :: "(string \<times> string) list" where
  "SESSION_ENV = [(''claude_code'', ''CLAUDE_CODE_SESSION_ID''), (''codex'', ''CODEX_THREAD_ID''),
                  (''pi'', ''PI_SESSION_ID''), (''antigravity'', ''ANTIGRAVITY_CONVERSATION_ID'')]"

definition text_of :: "json \<Rightarrow> string" where
  "text_of j = (if truth j then json_str j else [])"

definition event_provider :: "dict \<Rightarrow> host \<Rightarrow> string" where
  "event_provider payload h =
     (case snd (harness h) of
        Some p \<Rightarrow> p
      | None \<Rightarrow>
          if get payload ''tool_name'' = JStr ''apply_patch'' \<or> contains (text_of (get payload ''transcript_path'')) ''/.codex/''
          then ''codex'' else ''claude_code'')"

definition adopt_hook_identity :: "dict \<Rightarrow> host \<Rightarrow> host" where
  "adopt_hook_identity payload h =
     (let sid0 = (case text_of (get payload ''session_id'') of [] \<Rightarrow> text_of (get payload ''conversationId'') | s \<Rightarrow> s);
          st_sid = (case map_of (h_env h) ''ST_SESSION_ID'' of Some s \<Rightarrow> s | None \<Rightarrow> []);
          provider = event_provider payload h;
          sid = (if provider = ''codex'' \<and> truth (get payload ''agent_id'') then json_str (get payload ''agent_id'') else sid0);
          key = (case map_of SESSION_ENV provider of Some k \<Rightarrow> k | None \<Rightarrow> ''CLAUDE_CODE_SESSION_ID'')
      in if sid0 = [] \<or> (st_sid \<noteq> [] \<and> \<not> startswith st_sid ROOT_HANDLE_PREFIX) then h
         else h\<lparr>h_env := dict_set key sid (filter (\<lambda>(k, _). k \<notin> set IDENTITY_ENV) (h_env h))\<rparr>)"

section \<open>Notices\<close>

datatype hook_line = ResetLine reset_line | NoteLine peer_note | LedgerLine notice

text \<open>\<open>notices\<close>: the registry is observed first, then the peer notes are popped, then the ledger is read.\<close>

definition notices :: "hcall \<Rightarrow> (string \<times> lease list) list \<Rightarrow> coord_doc \<Rightarrow> hook_line list \<times> coord_doc" where
  "notices c active d =
     (let seen = observe (call.truncate c) active False False True d;
          d1 = kept d seen;
          c1 = c\<lparr>c_host := seen_host (c_host c) d1\<rparr>;
          popped = pop_notes (c_now c) (\<lambda>to. case acting c None of (a, s) \<Rightarrow> addresses (c_host c1) to a s) d1;
          d2 = kept d1 popped;
          found = ledger_notices c1 (cd_messages d2)
      in (map ResetLine (fst seen) @ map NoteLine (fst popped) @ map LedgerLine (fst found),
          case snd found of Some rows \<Rightarrow> d2\<lparr>cd_messages := rows\<rparr> | None \<Rightarrow> d2))"

section \<open>The edit hook\<close>

datatype hook_result = HookBlocked lease "hook_line list" | HookWarned "lease list"

text \<open>Where an edit goes: project, root and real path. A path without a checkout, a home directory
  or an answering store is passed over.\<close>

definition edit_target :: "checkout_env \<Rightarrow> string \<Rightarrow> (string \<times> string \<times> string) option" where
  "edit_target ck path =
     (case ck_expand ck path of
        None \<Rightarrow> None
      | Some t \<Rightarrow>
          (case ck_project ck t of
             None \<Rightarrow> None
           | Some (project_id, root) \<Rightarrow> if ck_reach ck project_id then Some (project_id, root, ck_real ck t) else None))"

text \<open>The first pass: a live operation that one of the edits would invalidate.\<close>

fun blocking_op :: "checkout_env \<Rightarrow> call \<Rightarrow> string list \<Rightarrow> docs \<Rightarrow> lease option \<times> docs" where
  "blocking_op ck c [] ds = (None, ds)"
| "blocking_op ck c (path # paths) ds =
     (case edit_target ck path of
        None \<Rightarrow> blocking_op ck c paths ds
      | Some (project_id, root, real) \<Rightarrow>
          (let ob = op_block c (ck_ignored ck root) real (ds project_id); ds' = ds(project_id := snd ob)
           in case fst ob of Some m \<Rightarrow> (Some m, ds') | None \<Rightarrow> blocking_op ck c paths ds'))"

text \<open>The second pass: claim every path.\<close>

fun claim_paths :: "checkout_env \<Rightarrow> call \<Rightarrow> nat \<Rightarrow> string list \<Rightarrow> docs \<Rightarrow> lease list \<times> docs" where
  "claim_paths ck c n [] ds = ([], ds)"
| "claim_paths ck c n (path # paths) ds =
     (case edit_target ck path of
        None \<Rightarrow> claim_paths ck c (Suc n) paths ds
      | Some (project_id, root, real) \<Rightarrow>
          (let ce = claim_edit (c\<lparr>c_id := ck_uid ck n\<rparr>) (ck_ignored ck root) False root real (ds project_id);
               later = claim_paths ck c (Suc n) paths (ds(project_id := snd ce))
           in ((case fst ce of Some (EditWarned l) \<Rightarrow> [l] | Some (EditBlocked l) \<Rightarrow> [l] | None \<Rightarrow> []) @ fst later, snd later)))"

text \<open>The call as the hook makes it: under the event's identity, after the registry was observed.\<close>

definition hook_coord :: "hcall \<Rightarrow> (string \<times> lease list) list \<Rightarrow> dict \<Rightarrow> coord_doc \<Rightarrow> coord_doc" where
  "hook_coord c active payload d =
     kept d (observe ((call.truncate c)\<lparr>c_host := adopt_hook_identity payload (c_host c)\<rparr>) active False False False d)"

definition hook_call :: "hcall \<Rightarrow> (string \<times> lease list) list \<Rightarrow> dict \<Rightarrow> coord_doc \<Rightarrow> hcall" where
  "hook_call c active payload d =
     c\<lparr>c_host := seen_host (adopt_hook_identity payload (c_host c)) (hook_coord c active payload d)\<rparr>"

definition run_hook :: "checkout_env \<Rightarrow> hcall \<Rightarrow> (string \<times> lease list) list \<Rightarrow> dict \<Rightarrow> hook_world \<Rightarrow> hook_result \<times> hook_world" where
  "run_hook ck c active payload w =
     (let d = hook_coord c active payload (hw_coord w);
          c' = hook_call c active payload (hw_coord w);
          paths = hook_paths payload;
          first = blocking_op ck (call.truncate c') paths (hw_docs w)
      in case fst first of
           Some m \<Rightarrow>
             (let ns = notices c' active d in (HookBlocked m (fst ns), \<lparr>hw_docs = snd first, hw_coord = snd ns\<rparr>))
         | None \<Rightarrow>
             (let second = claim_paths ck (call.truncate c') 0 paths (snd first)
              in (HookWarned (fst second), \<lparr>hw_docs = snd second, hw_coord = d\<rparr>)))"

section \<open>What a shell command wrote\<close>

datatype hook_fault = NoHome | StoreDown

definition project_for_path :: "checkout_env \<Rightarrow> string \<Rightarrow> (hook_fault, (string \<times> string) option) result" where
  "project_for_path ck path = (case ck_expand ck path of None \<Rightarrow> Inl NoHome | Some t \<Rightarrow> Inr (ck_project ck t))"

text \<open>\<open>groups.setdefault(key, ...)[1].append(...)\<close>: paths by project and reason, in order of first sight.\<close>

type_synonym write_groups = "((string \<times> string option) \<times> string \<times> string list) list"

fun add_writes :: "checkout_env \<Rightarrow> string option \<Rightarrow> string list \<Rightarrow> write_groups \<Rightarrow> (hook_fault, write_groups) result" where
  "add_writes ck reason [] groups = Inr groups"
| "add_writes ck reason (path # paths) groups =
     (case project_for_path ck path of
        Inl e \<Rightarrow> Inl e
      | Inr None \<Rightarrow> add_writes ck reason paths groups
      | Inr (Some (project_id, root)) \<Rightarrow>
          add_writes ck reason paths
            (case map_of groups (project_id, reason) of
               Some (root', ps) \<Rightarrow> dict_set (project_id, reason) (root', ps @ [ck_real ck path]) groups
             | None \<Rightarrow> dict_set (project_id, reason) (root, [ck_real ck path]) groups))"

definition OTHER_REPO :: string where "OTHER_REPO = ''other-repo''"

definition own_reason :: "bool \<Rightarrow> bool \<Rightarrow> string option" where
  "own_reason background concurrent = (if background then Some ''background'' else if concurrent then Some ''concurrent'' else None)"

fun record_groups ::
  "checkout_env \<Rightarrow> call \<Rightarrow> int \<Rightarrow> string list option \<Rightarrow> string list \<Rightarrow> write_groups \<Rightarrow> docs \<Rightarrow> (hook_fault, unit) result \<times> docs" where
  "record_groups ck c since dirty pruned [] ds = (Inr (), ds)"
| "record_groups ck c since dirty pruned (((project_id, reason), root, paths) # groups) ds =
     (if \<not> ck_reach ck project_id then (Inl StoreDown, ds)
      else let prune = (dirty \<noteq> None \<and> reason \<noteq> Some OTHER_REPO \<and> project_id \<notin> set pruned);
               written = record_writes c paths (Some since) reason (if prune then dirty else None)
                           (if prune then Some (ck_real ck root) else None) (ds project_id)
           in record_groups ck c since dirty (if prune then project_id # pruned else pruned) groups
                (ds(project_id := saved_by (ds project_id) written)))"

definition record_shell_writes ::
  "checkout_env \<Rightarrow> call \<Rightarrow> string list \<Rightarrow> int \<Rightarrow> string list \<Rightarrow> bool \<Rightarrow> bool \<Rightarrow> string list option \<Rightarrow> docs
   \<Rightarrow> (hook_fault, unit) result \<times> docs" where
  "record_shell_writes ck c written since other background concurrent dirty ds =
     (case add_writes ck (own_reason background concurrent) written [] of
        Inl e \<Rightarrow> (Inl e, ds)
      | Inr groups \<Rightarrow>
          (case add_writes ck (Some OTHER_REPO) other groups of
             Inl e \<Rightarrow> (Inl e, ds)
           | Inr groups' \<Rightarrow> record_groups ck c since (map_option (map (ck_real ck)) dirty) [] groups' ds))"

text \<open>A path another agent leased before the command started, and did not touch since.\<close>

definition overlapped :: "call \<Rightarrow> int \<Rightarrow> string list \<Rightarrow> lease \<Rightarrow> bool" where
  "overlapped c since written l =
     (\<not> own_session_lease c l \<and> (case l_heartbeat l of Some t \<Rightarrow> t < since | None \<Rightarrow> False) \<and> list_ex (matches l) written)"

fun by_repo :: "checkout_env \<Rightarrow> string list \<Rightarrow> (string \<times> string list) list \<Rightarrow> (hook_fault, (string \<times> string list) list) result" where
  "by_repo ck [] groups = Inr groups"
| "by_repo ck (path # paths) groups =
     (case project_for_path ck path of
        Inl e \<Rightarrow> Inl e
      | Inr None \<Rightarrow> by_repo ck paths groups
      | Inr (Some (project_id, _)) \<Rightarrow>
          by_repo ck paths
            (dict_set project_id ((case map_of groups project_id of Some ps \<Rightarrow> ps | None \<Rightarrow> []) @ [ck_real ck path]) groups))"

fun first_overlap ::
  "checkout_env \<Rightarrow> call \<Rightarrow> int \<Rightarrow> (string \<times> string list) list \<Rightarrow> docs \<Rightarrow> (hook_fault, (string \<times> lease) option) result \<times> docs" where
  "first_overlap ck c since [] ds = (Inr None, ds)"
| "first_overlap ck c since ((project_id, written) # groups) ds =
     (if \<not> ck_reach ck project_id then (Inl StoreDown, ds)
      else let active = list_active c [''file''] (ds project_id);
               ds' = ds(project_id := saved_by (ds project_id) active)
           in case List.find (overlapped c since written) (fst active) of
                Some l \<Rightarrow> (Inr (Some (project_id, l)), ds')
              | None \<Rightarrow> first_overlap ck c since groups ds')"

definition shell_write_warning ::
  "checkout_env \<Rightarrow> call \<Rightarrow> string list \<Rightarrow> int \<Rightarrow> docs \<Rightarrow> (hook_fault, (string \<times> lease) option) result \<times> docs" where
  "shell_write_warning ck c paths since ds =
     (case by_repo ck paths [] of Inl e \<Rightarrow> (Inl e, ds) | Inr groups \<Rightarrow> first_overlap ck c since groups ds)"

section \<open>Reading does not change what is live\<close>

definition docs_ok :: "docs \<Rightarrow> bool" where
  "docs_ok ds \<longleftrightarrow> (\<forall>p. doc_ok (ds p))"

text \<open>Two documents show the same leases and writers to a call.\<close>

definition same_view :: "call \<Rightarrow> doc \<Rightarrow> doc \<Rightarrow> bool" where
  "same_view c d d' \<longleftrightarrow> live_leases c d' = live_leases c d \<and> load_writers (c_now c) d' = load_writers (c_now c) d \<and> (doc_ok d \<longrightarrow> doc_ok d')"

lemma same_view_refl [simp]: "same_view c d d"
  by (simp add: same_view_def)

lemma same_view_trans: "same_view c d d' \<Longrightarrow> same_view c d' d'' \<Longrightarrow> same_view c d d''"
  by (auto simp: same_view_def)

lemma doc_ok_saved: "good_writers (case ws of Some w \<Rightarrow> w | None \<Rightarrow> load_writers (c_now c) d) \<Longrightarrow> doc_ok (saved c d ls ws)"
  by (auto simp: doc_ok_def saved_def good_writers_def comp_def case_prod_unfold)

lemma live_leases_saved_live [simp]: "live_leases c (saved c d (live_leases c d) ws) = live_leases c d"
  by (simp add: live_leases_def purge_stale_def)

lemma load_writers_kept:
  assumes "doc_ok d"
  shows "load_writers now (saved c d ls None) = load_writers (c_now c) d"
proof -
  have "saved c d ls None = saved c d ls (Some (load_writers (c_now c) d))" by (simp add: saved_def)
  then show ?thesis using load_writers_saved [OF load_writers_good [OF assms]] by simp
qed

lemma repo_marks_view:
  assumes "doc_ok d"
  shows "same_view c d (saved_by d (repo_marks c d))"
  using assms load_writers_kept [OF assms] load_writers_good [OF assms]
  by (auto simp: same_view_def repo_marks_def list_active_def Let_def intro!: doc_ok_saved)

lemma op_block_view: "doc_ok d \<Longrightarrow> same_view c d (snd (op_block c ignored real d))"
  using repo_marks_view by (simp add: op_block_def Let_def)

text \<open>The operation that stands against an edit.\<close>

definition op_against :: "call \<Rightarrow> (string \<Rightarrow> bool) \<Rightarrow> string \<Rightarrow> doc \<Rightarrow> lease option" where
  "op_against c ignored real d = (if ignored real then None else List.find (\<lambda>l. l_kind l = ''op'') (live_leases c d))"

lemma find_filter_hd: "List.find P xs = (case filter P xs of [] \<Rightarrow> None | x # _ \<Rightarrow> Some x)"
  by (induction xs) auto

lemma op_block_answer: "fst (op_block c ignored real d) = op_against c ignored real d"
proof -
  have "filter (\<lambda>l. l_kind l = ''op'') (filter (\<lambda>l. l_kind l \<in> set [''hold'', ''op'']) (live_leases c d))
      = filter (\<lambda>l. l_kind l = ''op'') (live_leases c d)"
    by (induction "live_leases c d") (auto simp: filter_filter intro: filter_cong)
  then show ?thesis
    by (auto simp: op_block_def op_against_def repo_marks_def list_active_def Let_def find_filter_hd split: list.splits)
qed

lemma op_against_view: "same_view c d d' \<Longrightarrow> op_against c ignored real d' = op_against c ignored real d"
  by (simp add: same_view_def op_against_def)

section \<open>The first pass\<close>

definition edit_op :: "checkout_env \<Rightarrow> call \<Rightarrow> docs \<Rightarrow> string \<Rightarrow> lease option" where
  "edit_op ck c ds path =
     (case edit_target ck path of
        None \<Rightarrow> None
      | Some (project_id, root, real) \<Rightarrow> op_against c (ck_ignored ck root) real (ds project_id))"

lemma edit_op_view: "\<forall>p. same_view c (ds p) (ds' p) \<Longrightarrow> edit_op ck c ds' path = edit_op ck c ds path"
  using op_against_view by (auto simp: edit_op_def split: option.splits)

text \<open>The pass finds the first operation that stands against one of the edits, and changes nothing that anyone sees.\<close>

lemma blocking_op_spec:
  assumes "docs_ok ds"
  shows "fst (blocking_op ck c paths ds) = first_some (edit_op ck c ds) paths"
    "\<forall>p. same_view c (ds p) (snd (blocking_op ck c paths ds) p)"
proof -
  have "fst (blocking_op ck c paths ds) = first_some (edit_op ck c ds) paths
      \<and> (\<forall>p. same_view c (ds p) (snd (blocking_op ck c paths ds) p))"
    using assms
  proof (induction paths arbitrary: ds)
    case (Cons path paths)
    show ?case
    proof (cases "edit_target ck path")
      case None
      then show ?thesis using Cons.IH [OF Cons.prems] by (simp add: edit_op_def)
    next
      case (Some t)
      obtain pid root real where t: "edit_target ck path = Some (pid, root, real)" using Some by (cases t) auto
      let ?ob = "op_block c (ck_ignored ck root) real (ds pid)" and ?op = "op_against c (ck_ignored ck root) real (ds pid)"
      define next_ds where "next_ds = ds(pid := snd ?ob)"
      have "same_view c (ds pid) (snd ?ob)" using op_block_view Cons.prems by (simp add: docs_ok_def)
      then have view: "\<forall>p. same_view c (ds p) (next_ds p)" by (simp add: next_ds_def)
      then have ok: "docs_ok next_ds" using Cons.prems unfolding docs_ok_def same_view_def by blast
      have eo: "edit_op ck c ds path = ?op" by (simp add: edit_op_def t)
      have same: "edit_op ck c next_ds = edit_op ck c ds" using edit_op_view [OF view] by blast
      show ?thesis
      proof (cases ?op)
        case None
        then have b: "blocking_op ck c (path # paths) ds = blocking_op ck c paths next_ds"
          by (simp add: t op_block_answer Let_def next_ds_def)
        have "\<forall>p. same_view c (ds p) (snd (blocking_op ck c paths next_ds) p)"
          using view Cons.IH [OF ok] same_view_trans by blast
        then show ?thesis unfolding b using Cons.IH [OF ok] eo None same by simp
      next
        case (Some m)
        then have b: "blocking_op ck c (path # paths) ds = (Some m, next_ds)" by (simp add: t op_block_answer Let_def next_ds_def)
        show ?thesis unfolding b using eo Some view by simp
      qed
    qed
  qed simp
  then show "fst (blocking_op ck c paths ds) = first_some (edit_op ck c ds) paths"
    "\<forall>p. same_view c (ds p) (snd (blocking_op ck c paths ds) p)" by blast+
qed

section \<open>The second pass\<close>

text \<open>The caller holds a fresh lease that covers the path, and is one of its writers.\<close>

definition leased :: "call \<Rightarrow> string \<Rightarrow> doc \<Rightarrow> bool" where
  "leased c p d \<longleftrightarrow> (\<exists>m\<in>set (load_leases d). l_kind m = ''file'' \<and> own_lease c m \<and> matches m p \<and> l_heartbeat m = Some (c_now c))"

definition credited :: "call \<Rightarrow> string \<Rightarrow> doc \<Rightarrow> bool" where
  "credited c p d \<longleftrightarrow> (\<exists>e\<in>set (entries_at (load_writers (c_now c) d) p). w_agent e = Some (root_key (c_host c)))"

lemma fresh_not_stale: "l_kind m \<noteq> ''op'' \<Longrightarrow> l_heartbeat m = Some (c_now c) \<Longrightarrow> \<not> is_stale procs (c_now c) m"
  by (simp add: is_stale_def DEFAULT_IDLE_TTL_def)

lemma leased_live:
  assumes "leased c p d"
  shows "\<exists>m\<in>set (live_leases c d). l_kind m = ''file'' \<and> own_lease c m \<and> matches m p \<and> l_heartbeat m = Some (c_now c)"
proof -
  from assms obtain m where
    m: "m \<in> set (load_leases d)" "l_kind m = ''file'' \<and> own_lease c m \<and> matches m p \<and> l_heartbeat m = Some (c_now c)"
    unfolding leased_def by blast
  then have "\<not> is_stale (h_procs (c_host c)) (c_now c) m" by (intro fresh_not_stale) simp_all
  then have "m \<in> set (live_leases c d)" using m(1) by (simp add: live_leases_def purge_stale_def)
  with m(2) show ?thesis by blast
qed

lemma heartbeat_keeps:
  assumes "doc_ok d"
  shows "leased c p d \<Longrightarrow> leased c p (saved_by d (heartbeat c d))"
    "credited c p d \<Longrightarrow> credited c p (saved_by d (heartbeat c d))" "doc_ok (saved_by d (heartbeat c d))"
proof -
  let ?beat = "map (\<lambda>l. if own_lease c l then l\<lparr>l_heartbeat := Some (c_now c)\<rparr> else l) (live_leases c d)"
  have hb: "saved_by d (heartbeat c d) = saved c d ?beat None" by (simp add: heartbeat_def Let_def)
  show "doc_ok (saved_by d (heartbeat c d))" unfolding hb using load_writers_good [OF assms] by (intro doc_ok_saved) simp
  show "credited c p d \<Longrightarrow> credited c p (saved_by d (heartbeat c d))"
    unfolding hb credited_def load_writers_kept [OF assms] .
  assume "leased c p d"
  from leased_live [OF this] obtain m where
    m: "m \<in> set (live_leases c d)" "l_kind m = ''file''" "own_lease c m" "matches m p" "l_heartbeat m = Some (c_now c)" by blast
  have "m\<lparr>l_heartbeat := Some (c_now c)\<rparr> = m" using m(5) by (cases m) simp
  then have "m \<in> set ?beat" unfolding set_map using m(1,3) by (intro image_eqI [of _ _ m]) simp_all
  with m(2-5) show "leased c p (saved_by d (heartbeat c d))" unfolding hb leased_def load_leases_saved by blast
qed

lemma claim_marks:
  assumes "project_path path root = p" "list_all plain_char p" "root_key (c_host c) \<noteq> []" "doc_ok d"
  shows "leased c p (saved_by d (claim c path root d))" "credited c p (saved_by d (claim c path root d))"
    "doc_ok (saved_by d (claim c path root d))"
    "leased c q d \<Longrightarrow> leased c q (saved_by d (claim c path root d))"
    "credited c q d \<Longrightarrow> credited c q (saved_by d (claim c path root d))"
proof -
  obtain ls e where cl: "snd (claim c path root d) = Some (saved c d ls (Some (add_writer p e (load_writers (c_now c) d))))"
    and e: "w_agent e = Some (root_key (c_host c))" "has_agent e"
    and ls: "\<exists>m\<in>set ls. l_kind m = ''file'' \<and> own_lease c m \<and> matches m p \<and> l_heartbeat m = Some (c_now c)"
      "\<forall>m\<in>set (live_leases c d). l_heartbeat m = Some (c_now c) \<longrightarrow> m \<in> set ls"
    by (rule claim_leaves_mark [OF assms(1-3)])
  have d': "saved_by d (claim c path root d) = saved c d ls (Some (add_writer p e (load_writers (c_now c) d)))"
    by (simp add: saved_by_def cl)
  have good: "good_writers (add_writer p e (load_writers (c_now c) d))"
    by (rule good_add_writer [OF load_writers_good [OF assms(4)] e(2)])
  note wr = load_writers_saved [OF good, of "c_now c" c d]
  show "leased c p (saved_by d (claim c path root d))" unfolding d' leased_def load_leases_saved by (rule ls(1))
  show "credited c p (saved_by d (claim c path root d))" unfolding d' credited_def wr using e(1) by simp
  show "doc_ok (saved_by d (claim c path root d))" unfolding d' using good by (intro doc_ok_saved) simp
  show "leased c q d \<Longrightarrow> leased c q (saved_by d (claim c path root d))"
    using leased_live [of c q d] ls(2) unfolding d' leased_def load_leases_saved by blast
  show "credited c q d \<Longrightarrow> credited c q (saved_by d (claim c path root d))"
    unfolding d' credited_def wr using e(1) by auto
qed

lemma call_id_irrelevant [simp]:
  "leased (c\<lparr>c_id := i\<rparr>) p d = leased c p d" "credited (c\<lparr>c_id := i\<rparr>) p d = credited c p d"
  by (simp_all add: leased_def credited_def own_lease_def)

lemma claim_edit_doc:
  "snd (claim_edit c ignored False root real d) =
     saved_by (saved_by d (claim c real (Some root) d)) (heartbeat c (saved_by d (claim c real (Some root) d)))"
  by (simp add: claim_edit_def Let_def)

lemma claim_edit_marks:
  assumes "list_all plain_char (project_path real (Some root))" "root_key (c_host c) \<noteq> []" "doc_ok d"
  shows "leased c (project_path real (Some root)) (snd (claim_edit c ignored False root real d))"
    "credited c (project_path real (Some root)) (snd (claim_edit c ignored False root real d))"
    "doc_ok (snd (claim_edit c ignored False root real d))"
    "leased c q d \<Longrightarrow> leased c q (snd (claim_edit c ignored False root real d))"
    "credited c q d \<Longrightarrow> credited c q (snd (claim_edit c ignored False root real d))"
  unfolding claim_edit_doc
  using claim_marks [OF refl assms] heartbeat_keeps [OF claim_marks(3) [OF refl assms]] by blast+

definition marked :: "call \<Rightarrow> string \<Rightarrow> doc \<Rightarrow> bool" where
  "marked c p d \<longleftrightarrow> leased c p d \<and> credited c p d"

definition plain_edits :: "checkout_env \<Rightarrow> string list \<Rightarrow> bool" where
  "plain_edits ck paths \<longleftrightarrow>
     (\<forall>path\<in>set paths. case edit_target ck path of
        None \<Rightarrow> True | Some (_, root, real) \<Rightarrow> list_all plain_char (project_path real (Some root)))"

definition claimed :: "checkout_env \<Rightarrow> call \<Rightarrow> docs \<Rightarrow> string \<Rightarrow> bool" where
  "claimed ck c ds path \<longleftrightarrow>
     (case edit_target ck path of
        None \<Rightarrow> True | Some (pid, root, real) \<Rightarrow> marked c (project_path real (Some root)) (ds pid))"

lemma claimed_mono: "\<forall>pid q. marked c q (ds pid) \<longrightarrow> marked c q (ds' pid) \<Longrightarrow> claimed ck c ds path \<Longrightarrow> claimed ck c ds' path"
  by (auto simp: claimed_def split: option.splits)

text \<open>Every path of the pass whose checkout is known ends up marked, and marks made before are kept.\<close>

lemma claim_paths_marks:
  assumes "docs_ok ds" "root_key (c_host c) \<noteq> []" "plain_edits ck paths"
  shows "(\<forall>pid q. marked c q (ds pid) \<longrightarrow> marked c q (snd (claim_paths ck c n paths ds) pid))
    \<and> (\<forall>path\<in>set paths. claimed ck c (snd (claim_paths ck c n paths ds)) path)"
  using assms
proof (induction paths arbitrary: ds n)
  case (Cons path paths)
  have rest: "plain_edits ck paths" using Cons.prems(3) by (simp add: plain_edits_def)
  show ?case
  proof (cases "edit_target ck path")
    case None
    then have "claimed ck c ds' path" for ds' by (simp add: claimed_def)
    then show ?thesis using Cons.IH [OF Cons.prems(1,2) rest, of "Suc n"] None by simp
  next
    case (Some t)
    obtain pid root real where t: "edit_target ck path = Some (pid, root, real)" using Some by (cases t) auto
    let ?c = "c\<lparr>c_id := ck_uid ck n\<rparr>"
    define d' where "d' = snd (claim_edit ?c (ck_ignored ck root) False root real (ds pid))"
    define next_ds where "next_ds = ds(pid := d')"
    have plain: "list_all plain_char (project_path real (Some root))" using Cons.prems(3) t by (simp add: plain_edits_def)
    have "root_key (c_host ?c) \<noteq> []" "doc_ok (ds pid)" using Cons.prems(1,2) by (simp_all add: docs_ok_def)
    note ce = claim_edit_marks [OF plain this, where ignored = "ck_ignored ck root", folded d'_def, unfolded call_id_irrelevant]
    have ok: "docs_ok next_ds" using Cons.prems(1) ce(3) by (simp add: docs_ok_def next_ds_def)
    have all: "snd (claim_paths ck c n (path # paths) ds) = snd (claim_paths ck c (Suc n) paths next_ds)"
      by (simp add: t d'_def next_ds_def Let_def)
    note ih = Cons.IH [OF ok Cons.prems(2) rest, of "Suc n"]
    have here: "claimed ck c next_ds path" using ce(1,2) by (simp add: claimed_def t marked_def next_ds_def)
    have keep: "\<forall>i q. marked c q (ds i) \<longrightarrow> marked c q (next_ds i)" using ce(4,5) by (auto simp: marked_def next_ds_def)
    have "claimed ck c (snd (claim_paths ck c (Suc n) paths next_ds)) path" using claimed_mono [OF conjunct1 [OF ih] here] .
    then show ?thesis unfolding all using ih keep by simp
  qed
qed simp

section \<open>The hook\<close>

lemma first_some_None: "first_some f xs = None \<longleftrightarrow> (\<forall>x\<in>set xs. f x = None)"
  by (induction xs) (auto split: option.splits)

text \<open>
  C28: A blocked edit leaves no trace. The edit hook refuses exactly when a live operation stands
  against one of the paths the event names, naming the first such operation; then no lease and
  no writer of any project has changed.
\<close>

theorem blocked_edit_claims_nothing:
  assumes "docs_ok (hw_docs w)"
  shows "case run_hook ck c active payload w of
      (HookBlocked m _, w') \<Rightarrow>
        first_some (edit_op ck (call.truncate (hook_call c active payload (hw_coord w))) (hw_docs w)) (hook_paths payload) = Some m
        \<and> (\<forall>p. live_leases (call.truncate (hook_call c active payload (hw_coord w))) (hw_docs w' p)
               = live_leases (call.truncate (hook_call c active payload (hw_coord w))) (hw_docs w p)
             \<and> load_writers (c_now c) (hw_docs w' p) = load_writers (c_now c) (hw_docs w p))
    | (HookWarned _, _) \<Rightarrow>
        \<forall>path\<in>set (hook_paths payload).
          edit_op ck (call.truncate (hook_call c active payload (hw_coord w))) (hw_docs w) path = None"
proof -
  let ?c = "call.truncate (hook_call c active payload (hw_coord w))" and ?ps = "hook_paths payload"
  note spec = blocking_op_spec [OF assms, where ck = ck and c = ?c and paths = ?ps]
  have now: "c_now ?c = c_now c" by (simp add: hook_call_def call.defs)
  have view: "\<forall>p. live_leases ?c (snd (blocking_op ck ?c ?ps (hw_docs w)) p) = live_leases ?c (hw_docs w p)
      \<and> load_writers (c_now c) (snd (blocking_op ck ?c ?ps (hw_docs w)) p) = load_writers (c_now c) (hw_docs w p)"
    using spec(2) unfolding same_view_def now by blast
  show ?thesis
  proof (cases "first_some (edit_op ck ?c (hw_docs w)) ?ps")
    case None
    then have first: "fst (blocking_op ck ?c ?ps (hw_docs w)) = None" using spec(1) by simp
    have "\<forall>path\<in>set ?ps. edit_op ck ?c (hw_docs w) path = None"
      by (rule iffD1 [OF first_some_None None])
    then show ?thesis unfolding run_hook_def Let_def first option.case prod.case hook_result.case .
  next
    case (Some m)
    then have first: "fst (blocking_op ck ?c ?ps (hw_docs w)) = Some m" using spec(1) by simp
    show ?thesis unfolding run_hook_def Let_def first option.case prod.case hook_result.case hook_world.simps
      by (intro conjI Some view)
  qed
qed


text \<open>The witnesses: alice edits a file while bob's acceptance runs, and when it does not.\<close>

definition sample_checkout :: checkout_env where
  "sample_checkout =
     \<lparr>ck_expand = Some, ck_project = (\<lambda>_. Some (''proj'', ''/r'')), ck_real = (\<lambda>p. p), ck_ignored = (\<lambda>_ _. False),
      ck_reach = (\<lambda>_. True), ck_uid = (\<lambda>n. nat_str n)\<rparr>"

definition edit_payload :: dict where
  "edit_payload = [(''cwd'', JStr ''/r''), (''tool_input'', JObj [(''file_path'', JStr ''a.py'')])]"

definition idle_world :: hook_world where
  "idle_world = \<lparr>hw_docs = (\<lambda>_. BLANK_DOC), hw_coord = \<lparr>cd_identities = [], cd_messages = [], cd_notes = []\<rparr>\<rparr>"

definition busy_doc :: doc where
  "busy_doc = saved_by BLANK_DOC (acquire_mark (sample_call ''bob'' 15) ''/r'' ''op'' ''acceptance'' BLANK_DOC)"

definition busy_world :: hook_world where
  "busy_world = idle_world\<lparr>hw_docs := (\<lambda>_. BLANK_DOC)(''proj'' := busy_doc)\<rparr>"

definition outcome :: "hook_world \<Rightarrow> hook_result" where
  "outcome w = fst (run_hook sample_checkout (hc ''alice'' 30) [] edit_payload w)"

lemma worlds_ok: "docs_ok (hw_docs idle_world)" "docs_ok (hw_docs busy_world)"
proof -
  have "doc_ok BLANK_DOC" "doc_ok busy_doc" by code_simp+
  then show "docs_ok (hw_docs idle_world)" "docs_ok (hw_docs busy_world)"
    by (simp_all add: docs_ok_def idle_world_def busy_world_def)
qed

lemma outcomes: "outcome busy_world = HookBlocked (hd (load_leases busy_doc)) []" "outcome idle_world = HookWarned []"
  by code_simp+

theorem blocked_edit_claims_nothing_witness:
  "case run_hook sample_checkout (hc ''alice'' 30) [] edit_payload busy_world of
      (HookBlocked m _, w') \<Rightarrow>
        m = hd (load_leases busy_doc) \<and> (\<forall>p. load_writers 30 (hw_docs w' p) = load_writers 30 (hw_docs busy_world p))
    | _ \<Rightarrow> False"
proof -
  obtain w' where r: "run_hook sample_checkout (hc ''alice'' 30) [] edit_payload busy_world
      = (HookBlocked (hd (load_leases busy_doc)) [], w')"
    using outcomes(1) unfolding outcome_def by (metis prod.collapse)
  have n: "c_now (hc ''alice'' 30) = 30" by (simp add: hc_def)
  from blocked_edit_claims_nothing [OF worlds_ok(2), of sample_checkout "hc ''alice'' 30" "[]" edit_payload]
  show ?thesis unfolding r prod.case hook_result.case n by blast
qed


end
