(* ===== verification/HeavyWork.thy ===== *)
theory HeavyWork
  imports AgentIdentity Json
begin

text \<open>
  Admission of heavy jobs (\<open>backend/app/utils/heavy_work.py\<close>): one heavy lane, a spare one for
  hosts with headroom, one light lane, a first-come queue per class, and tokens by which the
  descendants of an admitted job share its admission.

  The operating system is part of the state: processes with their descriptor tables, open file
  descriptions with their \<open>flock\<close> mode (a description stays open while any process has a descriptor
  for it), and the generation written in each lane's admission file. A call of \<open>heavy_work\<close> or
  \<open>lane_activity\<close> is an entrant with a program counter; one action of the model is one system call
  that matters to others, so that entrants interleave between any two of them. What is printed
  while waiting, and the holder record that is only shown there, are left out.
\<close>

section \<open>Lanes and their files\<close>

datatype work_class = Heavy | Light

datatype lane = HeavyLane | SpareLane | LightLane

fun lane_text :: "lane \<Rightarrow> string" where
  "lane_text HeavyLane = ''heavy''"
| "lane_text SpareLane = ''heavy2''"
| "lane_text LightLane = ''light''"

definition lane_name :: "string \<Rightarrow> lane \<Rightarrow> string" where
  "lane_name name lane = (if lane = HeavyLane then name else lane_text lane @ ''-'' @ name)"

fun lane_class :: "lane \<Rightarrow> work_class" where
  "lane_class LightLane = Light"
| "lane_class _ = Heavy"

fun class_lane :: "work_class \<Rightarrow> lane" where
  "class_lane Heavy = HeavyLane"
| "class_lane Light = LightLane"

definition token_lane :: "string \<Rightarrow> lane" where
  "token_lane token =
     (case before_first CHR '':'' token of prefix \<Rightarrow>
        if prefix = lane_text LightLane then LightLane else if prefix = lane_text SpareLane then SpareLane else HeavyLane)"

datatype lock_file = AdmissionFile lane | ActivityFile lane | DepthFile lane nat

fun file_name :: "lock_file \<Rightarrow> string" where
  "file_name (AdmissionFile l) = lane_name ''admission.lock'' l"
| "file_name (ActivityFile l) = lane_name ''activity.lock'' l"
| "file_name (DepthFile l d) = lane_name (''depth-'' @ nat_str d @ ''.lock'') l"

section \<open>Tokens\<close>

text \<open>The generation \<open>pid:start:uuid\<close>; descriptors and depth follow it in the token.\<close>

record generation =
  g_pid :: nat
  g_start :: nat
  g_uuid :: string

record token =
  t_gen :: generation
  t_fd :: nat
  t_depth :: nat
  t_branch :: nat

definition generation_text :: "generation \<Rightarrow> string" where
  "generation_text g = nat_str (g_pid g) @ '':'' @ nat_str (g_start g) @ '':'' @ g_uuid g"

definition token_text :: "lane \<Rightarrow> token \<Rightarrow> string" where
  "token_text lane t =
     (if lane = HeavyLane then [] else lane_text lane @ '':'') @ generation_text (t_gen t) @ '':''
     @ nat_str (t_fd t) @ '':'' @ nat_str (t_depth t) @ '':'' @ nat_str (t_branch t)"

definition short_number :: "string \<Rightarrow> bool" where
  "short_number s = (isdigit s \<and> length s \<le> 20)"

definition number :: "string \<Rightarrow> nat" where
  "number s = nat (number_of s)"

definition uuid_hex :: "string \<Rightarrow> bool" where
  "uuid_hex s = (length s = 32 \<and> list_all (\<lambda>c. c \<in> set ''0123456789abcdef'') s)"

definition token_parts :: "lane \<Rightarrow> string \<Rightarrow> string list" where
  "token_parts lane token = split_on CHR '':'' (if lane = HeavyLane then token else removeprefix token (lane_text lane @ '':''))"

text \<open>The code compares the generation as text with the one in the admission file, where numbers are
  written without leading zeros: a generation that has them matches none.\<close>

definition parse_token :: "lane \<Rightarrow> string \<Rightarrow> token option" where
  "parse_token lane s =
     (case token_parts lane s of
        [p, st, u, fd, d, b] \<Rightarrow>
          if list_all short_number [p, st, fd, d, b] \<and> uuid_hex u \<and> nat_str (number p) = p \<and> nat_str (number st) = st
          then Some \<lparr>t_gen = \<lparr>g_pid = number p, g_start = number st, g_uuid = u\<rparr>,
                     t_fd = number fd, t_depth = number d, t_branch = number b\<rparr>
          else None
      | _ \<Rightarrow> None)"

section \<open>Worker limits\<close>

definition WORKERS :: int where "WORKERS = 2"

text \<open>\<open>int(value)\<close> on ASCII text: blanks around, a sign, digits with single underscores between them.\<close>

fun grouped :: "string \<Rightarrow> bool" where
  "grouped [] = False"
| "grouped [c] = is_digit c"
| "grouped (c # d # cs) = (is_digit c \<and> (if d = CHR ''_'' then grouped cs else grouped (d # cs)))"

definition unsigned_int :: "string \<Rightarrow> int option" where
  "unsigned_int s = (if grouped s then Some (number_of (filter is_digit s)) else None)"

definition parse_int :: "string \<Rightarrow> int option" where
  "parse_int s =
     (case strip s of
        [] \<Rightarrow> None
      | c # cs \<Rightarrow> if c = CHR ''-'' then map_option uminus (unsigned_int cs)
                  else if c = CHR ''+'' then unsigned_int cs else unsigned_int (c # cs))"

definition bounded :: "string option \<Rightarrow> int \<Rightarrow> string" where
  "bounded value maximum =
     (let number = (case parse_int (case value of Some s \<Rightarrow> s | None \<Rightarrow> []) of Some n \<Rightarrow> n | None \<Rightarrow> maximum)
      in int_str (if number > 0 then min maximum number else maximum))"

definition WORKER_ENVIRONMENT :: "string list" where
  "WORKER_ENVIRONMENT =
     [''GOMAXPROCS'', ''RAYON_NUM_THREADS'', ''UV_THREADPOOL_SIZE'', ''CARGO_BUILD_JOBS'',
      ''UV_CONCURRENT_BUILDS'', ''UV_CONCURRENT_INSTALLS'', ''UV_CONCURRENT_DOWNLOADS'',
      ''OMP_NUM_THREADS'', ''OPENBLAS_NUM_THREADS'', ''MKL_NUM_THREADS'',
      ''NUMEXPR_NUM_THREADS'', ''PYTEST_XDIST_AUTO_NUM_WORKERS'',
      ''VITEST_MAX_WORKERS'', ''VITEST_MAX_THREADS'', ''VITEST_MAX_FORKS'']"

definition LEASE_ENV :: string where "LEASE_ENV = ''ST_HEAVY_LEASE''"

definition work_environment :: "string \<Rightarrow> (string \<times> string) list \<Rightarrow> (string \<times> string) list" where
  "work_environment token_string env =
     (let limited = fold (\<lambda>key e. dict_set key (bounded (map_of e key) WORKERS) e) WORKER_ENVIRONMENT env;
          nodes = dict_set ''CIRCLE_NODE_TOTAL'' (bounded (map_of limited ''CIRCLE_NODE_TOTAL'') (WORKERS + 1)) limited
      in dict_set LEASE_ENV token_string nodes)"

datatype command_error = EmptyCommand

definition work_command :: "string option \<Rightarrow> string option \<Rightarrow> string list \<Rightarrow> (command_error, string list) result" where
  "work_command ionice nice command =
     (if command = [] then raise EmptyCommand
      else let idle = (case nonempty ionice of Some i \<Rightarrow> [i, ''-t'', ''-c'', ''3''] @ command | None \<Rightarrow> command)
           in return (case nonempty nice of Some n \<Rightarrow> [n, ''-n'', ''10''] @ idle | None \<Rightarrow> idle))"

section \<open>Numbers as text\<close>

lemma char_nat_digit [simp]: "d < 10 \<Longrightarrow> char_nat (digit_char d) = 48 + d"
  by (simp add: char_nat_def digit_char_def)

lemma nat_str_digits: "list_all is_digit (nat_str n) \<and> nat_str n \<noteq> []"
proof (induction n rule: nat_str.induct)
  case (1 n)
  show ?case
  proof (cases "n < 10")
    case True
    then show ?thesis by (simp add: nat_str.simps [of n] is_digit_def)
  next
    case False
    moreover have "n mod 10 < 10" by simp
    ultimately show ?thesis using 1 [OF False] char_nat_digit [of "n mod 10"] by (simp add: nat_str.simps [of n] is_digit_def)
  qed
qed

lemma number_of_snoc: "number_of (s @ [c]) = number_of s * 10 + (int (char_nat c) - 48)"
  by (simp add: number_of_def)

lemma number_of_nat_str: "number_of (nat_str n) = int n"
proof (induction n rule: nat_str.induct)
  case (1 n)
  show ?case
  proof (cases "n < 10")
    case True
    then show ?thesis by (simp add: nat_str.simps [of n] number_of_def)
  next
    case False
    then have "number_of (nat_str n) = int (n div 10) * 10 + int (n mod 10)"
      using 1 by (simp add: nat_str.simps [of n] number_of_snoc)
    also have "\<dots> = int n" by (metis div_mult_mod_eq of_nat_add of_nat_mult of_nat_numeral)
    finally show ?thesis .
  qed
qed

lemma length_nat_str: "0 < k \<Longrightarrow> n < 10 ^ k \<Longrightarrow> length (nat_str n) \<le> k"
proof (induction k arbitrary: n rule: nat_induct_non_zero)
  case 1
  then show ?case by (simp add: nat_str.simps [of n])
next
  case (Suc k)
  have "length (nat_str (n div 10)) \<le> k" using Suc.IH [of "n div 10"] Suc.prems by (simp add: div_less_iff_less_mult)
  then show ?case using Suc.hyps by (subst nat_str.simps) simp
qed

lemma no_colon: "list_all is_digit s \<Longrightarrow> CHR '':'' \<notin> set s"
  by (auto simp: list_all_iff is_digit_def char_nat_def)

section \<open>Tokens survive the environment\<close>

definition token_fits :: "token \<Rightarrow> bool" where
  "token_fits t \<longleftrightarrow>
     uuid_hex (g_uuid (t_gen t)) \<and> list_all (\<lambda>n. n < 10 ^ 20) [g_pid (t_gen t), g_start (t_gen t), t_fd t, t_depth t, t_branch t]"

definition token_words :: "token \<Rightarrow> string list" where
  "token_words t = [nat_str (g_pid (t_gen t)), nat_str (g_start (t_gen t)), g_uuid (t_gen t),
                    nat_str (t_fd t), nat_str (t_depth t), nat_str (t_branch t)]"

lemma before_first_append: "c \<notin> set a \<Longrightarrow> before_first c (a @ c # b) = a"
  by (simp add: before_first_def takeWhile_append)

lemma token_text_words:
  "token_text lane t = (if lane = HeavyLane then [] else lane_text lane @ '':'') @ join_with '':'' (token_words t)"
  by (simp add: token_text_def generation_text_def token_words_def)

lemma token_parts_text:
  assumes "uuid_hex (g_uuid (t_gen t))"
  shows "token_parts lane (token_text lane t) = token_words t"
proof -
  have "CHR '':'' \<notin> set ''0123456789abcdef''" by code_simp
  then have "CHR '':'' \<notin> set (g_uuid (t_gen t))" using assms unfolding uuid_hex_def list_all_iff by blast
  then have "\<forall>w\<in>set (token_words t). CHR '':'' \<notin> set w" using nat_str_digits no_colon by (auto simp: token_words_def)
  then have "split_on CHR '':'' (join_with '':'' (token_words t)) = token_words t" by (intro split_on_join) (simp add: token_words_def)
  then show ?thesis
    using startswith_append [of "lane_text lane @ '':''" "join_with '':'' (token_words t)"]
    by (simp add: token_parts_def token_text_words removeprefix_def)
qed

text \<open>
  A token read back is the token that was written: a descendant that finds a well-formed token
  in its environment looks at the lane, generation, depth and descriptors its ancestor was admitted with.
\<close>

theorem token_roundtrip:
  assumes "token_fits t"
  shows "token_lane (token_text lane t) = lane \<and> parse_token lane (token_text lane t) = Some t"
proof
  have uuid: "uuid_hex (g_uuid (t_gen t))" using assms by (simp add: token_fits_def)
  have short: "short_number (nat_str n)" if "n < 10 ^ 20" for n
    using nat_str_digits [of n] length_nat_str [of 20 n] that by (simp add: short_number_def isdigit_def)
  show "parse_token lane (token_text lane t) = Some t"
    using assms uuid short by (simp add: parse_token_def token_parts_text token_words_def token_fits_def number_def number_of_nat_str)
  show "token_lane (token_text lane t) = lane"
  proof (cases lane)
    case HeavyLane
    have pid: "list_all is_digit (nat_str (g_pid (t_gen t)))" by (simp add: nat_str_digits)
    have "before_first CHR '':'' (token_text lane t) = nat_str (g_pid (t_gen t))"
      using HeavyLane no_colon [OF pid] by (simp add: token_text_def generation_text_def before_first_append)
    moreover have "nat_str (g_pid (t_gen t)) \<noteq> ''light''" "nat_str (g_pid (t_gen t)) \<noteq> ''heavy2''"
      using pid by (auto simp: is_digit_def char_nat_def)
    ultimately show ?thesis using HeavyLane by (simp add: token_lane_def)
  qed (simp_all add: token_lane_def token_text_def before_first_def)
qed

theorem token_roundtrip_witness:
  "parse_token SpareLane (token_text SpareLane \<lparr>t_gen = \<lparr>g_pid = 4711, g_start = 99, g_uuid = replicate 32 CHR ''a''\<rparr>, t_fd = 7, t_depth = 0, t_branch = 6\<rparr>)
     = Some \<lparr>t_gen = \<lparr>g_pid = 4711, g_start = 99, g_uuid = replicate 32 CHR ''a''\<rparr>, t_fd = 7, t_depth = 0, t_branch = 6\<rparr>"
proof -
  have "token_fits \<lparr>t_gen = \<lparr>g_pid = 4711, g_start = 99, g_uuid = replicate 32 CHR ''a''\<rparr>, t_fd = 7, t_depth = 0, t_branch = 6\<rparr>"
    by (simp add: token_fits_def uuid_hex_def list_all_iff)
  from token_roundtrip [OF this, of SpareLane] show ?thesis by blast
qed

section \<open>Worker limits hold\<close>

lemma parse_nat_str: "parse_int (nat_str n) = Some (int n)"
proof -
  have d: "list_all is_digit (nat_str n)" "nat_str n \<noteq> []" using nat_str_digits [of n] by blast+
  have grouped: "list_all is_digit s \<Longrightarrow> s \<noteq> [] \<Longrightarrow> grouped s" for s
    by (induction s rule: grouped.induct) (auto simp: is_digit_def char_nat_def)
  have strip: "strip (nat_str n) = nat_str n"
  proof -
    have ns: "\<not> is_space c" if "is_digit c" for c using that by (auto simp: is_digit_def is_space_def char_nat_def)
    have "dropWhile is_space s = s" if "list_all is_digit s" for s using that ns by (cases s) auto
    then show ?thesis using d(1) by (simp add: strip_def list_all_iff)
  qed
  obtain c cs where c: "nat_str n = c # cs" using d(2) by (cases "nat_str n") auto
  have "c \<noteq> CHR ''-''" "c \<noteq> CHR ''+''" using d(1) c by (auto simp: is_digit_def char_nat_def)
  moreover have "filter is_digit (nat_str n) = nat_str n" using d(1) by (simp add: filter_id_conv list_all_iff)
  ultimately show ?thesis
    using strip c grouped [OF d] number_of_nat_str [of n] by (simp add: parse_int_def unsigned_int_def)
qed

lemma bounded_range:
  assumes "0 < maximum"
  shows "\<exists>n. parse_int (bounded value maximum) = Some n \<and> 0 < n \<and> n \<le> maximum"
proof -
  have "parse_int (int_str i) = Some i" if "0 < i" for i using that parse_nat_str [of "nat i"] by (simp add: int_str_def)
  then show ?thesis using assms by (auto simp: bounded_def Let_def)
qed

lemma fold_limits:
  assumes "distinct keys"
  shows "map_of (fold (\<lambda>key e. dict_set key (bounded (map_of e key) m) e) keys env) k =
    (if k \<in> set keys then Some (bounded (map_of env k) m) else map_of env k)"
  using assms by (induction keys arbitrary: env) auto

text \<open>
  An admitted job's children are limited. Whatever the environment says, every worker variable
  of the child's environment is set to a number between one and two that is no larger than a positive number
  the environment asked for, Next's node count is at most three, and the token is passed on.
\<close>

theorem environment_limits_workers:
  "(\<forall>key\<in>set WORKER_ENVIRONMENT. \<exists>v n. map_of (work_environment token env) key = Some v \<and> parse_int v = Some n \<and> 0 < n \<and> n \<le> WORKERS
      \<and> (\<forall>w m. map_of env key = Some w \<and> parse_int w = Some m \<and> 0 < m \<longrightarrow> n \<le> m))
   \<and> (\<exists>v n. map_of (work_environment token env) ''CIRCLE_NODE_TOTAL'' = Some v \<and> parse_int v = Some n \<and> 0 < n \<and> n \<le> WORKERS + 1)
   \<and> map_of (work_environment token env) LEASE_ENV = Some token"
proof -
  let ?e = "work_environment token env"
  have dist: "distinct WORKER_ENVIRONMENT" and keys: "''CIRCLE_NODE_TOTAL'' \<notin> set WORKER_ENVIRONMENT" "LEASE_ENV \<notin> set WORKER_ENVIRONMENT"
    "LEASE_ENV \<noteq> ''CIRCLE_NODE_TOTAL''" by code_simp+
  have worker: "map_of ?e key = Some (bounded (map_of env key) WORKERS)" if "key \<in> set WORKER_ENVIRONMENT" for key
    using that keys by (auto simp: work_environment_def Let_def fold_limits [OF dist])
  have nodes: "map_of ?e ''CIRCLE_NODE_TOTAL'' = Some (bounded (map_of env ''CIRCLE_NODE_TOTAL'') (WORKERS + 1))"
    using keys by (auto simp: work_environment_def Let_def fold_limits [OF dist])
  have smaller: "n \<le> m" if "parse_int (bounded (Some w) WORKERS) = Some n" "parse_int w = Some m" "0 < m" for w n m
  proof -
    have "parse_int (int_str i) = Some i" if "0 < i" for i using that parse_nat_str [of "nat i"] by (simp add: int_str_def)
    then show ?thesis using that by (auto simp: bounded_def Let_def WORKERS_def)
  qed
  have "\<exists>n. parse_int (bounded (map_of env key) WORKERS) = Some n \<and> 0 < n \<and> n \<le> WORKERS" for key
    by (rule bounded_range) (simp add: WORKERS_def)
  then have "\<forall>key\<in>set WORKER_ENVIRONMENT. \<exists>v n. map_of ?e key = Some v \<and> parse_int v = Some n \<and> 0 < n \<and> n \<le> WORKERS
      \<and> (\<forall>w m. map_of env key = Some w \<and> parse_int w = Some m \<and> 0 < m \<longrightarrow> n \<le> m)"
    using worker smaller by fastforce
  moreover have "\<exists>v n. map_of ?e ''CIRCLE_NODE_TOTAL'' = Some v \<and> parse_int v = Some n \<and> 0 < n \<and> n \<le> WORKERS + 1"
    using nodes bounded_range [of "WORKERS + 1"] by (auto simp: WORKERS_def)
  moreover have "map_of ?e LEASE_ENV = Some token" by (simp add: work_environment_def Let_def)
  ultimately show ?thesis by blast
qed

theorem environment_limits_workers_witness:
  "\<exists>v n. map_of (work_environment ''t'' [(''GOMAXPROCS'', ''16'')]) ''GOMAXPROCS'' = Some v \<and> parse_int v = Some n \<and> 0 < n \<and> n \<le> 2"
proof -
  have "''GOMAXPROCS'' \<in> set WORKER_ENVIRONMENT" by code_simp
  then show ?thesis using environment_limits_workers [of "''t''" "[(''GOMAXPROCS'', ''16'')]"] unfolding WORKERS_def by blast
qed

end
