(* ===== verification/HeavyLanes.thy ===== *)
theory HeavyLanes
  imports HeavyWork
begin

text \<open>
  The protocol of \<open>heavy_work\<close>: the state of the operating system and of the entrants, and one
  action per system call (see \<open>HeavyWork\<close> for the data).
\<close>

section \<open>Open files and locks\<close>

datatype mode = Shared | Exclusive

record task_proc =
  q_parent :: nat
  q_start :: nat
  q_fds :: "(nat \<times> nat) list"
  q_token :: string

datatype pc =
    CheckGeneration
  | Walk "nat list \<times> nat"
  | Join "nat list \<times> nat"
  | Recheck
  | NotInherited
  | WaitBranch
  | Enqueue
  | Waiting
  | TryAdmission bool
  | TryActivity bool
  | Dequeue bool
  | WriteGeneration
  | Release
  | Share
  | Active
  | Probe
  | Unprobe

record entrant =
  x_pid :: nat
  x_class :: work_class
  x_lane :: lane
  x_admission :: nat
  x_activity :: nat
  x_spare :: "(nat \<times> nat) option"
  x_branch :: "nat option"
  x_token :: "token option"
  x_gen :: "generation option"
  x_depth :: nat
  x_pc :: pc

record sys =
  s_procs :: "(nat \<times> task_proc) list"
  s_file :: "nat \<Rightarrow> lock_file"
  s_mode :: "nat \<Rightarrow> mode option"
  s_next :: nat
  s_content :: "lane \<Rightarrow> generation option"
  s_entrants :: "nat \<Rightarrow> entrant option"
  s_born :: nat
  s_queue :: "work_class \<Rightarrow> (nat \<times> nat) list"
  s_meta :: "nat option"
  s_uuids :: nat

definition fds_of :: "nat \<Rightarrow> sys \<Rightarrow> (nat \<times> nat) list" where
  "fds_of p s = (case map_of (s_procs s) p of Some q \<Rightarrow> q_fds q | None \<Rightarrow> [])"

definition open_files :: "sys \<Rightarrow> nat list" where
  "open_files s = concat (map (\<lambda>(_, q). map snd (q_fds q)) (s_procs s))"

text \<open>\<open>flock\<close>: a description conflicts with the other open descriptions of its file. A request first
  drops the lock the description has, also when it then fails.\<close>

definition clash :: "mode \<Rightarrow> mode option \<Rightarrow> bool" where
  "clash m m' = (m' = Some Exclusive \<or> (m = Exclusive \<and> m' = Some Shared))"

definition can_lock :: "nat \<Rightarrow> mode \<Rightarrow> sys \<Rightarrow> bool" where
  "can_lock i m s = list_all (\<lambda>j. j \<noteq> i \<and> s_file s j = s_file s i \<longrightarrow> \<not> clash m (s_mode s j)) (open_files s)"

definition set_mode :: "nat \<Rightarrow> mode option \<Rightarrow> sys \<Rightarrow> sys" where
  "set_mode i m s = s\<lparr>s_mode := (s_mode s)(i := m)\<rparr>"

definition update_proc :: "nat \<Rightarrow> (task_proc \<Rightarrow> task_proc) \<Rightarrow> sys \<Rightarrow> sys" where
  "update_proc p f s = s\<lparr>s_procs := map (\<lambda>(a, q). (a, if a = p then f q else q)) (s_procs s)\<rparr>"

text \<open>\<open>_open_lane\<close>: a new description at a free descriptor; \<open>os.close\<close> of the descriptors of some descriptions.\<close>

definition open_lane :: "nat \<Rightarrow> nat \<Rightarrow> lock_file \<Rightarrow> sys \<Rightarrow> sys" where
  "open_lane p fd f s =
     (let i = s_next s
      in (update_proc p (\<lambda>q. q\<lparr>q_fds := (fd, i) # q_fds q\<rparr>) s)
           \<lparr>s_file := (s_file s)(i := f), s_mode := (s_mode s)(i := None), s_next := Suc i\<rparr>)"

definition close_files :: "nat \<Rightarrow> nat list \<Rightarrow> sys \<Rightarrow> sys" where
  "close_files p is s = update_proc p (\<lambda>q. q\<lparr>q_fds := filter (\<lambda>(_, i). i \<notin> set is) (q_fds q)\<rparr>) s"

definition free_fds :: "nat \<Rightarrow> nat list \<Rightarrow> sys \<Rightarrow> bool" where
  "free_fds p fds s = (distinct fds \<and> list_all (\<lambda>fd. 3 \<le> fd \<and> fd \<notin> set (map fst (fds_of p s))) fds)"

section \<open>Entrants\<close>

definition put :: "nat \<Rightarrow> entrant \<Rightarrow> sys \<Rightarrow> sys" where
  "put k x s = s\<lparr>s_entrants := (s_entrants s)(k := Some x)\<rparr>"

definition goto :: "nat \<Rightarrow> entrant \<Rightarrow> pc \<Rightarrow> sys \<Rightarrow> sys" where
  "goto k x c s = put k (x\<lparr>x_pc := c\<rparr>) s"

text \<open>A non-blocking \<open>flock\<close> and where the entrant goes with each outcome.\<close>

definition try_flock :: "nat \<Rightarrow> mode \<Rightarrow> (sys \<Rightarrow> sys) \<Rightarrow> (sys \<Rightarrow> sys) \<Rightarrow> sys \<Rightarrow> sys" where
  "try_flock i m granted refused s =
     (if can_lock i m s then granted (set_mode i (Some m) s) else refused (set_mode i None s))"

definition own_files :: "entrant \<Rightarrow> nat list" where
  "own_files x =
     [x_admission x, x_activity x] @ (case x_spare x of Some (a, b) \<Rightarrow> [a, b] | None \<Rightarrow> [])
     @ (case x_branch x of Some b \<Rightarrow> [b] | None \<Rightarrow> [])"

text \<open>The descriptions an entrant tries: its lane's, or the spare ones.\<close>

definition chosen_admission :: "entrant \<Rightarrow> bool \<Rightarrow> nat" where
  "chosen_admission x spare = (if spare then (case x_spare x of Some (a, _) \<Rightarrow> a | None \<Rightarrow> x_admission x) else x_admission x)"

definition chosen_activity :: "entrant \<Rightarrow> bool \<Rightarrow> nat" where
  "chosen_activity x spare = (if spare then (case x_spare x of Some (_, b) \<Rightarrow> b | None \<Rightarrow> x_activity x) else x_activity x)"

definition branch_file :: "lane \<Rightarrow> nat \<Rightarrow> lock_file" where
  "branch_file l depth = (if depth = 0 then AdmissionFile l else DepthFile l depth)"

text \<open>A process still has the token's descriptors, with the locks they stand for.\<close>

definition holds_lease :: "sys \<Rightarrow> lane \<Rightarrow> token \<Rightarrow> nat \<Rightarrow> bool" where
  "holds_lease s l t p =
     (case (map_of (fds_of p s) (t_fd t), map_of (fds_of p s) (t_branch t)) of
        (Some i, Some j) \<Rightarrow>
          s_file s i = ActivityFile l \<and> s_mode s i = Some Shared
          \<and> s_file s j = branch_file l (t_depth t) \<and> s_mode s j = Some Exclusive
      | _ \<Rightarrow> False)"

section \<open>The queue\<close>

fun trying :: "pc \<Rightarrow> bool" where
  "trying (TryAdmission _) = True"
| "trying (TryActivity _) = True"
| "trying (Dequeue _) = True"
| "trying _ = False"

definition queued_pc :: "pc \<Rightarrow> bool" where
  "queued_pc c = (c = Waiting \<or> trying c)"

definition waits :: "sys \<Rightarrow> nat \<Rightarrow> bool" where
  "waits s k = (case s_entrants s k of Some x \<Rightarrow> queued_pc (x_pc x) | None \<Rightarrow> False)"

text \<open>\<open>_waiters\<close>: abandoned entries are removed, the others are in the order of their names.\<close>

definition waiters :: "work_class \<Rightarrow> sys \<Rightarrow> (nat \<times> nat) list" where
  "waiters c s = filter (\<lambda>(_, k). waits s k) (s_queue s c)"

definition set_queue :: "work_class \<Rightarrow> (nat \<times> nat) list \<Rightarrow> sys \<Rightarrow> sys" where
  "set_queue c ws s = s\<lparr>s_queue := (s_queue s)(c := ws)\<rparr>"

definition next_order :: "nat \<Rightarrow> (nat \<times> nat) list \<Rightarrow> nat" where
  "next_order clock ws = max clock (if ws = [] then 0 else fst (last ws) + 1)"

section \<open>One system call of an entrant\<close>

record input =
  i_admit :: bool
  i_spare :: bool
  i_clock :: nat
  i_fds :: "nat list"

text \<open>The lane was busy: with headroom the spare one is tried, otherwise the metadata lock is given back.\<close>

definition lane_busy :: "input \<Rightarrow> nat \<Rightarrow> entrant \<Rightarrow> bool \<Rightarrow> sys \<Rightarrow> sys" where
  "lane_busy inp k x spare s =
     (if \<not> spare \<and> x_spare x \<noteq> None \<and> i_spare inp then goto k x (TryAdmission True) s
      else goto k x Waiting (s\<lparr>s_meta := None\<rparr>))"

text \<open>Everything an entrant opened is closed, its place in the queue given up.\<close>

definition leave :: "nat \<Rightarrow> entrant \<Rightarrow> sys \<Rightarrow> sys" where
  "leave k x s =
     (close_files (x_pid x) (own_files x) s)
       \<lparr>s_entrants := (s_entrants s)(k := None),
        s_queue := (\<lambda>c. filter (\<lambda>(_, j). j \<noteq> k) (s_queue s c)),
        s_meta := (if s_meta s = Some k then None else s_meta s)\<rparr>"

definition check_generation :: "nat \<Rightarrow> entrant \<Rightarrow> sys \<Rightarrow> sys" where
  "check_generation k x s =
     (case x_token x of
        None \<Rightarrow> goto k x NotInherited s
      | Some t \<Rightarrow>
          if g_pid (t_gen t) = x_pid x \<or> t_fd t < 3 \<or> t_branch t < 3 then goto k x NotInherited s
          else if s_content s (x_lane x) = Some (t_gen t)
          then goto k x (Walk ([], x_pid x)) s
          else goto k x NotInherited s)"

text \<open>One turn of the loop over the ancestors: the processes seen so far and the next one. A process
  that has gone ends the walk, as does one without a parent.\<close>

definition walk :: "nat \<Rightarrow> entrant \<Rightarrow> nat list \<times> nat \<Rightarrow> sys \<Rightarrow> sys" where
  "walk k x at s =
     (case at of (seen, pid) \<Rightarrow>
        if pid \<le> 1 \<or> pid \<in> set seen then goto k x NotInherited s
        else (case (map_of (s_procs s) pid, x_token x) of
                (Some q, Some t) \<Rightarrow>
                  goto k x (if holds_lease s (x_lane x) t pid then Join (pid # seen, q_parent q) else Walk (pid # seen, q_parent q)) s
              | _ \<Rightarrow> goto k x NotInherited s))"

text \<open>The last check of \<open>_inherited\<close>; a light admission does not carry heavy work.\<close>

definition recheck :: "input \<Rightarrow> nat \<Rightarrow> entrant \<Rightarrow> sys \<Rightarrow> sys option" where
  "recheck inp k x s =
     (case x_token x of
        None \<Rightarrow> Some (goto k x NotInherited s)
      | Some t \<Rightarrow>
          if s_content s (x_lane x) \<noteq> Some (t_gen t) then Some (goto k x NotInherited s)
          else if lane_class (x_lane x) = Light \<and> x_class x = Heavy then Some (leave k x s)
          else (case i_fds inp of
                  [fd] \<Rightarrow>
                    if free_fds (x_pid x) [fd] s
                    then Some (put k (x\<lparr>x_branch := Some (s_next s), x_depth := Suc (t_depth t), x_gen := Some (t_gen t), x_pc := WaitBranch\<rparr>)
                                 (open_lane (x_pid x) fd (DepthFile (x_lane x) (Suc (t_depth t))) s))
                    else None
                | _ \<Rightarrow> None))"

text \<open>No valid token: the files of another lane are exchanged for those of the requested class.\<close>

definition not_inherited :: "input \<Rightarrow> nat \<Rightarrow> entrant \<Rightarrow> sys \<Rightarrow> sys option" where
  "not_inherited inp k x s =
     (if x_lane x = class_lane (x_class x) then Some (goto k x Enqueue s)
      else (case i_fds inp of
              [a, b] \<Rightarrow>
                if free_fds (x_pid x) [a, b] s
                then let l = class_lane (x_class x);
                         s' = open_lane (x_pid x) b (ActivityFile l) (open_lane (x_pid x) a (AdmissionFile l) s)
                     in Some (put k (x\<lparr>x_lane := l, x_admission := s_next s, x_activity := Suc (s_next s), x_pc := Enqueue\<rparr>)
                          (close_files (x_pid x) [x_activity x, x_admission x] s'))
                else None
            | _ \<Rightarrow> None))"

definition append_waiter :: "input \<Rightarrow> nat \<Rightarrow> work_class \<Rightarrow> sys \<Rightarrow> sys" where
  "append_waiter inp k c s = set_queue c (waiters c s @ [(next_order (i_clock inp) (waiters c s), k)]) s"

text \<open>The start of \<open>_wait_owner\<close>: the spare files of heavy work, and the entry at the end of the queue.\<close>

definition enqueue :: "input \<Rightarrow> nat \<Rightarrow> entrant \<Rightarrow> sys \<Rightarrow> sys option" where
  "enqueue inp k x s =
     (if s_meta s \<noteq> None then None
      else if lane_class (x_lane x) = Light then Some (goto k x Waiting (append_waiter inp k Light s))
      else (case i_fds inp of
              [a, b] \<Rightarrow>
                if free_fds (x_pid x) [a, b] s
                then let s' = open_lane (x_pid x) b (ActivityFile SpareLane) (open_lane (x_pid x) a (AdmissionFile SpareLane) s)
                     in Some (put k (x\<lparr>x_spare := Some (s_next s, Suc (s_next s)), x_pc := Waiting\<rparr>) (append_waiter inp k Heavy s'))
                else None
            | _ \<Rightarrow> None))"

text \<open>One turn of the loop of \<open>_wait_owner\<close>: the host must admit, and only the head of the queue goes on.\<close>

definition poll :: "input \<Rightarrow> nat \<Rightarrow> entrant \<Rightarrow> sys \<Rightarrow> sys option" where
  "poll inp k x s =
     (let c = lane_class (x_lane x); ws = waiters c s
      in if c = Heavy \<and> \<not> i_admit inp then Some s
         else if s_meta s \<noteq> None then None
         else if ws \<noteq> [] \<and> snd (hd ws) = k
         then Some (goto k x (TryAdmission False) ((set_queue c ws s)\<lparr>s_meta := Some k\<rparr>))
         else Some (set_queue c ws s))"

text \<open>The chosen lane is adopted, the other files are closed.\<close>

definition dequeue :: "nat \<Rightarrow> entrant \<Rightarrow> bool \<Rightarrow> sys \<Rightarrow> sys" where
  "dequeue k x spare s =
     (let c = lane_class (x_lane x);
          s' = (set_queue c (filter (\<lambda>(_, j). j \<noteq> k) (s_queue s c)) s)\<lparr>s_meta := None\<rparr>
      in case x_spare x of
           None \<Rightarrow> goto k x WriteGeneration s'
         | Some (a, b) \<Rightarrow>
             if spare
             then put k (x\<lparr>x_lane := SpareLane, x_admission := a, x_activity := b, x_spare := None, x_pc := WriteGeneration\<rparr>)
                    (close_files (x_pid x) [x_admission x, x_activity x] s')
             else put k (x\<lparr>x_spare := None, x_pc := WriteGeneration\<rparr>) (close_files (x_pid x) [a, b] s'))"

text \<open>The generation names the process and a fresh \<open>uuid\<close>: 32 digits, never given out before.\<close>

definition fresh_uuid :: "nat \<Rightarrow> string" where
  "fresh_uuid n = replicate (32 - length (nat_str n)) CHR ''0'' @ nat_str n"

definition new_generation :: "nat \<Rightarrow> sys \<Rightarrow> generation" where
  "new_generation p s =
     \<lparr>g_pid = p, g_start = (case map_of (s_procs s) p of Some q \<Rightarrow> q_start q | None \<Rightarrow> 0), g_uuid = fresh_uuid (s_uuids s)\<rparr>"

definition write_generation :: "nat \<Rightarrow> entrant \<Rightarrow> sys \<Rightarrow> sys" where
  "write_generation k x s =
     (let g = new_generation (x_pid x) s
      in put k (x\<lparr>x_gen := Some g, x_depth := 0, x_pc := Release\<rparr>)
           (s\<lparr>s_content := (s_content s)(x_lane x := Some g), s_uuids := Suc (s_uuids s)\<rparr>))"

fun advance :: "input \<Rightarrow> nat \<Rightarrow> entrant \<Rightarrow> pc \<Rightarrow> sys \<Rightarrow> sys option" where
  "advance inp k x CheckGeneration s = Some (check_generation k x s)"
| "advance inp k x (Walk ps) s = Some (walk k x ps s)"
| "advance inp k x (Join ps) s = Some (try_flock (x_activity x) Shared (goto k x Recheck) (goto k x (Walk ps)) s)"
| "advance inp k x Recheck s = recheck inp k x s"
| "advance inp k x NotInherited s = not_inherited inp k x s"
| "advance inp k x WaitBranch s =
     (case x_branch x of
        Some b \<Rightarrow> Some (try_flock b Exclusive (goto k x Active) (goto k x WaitBranch) s)
      | None \<Rightarrow> None)"
| "advance inp k x Enqueue s = enqueue inp k x s"
| "advance inp k x Waiting s = poll inp k x s"
| "advance inp k x (TryAdmission spare) s =
     Some (try_flock (chosen_admission x spare) Exclusive (goto k x (TryActivity spare)) (lane_busy inp k x spare) s)"
| "advance inp k x (TryActivity spare) s =
     Some (try_flock (chosen_activity x spare) Exclusive (goto k x (Dequeue spare))
             (\<lambda>s'. lane_busy inp k x spare (set_mode (chosen_admission x spare) None s')) s)"
| "advance inp k x (Dequeue spare) s = Some (dequeue k x spare s)"
| "advance inp k x WriteGeneration s = Some (write_generation k x s)"
| "advance inp k x Release s = Some (goto k x Share (set_mode (x_activity x) None s))"
| "advance inp k x Share s =
     (if can_lock (x_activity x) Shared s
      then Some (goto k x Active (set_mode (x_activity x) (Some Shared) s)) else None)"
| "advance inp k x Active s = None"
| "advance inp k x Probe s = Some (try_flock (x_activity x) Exclusive (goto k x Unprobe) (leave k x) s)"
| "advance inp k x Unprobe s = Some (leave k x (set_mode (x_activity x) None s))"

section \<open>Nested contexts of one thread\<close>

text \<open>A thread that is already admitted in this process goes on under its own admission; the copy of
  that admission in a forked process only supplies the token.\<close>

datatype reentry = Reenter | RefusedUpgrade | Fresh

definition reenter :: "(work_class \<times> nat) option \<Rightarrow> nat \<Rightarrow> work_class \<Rightarrow> reentry" where
  "reenter existing pid c =
     (case existing of
        Some (held, owner) \<Rightarrow>
          if owner \<noteq> pid then Fresh else if held = Light \<and> c = Heavy then RefusedUpgrade else Reenter
      | None \<Rightarrow> Fresh)"

section \<open>Actions\<close>

text \<open>
  \<open>Start\<close> is a call of \<open>heavy_work\<close> (the token comes from the environment of the process),
  \<open>Look\<close> one of \<open>lane_activity\<close> for one lane. \<open>Leave\<close> is the end of a context, normal or by any
  exception. \<open>Spawn\<close> starts a process that keeps some descriptors and, under an active context,
  gets its token; \<open>Exit\<close> is the end of a process, normal or killed; \<open>Setenv\<close> puts any value, a
  stale or invented token too, in the environment of a process.
\<close>

datatype action =
    Start nat work_class "nat list"
  | Look nat lane "nat list"
  | Step nat input
  | Leave nat
  | Spawn nat "nat option" nat nat "nat list"
  | Exit nat
  | Setenv nat string

definition enter :: "nat \<Rightarrow> work_class \<Rightarrow> lane \<Rightarrow> token option \<Rightarrow> pc \<Rightarrow> nat list \<Rightarrow> sys \<Rightarrow> sys option" where
  "enter p c l t start fds s =
     (case fds of
        [a, b] \<Rightarrow>
          if p \<in> set (map fst (s_procs s)) \<and> free_fds p [a, b] s
          then Some ((put (s_born s)
                 \<lparr>x_pid = p, x_class = c, x_lane = l, x_admission = s_next s, x_activity = Suc (s_next s),
                  x_spare = None, x_branch = None, x_token = t, x_gen = None, x_depth = 0, x_pc = start\<rparr>
                 (open_lane p b (ActivityFile l) (open_lane p a (AdmissionFile l) s)))\<lparr>s_born := Suc (s_born s)\<rparr>)
          else None
      | _ \<Rightarrow> None)"

definition start_work :: "nat \<Rightarrow> work_class \<Rightarrow> nat list \<Rightarrow> sys \<Rightarrow> sys option" where
  "start_work p c fds s =
     (case map_of (s_procs s) p of
        None \<Rightarrow> None
      | Some q \<Rightarrow>
          (let token = q_token q; lane = (if token = [] then class_lane c else token_lane token)
           in enter p c lane (parse_token lane token) CheckGeneration fds s))"

text \<open>The number of a description's descriptor, and the token of an active context.\<close>

definition fd_number :: "nat \<Rightarrow> nat \<Rightarrow> sys \<Rightarrow> nat" where
  "fd_number p i s = (case List.find (\<lambda>(_, j). j = i) (fds_of p s) of Some (fd, _) \<Rightarrow> fd | None \<Rightarrow> 0)"

definition work_token :: "entrant \<Rightarrow> sys \<Rightarrow> string" where
  "work_token x s =
     (case x_gen x of
        Some g \<Rightarrow>
          token_text (x_lane x)
            \<lparr>t_gen = g, t_fd = fd_number (x_pid x) (x_activity x) s, t_depth = x_depth x,
             t_branch = fd_number (x_pid x) (case x_branch x of Some b \<Rightarrow> b | None \<Rightarrow> x_admission x) s\<rparr>
      | None \<Rightarrow> [])"

definition spawn :: "nat \<Rightarrow> nat option \<Rightarrow> nat \<Rightarrow> nat \<Rightarrow> nat list \<Rightarrow> sys \<Rightarrow> sys option" where
  "spawn p job q started kept s =
     (case map_of (s_procs s) p of
        None \<Rightarrow> None
      | Some parent \<Rightarrow>
          (let child = \<lparr>q_parent = p, q_start = started, q_fds = filter (\<lambda>(fd, _). fd \<in> set kept) (q_fds parent), q_token = q_token parent\<rparr>
           in if q \<le> 1 \<or> q \<in> set (map fst (s_procs s)) then None
              else case job of
                     None \<Rightarrow> Some (s\<lparr>s_procs := (q, child) # s_procs s\<rparr>)
                   | Some k \<Rightarrow>
                       (case s_entrants s k of
                          Some x \<Rightarrow>
                            if x_pid x = p \<and> x_pc x = Active
                            then Some (s\<lparr>s_procs := (q, child\<lparr>q_token := work_token x s\<rparr>) # s_procs s\<rparr>) else None
                        | None \<Rightarrow> None)))"

definition exit_proc :: "nat \<Rightarrow> sys \<Rightarrow> sys option" where
  "exit_proc p s =
     (if p \<in> set (map fst (s_procs s))
      then Some (s\<lparr>s_procs := map (\<lambda>(a, q). (a, if q_parent q = p then q\<lparr>q_parent := 1\<rparr> else q))
                               (filter (\<lambda>(a, _). a \<noteq> p) (s_procs s)),
                   s_entrants := (\<lambda>k. case s_entrants s k of Some x \<Rightarrow> if x_pid x = p then None else Some x | None \<Rightarrow> None),
                   s_meta := (case s_meta s of
                                Some k \<Rightarrow> (case s_entrants s k of Some x \<Rightarrow> if x_pid x = p then None else Some k | None \<Rightarrow> Some k)
                              | None \<Rightarrow> None)\<rparr>)
      else None)"

fun act :: "action \<Rightarrow> sys \<Rightarrow> sys option" where
  "act (Start p c fds) s = start_work p c fds s"
| "act (Look p l fds) s = enter p Light l None Probe fds s"
| "act (Step k inp) s = (case s_entrants s k of Some x \<Rightarrow> advance inp k x (x_pc x) s | None \<Rightarrow> None)"
| "act (Leave k) s =
     (case s_entrants s k of
        Some x \<Rightarrow> if waits s k \<and> s_meta s \<noteq> None \<and> s_meta s \<noteq> Some k then None else Some (leave k x s)
      | None \<Rightarrow> None)"
| "act (Spawn p job q started kept) s = spawn p job q started kept s"
| "act (Exit p) s = exit_proc p s"
| "act (Setenv p t) s = Some (update_proc p (\<lambda>q. q\<lparr>q_token := t\<rparr>) s)"

text \<open>Before any work: one process, nothing open, whatever earlier owners wrote.\<close>

definition boot :: "(lane \<Rightarrow> generation option) \<Rightarrow> sys" where
  "boot content =
     \<lparr>s_procs = [(2, \<lparr>q_parent = 1, q_start = 0, q_fds = [], q_token = []\<rparr>)], s_file = (\<lambda>_. AdmissionFile HeavyLane),
      s_mode = (\<lambda>_. None), s_next = 0, s_content = content, s_entrants = (\<lambda>_. None), s_born = 0,
      s_queue = (\<lambda>_. []), s_meta = None, s_uuids = 0\<rparr>"

inductive reach :: "sys \<Rightarrow> bool" where
  booted: "reach (boot content)"
| acted: "reach s \<Longrightarrow> act a s = Some s' \<Longrightarrow> reach s'"

end
