(* ===== verification/HeavyFacts.thy ===== *)
theory HeavyFacts
  imports HeavyLanes
begin

text \<open>
  Facts about heavy-work admission: what each system call keeps of the locks, the invariant of
  the lanes, that a lane never carries two generations, and that owners are admitted in order.
\<close>

section \<open>The kernel's part\<close>

definition in_proc :: "sys \<Rightarrow> nat \<Rightarrow> nat \<Rightarrow> bool" where
  "in_proc s p i \<longleftrightarrow> i \<in> snd ` set (fds_of p s)"

definition locks_ok :: "sys \<Rightarrow> bool" where
  "locks_ok s \<longleftrightarrow>
     (\<forall>i\<in>set (open_files s). \<forall>j\<in>set (open_files s). \<forall>m.
        i \<noteq> j \<and> s_file s i = s_file s j \<and> s_mode s i = Some m \<longrightarrow> \<not> clash m (s_mode s j))"

definition kernel_ok :: "sys \<Rightarrow> bool" where
  "kernel_ok s \<longleftrightarrow> distinct (map fst (s_procs s)) \<and> (\<forall>i\<in>set (open_files s). i < s_next s) \<and> locks_ok s"

lemma open_iff: "i \<in> set (open_files s) \<longleftrightarrow> (\<exists>p q. (p, q) \<in> set (s_procs s) \<and> i \<in> snd ` set (q_fds q))"
  by (force simp: open_files_def)

lemma in_proc_open: "in_proc s p i \<Longrightarrow> i \<in> set (open_files s)"
  unfolding in_proc_def fds_of_def open_iff by (cases "map_of (s_procs s) p") (force dest: map_of_SomeD)+

lemma clash_sym: "clash m (Some m') \<longleftrightarrow> clash m' (Some m)"
  by (cases m; cases m') (simp_all add: clash_def)

lemma locks_okD:
  assumes "locks_ok s" "i \<in> set (open_files s)" "j \<in> set (open_files s)" "s_file s i = s_file s j"
    and "s_mode s i = Some Exclusive" "s_mode s j \<noteq> None"
  shows "i = j"
proof (rule ccontr)
  assume "i \<noteq> j"
  then have "\<not> clash Exclusive (s_mode s j)" using assms(1-5) unfolding locks_ok_def by blast
  with assms(6) show False by (cases "s_mode s j"; cases "the (s_mode s j)") (simp_all add: clash_def)
qed

text \<open>Which parts of the state an update leaves alone.\<close>

lemma put_sel [simp]:
  "s_procs (put k x s) = s_procs s" "s_file (put k x s) = s_file s" "s_mode (put k x s) = s_mode s" "s_next (put k x s) = s_next s"
  "s_content (put k x s) = s_content s" "s_born (put k x s) = s_born s" "s_queue (put k x s) = s_queue s" "s_meta (put k x s) = s_meta s"
  "s_entrants (put k x s) = (s_entrants s)(k := Some x)" "s_uuids (put k x s) = s_uuids s"
  by (simp_all add: put_def)

lemma goto_put: "goto k x c s = put k (x\<lparr>x_pc := c\<rparr>) s"
  by (simp add: goto_def)

lemma set_mode_sel [simp]:
  "s_procs (set_mode i m s) = s_procs s" "s_file (set_mode i m s) = s_file s" "s_mode (set_mode i m s) = (s_mode s)(i := m)"
  "s_next (set_mode i m s) = s_next s" "s_content (set_mode i m s) = s_content s" "s_entrants (set_mode i m s) = s_entrants s"
  "s_born (set_mode i m s) = s_born s" "s_queue (set_mode i m s) = s_queue s" "s_meta (set_mode i m s) = s_meta s"
  by (simp_all add: set_mode_def)

lemma update_proc_sel [simp]:
  "s_file (update_proc p f s) = s_file s" "s_mode (update_proc p f s) = s_mode s" "s_next (update_proc p f s) = s_next s"
  "s_content (update_proc p f s) = s_content s" "s_entrants (update_proc p f s) = s_entrants s" "s_born (update_proc p f s) = s_born s"
  "s_queue (update_proc p f s) = s_queue s" "s_meta (update_proc p f s) = s_meta s"
  "map fst (s_procs (update_proc p f s)) = map fst (s_procs s)"
  by (simp_all add: update_proc_def comp_def case_prod_unfold)

lemma open_lane_sel [simp]:
  "s_file (open_lane p fd f s) = (s_file s)(s_next s := f)" "s_mode (open_lane p fd f s) = (s_mode s)(s_next s := None)"
  "s_next (open_lane p fd f s) = Suc (s_next s)" "s_content (open_lane p fd f s) = s_content s"
  "s_entrants (open_lane p fd f s) = s_entrants s" "s_born (open_lane p fd f s) = s_born s"
  "s_queue (open_lane p fd f s) = s_queue s" "s_meta (open_lane p fd f s) = s_meta s"
  "map fst (s_procs (open_lane p fd f s)) = map fst (s_procs s)"
  by (simp_all add: open_lane_def Let_def)

lemma close_files_sel [simp]:
  "s_file (close_files p is s) = s_file s" "s_mode (close_files p is s) = s_mode s" "s_next (close_files p is s) = s_next s"
  "s_content (close_files p is s) = s_content s" "s_entrants (close_files p is s) = s_entrants s"
  "s_born (close_files p is s) = s_born s" "s_queue (close_files p is s) = s_queue s" "s_meta (close_files p is s) = s_meta s"
  "map fst (s_procs (close_files p is s)) = map fst (s_procs s)"
  by (simp_all add: close_files_def)

lemma set_queue_sel [simp]:
  "s_procs (set_queue c ws s) = s_procs s" "s_file (set_queue c ws s) = s_file s" "s_mode (set_queue c ws s) = s_mode s"
  "s_next (set_queue c ws s) = s_next s" "s_content (set_queue c ws s) = s_content s" "s_entrants (set_queue c ws s) = s_entrants s"
  "s_born (set_queue c ws s) = s_born s" "s_queue (set_queue c ws s) = (s_queue s)(c := ws)" "s_meta (set_queue c ws s) = s_meta s"
  by (simp_all add: set_queue_def)

lemma map_of_update_proc:
  "map_of (map (\<lambda>(a, q). (a, if a = p then f q else q)) ps) a = map_option (\<lambda>q. if a = p then f q else q) (map_of ps a)"
  by (induction ps) auto

lemma fds_of_update:
  "fds_of a (update_proc p f s) = (case map_of (s_procs s) a of Some q \<Rightarrow> q_fds (if a = p then f q else q) | None \<Rightarrow> [])"
  by (simp add: fds_of_def update_proc_def map_of_update_proc split: option.splits)

lemma fds_of_procs: "s_procs s = s_procs s' \<Longrightarrow> fds_of p s = fds_of p s'"
  by (simp add: fds_of_def)

lemma in_proc_close [simp]: "in_proc (close_files p is s) a i \<longleftrightarrow> in_proc s a i \<and> \<not> (a = p \<and> i \<in> set is)"
  unfolding close_files_def in_proc_def fds_of_update by (auto simp: fds_of_def image_iff split: option.splits)

lemma in_proc_open_lane:
  assumes "p \<in> fst ` set (s_procs s)"
  shows "in_proc (open_lane p fd f s) a i \<longleftrightarrow> in_proc s a i \<or> (a = p \<and> i = s_next s)"
proof -
  have "\<exists>q. map_of (s_procs s) p = Some q" using assms by (metis map_of_eq_None_iff not_None_eq)
  then obtain q where q: "map_of (s_procs s) p = Some q" by blast
  have "fds_of a (open_lane p fd f s) = fds_of a (update_proc p (\<lambda>q. q\<lparr>q_fds := (fd, s_next s) # q_fds q\<rparr>) s)"
    by (rule fds_of_procs) (simp add: open_lane_def Let_def)
  then have fds: "fds_of a (open_lane p fd f s) = (if a = p then (fd, s_next s) # fds_of a s else fds_of a s)"
    using q unfolding fds_of_update by (simp add: fds_of_def split: option.splits)
  show ?thesis unfolding in_proc_def fds by auto
qed

lemma in_proc_same [simp]:
  "in_proc (put k x s) p i = in_proc s p i" "in_proc (set_mode j m s) p i = in_proc s p i" "in_proc (set_queue c ws s) p i = in_proc s p i"
  by (simp_all add: in_proc_def fds_of_def)

section \<open>System calls keep the locks apart\<close>

lemma kernel_mono:
  assumes "kernel_ok s" "set (open_files s') \<subseteq> set (open_files s)" "s_file s' = s_file s" "s_mode s' = s_mode s"
    and "s_next s' = s_next s" "distinct (map fst (s_procs s'))"
  shows "kernel_ok s'"
  using assms unfolding kernel_ok_def locks_ok_def by (metis subsetD)

lemma open_files_procs: "s_procs s = s_procs s' \<Longrightarrow> open_files s = open_files s'"
  by (simp add: open_files_def)

lemma kernel_put [simp]: "kernel_ok (put k x s) = kernel_ok s" "kernel_ok (set_queue c ws s) = kernel_ok s"
  by (simp_all add: kernel_ok_def locks_ok_def open_files_def)

lemma kernel_drop: "kernel_ok s \<Longrightarrow> kernel_ok (set_mode i None s)"
  unfolding kernel_ok_def locks_ok_def by (auto simp: open_files_def clash_def)

lemma kernel_lock:
  assumes "kernel_ok s" "can_lock i m s"
  shows "kernel_ok (set_mode i (Some m) s)"
proof -
  have o: "open_files (set_mode i (Some m) s) = open_files s" by (simp add: open_files_def)
  have free: "\<not> clash m (s_mode s j)" if "j \<in> set (open_files s)" "j \<noteq> i" "s_file s j = s_file s i" for j
    using assms(2) that by (auto simp: can_lock_def list_all_iff)
  have "\<not> clash m' (s_mode (set_mode i (Some m) s) b)"
    if "a \<in> set (open_files s)" "b \<in> set (open_files s)" "a \<noteq> b" "s_file s a = s_file s b" "s_mode (set_mode i (Some m) s) a = Some m'"
    for a b m'
  proof (cases "a = i")
    case True
    then show ?thesis using free [of b] that by simp
  next
    case False
    then have ma: "s_mode s a = Some m'" using that(5) by simp
    show ?thesis
    proof (cases "b = i")
      case True
      then show ?thesis using free [of a] False that ma by (simp add: clash_sym [of m' m])
    next
      case b: False
      have "locks_ok s" using assms(1) by (simp add: kernel_ok_def)
      then have "\<not> clash m' (s_mode s b)" using that(1-4) ma unfolding locks_ok_def by blast
      then show ?thesis using b by simp
    qed
  qed
  then show ?thesis using assms(1) by (auto simp: kernel_ok_def locks_ok_def o)
qed

lemma open_files_open_lane: "set (open_files (open_lane p fd f s)) \<subseteq> insert (s_next s) (set (open_files s))"
  by (force simp: open_iff open_lane_def update_proc_def Let_def split: if_splits)

lemma kernel_open_lane:
  assumes "kernel_ok s"
  shows "kernel_ok (open_lane p fd f s)"
proof -
  let ?n = "s_next s"
  have lt: "\<forall>i\<in>set (open_files s). i < ?n" and locks: "locks_ok s" using assms by (simp_all add: kernel_ok_def)
  have sub: "i = ?n \<or> i \<in> set (open_files s)" if "i \<in> set (open_files (open_lane p fd f s))" for i
    using that open_files_open_lane by blast
  have "locks_ok (open_lane p fd f s)"
    unfolding locks_ok_def
  proof (intro ballI allI impI, elim conjE)
    fix i j m
    assume a: "i \<in> set (open_files (open_lane p fd f s))" "j \<in> set (open_files (open_lane p fd f s))" "i \<noteq> j"
      "s_file (open_lane p fd f s) i = s_file (open_lane p fd f s) j" "s_mode (open_lane p fd f s) i = Some m"
    show "\<not> clash m (s_mode (open_lane p fd f s) j)"
    proof (cases "j = ?n")
      case True
      then show ?thesis by (simp add: clash_def)
    next
      case False
      have "i \<noteq> ?n" using a(5) by auto
      then show ?thesis using False a sub [OF a(1)] sub [OF a(2)] locks unfolding locks_ok_def by auto
    qed
  qed
  moreover have "\<forall>i\<in>set (open_files (open_lane p fd f s)). i < Suc ?n" using sub lt by fastforce
  ultimately show ?thesis using assms unfolding kernel_ok_def by simp
qed

lemma kernel_close:
  assumes "kernel_ok s"
  shows "kernel_ok (close_files p is s)"
proof (rule kernel_mono [OF assms])
  show "set (open_files (close_files p is s)) \<subseteq> set (open_files s)"
    by (force simp: open_iff close_files_def update_proc_def split: if_splits)
  show "distinct (map fst (s_procs (close_files p is s)))" using assms by (simp add: kernel_ok_def)
qed simp_all

section \<open>What an entrant relies on\<close>

definition files_ok :: "sys \<Rightarrow> entrant \<Rightarrow> bool" where
  "files_ok s x \<longleftrightarrow>
     s_file s (x_admission x) = AdmissionFile (x_lane x) \<and> s_file s (x_activity x) = ActivityFile (x_lane x)
     \<and> (\<forall>a b. x_spare x = Some (a, b) \<longrightarrow>
          x_lane x = HeavyLane \<and> s_file s a = AdmissionFile SpareLane \<and> s_file s b = ActivityFile SpareLane)
     \<and> (\<forall>b. x_branch x = Some b \<longrightarrow> s_file s b = DepthFile (x_lane x) (x_depth x) \<and> 0 < x_depth x)"

definition carries :: "sys \<Rightarrow> entrant \<Rightarrow> bool" where
  "carries s x \<longleftrightarrow> x_gen x \<noteq> None \<and> s_content s (x_lane x) = x_gen x"

definition pc_ok :: "sys \<Rightarrow> entrant \<Rightarrow> bool" where
  "pc_ok s x \<longleftrightarrow>
     (case x_pc x of
        Recheck \<Rightarrow> s_mode s (x_activity x) = Some Shared \<and> x_branch x = None \<and> x_spare x = None
      | WaitBranch \<Rightarrow> s_mode s (x_activity x) = Some Shared \<and> carries s x \<and> x_branch x \<noteq> None
      | Enqueue \<Rightarrow> x_lane x = class_lane (x_class x) \<and> x_branch x = None \<and> x_spare x = None
      | Waiting \<Rightarrow> x_branch x = None
      | TryAdmission spare \<Rightarrow> x_branch x = None \<and> (spare \<longrightarrow> x_spare x \<noteq> None)
      | TryActivity spare \<Rightarrow>
          x_branch x = None \<and> (spare \<longrightarrow> x_spare x \<noteq> None) \<and> s_mode s (chosen_admission x spare) = Some Exclusive
      | Dequeue spare \<Rightarrow>
          x_branch x = None \<and> (spare \<longrightarrow> x_spare x \<noteq> None) \<and> s_mode s (chosen_admission x spare) = Some Exclusive
          \<and> s_mode s (chosen_activity x spare) = Some Exclusive
      | WriteGeneration \<Rightarrow>
          x_branch x = None \<and> s_mode s (x_admission x) = Some Exclusive \<and> s_mode s (x_activity x) = Some Exclusive
      | Release \<Rightarrow> x_branch x = None \<and> x_depth x = 0 \<and> s_mode s (x_admission x) = Some Exclusive \<and> carries s x
      | Share \<Rightarrow> x_branch x = None \<and> x_depth x = 0 \<and> s_mode s (x_admission x) = Some Exclusive \<and> carries s x
      | Active \<Rightarrow>
          s_mode s (x_activity x) = Some Shared \<and> carries s x
          \<and> (case x_branch x of
               Some b \<Rightarrow> s_mode s b = Some Exclusive
             | None \<Rightarrow> x_depth x = 0 \<and> s_mode s (x_admission x) = Some Exclusive)
      | _ \<Rightarrow> x_branch x = None \<and> x_spare x = None)"

definition entrant_ok :: "sys \<Rightarrow> entrant \<Rightarrow> bool" where
  "entrant_ok s x \<longleftrightarrow> (\<forall>i\<in>set (own_files x). in_proc s (x_pid x) i) \<and> files_ok s x \<and> pc_ok s x"

definition depends :: "entrant \<Rightarrow> bool" where
  "depends x \<longleftrightarrow> x_pc x \<in> {WaitBranch, Release, Share, Active}"

text \<open>What another entrant's step has to leave alone.\<close>

definition frame :: "sys \<Rightarrow> sys \<Rightarrow> entrant \<Rightarrow> bool" where
  "frame s s' x \<longleftrightarrow>
     (\<forall>i\<in>set (own_files x). s_mode s' i = s_mode s i \<and> s_file s' i = s_file s i \<and> (in_proc s (x_pid x) i \<longrightarrow> in_proc s' (x_pid x) i))
     \<and> (depends x \<longrightarrow> s_content s' (x_lane x) = s_content s (x_lane x))"

lemma frame_refl [simp]: "frame s s x"
  by (simp add: frame_def)

lemma frame_trans: "frame s s' x \<Longrightarrow> frame s' s'' x \<Longrightarrow> frame s s'' x"
  by (simp add: frame_def)

lemma own_files_mem:
  "x_admission x \<in> set (own_files x)" "x_activity x \<in> set (own_files x)"
  "x_spare x = Some (a, b) \<Longrightarrow> a \<in> set (own_files x) \<and> b \<in> set (own_files x)"
  "x_branch x = Some c \<Longrightarrow> c \<in> set (own_files x)"
  "chosen_admission x spare \<in> set (own_files x)" "chosen_activity x spare \<in> set (own_files x)"
  by (auto simp: own_files_def chosen_admission_def chosen_activity_def split: option.splits)

lemma entrant_ok_frame:
  assumes "entrant_ok s x" "frame s s' x"
  shows "entrant_ok s' x"
proof -
  have m: "s_mode s' i = s_mode s i" "s_file s' i = s_file s i" if "i \<in> set (own_files x)" for i
    using assms(2) that by (simp_all add: frame_def)
  note eqs = m [OF own_files_mem(1)] m [OF own_files_mem(2)] m [OF own_files_mem(5)] m [OF own_files_mem(6)]
  have sp: "s_file s' a = s_file s a \<and> s_file s' b = s_file s b" if "x_spare x = Some (a, b)" for a b
    using m own_files_mem(3) [OF that] by blast
  have br: "s_mode s' b = s_mode s b \<and> s_file s' b = s_file s b" if "x_branch x = Some b" for b
    using m own_files_mem(4) [OF that] by blast
  have c: "carries s' x = carries s x" if "depends x" using assms(2) that by (simp add: frame_def carries_def)
  have "files_ok s' x" using assms(1) eqs sp br by (simp add: entrant_ok_def files_ok_def)
  moreover have "pc_ok s' x"
    using assms(1) eqs br c unfolding entrant_ok_def pc_ok_def by (cases "x_pc x") (auto simp: depends_def split: option.splits)
  moreover have "\<forall>i\<in>set (own_files x). in_proc s' (x_pid x) i"
    using assms by (simp add: entrant_ok_def frame_def)
  ultimately show ?thesis by (simp add: entrant_ok_def)
qed

lemma frame_simps [simp]:
  "frame s (put k y s') x = frame s s' x" "frame s (set_queue c ws s') x = frame s s' x"
  by (simp_all add: frame_def)

lemma frame_set_mode: "frame s s' x \<Longrightarrow> i \<notin> set (own_files x) \<Longrightarrow> frame s (set_mode i m s') x"
  by (auto simp: frame_def)

lemma frame_close: "frame s s' x \<Longrightarrow> set is \<inter> set (own_files x) = {} \<Longrightarrow> frame s (close_files p is s') x"
  by (auto simp: frame_def)

lemma frame_open:
  assumes "frame s s' x" "s_next s' \<notin> set (own_files x)" "p \<in> fst ` set (s_procs s')"
  shows "frame s (open_lane p fd f s') x"
  using assms(1,2) by (auto simp: frame_def in_proc_open_lane [OF assms(3)])

section \<open>The invariant\<close>

definition lanes_ok :: "sys \<Rightarrow> bool" where
  "lanes_ok s \<longleftrightarrow>
     kernel_ok s
     \<and> (\<forall>k x. s_entrants s k = Some x \<longrightarrow> k < s_born s \<and> entrant_ok s x)
     \<and> (\<forall>k x k' x'. s_entrants s k = Some x \<and> s_entrants s k' = Some x' \<and> k \<noteq> k' \<longrightarrow> set (own_files x) \<inter> set (own_files x') = {})"

lemma own_lt_next:
  assumes "lanes_ok s" "s_entrants s k = Some x" "i \<in> set (own_files x)"
  shows "i < s_next s"
  using assms in_proc_open unfolding lanes_ok_def kernel_ok_def entrant_ok_def by blast

text \<open>A step of one entrant: it keeps the locks apart, leaves the others alone, and ends well itself.\<close>

lemma lanes_step:
  assumes "lanes_ok s" "kernel_ok s'" "s_entrants s' = (s_entrants s)(k := r)" "s_born s \<le> s_born s'" "k < s_born s'"
    and others: "\<And>k' x'. s_entrants s k' = Some x' \<Longrightarrow> k' \<noteq> k \<Longrightarrow> frame s s' x'"
    and self: "\<And>y. r = Some y \<Longrightarrow> entrant_ok s' y"
    and fresh: "\<And>y i. r = Some y \<Longrightarrow> i \<in> set (own_files y) \<Longrightarrow>
      s_next s \<le> i \<or> (\<exists>x. s_entrants s k = Some x \<and> i \<in> set (own_files x))"
  shows "lanes_ok s'"
proof -
  have old: "j < s_born s \<and> entrant_ok s x" if "s_entrants s j = Some x" for j x
    using assms(1) that by (simp add: lanes_ok_def)
  have apart: "set (own_files y) \<inter> set (own_files x') = {}" if "r = Some y" "s_entrants s k' = Some x'" "k' \<noteq> k" for y k' x'
  proof -
    have "i \<notin> set (own_files x')" if "i \<in> set (own_files y)" for i
      using fresh [OF \<open>r = Some y\<close> that]
    proof
      assume "s_next s \<le> i"
      then show ?thesis using own_lt_next [OF assms(1) \<open>s_entrants s k' = Some x'\<close>, of i] by linarith
    next
      assume "\<exists>x. s_entrants s k = Some x \<and> i \<in> set (own_files x)"
      then show ?thesis using assms(1) \<open>s_entrants s k' = Some x'\<close> \<open>k' \<noteq> k\<close> unfolding lanes_ok_def by blast
    qed
    then show ?thesis by blast
  qed
  have "j < s_born s' \<and> entrant_ok s' x" if "s_entrants s' j = Some x" for j x
  proof (cases "j = k")
    case True
    then show ?thesis using that assms(3,5) self by simp
  next
    case False
    then have "s_entrants s j = Some x" using that assms(3) by simp
    then show ?thesis using old [of j x] entrant_ok_frame [OF _ others [OF _ False]] assms(4) by fastforce
  qed
  moreover have "set (own_files x) \<inter> set (own_files x') = {}"
    if "s_entrants s' j = Some x" "s_entrants s' j' = Some x'" "j \<noteq> j'" for j x j' x'
  proof (cases "j = k")
    case True
    then show ?thesis using that assms(3) apart [of x j' x'] by simp
  next
    case j: False
    show ?thesis
    proof (cases "j' = k")
      case True
      then show ?thesis using that j assms(3) apart [of x' j x] by auto
    next
      case False
      then show ?thesis using that j assms(1,3) unfolding lanes_ok_def by auto
    qed
  qed
  ultimately show ?thesis using assms(2) unfolding lanes_ok_def by blast
qed

section \<open>Steps that only lock and unlock\<close>

definition same_files :: "sys \<Rightarrow> sys \<Rightarrow> bool" where
  "same_files s s' \<longleftrightarrow>
     s_procs s' = s_procs s \<and> s_file s' = s_file s \<and> s_next s' = s_next s \<and> s_content s' = s_content s
     \<and> s_entrants s' = s_entrants s \<and> s_born s' = s_born s"

lemma own_files_pc [simp]: "own_files (x\<lparr>x_pc := c\<rparr>) = own_files x"
  by (simp add: own_files_def)

lemma in_proc_procs: "s_procs s' = s_procs s \<Longrightarrow> in_proc s' p i = in_proc s p i"
  by (simp add: in_proc_def fds_of_def)

lemma files_ok_pc [simp]: "files_ok s (x\<lparr>x_pc := c\<rparr>) = files_ok s x"
  by (simp add: files_ok_def)

lemma chosen_pc [simp]:
  "chosen_admission (x\<lparr>x_pc := c\<rparr>) spare = chosen_admission x spare" "chosen_activity (x\<lparr>x_pc := c\<rparr>) spare = chosen_activity x spare"
  by (simp_all add: chosen_admission_def chosen_activity_def split: option.split)

lemma carries_pc [simp]: "carries s (x\<lparr>x_pc := c\<rparr>) = carries s x"
  by (simp add: carries_def)

lemma pc_ok_cong:
  assumes "s_mode s2 = s_mode s1" "s_content s2 = s_content s1"
  shows "pc_ok s2 x = pc_ok s1 x"
  unfolding pc_ok_def carries_def assms ..

lemma pc_ok_put [simp]: "pc_ok (put k y s) x = pc_ok s x"
  by (rule pc_ok_cong) simp_all

lemma lanes_modes:
  assumes "lanes_ok s" "s_entrants s k = Some x" "same_files s s1" "\<And>i. i \<notin> set (own_files x) \<Longrightarrow> s_mode s1 i = s_mode s i"
    and "kernel_ok s1" "pc_ok s1 (x\<lparr>x_pc := c\<rparr>)"
  shows "lanes_ok (goto k x c s1)"
proof -
  have same: "s_procs s1 = s_procs s" "s_file s1 = s_file s" "s_next s1 = s_next s" "s_content s1 = s_content s"
    "s_entrants s1 = s_entrants s" "s_born s1 = s_born s" using assms(3) by (simp_all add: same_files_def)
  have ok: "k < s_born s" "entrant_ok s x" using assms(1,2) by (simp_all add: lanes_ok_def)
  show ?thesis
  proof (rule lanes_step [OF assms(1), where k = k and r = "Some (x\<lparr>x_pc := c\<rparr>)"])
    fix k' x' assume o: "s_entrants s k' = Some x'" "k' \<noteq> k"
    then have "set (own_files x) \<inter> set (own_files x') = {}" using assms(1,2) unfolding lanes_ok_def by blast
    then show "frame s (goto k x c s1) x'" using assms(4) same by (auto simp: goto_put frame_def in_proc_procs [OF same(1)])
  next
    fix y assume y: "Some (x\<lparr>x_pc := c\<rparr>) = Some y"
    show "entrant_ok (goto k x c s1) y"
      using y assms(6) ok(2) same by (auto simp: goto_put entrant_ok_def files_ok_def in_proc_procs [OF same(1)])
  qed (use assms(2,5) ok same in \<open>auto simp: goto_put\<close>)
qed

lemma lanes_goto:
  assumes "lanes_ok s" "s_entrants s k = Some x" "pc_ok s (x\<lparr>x_pc := c\<rparr>)"
  shows "lanes_ok (goto k x c s)"
  by (rule lanes_modes [OF assms(1,2) _ _ _ assms(3)]) (use assms(1) in \<open>simp_all add: same_files_def lanes_ok_def\<close>)

lemma lanes_shared [simp]:
  "lanes_ok (set_queue c ws s) = lanes_ok s" "lanes_ok (s\<lparr>s_meta := m\<rparr>) = lanes_ok s" "lanes_ok (s\<lparr>s_queue := q\<rparr>) = lanes_ok s"
proof -
  have e: "lanes_ok s2 = lanes_ok s1"
    if "same_files s1 s2" "s_mode s2 = s_mode s1" for s1 s2
  proof -
    have "kernel_ok s2 = kernel_ok s1" using that by (simp add: same_files_def kernel_ok_def locks_ok_def open_files_def)
    moreover have "entrant_ok s2 x = entrant_ok s1 x" for x
      using that pc_ok_cong [of s2 s1 x] by (simp add: same_files_def entrant_ok_def files_ok_def in_proc_def fds_of_def)
    ultimately show ?thesis using that by (simp add: same_files_def lanes_ok_def)
  qed
  show "lanes_ok (set_queue c ws s) = lanes_ok s" "lanes_ok (s\<lparr>s_meta := m\<rparr>) = lanes_ok s" "lanes_ok (s\<lparr>s_queue := q\<rparr>) = lanes_ok s"
    by (rule e; simp add: same_files_def)+
qed

lemma entrant_facts:
  assumes "lanes_ok s" "s_entrants s k = Some x"
  shows "kernel_ok s" "entrant_ok s x" "files_ok s x" "pc_ok s x" "k < s_born s" "\<forall>i\<in>set (own_files x). in_proc s (x_pid x) i"
  using assms by (auto simp: lanes_ok_def entrant_ok_def)

text \<open>A non-blocking lock request of the entrant, then a jump.\<close>

lemma lanes_try:
  assumes "lanes_ok s" "s_entrants s k = Some x" "i \<in> set (own_files x)"
    and "pc_ok (set_mode i (Some m) s) (x\<lparr>x_pc := c\<rparr>)"
    and "lanes_ok (refused (set_mode i None s))"
  shows "lanes_ok (try_flock i m (goto k x c) refused s)"
proof (cases "can_lock i m s")
  case True
  have "lanes_ok (goto k x c (set_mode i (Some m) s))"
    by (rule lanes_modes [OF assms(1,2) _ _ kernel_lock [OF entrant_facts(1) [OF assms(1,2)] True] assms(4)])
      (use assms(3) in \<open>auto simp: same_files_def\<close>)
  with True show ?thesis by (simp add: try_flock_def)
qed (use assms(5) in \<open>simp add: try_flock_def\<close>)

lemma lanes_dropped:
  assumes "lanes_ok s" "s_entrants s k = Some x" "i \<in> set (own_files x)" "pc_ok (set_mode i None s) (x\<lparr>x_pc := c\<rparr>)"
  shows "lanes_ok (goto k x c (set_mode i None s))"
  by (rule lanes_modes [OF assms(1,2) _ _ kernel_drop [OF entrant_facts(1) [OF assms(1,2)]] assms(4)])
    (use assms(3) in \<open>auto simp: same_files_def\<close>)

text \<open>The descriptions of one entrant are distinct, because their files are.\<close>

lemma own_distinct:
  assumes "files_ok s x"
  shows "x_admission x \<noteq> x_activity x" "chosen_admission x spare \<noteq> chosen_activity x spare"
    "x_branch x = Some b \<Longrightarrow> b \<noteq> x_admission x \<and> b \<noteq> x_activity x"
  using assms by (auto simp: files_ok_def chosen_admission_def chosen_activity_def split: option.splits)

lemma lanes_busy:
  assumes "lanes_ok s" "s_entrants s k = Some x" "same_files s s1" "\<And>i. i \<notin> set (own_files x) \<Longrightarrow> s_mode s1 i = s_mode s i"
    and "kernel_ok s1" "x_branch x = None"
  shows "lanes_ok (lane_busy inp k x spare s1)"
proof -
  have "lanes_ok (goto k x (TryAdmission True) s1)" if "x_spare x \<noteq> None"
    by (rule lanes_modes [OF assms(1-5)]) (use that assms(6) in \<open>auto simp: pc_ok_def\<close>)
  moreover have "lanes_ok (goto k x Waiting (s1\<lparr>s_meta := None\<rparr>))"
  proof -
    have "lanes_ok (goto k x Waiting s1)" by (rule lanes_modes [OF assms(1-5)]) (use assms(6) in \<open>auto simp: pc_ok_def\<close>)
    then have "lanes_ok ((goto k x Waiting s1)\<lparr>s_meta := None\<rparr>)" by simp
    moreover have "(goto k x Waiting s1)\<lparr>s_meta := None\<rparr> = goto k x Waiting (s1\<lparr>s_meta := None\<rparr>)" by (simp add: goto_def put_def)
    ultimately show ?thesis by simp
  qed
  ultimately show ?thesis by (simp add: lane_busy_def)
qed

section \<open>Steps that open and close\<close>

lemma kernel_fields [simp]:
  "kernel_ok (s\<lparr>s_entrants := e\<rparr>) = kernel_ok s" "kernel_ok (s\<lparr>s_queue := q\<rparr>) = kernel_ok s" "kernel_ok (s\<lparr>s_meta := m\<rparr>) = kernel_ok s"
  "kernel_ok (s\<lparr>s_born := n\<rparr>) = kernel_ok s" "kernel_ok (s\<lparr>s_content := c\<rparr>) = kernel_ok s" "kernel_ok (s\<lparr>s_uuids := u\<rparr>) = kernel_ok s"
  by (simp_all add: kernel_ok_def locks_ok_def open_files_def)

lemma in_proc_fields [simp]:
  "in_proc (s\<lparr>s_entrants := e\<rparr>) p i = in_proc s p i" "in_proc (s\<lparr>s_queue := q\<rparr>) p i = in_proc s p i"
  "in_proc (s\<lparr>s_meta := m\<rparr>) p i = in_proc s p i" "in_proc (s\<lparr>s_born := n\<rparr>) p i = in_proc s p i"
  "in_proc (s\<lparr>s_content := c\<rparr>) p i = in_proc s p i" "in_proc (s\<lparr>s_uuids := u\<rparr>) p i = in_proc s p i"
  by (simp_all add: in_proc_def fds_of_def)

lemma frame_fields [simp]:
  "frame s (s'\<lparr>s_entrants := e\<rparr>) x = frame s s' x" "frame s (s'\<lparr>s_queue := q\<rparr>) x = frame s s' x"
  "frame s (s'\<lparr>s_meta := m\<rparr>) x = frame s s' x" "frame s (s'\<lparr>s_born := n\<rparr>) x = frame s s' x"
  by (simp_all add: frame_def)

lemma pc_ok_fields [simp]:
  "pc_ok (s\<lparr>s_entrants := e\<rparr>) x = pc_ok s x" "pc_ok (s\<lparr>s_queue := q\<rparr>) x = pc_ok s x" "pc_ok (s\<lparr>s_meta := m\<rparr>) x = pc_ok s x"
  "pc_ok (s\<lparr>s_born := n\<rparr>) x = pc_ok s x" "pc_ok (set_queue c ws s) x = pc_ok s x"
  by (rule pc_ok_cong; simp)+

lemma pc_ok_close [simp]: "pc_ok (close_files p is s) x = pc_ok s x"
  by (rule pc_ok_cong) simp_all

lemma in_proc_pid: "in_proc s p i \<Longrightarrow> p \<in> fst ` set (s_procs s)"
  by (cases "map_of (s_procs s) p") (auto simp: in_proc_def fds_of_def dest: map_of_SomeD intro: rev_image_eqI)

lemma procs_fst: "fst ` set (s_procs s) = set (map fst (s_procs s))"
  by simp

lemma apart:
  assumes "lanes_ok s" "s_entrants s k = Some x" "s_entrants s k' = Some x'" "k' \<noteq> k"
  shows "set (own_files x) \<inter> set (own_files x') = {}"
  using assms unfolding lanes_ok_def by blast

text \<open>Leaving, perhaps after dropping own locks.\<close>

lemma lanes_leave:
  assumes "lanes_ok s" "s_entrants s k = Some x" "same_files s s1" "\<And>i. i \<notin> set (own_files x) \<Longrightarrow> s_mode s1 i = s_mode s i"
    and "kernel_ok s1"
  shows "lanes_ok (leave k x s1)"
proof -
  have same: "s_procs s1 = s_procs s" "s_file s1 = s_file s" "s_content s1 = s_content s" "s_entrants s1 = s_entrants s" "s_born s1 = s_born s"
    using assms(3) by (simp_all add: same_files_def)
  let ?s2 = "(close_files (x_pid x) (own_files x) s1)\<lparr>s_entrants := (s_entrants s1)(k := None)\<rparr>"
  have "lanes_ok ?s2"
  proof (rule lanes_step [OF assms(1), where k = k and r = None])
    show "kernel_ok ?s2" using kernel_close [OF assms(5)] by simp
    fix k' x' assume o: "s_entrants s k' = Some x'" "k' \<noteq> k"
    have "frame s s1 x'"
      using assms(4) apart [OF assms(1,2) o] same by (auto simp: frame_def in_proc_procs [OF same(1)])
    then show "frame s ?s2 x'" using apart [OF assms(1,2) o] by (simp add: frame_close)
  qed (use entrant_facts(5) [OF assms(1,2)] same in simp_all)
  then show ?thesis by (simp add: leave_def)
qed

text \<open>Opening the two files of a lane.\<close>

lemma open_pair:
  assumes "kernel_ok s" "p \<in> fst ` set (s_procs s)" and s'_def: "s' = open_lane p b (ActivityFile l) (open_lane p a (AdmissionFile l) s)"
  shows "kernel_ok s'" "s_next s' = Suc (Suc (s_next s))" "in_proc s' p (s_next s)" "in_proc s' p (Suc (s_next s))"
    "in_proc s q i \<Longrightarrow> in_proc s' q i"
    "s_file s' (s_next s) = AdmissionFile l" "s_file s' (Suc (s_next s)) = ActivityFile l"
    "\<And>x. (\<And>i. i \<in> set (own_files x) \<Longrightarrow> i < s_next s) \<Longrightarrow> frame s s' x"
    "\<And>i. i < s_next s \<Longrightarrow> s_file s' i = s_file s i \<and> s_mode s' i = s_mode s i"
    "s_content s' = s_content s" "s_entrants s' = s_entrants s" "s_born s' = s_born s" "fst ` set (s_procs s') = fst ` set (s_procs s)"
proof -
  let ?s1 = "open_lane p a (AdmissionFile l) s"
  have p1: "p \<in> fst ` set (s_procs ?s1)" using assms(2) unfolding procs_fst by simp
  note ip = in_proc_open_lane [OF assms(2)] in_proc_open_lane [OF p1]
  show "kernel_ok s'" unfolding s'_def by (intro kernel_open_lane assms(1))
  show "in_proc s' p (s_next s)" "in_proc s' p (Suc (s_next s))" "in_proc s q i \<Longrightarrow> in_proc s' q i" unfolding s'_def by (simp_all add: ip)
  show "frame s s' x" if "\<And>i. i \<in> set (own_files x) \<Longrightarrow> i < s_next s" for x
  proof -
    have n: "s_next s \<notin> set (own_files x)" "s_next ?s1 \<notin> set (own_files x)" using that [of "s_next s"] that [of "s_next ?s1"] by auto
    show ?thesis unfolding s'_def by (rule frame_open [OF frame_open [OF frame_refl n(1) assms(2)] n(2) p1])
  qed
  show "fst ` set (s_procs s') = fst ` set (s_procs s)" unfolding procs_fst s'_def by simp
qed (simp_all add: s'_def)

lemma entrant_pid: "lanes_ok s \<Longrightarrow> s_entrants s k = Some x \<Longrightarrow> x_pid x \<in> fst ` set (s_procs s)"
  using entrant_facts(6) own_files_mem(1) in_proc_pid by blast

lemma lanes_recheck:
  assumes "lanes_ok s" "s_entrants s k = Some x" "x_pc x = Recheck" "recheck inp k x s = Some s'"
  shows "lanes_ok s'"
proof -
  note f = entrant_facts [OF assms(1,2)]
  have old: "s_mode s (x_activity x) = Some Shared" "x_branch x = None" "x_spare x = None" using f(4) assms(3) by (simp_all add: pc_ok_def)
  have none: "lanes_ok (goto k x NotInherited s)" by (rule lanes_goto [OF assms(1,2)]) (use old in \<open>simp add: pc_ok_def\<close>)
  have out: "lanes_ok (leave k x s)" by (rule lanes_leave [OF assms(1,2) _ _ f(1)]) (simp_all add: same_files_def)
  let ?n = "s_next s" and ?p = "x_pid x"
  have joined: "lanes_ok (put k (x\<lparr>x_branch := Some ?n, x_depth := Suc d, x_gen := Some g, x_pc := WaitBranch\<rparr>)
      (open_lane ?p fd (DepthFile (x_lane x) (Suc d)) s))" (is "lanes_ok ?s'")
    if g: "s_content s (x_lane x) = Some g" for g d fd
  proof -
    let ?y = "x\<lparr>x_branch := Some ?n, x_depth := Suc d, x_gen := Some g, x_pc := WaitBranch\<rparr>"
    have pid: "?p \<in> fst ` set (s_procs s)" by (rule entrant_pid [OF assms(1,2)])
    have own: "set (own_files ?y) \<subseteq> insert ?n (set (own_files x))" using old by (auto simp: own_files_def)
    have lt: "i < ?n" if "i \<in> set (own_files x)" for i by (rule own_lt_next [OF assms(1,2) that])
    show ?thesis
    proof (rule lanes_step [OF assms(1), where k = k and r = "Some ?y"])
      show "kernel_ok ?s'" using kernel_open_lane [OF f(1)] by simp
      show "frame s ?s' x'" if "s_entrants s k' = Some x'" "k' \<noteq> k" for k' x'
        using frame_open [OF frame_refl _ pid] own_lt_next [OF assms(1) that(1)] by fastforce
      show "entrant_ok ?s' y" if "Some ?y = Some y" for y
      proof -
        have "files_ok ?s' ?y" using f(3) lt [OF own_files_mem(1)] lt [OF own_files_mem(2)] old by (auto simp: files_ok_def)
        moreover have "pc_ok ?s' ?y" using g old lt [OF own_files_mem(2)] by (auto simp: pc_ok_def carries_def)
        moreover have "\<forall>i\<in>set (own_files ?y). in_proc ?s' ?p i" using f(6) own by (auto simp: in_proc_open_lane [OF pid])
        ultimately show ?thesis using that by (auto simp: entrant_ok_def)
      qed
    qed (use f(5) own assms(2) in auto)
  qed
  from assms(4) none out joined show ?thesis
    by (auto simp: recheck_def split: option.splits if_splits list.splits)
qed

lemma lanes_reopen:
  assumes "lanes_ok s" "s_entrants s k = Some x" "x_pc x = NotInherited" "not_inherited inp k x s = Some s'"
  shows "lanes_ok s'"
proof -
  note f = entrant_facts [OF assms(1,2)]
  have old: "x_branch x = None" "x_spare x = None" using f(4) assms(3) by (simp_all add: pc_ok_def)
  let ?n = "s_next s" and ?p = "x_pid x" and ?l = "class_lane (x_class x)"
  have stay: "lanes_ok (goto k x Enqueue s)" if "x_lane x = ?l"
    by (rule lanes_goto [OF assms(1,2)]) (use old that in \<open>auto simp: pc_ok_def\<close>)
  have "lanes_ok (put k (x\<lparr>x_lane := ?l, x_admission := ?n, x_activity := Suc ?n, x_pc := Enqueue\<rparr>)
      (close_files ?p [x_activity x, x_admission x] (open_lane ?p b (ActivityFile ?l) (open_lane ?p a (AdmissionFile ?l) s))))"
    (is "lanes_ok (put k ?y (close_files ?p ?is ?s1))") for a b
  proof -
    note op = open_pair [OF f(1) entrant_pid [OF assms(1,2)] refl, where a = a and b = b and l = ?l]
    have own: "set (own_files ?y) = {?n, Suc ?n}" using old by (auto simp: own_files_def)
    have lt: "i < ?n" if "i \<in> set (own_files x)" for i by (rule own_lt_next [OF assms(1,2) that])
    show ?thesis
    proof (rule lanes_step [OF assms(1), where k = k and r = "Some ?y"])
      show "kernel_ok (put k ?y (close_files ?p ?is ?s1))" using kernel_close [OF op(1)] by simp
      show "frame s (put k ?y (close_files ?p ?is ?s1)) x'" if o: "s_entrants s k' = Some x'" "k' \<noteq> k" for k' x'
      proof -
        have "frame s ?s1 x'" by (rule op(8)) (rule own_lt_next [OF assms(1) o(1)])
        moreover have "set ?is \<inter> set (own_files x') = {}" using apart [OF assms(1,2) o] own_files_mem(1,2) [of x] by auto
        ultimately show ?thesis using frame_close by simp
      qed
      show "entrant_ok (put k ?y (close_files ?p ?is ?s1)) y" if "Some ?y = Some y" for y
      proof -
        have "\<forall>i\<in>set (own_files ?y). in_proc (put k ?y (close_files ?p ?is ?s1)) ?p i"
          using op(3,4) lt [OF own_files_mem(1)] lt [OF own_files_mem(2)] unfolding own by auto
        moreover have "files_ok (put k ?y (close_files ?p ?is ?s1)) ?y" using op(6,7) old by (simp add: files_ok_def)
        moreover have "pc_ok (put k ?y (close_files ?p ?is ?s1)) ?y" using old by (simp add: pc_ok_def)
        ultimately show ?thesis using that by (auto simp: entrant_ok_def)
      qed
    qed (use f(5) own op in auto)
  qed
  with assms(4) stay show ?thesis by (auto simp: not_inherited_def Let_def split: if_splits list.splits)
qed

lemma class_lane_heavy: "lane_class (class_lane c) \<noteq> Light \<Longrightarrow> class_lane c = HeavyLane"
  by (cases c) simp_all

lemma append_waiter_sel [simp]:
  "kernel_ok (append_waiter inp k c s) = kernel_ok s" "in_proc (append_waiter inp k c s) p i = in_proc s p i"
  "frame s0 (append_waiter inp k c s) x = frame s0 s x" "pc_ok (append_waiter inp k c s) x = pc_ok s x"
  "s_file (append_waiter inp k c s) = s_file s" "s_entrants (append_waiter inp k c s) = s_entrants s"
  "s_born (append_waiter inp k c s) = s_born s" "lanes_ok (append_waiter inp k c s) = lanes_ok s" "s_mode (append_waiter inp k c s) = s_mode s"
  by (simp_all add: append_waiter_def)

lemma lanes_enqueue:
  assumes "lanes_ok s" "s_entrants s k = Some x" "x_pc x = Enqueue" "enqueue inp k x s = Some s'"
  shows "lanes_ok s'"
proof -
  note f = entrant_facts [OF assms(1,2)]
  have old: "x_branch x = None" "x_spare x = None" "x_lane x = class_lane (x_class x)" using f(4) assms(3) by (simp_all add: pc_ok_def)
  let ?n = "s_next s" and ?p = "x_pid x"
  have light: "lanes_ok (goto k x Waiting (append_waiter inp k Light s))"
    by (rule lanes_goto) (use assms(1,2) old in \<open>auto simp: pc_ok_def\<close>)
  have "lanes_ok (put k (x\<lparr>x_spare := Some (?n, Suc ?n), x_pc := Waiting\<rparr>)
      (append_waiter inp k Heavy (open_lane ?p b (ActivityFile SpareLane) (open_lane ?p a (AdmissionFile SpareLane) s))))"
    (is "lanes_ok (put k ?y (append_waiter inp k Heavy ?s1))") if h: "lane_class (x_lane x) \<noteq> Light" for a b
  proof -
    note op = open_pair [OF f(1) entrant_pid [OF assms(1,2)] refl, where a = a and b = b and l = SpareLane]
    have own: "set (own_files ?y) = set (own_files x) \<union> {?n, Suc ?n}" using old by (auto simp: own_files_def)
    have lt: "i < ?n" if "i \<in> set (own_files x)" for i by (rule own_lt_next [OF assms(1,2) that])
    have lane: "x_lane x = HeavyLane" using class_lane_heavy h old(3) by metis
    let ?s' = "put k ?y (append_waiter inp k Heavy ?s1)"
    show ?thesis
    proof (rule lanes_step [OF assms(1), where k = k and r = "Some ?y"])
      show "kernel_ok ?s'" using op(1) by simp
      show "frame s ?s' x'" if o: "s_entrants s k' = Some x'" "k' \<noteq> k" for k' x'
      proof -
        have "frame s ?s1 x'" by (rule op(8)) (rule own_lt_next [OF assms(1) o(1)])
        then show ?thesis by simp
      qed
      show "entrant_ok ?s' y" if "Some ?y = Some y" for y
      proof -
        have "\<forall>i\<in>set (own_files ?y). in_proc ?s' ?p i" using op(3,4,5) f(6) unfolding own by auto
        moreover have "files_ok ?s' ?y"
          using op(6,7) op(9) [OF lt [OF own_files_mem(1)]] op(9) [OF lt [OF own_files_mem(2)]] f(3) old lane by (simp add: files_ok_def)
        moreover have "pc_ok ?s' ?y" using old by (simp add: pc_ok_def)
        ultimately show ?thesis using that by (auto simp: entrant_ok_def)
      qed
    qed (use f(5) own op assms(2) in auto)
  qed
  with assms(4) light show ?thesis by (auto simp: enqueue_def Let_def split: if_splits list.splits)
qed

text \<open>Moving on to fewer files: the others of the entrant are closed.\<close>

lemma lanes_shrink:
  assumes "lanes_ok s" "s_entrants s k = Some x" "x_pid y = x_pid x" "set (own_files y) \<subseteq> set (own_files x)"
    and "set is \<subseteq> set (own_files x)" "set is \<inter> set (own_files y) = {}" "files_ok s y" "pc_ok s y"
  shows "lanes_ok (put k y (close_files (x_pid x) is s))"
proof -
  note f = entrant_facts [OF assms(1,2)]
  let ?s' = "put k y (close_files (x_pid x) is s)"
  show ?thesis
  proof (rule lanes_step [OF assms(1), where k = k and r = "Some y"])
    show "kernel_ok ?s'" using kernel_close [OF f(1)] by simp
    show "frame s ?s' x'" if o: "s_entrants s k' = Some x'" "k' \<noteq> k" for k' x'
      using frame_close [OF frame_refl, of "is" x'] apart [OF assms(1,2) o] assms(5) by auto
    show "entrant_ok ?s' y'" if "Some y = Some y'" for y'
      using that f(6) assms(3,4,6-8) by (auto simp: entrant_ok_def files_ok_def)
  qed (use f(5) assms(2,4) in auto)
qed

lemma lanes_dequeue:
  assumes "lanes_ok s" "s_entrants s k = Some x" "x_pc x = Dequeue spare"
  shows "lanes_ok (dequeue k x spare s)"
proof -
  note f = entrant_facts [OF assms(1,2)]
  have old: "x_branch x = None" "spare \<longrightarrow> x_spare x \<noteq> None" "s_mode s (chosen_admission x spare) = Some Exclusive"
    "s_mode s (chosen_activity x spare) = Some Exclusive" using f(4) assms(3) by (simp_all add: pc_ok_def)
  let ?c = "lane_class (x_lane x)"
  define s1 where "s1 = (set_queue ?c (filter (\<lambda>(_, j). j \<noteq> k) (s_queue s ?c)) s)\<lparr>s_meta := None\<rparr>"
  have s1: "lanes_ok s1" "s_entrants s1 k = Some x" "s_mode s1 = s_mode s" "files_ok s1 x"
    using assms(1,2) f(3) by (simp_all add: s1_def files_ok_def)
  show ?thesis
  proof (cases "x_spare x")
    case None
    then have "lanes_ok (goto k x WriteGeneration s1)"
      using old s1 by (intro lanes_goto) (auto simp: pc_ok_def chosen_admission_def chosen_activity_def)
    then show ?thesis using None by (simp add: dequeue_def Let_def s1_def)
  next
    case (Some ab)
    obtain a b where ab: "x_spare x = Some (a, b)" using Some by (cases ab) auto
    have fl: "x_lane x = HeavyLane" "s_file s1 a = AdmissionFile SpareLane" "s_file s1 b = ActivityFile SpareLane"
      "s_file s1 (x_admission x) = AdmissionFile HeavyLane" "s_file s1 (x_activity x) = ActivityFile HeavyLane"
      using s1(4) ab by (auto simp: files_ok_def)
    then have ne: "a \<noteq> x_admission x" "a \<noteq> x_activity x" "b \<noteq> x_admission x" "b \<noteq> x_activity x" by auto
    have own: "set (own_files x) = {x_admission x, x_activity x, a, b}" using ab old(1) by (auto simp: own_files_def)
    show ?thesis
    proof (cases spare)
      case True
      let ?y = "x\<lparr>x_lane := SpareLane, x_admission := a, x_activity := b, x_spare := None, x_pc := WriteGeneration\<rparr>"
      have "lanes_ok (put k ?y (close_files (x_pid x) [x_admission x, x_activity x] s1))"
      proof (rule lanes_shrink [OF s1(1,2)])
        have oy: "set (own_files ?y) = {a, b}" using old(1) by (auto simp: own_files_def)
        show "set (own_files ?y) \<subseteq> set (own_files x)" "set [x_admission x, x_activity x] \<subseteq> set (own_files x)"
          "set [x_admission x, x_activity x] \<inter> set (own_files ?y) = {}" unfolding oy own using ne by auto
        show "files_ok s1 ?y" using fl old(1) by (simp add: files_ok_def)
        show "pc_ok s1 ?y" using old s1(3) ab True by (simp add: pc_ok_def chosen_admission_def chosen_activity_def)
      qed simp
      then show ?thesis using True ab by (simp add: dequeue_def Let_def s1_def)
    next
      case False
      let ?y = "x\<lparr>x_spare := None, x_pc := WriteGeneration\<rparr>"
      have "lanes_ok (put k ?y (close_files (x_pid x) [a, b] s1))"
      proof (rule lanes_shrink [OF s1(1,2)])
        have oy: "set (own_files ?y) = {x_admission x, x_activity x}" using old(1) by (auto simp: own_files_def)
        show "set (own_files ?y) \<subseteq> set (own_files x)" "set [a, b] \<subseteq> set (own_files x)"
          "set [a, b] \<inter> set (own_files ?y) = {}" unfolding oy own using ne by auto
        show "files_ok s1 ?y" using fl old(1) by (simp add: files_ok_def)
        show "pc_ok s1 ?y" using old s1(3) False by (simp add: pc_ok_def chosen_admission_def chosen_activity_def)
      qed simp
      then show ?thesis using False ab by (simp add: dequeue_def Let_def s1_def)
    qed
  qed
qed

text \<open>Nobody relies on the generation of a lane while an owner holds both its locks exclusively.\<close>

lemma alone_on_lane:
  assumes "lanes_ok s" "s_entrants s k = Some x" "s_entrants s k' = Some x'" "k' \<noteq> k" "x_lane x' = x_lane x"
    and "s_mode s (x_admission x) = Some Exclusive" "s_mode s (x_activity x) = Some Exclusive"
  shows "\<not> depends x'"
proof
  assume d: "depends x'"
  note f = entrant_facts [OF assms(1,2)] and f' = entrant_facts [OF assms(1,3)]
  have locks: "locks_ok s" using f(1) by (simp add: kernel_ok_def)
  have op: "i \<in> set (open_files s)" if "i \<in> set (own_files x) \<or> i \<in> set (own_files x')" for i
    using that f(6) f'(6) in_proc_open by blast
  have files: "s_file s (x_admission x) = s_file s (x_admission x')" "s_file s (x_activity x) = s_file s (x_activity x')"
    using f(3) f'(3) assms(5) by (simp_all add: files_ok_def)
  have ne: "x_admission x \<noteq> x_admission x'" "x_activity x \<noteq> x_activity x'"
    using apart [OF assms(1-4)] own_files_mem(1,2) [of x] own_files_mem(1,2) [of x'] by auto
  have "s_mode s (x_admission x') = None"
    using locks_okD [OF locks op op files(1) assms(6)] own_files_mem(1) ne(1) by blast
  moreover have "s_mode s (x_activity x') = None"
    using locks_okD [OF locks op op files(2) assms(7)] own_files_mem(2) ne(2) by blast
  ultimately show False using f'(4) d by (auto simp: depends_def pc_ok_def)
qed

lemma lanes_write:
  assumes "lanes_ok s" "s_entrants s k = Some x" "x_pc x = WriteGeneration"
  shows "lanes_ok (write_generation k x s)"
proof -
  note f = entrant_facts [OF assms(1,2)]
  have old: "x_branch x = None" "s_mode s (x_admission x) = Some Exclusive" "s_mode s (x_activity x) = Some Exclusive"
    using f(4) assms(3) by (simp_all add: pc_ok_def)
  define g where "g = new_generation (x_pid x) s"
  let ?y = "x\<lparr>x_gen := Some g, x_depth := 0, x_pc := Release\<rparr>"
  let ?s' = "put k ?y (s\<lparr>s_content := (s_content s)(x_lane x := Some g), s_uuids := Suc (s_uuids s)\<rparr>)"
  have own: "own_files ?y = own_files x" by (simp add: own_files_def)
  have "lanes_ok ?s'"
  proof (rule lanes_step [OF assms(1), where k = k and r = "Some ?y"])
    show "kernel_ok ?s'" using f(1) by simp
    show "frame s ?s' x'" if o: "s_entrants s k' = Some x'" "k' \<noteq> k" for k' x'
      using alone_on_lane [OF assms(1,2) o _ old(2,3)] by (auto simp: frame_def)
    show "entrant_ok ?s' y" if "Some ?y = Some y" for y
      using that f(3,6) old own by (auto simp: entrant_ok_def files_ok_def pc_ok_def carries_def)
    show "s_next s \<le> i \<or> (\<exists>x. s_entrants s k = Some x \<and> i \<in> set (own_files x))" if "Some ?y = Some y" "i \<in> set (own_files y)" for y i
      using that assms(2) own by auto
  qed (use f(5) in auto)
  then show ?thesis by (simp add: write_generation_def Let_def g_def)
qed

lemma lanes_enter:
  assumes "lanes_ok s" "enter p c l t start fds s = Some s'" "start = CheckGeneration \<or> start = Probe"
  shows "lanes_ok s'"
proof -
  obtain a b where p: "p \<in> fst ` set (s_procs s)"
    and s': "s' = (put (s_born s)
        \<lparr>x_pid = p, x_class = c, x_lane = l, x_admission = s_next s, x_activity = Suc (s_next s),
         x_spare = None, x_branch = None, x_token = t, x_gen = None, x_depth = 0, x_pc = start\<rparr>
        (open_lane p b (ActivityFile l) (open_lane p a (AdmissionFile l) s)))\<lparr>s_born := Suc (s_born s)\<rparr>"
    using assms(2) by (auto simp: enter_def split: list.splits if_splits)
  let ?s1 = "open_lane p b (ActivityFile l) (open_lane p a (AdmissionFile l) s)"
  let ?y = "\<lparr>x_pid = p, x_class = c, x_lane = l, x_admission = s_next s, x_activity = Suc (s_next s),
         x_spare = None, x_branch = None, x_token = t, x_gen = None, x_depth = 0, x_pc = start\<rparr>"
  have k: "kernel_ok s" using assms(1) by (simp add: lanes_ok_def)
  note op = open_pair [OF k p refl, where a = a and b = b and l = l]
  have own: "set (own_files ?y) = {s_next s, Suc (s_next s)}" by (auto simp: own_files_def)
  show ?thesis unfolding s'
  proof (rule lanes_step [OF assms(1), where k = "s_born s" and r = "Some ?y"])
    show "kernel_ok ((put (s_born s) ?y ?s1)\<lparr>s_born := Suc (s_born s)\<rparr>)" using op(1) by simp
    show "frame s ((put (s_born s) ?y ?s1)\<lparr>s_born := Suc (s_born s)\<rparr>) x'" if o: "s_entrants s k' = Some x'" "k' \<noteq> s_born s" for k' x'
    proof -
      have "frame s ?s1 x'" by (rule op(8)) (rule own_lt_next [OF assms(1) o(1)])
      then show ?thesis by simp
    qed
    show "entrant_ok ((put (s_born s) ?y ?s1)\<lparr>s_born := Suc (s_born s)\<rparr>) y" if "Some ?y = Some y" for y
    proof -
      have "\<forall>i\<in>set (own_files ?y). in_proc ?s1 p i" using op(3,4) unfolding own by auto
      moreover have "files_ok ?s1 ?y" using op(6,7) by (simp add: files_ok_def)
      ultimately show ?thesis using that assms(3) by (auto simp: entrant_ok_def files_ok_def pc_ok_def)
    qed
  qed (use own op in auto)
qed

text \<open>Processes come and go.\<close>

lemma lanes_procs:
  assumes "lanes_ok s" "kernel_ok s'" "s_file s' = s_file s" "s_mode s' = s_mode s" "s_content s' = s_content s" "s_born s' = s_born s"
    and "\<And>k x. s_entrants s' k = Some x \<Longrightarrow> s_entrants s k = Some x \<and> (\<forall>i. in_proc s (x_pid x) i \<longrightarrow> in_proc s' (x_pid x) i)"
  shows "lanes_ok s'"
proof -
  have "k < s_born s' \<and> entrant_ok s' x" if "s_entrants s' k = Some x" for k x
  proof -
    have e: "s_entrants s k = Some x" "frame s s' x" using assms(3-5,7) that by (auto simp: frame_def)
    have "k < s_born s" "entrant_ok s x" using entrant_facts [OF assms(1) e(1)] by simp_all
    then show ?thesis using entrant_ok_frame [OF _ e(2)] assms(6) by simp
  qed
  moreover have "set (own_files x) \<inter> set (own_files x') = {}"
    if "s_entrants s' k = Some x" "s_entrants s' k' = Some x'" "k \<noteq> k'" for k x k' x'
    using apart [OF assms(1), of k x k' x'] assms(7) that by blast
  ultimately show ?thesis using assms(2) unfolding lanes_ok_def by blast
qed

lemma map_of_Cons_fresh: "q \<notin> fst ` set ps \<Longrightarrow> map_of ps a = Some r \<Longrightarrow> map_of ((q, c) # ps) a = Some r"
  by (metis map_of_Cons_code(2) map_of_eq_None_iff option.distinct(1))

lemma lanes_add_proc:
  assumes "lanes_ok s" "map_of (s_procs s) p = Some parent" "q \<notin> fst ` set (s_procs s)" "set (q_fds child) \<subseteq> set (q_fds parent)"
  shows "lanes_ok (s\<lparr>s_procs := (q, child) # s_procs s\<rparr>)"
proof (rule lanes_procs [OF assms(1)])
  have k: "kernel_ok s" using assms(1) by (simp add: lanes_ok_def)
  have "set (open_files (s\<lparr>s_procs := (q, child) # s_procs s\<rparr>)) \<subseteq> set (open_files s)"
    using assms(2,4) by (force simp: open_iff dest: map_of_SomeD)
  then show "kernel_ok (s\<lparr>s_procs := (q, child) # s_procs s\<rparr>)"
    by (rule kernel_mono [OF k]) (use k assms(3) in \<open>auto simp: kernel_ok_def\<close>)
  fix k x assume "s_entrants (s\<lparr>s_procs := (q, child) # s_procs s\<rparr>) k = Some x"
  moreover have "in_proc (s\<lparr>s_procs := (q, child) # s_procs s\<rparr>) (x_pid x) i" if "in_proc s (x_pid x) i" for i
  proof (cases "map_of (s_procs s) (x_pid x)")
    case (Some r)
    have "map_of ((q, child) # s_procs s) (x_pid x) = Some r" by (rule map_of_Cons_fresh [OF assms(3) Some])
    then show ?thesis using that Some by (simp add: in_proc_def fds_of_def split: if_splits)
  qed (use that in \<open>simp add: in_proc_def fds_of_def\<close>)
  ultimately show "s_entrants s k = Some x \<and> (\<forall>i. in_proc s (x_pid x) i \<longrightarrow> in_proc (s\<lparr>s_procs := (q, child) # s_procs s\<rparr>) (x_pid x) i)"
    by simp
qed simp_all

lemma lanes_spawn:
  assumes "lanes_ok s" "spawn p job q started kept s = Some s'"
  shows "lanes_ok s'"
proof -
  obtain parent where p: "map_of (s_procs s) p = Some parent" using assms(2) by (cases "map_of (s_procs s) p") (simp_all add: spawn_def)
  let ?child = "\<lparr>q_parent = p, q_start = started, q_fds = filter (\<lambda>(fd, _). fd \<in> set kept) (q_fds parent), q_token = q_token parent\<rparr>"
  have q: "q \<notin> fst ` set (s_procs s)" using assms(2) p by (auto simp: spawn_def Let_def split: if_splits)
  have "lanes_ok (s\<lparr>s_procs := (q, ?child\<lparr>q_token := t\<rparr>) # s_procs s\<rparr>)" for t
    by (rule lanes_add_proc [OF assms(1) p q]) auto
  moreover have "\<exists>t. s' = s\<lparr>s_procs := (q, ?child\<lparr>q_token := t\<rparr>) # s_procs s\<rparr>"
  proof (cases job)
    case None
    then have "s' = s\<lparr>s_procs := (q, ?child\<lparr>q_token := q_token parent\<rparr>) # s_procs s\<rparr>"
      using assms(2) p by (auto simp: spawn_def Let_def split: if_splits)
    then show ?thesis ..
  next
    case (Some k)
    then obtain x where "s' = s\<lparr>s_procs := (q, ?child\<lparr>q_token := work_token x s\<rparr>) # s_procs s\<rparr>"
      using assms(2) p by (auto simp: spawn_def Let_def split: if_splits option.splits)
    then show ?thesis ..
  qed
  ultimately show ?thesis by blast
qed

lemma map_of_exit:
  "a \<noteq> p \<Longrightarrow> map_of (map (\<lambda>(a, q). (a, if q_parent q = p then q\<lparr>q_parent := 1\<rparr> else q)) (filter (\<lambda>(a, _). a \<noteq> p) ps)) a
     = map_option (\<lambda>q. if q_parent q = p then q\<lparr>q_parent := 1\<rparr> else q) (map_of ps a)"
  by (induction ps) auto

lemma lanes_exit:
  assumes "lanes_ok s" "exit_proc p s = Some s'"
  shows "lanes_ok s'"
proof (rule lanes_procs [OF assms(1)])
  let ?ps = "map (\<lambda>(a, q). (a, if q_parent q = p then q\<lparr>q_parent := 1\<rparr> else q)) (filter (\<lambda>(a, _). a \<noteq> p) (s_procs s))"
  have k: "kernel_ok s" using assms(1) by (simp add: lanes_ok_def)
  have procs: "s_procs s' = ?ps" using assms(2) by (auto simp: exit_proc_def split: if_splits)
  show fields: "s_file s' = s_file s" "s_mode s' = s_mode s" "s_content s' = s_content s" "s_born s' = s_born s"
    using assms(2) by (auto simp: exit_proc_def split: if_splits)
  have sub: "i \<in> set (open_files s)" if "i \<in> set (open_files s')" for i
    using that unfolding open_iff procs by (force split: if_splits)
  have m: "map fst ?ps = map fst (filter (\<lambda>(a, _). a \<noteq> p) (s_procs s))" by (simp add: comp_def case_prod_unfold)
  have "distinct (map fst (s_procs s'))" unfolding procs m using k by (simp add: kernel_ok_def distinct_map_filter)
  then show "kernel_ok s'" using sub fields assms(2) k
    by (intro kernel_mono [OF k]) (auto simp: exit_proc_def split: if_splits)
  fix j x assume x: "s_entrants s' j = Some x"
  then have e: "s_entrants s j = Some x" "x_pid x \<noteq> p"
    using assms(2) by (auto simp: exit_proc_def split: if_splits option.splits)
  have "in_proc s' (x_pid x) i" if "in_proc s (x_pid x) i" for i
    using that map_of_exit [OF e(2), of "s_procs s"] unfolding in_proc_def fds_of_def procs by (auto split: option.splits)
  with e show "s_entrants s j = Some x \<and> (\<forall>i. in_proc s (x_pid x) i \<longrightarrow> in_proc s' (x_pid x) i)" by blast
qed

lemma lanes_setenv:
  assumes "lanes_ok s"
  shows "lanes_ok (update_proc p (\<lambda>q. q\<lparr>q_token := t\<rparr>) s)"
proof (rule lanes_procs [OF assms])
  let ?s' = "update_proc p (\<lambda>q. q\<lparr>q_token := t\<rparr>) s"
  have k: "kernel_ok s" using assms by (simp add: lanes_ok_def)
  have fds: "fds_of a ?s' = fds_of a s" for a unfolding fds_of_update by (simp add: fds_of_def split: option.split)
  have "set (open_files ?s') \<subseteq> set (open_files s)" by (force simp: open_iff update_proc_def split: if_splits)
  then show "kernel_ok ?s'" by (rule kernel_mono [OF k]) (use k in \<open>simp_all add: kernel_ok_def\<close>)
  fix j x assume "s_entrants ?s' j = Some x"
  then show "s_entrants s j = Some x \<and> (\<forall>i. in_proc s (x_pid x) i \<longrightarrow> in_proc ?s' (x_pid x) i)" by (simp add: in_proc_def fds)
qed simp_all

text \<open>Every system call keeps the invariant.\<close>

lemma lanes_advance:
  assumes "lanes_ok s" "s_entrants s k = Some x" "advance inp k x (x_pc x) s = Some s'"
  shows "lanes_ok s'"
proof -
  note f = entrant_facts [OF assms(1,2)]
  note d = own_distinct [OF f(3)]
  have same: "same_files s (set_mode i m s)" "same_files s (set_mode j m' (set_mode i m s))" for i j m m' by (simp_all add: same_files_def)
  show ?thesis
  proof (cases "x_pc x")
    case CheckGeneration
    then have "lanes_ok (goto k x c s)" if "c = NotInherited \<or> (\<exists>ps. c = Walk ps)" for c
      using that f(4) by (intro lanes_goto [OF assms(1,2)]) (auto simp: pc_ok_def)
    then show ?thesis using assms(3) CheckGeneration by (auto simp: check_generation_def split: option.splits)
  next
    case (Walk ps)
    then have "lanes_ok (goto k x c s)" if "c = NotInherited \<or> (\<exists>ps. c = Walk ps \<or> c = Join ps)" for c
      using that f(4) by (intro lanes_goto [OF assms(1,2)]) (auto simp: pc_ok_def)
    then show ?thesis using assms(3) Walk by (auto simp: walk_def split: option.splits prod.splits)
  next
    case (Join ps)
    have "lanes_ok (try_flock (x_activity x) Shared (goto k x Recheck) (goto k x (Walk ps)) s)"
      using Join f(4) by (intro lanes_try [OF assms(1,2)] lanes_dropped [OF assms(1,2)] own_files_mem(2)) (auto simp: pc_ok_def)
    then show ?thesis using assms(3) Join by simp
  next
    case Recheck
    then show ?thesis using assms(3) lanes_recheck [OF assms(1,2)] by simp
  next
    case NotInherited
    then show ?thesis using assms(3) lanes_reopen [OF assms(1,2)] by simp
  next
    case WaitBranch
    then obtain b where b: "x_branch x = Some b" using f(4) by (auto simp: pc_ok_def)
    have "lanes_ok (try_flock b Exclusive (goto k x Active) (goto k x WaitBranch) s)"
      using WaitBranch f(4) b d(3) [OF b]
      by (intro lanes_try [OF assms(1,2)] lanes_dropped [OF assms(1,2)] own_files_mem(4)) (auto simp: pc_ok_def carries_def)
    then show ?thesis using assms(3) WaitBranch b by simp
  next
    case Enqueue
    then show ?thesis using assms(3) lanes_enqueue [OF assms(1,2)] by simp
  next
    case Waiting
    then have "lanes_ok (goto k x (TryAdmission False) ((set_queue c ws s)\<lparr>s_meta := m\<rparr>))" for c ws m
      using f(4) assms(1,2) by (intro lanes_goto) (auto simp: pc_ok_def)
    then show ?thesis using assms(1,3) Waiting by (auto simp: poll_def Let_def split: if_splits)
  next
    case (TryAdmission spare)
    have "lanes_ok (try_flock (chosen_admission x spare) Exclusive (goto k x (TryActivity spare)) (lane_busy inp k x spare) s)"
    proof (rule lanes_try [OF assms(1,2) own_files_mem(5)])
      show "lanes_ok (lane_busy inp k x spare (set_mode (chosen_admission x spare) None s))"
        by (rule lanes_busy [OF assms(1,2) same(1) _ kernel_drop [OF f(1)]]) (use f(4) TryAdmission own_files_mem(5) in \<open>auto simp: pc_ok_def\<close>)
    qed (use f(4) TryAdmission in \<open>auto simp: pc_ok_def\<close>)
    then show ?thesis using assms(3) TryAdmission by simp
  next
    case (TryActivity spare)
    let ?a = "chosen_admission x spare" and ?b = "chosen_activity x spare"
    have "lanes_ok (try_flock ?b Exclusive (goto k x (Dequeue spare)) (\<lambda>s'. lane_busy inp k x spare (set_mode ?a None s')) s)"
    proof (rule lanes_try [OF assms(1,2) own_files_mem(6)])
      show "lanes_ok (lane_busy inp k x spare (set_mode ?a None (set_mode ?b None s)))"
        by (rule lanes_busy [OF assms(1,2) same(2) _ kernel_drop [OF kernel_drop [OF f(1)]]])
          (use f(4) TryActivity own_files_mem(5,6) in \<open>auto simp: pc_ok_def\<close>)
    qed (use f(4) TryActivity d(2) [of spare] in \<open>auto simp: pc_ok_def\<close>)
    then show ?thesis using assms(3) TryActivity by simp
  next
    case (Dequeue spare)
    then show ?thesis using assms(3) lanes_dequeue [OF assms(1,2)] by simp
  next
    case WriteGeneration
    then show ?thesis using assms(3) lanes_write [OF assms(1,2)] by simp
  next
    case Release
    have "lanes_ok (goto k x Share (set_mode (x_activity x) None s))"
      using Release f(4) d(1) by (intro lanes_dropped [OF assms(1,2)] own_files_mem(2)) (auto simp: pc_ok_def carries_def)
    then show ?thesis using assms(3) Release by simp
  next
    case Share
    then have c: "can_lock (x_activity x) Shared s" and s': "s' = goto k x Active (set_mode (x_activity x) (Some Shared) s)"
      using assms(3) by (auto split: if_splits)
    show ?thesis unfolding s'
      by (rule lanes_modes [OF assms(1,2) same(1) _ kernel_lock [OF f(1) c]])
        (use Share f(4) d(1) own_files_mem(2) [of x] in \<open>auto simp: pc_ok_def carries_def\<close>)
  next
    case Active
    then show ?thesis using assms(3) by simp
  next
    case Probe
    have "lanes_ok (try_flock (x_activity x) Exclusive (goto k x Unprobe) (leave k x) s)"
      using Probe f(4)
      by (intro lanes_try [OF assms(1,2) own_files_mem(2)] lanes_leave [OF assms(1,2) same(1) _ kernel_drop [OF f(1)]])
        (use own_files_mem(2) [of x] in \<open>auto simp: pc_ok_def\<close>)
    then show ?thesis using assms(3) Probe by simp
  next
    case Unprobe
    have "lanes_ok (leave k x (set_mode (x_activity x) None s))"
      by (rule lanes_leave [OF assms(1,2) same(1) _ kernel_drop [OF f(1)]]) (use own_files_mem(2) [of x] in auto)
    then show ?thesis using assms(3) Unprobe by simp
  qed
qed

lemma lanes_act:
  assumes "lanes_ok s" "act a s = Some s'"
  shows "lanes_ok s'"
proof (cases a)
  case (Start p c fds)
  then show ?thesis using assms lanes_enter [of s p c] by (auto simp: start_work_def Let_def split: option.splits)
next
  case (Look p l fds)
  then show ?thesis using assms lanes_enter [of s p Light l None Probe fds s'] by simp
next
  case (Step k inp)
  then show ?thesis using assms lanes_advance by (auto split: option.splits)
next
  case (Leave k)
  then obtain x where x: "s_entrants s k = Some x" "s' = leave k x s" using assms(2) by (auto split: option.splits if_splits)
  show ?thesis unfolding x(2)
    by (rule lanes_leave [OF assms(1) x(1) _ _ entrant_facts(1) [OF assms(1) x(1)]]) (simp_all add: same_files_def)
next
  case (Spawn p job q started kept)
  then show ?thesis using assms lanes_spawn by simp
next
  case (Exit p)
  then show ?thesis using assms lanes_exit by simp
next
  case (Setenv p t)
  then show ?thesis using assms lanes_setenv by auto
qed

lemma lanes_reach: "reach s \<Longrightarrow> lanes_ok s"
proof (induction rule: reach.induct)
  case (booted content)
  then show ?case by (auto simp: boot_def lanes_ok_def kernel_ok_def locks_ok_def open_files_def)
next
  case (acted s a s')
  then show ?case using lanes_act by blast
qed

section \<open>One generation per lane\<close>

definition working :: "sys \<Rightarrow> nat \<Rightarrow> entrant \<Rightarrow> bool" where
  "working s k x \<longleftrightarrow> s_entrants s k = Some x \<and> x_pc x = Active"

text \<open>
  C15: Heavy work is admitted one job per lane. In every reachable state, whatever processes start,
  fork, die or put in their environment and however their system calls interleave, all active
  contexts of a lane belong to the generation written in the lane's admission file, and at each
  nesting depth of a lane at most one context is active.
\<close>

theorem lanes_are_exclusive:
  assumes "reach s" "working s k x" "working s k' x'" "x_lane x = x_lane x'"
  shows "x_gen x = x_gen x' \<and> x_gen x = s_content s (x_lane x) \<and> (x_depth x = x_depth x' \<longrightarrow> k = k')"
proof -
  have inv: "lanes_ok s" by (rule lanes_reach [OF assms(1)])
  have e: "s_entrants s k = Some x" "x_pc x = Active" "s_entrants s k' = Some x'" "x_pc x' = Active"
    using assms(2,3) by (simp_all add: working_def)
  note f = entrant_facts [OF inv e(1)] and f' = entrant_facts [OF inv e(3)]
  have gen: "x_gen x = s_content s (x_lane x)" "x_gen x' = s_content s (x_lane x')"
    using f(4) f'(4) e(2,4) by (simp_all add: pc_ok_def carries_def)
  have "k = k'" if d: "x_depth x = x_depth x'"
  proof (rule ccontr)
    assume ne: "k \<noteq> k'"
    define b where "b = (case x_branch x of Some i \<Rightarrow> i | None \<Rightarrow> x_admission x)"
    define b' where "b' = (case x_branch x' of Some i \<Rightarrow> i | None \<Rightarrow> x_admission x')"
    have own: "b \<in> set (own_files x)" "b' \<in> set (own_files x')"
      using own_files_mem(1,4) by (auto simp: b_def b'_def split: option.splits)
    have m: "s_mode s b = Some Exclusive" "s_mode s b' = Some Exclusive"
      using f(4) f'(4) e(2,4) by (auto simp: b_def b'_def pc_ok_def split: option.splits)
    have "s_file s b = branch_file (x_lane x) (x_depth x)" "s_file s b' = branch_file (x_lane x') (x_depth x')"
      using f(3,4) f'(3,4) e(2,4) by (auto simp: b_def b'_def branch_file_def files_ok_def pc_ok_def split: option.splits)
    then have "s_file s b = s_file s b'" using assms(4) d by simp
    moreover have "b \<in> set (open_files s)" "b' \<in> set (open_files s)" using own f(6) f'(6) in_proc_open by blast+
    ultimately have "b = b'" using f(1) m by (intro locks_okD [of s]) (simp_all add: kernel_ok_def)
    then show False using own apart [OF inv e(1,3)] ne by blast
  qed
  with gen assms(4) show ?thesis by simp
qed

end
