(* ===== verification/HeavyQueue.thy ===== *)
theory HeavyQueue
  imports HeavyFacts
begin

text \<open>
  The queue of heavy-work admission: tickets grow, nobody is admitted before an earlier waiter of
  its class, and what a class may run.
\<close>

section \<open>The invariant of the queue\<close>

definition tickets_ok :: "sys \<Rightarrow> bool" where
  "tickets_ok s \<longleftrightarrow>
     (\<forall>c. sorted_wrt (<) (map fst (s_queue s c)) \<and> distinct (map snd (s_queue s c)))
     \<and> (\<forall>c n j. (n, j) \<in> set (s_queue s c) \<longrightarrow>
          j < s_born s \<and> (\<forall>x. s_entrants s j = Some x \<longrightarrow> queued_pc (x_pc x) \<and> lane_class (x_lane x) = c))
     \<and> (\<forall>k x. s_entrants s k = Some x \<and> queued_pc (x_pc x) \<longrightarrow> k \<in> snd ` set (s_queue s (lane_class (x_lane x))))"

definition head_ok :: "sys \<Rightarrow> bool" where
  "head_ok s \<longleftrightarrow>
     (\<forall>k x. s_entrants s k = Some x \<and> trying (x_pc x) \<longrightarrow>
        s_meta s = Some k \<and> waiters (lane_class (x_lane x)) s \<noteq> [] \<and> snd (hd (waiters (lane_class (x_lane x)) s)) = k)"

definition queue_ok :: "sys \<Rightarrow> bool" where
  "queue_ok s \<longleftrightarrow> tickets_ok s \<and> head_ok s \<and> (\<forall>k x. s_entrants s k = Some x \<longrightarrow> k < s_born s)"

lemma hd_filter:
  assumes "filter P xs \<noteq> []" "\<And>x. x \<in> set xs \<Longrightarrow> P' x \<Longrightarrow> P x" "P' (hd (filter P xs))"
  shows "filter P' xs \<noteq> [] \<and> hd (filter P' xs) = hd (filter P xs)"
  using assms by (induction xs) (auto split: if_splits)

lemma waits_Some: "s_entrants s k = Some x \<Longrightarrow> waits s k = queued_pc (x_pc x)"
  by (simp add: waits_def)

lemma trying_queued: "trying c \<Longrightarrow> queued_pc c"
  by (simp add: queued_pc_def)

text \<open>A step that leaves the queue and the metadata lock alone, and where nobody starts to wait or try.\<close>

lemma queue_frame:
  assumes "queue_ok s" "s_queue s' = s_queue s" "s_born s \<le> s_born s'"
    and meta: "\<And>k x. s_entrants s' k = Some x \<Longrightarrow> trying (x_pc x) \<Longrightarrow> s_meta s' = s_meta s"
    and sub: "\<And>k x'. s_entrants s' k = Some x' \<Longrightarrow>
      (\<exists>x. s_entrants s k = Some x \<and> queued_pc (x_pc x') = queued_pc (x_pc x) \<and> (trying (x_pc x') \<longrightarrow> trying (x_pc x))
         \<and> (queued_pc (x_pc x') \<longrightarrow> x_lane x' = x_lane x))
      \<or> (s_born s \<le> k \<and> k < s_born s' \<and> \<not> queued_pc (x_pc x'))"
  shows "queue_ok s'"
proof -
  have t: "tickets_ok s" and h: "head_ok s" and b: "\<And>k x. s_entrants s k = Some x \<Longrightarrow> k < s_born s"
    using assms(1) by (auto simp: queue_ok_def)
  have w: "waits s k" if "waits s' k" for k
    using that sub [of k] unfolding waits_def by (auto split: option.splits)
  have "tickets_ok s'"
    unfolding tickets_ok_def assms(2)
  proof (intro conjI allI impI)
    fix c show "sorted_wrt (<) (map fst (s_queue s c))" "distinct (map snd (s_queue s c))" using t by (simp_all add: tickets_ok_def)
  next
    fix c n j assume q: "(n, j) \<in> set (s_queue s c)"
    then have j: "j < s_born s" "\<And>x. s_entrants s j = Some x \<Longrightarrow> queued_pc (x_pc x) \<and> lane_class (x_lane x) = c"
      using t unfolding tickets_ok_def by blast+
    show "j < s_born s'" using j(1) assms(3) by simp
    fix x assume "s_entrants s' j = Some x"
    then show "queued_pc (x_pc x)" "lane_class (x_lane x) = c" using sub [of j x] j by auto
  next
    fix k x assume "s_entrants s' k = Some x \<and> queued_pc (x_pc x)"
    then obtain y where "s_entrants s k = Some y" "queued_pc (x_pc y)" "x_lane x = x_lane y" using sub by blast
    then show "k \<in> snd ` set (s_queue s (lane_class (x_lane x)))" using t unfolding tickets_ok_def by metis
  qed
  moreover have "head_ok s'"
    unfolding head_ok_def
  proof (intro allI impI, elim conjE)
    fix k x assume x: "s_entrants s' k = Some x" "trying (x_pc x)"
    then obtain y where y: "s_entrants s k = Some y" "trying (x_pc y)" "x_lane x = x_lane y"
      using sub [of k x] trying_queued by blast
    let ?c = "lane_class (x_lane y)"
    have hd: "s_meta s = Some k" "waiters ?c s \<noteq> []" "snd (hd (waiters ?c s)) = k" using h y unfolding head_ok_def by blast+
    have "waits s' k" using waits_Some [OF x(1)] trying_queued [OF x(2)] by simp
    then have "filter (\<lambda>(_, k). waits s' k) (s_queue s ?c) \<noteq> []
        \<and> hd (filter (\<lambda>(_, k). waits s' k) (s_queue s ?c)) = hd (filter (\<lambda>(_, k). waits s k) (s_queue s ?c))"
      using hd(2,3) w unfolding waiters_def by (intro hd_filter) auto
    then show "s_meta s' = Some k \<and> waiters (lane_class (x_lane x)) s' \<noteq> [] \<and> snd (hd (waiters (lane_class (x_lane x)) s')) = k"
      using hd y(3) assms(2) meta [OF x] by (simp add: waiters_def)
  qed
  moreover have "k < s_born s'" if "s_entrants s' k = Some x" for k x using sub [OF that] b assms(3) by fastforce
  ultimately show ?thesis by (simp add: queue_ok_def)
qed

lemma queue_local:
  assumes "queue_ok s" "s_entrants s k = Some x" "s_queue s' = s_queue s" "s_meta s' = s_meta s" "s_born s' = s_born s"
    and "s_entrants s' = (s_entrants s)(k := Some y)" "queued_pc (x_pc y) = queued_pc (x_pc x)" "trying (x_pc y) \<longrightarrow> trying (x_pc x)"
    and "queued_pc (x_pc y) \<longrightarrow> x_lane y = x_lane x"
  shows "queue_ok s'"
proof (rule queue_frame [OF assms(1,3)])
  fix j z assume "s_entrants s' j = Some z"
  then show "(\<exists>w. s_entrants s j = Some w \<and> queued_pc (x_pc z) = queued_pc (x_pc w) \<and> (trying (x_pc z) \<longrightarrow> trying (x_pc w))
      \<and> (queued_pc (x_pc z) \<longrightarrow> x_lane z = x_lane w)) \<or> (s_born s \<le> j \<and> j < s_born s' \<and> \<not> queued_pc (x_pc z))"
    using assms(2,6-9) by (cases "j = k") auto
qed (simp_all add: assms(4,5))

text \<open>While nobody is trying, the queue may be replaced by any list with the same live entries.\<close>

lemma queue_replace:
  assumes "tickets_ok s'" "\<And>k x. s_entrants s' k = Some x \<Longrightarrow> k < s_born s'"
    and "\<And>j x. s_entrants s' j = Some x \<Longrightarrow> trying (x_pc x) \<Longrightarrow>
      s_meta s' = Some j \<and> waiters (lane_class (x_lane x)) s' \<noteq> [] \<and> snd (hd (waiters (lane_class (x_lane x)) s')) = j"
  shows "queue_ok s'"
  unfolding queue_ok_def head_ok_def using assms by blast

lemma queue_facts:
  assumes "queue_ok s"
  shows "sorted_wrt (<) (map fst (s_queue s c))" "distinct (map snd (s_queue s c))"
    "(n, j) \<in> set (s_queue s c) \<Longrightarrow> j < s_born s"
    "(n, j) \<in> set (s_queue s c) \<Longrightarrow> s_entrants s j = Some x \<Longrightarrow> queued_pc (x_pc x) \<and> lane_class (x_lane x) = c"
    "s_entrants s k = Some x \<Longrightarrow> queued_pc (x_pc x) \<Longrightarrow> k \<in> snd ` set (s_queue s (lane_class (x_lane x)))"
    "s_entrants s k = Some x \<Longrightarrow> trying (x_pc x) \<Longrightarrow>
      s_meta s = Some k \<and> waiters (lane_class (x_lane x)) s \<noteq> [] \<and> snd (hd (waiters (lane_class (x_lane x)) s)) = k"
    "s_entrants s k = Some x \<Longrightarrow> k < s_born s"
proof -
  have t: "tickets_ok s" and h: "head_ok s" and b: "\<And>k x. s_entrants s k = Some x \<Longrightarrow> k < s_born s"
    using assms by (auto simp: queue_ok_def)
  show "sorted_wrt (<) (map fst (s_queue s c))" "distinct (map snd (s_queue s c))" using t by (simp_all add: tickets_ok_def)
  show "(n, j) \<in> set (s_queue s c) \<Longrightarrow> j < s_born s" using t unfolding tickets_ok_def by blast
  show "(n, j) \<in> set (s_queue s c) \<Longrightarrow> s_entrants s j = Some x \<Longrightarrow> queued_pc (x_pc x) \<and> lane_class (x_lane x) = c"
    using t unfolding tickets_ok_def by blast
  show "s_entrants s k = Some x \<Longrightarrow> queued_pc (x_pc x) \<Longrightarrow> k \<in> snd ` set (s_queue s (lane_class (x_lane x)))"
    using t unfolding tickets_ok_def by blast
  show "s_entrants s k = Some x \<Longrightarrow> trying (x_pc x) \<Longrightarrow>
      s_meta s = Some k \<and> waiters (lane_class (x_lane x)) s \<noteq> [] \<and> snd (hd (waiters (lane_class (x_lane x)) s)) = k"
    using h unfolding head_ok_def by blast
  show "s_entrants s k = Some x \<Longrightarrow> k < s_born s" by (rule b)
qed

text \<open>Filtered queues stay well formed when only entries of entrants that do not wait afterwards are dropped.\<close>

lemma tickets_filter:
  assumes "queue_ok s" "\<And>c. s_queue s' c = filter (P c) (s_queue s c)" "s_born s \<le> s_born s'"
    and "\<And>c n j x. (n, j) \<in> set (s_queue s c) \<Longrightarrow> P c (n, j) \<Longrightarrow> s_entrants s' j = Some x \<Longrightarrow> queued_pc (x_pc x) \<and> lane_class (x_lane x) = c"
    and "\<And>k x. s_entrants s' k = Some x \<Longrightarrow> queued_pc (x_pc x) \<Longrightarrow>
      \<exists>n. (n, k) \<in> set (s_queue s (lane_class (x_lane x))) \<and> P (lane_class (x_lane x)) (n, k)"
  shows "tickets_ok s'"
  unfolding tickets_ok_def assms(2)
proof (intro conjI allI impI)
  fix c
  show "sorted_wrt (<) (map fst (filter (P c) (s_queue s c)))"
    using queue_facts(1) [OF assms(1), of c] unfolding sorted_wrt_map by (rule sorted_wrt_filter)
  show "distinct (map snd (filter (P c) (s_queue s c)))" using queue_facts(2) [OF assms(1), of c] by (rule distinct_map_filter)
next
  fix c n j assume "(n, j) \<in> set (filter (P c) (s_queue s c))"
  then show "j < s_born s'" using queue_facts(3) [OF assms(1)] assms(3) by fastforce
next
  fix c n j x assume a: "(n, j) \<in> set (filter (P c) (s_queue s c))" "s_entrants s' j = Some x"
  then show "queued_pc (x_pc x)" "lane_class (x_lane x) = c" using assms(4) by auto
next
  fix k x assume "s_entrants s' k = Some x \<and> queued_pc (x_pc x)"
  then show "k \<in> snd ` set (filter (P (lane_class (x_lane x))) (s_queue s (lane_class (x_lane x))))" using assms(5) by force
qed

section \<open>Steps on the queue\<close>

lemma queue_leave:
  assumes "queue_ok s" "s_entrants s k = Some x" "waits s k \<longrightarrow> s_meta s = None \<or> s_meta s = Some k"
    and "s_entrants s1 = s_entrants s" "s_queue s1 = s_queue s" "s_meta s1 = s_meta s" "s_born s1 = s_born s"
  shows "queue_ok (leave k x s1)"
proof -
  let ?s' = "leave k x s1"
  have sel: "s_entrants ?s' = (s_entrants s)(k := None)" "s_queue ?s' c = filter (\<lambda>(_, j). j \<noteq> k) (s_queue s c)"
    "s_born ?s' = s_born s" "s_meta ?s' = (if s_meta s = Some k then None else s_meta s)" for c
    using assms(4-7) by (simp_all add: leave_def)
  have w: "waits ?s' j \<longleftrightarrow> j \<noteq> k \<and> waits s j" for j by (simp add: waits_def sel)
  show ?thesis
  proof (rule queue_replace)
    show "tickets_ok ?s'"
    proof (rule tickets_filter [OF assms(1), where P = "\<lambda>_ (_, j). j \<noteq> k"])
      fix j y assume a: "s_entrants ?s' j = Some y" "queued_pc (x_pc y)"
      then have j: "j \<noteq> k" "s_entrants s j = Some y" by (auto simp: sel split: if_splits)
      then show "\<exists>n. (n, j) \<in> set (s_queue s (lane_class (x_lane y))) \<and> (case (n, j) of (_, j) \<Rightarrow> j \<noteq> k)"
        using queue_facts(5) [OF assms(1) j(2) a(2)] by force
    qed (use queue_facts(4) [OF assms(1)] in \<open>auto simp: sel split: if_splits\<close>)
    show "j < s_born ?s'" if "s_entrants ?s' j = Some y" for j y using that queue_facts(7) [OF assms(1)] by (auto simp: sel split: if_splits)
    fix j y assume a: "s_entrants ?s' j = Some y" "trying (x_pc y)"
    then have j: "j \<noteq> k" "s_entrants s j = Some y" by (auto simp: sel split: if_splits)
    note h = queue_facts(6) [OF assms(1) j(2) a(2)]
    then have nk: "\<not> waits s k" using assms(3) j(1) by auto
    have "filter (\<lambda>(_, i). waits ?s' i) (filter (\<lambda>(_, i). i \<noteq> k) (s_queue s c)) = filter (\<lambda>(_, i). waits s i) (s_queue s c)" for c
      using nk by (auto simp: w intro!: filter_cong)
    then show "s_meta ?s' = Some j \<and> waiters (lane_class (x_lane y)) ?s' \<noteq> [] \<and> snd (hd (waiters (lane_class (x_lane y)) ?s')) = j"
      using h j(1) by (simp add: waiters_def sel)
  qed
qed

lemma nobody_trying:
  assumes "queue_ok s" "s_meta s = None" "s_entrants s j = Some y"
  shows "\<not> trying (x_pc y)"
  using queue_facts(6) [OF assms(1,3)] assms(2) by auto

lemma next_order_grows:
  assumes "sorted_wrt (<) (map fst ws)"
  shows "sorted_wrt (<) (map fst (ws @ [(next_order clock ws, k)]))"
proof (cases ws rule: rev_cases)
  case (snoc ys y)
  then show ?thesis using assms by (fastforce simp: next_order_def sorted_wrt_append)
qed simp

lemma queue_enqueue:
  assumes "queue_ok s" "s_entrants s k = Some x" "\<not> queued_pc (x_pc x)" "s_meta s = None"
    and "s_entrants s' = (s_entrants s)(k := Some y)" "x_pc y = Waiting" "lane_class (x_lane y) = c"
    and "s_queue s' = (s_queue s)(c := waiters c s @ [(next_order clock (waiters c s), k)])" "s_born s' = s_born s"
  shows "queue_ok s'"
proof -
  have nk: "(n, k) \<notin> set (s_queue s d)" for n d using queue_facts(4) [OF assms(1) _ assms(2)] assms(3) by blast
  have ws: "waiters c s = filter (\<lambda>(_, j). waits s j) (s_queue s c)" by (simp add: waiters_def)
  have old: "j \<noteq> k \<Longrightarrow> s_entrants s' j = s_entrants s j" for j by (simp add: assms(5))
  show ?thesis
  proof (rule queue_replace)
    show "tickets_ok s'"
      unfolding tickets_ok_def
    proof (intro conjI allI impI)
      fix d
      have "sorted_wrt (<) (map fst (waiters c s))"
        using queue_facts(1) [OF assms(1), of c] unfolding ws sorted_wrt_map by (rule sorted_wrt_filter)
      from next_order_grows [OF this] show "sorted_wrt (<) (map fst (s_queue s' d))"
        using queue_facts(1) [OF assms(1), of d] by (simp add: assms(8))
      have "distinct (map snd (waiters c s))" using queue_facts(2) [OF assms(1), of c] unfolding ws by (rule distinct_map_filter)
      then show "distinct (map snd (s_queue s' d))"
        using queue_facts(2) [OF assms(1), of d] nk [of _ c] by (force simp: assms(8) ws)
    next
      fix d n j assume "(n, j) \<in> set (s_queue s' d)"
      then show "j < s_born s'" using queue_facts(3) [OF assms(1)] queue_facts(7) [OF assms(1,2)]
        by (auto simp: assms(8,9) ws split: if_splits)
    next
      fix d n j z assume a: "(n, j) \<in> set (s_queue s' d)" "s_entrants s' j = Some z"
      have "queued_pc (x_pc z) \<and> lane_class (x_lane z) = d"
      proof (cases "j = k")
        case True
        then show ?thesis using a nk assms(5-7) by (auto simp: assms(8) ws queued_pc_def split: if_splits)
      next
        case False
        then have "(n, j) \<in> set (s_queue s d)" using a by (auto simp: assms(8) ws split: if_splits)
        then show ?thesis using queue_facts(4) [OF assms(1)] a(2) old [OF False] by simp
      qed
      then show "queued_pc (x_pc z)" "lane_class (x_lane z) = d" by blast+
    next
      fix j z assume a: "s_entrants s' j = Some z \<and> queued_pc (x_pc z)"
      show "j \<in> snd ` set (s_queue s' (lane_class (x_lane z)))"
      proof (cases "j = k")
        case True
        then show ?thesis using a assms(5,7) by (simp add: assms(8))
      next
        case False
        then have e: "s_entrants s j = Some z" using a old by simp
        then have "waits s j" using a by (simp add: waits_def)
        then show ?thesis using queue_facts(5) [OF assms(1) e] a by (force simp: assms(8) ws)
      qed
    qed
    show "j < s_born s'" if "s_entrants s' j = Some z" for j z
      using that queue_facts(7) [OF assms(1)] assms(2) by (auto simp: assms(5,9) split: if_splits)
    fix j z assume a: "s_entrants s' j = Some z" "trying (x_pc z)"
    show "s_meta s' = Some j \<and> waiters (lane_class (x_lane z)) s' \<noteq> [] \<and> snd (hd (waiters (lane_class (x_lane z)) s')) = j"
      using a nobody_trying [OF assms(1,4)] assms(5,6) by (cases "j = k") auto
  qed
qed

text \<open>Pruning the queue, and the head going on to try the lanes.\<close>

lemma queue_prune:
  assumes "queue_ok s" "s_entrants s k = Some x" "s_meta s = None" "x_pc x = Waiting" "c = lane_class (x_lane x)"
    and "s_queue s' = (s_queue s)(c := waiters c s)" "s_born s' = s_born s" "s_entrants s' = (s_entrants s)(k := Some y)"
    and "x_lane y = x_lane x" "queued_pc (x_pc y)"
    and "trying (x_pc y) \<Longrightarrow> s_meta s' = Some k \<and> waiters c s \<noteq> [] \<and> snd (hd (waiters c s)) = k"
  shows "queue_ok s'"
proof -
  have w: "waits s' j = waits s j" for j using assms(2,4,8,10) by (simp add: waits_def queued_pc_def)
  have fl: "s_queue s' d = filter (\<lambda>(_, j). d = c \<longrightarrow> waits s j) (s_queue s d)" for d
    by (cases "d = c") (simp_all add: assms(6) waiters_def)
  have ws: "waiters c s' = waiters c s" using w by (simp add: waiters_def assms(6) filter_id_conv)
  show ?thesis
  proof (rule queue_replace)
    show "tickets_ok s'"
    proof (rule tickets_filter [OF assms(1) fl])
      fix d n j z assume a: "(n, j) \<in> set (s_queue s d)" "s_entrants s' j = Some z"
      show "queued_pc (x_pc z) \<and> lane_class (x_lane z) = d"
        using queue_facts(4) [OF assms(1) a(1)] a(2) assms(2,8,9,10) by (cases "j = k") auto
    next
      fix j z assume a: "s_entrants s' j = Some z" "queued_pc (x_pc z)"
      have "\<exists>v. s_entrants s j = Some v \<and> queued_pc (x_pc v) \<and> x_lane v = x_lane z"
        using a assms(2,4,8,9) by (cases "j = k") (auto simp: queued_pc_def)
      then obtain v where v: "s_entrants s j = Some v" "queued_pc (x_pc v)" "x_lane v = x_lane z" by blast
      have "waits s j" using v by (simp add: waits_def)
      then show "\<exists>n. (n, j) \<in> set (s_queue s (lane_class (x_lane z))) \<and> (case (n, j) of (_, j) \<Rightarrow> lane_class (x_lane z) = c \<longrightarrow> waits s j)"
        using queue_facts(5) [OF assms(1) v(1,2)] v(3) by force
    qed (simp add: assms(7))
    show "j < s_born s'" if "s_entrants s' j = Some z" for j z
      using that queue_facts(7) [OF assms(1)] assms(2) by (auto simp: assms(7,8) split: if_splits)
    fix j z assume a: "s_entrants s' j = Some z" "trying (x_pc z)"
    then have jk: "j = k" using nobody_trying [OF assms(1,3)] by (auto simp: assms(8) split: if_splits)
    then have "z = y" using a(1) by (simp add: assms(8))
    then show "s_meta s' = Some j \<and> waiters (lane_class (x_lane z)) s' \<noteq> [] \<and> snd (hd (waiters (lane_class (x_lane z)) s')) = j"
      using a jk assms(5,9,11) ws by simp
  qed
qed

text \<open>The one that tries gives up, or is done with the queue.\<close>

lemma only_trying:
  assumes "queue_ok s" "s_entrants s k = Some x" "trying (x_pc x)" "s_entrants s j = Some y" "trying (x_pc y)"
  shows "j = k"
  using queue_facts(6) [OF assms(1,2,3)] queue_facts(6) [OF assms(1,4,5)] by simp

lemma queue_give_up:
  assumes "queue_ok s" "s_entrants s k = Some x" "trying (x_pc x)"
    and "s_entrants s' = (s_entrants s)(k := Some (x\<lparr>x_pc := Waiting\<rparr>))" "s_queue s' = s_queue s" "s_born s' = s_born s"
  shows "queue_ok s'"
proof (rule queue_replace)
  have q: "queued_pc (x_pc x)" using assms(3) by (rule trying_queued)
  show "tickets_ok s'"
  proof (rule tickets_filter [OF assms(1), where P = "\<lambda>_ _. True"])
    fix c n j z assume a: "(n, j) \<in> set (s_queue s c)" "s_entrants s' j = Some z"
    then show "queued_pc (x_pc z) \<and> lane_class (x_lane z) = c"
      using queue_facts(4) [OF assms(1) a(1)] assms(2,4) by (cases "j = k") (auto simp: queued_pc_def)
  next
    fix j z assume a: "s_entrants s' j = Some z" "queued_pc (x_pc z)"
    then show "\<exists>n. (n, j) \<in> set (s_queue s (lane_class (x_lane z))) \<and> True"
      using queue_facts(5) [OF assms(1)] assms(2,4) q by (cases "j = k") force+
  qed (simp_all add: assms(5,6))
  show "j < s_born s'" if "s_entrants s' j = Some z" for j z
    using that queue_facts(7) [OF assms(1)] assms(2) by (auto simp: assms(4,6) split: if_splits)
  fix j z assume a: "s_entrants s' j = Some z" "trying (x_pc z)"
  then have "j \<noteq> k" "s_entrants s j = Some z" by (auto simp: assms(4) split: if_splits)
  then show "s_meta s' = Some j \<and> waiters (lane_class (x_lane z)) s' \<noteq> [] \<and> snd (hd (waiters (lane_class (x_lane z)) s')) = j"
    using only_trying [OF assms(1-3)] a(2) by blast
qed

lemma queue_dequeued:
  assumes "queue_ok s" "s_entrants s k = Some x" "trying (x_pc x)" "c = lane_class (x_lane x)"
    and "s_entrants s' = (s_entrants s)(k := Some y)" "\<not> queued_pc (x_pc y)" "s_born s' = s_born s"
    and "s_queue s' = (s_queue s)(c := filter (\<lambda>(_, j). j \<noteq> k) (s_queue s c))"
  shows "queue_ok s'"
proof (rule queue_replace)
  have other: "(n, k) \<notin> set (s_queue s d)" if "d \<noteq> c" for n d
    using queue_facts(4) [OF assms(1) _ assms(2)] that assms(4) by blast
  have fl: "s_queue s' d = filter (\<lambda>(_, j). j \<noteq> k) (s_queue s d)" for d
  proof (cases "d = c")
    case False
    then have "filter (\<lambda>(_, j). j \<noteq> k) (s_queue s d) = s_queue s d" using other by (auto simp: filter_id_conv)
    then show ?thesis using False by (simp add: assms(8))
  qed (simp add: assms(8))
  show "tickets_ok s'"
  proof (rule tickets_filter [OF assms(1) fl])
    fix d n j z assume a: "(n, j) \<in> set (s_queue s d)" "case (n, j) of (_, j) \<Rightarrow> j \<noteq> k" "s_entrants s' j = Some z"
    then show "queued_pc (x_pc z) \<and> lane_class (x_lane z) = d"
      using queue_facts(4) [OF assms(1) a(1)] by (simp add: assms(5))
  next
    fix j z assume a: "s_entrants s' j = Some z" "queued_pc (x_pc z)"
    then have "j \<noteq> k" "s_entrants s j = Some z" using assms(6) by (auto simp: assms(5) split: if_splits)
    then show "\<exists>n. (n, j) \<in> set (s_queue s (lane_class (x_lane z))) \<and> (case (n, j) of (_, j) \<Rightarrow> j \<noteq> k)"
      using queue_facts(5) [OF assms(1) _ a(2)] by force
  qed (simp add: assms(7))
  show "j < s_born s'" if "s_entrants s' j = Some z" for j z
    using that queue_facts(7) [OF assms(1)] assms(2) by (auto simp: assms(5,7) split: if_splits)
  fix j z assume a: "s_entrants s' j = Some z" "trying (x_pc z)"
  then have "j \<noteq> k" "s_entrants s j = Some z" using assms(6) trying_queued by (auto simp: assms(5) split: if_splits)
  then show "s_meta s' = Some j \<and> waiters (lane_class (x_lane z)) s' \<noteq> [] \<and> snd (hd (waiters (lane_class (x_lane z)) s')) = j"
    using only_trying [OF assms(1-3)] a(2) by blast
qed

section \<open>Every system call keeps the queue\<close>

lemma queue_fields [simp]:
  "s_queue (append_waiter inp k c s) = (s_queue s)(c := waiters c s @ [(next_order (i_clock inp) (waiters c s), k)])"
  "s_meta (append_waiter inp k c s) = s_meta s"
  by (simp_all add: append_waiter_def)

lemma queue_goto:
  assumes "queue_ok s" "s_entrants s k = Some x" "s_entrants s1 = s_entrants s" "s_queue s1 = s_queue s" "s_meta s1 = s_meta s" "s_born s1 = s_born s"
    and "queued_pc c = queued_pc (x_pc x)" "trying c \<longrightarrow> trying (x_pc x)"
  shows "queue_ok (goto k x c s1)"
  by (rule queue_local [OF assms(1,2), where y = "x\<lparr>x_pc := c\<rparr>"]) (simp_all add: goto_put assms(3-8))

lemma queue_busy:
  assumes "queue_ok s" "s_entrants s k = Some x" "trying (x_pc x)"
    and "s_entrants s1 = s_entrants s" "s_queue s1 = s_queue s" "s_meta s1 = s_meta s" "s_born s1 = s_born s"
  shows "queue_ok (lane_busy inp k x spare s1)"
proof -
  have "queue_ok (goto k x (TryAdmission True) s1)"
    by (rule queue_goto [OF assms(1,2,4-7)]) (use assms(3) trying_queued in \<open>auto simp: queued_pc_def\<close>)
  moreover have "queue_ok (goto k x Waiting (s1\<lparr>s_meta := None\<rparr>))"
    by (rule queue_give_up [OF assms(1-3)]) (simp_all add: goto_put assms(4-7))
  ultimately show ?thesis by (simp add: lane_busy_def)
qed

lemma queue_try:
  assumes "queue_ok (granted (set_mode i (Some m) s))" "queue_ok (refused (set_mode i None s))"
  shows "queue_ok (try_flock i m granted refused s)"
  using assms by (simp add: try_flock_def)

lemma waiters_cong: "s_entrants s' = s_entrants s \<Longrightarrow> s_queue s' = s_queue s \<Longrightarrow> waiters c s' = waiters c s"
  by (simp add: waiters_def waits_def)

lemma queue_poll:
  assumes "queue_ok s" "s_entrants s k = Some x" "x_pc x = Waiting" "poll inp k x s = Some s'"
  shows "queue_ok s'"
proof -
  let ?c = "lane_class (x_lane x)"
  have x: "(s_entrants s)(k := Some x) = s_entrants s" using assms(2) by auto
  have pr: "queue_ok (set_queue ?c (waiters ?c s) s)" if "s_meta s = None"
    by (rule queue_prune [OF assms(1,2) that assms(3) refl, where y = x]) (simp_all add: x assms(3) queued_pc_def)
  have go: "queue_ok (goto k x (TryAdmission False) ((set_queue ?c (waiters ?c s) s)\<lparr>s_meta := Some k\<rparr>))"
    if "s_meta s = None" "waiters ?c s \<noteq> []" "snd (hd (waiters ?c s)) = k"
    by (rule queue_prune [OF assms(1,2) that(1) assms(3) refl, where y = "x\<lparr>x_pc := TryAdmission False\<rparr>"])
      (use that(2,3) in \<open>simp_all add: goto_put queued_pc_def\<close>)
  show ?thesis
  proof (cases "(?c = Heavy \<and> \<not> i_admit inp) \<or> s_meta s \<noteq> None")
    case True
    then have "s' = s" using assms(4) unfolding poll_def Let_def by (simp split: if_split_asm)
    then show ?thesis using assms(1) by simp
  next
    case False
    then have gate: "\<not> (?c = Heavy \<and> \<not> i_admit inp)" and meta: "s_meta s = None" and meta': "\<not> s_meta s \<noteq> None" by auto
    note go_on = assms(4) [unfolded poll_def Let_def if_not_P [OF gate] if_not_P [OF meta']]
    show ?thesis
    proof (cases "waiters ?c s \<noteq> [] \<and> snd (hd (waiters ?c s)) = k")
      case True
      with go_on [unfolded if_P [OF True]] go [OF meta] show ?thesis by auto
    next
      case False
      with go_on [unfolded if_not_P [OF False]] pr [OF meta] show ?thesis by simp
    qed
  qed
qed

lemma queue_advance:
  assumes "queue_ok s" "s_entrants s k = Some x" "advance inp k x (x_pc x) s = Some s'"
  shows "queue_ok s'"
proof -
  note jump = queue_goto [OF assms(1,2)]
  have out: "queue_ok (leave k x (set_mode i m s))" "queue_ok (leave k x s)" if "\<not> queued_pc (x_pc x)" for i m
    by (rule queue_leave [OF assms(1,2)]; use that assms(2) in \<open>simp add: waits_def\<close>)+
  show ?thesis
  proof (cases "x_pc x")
    case CheckGeneration
    then have "queue_ok (goto k x c s)" if "c = NotInherited \<or> (\<exists>ps. c = Walk ps)" for c
      using that by (intro jump) (auto simp: queued_pc_def)
    then show ?thesis using assms(3) CheckGeneration by (auto simp: check_generation_def split: option.splits)
  next
    case (Walk ps)
    then have "queue_ok (goto k x c s)" if "c = NotInherited \<or> (\<exists>ps. c = Walk ps \<or> c = Join ps)" for c
      using that by (intro jump) (auto simp: queued_pc_def)
    then show ?thesis using assms(3) Walk by (auto simp: walk_def split: option.splits prod.splits)
  next
    case (Join ps)
    have "queue_ok (try_flock (x_activity x) Shared (goto k x Recheck) (goto k x (Walk ps)) s)"
      using Join by (intro queue_try jump) (auto simp: queued_pc_def)
    then show ?thesis using assms(3) Join by simp
  next
    case Recheck
    have "queue_ok (goto k x NotInherited s)" using Recheck by (intro jump) (auto simp: queued_pc_def)
    moreover have "queue_ok (put k (x\<lparr>x_branch := b, x_depth := d, x_gen := g, x_pc := WaitBranch\<rparr>) (open_lane p fd f s))" for b d g p fd f
      by (rule queue_local [OF assms(1,2), where y = "x\<lparr>x_branch := b, x_depth := d, x_gen := g, x_pc := WaitBranch\<rparr>"])
        (use Recheck in \<open>simp_all add: queued_pc_def\<close>)
    moreover have "queue_ok (leave k x s)" using out(2) Recheck by (simp add: queued_pc_def)
    ultimately show ?thesis using assms(3) Recheck by (auto simp: recheck_def split: option.splits if_splits list.splits)
  next
    case NotInherited
    have "queue_ok (goto k x Enqueue s)" using NotInherited by (intro jump) (auto simp: queued_pc_def)
    moreover have "queue_ok (put k (x\<lparr>x_lane := l, x_admission := a, x_activity := b, x_pc := Enqueue\<rparr>)
        (close_files p is (open_lane p fd f (open_lane p fd' f' s))))" for l a b p "is" fd f fd' f'
      by (rule queue_local [OF assms(1,2), where y = "x\<lparr>x_lane := l, x_admission := a, x_activity := b, x_pc := Enqueue\<rparr>"])
        (use NotInherited in \<open>simp_all add: queued_pc_def\<close>)
    ultimately show ?thesis using assms(3) NotInherited by (auto simp: not_inherited_def Let_def split: if_splits list.splits)
  next
    case WaitBranch
    have "queue_ok (try_flock b Exclusive (goto k x Active) (goto k x WaitBranch) s)" for b
      using WaitBranch by (intro queue_try jump) (auto simp: queued_pc_def)
    then show ?thesis using assms(3) WaitBranch by (auto split: option.splits)
  next
    case Enqueue
    have nq: "\<not> queued_pc (x_pc x)" using Enqueue by (simp add: queued_pc_def)
    have light: "queue_ok (goto k x Waiting (append_waiter inp k Light s))" if "s_meta s = None" "lane_class (x_lane x) = Light"
      by (rule queue_enqueue [OF assms(1,2) nq that(1), where y = "x\<lparr>x_pc := Waiting\<rparr>" and c = Light and clock = "i_clock inp"])
        (simp_all add: goto_put that(2))
    have heavy: "queue_ok (put k (x\<lparr>x_spare := sp, x_pc := Waiting\<rparr>) (append_waiter inp k Heavy (open_lane p fd f (open_lane p fd' f' s))))"
      (is "queue_ok (put k ?y (append_waiter inp k Heavy ?s1))")
      if "s_meta s = None" "lane_class (x_lane x) = Heavy" for sp p fd f fd' f'
    proof -
      have w: "waiters Heavy ?s1 = waiters Heavy s" by (rule waiters_cong) simp_all
      show ?thesis
        by (rule queue_enqueue [OF assms(1,2) nq that(1), where y = ?y and c = Heavy and clock = "i_clock inp"]) (simp_all add: that(2) w)
    qed
    show ?thesis using assms(3) Enqueue light heavy
      by (cases "lane_class (x_lane x)") (auto simp: enqueue_def Let_def split: if_splits list.splits)
  next
    case Waiting
    then show ?thesis using assms(3) queue_poll [OF assms(1,2)] by simp
  next
    case (TryAdmission spare)
    have "queue_ok (try_flock (chosen_admission x spare) Exclusive (goto k x (TryActivity spare)) (lane_busy inp k x spare) s)"
      using TryAdmission by (intro queue_try jump queue_busy [OF assms(1,2)]) (auto simp: queued_pc_def)
    then show ?thesis using assms(3) TryAdmission by simp
  next
    case (TryActivity spare)
    have "queue_ok (try_flock (chosen_activity x spare) Exclusive (goto k x (Dequeue spare))
        (\<lambda>s'. lane_busy inp k x spare (set_mode (chosen_admission x spare) None s')) s)"
      using TryActivity by (intro queue_try jump queue_busy [OF assms(1,2)]) (auto simp: queued_pc_def)
    then show ?thesis using assms(3) TryActivity by simp
  next
    case (Dequeue spare)
    have t: "trying (x_pc x)" using Dequeue by simp
    let ?c = "lane_class (x_lane x)"
    let ?s1 = "(set_queue ?c (filter (\<lambda>(_, j). j \<noteq> k) (s_queue s ?c)) s)\<lparr>s_meta := None\<rparr>"
    have "queue_ok (put k y ?s1)" "queue_ok (put k y (close_files p is ?s1))" if "x_pc y = WriteGeneration" for y p "is"
      by (rule queue_dequeued [OF assms(1,2) t refl, where y = y]; use that in \<open>simp add: queued_pc_def\<close>)+
    then show ?thesis using assms(3) Dequeue by (auto simp: dequeue_def Let_def goto_put split: option.splits if_splits)
  next
    case WriteGeneration
    have "queue_ok (write_generation k x s)"
      by (rule queue_local [OF assms(1,2), where y = "x\<lparr>x_gen := Some (new_generation (x_pid x) s), x_depth := 0, x_pc := Release\<rparr>"])
        (use WriteGeneration in \<open>simp_all add: write_generation_def Let_def queued_pc_def\<close>)
    then show ?thesis using assms(3) WriteGeneration by simp
  next
    case Release
    have "queue_ok (goto k x Share (set_mode (x_activity x) None s))" using Release by (intro jump) (auto simp: queued_pc_def)
    then show ?thesis using assms(3) Release by simp
  next
    case Share
    have "queue_ok (goto k x Active (set_mode (x_activity x) (Some Shared) s))" using Share by (intro jump) (auto simp: queued_pc_def)
    then show ?thesis using assms(3) Share by (auto split: if_splits)
  next
    case Active
    then show ?thesis using assms(3) by simp
  next
    case Probe
    have "queue_ok (try_flock (x_activity x) Exclusive (goto k x Unprobe) (leave k x) s)"
      using Probe by (intro queue_try jump out) (auto simp: queued_pc_def)
    then show ?thesis using assms(3) Probe by simp
  next
    case Unprobe
    then show ?thesis using assms(3) out(1) by (auto simp: queued_pc_def)
  qed
qed

lemma queue_enter:
  assumes "queue_ok s" "enter p c l t start fds s = Some s'" "\<not> queued_pc start"
  shows "queue_ok s'"
proof -
  obtain y s1 where s': "s' = (put (s_born s) y s1)\<lparr>s_born := Suc (s_born s)\<rparr>" "x_pc y = start"
    "s_entrants s1 = s_entrants s" "s_queue s1 = s_queue s" "s_meta s1 = s_meta s"
    using assms(2) by (auto simp: enter_def split: list.splits if_splits)
  show ?thesis
    by (rule queue_frame [OF assms(1)]) (use s' assms(3) trying_queued queue_facts(7) [OF assms(1)] in \<open>auto split: if_splits\<close>)
qed

lemma queue_same:
  assumes "queue_ok s" "s_entrants s' = s_entrants s" "s_queue s' = s_queue s" "s_meta s' = s_meta s" "s_born s' = s_born s"
  shows "queue_ok s'"
  by (rule queue_frame [OF assms(1,3)]) (use assms in auto)

lemma queue_exit:
  assumes "queue_ok s" "exit_proc p s = Some s'"
  shows "queue_ok s'"
proof -
  have sel: "s_queue s' = s_queue s" "s_born s' = s_born s"
    "s_entrants s' = (\<lambda>k. case s_entrants s k of Some x \<Rightarrow> if x_pid x = p then None else Some x | None \<Rightarrow> None)"
    "s_meta s' = (case s_meta s of
       Some k \<Rightarrow> (case s_entrants s k of Some x \<Rightarrow> if x_pid x = p then None else Some k | None \<Rightarrow> Some k) | None \<Rightarrow> None)"
    using assms(2) by (auto simp: exit_proc_def split: if_splits)
  have e: "s_entrants s k = Some x \<and> x_pid x \<noteq> p" if "s_entrants s' k = Some x" for k x
    using that unfolding sel by (auto split: option.splits if_splits)
  show ?thesis
  proof (rule queue_frame [OF assms(1) sel(1)])
    fix k x assume a: "s_entrants s' k = Some x" "trying (x_pc x)"
    then show "s_meta s' = s_meta s" using e [OF a(1)] queue_facts(6) [OF assms(1) _ a(2)] by (auto simp: sel(4))
  next
    fix k x' assume "s_entrants s' k = Some x'"
    then show "(\<exists>x. s_entrants s k = Some x \<and> queued_pc (x_pc x') = queued_pc (x_pc x) \<and> (trying (x_pc x') \<longrightarrow> trying (x_pc x))
        \<and> (queued_pc (x_pc x') \<longrightarrow> x_lane x' = x_lane x)) \<or> (s_born s \<le> k \<and> k < s_born s' \<and> \<not> queued_pc (x_pc x'))"
      using e by blast
  qed (simp add: sel(2))
qed

lemma spawn_sel:
  assumes "spawn p job q started kept s = Some s'"
  shows "s_entrants s' = s_entrants s" "s_queue s' = s_queue s" "s_meta s' = s_meta s" "s_born s' = s_born s"
  using assms by (auto simp: spawn_def Let_def split: option.splits if_splits)

lemma queue_act:
  assumes "queue_ok s" "act a s = Some s'"
  shows "queue_ok s'"
proof (cases a)
  case (Start p c fds)
  then show ?thesis using assms queue_enter [of s p c] by (auto simp: start_work_def Let_def queued_pc_def split: option.splits)
next
  case (Look p l fds)
  then show ?thesis using assms queue_enter [of s p Light l None Probe fds s'] by (simp add: queued_pc_def)
next
  case (Step k inp)
  then show ?thesis using assms queue_advance by (auto split: option.splits)
next
  case (Leave k)
  then obtain x where x: "s_entrants s k = Some x" "s' = leave k x s" "waits s k \<longrightarrow> s_meta s = None \<or> s_meta s = Some k"
    using assms(2) by (auto split: option.splits if_splits)
  show ?thesis unfolding x(2) by (rule queue_leave [OF assms(1) x(1,3)]) simp_all
next
  case (Spawn p job q started kept)
  then show ?thesis using assms spawn_sel [of p job q started kept s s'] queue_same by simp
next
  case (Exit p)
  then show ?thesis using assms queue_exit by simp
next
  case (Setenv p t)
  then have "s' = update_proc p (\<lambda>q. q\<lparr>q_token := t\<rparr>) s" using assms(2) by simp
  then show ?thesis using queue_same [OF assms(1)] by simp
qed

lemma queue_reach: "reach s \<Longrightarrow> queue_ok s"
proof (induction rule: reach.induct)
  case (booted content)
  then show ?case by (auto simp: boot_def queue_ok_def tickets_ok_def head_ok_def)
next
  case (acted s a s')
  then show ?case using queue_act by blast
qed

section \<open>First come, first served\<close>

text \<open>The ticket of an entrant in the queue of its class.\<close>

definition ticket :: "sys \<Rightarrow> nat \<Rightarrow> entrant \<Rightarrow> nat \<Rightarrow> bool" where
  "ticket s k x n \<longleftrightarrow> (n, k) \<in> set (s_queue s (lane_class (x_lane x)))"

text \<open>
  C16: Owners are admitted in order. Every waiting job has exactly one ticket, tickets of a class
  are handed out in increasing order, and a job that is about to take a lane has a smaller ticket
  than every other waiting job of its class.
\<close>

theorem admission_is_fifo:
  assumes "reach s" "s_entrants s k = Some x" "x_pc x = Dequeue spare"
    and "s_entrants s j = Some y" "queued_pc (x_pc y)" "lane_class (x_lane y) = lane_class (x_lane x)" "j \<noteq> k"
  shows "(\<exists>!n. ticket s k x n) \<and> (\<exists>!m. ticket s j y m)
    \<and> (\<forall>n m clock. ticket s k x n \<and> ticket s j y m \<longrightarrow> n < m \<and> m < next_order clock (waiters (lane_class (x_lane x)) s))"
proof -
  note q = queue_reach [OF assms(1)]
  let ?c = "lane_class (x_lane x)"
  have t: "trying (x_pc x)" using assms(3) by simp
  have uniq: "n = m" if "(n, i) \<in> set (s_queue s ?c)" "(m, i) \<in> set (s_queue s ?c)" for n m i
    using queue_facts(2) [OF q, of ?c] that by (fastforce simp: distinct_map inj_on_def)
  have "k \<in> snd ` set (s_queue s ?c)" "j \<in> snd ` set (s_queue s ?c)"
    using queue_facts(5) [OF q assms(2)] queue_facts(5) [OF q assms(4,5)] trying_queued [OF t] assms(6) by simp_all
  then have one: "\<exists>!n. ticket s k x n" "\<exists>!m. ticket s j y m" using uniq assms(6) by (auto simp: ticket_def)
  have h: "waiters ?c s \<noteq> []" "snd (hd (waiters ?c s)) = k" using queue_facts(6) [OF q assms(2) t] by blast+
  have sorted: "sorted_wrt (\<lambda>a b. fst a < fst b) (waiters ?c s)"
    using queue_facts(1) [OF q, of ?c] unfolding waiters_def sorted_wrt_map by (rule sorted_wrt_filter)
  have wj: "waits s j" using assms(4,5) by (simp add: waits_def)
  have inj: "(m, j) \<in> set (waiters ?c s)" if "ticket s j y m" for m using that wj assms(6) by (auto simp: ticket_def waiters_def)
  have less: "n < m" if "ticket s k x n" "ticket s j y m" for n m
  proof -
    obtain w ws where ws: "waiters ?c s = w # ws" using h(1) by (cases "waiters ?c s") auto
    have "set (waiters ?c s) \<subseteq> set (s_queue s ?c)" by (auto simp: waiters_def)
    then have "w \<in> set (s_queue s ?c)" using ws by auto
    then have "(fst w, k) \<in> set (s_queue s ?c)" using h(2) ws by (cases w) auto
    then have "fst w = n" using uniq that(1) by (auto simp: ticket_def)
    moreover have "(m, j) \<in> set ws" using inj [OF that(2)] h(2) ws assms(7) by auto
    ultimately show ?thesis using sorted ws by auto
  qed
  have "m < next_order clock (waiters ?c s)" if "ticket s j y m" for m clock
  proof -
    have "sorted_wrt (<) (map fst (waiters ?c s @ [(next_order clock (waiters ?c s), 0)]))"
      by (rule next_order_grows) (use sorted in \<open>simp add: sorted_wrt_map\<close>)
    then show ?thesis using inj [OF that] by (auto simp: sorted_wrt_append)
  qed
  with one less show ?thesis by blast
qed

section \<open>What a class may run\<close>

definition class_ok :: "entrant \<Rightarrow> bool" where
  "class_ok x \<longleftrightarrow>
     (case x_pc x of
        WaitBranch \<Rightarrow> x_class x = Heavy \<longrightarrow> lane_class (x_lane x) = Heavy
      | Active \<Rightarrow> x_class x = Heavy \<longrightarrow> lane_class (x_lane x) = Heavy
      | Enqueue \<Rightarrow> lane_class (x_lane x) = x_class x | Waiting \<Rightarrow> lane_class (x_lane x) = x_class x
      | TryAdmission _ \<Rightarrow> lane_class (x_lane x) = x_class x | TryActivity _ \<Rightarrow> lane_class (x_lane x) = x_class x
      | Dequeue _ \<Rightarrow> lane_class (x_lane x) = x_class x | WriteGeneration \<Rightarrow> lane_class (x_lane x) = x_class x
      | Release \<Rightarrow> lane_class (x_lane x) = x_class x | Share \<Rightarrow> lane_class (x_lane x) = x_class x
      | _ \<Rightarrow> True)"

definition classes_ok :: "sys \<Rightarrow> bool" where
  "classes_ok s \<longleftrightarrow> (\<forall>k x. s_entrants s k = Some x \<longrightarrow> class_ok x)"

lemma class_lane_class [simp]: "lane_class (class_lane c) = c"
  by (cases c) simp_all

lemma classes_put: "classes_ok s \<Longrightarrow> s_entrants s' = (s_entrants s)(k := r) \<Longrightarrow> (\<And>y. r = Some y \<Longrightarrow> class_ok y) \<Longrightarrow> classes_ok s'"
  by (auto simp: classes_ok_def split: if_splits)

lemma classes_goto: "classes_ok s \<Longrightarrow> s_entrants s1 = s_entrants s \<Longrightarrow> class_ok (x\<lparr>x_pc := c\<rparr>) \<Longrightarrow> classes_ok (goto k x c s1)"
  by (rule classes_put [where s = s and k = k and r = "Some (x\<lparr>x_pc := c\<rparr>)"]) (auto simp: goto_put)

lemma classes_leave: "classes_ok s \<Longrightarrow> s_entrants s1 = s_entrants s \<Longrightarrow> classes_ok (leave k x s1)"
  by (rule classes_put [where s = s and k = k and r = None]) (simp_all add: leave_def)

lemma classes_try:
  "classes_ok (granted (set_mode i (Some m) s)) \<Longrightarrow> classes_ok (refused (set_mode i None s)) \<Longrightarrow> classes_ok (try_flock i m granted refused s)"
  by (simp add: try_flock_def)

lemma classes_busy:
  "classes_ok s \<Longrightarrow> s_entrants s1 = s_entrants s \<Longrightarrow> lane_class (x_lane x) = x_class x \<Longrightarrow> classes_ok (lane_busy inp k x spare s1)"
  by (auto simp: lane_busy_def class_ok_def intro!: classes_goto [of s])

lemma classes_advance:
  assumes "classes_ok s" "lanes_ok s" "s_entrants s k = Some x" "advance inp k x (x_pc x) s = Some s'"
  shows "classes_ok s'"
proof -
  have x: "class_ok x" using assms(1,3) by (simp add: classes_ok_def)
  note jump = classes_goto [OF assms(1)] and leaving = classes_leave [OF assms(1)] and moved = classes_put [OF assms(1), where k = k]
  show ?thesis
  proof (cases "x_pc x")
    case CheckGeneration
    have "classes_ok (goto k x c s)" if "c = NotInherited \<or> (\<exists>ps. c = Walk ps)" for c using that by (intro jump) (auto simp: class_ok_def)
    then show ?thesis using assms(4) CheckGeneration by (auto simp: check_generation_def split: option.splits)
  next
    case (Walk ps)
    have "classes_ok (goto k x c s)" if "c = NotInherited \<or> (\<exists>ps. c = Walk ps \<or> c = Join ps)" for c
      using that by (intro jump) (auto simp: class_ok_def)
    then show ?thesis using assms(4) Walk by (auto simp: walk_def split: option.splits prod.splits)
  next
    case (Join ps)
    have "classes_ok (try_flock (x_activity x) Shared (goto k x Recheck) (goto k x (Walk ps)) s)"
      by (intro classes_try jump) (auto simp: class_ok_def)
    then show ?thesis using assms(4) Join by simp
  next
    case Recheck
    have "classes_ok (goto k x NotInherited s)" by (intro jump) (auto simp: class_ok_def)
    moreover have "classes_ok (put k (x\<lparr>x_branch := b, x_depth := d, x_gen := g, x_pc := WaitBranch\<rparr>) (open_lane p fd f s))"
      if "\<not> (lane_class (x_lane x) = Light \<and> x_class x = Heavy)" for b d g p fd f
    proof -
      have "class_ok (x\<lparr>x_branch := b, x_depth := d, x_gen := g, x_pc := WaitBranch\<rparr>)"
        using that by (cases "lane_class (x_lane x)") (simp_all add: class_ok_def)
      then show ?thesis by (intro moved) auto
    qed
    moreover have "classes_ok (leave k x s)" by (rule leaving) simp
    ultimately show ?thesis using assms(4) Recheck by (auto simp: recheck_def split: option.splits if_splits list.splits)
  next
    case NotInherited
    have "classes_ok (goto k x Enqueue s)" if "x_lane x = class_lane (x_class x)" using that by (intro jump) (auto simp: class_ok_def)
    moreover have "classes_ok (put k (x\<lparr>x_lane := class_lane (x_class x), x_admission := a, x_activity := b, x_pc := Enqueue\<rparr>)
        (close_files p is (open_lane p fd f (open_lane p fd' f' s))))" for a b p "is" fd f fd' f'
      by (rule moved) (auto simp: class_ok_def)
    ultimately show ?thesis using assms(4) NotInherited by (auto simp: not_inherited_def Let_def split: if_splits list.splits)
  next
    case WaitBranch
    have "classes_ok (try_flock b Exclusive (goto k x Active) (goto k x WaitBranch) s)" for b
      using x WaitBranch by (intro classes_try jump) (auto simp: class_ok_def)
    then show ?thesis using assms(4) WaitBranch by (auto split: option.splits)
  next
    case Enqueue
    have "classes_ok (goto k x Waiting (append_waiter inp k c s))" for c using x Enqueue by (intro jump) (auto simp: class_ok_def)
    moreover have "classes_ok (put k (x\<lparr>x_spare := sp, x_pc := Waiting\<rparr>) (append_waiter inp k c (open_lane p fd f (open_lane p fd' f' s))))"
      for sp c p fd f fd' f' by (rule moved) (use x Enqueue in \<open>auto simp: class_ok_def\<close>)
    ultimately show ?thesis using assms(4) Enqueue by (auto simp: enqueue_def Let_def split: if_splits list.splits)
  next
    case Waiting
    have "classes_ok (goto k x (TryAdmission False) ((set_queue c ws s)\<lparr>s_meta := m\<rparr>))" for c ws m
      using x Waiting by (intro jump) (auto simp: class_ok_def)
    moreover have "classes_ok (set_queue c ws s)" for c ws using assms(1) by (simp add: classes_ok_def)
    ultimately show ?thesis using assms(1,4) Waiting by (auto simp: poll_def Let_def split: if_splits)
  next
    case (TryAdmission spare)
    have "classes_ok (try_flock (chosen_admission x spare) Exclusive (goto k x (TryActivity spare)) (lane_busy inp k x spare) s)"
      using x TryAdmission by (intro classes_try jump classes_busy [OF assms(1)]) (auto simp: class_ok_def)
    then show ?thesis using assms(4) TryAdmission by simp
  next
    case (TryActivity spare)
    have "classes_ok (try_flock (chosen_activity x spare) Exclusive (goto k x (Dequeue spare))
        (\<lambda>s'. lane_busy inp k x spare (set_mode (chosen_admission x spare) None s')) s)"
      using x TryActivity by (intro classes_try jump classes_busy [OF assms(1)]) (auto simp: class_ok_def)
    then show ?thesis using assms(4) TryActivity by simp
  next
    case (Dequeue spare)
    have c: "lane_class (x_lane x) = x_class x" using x Dequeue by (simp add: class_ok_def)
    have heavy: "x_lane x = HeavyLane" if "x_spare x = Some ab" for ab
      using entrant_facts(3) [OF assms(2,3)] that by (cases ab) (simp add: files_ok_def)
    have "classes_ok s'" if "s_entrants s' = (s_entrants s)(k := Some y)" "x_pc y = WriteGeneration" "lane_class (x_lane y) = x_class y" for y
      by (rule moved [OF that(1)]) (use that in \<open>auto simp: class_ok_def\<close>)
    then show ?thesis using assms(4) Dequeue c heavy by (auto simp: dequeue_def Let_def goto_put split: option.splits if_splits)
  next
    case WriteGeneration
    have "classes_ok (write_generation k x s)"
      by (rule moved [where r = "Some (x\<lparr>x_gen := Some (new_generation (x_pid x) s), x_depth := 0, x_pc := Release\<rparr>)"])
        (use x WriteGeneration in \<open>auto simp: write_generation_def Let_def class_ok_def\<close>)
    then show ?thesis using assms(4) WriteGeneration by simp
  next
    case Release
    have "classes_ok (goto k x Share (set_mode (x_activity x) None s))" using x Release by (intro jump) (auto simp: class_ok_def)
    then show ?thesis using assms(4) Release by simp
  next
    case Share
    have "classes_ok (goto k x Active (set_mode (x_activity x) (Some Shared) s))" using x Share by (intro jump) (auto simp: class_ok_def)
    then show ?thesis using assms(4) Share by (auto split: if_splits)
  next
    case Active
    then show ?thesis using assms(4) by simp
  next
    case Probe
    have "classes_ok (try_flock (x_activity x) Exclusive (goto k x Unprobe) (leave k x) s)"
      by (intro classes_try jump leaving) (auto simp: class_ok_def)
    then show ?thesis using assms(4) Probe by simp
  next
    case Unprobe
    have "classes_ok (leave k x (set_mode (x_activity x) None s))" by (rule leaving) simp
    then show ?thesis using assms(4) Unprobe by simp
  qed
qed

lemma classes_act:
  assumes "classes_ok s" "lanes_ok s" "act a s = Some s'"
  shows "classes_ok s'"
proof (cases a)
  case (Step k inp)
  then show ?thesis using assms classes_advance by (auto split: option.splits)
next
  case (Leave k)
  then show ?thesis using assms classes_leave by (auto split: option.splits if_splits)
next
  case (Exit p)
  then show ?thesis using assms by (auto simp: exit_proc_def classes_ok_def split: if_splits option.splits)
next
  case (Spawn p job q started kept)
  then show ?thesis using assms spawn_sel(1) [of p job q started kept s s'] by (simp add: classes_ok_def)
next
  case (Setenv p t)
  then show ?thesis using assms by (auto simp: classes_ok_def)
next
  case (Start p c fds)
  have "classes_ok s'" if "enter p c l t CheckGeneration fds s = Some s'" for l t
    using that assms(1) by (auto simp: enter_def classes_ok_def class_ok_def split: list.splits if_splits)
  then show ?thesis using assms(3) Start by (auto simp: start_work_def Let_def split: option.splits)
next
  case (Look p l fds)
  then show ?thesis using assms by (auto simp: enter_def classes_ok_def class_ok_def split: list.splits if_splits)
qed

lemma classes_reach: "reach s \<Longrightarrow> classes_ok s"
proof (induction rule: reach.induct)
  case (booted content)
  then show ?case by (simp add: boot_def classes_ok_def)
next
  case (acted s a s')
  then show ?case using classes_act lanes_reach by blast
qed

definition running :: "work_class \<Rightarrow> sys \<Rightarrow> generation set" where
  "running c s = {g. \<exists>k x. working s k x \<and> lane_class (x_lane x) = c \<and> x_gen x = Some g}"

text \<open>
  C30: The host runs at most two heavy jobs and one light job at a time. Heavy work is never active
  on the light lane, neither with a light token nor with an invented one, so the generations that
  are active for a class are at most the class's lanes.
\<close>

theorem capacity_bounded:
  assumes "reach s"
  shows "card (running Heavy s) \<le> 2 \<and> card (running Light s) \<le> 1
    \<and> (\<forall>k x. working s k x \<and> x_class x = Heavy \<longrightarrow> lane_class (x_lane x) = Heavy)"
proof -
  have gen: "s_content s (x_lane x) = x_gen x" if "working s k x" for k x
  proof -
    have "pc_ok s x" "x_pc x = Active" using entrant_facts(4) [OF lanes_reach [OF assms]] that by (auto simp: working_def)
    then show ?thesis by (simp add: pc_ok_def carries_def)
  qed
  have at: "g = the (s_content s (x_lane x))" if "working s k x" "x_gen x = Some g" for k x g using gen [OF that(1)] that(2) by simp
  have "running Heavy s \<subseteq> {the (s_content s HeavyLane), the (s_content s SpareLane)}"
  proof
    fix g assume "g \<in> running Heavy s"
    then obtain k x where x: "working s k x" "lane_class (x_lane x) = Heavy" "x_gen x = Some g" by (auto simp: running_def)
    then show "g \<in> {the (s_content s HeavyLane), the (s_content s SpareLane)}"
      using at [OF x(1,3)] by (cases "x_lane x") auto
  qed
  then have "card (running Heavy s) \<le> card {the (s_content s HeavyLane), the (s_content s SpareLane)}" by (intro card_mono) auto
  also have "\<dots> \<le> 2" by (simp add: card_insert_if)
  finally have "card (running Heavy s) \<le> 2" .
  moreover have "running Light s \<subseteq> {the (s_content s LightLane)}"
  proof
    fix g assume "g \<in> running Light s"
    then obtain k x where x: "working s k x" "lane_class (x_lane x) = Light" "x_gen x = Some g" by (auto simp: running_def)
    then show "g \<in> {the (s_content s LightLane)}" using at [OF x(1,3)] by (cases "x_lane x") auto
  qed
  then have "card (running Light s) \<le> card {the (s_content s LightLane)}" by (intro card_mono) auto
  then have "card (running Light s) \<le> 1" by simp
  moreover have "lane_class (x_lane x) = Heavy" if "working s k x" "x_class x = Heavy" for k x
  proof -
    have "class_ok x" "x_pc x = Active" using classes_reach [OF assms] that by (auto simp: working_def classes_ok_def)
    then show ?thesis using that(2) by (simp add: class_ok_def)
  qed
  ultimately show ?thesis by blast
qed

end
