(* ===== verification/HeavyRuns.thy ===== *)
theory HeavyRuns
  imports HeavyQueue
begin

text \<open>
  Runs of heavy-work admission: concrete schedules that witness the invariants, and a schedule in
  which two waiting jobs hold each other up.
\<close>

fun acts :: "action list \<Rightarrow> sys \<Rightarrow> sys option" where
  "acts [] s = Some s"
| "acts (a # as) s = (case act a s of Some s' \<Rightarrow> acts as s' | None \<Rightarrow> None)"

lemma reach_acts: "reach s \<Longrightarrow> acts as s = Some s' \<Longrightarrow> reach s'"
  by (induction as arbitrary: s) (auto split: option.splits intro: reach.acted)

definition call :: "nat \<Rightarrow> nat list \<Rightarrow> action" where
  "call k fds = Step k \<lparr>i_admit = True, i_spare = False, i_clock = 0, i_fds = fds\<rparr>"

text \<open>A job without a token: started by a process, through the queue, admitted on the heavy lane.\<close>

definition queueing :: "nat \<Rightarrow> nat \<Rightarrow> action list" where
  "queueing p k = [Spawn 2 None p 0 [], Start p Heavy [3, 4], call k [], call k [], call k [5, 6]]"

definition admitted :: "nat \<Rightarrow> action list" where
  "admitted k = replicate 7 (call k [])"

text \<open>A child whose parent is the owner: it joins the owner's admission.\<close>

definition joined_run :: "action list" where
  "joined_run = queueing 10 0 @ admitted 0
     @ [Spawn 10 (Some 0) 11 0 [], Start 11 Heavy [3, 4]] @ replicate 4 (call 1 []) @ [call 1 [5], call 1 []]"

definition depths :: "sys \<Rightarrow> nat \<Rightarrow> (pc \<times> lane \<times> nat) option" where
  "depths s k = map_option (\<lambda>x. (x_pc x, x_lane x, x_depth x)) (s_entrants s k)"

lemma joined_run_ends:
  "map_option (\<lambda>s. (depths s 0, depths s 1)) (acts joined_run (boot (\<lambda>_. None)))
     = Some (Some (Active, HeavyLane, 0), Some (Active, HeavyLane, 1))"
  by code_simp

text \<open>The owner is killed between the child's check of its ancestors and the child's lock.\<close>

definition starving_run :: "action list" where
  "starving_run =
     queueing 10 0 @ admitted 0
     @ [Spawn 10 (Some 0) 11 0 [], Start 11 Heavy [3, 4]] @ replicate 3 (call 1 [])
     @ [Exit 10] @ queueing 20 2 @ admitted 2
     @ replicate 2 (call 1 []) @ queueing 30 3 @ [call 1 [], call 1 [5, 6], Leave 2]"

lemma starving_run_ends:
  "map_option (\<lambda>s. (map (depths s) [0, 1, 2, 3], s_born s, map snd (waiters Heavy s), map_option (\<lambda>x. s_mode s (x_activity x)) (s_entrants s 1)))
     (acts starving_run (boot (\<lambda>_. None)))
   = Some ([None, Some (Waiting, HeavyLane, 0), None, Some (Waiting, HeavyLane, 0)], 4, [3, 1], Some (Some Shared))"
  by code_simp

section \<open>A lock that outlives its check\<close>

definition stuck :: "nat \<Rightarrow> nat \<Rightarrow> sys \<Rightarrow> bool" where
  "stuck w d s \<longleftrightarrow>
     w \<noteq> d \<and> waiters Heavy s \<noteq> [] \<and> snd (hd (waiters Heavy s)) = w
     \<and> (\<exists>x y. s_entrants s w = Some x \<and> s_entrants s d = Some y \<and> x_lane x = HeavyLane \<and> x_lane y = HeavyLane \<and> x_pc y = Waiting
         \<and> x_pc x \<in> {Waiting, TryAdmission False, TryActivity False} \<and> s_mode s (x_activity y) = Some Shared)"

lemma stuck_waits: "stuck w d s \<Longrightarrow> waits s w \<and> waits s d"
  by (auto simp: stuck_def waits_def queued_pc_def)

lemma stuck_change:
  assumes "stuck w d s" "s_entrants s w = Some x" "s_entrants s d = Some y" "s_entrants s' = (s_entrants s)(w := Some (x\<lparr>x_pc := c\<rparr>))"
    and "c \<in> {Waiting, TryAdmission False, TryActivity False}" "s_mode s' (x_activity y) = s_mode s (x_activity y)"
    and "s_queue s' Heavy = s_queue s Heavy \<or> s_queue s' Heavy = waiters Heavy s"
  shows "stuck w d s'"
proof -
  have ww: "waits s w" using stuck_waits [OF assms(1)] by simp
  have w: "waits s' j = waits s j" for j using assms(2,4,5) ww by (auto simp: waits_def queued_pc_def)
  have "waiters Heavy s' = waiters Heavy s" using assms(7) unfolding waiters_def w by (auto simp: filter_id_conv)
  then show ?thesis using assms(1-6) by (auto simp: stuck_def)
qed

lemma stuck_step:
  assumes "reach s" "stuck w d s" "k = w \<or> k = d" "\<not> i_spare inp" "act (Step k inp) s = Some s'"
  shows "stuck w d s'"
proof -
  have inv: "lanes_ok s" by (rule lanes_reach [OF assms(1)])
  from assms(2) obtain x y where x: "s_entrants s w = Some x" "x_lane x = HeavyLane" "x_pc x \<in> {Waiting, TryAdmission False, TryActivity False}"
    and y: "s_entrants s d = Some y" "x_lane y = HeavyLane" "x_pc y = Waiting" "s_mode s (x_activity y) = Some Shared"
    and hd: "w \<noteq> d" "waiters Heavy s \<noteq> []" "snd (hd (waiters Heavy s)) = w" by (auto simp: stuck_def)
  have ne: "x_activity y \<notin> set (own_files x)" using apart [OF inv x(1) y(1)] hd(1) own_files_mem(2) [of y] by auto
  have xx: "(s_entrants s)(w := Some (x\<lparr>x_pc := x_pc x\<rparr>)) = s_entrants s" using x(1) by auto
  have here: "stuck w d s1" if "s_entrants s1 = s_entrants s" "s_mode s1 = s_mode s" "s_queue s1 Heavy = s_queue s Heavy \<or> s_queue s1 Heavy = waiters Heavy s" for s1
    by (rule stuck_change [OF assms(2) x(1) y(1), where c = "x_pc x"]) (use that x(3) xx in auto)
  have go: "stuck w d (goto w x c s1)"
    if "s_entrants s1 = s_entrants s" "s_mode s1 (x_activity y) = s_mode s (x_activity y)"
      "s_queue s1 Heavy = s_queue s Heavy \<or> s_queue s1 Heavy = waiters Heavy s" "c \<in> {Waiting, TryAdmission False, TryActivity False}" for c s1
    by (rule stuck_change [OF assms(2) x(1) y(1), where c = c]) (use that in \<open>auto simp: goto_put\<close>)
  have busy: "lane_busy inp w x False s1 = goto w x Waiting (s1\<lparr>s_meta := None\<rparr>)" for s1 using assms(4) by (simp add: lane_busy_def)
  show ?thesis
  proof (cases "k = d")
    case True
    then have "poll inp d y s = Some s'" using assms(5) y(1,3) by simp
    then have "s' = s \<or> s' = set_queue Heavy (waiters Heavy s) s"
      using y(2) hd by (auto simp: poll_def Let_def split: if_splits)
    then show ?thesis using assms(2) here [of "set_queue Heavy (waiters Heavy s) s"] by auto
  next
    case False
    then have k: "k = w" using assms(3) by simp
    from x(3) consider "x_pc x = Waiting" | "x_pc x = TryAdmission False" | "x_pc x = TryActivity False" by blast
    then show ?thesis
    proof cases
      case 1
      then have "poll inp w x s = Some s'" using assms(5) x(1) k by simp
      then have "s' = s \<or> s' = goto w x (TryAdmission False) ((set_queue Heavy (waiters Heavy s) s)\<lparr>s_meta := Some w\<rparr>)"
        using x(2) hd(2) hd(3) [symmetric] unfolding poll_def Let_def by (simp split: if_split_asm)
      then show ?thesis using assms(2) go [of "(set_queue Heavy (waiters Heavy s) s)\<lparr>s_meta := Some w\<rparr>" "TryAdmission False"] by auto
    next
      case 2
      have cd: "chosen_admission x False \<noteq> x_activity y" using ne own_files_mem(5) [of x False] by auto
      show ?thesis using 2 assms(5) x(1) k cd go by (auto simp: try_flock_def busy)
    next
      case 3
      have cd: "chosen_admission x False \<noteq> x_activity y" "chosen_activity x False \<noteq> x_activity y"
        using ne own_files_mem(5,6) [of x False] by auto
      note fx = entrant_facts [OF inv x(1)] and fy = entrant_facts [OF inv y(1)]
      have "x_activity y \<in> set (open_files s)" using fy(6) own_files_mem(2) in_proc_open by blast
      moreover have "s_file s (x_activity y) = s_file s (chosen_activity x False)"
        using fx(3) fy(3) x(2) y(2) by (simp add: files_ok_def chosen_activity_def)
      ultimately have "\<not> can_lock (chosen_activity x False) Exclusive s"
        using cd(2) y(4) by (auto simp: can_lock_def list_all_iff clash_def intro!: bexI [of _ "x_activity y"])
      then show ?thesis using 3 assms(5) x(1) k cd go by (auto simp: try_flock_def busy)
    qed
  qed
qed

lemma stuck_acts:
  assumes "reach s" "stuck w d s" "\<forall>a\<in>set as. \<exists>k inp. a = Step k inp \<and> (k = w \<or> k = d) \<and> \<not> i_spare inp" "acts as s = Some s'"
  shows "stuck w d s'"
  using assms
proof (induction as arbitrary: s)
  case (Cons a as)
  then obtain k inp s1 where a: "a = Step k inp" "k = w \<or> k = d" "\<not> i_spare inp" "act a s = Some s1" "acts as s1 = Some s'"
    by (auto split: option.splits)
  have "stuck w d s1" using stuck_step [OF Cons.prems(1,2) a(2,3)] a(1,4) by simp
  moreover have "reach s1" using Cons.prems(1) a(4) by (rule reach.acted)
  ultimately show ?case using Cons.IH [of s1] Cons.prems(3) a(5) by simp
qed simp

text \<open>
  A failed join can stop the queue for good. There is a reachable state with two waiting jobs
  and nobody else, in which neither is ever admitted on a host without headroom for a second job,
  however often both try: the second one still holds the shared lock that its check of an
  inherited token took and did not give back, and waits behind the first.
\<close>

theorem stale_join_starves_queue:
  "\<exists>s w d. reach s \<and> {k. s_entrants s k \<noteq> None} = {w, d} \<and> w \<noteq> d
     \<and> (\<forall>as s'. (\<forall>a\<in>set as. \<exists>k inp. a = Step k inp \<and> (k = w \<or> k = d) \<and> \<not> i_spare inp) \<and> acts as s = Some s' \<longrightarrow>
          waits s' w \<and> waits s' d)"
proof -
  obtain s where run: "acts starving_run (boot (\<lambda>_. None)) = Some s"
    and pcs: "map (depths s) [0, 1, 2, 3] = [None, Some (Waiting, HeavyLane, 0), None, Some (Waiting, HeavyLane, 0)]"
    and born: "s_born s = 4" and ws: "map snd (waiters Heavy s) = [3, 1]"
    and m: "map_option (\<lambda>x. s_mode s (x_activity x)) (s_entrants s 1) = Some (Some Shared)"
    using starving_run_ends by (auto simp: map_option_case split: option.splits)
  have r: "reach s" by (rule reach_acts [OF reach.booted run])
  have "k \<in> {3, 1}" if "s_entrants s k \<noteq> None" for k
  proof -
    have "k < 4" using that queue_facts(7) [OF queue_reach [OF r]] born by fastforce
    then have "k \<in> {0, 1, 2, 3}" by auto
    then show ?thesis using that pcs by (auto simp: depths_def)
  qed
  moreover have "s_entrants s 3 \<noteq> None" "s_entrants s 1 \<noteq> None" using pcs by (auto simp: depths_def)
  ultimately have dom: "{k. s_entrants s k \<noteq> None} = {3, 1}" by blast
  have "waiters Heavy s \<noteq> []" "snd (hd (waiters Heavy s)) = 3" using ws by (auto simp: map_eq_Cons_conv)
  then have "stuck 3 1 s" using pcs m by (auto simp: stuck_def depths_def)
  then have "\<forall>as s'. (\<forall>a\<in>set as. \<exists>k inp. a = Step k inp \<and> (k = 3 \<or> k = 1) \<and> \<not> i_spare inp) \<and> acts as s = Some s' \<longrightarrow>
      waits s' 3 \<and> waits s' 1" using stuck_acts [OF r] stuck_waits by blast
  then show ?thesis using r dom by (intro exI [of _ s] exI [of _ 3] exI [of _ 1]) simp
qed

theorem stale_join_starves_queue_witness:
  "\<exists>s w d. reach s \<and> {k. s_entrants s k \<noteq> None} = {w, d} \<and> w \<noteq> d \<and> waits s w \<and> waits s d"
proof -
  from stale_join_starves_queue obtain s w d where s: "reach s" "{k. s_entrants s k \<noteq> None} = {w, d}" "w \<noteq> d"
    and all: "\<forall>as s'. (\<forall>a\<in>set as. \<exists>k inp. a = Step k inp \<and> (k = w \<or> k = d) \<and> \<not> i_spare inp) \<and> acts as s = Some s' \<longrightarrow>
      waits s' w \<and> waits s' d" by blast
  from all [rule_format, of "[]" s] s show ?thesis by auto
qed

section \<open>Witnesses\<close>

lemma joined_state:
  obtains s x y where "reach s" "working s 0 x" "working s 1 y" "x_lane x = HeavyLane" "x_lane y = HeavyLane" "x_depth x = 0" "x_depth y = 1"
proof -
  obtain s where run: "acts joined_run (boot (\<lambda>_. None)) = Some s"
    and d: "depths s 0 = Some (Active, HeavyLane, 0)" "depths s 1 = Some (Active, HeavyLane, 1)"
    using joined_run_ends by (auto simp: map_option_case split: option.splits)
  have "reach s" by (rule reach_acts [OF reach.booted run])
  with d that show thesis by (auto simp: depths_def working_def)
qed

theorem lanes_are_exclusive_witness:
  "\<exists>s x y. reach s \<and> working s 0 x \<and> working s 1 y \<and> x_depth x \<noteq> x_depth y \<and> x_gen x = x_gen y"
proof -
  obtain s x y where s: "reach s" "working s 0 x" "working s 1 y" "x_lane x = HeavyLane" "x_lane y = HeavyLane" "x_depth x = 0" "x_depth y = 1"
    by (rule joined_state)
  have "x_gen x = x_gen y" "x_depth x \<noteq> x_depth y" using lanes_are_exclusive [OF s(1-3)] s(4-7) by simp_all
  with s(1-3) show ?thesis by blast
qed

theorem capacity_bounded_witness:
  "\<exists>s. reach s \<and> running Heavy s \<noteq> {} \<and> card (running Heavy s) \<le> 2"
proof -
  obtain s x y where s: "reach s" "working s 0 x" "x_lane x = HeavyLane" by (rule joined_state)
  have "pc_ok s x" "x_pc x = Active" using entrant_facts(4) [OF lanes_reach [OF s(1)]] s(2) by (auto simp: working_def)
  then obtain g where "x_gen x = Some g" by (auto simp: pc_ok_def carries_def)
  moreover have "lane_class (x_lane x) = Heavy" using s(3) by simp
  ultimately have "g \<in> running Heavy s" using s(2) unfolding running_def by blast
  with capacity_bounded [OF s(1)] s(1) show ?thesis by blast
qed

definition fifo_run :: "action list" where
  "fifo_run = queueing 10 0 @ queueing 20 1 @ replicate 3 (call 0 [])"

lemma fifo_run_ends:
  "map_option (\<lambda>s. (depths s 0, depths s 1, map snd (waiters Heavy s))) (acts fifo_run (boot (\<lambda>_. None)))
     = Some (Some (Dequeue False, HeavyLane, 0), Some (Waiting, HeavyLane, 0), [0, 1])"
  by code_simp

theorem admission_is_fifo_witness:
  "\<exists>s x y. reach s \<and> s_entrants s 0 = Some x \<and> x_pc x = Dequeue False \<and> s_entrants s 1 = Some y \<and> x_pc y = Waiting
    \<and> (\<forall>n m. ticket s 0 x n \<and> ticket s 1 y m \<longrightarrow> n < m)"
proof -
  obtain s where run: "acts fifo_run (boot (\<lambda>_. None)) = Some s"
    and d: "depths s 0 = Some (Dequeue False, HeavyLane, 0)" "depths s 1 = Some (Waiting, HeavyLane, 0)"
    using fifo_run_ends by (auto simp: map_option_case split: option.splits)
  have r: "reach s" by (rule reach_acts [OF reach.booted run])
  obtain x y where x: "s_entrants s 0 = Some x" "x_pc x = Dequeue False" "x_lane x = HeavyLane"
    and y: "s_entrants s 1 = Some y" "x_pc y = Waiting" "x_lane y = HeavyLane" using d by (auto simp: depths_def)
  have "queued_pc (x_pc y)" "lane_class (x_lane y) = lane_class (x_lane x)" "(1::nat) \<noteq> 0" using x y by (simp_all add: queued_pc_def)
  from admission_is_fifo [OF r x(1,2) y(1) this] have "\<forall>n m. ticket s 0 x n \<and> ticket s 1 y m \<longrightarrow> n < m" by simp
  with r x(1,2) y(1,2) show ?thesis by (intro exI [of _ s] exI [of _ x] exI [of _ y] conjI)
qed

end
