(* ===== verification/NetAddress.thy ===== *)
theory NetAddress
  imports PyStr
begin

text \<open>
  The parts of Python's \<open>ipaddress\<close> and \<open>urllib.parse\<close> that decide where a request comes from
  (Python 3.13, ASCII text): reading an address, its loopback and private ranges, and the scheme,
  host and port of a URL. Addresses are the integers the library
  keeps, a range is a base and a prefix length.
\<close>

datatype ip = V4 int | V6 int

section \<open>Numbers in a base\<close>

definition digit_value :: "char \<Rightarrow> int" where
  "digit_value c = (let n = of_char c in if n < 65 then n - 48 else if 97 \<le> n then n - 87 else n - 55)"

definition value_in :: "int \<Rightarrow> string \<Rightarrow> int" where
  "value_in base s = foldl (\<lambda>n c. n * base + digit_value c) 0 s"

section \<open>IPv4\<close>

text \<open>\<open>IPv4Address._parse_octet\<close>: digits only, at most three, no leading zero, at most 255.\<close>

definition parse_octet :: "string \<Rightarrow> int option" where
  "parse_octet s =
     (if s = [] \<or> \<not> list_all is_digit s \<or> 3 < length s \<or> (s \<noteq> ''0'' \<and> hd s = CHR ''0'') \<or> 255 < value_in 10 s then None
      else Some (value_in 10 s))"

definition parse_ipv4 :: "string \<Rightarrow> int option" where
  "parse_ipv4 s =
     (if CHR ''/'' \<in> set s then None
      else case map parse_octet (split_on CHR ''.'' s) of
             [Some a, Some b, Some c, Some d] \<Rightarrow> Some (((a * 256 + b) * 256 + c) * 256 + d)
           | _ \<Rightarrow> None)"

section \<open>IPv6\<close>

definition is_hex_char :: "char \<Rightarrow> bool" where
  "is_hex_char c = (is_digit c \<or> c \<in> set ''abcdefABCDEF'')"

text \<open>\<open>_parse_hextet\<close>; \<open>int('', 16)\<close> raises as well.\<close>

definition parse_hextet :: "string \<Rightarrow> int option" where
  "parse_hextet s = (if s = [] \<or> \<not> list_all is_hex_char s \<or> 4 < length s then None else Some (value_in 16 s))"

fun hextets :: "string list \<Rightarrow> int list option" where
  "hextets [] = Some []"
| "hextets (p # ps) =
     (case (parse_hextet p, hextets ps) of (Some n, Some ns) \<Rightarrow> Some (n # ns) | _ \<Rightarrow> None)"

definition of_hextets :: "int list \<Rightarrow> int" where
  "of_hextets ns = foldl (\<lambda>n h. n * 65536 + h) 0 ns"

text \<open>
  An IPv4 suffix becomes two hextets; \<open>::\<close> (an empty part that is not at an end) stands for the
  missing zeros, and an empty part at an end is allowed only beside it.
\<close>

definition split_suffix :: "string list \<Rightarrow> (string list \<times> int list) option" where
  "split_suffix parts =
     (if CHR ''.'' \<in> set (last parts)
      then map_option (\<lambda>w. (butlast parts, [w div 65536, w mod 65536])) (parse_ipv4 (last parts))
      else Some (parts, []))"

definition empty_inside :: "string list \<Rightarrow> nat list" where
  "empty_inside parts = filter (\<lambda>i. 1 \<le> i \<and> i + 1 < length parts \<and> parts ! i = []) [0..<length parts]"

text \<open>The parts before and after the \<open>::\<close> at index \<open>i\<close>; \<open>None\<close> where a lone colon stands at an end.\<close>

definition around :: "string list \<Rightarrow> nat \<Rightarrow> (string list \<times> string list) option" where
  "around parts i =
     (let hi = (if hd parts = [] then (if i = 1 then Some [] else None) else Some (take i parts));
          lo = (if last parts = [] then (if i + 2 = length parts then Some [] else None) else Some (drop (Suc i) parts))
      in case (hi, lo) of (Some a, Some b) \<Rightarrow> Some (a, b) | _ \<Rightarrow> None)"

text \<open>The parts, those of an IPv4 suffix written as placeholders in hexadecimal, which are never empty.\<close>

definition ipv6_value :: "string list \<Rightarrow> int list \<Rightarrow> int option" where
  "ipv6_value parts suffix =
     (let all = parts @ map (\<lambda>_. ''0'') suffix
      in if length all > 9 then None
         else case empty_inside all of
                [] \<Rightarrow>
                  if length all \<noteq> 8 then None
                  else map_option (\<lambda>hs. of_hextets (hs @ suffix)) (hextets parts)
              | [i] \<Rightarrow>
                  (case around all i of
                     None \<Rightarrow> None
                   | Some (hi, lo) \<Rightarrow>
                       if length hi + length lo \<ge> 8 then None
                       else let kept = take (length lo - length suffix) lo
                            in case (hextets hi, hextets kept) of
                                 (Some a, Some b) \<Rightarrow>
                                   Some (of_hextets (a @ replicate (8 - (length hi + length lo)) 0 @ b @ suffix))
                               | _ \<Rightarrow> None)
              | _ \<Rightarrow> None)"

definition parse_ipv6 :: "string \<Rightarrow> int option" where
  "parse_ipv6 s =
     (let addr = before_first CHR ''%'' s; scope = after_first CHR ''%'' s; parts = split_on CHR '':'' addr
      in if CHR ''/'' \<in> set s \<or> (CHR ''%'' \<in> set s \<and> (scope = [] \<or> CHR ''%'' \<in> set scope)) \<or> length parts < 3 then None
         else case split_suffix parts of
                None \<Rightarrow> None
              | Some (ps, suffix) \<Rightarrow> ipv6_value ps suffix)"

definition ip_address :: "string \<Rightarrow> ip option" where
  "ip_address s =
     (case parse_ipv4 s of
        Some w \<Rightarrow> Some (V4 w)
      | None \<Rightarrow> map_option V6 (parse_ipv6 s))"

section \<open>Ranges\<close>

text \<open>A range: the bits below the prefix, and the base without them.\<close>

definition in_net :: "int \<Rightarrow> nat \<times> int \<Rightarrow> bool" where
  "in_net w net = (drop_bit (fst net) w = snd net)"

definition v4_net :: "int \<Rightarrow> int \<Rightarrow> int \<Rightarrow> int \<Rightarrow> nat \<Rightarrow> nat \<times> int" where
  "v4_net a b c d n = (32 - n, drop_bit (32 - n) (((a * 256 + b) * 256 + c) * 256 + d))"

definition v6_net :: "int list \<Rightarrow> nat \<Rightarrow> nat \<times> int" where
  "v6_net hs n = (128 - n, drop_bit (128 - n) (of_hextets (hs @ replicate (8 - length hs) 0)))"

definition private4 :: "(nat \<times> int) list" where
  "private4 =
     [v4_net 0 0 0 0 8, v4_net 10 0 0 0 8, v4_net 127 0 0 0 8, v4_net 169 254 0 0 16, v4_net 172 16 0 0 12,
      v4_net 192 0 0 0 24, v4_net 192 0 0 170 31, v4_net 192 0 2 0 24, v4_net 192 168 0 0 16, v4_net 198 18 0 0 15,
      v4_net 198 51 100 0 24, v4_net 203 0 113 0 24, v4_net 240 0 0 0 4, v4_net 255 255 255 255 32]"

definition private4_exceptions :: "(nat \<times> int) list" where
  "private4_exceptions = [v4_net 192 0 0 9 32, v4_net 192 0 0 10 32]"

definition private6 :: "(nat \<times> int) list" where
  "private6 =
     [v6_net [0, 0, 0, 0, 0, 0, 0, 1] 128, v6_net [] 128, v6_net [0, 0, 0, 0, 0, 65535] 96, v6_net [0x64, 0xff9b, 1] 48,
      v6_net [0x100] 64, v6_net [0x2001] 23, v6_net [0x2001, 0xdb8] 32, v6_net [0x2002] 16, v6_net [0xfc00] 7, v6_net [0xfe80] 10]"

definition private6_exceptions :: "(nat \<times> int) list" where
  "private6_exceptions =
     [v6_net [0x2001, 1, 0, 0, 0, 0, 0, 1] 128, v6_net [0x2001, 1, 0, 0, 0, 0, 0, 2] 128, v6_net [0x2001, 3] 32,
      v6_net [0x2001, 4, 0x112] 48, v6_net [0x2001, 0x20] 28, v6_net [0x2001, 0x30] 28]"

definition in_ranges :: "int \<Rightarrow> (nat \<times> int) list \<Rightarrow> (nat \<times> int) list \<Rightarrow> bool" where
  "in_ranges w nets exceptions = (list_ex (in_net w) nets \<and> \<not> list_ex (in_net w) exceptions)"

text \<open>An IPv6 address that carries an IPv4 one is judged by it.\<close>

definition ipv4_mapped :: "int \<Rightarrow> int option" where
  "ipv4_mapped w = (if w div 2 ^ 32 = 65535 then Some (w mod 2 ^ 32) else None)"

fun is_loopback :: "ip \<Rightarrow> bool" where
  "is_loopback (V4 w) = in_net w (v4_net 127 0 0 0 8)"
| "is_loopback (V6 w) = (case ipv4_mapped w of Some v \<Rightarrow> in_net v (v4_net 127 0 0 0 8) | None \<Rightarrow> w = 1)"

fun is_private :: "ip \<Rightarrow> bool" where
  "is_private (V4 w) = in_ranges w private4 private4_exceptions"
| "is_private (V6 w) =
     (case ipv4_mapped w of
        Some v \<Rightarrow> in_ranges v private4 private4_exceptions
      | None \<Rightarrow> in_ranges w private6 private6_exceptions)"

section \<open>URLs\<close>

record url_parts =
  u_scheme :: string
  u_netloc :: string

definition after_last :: "char \<Rightarrow> string \<Rightarrow> string" where
  "after_last c s = rev (takeWhile (\<lambda>x. x \<noteq> c) (rev s))"

text \<open>\<open>_check_bracketed_host\<close>: an IPvFuture address or an IPv6 one.\<close>

definition bracketed_host_ok :: "string \<Rightarrow> bool" where
  "bracketed_host_ok h =
     (if startswith h ''v''
      then (let hex = takeWhile is_hex_char (tl h); rest = dropWhile is_hex_char (tl h)
            in hex \<noteq> [] \<and> startswith rest ''.'' \<and> 1 < length rest \<and> char_of (10::nat) \<notin> set rest)
      else (case ip_address h of Some (V6 _) \<Rightarrow> True | _ \<Rightarrow> False))"

definition netloc_ok :: "string \<Rightarrow> bool" where
  "netloc_ok netloc =
     (if (CHR ''['' \<in> set netloc) \<noteq> (CHR '']'' \<in> set netloc) then False
      else if CHR ''['' \<notin> set netloc then True
      else let hp = after_last CHR ''@'' netloc; rest = after_first CHR '']'' (after_first CHR ''['' hp)
           in if CHR ''['' \<in> set hp
              then before_first CHR ''['' hp = [] \<and> (rest = [] \<or> startswith rest '':'')
                   \<and> bracketed_host_ok (before_first CHR '']'' (after_first CHR ''['' hp))
              else bracketed_host_ok (before_first CHR '':'' hp))"

definition scheme_char :: "char \<Rightarrow> bool" where
  "scheme_char c = (is_alpha c \<or> is_digit c \<or> c \<in> set ''+-.'')"

text \<open>\<open>urlparse\<close>, as far as scheme and host; \<open>None\<close> is \<open>ValueError\<close>.\<close>

definition urlparse :: "string \<Rightarrow> url_parts option" where
  "urlparse text =
     (let url = filter (\<lambda>c. char_nat c \<noteq> 9 \<and> char_nat c \<noteq> 10 \<and> char_nat c \<noteq> 13) (dropWhile (\<lambda>c. char_nat c \<le> 32) text);
          head = before_first CHR '':'' url;
          schemed = (CHR '':'' \<in> set url \<and> head \<noteq> [] \<and> is_alpha (hd head) \<and> list_all scheme_char head);
          scheme = (if schemed then lower head else []);
          rest = (if schemed then after_first CHR '':'' url else url);
          netloc = (if startswith rest ''//'' then takeWhile (\<lambda>c. c \<notin> set ''/?#'') (drop 2 rest) else [])
      in if netloc_ok netloc then Some \<lparr>u_scheme = scheme, u_netloc = netloc\<rparr> else None)"

definition host_info :: "string \<Rightarrow> string \<times> string" where
  "host_info netloc =
     (let hp = after_last CHR ''@'' netloc
      in if CHR ''['' \<in> set hp
         then (let b = after_first CHR ''['' hp in (before_first CHR '']'' b, after_first CHR '':'' (after_first CHR '']'' b)))
         else (before_first CHR '':'' hp, after_first CHR '':'' hp))"

definition url_hostname :: "url_parts \<Rightarrow> string option" where
  "url_hostname u =
     (let h = fst (host_info (u_netloc u))
      in if h = [] then None
         else Some (lower (before_first CHR ''%'' h) @ (if CHR ''%'' \<in> set h then CHR ''%'' # after_first CHR ''%'' h else [])))"

text \<open>The port; the outer \<open>None\<close> is \<open>ValueError\<close>.\<close>

definition url_port :: "url_parts \<Rightarrow> int option option" where
  "url_port u =
     (let p = snd (host_info (u_netloc u))
      in if p = [] then Some None
         else if list_all is_digit p \<and> value_in 10 p \<le> 65535 then Some (Some (value_in 10 p)) else None)"

section \<open>Examples\<close>

lemma loopback_names:
  "map_option is_loopback (ip_address ''127.0.0.1'') = Some True"
  "map_option is_loopback (ip_address ''::1'') = Some True"
  "map_option is_loopback (ip_address ''::ffff:127.8.0.1'') = Some True"
  "map_option is_loopback (ip_address ''192.168.1.20'') = Some False"
  "ip_address ''localhost'' = None" "ip_address ''127.1'' = None" "ip_address ''::1::'' = None"
  by code_simp+

lemma private_names:
  "map_option is_private (ip_address ''192.168.1.20'') = Some True"
  "map_option is_private (ip_address ''fe80::1%eth0'') = Some True"
  "map_option is_private (ip_address ''8.8.8.8'') = Some False"
  "map_option is_private (ip_address ''2001:4860:4860::8888'') = Some False"
  by code_simp+

end
