(* ===== verification/AccessControl.thy ===== *)
theory AccessControl
  imports NetAddress Json Regex
begin

text \<open>
  Who may use the API (\<open>backend/app/access_control.py\<close>, \<open>app/storage/access.py\<close>,
  \<open>app/request_origin.py\<close> and the origin check of \<open>app/api/backups/key_endpoints.py\<close>): the check of
  the request's origin, the identity of the caller, and the gate before the routes, composed as
  \<open>app/main.py\<close> installs them.

  A request is the data the framework hands over; header names are lower case. The verification of
  an Access token (PyJWT) is the function \<open>verify\<close> of the environment, which answers the claims of a
  valid token for a domain, audience and issuer. Token files are the function \<open>read_file\<close>. The table of
  users is a map from email addresses to rows.
\<close>

section \<open>Requests, settings, users\<close>

record http_request =
  r_method :: string
  r_path :: string
  r_url_host :: "string option"
  r_netloc :: string
  r_client :: "string option"
  r_headers :: "(string \<times> string) list"
  r_cookies :: "(string \<times> string) list"

record settings =
  team_domain :: string
  access_aud :: string
  owner_emails :: string
  loopback_is_owner :: bool
  owner_token_file :: string
  agent_token_file :: string

record access_env =
  verify :: "string \<Rightarrow> string \<Rightarrow> string \<Rightarrow> string \<Rightarrow> dict option"
  read_file :: "string \<Rightarrow> string option"

record access_user =
  au_role :: string
  au_active :: bool
  au_created :: int
  au_updated :: int

type_synonym users = "string \<Rightarrow> access_user option"

record principal =
  p_email :: string
  p_role :: string
  p_active :: bool
  p_local :: bool

definition AGENT_ROLE :: string where "AGENT_ROLE = ''agent''"

definition is_owner :: "principal \<Rightarrow> bool" where
  "is_owner p = (p_role p = ''owner'' \<and> p_active p)"

definition is_agent :: "principal \<Rightarrow> bool" where
  "is_agent p = (p_role p = AGENT_ROLE \<and> p_active p)"

section \<open>The table of users\<close>

definition normalize_email :: "string \<Rightarrow> string" where
  "normalize_email s = lower (strip s)"

definition parse_owner_emails :: "string \<Rightarrow> string list" where
  "parse_owner_emails value =
     filter (\<lambda>e. e \<noteq> [])
       (map normalize_email (split_on CHR '','' (map (\<lambda>c. if c = char_of (10::nat) \<or> c = CHR '';'' then CHR '','' else c) value)))"

text \<open>The upsert of one owner; the database sets the times.\<close>

definition upsert_owner :: "int \<Rightarrow> string \<Rightarrow> users \<Rightarrow> users" where
  "upsert_owner now email us =
     us(email \<mapsto> (case us email of
        None \<Rightarrow> \<lparr>au_role = ''owner'', au_active = True, au_created = now, au_updated = now\<rparr>
      | Some u \<Rightarrow> u\<lparr>au_role := ''owner'', au_active := True, au_updated := now\<rparr>))"

definition bootstrap_owners :: "int \<Rightarrow> string list \<Rightarrow> users \<Rightarrow> users" where
  "bootstrap_owners now emails us = fold (upsert_owner now) emails us"

definition get_user :: "string \<Rightarrow> users \<Rightarrow> access_user option" where
  "get_user email us = us (normalize_email email)"

definition configured_owner_emails :: "settings \<Rightarrow> string list" where
  "configured_owner_emails st = parse_owner_emails (owner_emails st)"

section \<open>Identities\<close>

datatype http_error = HttpError nat string

definition token_matches :: "access_env \<Rightarrow> string \<Rightarrow> string option \<Rightarrow> bool" where
  "token_matches e token_file presented =
     (case presented of
        None \<Rightarrow> False
      | Some p \<Rightarrow>
          if strip token_file = [] \<or> p = [] then False
          else (case read_file e (strip token_file) of
                  None \<Rightarrow> False
                | Some content \<Rightarrow> strip content \<noteq> [] \<and> strip p = strip content))"

definition header :: "http_request \<Rightarrow> string \<Rightarrow> string" where
  "header r name = (case map_of (r_headers r) name of Some v \<Rightarrow> v | None \<Rightarrow> [])"

definition access_header_token :: "http_request \<Rightarrow> string" where
  "access_header_token r = strip (header r ''cf-access-jwt-assertion'')"

definition access_cookie_token :: "http_request \<Rightarrow> string" where
  "access_cookie_token r = strip (case map_of (r_cookies r) ''CF_Authorization'' of Some v \<Rightarrow> v | None \<Rightarrow> [])"

definition cloudflare_configured :: "settings \<Rightarrow> bool" where
  "cloudflare_configured st = (team_domain st \<noteq> [] \<and> access_aud st \<noteq> [])"

definition is_local_network_client :: "http_request \<Rightarrow> bool" where
  "is_local_network_client r =
     (let host = (case r_client r of Some h \<Rightarrow> h | None \<Rightarrow> [])
      in case ip_address host of
           None \<Rightarrow> host = ''localhost''
         | Some ip \<Rightarrow> is_loopback ip \<or> is_private ip)"

definition hostname :: "string option \<Rightarrow> string" where
  "hostname value =
     (case value of
        None \<Rightarrow> []
      | Some v \<Rightarrow>
          (let first = lower (strip (before_first CHR '','' v))
           in if startswith first ''['' \<and> CHR '']'' \<in> set first then before_first CHR '']'' (tl first)
              else if CHR '':'' \<in> set first then before_last CHR '':'' first else first))"

definition request_hostnames :: "http_request \<Rightarrow> string list" where
  "request_hostnames r =
     filter (\<lambda>h. h \<noteq> [])
       (map hostname [r_url_host r, map_of (r_headers r) ''host'', map_of (r_headers r) ''x-forwarded-host''])"

definition is_loopback_hostname :: "string \<Rightarrow> bool" where
  "is_loopback_hostname h =
     (h = ''localhost'' \<or> (case ip_address h of Some ip \<Rightarrow> is_loopback ip | None \<Rightarrow> False))"

definition is_local_development_request :: "http_request \<Rightarrow> bool" where
  "is_local_development_request r =
     (is_local_network_client r \<and> request_hostnames r \<noteq> [] \<and> list_all is_loopback_hostname (request_hostnames r))"

definition normalized_team_domain :: "string \<Rightarrow> string" where
  "normalized_team_domain value =
     rstrip_chars ''/'' (lstrip_chars ''/'' (removeprefix (removeprefix (strip value) ''https://'') ''http://''))"

definition mail_claim :: "json \<Rightarrow> string option" where
  "mail_claim j = (case j of JStr s \<Rightarrow> if CHR ''@'' \<in> set s then Some s else None | _ \<Rightarrow> None)"

definition payload_email :: "dict \<Rightarrow> string option" where
  "payload_email payload =
     or_else (first_some (\<lambda>key. mail_claim (get payload key)) [''email'', ''sub''])
       (case get payload ''identity'' of JObj d \<Rightarrow> mail_claim (get d ''email'') | _ \<Rightarrow> None)"

definition email_from_cloudflare_token :: "access_env \<Rightarrow> settings \<Rightarrow> string \<Rightarrow> (http_error, string) result" where
  "email_from_cloudflare_token e st token =
     (if \<not> cloudflare_configured st then raise (HttpError 503 ''Cloudflare Access is not configured'')
      else let domain = normalized_team_domain (team_domain st)
           in case verify e domain (access_aud st) (''https://'' @ domain) token of
                None \<Rightarrow> raise (HttpError 401 ''Invalid Cloudflare Access token'')
              | Some payload \<Rightarrow>
                  (case payload_email payload of
                     None \<Rightarrow> raise (HttpError 401 ''Cloudflare Access token has no email'')
                   | Some email \<Rightarrow> return (normalize_email email)))"

definition principal_for_email :: "settings \<Rightarrow> int \<Rightarrow> string \<Rightarrow> users \<Rightarrow> principal \<times> users" where
  "principal_for_email st now email us =
     (let us1 = bootstrap_owners now (configured_owner_emails st) us;
          n = normalize_email email;
          us2 = (if n \<in> set (configured_owner_emails st) \<and> get_user n us1 = None then bootstrap_owners now [n] us1 else us1)
      in (case get_user n us2 of
            None \<Rightarrow> \<lparr>p_email = n, p_role = ''none'', p_active = False, p_local = False\<rparr>
          | Some u \<Rightarrow> \<lparr>p_email = normalize_email n, p_role = au_role u, p_active = au_active u, p_local = False\<rparr>, us2))"

definition local_owner_email :: "settings \<Rightarrow> string" where
  "local_owner_email st =
     (case sort (configured_owner_emails st) of [] \<Rightarrow> ''local-owner@summitflow.local'' | e # _ \<Rightarrow> e)"

definition local_owner_principal :: "settings \<Rightarrow> int \<Rightarrow> users \<Rightarrow> principal \<times> users" where
  "local_owner_principal st now us =
     (\<lparr>p_email = local_owner_email st, p_role = ''owner'', p_active = True, p_local = True\<rparr>,
      bootstrap_owners now [local_owner_email st] us)"

definition token_principal :: "access_env \<Rightarrow> settings \<Rightarrow> int \<Rightarrow> string \<Rightarrow> users \<Rightarrow> (http_error, principal option) result \<times> users" where
  "token_principal e st now token us =
     (case email_from_cloudflare_token e st token of
        Inl err \<Rightarrow> (raise err, us)
      | Inr email \<Rightarrow> (case principal_for_email st now email us of (p, us') \<Rightarrow> (return (Some p), us')))"

definition agent_principal :: principal where
  "agent_principal = \<lparr>p_email = ''agent@summitflow.local'', p_role = AGENT_ROLE, p_active = True, p_local = True\<rparr>"

definition resolve_principal :: "access_env \<Rightarrow> settings \<Rightarrow> int \<Rightarrow> http_request \<Rightarrow> users \<Rightarrow> (http_error, principal option) result \<times> users" where
  "resolve_principal e st now r us =
     (if access_header_token r \<noteq> [] then token_principal e st now (access_header_token r) us
      else if token_matches e (owner_token_file st) (map_of (r_headers r) ''x-summitflow-owner-token'')
      then (case local_owner_principal st now us of (p, us') \<Rightarrow> (return (Some p), us'))
      else if \<not> loopback_is_owner st \<and> token_matches e (agent_token_file st) (map_of (r_headers r) ''x-summitflow-agent-token'')
      then (return (Some agent_principal), us)
      else if loopback_is_owner st \<and> is_local_development_request r
      then (case local_owner_principal st now us of (p, us') \<Rightarrow> (return (Some p), us'))
      else if cloudflare_configured st \<and> access_cookie_token r \<noteq> [] then token_principal e st now (access_cookie_token r) us
      else (return None, us))"

section \<open>The origin of a request\<close>

definition default_port :: "string \<Rightarrow> int option" where
  "default_port scheme = (if scheme = ''https'' then Some 443 else if scheme = ''http'' then Some 80 else None)"

text \<open>\<open>_authority\<close>; \<open>None\<close> is the \<open>ValueError\<close> of a malformed host.\<close>

definition authority :: "string option \<Rightarrow> string option" where
  "authority value =
     (case value of
        None \<Rightarrow> Some []
      | Some [] \<Rightarrow> Some []
      | Some v \<Rightarrow>
          (let first = lower (strip (before_first CHR '','' v))
           in case urlparse (if contains first ''://'' then first else ''//'' @ first) of
                None \<Rightarrow> None
              | Some u \<Rightarrow>
                  (case url_hostname u of
                     None \<Rightarrow> Some []
                   | Some h \<Rightarrow>
                       (case url_port u of
                          None \<Rightarrow> Some []
                        | Some None \<Rightarrow> Some (lower h)
                        | Some (Some port) \<Rightarrow>
                            Some (if default_port (u_scheme u) = Some port then lower h else lower h @ '':'' @ int_str port)))))"

datatype origin_check = SameOrigin | OtherOrigin | Malformed

definition fetch_site :: "http_request \<Rightarrow> string" where
  "fetch_site r = lower (strip (header r ''sec-fetch-site''))"

definition require_same_origin :: "http_request \<Rightarrow> origin_check" where
  "require_same_origin r =
     (if fetch_site r = ''same-origin'' then SameOrigin
      else let origin = strip (header r ''origin'')
           in case (urlparse origin, authority (Some (r_netloc r)), authority (map_of (r_headers r) ''host''),
                    authority (map_of (r_headers r) ''x-forwarded-host''), authority (Some origin)) of
                (Some u, Some a, Some b, Some c, Some o') \<Rightarrow>
                  if u_scheme u \<in> {''http'', ''https''} \<and> o' \<noteq> [] \<and> o' \<in> {a, b, c} then SameOrigin else OtherOrigin
              | (Some u, Some _, Some _, Some _, None) \<Rightarrow>
                  if u_scheme u \<in> {''http'', ''https''} then Malformed else OtherOrigin
              | _ \<Rightarrow> Malformed)"

definition UNSAFE_METHODS :: "string list" where
  "UNSAFE_METHODS = [''POST'', ''PUT'', ''PATCH'', ''DELETE'']"

definition OTHER_SITE_FETCH :: "string list" where
  "OTHER_SITE_FETCH = [''cross-site'', ''same-site'']"

definition WORKBENCH_PASSTHROUGH :: rx where
  "WORKBENCH_PASSTHROUGH =
     seqs [Bol, lit ''/api/projects/'', plus (not_chars ''/''), lit ''/db-workbench/'',
           alts [lit ''proxy'', lit ''static'', lit ''api'', lit ''proxyapi''], alts [chars ''/'', Eol]]"

datatype answer = Refused nat string | Crashed | Passed "principal option"

definition cross_site_refusal :: "http_request \<Rightarrow> answer option" where
  "cross_site_refusal r =
     (let site = fetch_site r
      in if r_method r \<notin> set UNSAFE_METHODS \<and> (\<not> rx_match WORKBENCH_PASSTHROUGH (r_path r) \<or> site = ''none'') then None
         else if site \<in> set OTHER_SITE_FETCH then Some (Refused 403 ''Same-origin request required'')
         else if site = [] \<and> map_of (r_headers r) ''origin'' = None then None
         else case require_same_origin r of
                SameOrigin \<Rightarrow> None
              | OtherOrigin \<Rightarrow> Some (Refused 403 ''Same-origin request required'')
              | Malformed \<Rightarrow> Some Crashed)"

section \<open>The gate\<close>

definition PUBLIC_API_PREFIXES :: "string list" where
  "PUBLIC_API_PREFIXES = [''/api/health'']"

definition PUBLIC_PATHS :: "string list" where
  "PUBLIC_PATHS = [''/health'', ''/api/auth/me'']"

definition is_public_path :: "string \<Rightarrow> bool" where
  "is_public_path path = (path \<in> set PUBLIC_PATHS \<or> list_ex (startswith path) PUBLIC_API_PREFIXES)"

definition access_gate :: "access_env \<Rightarrow> settings \<Rightarrow> int \<Rightarrow> http_request \<Rightarrow> users \<Rightarrow> answer \<times> users" where
  "access_gate e st now r us =
     (case resolve_principal e st now r us of
        (Inl (HttpError code detail), us') \<Rightarrow> (Refused code detail, us')
      | (Inr p, us') \<Rightarrow>
          (if is_public_path (r_path r) \<or> \<not> startswith (r_path r) ''/api/'' then Passed p
           else case p of
                  None \<Rightarrow> Refused 401 ''Authentication required''
                | Some q \<Rightarrow> if is_owner q \<or> is_agent q then Passed p else Refused 403 ''SummitFlow user is not authorized'',
           us'))"

text \<open>The order of \<open>main.py\<close>: the origin is checked before the identity is resolved.\<close>

definition serve :: "access_env \<Rightarrow> settings \<Rightarrow> int \<Rightarrow> http_request \<Rightarrow> users \<Rightarrow> answer \<times> users" where
  "serve e st now r us =
     (case cross_site_refusal r of Some a \<Rightarrow> (a, us) | None \<Rightarrow> access_gate e st now r us)"

section \<open>Routes that ask for more\<close>

definition require_owner :: "principal option \<Rightarrow> (http_error, principal) result" where
  "require_owner p =
     (case p of
        Some q \<Rightarrow> if is_owner q then return q else raise (HttpError 403 ''Owner access required'')
      | None \<Rightarrow> raise (HttpError 403 ''Owner access required''))"

definition require_authenticated :: "principal option \<Rightarrow> (http_error, principal) result" where
  "require_authenticated p =
     (case p of
        Some q \<Rightarrow> if p_active q then return q else raise (HttpError 401 ''Authentication required'')
      | None \<Rightarrow> raise (HttpError 401 ''Authentication required''))"

definition forwarded_hops :: "http_request \<Rightarrow> string list" where
  "forwarded_hops r =
     filter (\<lambda>v. v \<noteq> [])
       (map strip (concat (map (\<lambda>name. concat (map (\<lambda>(_, v). split_on CHR '','' v) (filter (\<lambda>(n, _). n = name) (r_headers r))))
          [''x-forwarded-for'', ''x-real-ip''])))"

fun first_hop_error :: "string list \<Rightarrow> http_error option" where
  "first_hop_error [] = None"
| "first_hop_error (v # vs) =
     (case ip_address v of
        None \<Rightarrow> Some (HttpError 403 ''Invalid forwarded client address'')
      | Some ip \<Rightarrow> if is_loopback ip then first_hop_error vs else Some (HttpError 403 ''Monitor requires local owner access''))"

definition require_monitor_owner :: "http_request \<Rightarrow> principal option \<Rightarrow> (http_error, principal) result" where
  "require_monitor_owner r p =
     (case require_owner p of
        Inl err \<Rightarrow> raise err
      | Inr q \<Rightarrow>
          if \<not> p_local q then return q
          else (case first_hop_error (forwarded_hops r) of Some err \<Rightarrow> raise err | None \<Rightarrow> return q))"

end
