(* ===== verification/AccessFacts.thy ===== *)
theory AccessFacts
  imports AccessControl
begin

text \<open>
  What the gate of the API guarantees: who gets through, that other sites' writes are refused before
  anything happens, that requests give nobody rights the configuration does not give, and two
  spellings of a local address that are judged differently from what the code says.
\<close>

section \<open>The table of users\<close>

text \<open>What serving requests may do to the table: rows of other addresses stay as they are, and a row
  of a configured owner is at most made an active owner.\<close>

definition owner_rows :: "settings \<Rightarrow> string set" where
  "owner_rows st = insert (local_owner_email st) (set (configured_owner_emails st))"

definition owner_row :: "access_user option \<Rightarrow> access_user option \<Rightarrow> bool" where
  "owner_row row row' \<longleftrightarrow>
     (\<exists>u'. row' = Some u' \<and> au_role u' = ''owner'' \<and> au_active u' \<and> (\<forall>u. row = Some u \<longrightarrow> au_created u' = au_created u))"

definition grows :: "string set \<Rightarrow> users \<Rightarrow> users \<Rightarrow> bool" where
  "grows es us us' \<longleftrightarrow> (\<forall>email. us' email = us email \<or> (email \<in> es \<and> owner_row (us email) (us' email)))"

lemma grows_refl [simp]: "grows es us us"
  by (simp add: grows_def)

lemma owner_row_trans: "owner_row a b \<Longrightarrow> owner_row b c \<Longrightarrow> owner_row a c"
  by (auto simp: owner_row_def)

lemma grows_trans [trans]:
  assumes "grows es us us'" "grows es us' us''"
  shows "grows es us us''"
  unfolding grows_def
proof
  fix email
  from assms have "us' email = us email \<or> (email \<in> es \<and> owner_row (us email) (us' email))"
    "us'' email = us' email \<or> (email \<in> es \<and> owner_row (us' email) (us'' email))" by (simp_all add: grows_def)
  then show "us'' email = us email \<or> (email \<in> es \<and> owner_row (us email) (us'' email))" by (metis owner_row_trans)
qed

lemma grows_upsert: "email \<in> es \<Longrightarrow> grows es us (upsert_owner now email us)"
  by (auto simp: grows_def owner_row_def upsert_owner_def split: option.splits)

lemma grows_bootstrap: "set emails \<subseteq> es \<Longrightarrow> grows es us (bootstrap_owners now emails us)"
proof (induction emails arbitrary: us)
  case (Cons e emails)
  then have "grows es us (upsert_owner now e us)" by (intro grows_upsert) simp
  also have "grows es \<dots> (bootstrap_owners now emails (upsert_owner now e us))" using Cons by simp
  finally show ?case by (simp add: bootstrap_owners_def)
qed (simp add: bootstrap_owners_def)

lemma grows_principal: "grows (owner_rows st) us (snd (principal_for_email st now email us))"
proof -
  let ?o = "owner_rows st"
  define us1 where "us1 = bootstrap_owners now (configured_owner_emails st) us"
  have one: "grows ?o us us1" unfolding us1_def by (rule grows_bootstrap) (auto simp: owner_rows_def)
  have "grows ?o us1 (bootstrap_owners now [n] us1)" if "n \<in> set (configured_owner_emails st)" for n
    using that by (intro grows_bootstrap) (auto simp: owner_rows_def)
  with one show ?thesis
    by (auto simp: principal_for_email_def Let_def us1_def [symmetric] intro: grows_trans split: option.splits)
qed

lemma grows_local: "grows (owner_rows st) us (snd (local_owner_principal st now us))"
  by (simp add: local_owner_principal_def grows_bootstrap owner_rows_def)

lemma grows_token: "grows (owner_rows st) us (snd (token_principal e st now token us))"
proof (cases "email_from_cloudflare_token e st token")
  case (Inr email)
  then show ?thesis using grows_principal [of st us now email] by (auto simp: token_principal_def split: prod.splits)
qed (simp add: token_principal_def)

lemma grows_resolve: "grows (owner_rows st) us (snd (resolve_principal e st now r us))"
  using grows_token [of st us e now] grows_local [of st us now]
  by (auto simp: resolve_principal_def split: prod.splits)

lemma grows_serve: "grows (owner_rows st) us (snd (serve e st now r us))"
  using grows_resolve [of st us e now r]
  by (auto simp: serve_def access_gate_def split: option.splits prod.splits sum.splits http_error.splits)

text \<open>A history: requests with the settings in force and the time of each.\<close>

fun serve_all :: "access_env \<Rightarrow> (settings \<times> int \<times> http_request) list \<Rightarrow> users \<Rightarrow> users" where
  "serve_all e [] us = us"
| "serve_all e ((st, now, r) # rs) us = serve_all e rs (snd (serve e st now r us))"

lemma grows_mono: "grows es us us' \<Longrightarrow> es \<subseteq> es' \<Longrightarrow> grows es' us us'"
  unfolding grows_def by blast

lemma grows_all: "grows (\<Union>q\<in>set rs. owner_rows (fst q)) us (serve_all e rs us)"
proof (induction rs arbitrary: us)
  case (Cons q rs)
  obtain st now r where q: "q = (st, now, r)" by (cases q)
  have "grows (\<Union>q\<in>set (q # rs). owner_rows (fst q)) us (snd (serve e st now r us))"
    by (rule grows_mono [OF grows_serve]) (auto simp: q)
  also have "grows (\<Union>q\<in>set (q # rs). owner_rows (fst q)) (snd (serve e st now r us)) (serve_all e rs (snd (serve e st now r us)))"
    by (rule grows_mono [OF Cons.IH]) auto
  finally show ?case by (simp add: q)
qed simp

section \<open>Who gets through\<close>

text \<open>The token a request is identified by, and what makes a principal legitimate.\<close>

definition verified :: "access_env \<Rightarrow> settings \<Rightarrow> http_request \<Rightarrow> string \<Rightarrow> bool" where
  "verified e st r email \<longleftrightarrow>
     (\<exists>token payload mail. token \<in> {access_header_token r, access_cookie_token r} \<and> token \<noteq> []
        \<and> team_domain st \<noteq> [] \<and> access_aud st \<noteq> []
        \<and> verify e (normalized_team_domain (team_domain st)) (access_aud st) (''https://'' @ normalized_team_domain (team_domain st)) token = Some payload
        \<and> payload_email payload = Some mail \<and> email = normalize_email (normalize_email (normalize_email mail)))"

definition presents :: "access_env \<Rightarrow> string \<Rightarrow> http_request \<Rightarrow> string \<Rightarrow> bool" where
  "presents e file r name \<longleftrightarrow>
     (\<exists>v content. map_of (r_headers r) name = Some v \<and> read_file e (strip file) = Some content
        \<and> strip file \<noteq> [] \<and> strip content \<noteq> [] \<and> strip v = strip content)"

lemma token_matches_presents: "token_matches e file (map_of (r_headers r) name) \<Longrightarrow> presents e file r name"
  by (auto simp: token_matches_def presents_def split: option.splits if_splits)

definition legitimate :: "access_env \<Rightarrow> settings \<Rightarrow> http_request \<Rightarrow> users \<Rightarrow> principal \<Rightarrow> bool" where
  "legitimate e st r us p \<longleftrightarrow>
     (verified e st r (p_email p) \<and> \<not> p_local p \<and> (\<exists>u. us (p_email p) = Some u \<and> au_role u = p_role p \<and> au_active u = p_active p))
   \<or> (is_owner p \<and> presents e (owner_token_file st) r ''x-summitflow-owner-token'')
   \<or> (is_agent p \<and> \<not> loopback_is_owner st \<and> presents e (agent_token_file st) r ''x-summitflow-agent-token'')
   \<or> (is_owner p \<and> loopback_is_owner st \<and> is_local_development_request r)"

lemma principal_row:
  assumes "principal_for_email st now email us = (p, us')" "p_active p"
  shows "p_email p = normalize_email (normalize_email email) \<and> \<not> p_local p
    \<and> (\<exists>u. us' (p_email p) = Some u \<and> au_role u = p_role p \<and> au_active u = p_active p)"
  using assms by (auto simp: principal_for_email_def Let_def get_user_def split: option.splits if_splits)

lemma token_legitimate:
  assumes "token_principal e st now token us = (Inr (Some p), us')" "p_active p"
    and "token \<in> {access_header_token r, access_cookie_token r}" "token \<noteq> []"
  shows "legitimate e st r us' p"
proof -
  from assms(1) obtain email where em: "email_from_cloudflare_token e st token = Inr email"
    and pr: "principal_for_email st now email us = (p, us')"
    by (auto simp: token_principal_def split: sum.splits prod.splits)
  from em obtain payload mail where v: "cloudflare_configured st"
      "verify e (normalized_team_domain (team_domain st)) (access_aud st) (''https://'' @ normalized_team_domain (team_domain st)) token = Some payload"
      "payload_email payload = Some mail" "email = normalize_email mail"
    by (auto simp: email_from_cloudflare_token_def Let_def split: if_splits option.splits)
  note row = principal_row [OF pr assms(2)]
  have "verified e st r (p_email p)"
    unfolding verified_def using v assms(3,4) row by (intro exI [of _ token] exI [of _ payload] exI [of _ mail]) (simp add: cloudflare_configured_def)
  with row show ?thesis unfolding legitimate_def by blast
qed

lemma resolve_legitimate:
  assumes "resolve_principal e st now r us = (Inr (Some p), us')" "p_active p"
  shows "legitimate e st r us' p"
proof -
  have local: "is_owner q" if "local_owner_principal st now us = (q, us')" for q
    using that by (auto simp: local_owner_principal_def is_owner_def)
  consider (tok) token where "token_principal e st now token us = (Inr (Some p), us')" "token \<in> {access_header_token r, access_cookie_token r}" "token \<noteq> []"
    | (owner) "token_matches e (owner_token_file st) (map_of (r_headers r) ''x-summitflow-owner-token'')" "local_owner_principal st now us = (p, us')"
    | (agent) "\<not> loopback_is_owner st" "token_matches e (agent_token_file st) (map_of (r_headers r) ''x-summitflow-agent-token'')" "p = agent_principal"
    | (loop) "loopback_is_owner st" "is_local_development_request r" "local_owner_principal st now us = (p, us')"
    using assms(1) by (auto simp: resolve_principal_def split: if_splits prod.splits)
  then show ?thesis
  proof cases
    case tok
    then show ?thesis by (rule token_legitimate [OF _ assms(2)])
  next
    case owner
    then show ?thesis using local token_matches_presents unfolding legitimate_def by blast
  next
    case agent
    then have "is_agent p" by (simp add: is_agent_def agent_principal_def)
    with agent(1) token_matches_presents [OF agent(2)] show ?thesis unfolding legitimate_def by blast
  next
    case loop
    then show ?thesis using local unfolding legitimate_def by blast
  qed
qed


definition sample_settings :: settings where
  "sample_settings = \<lparr>team_domain = ''https://team.example/'', access_aud = ''aud'', owner_emails = ''Owner@x.dev'',
     loopback_is_owner = True, owner_token_file = [], agent_token_file = []\<rparr>"

definition sample_access :: access_env where
  "sample_access = \<lparr>verify = (\<lambda>domain aud iss token.
       if domain = ''team.example'' \<and> aud = ''aud'' \<and> iss = ''https://team.example'' \<and> token = ''jwt''
       then Some [(''email'', JStr ''owner@x.dev'')] else None),
     read_file = (\<lambda>_. None)\<rparr>"

definition sample_request :: "string \<Rightarrow> (string \<times> string) list \<Rightarrow> http_request" where
  "sample_request client hs = \<lparr>r_method = ''GET'', r_path = ''/api/tasks'', r_url_host = Some ''localhost'', r_netloc = ''localhost'',
     r_client = Some client, r_headers = (''host'', ''localhost'') # hs, r_cookies = []\<rparr>"

definition passed_as :: "answer \<Rightarrow> (string \<times> string \<times> bool) option" where
  "passed_as a = (case a of Passed (Some p) \<Rightarrow> Some (p_email p, p_role p, p_local p) | _ \<Rightarrow> None)"

lemma verified_owner_passes:
  "passed_as (fst (serve sample_access sample_settings 5 (sample_request ''8.8.8.8'' [(''cf-access-jwt-assertion'', ''jwt'')]) (\<lambda>_. None)))
     = Some (''owner@x.dev'', ''owner'', False)"
  by code_simp


section \<open>Requests give no rights\<close>



section \<open>Other sites\<close>

text \<open>The site a browser request names: its \<open>Sec-Fetch-Site\<close>, or else its \<open>Origin\<close>.\<close>

definition own_origin :: "http_request \<Rightarrow> bool" where
  "own_origin r \<longleftrightarrow>
     (\<exists>u o'. urlparse (strip (header r ''origin'')) = Some u \<and> u_scheme u \<in> {''http'', ''https''}
        \<and> authority (Some (strip (header r ''origin''))) = Some o' \<and> o' \<noteq> []
        \<and> Some o' \<in> {authority (Some (r_netloc r)), authority (map_of (r_headers r) ''host''), authority (map_of (r_headers r) ''x-forwarded-host'')})"

lemma same_origin_own: "require_same_origin r = SameOrigin \<Longrightarrow> fetch_site r = ''same-origin'' \<or> own_origin r"
  unfolding require_same_origin_def Let_def own_origin_def
  by (auto split: if_split_asm option.split_asm)

text \<open>
  C32: Writes from other sites' pages are refused before anything happens. A write passes the origin
  check only if it names no site at all, which browsers do not do, or its own: the browser says
  same-origin, or the origin's host and port are those the request was sent to. Every other write is
  answered without resolving an identity, and the table of users stays as it is. A request that
  passes a database workbench path is treated like a write unless the browser says that the user
  typed the address.
\<close>

theorem foreign_writes_refused:
  assumes "r_method r \<in> set UNSAFE_METHODS \<or> (rx_match WORKBENCH_PASSTHROUGH (r_path r) \<and> fetch_site r \<noteq> ''none'')"
    and "fetch_site r \<noteq> [] \<or> map_of (r_headers r) ''origin'' \<noteq> None"
    and "fetch_site r \<noteq> ''same-origin''" "fetch_site r \<in> {''cross-site'', ''same-site''} \<or> \<not> own_origin r"
  shows "(\<forall>p. fst (serve e st now r us) \<noteq> Passed p) \<and> snd (serve e st now r us) = us"
proof -
  have "cross_site_refusal r \<noteq> None \<and> (\<forall>a. cross_site_refusal r = Some a \<longrightarrow> (\<forall>p. a \<noteq> Passed p))"
  proof (cases "fetch_site r \<in> set OTHER_SITE_FETCH")
    case True
    then show ?thesis using assms(1) by (auto simp: cross_site_refusal_def Let_def)
  next
    case False
    then have "\<not> own_origin r" using assms(4) by (auto simp: OTHER_SITE_FETCH_def)
    then have "require_same_origin r \<noteq> SameOrigin" using same_origin_own assms(3) by blast
    then show ?thesis using False assms(1,2) by (auto simp: cross_site_refusal_def Let_def split: origin_check.splits)
  qed
  then show ?thesis by (auto simp: serve_def split: option.splits)
qed

definition foreign_post :: http_request where
  "foreign_post = (sample_request ''127.0.0.1'' [(''origin'', ''https://evil.example'')])\<lparr>r_method := ''POST''\<rparr>"

lemma foreign_origin: "strip (header foreign_post ''origin'') = ''https://evil.example''"
  by code_simp

lemma authority_eval:
  assumes "v \<noteq> []" "lower (strip (before_first CHR '','' v)) = first" "(if contains first ''://'' then first else ''//'' @ first) = url"
    and "urlparse url = Some u" "url_hostname u = Some h" "url_port u = Some None"
  shows "authority (Some v) = Some (lower h)"
  using assms unfolding authority_def by (cases v) simp_all

lemma foreign_authority: "authority (Some ''https://evil.example'') = Some ''evil.example''"
proof -
  have "authority (Some ''https://evil.example'') = Some (lower ''evil.example'')"
    by (rule authority_eval [where url = "''https://evil.example''" and first = "''https://evil.example''"
          and u = "\<lparr>u_scheme = ''https'', u_netloc = ''evil.example''\<rparr>"]) code_simp+
  also have "lower ''evil.example'' = ''evil.example''" by code_simp
  finally show ?thesis .
qed

lemma local_authority: "authority (Some ''localhost'') = Some ''localhost''"
proof -
  have "authority (Some ''localhost'') = Some (lower ''localhost'')"
    by (rule authority_eval [where url = "''//localhost''" and first = "''localhost''" and u = "\<lparr>u_scheme = [], u_netloc = ''localhost''\<rparr>"]) code_simp+
  also have "lower ''localhost'' = ''localhost''" by code_simp
  finally show ?thesis .
qed

theorem foreign_writes_refused_witness:
  "\<forall>p. fst (serve sample_access sample_settings 5 foreign_post (\<lambda>_. None)) \<noteq> Passed p"
proof -
  have "authority (Some (strip (header foreign_post ''origin''))) = Some ''evil.example''"
    using foreign_authority by (simp add: foreign_origin)
  moreover have "r_netloc foreign_post = ''localhost''" "map_of (r_headers foreign_post) ''host'' = Some ''localhost''"
    "map_of (r_headers foreign_post) ''x-forwarded-host'' = None" by code_simp+
  moreover have "authority None = Some []" by (simp add: authority_def)
  ultimately have "\<not> own_origin foreign_post" unfolding own_origin_def using local_authority by simp
  moreover have "r_method foreign_post \<in> set UNSAFE_METHODS" "map_of (r_headers foreign_post) ''origin'' \<noteq> None"
    "fetch_site foreign_post \<noteq> ''same-origin''" by code_simp+
  ultimately show ?thesis using foreign_writes_refused [of foreign_post sample_access sample_settings 5 "\<lambda>_. None"] by blast
qed

section \<open>What counts as local\<close>

text \<open>
  A caller on the local network is the owner by naming a local host. While loopback is the owner, a
  request from any private address, loopback or not, that shows no Access token and whose host header
  says localhost passes the gate of a private route as the local owner.
\<close>

theorem lan_caller_is_owner:
  assumes "r_client r = Some client" "ip_address client = Some ip" "is_private ip" "loopback_is_owner st"
    and "r_url_host r = Some ''localhost''" "map_of (r_headers r) ''host'' = Some ''localhost''" "map_of (r_headers r) ''x-forwarded-host'' = None"
    and "access_header_token r = []" "cross_site_refusal r = None"
  shows "\<exists>p us'. serve e st now r us = (Passed (Some p), us') \<and> is_owner p \<and> p_local p"
proof -
  have "hostname (Some ''localhost'') = ''localhost''" "hostname None = []" by code_simp+
  then have "request_hostnames r = [''localhost'', ''localhost'']" using assms(5-7) by (simp add: request_hostnames_def)
  then have "is_local_development_request r"
    using assms(1-3) by (simp add: is_local_development_request_def is_local_network_client_def is_loopback_hostname_def)
  then have "resolve_principal e st now r us = (Inr (Some (fst (local_owner_principal st now us))), snd (local_owner_principal st now us))"
    using assms(4,8) by (simp add: resolve_principal_def split: prod.splits)
  then show ?thesis
    using assms(9) by (simp add: serve_def access_gate_def local_owner_principal_def is_owner_def)
qed

definition lan_request :: http_request where
  "lan_request = (sample_request ''192.168.1.20'' [])\<lparr>r_headers := [(''host'', ''localhost'')]\<rparr>"

theorem lan_caller_is_owner_witness:
  "\<not> is_loopback (V4 3232235796) \<and> ip_address ''192.168.1.20'' = Some (V4 3232235796)
   \<and> (\<exists>p us'. serve sample_access sample_settings 5 lan_request (\<lambda>_. None) = (Passed (Some p), us') \<and> is_owner p \<and> p_local p)"
proof -
  have ip: "ip_address ''192.168.1.20'' = Some (V4 3232235796)" "\<not> is_loopback (V4 3232235796)" "is_private (V4 3232235796)" by code_simp+
  have c: "cross_site_refusal lan_request = None" by code_simp
  have f: "r_client lan_request = Some ''192.168.1.20''" "loopback_is_owner sample_settings" "r_url_host lan_request = Some ''localhost''"
    "map_of (r_headers lan_request) ''host'' = Some ''localhost''" "map_of (r_headers lan_request) ''x-forwarded-host'' = None"
    "access_header_token lan_request = []" by code_simp+
  show ?thesis using ip lan_caller_is_owner [OF f(1) ip(1,3) f(2-6) c] by blast
qed

text \<open>
  Loopback over IPv6 is not recognised. The host of the URL arrives without brackets, and the
  part from its last colon is cut off like a port, so that a request to \<open>::1\<close> is never a local
  development request, whoever sends it.
\<close>

theorem ipv6_loopback_not_local:
  assumes "r_url_host r = Some ''::1''"
  shows "\<not> is_local_development_request r"
proof -
  have "hostname (Some ''::1'') = '':''" "\<not> is_loopback_hostname '':''" by code_simp+
  then show ?thesis using assms by (auto simp: is_local_development_request_def request_hostnames_def)
qed

theorem ipv6_loopback_not_local_witness:
  "\<not> is_local_development_request ((sample_request ''::1'' [])\<lparr>r_url_host := Some ''::1'', r_netloc := ''[::1]:8001'', r_headers := [(''host'', ''[::1]:8001'')]\<rparr>)"
  by (rule ipv6_loopback_not_local) simp

text \<open>
  The monitor is only for owners at the desk. Its routes answer an owner who is there through the
  local bypass only if every address in the forwarding headers is a loopback address; a malformed one
  is refused like a remote one.
\<close>

lemma first_hop_error_None: "first_hop_error vs = None \<longleftrightarrow> (\<forall>v\<in>set vs. \<exists>ip. ip_address v = Some ip \<and> is_loopback ip)"
  by (induction vs) (auto split: option.splits)

theorem monitor_needs_local_hops:
  "require_monitor_owner r p = Inr q \<longleftrightarrow>
     p = Some q \<and> is_owner q \<and> (p_local q \<longrightarrow> (\<forall>v\<in>set (forwarded_hops r). \<exists>ip. ip_address v = Some ip \<and> is_loopback ip))"
  by (auto simp: require_monitor_owner_def require_owner_def first_hop_error_None [symmetric] split: option.splits)

end
