(* ===== verification/FileSystem.thy ===== *)
theory FileSystem
  imports Json "HOL-Library.Sublist"
begin

text \<open>
  File systems with symbolic links, for the components that are confined to a directory: paths as
  component lists, \<open>os.path.realpath\<close> (Python 3.13, not strict), the kernel's walk behind \<open>stat\<close>, and
  the changes a program makes. A file system is the finite list of what is below the root
  directory; permissions are not modelled, and a file's content is its text.
\<close>

type_synonym path = "string list"

datatype node = File string | Dir | Link string

type_synonym fs = "(path \<times> node) list"

section \<open>Looking up\<close>

text \<open>What is at a path, without following links: everything above it must be a directory.\<close>

definition real_dirs :: "fs \<Rightarrow> path \<Rightarrow> bool" where
  "real_dirs fs p = list_all (\<lambda>n. map_of fs (take n p) = Some Dir) [1..<length p]"

definition lookup :: "fs \<Rightarrow> path \<Rightarrow> node option" where
  "lookup fs p = (if p = [] then Some Dir else if real_dirs fs p then map_of fs p else None)"

definition path_text :: "path \<Rightarrow> string" where
  "path_text p = ''/'' @ join_with ''/'' p"

definition text_parts :: "string \<Rightarrow> path" where
  "text_parts s = filter (\<lambda>c. c \<noteq> []) (split_on CHR ''/'' s)"

section \<open>realpath\<close>

text \<open>The stack holds parts still to be resolved, and marks where the target of a link ends.\<close>

datatype item = Part string | Resolved path

definition link_parts :: "string \<Rightarrow> item list" where
  "link_parts t = map Part (split_on CHR ''/'' t)"

definition unseen :: "fs \<Rightarrow> (path \<times> path option) list \<Rightarrow> path set" where
  "unseen fs seen = fst ` set fs - fst ` set seen"

lemma finite_unseen [simp]: "finite (unseen fs seen)"
  by (simp add: unseen_def)

lemma lookup_in_fs: "lookup fs p = Some n \<Longrightarrow> p \<noteq> [] \<Longrightarrow> p \<in> fst ` set fs"
  by (auto simp: lookup_def split: if_splits dest!: map_of_SomeD) (metis fst_conv imageI)

lemma unseen_Cons: "card (unseen fs ((l, x) # seen)) \<le> card (unseen fs seen)"
  by (rule card_mono) (auto simp: unseen_def)

lemma unseen_new:
  assumes "lookup fs p = Some n" "p \<noteq> []" "map_of seen p = None"
  shows "card (unseen fs ((p, x) # seen)) < card (unseen fs seen)"
proof (rule psubset_card_mono)
  have "p \<in> unseen fs seen" using lookup_in_fs [OF assms(1,2)] assms(3) by (auto simp: unseen_def map_of_eq_None_iff)
  then show "unseen fs ((p, x) # seen) \<subset> unseen fs seen" by (auto simp: unseen_def)
qed simp

function resolve :: "fs \<Rightarrow> (path \<times> path option) list \<Rightarrow> item list \<Rightarrow> path \<Rightarrow> path" where
  "resolve fs seen [] path = path"
| "resolve fs seen (Resolved l # rest) path = resolve fs ((l, Some path) # seen) rest path"
| "resolve fs seen (Part name # rest) path =
     (if name = [] \<or> name = ''.'' then resolve fs seen rest path
      else if name = ''..'' then resolve fs seen rest (butlast path)
      else (case lookup fs (path @ [name]) of
              Some (Link target) \<Rightarrow>
                (case map_of seen (path @ [name]) of
                   Some (Some p) \<Rightarrow> resolve fs seen rest p
                 | Some None \<Rightarrow> resolve fs seen rest (path @ [name])
                 | None \<Rightarrow>
                     resolve fs ((path @ [name], None) # seen) (link_parts target @ Resolved (path @ [name]) # rest)
                       (if startswith target ''/'' then [] else path))
            | _ \<Rightarrow> resolve fs seen rest (path @ [name])))"
  by pat_completeness auto

termination
proof (relation "measures [\<lambda>(fs, seen, stack, path). card (unseen fs seen), \<lambda>(fs, seen, stack, path). length stack]")
  fix fs seen l rest and path :: path
  show "((fs, (l, Some path) # seen, rest, path), (fs, seen, Resolved l # rest, path))
      \<in> measures [\<lambda>(fs, seen, stack, path). card (unseen fs seen), \<lambda>(fs, seen, stack, path). length stack]"
    using unseen_Cons [of fs l "Some path" seen] by auto
qed (auto simp: unseen_new)

declare resolve.simps(3) [simp del]

definition realpath :: "fs \<Rightarrow> path \<Rightarrow> string \<Rightarrow> path" where
  "realpath fs cwd name = resolve fs [] (link_parts name) (if startswith name ''/'' then [] else cwd)"

section \<open>The kernel's walk\<close>

text \<open>\<open>stat\<close> follows at most 40 links, needs a directory before every further part, and fails on what is missing.\<close>

function follow :: "fs \<Rightarrow> nat \<Rightarrow> string list \<Rightarrow> path \<Rightarrow> path option" where
  "follow fs links [] path = Some path"
| "follow fs links (name # rest) path =
     (if name = [] \<or> name = ''.'' then (if lookup fs path = Some Dir then follow fs links rest path else None)
      else if name = ''..'' then (if lookup fs path = Some Dir then follow fs links rest (butlast path) else None)
      else (case lookup fs (path @ [name]) of
              Some (Link target) \<Rightarrow>
                (if links = 0 then None
                 else follow fs (links - 1) (split_on CHR ''/'' target @ rest) (if startswith target ''/'' then [] else path))
            | Some _ \<Rightarrow> follow fs links rest (path @ [name])
            | None \<Rightarrow> None))"
  by pat_completeness auto

termination
  by (relation "measures [\<lambda>(fs, links, parts, path). links, \<lambda>(fs, links, parts, path). length parts]") auto

declare follow.simps(2) [simp del]

definition stat :: "fs \<Rightarrow> path \<Rightarrow> node option" where
  "stat fs p = (case follow fs 40 p [] of Some q \<Rightarrow> lookup fs q | None \<Rightarrow> None)"

definition exists_at :: "fs \<Rightarrow> path \<Rightarrow> bool" where
  "exists_at fs p = (stat fs p \<noteq> None)"

definition is_dir :: "fs \<Rightarrow> path \<Rightarrow> bool" where
  "is_dir fs p = (stat fs p = Some Dir)"

definition is_file :: "fs \<Rightarrow> path \<Rightarrow> bool" where
  "is_file fs p = (case stat fs p of Some (File _) \<Rightarrow> True | _ \<Rightarrow> False)"

definition children :: "fs \<Rightarrow> path \<Rightarrow> path list" where
  "children fs p = filter (\<lambda>q. q \<noteq> [] \<and> butlast q = p) (map fst fs)"

section \<open>Changes\<close>

definition fs_put :: "path \<Rightarrow> node \<Rightarrow> fs \<Rightarrow> fs" where
  "fs_put p n fs = dict_set p n fs"

definition fs_remove :: "path \<Rightarrow> fs \<Rightarrow> fs" where
  "fs_remove p fs = filter (\<lambda>(q, _). \<not> prefix p q) fs"

definition fs_move :: "path \<Rightarrow> path \<Rightarrow> fs \<Rightarrow> fs" where
  "fs_move p p' fs = map (\<lambda>(q, n). (if prefix p q then p' @ drop (length p) q else q, n)) (fs_remove p' fs)"

section \<open>Clean paths\<close>

definition clean_name :: "string \<Rightarrow> bool" where
  "clean_name c \<longleftrightarrow> c \<noteq> [] \<and> c \<noteq> ''.'' \<and> c \<noteq> ''..'' \<and> CHR ''/'' \<notin> set c"

abbreviation clean :: "path \<Rightarrow> bool" where
  "clean p \<equiv> list_all clean_name p"

fun clean_item :: "item \<Rightarrow> bool" where
  "clean_item (Part c) = (CHR ''/'' \<notin> set c)"
| "clean_item (Resolved p) = True"

lemma clean_link_parts [simp]: "list_all clean_item (link_parts t)"
  by (auto simp: link_parts_def list_all_iff dest: split_on_no_sep)

lemma clean_butlast: "clean p \<Longrightarrow> clean (butlast p)"
  by (auto simp: list_all_iff dest: in_set_butlastD)

lemma resolve_clean:
  assumes "list_all clean_item stack" "clean path" "\<forall>l p. (l, Some p) \<in> set seen \<longrightarrow> clean p"
  shows "clean (resolve fs seen stack path)"
  using assms
proof (induction fs seen stack path rule: resolve.induct)
  case (2 fs seen l rest path)
  then show ?case by auto
next
  case (3 fs seen name rest path)
  have ok: "clean p" if "map_of seen q = Some (Some p)" for p q using "3.prems"(3) map_of_SomeD [OF that] by blast
  have rest: "list_all clean_item rest" using "3.prems"(1) by simp
  consider "name = [] \<or> name = ''.''" | "name = ''..''" | "clean_name name" using "3.prems"(1) by (auto simp: clean_name_def)
  then show ?case
  proof cases
    case 1
    then show ?thesis using "3.IH"(1) [OF 1 rest "3.prems"(2,3)] by (simp add: resolve.simps(3))
  next
    case 2
    then show ?thesis using "3.IH"(2) [OF _ 2 rest clean_butlast [OF "3.prems"(2)] "3.prems"(3)] by (simp add: resolve.simps(3))
  next
    case c: 3
    then have n: "\<not> (name = [] \<or> name = ''.'')" "name \<noteq> ''..''" and new: "clean (path @ [name])"
      using "3.prems"(2) by (auto simp: clean_name_def [of name])
    show ?thesis
    proof (cases "lookup fs (path @ [name])")
      case None
      then show ?thesis using "3.IH"(3) [OF n None rest new "3.prems"(3)] n by (simp add: resolve.simps(3))
    next
      case (Some node)
      show ?thesis
      proof (cases node)
        case (File t)
        then show ?thesis using 3 n Some rest new by (simp add: resolve.simps(3))
      next
        case Dir
        then show ?thesis using 3 n Some rest new by (simp add: resolve.simps(3))
      next
        case (Link t)
        then show ?thesis using 3 n Some rest new ok by (auto simp: resolve.simps(3) split: option.splits)
      qed
    qed
  qed
qed simp


lemma realpath_clean: "clean cwd \<Longrightarrow> clean (realpath fs cwd name)"
  unfolding realpath_def by (rule resolve_clean) auto

section \<open>Paths as text\<close>

lemma join_split: "p \<noteq> [] \<Longrightarrow> clean p \<Longrightarrow> split_on CHR ''/'' (join_with ''/'' p) = p"
  by (rule split_on_join) (auto simp: list_all_iff clean_name_def)

lemma text_parts_text [simp]: "clean p \<Longrightarrow> text_parts (path_text p) = p"
proof (cases "p = []")
  case False
  assume "clean p"
  then have "filter (\<lambda>c. c \<noteq> []) p = p" by (auto simp: filter_id_conv list_all_iff clean_name_def)
  with False \<open>clean p\<close> show ?thesis by (simp add: text_parts_def path_text_def join_split)
qed (simp add: text_parts_def path_text_def)

lemma path_text_inj: "clean p \<Longrightarrow> clean q \<Longrightarrow> path_text p = path_text q \<longleftrightarrow> p = q"
  by (metis text_parts_text)

lemma norm_comps_clean: "clean cs \<Longrightarrow> norm_comps ab acc cs = rev acc @ cs"
  by (induction cs arbitrary: acc) (auto simp: clean_name_def)

lemma path_text_slash: "clean p \<Longrightarrow> p \<noteq> [] \<Longrightarrow> hd (join_with ''/'' p) \<noteq> CHR ''/'' \<and> join_with ''/'' p \<noteq> []"
  by (cases p; cases "tl p") (auto simp: clean_name_def join_with_Cons hd_append dest: hd_in_set)

lemma normpath_text [simp]: "clean p \<Longrightarrow> normpath (path_text p) = path_text p"
proof (cases "p = []")
  case True
  then show ?thesis by (simp add: path_text_def normpath_def initial_slashes_def)
next
  case False
  assume c: "clean p"
  have "initial_slashes (path_text p) = 1"
    using path_text_slash [OF c False] by (cases "join_with ''/'' p") (auto simp: initial_slashes_def path_text_def)
  moreover have "split_on CHR ''/'' (path_text p) = [] # p" using c False by (simp add: path_text_def join_split)
  ultimately show ?thesis using c by (simp add: normpath_def Let_def norm_comps_clean path_text_def)
qed

text \<open>Containment as text is containment of paths.\<close>

definition root_prefix :: "string \<Rightarrow> string" where
  "root_prefix root = (if endswith root ''/'' then root else root @ ''/'')"

lemma path_text_append: "p \<noteq> [] \<Longrightarrow> q \<noteq> [] \<Longrightarrow> path_text (p @ q) = path_text p @ ''/'' @ join_with ''/'' q"
  by (simp add: path_text_def join_with_append)

lemma root_prefix_text: "clean r \<Longrightarrow> root_prefix (path_text r) = (if r = [] then ''/'' else path_text r @ ''/'')"
proof (cases "r = []")
  case False
  assume c: "clean r"
  have "\<exists>w. join_with ''/'' r = w @ last r" using False by (induction r) (auto simp: join_with_Cons)
  then obtain w where w: "join_with ''/'' r = w @ last r" by blast
  have "last r \<noteq> []" "CHR ''/'' \<notin> set (last r)" using c False by (auto simp: list_all_iff clean_name_def dest: last_in_set)
  then have "last (path_text r) \<noteq> CHR ''/''" using w by (auto simp: path_text_def dest: last_in_set)
  then have "\<not> endswith (path_text r) ''/''" by (auto simp: endswith_iff)
  then show ?thesis using False by (simp add: root_prefix_def)
qed (simp add: root_prefix_def path_text_def endswith_def)

lemma startswith_text:
  assumes "clean r" "clean t"
  shows "startswith (path_text t) (root_prefix (path_text r)) \<longleftrightarrow> r = [] \<or> strict_prefix r t"
proof (cases "r = []")
  case True
  then show ?thesis by (simp add: root_prefix_def path_text_def endswith_def)
next
  case False
  have "strict_prefix r t" if s: "path_text t = path_text r @ ''/'' @ u" for u
  proof -
    have t: "t \<noteq> []" using s False assms(1) path_text_slash [of r] by (auto simp: path_text_def)
    have "join_with ''/'' t = join_with ''/'' r @ CHR ''/'' # u" using s by (simp add: path_text_def)
    then have "split_on CHR ''/'' (join_with ''/'' r @ CHR ''/'' # u) = t" using join_split [OF t assms(2)] by simp
    moreover have "split_on CHR ''/'' (a @ CHR ''/'' # u) = split_on CHR ''/'' a @ split_on CHR ''/'' u" for a
      by (induction a) (auto split: list.splits)
    ultimately have "t = r @ split_on CHR ''/'' u" using join_split [OF False assms(1)] by simp
    then show ?thesis by (auto simp: strict_prefix_def)
  qed
  moreover have "\<exists>u. path_text t = path_text r @ ''/'' @ u" if sp: "strict_prefix r t"
  proof -
    obtain v where "t = r @ v" "v \<noteq> []" using sp by (auto simp: strict_prefix_def prefix_def)
    then show ?thesis using path_text_append [OF False] by blast
  qed
  ultimately show ?thesis using False by (simp add: root_prefix_text [OF assms(1)] startswith_iff) blast
qed

section \<open>What changes and what is looked up\<close>

lemma map_of_fs_put [simp]: "map_of (fs_put p n fs) = (map_of fs)(p \<mapsto> n)"
  by (simp add: fs_put_def)

lemma map_of_fs_remove: "map_of (fs_remove p fs) q = (if prefix p q then None else map_of fs q)"
  by (induction fs) (auto simp: fs_remove_def)

lemma lookup_same:
  assumes "\<forall>q. prefix q p \<and> q \<noteq> [] \<longrightarrow> map_of fs' q = map_of fs q"
  shows "lookup fs' p = lookup fs p"
proof -
  have "map_of fs' (take n p) = map_of fs (take n p)" if "n \<in> set [1..<length p]" for n
    using assms [rule_format, of "take n p"] that by (cases "p = []") (auto simp: take_is_prefix)
  then have "real_dirs fs' p = real_dirs fs p" unfolding real_dirs_def by (intro list.pred_cong) auto
  then show ?thesis using assms by (simp add: lookup_def)
qed

lemma lookup_prefix:
  assumes "lookup fs (p @ q) = Some n" "q \<noteq> []"
  shows "lookup fs p = Some Dir"
proof (cases "p = []")
  case False
  have d: "map_of fs (take k (p @ q)) = Some Dir" if "1 \<le> k" "k < length (p @ q)" for k
    using assms that by (auto simp: lookup_def real_dirs_def list_all_iff split: if_splits)
  have t: "map_of fs (take k p) = Some Dir" if "1 \<le> k" "k \<le> length p" for k
    using d [of k] that assms(2) by (cases q) auto
  moreover have "1 \<le> length p" using False by (cases p) auto
  ultimately have "real_dirs fs p" "map_of fs p = Some Dir" using t [of "length p"] by (auto simp: real_dirs_def list_all_iff)
  then show ?thesis by (simp add: lookup_def)
qed (simp add: lookup_def)

text \<open>A chain of directories is its own real path.\<close>

lemma resolve_dirs:
  assumes "clean rest" "lookup fs (path @ rest) = Some Dir"
  shows "resolve fs seen (map Part rest) path = path @ rest"
  using assms
proof (induction rest arbitrary: path)
  case (Cons name rest)
  have "lookup fs (path @ [name]) = Some Dir"
  proof (cases "rest = []")
    case False
    then show ?thesis using lookup_prefix [of fs "path @ [name]" rest] Cons.prems(2) by simp
  qed (use Cons.prems in simp)
  then show ?case using Cons by (simp add: resolve.simps(3) clean_name_def)
qed simp

lemma realpath_dirs:
  assumes "clean r" "lookup fs r = Some Dir"
  shows "realpath fs cwd (path_text r) = r"
proof (cases "r = []")
  case True
  then show ?thesis by (simp add: realpath_def path_text_def link_parts_def resolve.simps)
next
  case False
  have "split_on CHR ''/'' (path_text r) = [] # r" using assms(1) False by (simp add: path_text_def join_split)
  then have "realpath fs cwd (path_text r) = resolve fs [] (Part [] # map Part r) []"
    by (simp add: realpath_def link_parts_def path_text_def)
  also have "\<dots> = resolve fs [] (map Part r) []" by (simp add: resolve.simps(3))
  also have "\<dots> = r" using resolve_dirs [of r fs "[]"] assms by simp
  finally show ?thesis .
qed

end
