(* ===== verification/FileBrowser.thy ===== *)
theory FileBrowser
  imports FileSystem PathOwnership "HOL-Library.Product_Lexorder"
begin

text \<open>
  The file browser (\<open>backend/app/services/file_browser.py\<close>) over a file system with links: resolving a
  path inside a root, listing, reading, uploading, creating, writing, deleting and renaming.

  A target that \<open>resolve_safe_path\<close> answers has no link left that could be followed: what remains is a
  loop, on which the system calls fail. Deletion asks the guard of PathOwnership; git's answer to
  \<open>rev-parse --show-toplevel\<close> is a field of the environment. Of an error only its class is kept.
\<close>

datatype browse_error = ValueError | FileNotFoundError | FileExistsError | IsADirectoryError | PermissionError | OtherOSError

record browse_env =
  be_cwd :: path
  be_owner_token_file :: string
  be_agent_token_file :: string
  be_home :: string
  be_workspaces :: string
  be_toplevel :: "fs \<Rightarrow> path \<Rightarrow> path option"
  be_guard :: surroundings

definition MAX_FILE_SIZE :: int where "MAX_FILE_SIZE = 1048576"

definition BINARY_EXTENSIONS :: "string list" where
  "BINARY_EXTENSIONS =
     [''.pyc'', ''.pyo'', ''.so'', ''.dll'', ''.exe'', ''.bin'', ''.png'', ''.jpg'', ''.jpeg'', ''.gif'', ''.ico'', ''.webp'',
      ''.woff'', ''.woff2'', ''.ttf'', ''.eot'', ''.mp3'', ''.mp4'', ''.wav'', ''.ogg'', ''.webm'',
      ''.pdf'', ''.zip'', ''.tar'', ''.gz'', ''.bz2'', ''.xz'', ''.7z'', ''.sqlite'', ''.db'']"

definition EXTENSION_TO_LANGUAGE :: "(string \<times> string) list" where
  "EXTENSION_TO_LANGUAGE =
     [(''.py'', ''python''), (''.ts'', ''typescript''), (''.tsx'', ''typescript''), (''.js'', ''javascript''), (''.jsx'', ''javascript''),
      (''.json'', ''json''), (''.html'', ''html''), (''.htm'', ''html''), (''.css'', ''css''), (''.scss'', ''css''),
      (''.md'', ''markdown''), (''.mdx'', ''markdown''), (''.yaml'', ''yaml''), (''.yml'', ''yaml''), (''.sql'', ''sql''),
      (''.rs'', ''rust''), (''.go'', ''go''), (''.java'', ''java''), (''.cpp'', ''cpp''), (''.c'', ''cpp''), (''.h'', ''cpp''), (''.hpp'', ''cpp''),
      (''.xml'', ''xml''), (''.svg'', ''xml''), (''.php'', ''php''), (''.sh'', ''shell''), (''.bash'', ''shell''), (''.zsh'', ''shell''),
      (''.toml'', ''toml''), (''.dockerfile'', ''dockerfile'')]"

section \<open>Paths inside a root\<close>

abbreviation real :: "browse_env \<Rightarrow> fs \<Rightarrow> string \<Rightarrow> path" where
  "real e fs s \<equiv> realpath fs (be_cwd e) s"

definition credential_store :: "browse_env \<Rightarrow> fs \<Rightarrow> path" where
  "credential_store e fs = real e fs (be_home e @ ''/.config/credstore'')"

definition is_credential_path :: "browse_env \<Rightarrow> fs \<Rightarrow> string \<Rightarrow> bool" where
  "is_credential_path e fs target =
     (list_ex (\<lambda>f. strip f \<noteq> [] \<and> path_text (real e fs (strip f)) = target) [be_owner_token_file e, be_agent_token_file e]
      \<or> target = path_text (credential_store e fs) \<or> startswith target (root_prefix (path_text (credential_store e fs))))"

definition resolve_safe_path :: "browse_env \<Rightarrow> fs \<Rightarrow> string \<Rightarrow> string \<Rightarrow> (browse_error, path) result" where
  "resolve_safe_path e fs root_path relative_path =
     (let root = path_text (real e fs root_path);
          target = normpath (path_text (real e fs (path_join root relative_path)))
      in if target \<noteq> root \<and> \<not> startswith target (root_prefix root) then raise ValueError
         else if \<not> startswith target (root_prefix (dirname root)) then raise ValueError
         else if is_credential_path e fs target then raise ValueError
         else return (text_parts target))"

definition sibling_in_root :: "browse_env \<Rightarrow> fs \<Rightarrow> string \<Rightarrow> path \<Rightarrow> string \<Rightarrow> (browse_error, path) result" where
  "sibling_in_root e fs root_path target name =
     (let root = path_text (real e fs root_path);
          sibling = normpath (path_join (path_text (butlast target)) name)
      in if \<not> startswith sibling (root_prefix root) then raise ValueError else return (text_parts sibling))"

definition display_path :: "path \<Rightarrow> path \<Rightarrow> bool \<Rightarrow> string" where
  "display_path path root absolute_paths =
     (if absolute_paths then path_text path
      else if path = root then [] else join_with ''/'' (drop (length root) path))"

text \<open>\<open>Path.suffix.lower()\<close>\<close>

definition suffix_of_name :: "string \<Rightarrow> string" where
  "suffix_of_name name =
     (let after = rev (takeWhile (\<lambda>c. c \<noteq> CHR ''.'') (rev name))
      in if CHR ''.'' \<in> set name \<and> after \<noteq> [] \<and> length after + 1 < length name then lower (''.'' @ after) else [])"

definition normalize_upload_name :: "string option \<Rightarrow> (browse_error, string) result" where
  "normalize_upload_name filename =
     (let raw = strip (case filename of Some f \<Rightarrow> f | None \<Rightarrow> [])
      in if raw = [] then raise ValueError
         else if path_name raw \<noteq> raw \<or> raw \<in> {''.'', ''..''} then raise ValueError
         else return raw)"

section \<open>Listing and reading\<close>

record entry =
  en_name :: string
  en_path :: string
  en_absolute :: string
  en_directory :: bool
  en_children :: "nat option"
  en_size :: "nat option"
  en_extension :: "string option"

definition base_name :: "path \<Rightarrow> string" where
  "base_name p = (if p = [] then [] else last p)"

definition entry_info :: "fs \<Rightarrow> path \<Rightarrow> path \<Rightarrow> bool \<Rightarrow> entry" where
  "entry_info fs p root absolute_paths =
     (let name = base_name p; ext = suffix_of_name name
      in if is_dir fs p
         then \<lparr>en_name = name, en_path = display_path p root absolute_paths, en_absolute = path_text p, en_directory = True,
               en_children = Some (case follow fs 40 p [] of Some q \<Rightarrow> length (children fs q) | None \<Rightarrow> 0),
               en_size = None, en_extension = None\<rparr>
         else \<lparr>en_name = name, en_path = display_path p root absolute_paths, en_absolute = path_text p, en_directory = False,
               en_children = None, en_size = Some (case stat fs p of Some (File t) \<Rightarrow> length t | _ \<Rightarrow> 0),
               en_extension = (if ext = [] then None else Some ext)\<rparr>)"

record listing =
  li_entries :: "entry list"
  li_path :: string
  li_absolute :: string
  li_total :: nat

definition list_directory :: "browse_env \<Rightarrow> fs \<Rightarrow> string \<Rightarrow> string \<Rightarrow> bool \<Rightarrow> (browse_error, listing) result" where
  "list_directory e fs root_path relative_path absolute_paths =
     (case resolve_safe_path e fs root_path relative_path of
        Inl err \<Rightarrow> raise err
      | Inr target \<Rightarrow>
          if lookup fs target \<noteq> Some Dir then raise FileNotFoundError
          else let root = real e fs root_path;
                   entries = map (\<lambda>p. entry_info fs p root absolute_paths)
                     (sort_key (\<lambda>p. (\<not> is_dir fs p, lower (base_name p))) (children fs target))
               in return \<lparr>li_entries = entries, li_path = display_path target root absolute_paths,
                          li_absolute = path_text target, li_total = length entries\<rparr>)"

definition detect_language :: "string \<Rightarrow> string \<Rightarrow> string option" where
  "detect_language name extension =
     (case map_of EXTENSION_TO_LANGUAGE extension of
        Some l \<Rightarrow> Some l
      | None \<Rightarrow> if lower name \<in> {''dockerfile'', ''containerfile''} then Some ''dockerfile'' else None)"

definition is_binary :: "string \<Rightarrow> string \<Rightarrow> bool" where
  "is_binary content extension = (extension \<in> set BINARY_EXTENSIONS \<or> char_of (0::nat) \<in> set (take 8192 content))"

record file_view =
  fv_path :: string
  fv_name :: string
  fv_size :: nat
  fv_extension :: "string option"
  fv_content :: "string option"
  fv_binary :: bool
  fv_lines :: nat
  fv_language :: "string option"
  fv_truncated :: bool

text \<open>Reading in text mode turns every line ending into a newline.\<close>

fun universal_newlines :: "string \<Rightarrow> string" where
  "universal_newlines [] = []"
| "universal_newlines [c] = [if c = char_of (13::nat) then char_of (10::nat) else c]"
| "universal_newlines (c # d # cs) =
     (if c = char_of (13::nat) then char_of (10::nat) # universal_newlines (if d = char_of (10::nat) then cs else d # cs)
      else c # universal_newlines (d # cs))"

definition count_lines :: "string \<Rightarrow> nat" where
  "count_lines content =
     length (filter (\<lambda>c. c = char_of (10::nat)) content) + (if content \<noteq> [] \<and> last content \<noteq> char_of (10::nat) then 1 else 0)"

definition read_file :: "browse_env \<Rightarrow> fs \<Rightarrow> string \<Rightarrow> string \<Rightarrow> (browse_error, file_view) result" where
  "read_file e fs root_path relative_path =
     (case resolve_safe_path e fs root_path relative_path of
        Inl err \<Rightarrow> raise err
      | Inr target \<Rightarrow>
          (case lookup fs target of
             Some (File text) \<Rightarrow>
               (let extension = suffix_of_name (base_name target); truncated = (int (length text) > MAX_FILE_SIZE);
                    content = (if truncated then take (nat MAX_FILE_SIZE) (universal_newlines text) else universal_newlines text);
                    base = \<lparr>fv_path = relative_path, fv_name = base_name target, fv_size = length text,
                            fv_extension = (if extension = [] then None else Some extension),
                            fv_content = None, fv_binary = False, fv_lines = 0, fv_language = None, fv_truncated = False\<rparr>
                in if is_binary text extension then return (base\<lparr>fv_binary := True\<rparr>)
                   else return (base\<lparr>fv_content := Some content, fv_lines := count_lines content,
                                     fv_language := detect_language (base_name target) extension, fv_truncated := truncated\<rparr>))
           | _ \<Rightarrow> raise FileNotFoundError))"

definition get_download_target :: "browse_env \<Rightarrow> fs \<Rightarrow> string \<Rightarrow> string \<Rightarrow> (browse_error, path) result" where
  "get_download_target e fs root_path relative_path =
     (case resolve_safe_path e fs root_path relative_path of
        Inl err \<Rightarrow> raise err
      | Inr target \<Rightarrow> (case lookup fs target of Some (File _) \<Rightarrow> return target | _ \<Rightarrow> raise FileNotFoundError))"

section \<open>Writing\<close>

text \<open>Opening a resolved path for writing: an existing file is replaced, a missing one made in its directory.\<close>

definition open_write :: "fs \<Rightarrow> path \<Rightarrow> string \<Rightarrow> (browse_error, fs) result" where
  "open_write fs p text =
     (case lookup fs p of
        Some (File _) \<Rightarrow> return (fs_put p (File text) fs)
      | Some Dir \<Rightarrow> raise IsADirectoryError
      | Some (Link _) \<Rightarrow> raise OtherOSError
      | None \<Rightarrow> if p \<noteq> [] \<and> lookup fs (butlast p) = Some Dir then return (fs_put p (File text) fs) else raise FileNotFoundError)"

definition resolve_directory :: "browse_env \<Rightarrow> fs \<Rightarrow> string \<Rightarrow> string \<Rightarrow> (browse_error, path) result" where
  "resolve_directory e fs root_path relative_dir =
     (case resolve_safe_path e fs root_path relative_dir of
        Inl err \<Rightarrow> raise err
      | Inr directory \<Rightarrow> if lookup fs directory = Some Dir then return directory else raise FileNotFoundError)"

definition write_uploaded_file :: "browse_env \<Rightarrow> string \<Rightarrow> string \<Rightarrow> string option \<Rightarrow> string \<Rightarrow> fs \<Rightarrow> (browse_error, fs) result" where
  "write_uploaded_file e root_path relative_dir filename source fs =
     (case resolve_directory e fs root_path relative_dir of
        Inl err \<Rightarrow> raise err
      | Inr directory \<Rightarrow>
          (case normalize_upload_name filename of
             Inl err \<Rightarrow> raise err
           | Inr safe_name \<Rightarrow>
               (case resolve_safe_path e fs root_path (path_text (directory @ [safe_name])) of
                  Inl err \<Rightarrow> raise err
                | Inr target \<Rightarrow>
                    (case lookup fs target of
                       Some Dir \<Rightarrow> raise IsADirectoryError
                     | _ \<Rightarrow> open_write fs target source))))"

definition create_directory :: "browse_env \<Rightarrow> string \<Rightarrow> string \<Rightarrow> string \<Rightarrow> fs \<Rightarrow> (browse_error, fs) result" where
  "create_directory e root_path relative_dir name fs =
     (case resolve_directory e fs root_path relative_dir of
        Inl err \<Rightarrow> raise err
      | Inr directory \<Rightarrow>
          (case normalize_upload_name (Some name) of
             Inl err \<Rightarrow> raise err
           | Inr safe_name \<Rightarrow>
               if lookup fs (directory @ [safe_name]) \<noteq> None then raise FileExistsError
               else return (fs_put (directory @ [safe_name]) Dir fs)))"

definition write_text_file :: "browse_env \<Rightarrow> string \<Rightarrow> string \<Rightarrow> string \<Rightarrow> bool \<Rightarrow> fs \<Rightarrow> (browse_error, fs) result" where
  "write_text_file e root_path relative_path content create fs =
     (case resolve_safe_path e fs root_path relative_path of
        Inl err \<Rightarrow> raise err
      | Inr target \<Rightarrow>
          (let here = lookup fs target;
               file = (case here of Some (File _) \<Rightarrow> True | _ \<Rightarrow> False);
               present = (here = Some Dir \<or> file)
           in if create \<and> present then raise FileExistsError
              else if \<not> create \<and> \<not> file then raise FileNotFoundError
              else if present \<and> \<not> file then raise IsADirectoryError
              else if lookup fs (butlast target) \<noteq> Some Dir then raise FileNotFoundError
              else open_write fs target content))"

definition create_text_file :: "browse_env \<Rightarrow> string \<Rightarrow> string \<Rightarrow> string \<Rightarrow> string \<Rightarrow> bool \<Rightarrow> fs \<Rightarrow> (browse_error, fs) result" where
  "create_text_file e root_path relative_dir name content absolute_paths fs =
     (case resolve_directory e fs root_path relative_dir of
        Inl err \<Rightarrow> raise err
      | Inr directory \<Rightarrow>
          (case normalize_upload_name (Some name) of
             Inl err \<Rightarrow> raise err
           | Inr safe_name \<Rightarrow>
               write_text_file e root_path (display_path (directory @ [safe_name]) (real e fs root_path) absolute_paths) content True fs))"

section \<open>Deleting and renaming\<close>

definition guard_destructive_delete :: "browse_env \<Rightarrow> fs \<Rightarrow> path \<Rightarrow> (browse_error, unit) result" where
  "guard_destructive_delete e fs target =
     (if \<not> strict_prefix (real e fs (be_workspaces e)) target then raise PermissionError
      else if lookup fs target = Some Dir \<and> exists_at fs (target @ [''.git'']) then raise PermissionError
      else (case be_toplevel e fs (butlast target) of
              None \<Rightarrow> return ()
            | Some repo_root \<Rightarrow>
                if \<not> prefix repo_root target then raise ValueError
                else (case check_destructive_paths (be_guard e) (path_text repo_root)
                             [if target = repo_root then ''.'' else join_with ''/'' (drop (length repo_root) target)] None None of
                        Inl _ \<Rightarrow> raise PermissionError
                      | Inr decision \<Rightarrow> if gd_blocked decision then raise PermissionError else return ())))"

definition delete_path :: "browse_env \<Rightarrow> string \<Rightarrow> string \<Rightarrow> fs \<Rightarrow> (browse_error, fs) result" where
  "delete_path e root_path relative_path fs =
     (case resolve_safe_path e fs root_path relative_path of
        Inl err \<Rightarrow> raise err
      | Inr target \<Rightarrow>
          if target = real e fs root_path then raise ValueError
          else (case lookup fs target of
                  None \<Rightarrow> raise FileNotFoundError
                | Some (Link _) \<Rightarrow> raise FileNotFoundError
                | Some _ \<Rightarrow>
                    (case guard_destructive_delete e fs target of
                       Inl err \<Rightarrow> raise err
                     | Inr _ \<Rightarrow> return (fs_remove target fs))))"

text \<open>\<open>rename(2)\<close> onto a free name or a dangling link, which is replaced unless a directory is renamed.\<close>

definition rename_to :: "path \<Rightarrow> path \<Rightarrow> fs \<Rightarrow> (browse_error, fs) result" where
  "rename_to p p' fs =
     (if lookup fs p = Some Dir \<and> lookup fs p' \<noteq> None then raise OtherOSError else return (fs_move p p' fs))"

definition rename_path :: "browse_env \<Rightarrow> string \<Rightarrow> string \<Rightarrow> string \<Rightarrow> fs \<Rightarrow> (browse_error, fs) result" where
  "rename_path e root_path relative_path name fs =
     (case resolve_safe_path e fs root_path relative_path of
        Inl err \<Rightarrow> raise err
      | Inr target \<Rightarrow>
          if target = real e fs root_path then raise ValueError
          else (case lookup fs target of
                  None \<Rightarrow> raise FileNotFoundError
                | Some (Link _) \<Rightarrow> raise FileNotFoundError
                | Some _ \<Rightarrow>
                    (case normalize_upload_name (Some name) of
                       Inl err \<Rightarrow> raise err
                     | Inr safe_name \<Rightarrow>
                         (case sibling_in_root e fs root_path target safe_name of
                            Inl err \<Rightarrow> raise err
                          | Inr destination \<Rightarrow>
                              if exists_at fs destination then raise FileExistsError
                              else rename_to target destination fs))))"

end
