(* ===== verification/BrowserFacts.thy ===== *)
theory BrowserFacts
  imports FileBrowser
begin

text \<open>
  What the file browser guarantees: paths it answers are inside the root and no credentials, no call
  changes anything outside the root, reads answer contents from inside it, deletion passes its guard;
  and two ways around the protection of credentials and checkouts.
\<close>

section \<open>Resolved paths\<close>

lemma path_text_snoc: "path_text (b @ [c]) = (if b = [] then ''/'' else path_text b @ ''/'') @ c"
  using path_text_append [of b "[c]"] by (cases "b = []") (auto simp: path_text_def)

lemma dirname_snoc:
  assumes "CHR ''/'' \<notin> set c"
  shows "dirname (a @ ''/'' @ c) = (if set a \<subseteq> {CHR ''/''} then a @ ''/'' else rstrip_chars ''/'' (a @ ''/''))"
proof -
  have "dropWhile (\<lambda>x. x \<noteq> CHR ''/'') (rev c @ CHR ''/'' # rev a) = CHR ''/'' # rev a"
    using assms by (subst dropWhile_append2) auto
  then have h: "rev (dropWhile (\<lambda>x. x \<noteq> CHR ''/'') (rev (a @ ''/'' @ c))) = a @ ''/''" by simp
  have "a @ ''/'' = replicate (length (a @ ''/'')) CHR ''/'' \<longleftrightarrow> (\<forall>y\<in>set (a @ ''/''). y = CHR ''/'')"
  proof
    assume "a @ ''/'' = replicate (length (a @ ''/'')) CHR ''/''"
    then have "set (a @ ''/'') \<subseteq> {CHR ''/''}" by (metis set_replicate_conv_if subset_singleton_iff)
    then show "\<forall>y\<in>set (a @ ''/''). y = CHR ''/''" by blast
  qed (rule replicate_length_same [symmetric])
  then have "a @ ''/'' = replicate (length (a @ ''/'')) CHR ''/'' \<longleftrightarrow> set a \<subseteq> {CHR ''/''}" by auto
  then show ?thesis unfolding dirname_def Let_def h by simp
qed

lemma last_path_text: "clean b \<Longrightarrow> b \<noteq> [] \<Longrightarrow> last (path_text b) \<noteq> CHR ''/'' \<and> path_text b \<noteq> []"
proof (cases b rule: rev_cases)
  case (snoc a c)
  assume "clean b"
  then have c: "c \<noteq> []" "CHR ''/'' \<notin> set c" unfolding snoc by (auto simp: clean_name_def)
  then have "last c \<noteq> CHR ''/''" by (metis last_in_set)
  then show ?thesis unfolding snoc path_text_snoc using c(1) by simp
qed simp

lemma dirname_text:
  assumes "clean r"
  shows "dirname (path_text r) = path_text (butlast r)"
proof (cases "r = []")
  case True
  then show ?thesis by (simp add: path_text_def dirname_def)
next
  case False
  define b c where "b = butlast r" and "c = last r"
  have r: "r = b @ [c]" using False by (simp add: b_def c_def)
  have c: "CHR ''/'' \<notin> set c" and cb: "clean b" using assms unfolding r by (auto simp: clean_name_def)
  show ?thesis
  proof (cases "b = []")
    case True
    then show ?thesis using dirname_snoc [OF c, of "[]"] by (simp add: r path_text_def)
  next
    case b: False
    note l = last_path_text [OF cb b]
    then have "last (path_text b) \<in> set (path_text b)" by simp
    with l have "\<not> set (path_text b) \<subseteq> {CHR ''/''}" by blast
    moreover have "rstrip_chars ''/'' (path_text b @ ''/'') = path_text b"
    proof -
      obtain u v where "rev (path_text b) = u # v" "u \<noteq> CHR ''/''" using l by (cases "rev (path_text b)") (auto simp: last_rev [symmetric])
      then show ?thesis by (simp add: rstrip_chars_def)
    qed
    ultimately show ?thesis using dirname_snoc [OF c, of "path_text b"] b by (simp add: r path_text_snoc)
  qed
qed

definition credential :: "browse_env \<Rightarrow> fs \<Rightarrow> path \<Rightarrow> bool" where
  "credential e fs t \<longleftrightarrow>
     (\<exists>f\<in>{be_owner_token_file e, be_agent_token_file e}. strip f \<noteq> [] \<and> real e fs (strip f) = t) \<or> prefix (credential_store e fs) t"

lemma credential_iff:
  assumes "clean (be_cwd e)" "clean t"
  shows "is_credential_path e fs (path_text t) \<longleftrightarrow> credential e fs t"
proof -
  have s: "clean (credential_store e fs)" unfolding credential_store_def by (rule realpath_clean [OF assms(1)])
  show ?thesis
    using path_text_inj [OF realpath_clean [OF assms(1)] assms(2)] path_text_inj [OF assms(2) s] startswith_text [OF s assms(2)]
    by (auto simp: is_credential_path_def credential_def strict_prefix_def)
qed

lemma safe_path_iff:
  assumes "clean (be_cwd e)"
  shows "resolve_safe_path e fs root rel = Inr t \<longleftrightarrow>
    t = real e fs (path_join (path_text (real e fs root)) rel) \<and> prefix (real e fs root) t \<and> \<not> credential e fs t"
proof -
  define r where "r = real e fs root"
  define t' where "t' = real e fs (path_join (path_text r) rel)"
  have c: "clean r" "clean t'" unfolding r_def t'_def by (simp_all add: realpath_clean assms)
  have inside: "(path_text t' \<noteq> path_text r \<and> \<not> startswith (path_text t') (root_prefix (path_text r))) \<longleftrightarrow> \<not> prefix r t'"
    using path_text_inj [OF c(2,1)] startswith_text [OF c] by (auto simp: strict_prefix_def)
  have second: "startswith (path_text t') (root_prefix (dirname (path_text r)))" if "prefix r t'"
  proof -
    have "butlast r = [] \<or> strict_prefix (butlast r) t'"
    proof (cases r rule: rev_cases)
      case (snoc a x)
      then have "strict_prefix a r" by (simp add: strict_prefixI')
      then show ?thesis using that snoc prefix_order.less_le_trans by auto
    qed simp
    then show ?thesis using startswith_text [OF clean_butlast [OF c(1)] c(2)] by (simp add: dirname_text [OF c(1)])
  qed
  have "resolve_safe_path e fs root rel =
      (if \<not> prefix r t' then Inl ValueError else if credential e fs t' then Inl ValueError else Inr t')"
    unfolding resolve_safe_path_def Let_def r_def [symmetric] t'_def [symmetric] normpath_text [OF c(2)] text_parts_text [OF c(2)]
      inside credential_iff [OF assms c(2)] using second by simp
  then show ?thesis unfolding r_def [symmetric] t'_def [symmetric] by auto
qed

lemma safe_path_facts:
  assumes "clean (be_cwd e)" "resolve_safe_path e fs root rel = Inr t"
  shows "prefix (real e fs root) t" "clean t" "\<not> credential e fs t"
proof -
  have t: "t = real e fs (path_join (path_text (real e fs root)) rel)" "prefix (real e fs root) t" "\<not> credential e fs t"
    using safe_path_iff [OF assms(1), THEN iffD1, OF assms(2)] by blast+
  then show "prefix (real e fs root) t" "\<not> credential e fs t" by simp_all
  show "clean t" unfolding t(1) by (rule realpath_clean [OF assms(1)])
qed

text \<open>
  C33: The browser's containment check is exact. A relative or absolute path is accepted exactly if the place
  it leads to, with every link on the way followed, is the root or below it and holds no
  credentials; that place is the answer. The second textual check of the code never refuses anything.
\<close>

theorem resolve_safe_path_exact:
  assumes "clean (be_cwd e)"
  shows "resolve_safe_path e fs root rel = Inr t \<longleftrightarrow>
    t = real e fs (path_join (path_text (real e fs root)) rel) \<and> prefix (real e fs root) t \<and> \<not> credential e fs t"
  using assms by (rule safe_path_iff)

section \<open>What a call changes\<close>

lemma map_of_rekey:
  assumes "g q = q" "\<forall>k. k \<noteq> q \<longrightarrow> g k \<noteq> q"
  shows "map_of (map (\<lambda>(k, n). (g k, n)) xs) q = map_of xs q"
proof (induction xs)
  case (Cons a xs)
  then show ?case using assms by (cases "fst a = q") (auto simp: case_prod_beta)
qed simp

lemma map_of_fs_move:
  assumes "\<not> prefix p q" "\<not> prefix p' q"
  shows "map_of (fs_move p p' fs) q = map_of fs q"
proof -
  define g where "g k = (if prefix p k then p' @ drop (length p) k else k)" for k :: path
  have "g k \<noteq> q" if "k \<noteq> q" for k using that assms(2) by (auto simp: g_def prefix_def)
  then have "map_of (map (\<lambda>(k, n). (g k, n)) (fs_remove p' fs)) q = map_of (fs_remove p' fs) q"
    using assms(1) by (intro map_of_rekey) (auto simp: g_def)
  then show ?thesis using assms(2) by (simp add: fs_move_def g_def map_of_fs_remove)
qed

text \<open>Everything that is not below the root stays; the root itself stays if it is a directory.\<close>

definition kept_outside :: "path \<Rightarrow> fs \<Rightarrow> fs \<Rightarrow> bool" where
  "kept_outside r fs fs' \<longleftrightarrow>
     (\<forall>q. \<not> prefix r q \<or> (q = r \<and> lookup fs r = Some Dir) \<longrightarrow> map_of fs' q = map_of fs q)"

lemma kept_below:
  assumes "strict_prefix r p"
  shows "kept_outside r fs (fs_put p n fs)" "kept_outside r fs (fs_remove p fs)"
    and "strict_prefix r p' \<Longrightarrow> kept_outside r fs (fs_move p p' fs)"
proof -
  have n: "\<not> prefix p q" if "\<not> prefix r q \<or> q = r" "strict_prefix r p" for q p
    using that prefix_order.le_less_trans prefix_order.less_le_trans by (metis prefix_order.less_imp_le prefix_order.less_irrefl)
  show "kept_outside r fs (fs_put p n fs)" using n [OF _ assms] by (auto simp: kept_outside_def)
  show "kept_outside r fs (fs_remove p fs)" using n [OF _ assms] by (auto simp: kept_outside_def map_of_fs_remove)
  show "kept_outside r fs (fs_move p p' fs)" if "strict_prefix r p'"
    using n [OF _ assms] n [OF _ that] by (auto simp: kept_outside_def map_of_fs_move)
qed

lemma clean_upload_name:
  assumes "normalize_upload_name f = Inr name"
  shows "clean_name name"
proof -
  have n: "path_name name = name" "name \<noteq> []" "name \<noteq> ''.''" "name \<noteq> ''..''"
    using assms by (auto simp: normalize_upload_name_def Let_def split: if_splits)
  have "path_name name = [] \<or> path_name name \<in> set (split_on CHR ''/'' name)"
  proof (cases "rev (filter (\<lambda>c. c \<noteq> [] \<and> c \<noteq> ''.'') (split_on CHR ''/'' name))")
    case (Cons a xs)
    then have "a \<in> set (filter (\<lambda>c. c \<noteq> [] \<and> c \<noteq> ''.'') (split_on CHR ''/'' name))" by (metis list.set_intros(1) set_rev)
    then show ?thesis using Cons unfolding path_name_def by simp
  qed (simp add: path_name_def)
  then have "CHR ''/'' \<notin> set name" using n split_on_no_sep by metis
  then show ?thesis using n by (simp add: clean_name_def)
qed

lemma open_write_kept:
  assumes "open_write fs p t = Inr fs'" "prefix r p"
  shows "kept_outside r fs fs'"
proof -
  have fs': "fs' = fs_put p (File t) fs" "lookup fs p \<noteq> Some Dir"
    using assms(1) by (auto simp: open_write_def split: option.splits node.splits if_splits)
  show ?thesis
  proof (cases "p = r")
    case True
    then show ?thesis using fs' by (auto simp: kept_outside_def)
  next
    case False
    then show ?thesis using fs'(1) assms(2) kept_below(1) by (simp add: strict_prefix_def)
  qed
qed

text \<open>The calls that change something, and their execution; a failed call changes nothing.\<close>

datatype browse_call =
    Upload string "string option" string
  | MakeDirectory string string
  | WriteText string string bool
  | CreateText string string string bool
  | Delete string
  | Rename string string

fun perform :: "browse_env \<Rightarrow> string \<Rightarrow> browse_call \<Rightarrow> fs \<Rightarrow> (browse_error, fs) result" where
  "perform e root (Upload d f t) fs = write_uploaded_file e root d f t fs"
| "perform e root (MakeDirectory d n) fs = create_directory e root d n fs"
| "perform e root (WriteText p t create) fs = write_text_file e root p t create fs"
| "perform e root (CreateText d n t absolute) fs = create_text_file e root d n t absolute fs"
| "perform e root (Delete p) fs = delete_path e root p fs"
| "perform e root (Rename p n) fs = rename_path e root p n fs"

definition after_call :: "browse_env \<Rightarrow> string \<Rightarrow> browse_call \<Rightarrow> fs \<Rightarrow> fs" where
  "after_call e root c fs = (case perform e root c fs of Inr fs' \<Rightarrow> fs' | Inl _ \<Rightarrow> fs)"

lemma resolve_directory_inside:
  assumes "clean (be_cwd e)" "resolve_directory e fs root rel = Inr d"
  shows "prefix (real e fs root) d \<and> clean d \<and> lookup fs d = Some Dir"
proof -
  have "resolve_safe_path e fs root rel = Inr d" "lookup fs d = Some Dir"
    using assms(2) by (auto simp: resolve_directory_def split: sum.splits if_splits)
  then show ?thesis using safe_path_facts(1,2) [OF assms(1)] by blast
qed

lemma write_text_kept:
  assumes "clean (be_cwd e)" "write_text_file e root rel t create fs = Inr fs'"
  shows "kept_outside (real e fs root) fs fs'"
proof -
  obtain p where p: "resolve_safe_path e fs root rel = Inr p"
    using assms(2) by (cases "resolve_safe_path e fs root rel") (simp_all add: write_text_file_def)
  then have "open_write fs p t = Inr fs'"
    using assms(2) unfolding write_text_file_def p Let_def sum.case by (simp only: split: if_split_asm) simp_all
  note p = p this
  show ?thesis by (rule open_write_kept [OF p(2) safe_path_facts(1) [OF assms(1) p(1)]])
qed

lemma rename_kept:
  assumes "clean (be_cwd e)" "rename_path e root rel n fs = Inr fs'"
  shows "kept_outside (real e fs root) fs fs'"
proof -
  let ?r = "real e fs root"
  obtain t name d where t: "resolve_safe_path e fs root rel = Inr t" "t \<noteq> ?r" "normalize_upload_name (Some n) = Inr name"
      "sibling_in_root e fs root t name = Inr d" and fs': "fs' = fs_move t d fs"
    using assms(2) unfolding rename_path_def rename_to_def
    by (simp split: sum.split_asm if_split_asm option.split_asm node.split_asm)
  note f = safe_path_facts [OF assms(1) t(1)]
  then have st: "strict_prefix ?r t" using t(2) by (auto simp: strict_prefix_def)
  have ct: "clean t" by (rule f(2))
  have cd: "clean (butlast t @ [name])" using ct clean_upload_name [OF t(3)] clean_butlast by auto
  have ns: "\<not> startswith name ''/''" using clean_upload_name [OF t(3)] by (cases name) (auto simp: clean_name_def)
  have "path_join (path_text (butlast t)) name = path_text (butlast t @ [name])"
  proof (cases "butlast t = []")
    case True
    then show ?thesis using ns by (simp add: path_join_def path_text_def endswith_def)
  next
    case False
    then have "\<not> endswith (path_text (butlast t)) ''/''"
      using last_path_text [OF clean_butlast [OF ct] False] by (auto simp: endswith_iff)
    then show ?thesis using ns False last_path_text [OF clean_butlast [OF ct] False] by (simp add: path_join_def path_text_snoc)
  qed
  then have d: "d = butlast t @ [name]" "startswith (path_text d) (root_prefix (path_text ?r))"
    using t(4) cd by (auto simp: sibling_in_root_def Let_def split: if_splits)
  then have "?r = [] \<or> strict_prefix ?r d" using startswith_text [OF realpath_clean [OF assms(1)]] cd by blast
  then have "strict_prefix ?r d" using d(1) by (cases "?r = []") (auto simp: strict_prefix_def)
  then show ?thesis unfolding fs' by (rule kept_below(3) [OF st])
qed

lemma perform_kept:
  assumes "clean (be_cwd e)" "perform e root c fs = Inr fs'"
  shows "kept_outside (real e fs root) fs fs'"
proof (cases c)
  case (Upload d f t)
  with assms(2) obtain rel q where q: "resolve_safe_path e fs root rel = Inr q" "open_write fs q t = Inr fs'"
    by (auto simp: write_uploaded_file_def split: sum.splits option.splits node.splits)
  then show ?thesis using open_write_kept [OF q(2) safe_path_facts(1) [OF assms(1) q(1)]] by simp
next
  case (MakeDirectory d n)
  then obtain p name where p: "resolve_directory e fs root d = Inr p" "fs' = fs_put (p @ [name]) Dir fs"
    using assms(2) by (auto simp: create_directory_def split: sum.splits if_splits)
  have "strict_prefix (real e fs root) (p @ [name])"
    using resolve_directory_inside [OF assms(1) p(1)] by (metis prefix_order.le_less_trans strict_prefixI')
  then show ?thesis unfolding p(2) by (rule kept_below(1))
next
  case (WriteText p t create)
  then show ?thesis using write_text_kept [OF assms(1)] assms(2) by simp
next
  case (CreateText d n t absolute)
  then show ?thesis using write_text_kept [OF assms(1)] assms(2) by (auto simp: create_text_file_def split: sum.splits)
next
  case (Delete p)
  then obtain t where t: "resolve_safe_path e fs root p = Inr t" "t \<noteq> real e fs root" "fs' = fs_remove t fs"
    using assms(2) by (auto simp: delete_path_def split: sum.splits if_splits option.splits node.splits)
  have "strict_prefix (real e fs root) t" using t(2) safe_path_facts(1) [OF assms(1) t(1)] by (auto simp: strict_prefix_def)
  then show ?thesis unfolding t(3) by (rule kept_below(2))
next
  case (Rename p n)
  then show ?thesis using rename_kept [OF assms(1)] assms(2) by simp
qed

section \<open>Calls stay inside the root\<close>

text \<open>
  C14: The browser never leaves its root. Take a root that is a directory reached without links. After any
  sequence of uploads, new directories and files, writes, deletions and renames through the browser, whatever
  paths and links the calls name, everything that is not below the root is as it was, and the root is
  still a directory.
\<close>

theorem browser_confined:
  assumes "clean (be_cwd e)" "clean r" "lookup fs r = Some Dir"
  shows "lookup (fold (after_call e (path_text r)) calls fs) r = Some Dir
    \<and> (\<forall>q. \<not> strict_prefix r q \<longrightarrow> map_of (fold (after_call e (path_text r)) calls fs) q = map_of fs q)"
  using assms(3)
proof (induction calls arbitrary: fs)
  case (Cons c calls)
  let ?fs = "after_call e (path_text r) c fs"
  have "kept_outside r fs ?fs"
  proof (cases "perform e (path_text r) c fs")
    case (Inr fs')
    then show ?thesis using perform_kept [OF assms(1) Inr] realpath_dirs [OF assms(2) Cons.prems] by (simp add: after_call_def)
  qed (simp add: after_call_def kept_outside_def)
  then have k: "map_of ?fs q = map_of fs q" if "\<not> strict_prefix r q" for q
    using that Cons.prems by (auto simp: kept_outside_def strict_prefix_def)
  have "\<not> strict_prefix r q" if "prefix q r" for q using that prefix_order.leD by auto
  then have "lookup ?fs r = Some Dir" using lookup_same [of r ?fs fs] k Cons.prems by auto
  from Cons.IH [OF this] k show ?case by simp
qed simp

section \<open>Reading stays inside the root\<close>

lemma length_universal_newlines: "length (universal_newlines s) \<le> length s"
  by (induction s rule: universal_newlines.induct) auto

text \<open>
  C34: The browser reads only what is inside its root. What \<open>read_file\<close> answers is the size and the text,
  cut off at the limit, of a file below the root that is no credential, and a download is such a file.
\<close>

theorem reads_confined:
  assumes "clean (be_cwd e)"
  shows "(\<forall>v. read_file e fs root rel = Inr v \<longrightarrow>
       (\<exists>t content. prefix (real e fs root) t \<and> \<not> credential e fs t \<and> lookup fs t = Some (File content) \<and> fv_size v = length content
          \<and> (fv_content v = None \<or> fv_content v = Some (take (nat MAX_FILE_SIZE) (universal_newlines content)))))
    \<and> (\<forall>t. get_download_target e fs root rel = Inr t \<longrightarrow>
       (\<exists>content. prefix (real e fs root) t \<and> \<not> credential e fs t \<and> lookup fs t = Some (File content)))"
proof (intro conjI allI impI)
  fix v
  assume v: "read_file e fs root rel = Inr v"
  then obtain t content where t: "resolve_safe_path e fs root rel = Inr t" "lookup fs t = Some (File content)"
    by (auto simp: read_file_def split: sum.splits option.splits node.splits)
  have "take (nat MAX_FILE_SIZE) (universal_newlines content) = universal_newlines content" if "\<not> int (length content) > MAX_FILE_SIZE"
    using that length_universal_newlines [of content] by simp
  then have "fv_size v = length content" "fv_content v = None \<or> fv_content v = Some (take (nat MAX_FILE_SIZE) (universal_newlines content))"
    using v t by (auto simp: read_file_def Let_def split: if_splits)
  then show "\<exists>t content. prefix (real e fs root) t \<and> \<not> credential e fs t \<and> lookup fs t = Some (File content) \<and> fv_size v = length content
          \<and> (fv_content v = None \<or> fv_content v = Some (take (nat MAX_FILE_SIZE) (universal_newlines content)))"
    using safe_path_facts [OF assms t(1)] t(2) by blast
next
  fix t
  assume "get_download_target e fs root rel = Inr t"
  then obtain content where t: "resolve_safe_path e fs root rel = Inr t" "lookup fs t = Some (File content)"
    by (auto simp: get_download_target_def split: sum.splits option.splits node.splits)
  then show "\<exists>content. prefix (real e fs root) t \<and> \<not> credential e fs t \<and> lookup fs t = Some (File content)"
    using safe_path_facts [OF assms t(1)] by blast
qed

section \<open>Deleting\<close>

lemma delete_cases:
  assumes "delete_path e root rel fs = Inr fs'"
  obtains t where "resolve_safe_path e fs root rel = Inr t" "t \<noteq> real e fs root" "guard_destructive_delete e fs t = Inr ()" "fs' = fs_remove t fs"
  using assms by (auto simp: delete_path_def split: sum.splits if_splits option.splits node.splits)

lemma guard_passed:
  assumes "guard_destructive_delete e fs t = Inr ()"
  shows "strict_prefix (real e fs (be_workspaces e)) t" "\<not> (lookup fs t = Some Dir \<and> exists_at fs (t @ [''.git'']))"
    and "be_toplevel e fs (butlast t) = Some repo \<Longrightarrow> \<exists>paths d. prefix repo t \<and> check_destructive_paths (be_guard e) (path_text repo) paths None None = Inr d \<and> \<not> gd_blocked d"
  using assms by (auto simp: guard_destructive_delete_def split: if_splits option.splits sum.splits)

text \<open>
  A deletion passed its guard and removes exactly what it names. Deleting succeeds only strictly inside
  the root and the managed workspaces, never on a directory that is itself a checkout, and in a checkout
  only when the guard of destructive paths lets it; then that subtree is gone and everything else is unchanged.
\<close>

theorem deletion_guarded:
  assumes "clean (be_cwd e)" "delete_path e root rel fs = Inr fs'"
  shows "\<exists>t. strict_prefix (real e fs root) t \<and> strict_prefix (real e fs (be_workspaces e)) t \<and> \<not> credential e fs t
    \<and> \<not> (lookup fs t = Some Dir \<and> exists_at fs (t @ [''.git'']))
    \<and> (\<forall>repo. be_toplevel e fs (butlast t) = Some repo \<longrightarrow>
         (\<exists>paths d. check_destructive_paths (be_guard e) (path_text repo) paths None None = Inr d \<and> \<not> gd_blocked d))
    \<and> (\<forall>q. map_of fs' q = (if prefix t q then None else map_of fs q))"
proof -
  obtain t where t: "resolve_safe_path e fs root rel = Inr t" "t \<noteq> real e fs root" "guard_destructive_delete e fs t = Inr ()" "fs' = fs_remove t fs"
    using assms(2) by (rule delete_cases)
  have "strict_prefix (real e fs root) t" using safe_path_facts(1) [OF assms(1) t(1)] t(2) by (auto simp: strict_prefix_def)
  with safe_path_facts(3) [OF assms(1) t(1)] guard_passed [OF t(3)] show ?thesis
    unfolding t(4) map_of_fs_remove by (intro exI [of _ t] conjI) (auto dest: guard_passed(3) [OF t(3)])
qed

definition sample_browser :: browse_env where
  "sample_browser = \<lparr>be_cwd = [], be_owner_token_file = ''/ws/secrets/token'', be_agent_token_file = [], be_home = ''/home/u'', be_workspaces = ''/ws'',
     be_toplevel = (\<lambda>_ _. None),
     be_guard = \<lparr>su_resolve = Some, su_index_project = (\<lambda>_. None), su_staged = (\<lambda>_. Inr []), su_inventory = (\<lambda>_. Inr []), su_spirit = (\<lambda>_. None), su_environ = []\<rparr>\<rparr>"

definition sample_fs :: fs where
  "sample_fs = [([''ws''], Dir), ([''ws'', ''projects''], Dir), ([''ws'', ''projects'', ''app''], Dir), ([''ws'', ''projects'', ''app'', ''.git''], Dir),
     ([''ws'', ''projects'', ''app'', ''a.py''], File ''x''), ([''ws'', ''secrets''], Dir), ([''ws'', ''secrets'', ''token''], File ''s3cret''),
     ([''ws'', ''way''], Link ''/etc''), ([''etc''], Dir), ([''etc'', ''passwd''], File ''root'')]"

theorem deletion_guarded_witness:
  "\<exists>fs' t. delete_path sample_browser ''/ws'' ''projects/app/a.py'' sample_fs = Inr fs' \<and> strict_prefix [''ws''] t \<and> map_of fs' t = None"
proof -
  have d: "delete_path sample_browser ''/ws'' ''projects/app/a.py'' sample_fs = Inr (fs_remove [''ws'', ''projects'', ''app'', ''a.py''] sample_fs)" by code_simp
  have r: "real sample_browser sample_fs ''/ws'' = [''ws'']" and c: "clean (be_cwd sample_browser)" by code_simp+
  from deletion_guarded [OF c d] r d show ?thesis by (metis prefix_order.order_refl)
qed

text \<open>
  A checkout is deleted through its parent. The guard refuses the root of a checkout, but a directory above
  checkouts that is not in one itself is deleted with all of them, without a look at who works there.
\<close>

theorem checkout_deleted_through_parent:
  assumes "resolve_safe_path e fs root rel = Inr t" "t \<noteq> real e fs root" "lookup fs t = Some Dir"
    and "strict_prefix (real e fs (be_workspaces e)) t" "\<not> exists_at fs (t @ [''.git''])" "be_toplevel e fs (butlast t) = None"
  shows "\<exists>fs'. delete_path e root rel fs = Inr fs' \<and> (\<forall>checkout. strict_prefix t checkout \<longrightarrow> map_of fs' (checkout @ [''.git'']) = None)"
proof -
  have "delete_path e root rel fs = Inr (fs_remove t fs)"
    using assms by (simp add: delete_path_def guard_destructive_delete_def)
  moreover have "map_of (fs_remove t fs) (q @ [''.git'']) = None" if "strict_prefix t q" for q
    using that by (auto simp: map_of_fs_remove strict_prefix_def prefix_def)
  ultimately show ?thesis by blast
qed

theorem checkout_deleted_through_parent_witness:
  "map_of sample_fs [''ws'', ''projects'', ''app'', ''.git''] = Some Dir
   \<and> (\<exists>fs'. delete_path sample_browser ''/ws'' ''projects'' sample_fs = Inr fs' \<and> map_of fs' [''ws'', ''projects'', ''app'', ''.git''] = None)"
proof -
  have f: "resolve_safe_path sample_browser sample_fs ''/ws'' ''projects'' = Inr [''ws'', ''projects'']"
    "[''ws'', ''projects''] \<noteq> real sample_browser sample_fs ''/ws''" "lookup sample_fs [''ws'', ''projects''] = Some Dir"
    "strict_prefix (real sample_browser sample_fs (be_workspaces sample_browser)) [''ws'', ''projects'']"
    "\<not> exists_at sample_fs ([''ws'', ''projects''] @ [''.git''])" "be_toplevel sample_browser sample_fs (butlast [''ws'', ''projects'']) = None"
    by code_simp+
  have "strict_prefix [''ws'', ''projects''] [''ws'', ''projects'', ''app'']" by (simp add: strict_prefix_def prefix_def)
  moreover have "map_of sample_fs [''ws'', ''projects'', ''app'', ''.git''] = Some Dir" by code_simp
  ultimately show ?thesis using checkout_deleted_through_parent [OF f] by fastforce
qed

text \<open>
  Renaming a directory uncovers the credentials in it. The token file is refused under its own path, but
  the directory that holds it can be renamed, and under the new path its text is served.
\<close>

theorem rename_uncovers_credentials:
  "read_file sample_browser sample_fs ''/ws'' ''secrets/token'' = Inl ValueError
   \<and> (\<exists>fs' v. rename_path sample_browser ''/ws'' ''secrets'' ''open'' sample_fs = Inr fs'
        \<and> read_file sample_browser fs' ''/ws'' ''open/token'' = Inr v \<and> fv_content v = Some ''s3cret'')"
proof -
  let ?fs = "fs_move [''ws'', ''secrets''] [''ws'', ''open''] sample_fs"
  have "read_file sample_browser sample_fs ''/ws'' ''secrets/token'' = Inl ValueError" by code_simp
  moreover have "rename_path sample_browser ''/ws'' ''secrets'' ''open'' sample_fs = Inr ?fs" by code_simp
  moreover have "(case read_file sample_browser ?fs ''/ws'' ''open/token'' of Inr v \<Rightarrow> fv_content v | Inl _ \<Rightarrow> None) = Some ''s3cret''" by code_simp
  ultimately show ?thesis by (auto split: sum.splits)
qed

section \<open>Witnesses\<close>

lemma clean_sample: "clean (be_cwd sample_browser)" "clean [''ws'']" "lookup sample_fs [''ws''] = Some Dir"
  by code_simp+

theorem browser_confined_witness:
  "map_of (fold (after_call sample_browser ''/ws'') [WriteText ''way/passwd'' ''mine'' False, Rename ''way'' ''in'', Delete ''projects''] sample_fs) [''etc'', ''passwd'']
     = Some (File ''root'')"
proof -
  have "path_text [''ws''] = ''/ws''" "map_of sample_fs [''etc'', ''passwd''] = Some (File ''root'')" by code_simp+
  moreover have "\<not> strict_prefix [''ws''] [''etc'', ''passwd'']" by simp
  ultimately show ?thesis
    using browser_confined [OF clean_sample, of "[WriteText ''way/passwd'' ''mine'' False, Rename ''way'' ''in'', Delete ''projects'']"] by simp
qed

theorem reads_confined_witness:
  "\<exists>t content. prefix [''ws''] t \<and> lookup sample_fs t = Some (File content)"
proof -
  have r: "real sample_browser sample_fs ''/ws'' = [''ws'']" by code_simp
  have d: "get_download_target sample_browser sample_fs ''/ws'' ''projects/app/a.py'' = Inr [''ws'', ''projects'', ''app'', ''a.py'']" by code_simp
  show ?thesis using reads_confined [OF clean_sample(1), of sample_fs "''/ws''" "''projects/app/a.py''"] d unfolding r by blast
qed

theorem resolve_safe_path_exact_witness:
  "\<nexists>t. resolve_safe_path sample_browser sample_fs ''/ws'' ''way/passwd'' = Inr t"
proof
  assume "\<exists>t. resolve_safe_path sample_browser sample_fs ''/ws'' ''way/passwd'' = Inr t"
  then obtain t where t: "resolve_safe_path sample_browser sample_fs ''/ws'' ''way/passwd'' = Inr t" by blast
  have "real sample_browser sample_fs (path_join (path_text (real sample_browser sample_fs ''/ws'')) ''way/passwd'') = [''etc'', ''passwd'']"
    "real sample_browser sample_fs ''/ws'' = [''ws'']" by code_simp+
  then show False using t resolve_safe_path_exact [OF clean_sample(1), of sample_fs "''/ws''" "''way/passwd''" t] by auto
qed

end
