(* ===== verification/TaskCloseout.thy ===== *)
theory TaskCloseout
  imports TaskFacts
begin

text \<open>
  Local completion of a task (\<open>backend/app/services/task_closeout.py\<close>): a request is stored with the
  task, and a resumable continuation validates the source, completes the task and cleans its
  checkpoint up.

  The advisory lock of a task is the argument \<open>acquired\<close>. Each call of the storage is one
  transaction; what other processes do to the tables before the \<open>n\<close>-th one is \<open>others n\<close>. The
  adapter of the command line (git, checkpoints), the project registry and the columns only shown
  to the user are fields of the environment. A cleanup is logged with the tables at its moment,
  and so is every transaction of these operations, with the tables before and after it.
  The entries of an intent that \<open>request_closeout\<close> writes as strings are read as strings; an intent
  without one of them raises, as the subscript does.
\<close>

datatype closeout_error =
    NotFullCommit
  | TaskMismatch
  | NotActive
  | NotAccepted
  | EarlierUnresolved
  | NotSameClaim
  | AcceptanceChanged
  | MissingField string
  | TaskGone
  | ProjectChanged
  | SourceChanged
  | ReferenceChanged string
  | ScopeDiffers
  | NotReady "string list" "gate list"
  | AdapterRaised string
  | StoreRaised task_error

record closeout_env =
  cx_service :: native_service
  cx_caller :: string
  cx_source_lock :: "string \<Rightarrow> string option"
  cx_validate_source :: "string \<Rightarrow> dict \<Rightarrow> string \<Rightarrow> (string, dict) result"
  cx_require_owned :: "string \<Rightarrow> string \<Rightarrow> string list \<Rightarrow> task \<Rightarrow> string option"
  cx_cleanup :: "string \<Rightarrow> string \<Rightarrow> string \<Rightarrow> string option"
  cx_root :: "string \<Rightarrow> string option"
  cx_title :: "string \<Rightarrow> string"
  cx_base_branch :: "string \<Rightarrow> string"
  cx_text :: "closeout_error \<Rightarrow> string"

record cleanup_call =
  cc_task :: string
  cc_project :: string
  cc_root :: string
  cc_tables :: store

record closing =
  cs_store :: store
  cs_cleanups :: "cleanup_call list"
  cs_events :: "(string \<times> string) list"
  cs_writes :: "(string \<times> store \<times> store) list"

definition act :: "(nat \<Rightarrow> store \<Rightarrow> store) \<Rightarrow> nat \<Rightarrow> closing \<Rightarrow> closing" where
  "act others n s = s\<lparr>cs_store := others n (cs_store s)\<rparr>"

definition commit :: "string \<Rightarrow> store \<Rightarrow> closing \<Rightarrow> closing" where
  "commit task_id tables s =
     s\<lparr>cs_store := tables, cs_writes := cs_writes s @ [(canonicalize_task_id task_id, cs_store s, tables)]\<rparr>"

definition log_event :: "string \<Rightarrow> string \<Rightarrow> closing \<Rightarrow> closing" where
  "log_event task_id msg s = s\<lparr>cs_events := cs_events s @ [(task_id, msg)]\<rparr>"

text \<open>The row of the given id itself is preferred to that of the canonical one.\<close>

definition find_task :: "string \<Rightarrow> store \<Rightarrow> (string \<times> task) option" where
  "find_task task_id tables =
     (let i = canonicalize_task_id task_id in
      case (if i \<noteq> task_id then map_of (tasks tables) task_id else None) of
        Some t \<Rightarrow> Some (task_id, t)
      | None \<Rightarrow> map_option (Pair i) (map_of (tasks tables) i))"

definition get_task :: "string \<Rightarrow> closing \<Rightarrow> task option" where
  "get_task task_id s = map_option snd (find_task task_id (cs_store s))"

definition field :: "dict \<Rightarrow> string \<Rightarrow> (closeout_error, string) result" where
  "field d k = (case map_of d k of Some (JStr v) \<Rightarrow> return v | _ \<Rightarrow> raise (MissingField k))"

definition strings_of :: "json list \<Rightarrow> string list" where
  "strings_of js = List.map_filter (\<lambda>j. case j of JStr v \<Rightarrow> Some v | _ \<Rightarrow> None) js"

definition outcome :: "string \<Rightarrow> string \<Rightarrow> string \<Rightarrow> dict" where
  "outcome what task_id reason = [(''action'', JStr what), (''reason'', JStr reason), (''task_id'', JStr task_id)]"

section \<open>The selected evidence\<close>

definition REFERENCE_KEYS :: "string list" where
  "REFERENCE_KEYS =
     [''acceptance_id'', ''source_commit'', ''source_tree'', ''coverage'', ''input_fingerprint'',
      ''acceptance_plan_fingerprint'', ''required_stages'', ''scope_digest'']"

definition require_selected_reference :: "dict \<Rightarrow> dict \<Rightarrow> string list \<Rightarrow> closeout_error option" where
  "require_selected_reference acceptance validated paths =
     (case find (\<lambda>k. map_of acceptance k \<noteq> None \<and> get acceptance k \<noteq> get validated k) REFERENCE_KEYS of
        Some k \<Rightarrow> Some (ReferenceChanged k)
      | None \<Rightarrow>
          if has_str validated ''coverage'' ''task'' \<and>
             (get validated ''scope'' \<noteq> JList (map JStr (sort (remdups paths))) \<or> get acceptance ''scope'' \<noteq> get validated ''scope'')
          then Some ScopeDiffers else None)"

definition EVIDENCE_KEYS :: "string list" where
  "EVIDENCE_KEYS = [''acceptance_id'', ''acceptance_artifact'', ''coverage'', ''outcome'']"

definition selected_source :: "dict \<Rightarrow> string option \<Rightarrow> string option" where
  "selected_source acceptance source_sha =
     (case get acceptance ''source_commit'' of
        JStr source \<Rightarrow>
          if has_str acceptance ''state'' ''success'' \<and> is_oid source \<and> (source_sha = None \<or> source_sha = Some source)
          then Some source else None
      | _ \<Rightarrow> None)"

definition completion_evidence :: "dict \<Rightarrow> string option \<Rightarrow> bool \<Rightarrow> bool \<Rightarrow> dict" where
  "completion_evidence acceptance source_sha retained record_only =
     (if record_only then [(''evidence_basis'', JStr ''not_applicable''), (''source_commit'', JStr ''not_applicable'')]
      else let selected = selected_source acceptance source_sha;
               basis = (if retained then ''retained'' else if selected \<noteq> None then ''validated'' else ''unknown'');
               result = [(''evidence_basis'', JStr basis),
                         (''source_commit'', JStr (case selected of Some source \<Rightarrow> source | None \<Rightarrow> ''unknown''))]
           in if selected = None then result
              else fold (\<lambda>k d. case get acceptance k of JStr v \<Rightarrow> if v \<noteq> [] then jput k (JStr v) d else d | _ \<Rightarrow> d) EVIDENCE_KEYS result)"

section \<open>Requests\<close>

record closeout_request =
  cr_task_id :: string
  cr_project :: string
  cr_source_sha :: string
  cr_message :: "string option"
  cr_paths :: "string list"
  cr_worker :: "string option"
  cr_claimed_at :: "int option"
  cr_acceptance :: "dict option"
  cr_verification :: "dict option"

definition LOCAL_KIND :: string where
  "LOCAL_KIND = ''local_closeout.v1''"

definition unresolved_closeout :: "dict \<Rightarrow> bool" where
  "unresolved_closeout c \<longleftrightarrow> has_str c ''kind'' LOCAL_KIND \<and> list_ex (has_str c ''state'') [''pending'', ''blocked'']"

definition same_claim :: "closeout_env \<Rightarrow> closeout_request \<Rightarrow> task \<Rightarrow> (closeout_error, bool) result" where
  "same_claim e r t =
     (if cr_worker r = None \<or> cr_worker r = Some [] \<or> cr_worker r \<noteq> Some (cx_caller e) \<or> cr_claimed_at r = None \<or>
         t_status t \<noteq> ''running'' \<or> t_claimed_by t \<noteq> cr_worker r then return False
      else case t_claimed_at t of
             None \<Rightarrow> raise (MissingField ''claimed_at'')
           | Some c \<Rightarrow> return (cr_claimed_at r = Some c))"

definition new_intent :: "closeout_env \<Rightarrow> string \<Rightarrow> string \<Rightarrow> closeout_request \<Rightarrow> dict \<Rightarrow> dict" where
  "new_intent e fresh at_iso r previous =
     (let message = (case cr_message r of Some m \<Rightarrow> if m \<noteq> [] then m else cx_title e (cr_task_id r) | None \<Rightarrow> cx_title e (cr_task_id r));
          intent = jmerge []
            [(''kind'', JStr LOCAL_KIND), (''request_id'', JStr fresh), (''state'', JStr ''pending''),
             (''source_sha'', JStr (cr_source_sha r)), (''project_id'', JStr (cr_project r)), (''task_id'', JStr (cr_task_id r)),
             (''message'', JStr message), (''paths'', JList (map JStr (cr_paths r))), (''requested_at'', JStr at_iso),
             (''local_gates'', JStr ''canonical_done_prerequisites_satisfied'')]
      in if previous \<noteq> [] then jput ''previous_closeout'' (JObj previous) intent else intent)"

text \<open>What the checks before the transaction decide: an error, an earlier request to answer, or what to store.\<close>

definition request_decision ::
  "closeout_env \<Rightarrow> string \<Rightarrow> string \<Rightarrow> closeout_request \<Rightarrow> task option \<Rightarrow> (closeout_error, dict + dict \<times> dict) result" where
  "request_decision e fresh at_iso r row =
     (case row of
        None \<Rightarrow> raise TaskMismatch
      | Some t \<Rightarrow>
          let acceptance = get_dict (vr t) ''acceptance''; previous = get_dict (vr t) ''closeout'' in
          if t_project_id t \<noteq> cr_project r then raise TaskMismatch
          else if t_status t \<notin> set [''running'', ''pending'', ''completed''] then raise NotActive
          else if \<not> has_str acceptance ''state'' ''success'' \<or> \<not> has_str acceptance ''source_commit'' (cr_source_sha r)
          then raise NotAccepted
          else if unresolved_closeout previous
          then (case map_of previous ''source_sha'' of
                  None \<Rightarrow> raise (MissingField ''source_sha'')
                | Some sha \<Rightarrow> if sha \<noteq> JStr (cr_source_sha r) then raise EarlierUnresolved else return (Inl previous))
          else (case same_claim e r t of
                  Inl err \<Rightarrow> raise err
                | Inr same \<Rightarrow>
                    if \<not> same then raise NotSameClaim
                    else if cr_acceptance r \<noteq> Some acceptance then raise AcceptanceChanged
                    else return (Inr (previous, new_intent e fresh at_iso r previous))))"

definition request_guard :: "closeout_request \<Rightarrow> dict \<Rightarrow> closeout_guard" where
  "request_guard r previous =
     \<lparr>g_request_id = None, g_closeout = Some previous, g_source_sha = Some (cr_source_sha r), g_worker = cr_worker r,
      g_claimed_at = cr_claimed_at r, g_acceptance = cr_acceptance r,
      g_verification = (case cr_verification r of Some v \<Rightarrow> v | None \<Rightarrow> [])\<rparr>"

definition request_closeout ::
  "closeout_env \<Rightarrow> (nat \<Rightarrow> store \<Rightarrow> store) \<Rightarrow> int \<Rightarrow> string \<Rightarrow> string \<Rightarrow> bool \<Rightarrow> closeout_request \<Rightarrow> closing \<Rightarrow>
     (closeout_error, dict) result \<times> closing" where
  "request_closeout e others now fresh at_iso acquired r s =
     (if \<not> is_oid (cr_source_sha r) then (raise NotFullCommit, s)
      else if \<not> acquired then (return (outcome ''pending'' (cr_task_id r) ''closeout_in_progress''), s)
      else case request_decision e fresh at_iso r (get_task (cr_task_id r) s) of
             Inl err \<Rightarrow> (raise err, s)
           | Inr (Inl previous) \<Rightarrow> (return previous, s)
           | Inr (Inr (previous, intent)) \<Rightarrow>
               let s1 = act others 0 s in
               (case store_closeout now (cr_task_id r) (cr_project r) intent (request_guard r previous) (cs_store s1) of
                  (Inl err, tables) \<Rightarrow> (raise (StoreRaised err), commit (cr_task_id r) tables s1)
                | (Inr stored, tables) \<Rightarrow>
                    if \<not> stored
                    then (return (outcome ''skipped'' (cr_task_id r) ''completion_request_superseded''), commit (cr_task_id r) tables s1)
                    else (return intent,
                          log_event (cr_task_id r)
                            (''Local completion requested for '' @ cr_source_sha r @ ''; cleanup is recoverable.'')
                            (commit (cr_task_id r) tables s1))))"

definition get_closeout :: "string \<Rightarrow> closing \<Rightarrow> json option" where
  "get_closeout task_id s = (case get_task task_id s of None \<Rightarrow> None | Some t \<Rightarrow> map_of (vr t) ''closeout'')"

definition pending_closeouts :: "closing \<Rightarrow> (closeout_error, (string \<times> json) list) result" where
  "pending_closeouts s =
     fold (\<lambda>i acc. case acc of
          Inl err \<Rightarrow> raise err
        | Inr found \<Rightarrow>
            (case get_closeout i s of
               Some (JObj d) \<Rightarrow>
                 (if d = [] then return found
                  else case map_of d ''project_id'' of None \<Rightarrow> raise (MissingField ''project_id'') | Some p \<Rightarrow> return (found @ [(i, p)]))
             | _ \<Rightarrow> return found)) (pending_closeout_ids (cs_store s)) (return [])"

section \<open>Readiness\<close>

text \<open>
  The plan fields that the row's context carries are put on the task before it is assessed.
  \<open>syncable_subtasks_skipped\<close> is no column and no plan field, so every subtask that has not passed counts.
\<close>

definition plan_value :: "dict \<Rightarrow> string \<Rightarrow> json" where
  "plan_value c f = (let v = get c f in if v \<in> {JStr [], JList [], JObj []} then JNull else v)"

definition hydrate_completion_task :: "string \<Rightarrow> task \<Rightarrow> store \<Rightarrow> evidence_task" where
  "hydrate_completion_task i t tables =
     (let ev = evidence_of i t tables
      in ev\<lparr>ev_requirements := plan_value (ev_context ev) ''completion_requirements'',
            ev_files_to_modify := plan_value (ev_context ev) ''files_to_modify'',
            ev_files_to_create := plan_value (ev_context ev) ''files_to_create''\<rparr>)"

definition load_completion_assessment ::
  "native_service \<Rightarrow> string \<Rightarrow> store \<Rightarrow> (closeout_error, string list \<times> assessment) result" where
  "load_completion_assessment ns task_id tables =
     (case find_task task_id tables of
        None \<Rightarrow> raise TaskGone
      | Some (i, t) \<Rightarrow>
          return (map (\<lambda>(_, sub, _). sub) (filter (\<lambda>(tid, _, passes). tid = canonicalize_task_id i \<and> \<not> passes) (subtasks tables)),
                  assess_completion ns (hydrate_completion_task i t tables)))"

section \<open>Resuming\<close>

definition closeout_expectation :: "string \<Rightarrow> expectations" where
  "closeout_expectation request_id =
     \<lparr>x_request_id = Some request_id, x_worker = None, x_claimed_at = None, x_project_id = None\<rparr>"

text \<open>The block that validates and completes a task that is not completed yet.\<close>

definition complete_task ::
  "closeout_env \<Rightarrow> (nat \<Rightarrow> store \<Rightarrow> store) \<Rightarrow> int \<Rightarrow> string \<Rightarrow> string \<Rightarrow> string \<Rightarrow> string \<Rightarrow> string list \<Rightarrow> task \<Rightarrow> closing \<Rightarrow>
     (closeout_error, unit) result \<times> closing" where
  "complete_task e others now task_id root request_id sha paths t s =
     (let acceptance = get_dict (vr t) ''acceptance'' in
      if t_status t = ''completed'' then (return (), s)
      else case cx_validate_source e root acceptance sha of
             Inl m \<Rightarrow> (raise (AdapterRaised m), s)
           | Inr validated \<Rightarrow>
               (case require_selected_reference acceptance validated paths of
                  Some err \<Rightarrow> (raise err, s)
                | None \<Rightarrow>
                    (case cx_require_owned e root sha paths t of
                       Some m \<Rightarrow> (raise (AdapterRaised m), s)
                     | None \<Rightarrow>
                         let s1 = act others 0 s in
                         (case load_completion_assessment (cx_service e) task_id (cs_store s1) of
                            Inl err \<Rightarrow> (raise err, s1)
                          | Inr (incomplete, a) \<Rightarrow>
                              if incomplete \<noteq> [] \<or> as_gates a \<noteq> [] then (raise (NotReady (take 5 incomplete) (as_gates a)), s1)
                              else let s2 = act others 1 s1 in
                                   (case update_task_status (cx_service e) now task_id ''completed'' None False
                                           (closeout_expectation request_id) (cs_store s2) of
                                      (Inl err, tables) \<Rightarrow> (raise (StoreRaised err), commit task_id tables s2)
                                    | (Inr _, tables) \<Rightarrow> (return (), commit task_id tables s2))))))"

text \<open>\<open>finish_closeout_cleanup\<close> with the adapter's cleanup as its callback: it was called unless the answer is \<open>False\<close>.\<close>

definition run_cleanup ::
  "closeout_env \<Rightarrow> int \<Rightarrow> string \<Rightarrow> string \<Rightarrow> string \<Rightarrow> string \<Rightarrow> string \<Rightarrow> string \<Rightarrow> closing \<Rightarrow> (closeout_error, bool) result \<times> closing" where
  "run_cleanup e now at_iso task_id project root request_id sha s =
     (case cx_cleanup e task_id project root of
        fault \<Rightarrow>
          (case finish_closeout_cleanup now at_iso task_id project request_id sha (fault = None) (cs_store s) of
             (answer, tables) \<Rightarrow>
               let called = (answer \<noteq> return False);
                   call = \<lparr>cc_task = task_id, cc_project = project, cc_root = root, cc_tables = cs_store s\<rparr>
               in ((case answer of
                      Inr b \<Rightarrow> return b
                    | Inl CleanupRaised \<Rightarrow> raise (AdapterRaised (case fault of Some m \<Rightarrow> m | None \<Rightarrow> []))
                    | Inl err \<Rightarrow> raise (StoreRaised err)),
                   (commit task_id tables s)\<lparr>cs_cleanups := cs_cleanups s @ (if called then [call] else [])\<rparr>)))"

definition recover ::
  "closeout_env \<Rightarrow> (nat \<Rightarrow> store \<Rightarrow> store) \<Rightarrow> int \<Rightarrow> string \<Rightarrow> string \<Rightarrow> string \<Rightarrow> task \<Rightarrow> dict \<Rightarrow> closing \<Rightarrow>
     (closeout_error, dict) result \<times> closing" where
  "recover e others now at_iso task_id request_id t intent s =
     (let project = t_project_id t; acceptance = get_dict (vr t) ''acceptance''; paths = strings_of (get_list intent ''paths'') in
      case cx_root e project of
        None \<Rightarrow> (raise ProjectChanged, s)
      | Some root \<Rightarrow>
          if root = [] then (raise ProjectChanged, s)
          else (case field intent ''project_id'' of
                  Inl err \<Rightarrow> (raise err, s)
                | Inr p \<Rightarrow>
                    if p \<noteq> project then (raise ProjectChanged, s)
                    else if \<not> has_str acceptance ''state'' ''success'' then (raise SourceChanged, s)
                    else (case field intent ''source_sha'' of
                            Inl err \<Rightarrow> (raise err, s)
                          | Inr sha \<Rightarrow>
                              if \<not> has_str acceptance ''source_commit'' sha then (raise SourceChanged, s)
                              else (case cx_source_lock e root of
                                      Some m \<Rightarrow> (raise (AdapterRaised m), s)
                                    | None \<Rightarrow>
                                        (case complete_task e others now task_id root request_id sha paths t s of
                                           (Inl err, s1) \<Rightarrow> (raise err, s1)
                                         | (Inr _, s1) \<Rightarrow>
                                             (case run_cleanup e now at_iso task_id project root request_id sha (act others 2 s1) of
                                                (Inl err, s2) \<Rightarrow> (raise err, s2)
                                              | (Inr done, s2) \<Rightarrow>
                                                  if \<not> done then (return (outcome ''skipped'' task_id ''completion_request_superseded''), s2)
                                                  else (return (jmerge
                                                          [(''action'', JStr ''completed''), (''base_branch'', JStr (cx_base_branch e task_id)),
                                                           (''project_id'', JStr project), (''published'', JBool False),
                                                           (''snapshot_removed'', JBool True), (''task_id'', JStr task_id)]
                                                          (completion_evidence acceptance (Some sha) (t_status t = ''completed'') False)),
                                                        log_event task_id
                                                          ''Local closeout cleanup completed from retained source-bound acceptance.'' s2)))))))"

text \<open>The answers before the recoverable block.\<close>

definition resume_answer :: "closeout_env \<Rightarrow> bool \<Rightarrow> string \<Rightarrow> task \<Rightarrow> dict \<Rightarrow> (closeout_error, dict option) result" where
  "resume_answer e explicit task_id t intent =
     (if \<not> has_str intent ''kind'' LOCAL_KIND
      then return (Some (outcome ''skipped'' task_id
             (if has_str intent ''kind'' ''lifecycle_closeout_history.v1'' then ''historical_closeout_inactive'' else ''legacy_remote_closeout_retired'')))
      else if t_status t \<notin> set [''pending'', ''running'', ''completed'']
      then return (Some (outcome ''skipped'' task_id ''task_not_active''))
      else case map_of intent ''state'' of
             None \<Rightarrow> raise (MissingField ''state'')
           | Some state \<Rightarrow>
               if state = JStr ''complete''
               then (if t_status t \<noteq> ''completed'' then return (Some (outcome ''skipped'' task_id ''completed_request_no_longer_current''))
                     else (case field intent ''source_sha'' of
                             Inl err \<Rightarrow> raise err
                           | Inr sha \<Rightarrow>
                               return (Some (jmerge
                                 [(''action'', JStr ''completed''), (''base_branch'', JStr (cx_base_branch e task_id)),
                                  (''published'', JBool False), (''snapshot_removed'', JBool True), (''task_id'', JStr task_id)]
                                 (completion_evidence (get_dict (vr t) ''acceptance'') (Some sha) True False)))))
               else if state = JStr ''blocked'' \<and> \<not> explicit
               then return (Some [(''action'', JStr ''blocked''), (''reason'', get intent ''reason''), (''task_id'', JStr task_id)])
               else return None)"

definition block_closeout ::
  "closeout_env \<Rightarrow> int \<Rightarrow> string \<Rightarrow> string \<Rightarrow> string \<Rightarrow> string \<Rightarrow> dict \<Rightarrow> closeout_error \<Rightarrow> closing \<Rightarrow> dict \<times> closing" where
  "block_closeout e now at_iso task_id project request_id intent err s =
     (let blocked = jmerge intent [(''state'', JStr ''blocked''), (''reason'', JStr (cx_text e err)), (''observed_at'', JStr at_iso)];
          guard = \<lparr>g_request_id = Some request_id, g_closeout = None, g_source_sha = None, g_worker = None, g_claimed_at = None,
                   g_acceptance = None, g_verification = []\<rparr>
      in case store_closeout now task_id project blocked guard (cs_store s) of
           (answer, tables) \<Rightarrow>
             if answer \<noteq> return True then (outcome ''skipped'' task_id ''completion_request_superseded'', commit task_id tables s)
             else ([(''action'', JStr ''blocked''), (''project_id'', JStr project), (''reason'', JStr (cx_text e err)), (''task_id'', JStr task_id)],
                   if has_str intent ''state'' ''blocked'' then commit task_id tables s
                   else log_event task_id (''Local closeout needs attention: '' @ cx_text e err) (commit task_id tables s)))"

definition resume_closeout ::
  "closeout_env \<Rightarrow> (nat \<Rightarrow> store \<Rightarrow> store) \<Rightarrow> int \<Rightarrow> string \<Rightarrow> bool \<Rightarrow> bool \<Rightarrow> string \<Rightarrow> closing \<Rightarrow>
     (closeout_error, dict) result \<times> closing" where
  "resume_closeout e others now at_iso acquired explicit task_id s =
     (if \<not> acquired then (return (outcome ''pending'' task_id ''closeout_in_progress''), s)
      else case get_task task_id s of
             None \<Rightarrow> (return (outcome ''skipped'' task_id ''no_completion_request''), s)
           | Some t \<Rightarrow>
               let intent = get_dict (vr t) ''closeout'' in
               if intent = [] then (return (outcome ''skipped'' task_id ''no_completion_request''), s)
               else (case resume_answer e explicit task_id t intent of
                       Inl err \<Rightarrow> (raise err, s)
                     | Inr (Some answer) \<Rightarrow> (return answer, s)
                     | Inr None \<Rightarrow>
                         (case map_of intent ''request_id'' of
                            None \<Rightarrow> (raise (MissingField ''request_id''), s)
                          | Some rid \<Rightarrow>
                              (case recover e others now at_iso task_id (json_str rid) t intent s of
                                 (Inr answer, s1) \<Rightarrow> (return answer, s1)
                               | (Inl err, s1) \<Rightarrow>
                                   (case block_closeout e now at_iso task_id (t_project_id t) (json_str rid) intent err (act others 3 s1) of
                                      (answer, s2) \<Rightarrow> (return answer, s2))))))"

definition checkpoint_state :: "string \<Rightarrow> dict \<Rightarrow> string \<times> json" where
  "checkpoint_state st verification =
     (let closeout = get_dict verification ''closeout'' in
      if st = ''completed''
      then (if unresolved_closeout closeout then (''cleanup_pending'', JStr ''Completed locally; checkpoint cleanup remains recoverable'')
            else (''complete'', JStr ''Completed locally; publication is independent''))
      else if has_str closeout ''kind'' LOCAL_KIND \<and> has_str closeout ''state'' ''blocked''
      then (''blocked'', if truth (get closeout ''reason'') then get closeout ''reason'' else JStr ''Local closeout needs attention'')
      else (if st = ''running'' then ''claimed'' else ''open'',
            JStr ''Open task checkpoint; this does not establish a live agent session''))"

end
