(* ===== verification/CloseoutFacts.thy ===== *)
theory CloseoutFacts
  imports TaskCloseout
begin

text \<open>
  Local completion under interference: what the operations of TaskCloseout write whatever other
  processes do to the tables between their transactions, when a cleanup runs, that a superseded
  request leaves no trace, and that an undisturbed one is carried through exactly once.
\<close>

abbreviation undisturbed :: "nat \<Rightarrow> store \<Rightarrow> store" where
  "undisturbed \<equiv> \<lambda>_ tables. tables"

section \<open>Transactions of closeout\<close>

text \<open>The only two changes of a task: its closeout entry, or its completion with all gates passed.\<close>

definition closeout_entry :: "task \<Rightarrow> task \<Rightarrow> bool" where
  "closeout_entry t t' \<longleftrightarrow>
     (\<exists>c now. t' = t\<lparr>t_verification := Some (jmerge (vr t) [(''closeout'', JObj c)]), t_updated_at := now\<rparr>)"

definition gated_completion :: "native_service \<Rightarrow> string \<Rightarrow> store \<Rightarrow> task \<Rightarrow> task \<Rightarrow> bool" where
  "gated_completion ns i tables t t' \<longleftrightarrow>
     (\<exists>now request_id. t' = apply_status now ''completed'' None t \<and> closeout_current request_id ''completed'' t \<and>
        completion_gates ns (evidence_of i t tables) = [])"

definition closeout_write :: "native_service \<Rightarrow> string \<times> store \<times> store \<Rightarrow> bool" where
  "closeout_write ns w =
     (case w of (i, before, after) \<Rightarrow>
        after = before \<or>
        (\<exists>t t'. map_of (tasks before) i = Some t \<and> after = set_task i t' before \<and>
           (closeout_entry t t' \<or> gated_completion ns i before t t')))"

text \<open>A cleanup runs on a completed task, for the source its request and its successful acceptance name.\<close>

definition cleanup_justified :: "cleanup_call \<Rightarrow> bool" where
  "cleanup_justified c \<longleftrightarrow>
     (\<exists>t request_id sha. map_of (tasks (cc_tables c)) (canonicalize_task_id (cc_task c)) = Some t \<and>
        t_project_id t = cc_project c \<and> closeout_finished request_id sha t)"

definition sound_log :: "native_service \<Rightarrow> closing \<Rightarrow> bool" where
  "sound_log ns s \<longleftrightarrow> list_all (closeout_write ns) (cs_writes s) \<and> list_all cleanup_justified (cs_cleanups s)"

lemma sound_log_simps [simp]:
  "sound_log ns (act others n s) = sound_log ns s"
  "sound_log ns (log_event i m s) = sound_log ns s"
  "sound_log ns (commit i tables s) \<longleftrightarrow> sound_log ns s \<and> closeout_write ns (canonicalize_task_id i, cs_store s, tables)"
  "sound_log ns (s\<lparr>cs_store := tables\<rparr>) = sound_log ns s"
  by (auto simp: sound_log_def act_def log_event_def commit_def)

lemma store_closeout_write:
  assumes "store_closeout now task_id project c g tables = (r, tables')"
  shows "closeout_write ns (canonicalize_task_id task_id, tables, tables')"
proof (cases "tables' = tables")
  case False
  have "r = Inr True" using assms False
    by (auto simp: store_closeout_def update_evidence_def split: if_splits option.splits)
  with assms store_closeout_True [OF _ refl] show ?thesis
    unfolding closeout_write_def closeout_entry_def by blast
qed (simp add: closeout_write_def)

lemma completion_write:
  assumes "update_task_status ns now task_id ''completed'' None False (closeout_expectation request_id) tables = (r, tables')"
  shows "closeout_write ns (canonicalize_task_id task_id, tables, tables')"
proof (cases "tables' = tables")
  case False
  let ?i = "canonicalize_task_id task_id"
  have no: "first_some id [check_owner now ?i ''completed'' (closeout_expectation request_id) tables, check_cancel ?i ''completed'' tables,
      check_gates ns ?i ''completed'' tables, check_closeout ?i ''completed'' (closeout_expectation request_id) tables] = None"
    using assms False by (auto simp: update_task_status_def execute_status_update_def Let_def split: if_splits option.splits)
  then have g: "check_gates ns ?i ''completed'' tables = None"
    and c: "check_closeout ?i ''completed'' (closeout_expectation request_id) tables = None"
    by (auto split: option.splits)
  obtain t where t: "map_of (tasks tables) ?i = Some t" "tables' = set_task ?i (apply_status now ''completed'' None t) tables"
    using assms False no by (auto simp: update_task_status_def execute_status_update_def Let_def split: if_splits option.splits)
  have "completion_gates ns (evidence_of ?i t tables) = []" using g t(1) by (simp add: check_gates_def Let_def split: if_splits)
  moreover have "closeout_current request_id ''completed'' t"
    using c t(1) by (simp add: check_closeout_def closeout_expectation_def split: if_splits)
  ultimately show ?thesis using t unfolding closeout_write_def gated_completion_def by blast
qed (simp add: closeout_write_def)

lemma finish_write:
  assumes "finish_closeout_cleanup now at_iso task_id project request_id sha ok tables = (r, tables')"
  shows "closeout_write ns (canonicalize_task_id task_id, tables, tables')"
proof (cases "map_of (tasks tables) (canonicalize_task_id task_id)")
  case None
  with assms show ?thesis by (simp add: finish_closeout_cleanup_def closeout_write_def)
next
  case (Some t)
  with assms show ?thesis
    by (cases "t_project_id t = project \<and> closeout_finished request_id sha t"; cases ok)
      (auto simp: finish_closeout_cleanup_def closeout_write_def closeout_entry_def Let_def)
qed

lemma finish_called:
  assumes "finish_closeout_cleanup now at_iso task_id project request_id sha ok tables = (r, tables')" and "r \<noteq> Inr False"
  shows "\<exists>t. map_of (tasks tables) (canonicalize_task_id task_id) = Some t \<and> t_project_id t = project \<and>
    closeout_finished request_id sha t"
  using assms by (auto simp: finish_closeout_cleanup_def Let_def split: option.splits if_splits)

section \<open>The operations keep the log sound\<close>

lemma run_cleanup_sound:
  assumes "run_cleanup e now at_iso task_id project root request_id sha s = (r, s')" and "sound_log ns s"
  shows "sound_log ns s'"
proof -
  obtain a tables where f: "finish_closeout_cleanup now at_iso task_id project request_id sha
      (cx_cleanup e task_id project root = None) (cs_store s) = (a, tables)" by (rule prod.exhaust)
  have s': "s' = (commit task_id tables s)\<lparr>cs_cleanups := cs_cleanups s @
      (if a \<noteq> Inr False then [\<lparr>cc_task = task_id, cc_project = project, cc_root = root, cc_tables = cs_store s\<rparr>] else [])\<rparr>"
    using assms(1) by (simp add: run_cleanup_def f Let_def)
  have "closeout_write ns (canonicalize_task_id task_id, cs_store s, tables)" using finish_write [OF f] .
  moreover have "a \<noteq> Inr False \<Longrightarrow>
      cleanup_justified \<lparr>cc_task = task_id, cc_project = project, cc_root = root, cc_tables = cs_store s\<rparr>"
    using finish_called [OF f] by (auto simp: cleanup_justified_def)
  ultimately show ?thesis using assms(2) by (auto simp: s' sound_log_def commit_def)
qed

lemma complete_task_sound:
  assumes "complete_task e others now task_id root request_id sha paths t s = (r, s')" and "sound_log (cx_service e) s"
  shows "sound_log (cx_service e) s'"
  using assms completion_write
  by (auto simp: complete_task_def Let_def split: if_split_asm sum.split_asm option.split_asm prod.split_asm)

lemma recover_sound:
  assumes "recover e others now at_iso task_id request_id t intent s = (r, s')" and "sound_log (cx_service e) s"
  shows "sound_log (cx_service e) s'"
proof -
  have step: "sound_log (cx_service e) s2"
    if "complete_task e others now task_id root request_id sha paths t s = (Inr u, s1)"
      and "run_cleanup e now at_iso task_id (t_project_id t) root request_id sha (act others 2 s1) = (b, s2)" for root sha paths u s1 b s2
    using run_cleanup_sound [OF that(2)] complete_task_sound [OF that(1) assms(2)] by simp
  show ?thesis
    using assms complete_task_sound [OF _ assms(2)] step
    by (auto simp: recover_def Let_def split: if_split_asm sum.split_asm option.split_asm prod.split_asm)
qed

lemma block_closeout_sound:
  assumes "block_closeout e now at_iso task_id project request_id intent err s = (r, s')" and "sound_log ns s"
  shows "sound_log ns s'"
  using assms store_closeout_write
  by (auto simp: block_closeout_def Let_def split: if_split_asm prod.split_asm)

lemma resume_closeout_sound:
  assumes "sound_log (cx_service e) s"
  shows "sound_log (cx_service e) (snd (resume_closeout e others now at_iso acquired explicit task_id s))"
proof -
  have blocked: "sound_log (cx_service e) s2"
    if "recover e others now at_iso task_id rid t intent s = (Inl err, s1)"
      and "block_closeout e now at_iso task_id p rid intent err (act others 3 s1) = (a, s2)" for rid t intent err s1 p a s2
    using block_closeout_sound [OF that(2)] recover_sound [OF that(1) assms] by simp
  show ?thesis
    using assms recover_sound [OF _ assms] blocked
    by (auto simp: resume_closeout_def Let_def split: sum.split option.split prod.split)
qed

lemma request_closeout_sound:
  assumes "sound_log ns s"
  shows "sound_log ns (snd (request_closeout e others now fresh at_iso acquired r s))"
proof -
  have "sound_log ns (commit (cr_task_id r) tables (act others 0 s))"
    if "store_closeout now (cr_task_id r) (cr_project r) intent g (cs_store (act others 0 s)) = (a, tables)" for intent g a tables
    using store_closeout_write [OF that] assms by simp
  with assms show ?thesis
    by (auto simp: request_closeout_def Let_def split: sum.split prod.split)
qed

inductive closeout_history :: "native_service \<Rightarrow> closing \<Rightarrow> bool" for ns where
  start: "closeout_history ns \<lparr>cs_store = tables, cs_cleanups = [], cs_events = [], cs_writes = []\<rparr>"
| request: "closeout_history ns s \<Longrightarrow>
    closeout_history ns (snd (request_closeout e others now fresh at_iso acquired r s))"
| resume: "closeout_history ns s \<Longrightarrow> cx_service e = ns \<Longrightarrow>
    closeout_history ns (snd (resume_closeout e others now at_iso acquired explicit task_id s))"
| elsewhere: "closeout_history ns s \<Longrightarrow> closeout_history ns (s\<lparr>cs_store := tables\<rparr>)"

text \<open>
  C6: Requests and resumptions of local completion, in any order, with other processes changing the
  tables as they like between any two transactions: each of their transactions changes one task, and
  either replaces nothing but its closeout entry or completes it at a moment when every gate is
  passed and its local request matches its successful acceptance; and a checkpoint is cleaned up only
  while its task is completed on the source that request and acceptance name.
\<close>

theorem closeout_writes_are_gated:
  assumes "closeout_history ns s"
  shows "(\<forall>w\<in>set (cs_writes s). closeout_write ns w) \<and> (\<forall>c\<in>set (cs_cleanups s). cleanup_justified c)"
proof -
  have "sound_log ns s"
    using assms
  proof induction
    case (resume s e others now at_iso acquired explicit task_id)
    then show ?case using resume_closeout_sound [of e s] by simp
  qed (simp_all add: request_closeout_sound, simp add: sound_log_def)
  then show ?thesis by (simp add: sound_log_def list_all_iff)
qed

text \<open>A task claimed and accepted, and its state after its owner's request.\<close>

definition sample_closeout_env :: closeout_env where
  "sample_closeout_env =
     \<lparr>cx_service = sample_service, cx_caller = ''w1'', cx_source_lock = (\<lambda>_. None), cx_validate_source = (\<lambda>_ a _. Inr a),
      cx_require_owned = (\<lambda>_ _ _ _. None), cx_cleanup = (\<lambda>_ _ _. None), cx_root = (\<lambda>_. Some ''/srv/sf''), cx_title = (\<lambda>_. ''T''),
      cx_base_branch = (\<lambda>_. ''main''), cx_text = (\<lambda>_. ''error'')\<rparr>"

definition sample_request :: closeout_request where
  "sample_request =
     \<lparr>cr_task_id = ''task-1'', cr_project = ''sf'', cr_source_sha = sample_oid, cr_message = None, cr_paths = [''a.py''],
      cr_worker = Some ''w1'', cr_claimed_at = Some 5, cr_acceptance = Some [(''source_commit'', JStr sample_oid), (''state'', JStr ''success'')],
      cr_verification = None\<rparr>"

definition sample_closing :: closing where
  "sample_closing =
     \<lparr>cs_store = \<lparr>tasks = [(''task-1'', sample_row\<lparr>t_status := ''running'', t_claimed_by := Some ''w1'', t_claimed_at := Some 5,
                        t_lock_expires_at := Some 1000\<rparr>)], subtasks = [], spirits = []\<rparr>,
      cs_cleanups = [], cs_events = [], cs_writes = []\<rparr>"

definition sample_requested :: closing where
  "sample_requested = snd (request_closeout sample_closeout_env undisturbed 6 ''r1'' ''t'' True sample_request sample_closing)"

theorem closeout_writes_are_gated_witness:
  "let s = snd (resume_closeout sample_closeout_env undisturbed 7 ''t'' True False ''task-1'' sample_requested) in
   map cc_task (cs_cleanups s) = [''task-1''] \<and> length (cs_writes s) = 3 \<and> list_all (closeout_write sample_service) (cs_writes s)"
proof -
  let ?s = "snd (resume_closeout sample_closeout_env undisturbed 7 ''t'' True False ''task-1'' sample_requested)"
  have e: "cx_service sample_closeout_env = sample_service" by (simp add: sample_closeout_env_def)
  have "closeout_history sample_service ?s"
    unfolding sample_requested_def sample_closing_def by (intro closeout_history.intros e)
  from closeout_writes_are_gated [OF this] have "list_all (closeout_write sample_service) (cs_writes ?s)" by (simp add: list_all_iff)
  moreover have "map cc_task (cs_cleanups ?s) = [''task-1'']" "length (cs_writes ?s) = 3" by code_simp+
  ultimately show ?thesis by (simp add: Let_def)
qed

section \<open>Who may request\<close>

lemma store_closeout_False:
  "store_closeout now i p c g tables = (Inr False, tables') \<Longrightarrow> tables' = tables"
  "store_closeout now i p c g tables = (Inl err, tables') \<Longrightarrow> tables' = tables"
  by (auto simp: store_closeout_def update_evidence_def split: if_split_asm option.split_asm)

lemma entry_is_get_dict: "entry_is d k (JObj c) \<Longrightarrow> get_dict d k = c"
  by (auto simp: entry_is_def get_dict_def get_def get_or_def split: option.splits)

lemma request_decision_new:
  assumes "request_decision e fresh at_iso r row = Inr (Inr (previous, intent))"
  shows "\<exists>t. row = Some t \<and> has_str (get_dict (vr t) ''acceptance'') ''state'' ''success'' \<and>
    has_str (get_dict (vr t) ''acceptance'') ''source_commit'' (cr_source_sha r) \<and> \<not> unresolved_closeout previous \<and>
    cr_worker r = Some (cx_caller e) \<and> cr_acceptance r = Some (get_dict (vr t) ''acceptance'') \<and>
    intent = new_intent e fresh at_iso r previous"
  using assms
  by (auto simp: request_decision_def Let_def same_claim_def split: if_split_asm option.split_asm sum.split_asm)


text \<open>
  C37: A new request is stored only by the holder of the exact active claim. If a call changes the
  tables, then at that moment the task was running under the caller's own unexpired claim, the one
  it named, with the acceptance it had seen, successful for the full source commit it asks for, and
  with no unresolved request; and the request is pending and replaces nothing but the closeout entry.
\<close>

theorem request_needs_exact_claim:
  assumes "request_closeout e others now fresh at_iso acquired r s = (a, s')"
    and "cs_writes s' = cs_writes s @ [(i, before, after)]" and "after \<noteq> before"
  shows "\<exists>t intent. map_of (tasks before) i = Some t \<and> a = Inr intent \<and>
    owned_claim now (cr_project r) (cx_caller e) (cr_claimed_at r) t \<and> is_oid (cr_source_sha r) \<and>
    has_str (get_dict (vr t) ''acceptance'') ''state'' ''success'' \<and>
    has_str (get_dict (vr t) ''acceptance'') ''source_commit'' (cr_source_sha r) \<and>
    cr_acceptance r = Some (get_dict (vr t) ''acceptance'') \<and> \<not> unresolved_closeout (get_dict (vr t) ''closeout'') \<and>
    has_str intent ''state'' ''pending'' \<and> has_str intent ''request_id'' fresh \<and>
    after = set_task i (t\<lparr>t_verification := Some (jmerge (vr t) [(''closeout'', JObj intent)]), t_updated_at := now\<rparr>) before"
proof -
  obtain previous intent where oid: "is_oid (cr_source_sha r)"
    and dec: "request_decision e fresh at_iso r (get_task (cr_task_id r) s) = Inr (Inr (previous, intent))"
    using assms by (auto simp: request_closeout_def split: if_split_asm sum.split_asm prod.split_asm)
  have i: "i = canonicalize_task_id (cr_task_id r)" and before: "before = cs_store (act others 0 s)"
    and store: "store_closeout now (cr_task_id r) (cr_project r) intent (request_guard r previous) before = (Inr True, after)" "a = Inr intent"
    using assms dec oid
    by (auto simp: request_closeout_def Let_def commit_def act_def log_event_def dest!: store_closeout_False
        split: if_split_asm sum.split_asm prod.split_asm)
  obtain t where t: "map_of (tasks before) i = Some t" "t_project_id t = cr_project r" "guard_holds now (request_guard r previous) t"
    and after: "after = set_task i (t\<lparr>t_verification := Some (jmerge (vr t) [(''closeout'', JObj intent)]), t_updated_at := now\<rparr>) before"
    using store_closeout_True [OF store(1) i] by blast
  obtain t0 where d: "has_str (get_dict (vr t0) ''acceptance'') ''state'' ''success''"
    "has_str (get_dict (vr t0) ''acceptance'') ''source_commit'' (cr_source_sha r)" "\<not> unresolved_closeout previous"
    "cr_worker r = Some (cx_caller e)" "cr_acceptance r = Some (get_dict (vr t0) ''acceptance'')"
    "intent = new_intent e fresh at_iso r previous"
    using request_decision_new [OF dec] by blast
  have c: "get_dict (vr t) ''closeout'' = previous" "get_dict (vr t) ''acceptance'' = get_dict (vr t0) ''acceptance''"
    "owned_claim now (cr_project r) (cx_caller e) (cr_claimed_at r) t"
    using t(2,3) d(4,5) by (simp_all add: guard_holds_def request_guard_def entry_is_get_dict)
  have n: "has_str intent ''state'' ''pending''" "has_str intent ''request_id'' fresh"
    by (simp_all add: d(6) new_intent_def Let_def has_str_def jmerge_def)
  show ?thesis using t(1) store(2) c d oid n after by auto
qed

theorem request_needs_exact_claim_witness:
  "\<exists>before after t. cs_writes sample_requested = [(''task-1'', before, after)] \<and> map_of (tasks before) ''task-1'' = Some t \<and>
     owned_claim 6 ''sf'' ''w1'' (Some 5) t"
proof -
  let ?r = "request_closeout sample_closeout_env undisturbed 6 ''r1'' ''t'' True sample_request sample_closing"
  let ?times = "\<lambda>tables. map (t_updated_at \<circ> snd) (tasks tables)"
  have "map fst (cs_writes (snd ?r)) = [''task-1'']" "map (\<lambda>(_, a, b). (?times a, ?times b)) (cs_writes (snd ?r)) = [([0], [6])]"
    "cs_writes sample_closing = []" by code_simp+
  then obtain a b where w: "cs_writes (snd ?r) = cs_writes sample_closing @ [(''task-1'', a, b)]" "?times a = [0]" "?times b = [6]"
    by (cases "cs_writes (snd ?r)") auto
  then have ne: "b \<noteq> a" by auto
  have p: "cr_project sample_request = ''sf''" "cx_caller sample_closeout_env = ''w1''" "cr_claimed_at sample_request = Some 5"
    by (simp_all add: sample_request_def sample_closeout_env_def)
  from request_needs_exact_claim [OF surjective_pairing w(1) ne] w(1) show ?thesis
    by (auto simp: p sample_requested_def sample_closing_def)
qed

section \<open>Superseded requests\<close>

text \<open>The tables in which the task's request is no longer the given one, and what they make of the operations.\<close>

definition superseded :: "string \<Rightarrow> string \<Rightarrow> store \<Rightarrow> bool" where
  "superseded i request_id tables \<longleftrightarrow>
     (\<forall>t. map_of (tasks tables) i = Some t \<longrightarrow> jtext (sub_dict (vr t) ''closeout'') ''request_id'' \<noteq> Some request_id)"

lemma has_request_jtext: "has_str (get_dict d k) ''request_id'' r \<Longrightarrow> jtext (sub_dict d k) ''request_id'' = Some r"
  by (auto simp: has_str_def jtext_def sub_dict_def get_dict_def get_def get_or_def split: option.splits json.splits)

lemma superseded_update:
  assumes "superseded (canonicalize_task_id task_id) request_id tables"
  shows "\<exists>err. update_task_status ns now task_id ''completed'' None False (closeout_expectation request_id) tables = (Inl err, tables)"
proof -
  let ?i = "canonicalize_task_id task_id" and ?x = "closeout_expectation request_id"
  have "check_closeout ?i ''completed'' ?x tables = Some Superseded"
    using assms has_request_jtext
    by (auto simp: check_closeout_def closeout_expectation_def superseded_def closeout_current_def Let_def split: option.splits)
  then have "first_some id [check_owner now ?i ''completed'' ?x tables, check_cancel ?i ''completed'' tables,
      check_gates ns ?i ''completed'' tables, check_closeout ?i ''completed'' ?x tables] \<noteq> None"
    by (intro first_some_not_None [where x = "check_closeout ?i ''completed'' ?x tables"]) simp_all
  moreover have "''completed'' \<in> set VALID_STATUSES" by code_simp
  ultimately show ?thesis by (auto simp: update_task_status_def execute_status_update_def Let_def split: option.splits)
qed

lemma superseded_finish:
  assumes "superseded (canonicalize_task_id task_id) request_id tables"
  shows "finish_closeout_cleanup now at_iso task_id project request_id sha ok tables = (Inr False, tables)"
  using assms has_request_jtext
  by (auto simp: finish_closeout_cleanup_def superseded_def closeout_finished_def Let_def split: option.splits)

lemma superseded_store:
  assumes "superseded (canonicalize_task_id task_id) request_id tables" and "g_request_id g = Some request_id" and "g_worker g = None"
  shows "store_closeout now task_id project c g tables = (Inr False, tables)"
  using assms
  by (auto simp: store_closeout_def update_evidence_def superseded_def guard_holds_def split: option.splits)

lemma commit_same [simp]: "cs_store (commit i tables s) = tables" "cs_cleanups (commit i tables s) = cs_cleanups s"
  by (simp_all add: commit_def)

text \<open>Nothing in the log of a run but transactions that changed nothing.\<close>

definition inert :: "closing \<Rightarrow> closing \<Rightarrow> bool" where
  "inert s s' \<longleftrightarrow> cs_cleanups s' = cs_cleanups s \<and> (\<exists>ws. cs_writes s' = cs_writes s @ ws \<and> list_all (\<lambda>(i, a, b). a = b) ws)"

lemma inert_simps [simp, intro]:
  "inert s s"
  "inert s (act others n s') \<longleftrightarrow> inert s s'"
  "inert s (log_event i m s') \<longleftrightarrow> inert s s'"
  by (auto simp: inert_def act_def log_event_def)

lemma inert_commit: "inert s s' \<Longrightarrow> cs_store s' = tables \<Longrightarrow> inert s (commit i tables s')"
  by (auto simp: inert_def commit_def)

lemma superseded_complete_task:
  assumes "\<And>n tables. superseded (canonicalize_task_id task_id) request_id (others n tables)"
    and "complete_task e others now task_id root request_id sha paths t s = (r, s')"
  shows "inert s s'"
proof -
  have u: "\<exists>err. update_task_status ns now task_id ''completed'' None False (closeout_expectation request_id) (cs_store (act others n s))
      = (Inl err, cs_store (act others n s))" for ns n s
    using superseded_update [OF assms(1)] by (simp add: act_def)
  have "inert s (commit task_id tables (act others 1 (act others 0 s)))"
    if "update_task_status ns now task_id ''completed'' None False (closeout_expectation request_id) (cs_store (act others 1 (act others 0 s)))
      = (a, tables)" for ns a tables
    using that u [of ns 1 "act others 0 s"] by (intro inert_commit) auto
  then show ?thesis
    using assms(2)
    by (auto simp: complete_task_def Let_def split: if_split_asm sum.split_asm option.split_asm prod.split_asm)
qed

lemma superseded_recover:
  assumes "\<And>n tables. superseded (canonicalize_task_id task_id) request_id (others n tables)"
    and "recover e others now at_iso task_id request_id t intent s = (r, s')"
  shows "inert s s'"
proof -
  have c: "run_cleanup e now at_iso task_id p root request_id sha (act others 2 s1) = (Inr False, commit task_id (cs_store (act others 2 s1)) (act others 2 s1))"
    for p root sha s1
  proof -
    have "finish_closeout_cleanup now at_iso task_id p request_id sha ok (cs_store (act others 2 s1)) = (Inr False, cs_store (act others 2 s1))" for ok
      using superseded_finish [OF assms(1)] by (simp add: act_def)
    then show ?thesis by (simp add: run_cleanup_def Let_def commit_def)
  qed
  have "inert s (commit task_id (cs_store (act others 2 s1)) (act others 2 s1))"
    if "complete_task e others now task_id root request_id sha paths t s = (a, s1)" for root sha paths a s1
    using superseded_complete_task [OF assms(1) that] by (intro inert_commit) simp_all
  then show ?thesis
    using assms(2) superseded_complete_task [OF assms(1)]
    by (auto simp: recover_def Let_def c split: if_split_asm sum.split_asm option.split_asm prod.split_asm)
qed

text \<open>
  A request that is superseded while it is being resumed has no effect. If from the resumption's
  first read on, the task's request is another one whenever the tables are looked at again, because
  the task was taken up, reopened or requested anew, then the resumption completes nothing, cleans
  nothing up and records no failure: none of its transactions changes the tables.
\<close>

theorem superseded_resume_is_inert:
  assumes "\<And>n tables. superseded (canonicalize_task_id task_id) (json_str request_id) (others n tables)"
    and "get_task task_id s = Some t" and "map_of (get_dict (vr t) ''closeout'') ''request_id'' = Some request_id"
    and "resume_closeout e others now at_iso acquired explicit task_id s = (r, s')"
  shows "inert s s'"
proof -
  have "inert s s2"
    if rec: "recover e others now at_iso task_id (json_str request_id) t intent s = (Inl err, s1)"
      and b: "block_closeout e now at_iso task_id p (json_str request_id) intent err (act others 3 s1) = (a, s2)" for intent err s1 p a s2
  proof -
    have st: "store_closeout now task_id p c g (cs_store (act others 3 s1)) = (Inr False, cs_store (act others 3 s1))"
      if "g_request_id g = Some (json_str request_id)" "g_worker g = None" for c g
      using superseded_store [OF assms(1) that] by (simp add: act_def)
    have "s2 = commit task_id (cs_store (act others 3 s1)) (act others 3 s1)"
      using b by (simp add: block_closeout_def Let_def st)
    then show ?thesis using superseded_recover [OF assms(1) rec] by (auto intro: inert_commit)
  qed
  then show ?thesis
    using assms(2-4) superseded_recover [OF assms(1)]
    by (auto simp: resume_closeout_def Let_def split: if_split_asm sum.split_asm option.split_asm prod.split_asm)
qed

definition taken_over :: "nat \<Rightarrow> store \<Rightarrow> store" where
  "taken_over n tables = tables\<lparr>tasks := []\<rparr>"

theorem superseded_resume_is_inert_witness:
  "inert sample_requested (snd (resume_closeout sample_closeout_env taken_over 7 ''t'' True False ''task-1'' sample_requested))"
proof -
  have o: "superseded i r (taken_over n tables)" for i r n tables by (simp add: superseded_def taken_over_def)
  have "map_option (\<lambda>t. map_of (get_dict (vr t) ''closeout'') ''request_id'') (get_task ''task-1'' sample_requested) = Some (Some (JStr ''r1''))"
    by code_simp
  then obtain t where t: "get_task ''task-1'' sample_requested = Some t" "map_of (get_dict (vr t) ''closeout'') ''request_id'' = Some (JStr ''r1'')"
    by auto
  show ?thesis
    by (rule superseded_resume_is_inert [OF o t, where e = sample_closeout_env and now = 7 and at_iso = "''t''" and acquired = True and explicit = False])
      (rule surjective_pairing)
qed

section \<open>An undisturbed request\<close>

lemma truth_plan_value [simp]: "truth (plan_value c f) = truth (get c f)"
  by (auto simp: plan_value_def Let_def)

lemma plan_value_truth: "truth (get c f) \<Longrightarrow> plan_value c f = get c f"
  by (auto simp: plan_value_def Let_def)

text \<open>The readiness that is checked first is the one the transaction checks again.\<close>

lemma hydrated_gates: "completion_gates ns (hydrate_completion_task i t tables) = completion_gates ns (evidence_of i t tables)"
proof -
  let ?h = "hydrate_completion_task i t tables" and ?e = "evidence_of i t tables"
  have same: "ev_id ?h = ev_id ?e" "ev_project ?h = ev_project ?e" "ev_context ?h = ev_context ?e" "ev_commits ?h = ev_commits ?e"
    "ev_verification ?h = ev_verification ?e"
    by (simp_all add: hydrate_completion_task_def Let_def)
  have dr: "declared_requirements ?h = declared_requirements ?e"
    using same by (auto simp: declared_requirements_def hydrate_completion_task_def Let_def plan_value_truth evidence_of_def)
  have ft: "from_task ?h = from_task ?e"
    using same dr by (simp add: from_task_def hydrate_completion_task_def Let_def evidence_of_def disj_ac cong: option.case_cong json.case_cong)
  have fam: "family_of ns ?h = family_of ns ?e" by (simp add: family_of_def fun_eq_iff same)
  show ?thesis unfolding completion_gates_def assess_completion_def ft same dr fam ..
qed

lemma field_Inr: "field d k = Inr v \<longleftrightarrow> has_str d k v"
  by (auto simp: field_def has_str_def split: option.splits json.splits)

lemma all_three:
  "(case (a, b, c) of (Inr x, Inr y, Some z) \<Rightarrow> P x y z | _ \<Rightarrow> False) \<Longrightarrow> \<exists>x y z. a = Inr x \<and> b = Inr y \<and> c = Some z \<and> P x y z"
  by (auto split: sum.split_asm option.split_asm)

text \<open>A local request that nothing stands against: every answer of the environment it depends on is favourable.\<close>

definition closeout_ready :: "closeout_env \<Rightarrow> string \<Rightarrow> store \<Rightarrow> bool" where
  "closeout_ready e i tables =
     (canonicalize_task_id i = i \<and>
      (case map_of (tasks tables) i of
         None \<Rightarrow> False
       | Some t \<Rightarrow>
           let intent = get_dict (vr t) ''closeout''; acceptance = get_dict (vr t) ''acceptance'';
               paths = strings_of (get_list intent ''paths'') in
           t_status t \<in> {''pending'', ''running''} \<and> has_str intent ''kind'' LOCAL_KIND \<and> has_str intent ''state'' ''pending'' \<and>
           has_str intent ''project_id'' (t_project_id t) \<and> has_str acceptance ''state'' ''success'' \<and>
           (case (field intent ''request_id'', field intent ''source_sha'', cx_root e (t_project_id t)) of
              (Inr rid, Inr sha, Some root) \<Rightarrow>
                has_str acceptance ''source_commit'' sha \<and> root \<noteq> [] \<and> cx_source_lock e root = None \<and>
                (case cx_validate_source e root acceptance sha of
                   Inr v \<Rightarrow> require_selected_reference acceptance v paths = None | Inl _ \<Rightarrow> False) \<and>
                cx_require_owned e root sha paths t = None \<and> cx_cleanup e i (t_project_id t) root = None
            | _ \<Rightarrow> False) \<and>
           completion_gates (cx_service e) (evidence_of i t tables) = [] \<and>
           list_all (\<lambda>(tid, _, passes). tid = i \<longrightarrow> passes) (subtasks tables)))"

lemma get_dict_jput [simp]: "get_dict (jput k (JObj d) v) k = d" "j \<noteq> k \<Longrightarrow> get_dict (jput k w v) j = get_dict v j"
  by (simp_all add: get_dict_def get_def get_or_def)

lemma get_dict_jmerge [simp]:
  "get_dict (jmerge v [(k, JObj d)]) k = d" "j \<noteq> k \<Longrightarrow> get_dict (jmerge v [(k, w)]) j = get_dict v j"
  by (simp_all add: jmerge_def)

lemma vr_updates [simp]: "vr (t\<lparr>t_verification := Some d\<rparr>) = d" "vr (t\<lparr>t_updated_at := n\<rparr>) = vr t"
  by (simp_all add: vr_def)

lemma load_assessment_ready:
  assumes "canonicalize_task_id i = i" "map_of (tasks tables) i = Some t"
    and "completion_gates ns (evidence_of i t tables) = []" and "list_all (\<lambda>(tid, _, passes). tid = i \<longrightarrow> passes) (subtasks tables)"
  shows "\<exists>a. load_completion_assessment ns i tables = Inr ([], a) \<and> as_gates a = []"
proof -
  have "filter (\<lambda>(tid, _, passes). tid = i \<and> \<not> passes) (subtasks tables) = []"
    using assms(4) by (auto simp: filter_empty_conv list_all_iff)
  moreover have "as_gates (assess_completion ns (hydrate_completion_task i t tables)) = []"
    using hydrated_gates [of ns i t tables] assms(3) by (simp add: completion_gates_def)
  ultimately show ?thesis using assms(1,2) by (simp add: load_completion_assessment_def find_task_def)
qed

lemma completing_update:
  assumes "canonicalize_task_id i = i" "map_of (tasks tables) i = Some t" "completion_gates ns (evidence_of i t tables) = []"
    and "closeout_current request_id ''completed'' t"
  shows "update_task_status ns now i ''completed'' None False (closeout_expectation request_id) tables =
    (Inr (Some (apply_status now ''completed'' None t)), set_task i (apply_status now ''completed'' None t) tables)"
proof -
  have "''completed'' \<in> set VALID_STATUSES" by code_simp
  then show ?thesis using assms
    by (simp add: update_task_status_def execute_status_update_def check_owner_def check_cancel_def check_gates_def
        check_closeout_def closeout_expectation_def)
qed

lemma apply_completed [simp]:
  "vr (apply_status now ''completed'' None t) = vr t" "t_status (apply_status now st None t) = st"
  "t_project_id (apply_status now st err t) = t_project_id t" "t_claimed_by (apply_status now ''completed'' None t) = None"
  by (simp_all add: apply_status_def vr_def Let_def CLOSED_STATUSES_def)

lemma act_undisturbed [simp]: "act undisturbed n s = s"
  by (simp add: act_def)

text \<open>The row a carried-through closeout leaves: completed, unclaimed, its request complete, its acceptance as it was.\<close>

definition closed_out :: "string \<Rightarrow> string \<Rightarrow> task \<Rightarrow> task \<Rightarrow> bool" where
  "closed_out request_id sha t t' \<longleftrightarrow>
     t_status t' = ''completed'' \<and> t_claimed_by t' = None \<and> t_project_id t' = t_project_id t \<and>
     has_str (get_dict (vr t') ''closeout'') ''state'' ''complete'' \<and> closeout_finished request_id sha t' \<and>
     get_dict (vr t') ''acceptance'' = get_dict (vr t) ''acceptance''"

lemma complete_and_clean:
  assumes i: "canonicalize_task_id i = i" "map_of (tasks (cs_store s)) i = Some t"
    and fin: "closeout_current rid ''completed'' t" "completion_gates (cx_service e) (evidence_of i t (cs_store s)) = []"
    and sub: "list_all (\<lambda>(tid, _, passes). tid = i \<longrightarrow> passes) (subtasks (cs_store s))"
    and sha: "has_str (get_dict (vr t) ''closeout'') ''source_sha'' sha" "has_str (get_dict (vr t) ''acceptance'') ''source_commit'' sha"
    and open': "t_status t \<noteq> ''completed''"
    and env: "cx_validate_source e root (get_dict (vr t) ''acceptance'') sha = Inr v"
      "require_selected_reference (get_dict (vr t) ''acceptance'') v paths = None" "cx_require_owned e root sha paths t = None"
      "cx_cleanup e i (t_project_id t) root = None"
  shows "\<exists>s1 s2 t' c. complete_task e undisturbed now i root rid sha paths t s = (Inr (), s1) \<and>
    run_cleanup e now at_iso i (t_project_id t) root rid sha s1 = (Inr True, s2) \<and>
    map_of (tasks (cs_store s2)) i = Some t' \<and> closed_out rid sha t t' \<and> cs_cleanups s2 = cs_cleanups s @ [c] \<and> cc_task c = i \<and> cc_root c = root"
proof -
  define t1 where "t1 = apply_status now ''completed'' None t"
  define tables1 where "tables1 = set_task i t1 (cs_store s)"
  obtain a where a: "load_completion_assessment (cx_service e) i (cs_store s) = Inr ([], a)" "as_gates a = []"
    using load_assessment_ready [OF i fin(2) sub] by blast
  have c: "complete_task e undisturbed now i root rid sha paths t s = (Inr (), commit i tables1 s)"
    using open' env a completing_update [OF i fin(2,1)] by (simp add: complete_task_def t1_def tables1_def)
  have f1: "closeout_finished rid sha t1"
    using fin(1) sha by (simp add: closeout_finished_def closeout_current_def t1_def Let_def)
  define t2 where "t2 = t1\<lparr>t_verification := Some (jmerge (vr t1) [(''closeout'', JObj (jmerge (get_dict (vr t1) ''closeout'')
      [(''state'', JStr ''complete''), (''completed_at'', JStr at_iso), (''reason'', JStr [])]))]), t_updated_at := now\<rparr>"
  have fr: "finish_closeout_cleanup now at_iso i (t_project_id t) rid sha True tables1 = (Inr True, set_task i t2 tables1)"
    using i(1) f1 by (simp add: finish_closeout_cleanup_def tables1_def t2_def t1_def Let_def)
  have "closed_out rid sha t t2"
    using f1 by (auto simp: closed_out_def closeout_finished_def Let_def has_str_def jmerge_def t2_def t1_def)
  moreover have "run_cleanup e now at_iso i (t_project_id t) root rid sha (commit i tables1 s) =
      (Inr True, (commit i (set_task i t2 tables1) (commit i tables1 s))\<lparr>cs_cleanups := cs_cleanups s @
         [\<lparr>cc_task = i, cc_project = t_project_id t, cc_root = root, cc_tables = tables1\<rparr>]\<rparr>)"
    using fr env(4) by (simp add: run_cleanup_def Let_def)
  ultimately show ?thesis using c by fastforce
qed

text \<open>The evidence shown with an answer does not change what the answer says was done.\<close>

lemma completion_evidence_keys:
  "fst ` set (completion_evidence acceptance sha retained False) \<subseteq> insert ''evidence_basis'' (insert ''source_commit'' (set EVIDENCE_KEYS))"
proof -
  have jp: "fst ` set (jput k v d) = insert k (fst ` set d)" for k v d
    by (simp flip: dom_map_of_conv_image_fst)
  have "fst ` set (fold (\<lambda>k d. case get acceptance k of JStr v \<Rightarrow> if v \<noteq> [] then jput k (JStr v) d else d | _ \<Rightarrow> d) ks d)
      \<subseteq> set ks \<union> fst ` set d" for ks d
  proof (induction ks arbitrary: d)
    case (Cons k ks)
    let ?d = "case get acceptance k of JStr v \<Rightarrow> if v \<noteq> [] then jput k (JStr v) d else d | _ \<Rightarrow> d"
    have "fst ` set ?d \<subseteq> insert k (fst ` set d)" by (auto simp: jp split: json.splits)
    with Cons [of ?d] show ?case by auto
  qed simp
  from this [of EVIDENCE_KEYS "[(''evidence_basis'', b), (''source_commit'', c)]" for b c]
  show ?thesis by (cases "selected_source acceptance sha") (simp_all add: completion_evidence_def Let_def)
qed

lemma evidence_no_action:
  "map_of d ''action'' = Some v \<Longrightarrow> map_of (jmerge d (completion_evidence acceptance sha retained False)) ''action'' = Some v"
proof -
  have "map_of (jmerge d e) k = map_of d k" if "k \<notin> fst ` set e" for e d k
    using that
  proof (induction e arbitrary: d)
    case (Cons a e)
    then show ?case by (cases a) (simp add: jmerge_def)
  qed (simp add: jmerge_def)
  moreover have "''action'' \<notin> fst ` set (completion_evidence acceptance sha retained False)"
    using completion_evidence_keys [of acceptance sha retained] by (auto simp: EVIDENCE_KEYS_def)
  moreover assume "map_of d ''action'' = Some v"
  ultimately show ?thesis by simp
qed

lemma resume_again:
  assumes "canonicalize_task_id i = i" "map_of (tasks (cs_store s)) i = Some t'" "closed_out rid sha t t'"
  shows "\<exists>a. resume_closeout e others now at_iso True explicit i s = (Inr a, s) \<and> has_str a ''action'' ''completed''"
proof -
  let ?c = "get_dict (vr t') ''closeout''"
  have c: "has_str ?c ''kind'' LOCAL_KIND" "has_str ?c ''source_sha'' sha" "has_str ?c ''state'' ''complete''" "t_status t' = ''completed''"
    using assms(3) by (simp_all add: closed_out_def closeout_finished_def Let_def LOCAL_KIND_def)
  have ne: "?c \<noteq> []" using c(1) by (auto simp: has_str_def)
  let ?a = "jmerge [(''action'', JStr ''completed''), (''base_branch'', JStr (cx_base_branch e i)), (''published'', JBool False),
      (''snapshot_removed'', JBool True), (''task_id'', JStr i)] (completion_evidence (get_dict (vr t') ''acceptance'') (Some sha) True False)"
  have "resume_answer e explicit i t' ?c = Inr (Some ?a)"
    using c by (simp add: resume_answer_def has_str_def field_def)
  moreover have "get_task i s = Some t'" using assms(1,2) by (simp add: get_task_def find_task_def)
  moreover have "has_str ?a ''action'' ''completed''" using evidence_no_action by (simp add: has_str_def)
  ultimately show ?thesis using ne by (simp add: resume_closeout_def)
qed

text \<open>
  C38: An undisturbed request is carried through, once. If nothing stands against a pending local
  request (the source validates, the gates are passed, no subtask is open, the cleanup returns), a
  resumption answers that the task is completed and leaves it completed, unclaimed, its request
  complete and its acceptance as it was, after one cleanup; and every later resumption, under
  whatever circumstances, answers the same and changes nothing.
\<close>

theorem closeout_carried_through:
  assumes "closeout_ready e i (cs_store s)" and "map_of (tasks (cs_store s)) i = Some t"
  shows "\<exists>a s' t' c rid sha. resume_closeout e undisturbed now at_iso True explicit i s = (Inr a, s') \<and> has_str a ''action'' ''completed'' \<and>
    map_of (tasks (cs_store s')) i = Some t' \<and> closed_out rid sha t t' \<and>
    cs_cleanups s' = cs_cleanups s @ [c] \<and> cc_task c = i \<and>
    (\<exists>a'. resume_closeout e' others now' at' True explicit' i s' = (Inr a', s') \<and> has_str a' ''action'' ''completed'')"
proof -
  let ?c = "get_dict (vr t) ''closeout''" and ?acc = "get_dict (vr t) ''acceptance''"
  let ?paths = "strings_of (get_list ?c ''paths'')"
  have i: "canonicalize_task_id i = i" and st: "t_status t \<in> {''pending'', ''running''}"
    and k: "has_str ?c ''kind'' LOCAL_KIND" "has_str ?c ''state'' ''pending''" "has_str ?c ''project_id'' (t_project_id t)"
      "has_str ?acc ''state'' ''success''"
    and g: "completion_gates (cx_service e) (evidence_of i t (cs_store s)) = []"
      "list_all (\<lambda>(tid, _, passes). tid = i \<longrightarrow> passes) (subtasks (cs_store s))"
    using assms by (simp_all add: closeout_ready_def Let_def)
  obtain rid sha root v where f: "has_str ?c ''request_id'' rid" "has_str ?c ''source_sha'' sha" "cx_root e (t_project_id t) = Some root"
    and h: "has_str ?acc ''source_commit'' sha" "root \<noteq> []" "cx_source_lock e root = None"
      "cx_validate_source e root ?acc sha = Inr v" "require_selected_reference ?acc v ?paths = None"
      "cx_require_owned e root sha ?paths t = None" "cx_cleanup e i (t_project_id t) root = None"
  proof -
    have "case (field ?c ''request_id'', field ?c ''source_sha'', cx_root e (t_project_id t)) of
        (Inr rid, Inr sha, Some root) \<Rightarrow>
          has_str ?acc ''source_commit'' sha \<and> root \<noteq> [] \<and> cx_source_lock e root = None \<and>
          (case cx_validate_source e root ?acc sha of Inr v \<Rightarrow> require_selected_reference ?acc v ?paths = None | Inl _ \<Rightarrow> False) \<and>
          cx_require_owned e root sha ?paths t = None \<and> cx_cleanup e i (t_project_id t) root = None
      | _ \<Rightarrow> False"
      using assms by (simp add: closeout_ready_def Let_def)
    from all_three [OF this] obtain rid sha root where a: "field ?c ''request_id'' = Inr rid" "field ?c ''source_sha'' = Inr sha"
        "cx_root e (t_project_id t) = Some root"
      and b: "has_str ?acc ''source_commit'' sha" "root \<noteq> []" "cx_source_lock e root = None"
        "case cx_validate_source e root ?acc sha of Inr v \<Rightarrow> require_selected_reference ?acc v ?paths = None | Inl _ \<Rightarrow> False"
        "cx_require_owned e root sha ?paths t = None" "cx_cleanup e i (t_project_id t) root = None"
      by (elim exE conjE)
    from b(4) obtain v where "cx_validate_source e root ?acc sha = Inr v" "require_selected_reference ?acc v ?paths = None"
      by (cases "cx_validate_source e root ?acc sha") simp_all
    with a b that show ?thesis by (simp add: field_Inr)
  qed
  have cur: "closeout_current rid ''completed'' t"
    using st k f(1,2) h(1) by (auto simp: closeout_current_def Let_def LOCAL_KIND_def has_str_def get_def get_or_def)
  have nc: "t_status t \<noteq> ''completed''" using st by auto
  obtain s1 s2 t' c where w: "complete_task e undisturbed now i root rid sha ?paths t s = (Inr (), s1)"
    "run_cleanup e now at_iso i (t_project_id t) root rid sha s1 = (Inr True, s2)"
    "map_of (tasks (cs_store s2)) i = Some t'" "closed_out rid sha t t'" "cs_cleanups s2 = cs_cleanups s @ [c]" "cc_task c = i"
    using complete_and_clean [OF i assms(2) cur g f(2) h(1) nc h(4-7)] by blast
  let ?a = "jmerge [(''action'', JStr ''completed''), (''base_branch'', JStr (cx_base_branch e i)), (''project_id'', JStr (t_project_id t)),
      (''published'', JBool False), (''snapshot_removed'', JBool True), (''task_id'', JStr i)]
      (completion_evidence ?acc (Some sha) False False)"
  let ?s = "log_event i ''Local closeout cleanup completed from retained source-bound acceptance.'' s2"
  have r: "recover e undisturbed now at_iso i rid t ?c s = (Inr ?a, ?s)"
    using f h k w nc by (simp add: recover_def Let_def field_def has_str_def)
  have gt: "get_task i s = Some t" using i assms(2) by (simp add: get_task_def find_task_def)
  have ra: "resume_answer e explicit i t ?c = Inr None"
    using k st by (auto simp: resume_answer_def has_str_def)
  have ne: "?c \<noteq> []" using k(1) by (auto simp: has_str_def)
  have res: "resume_closeout e undisturbed now at_iso True explicit i s = (Inr ?a, ?s)"
    using gt ra ne r f(1) by (simp add: resume_closeout_def has_str_def json_str_def)
  have act: "has_str ?a ''action'' ''completed''" using evidence_no_action by (simp add: has_str_def)
  have m: "map_of (tasks (cs_store ?s)) i = Some t'" "cs_cleanups ?s = cs_cleanups s @ [c]"
    using w(3,5) by (simp_all add: log_event_def)
  obtain a' where "resume_closeout e' others now' at' True explicit' i ?s = (Inr a', ?s)" "has_str a' ''action'' ''completed''"
    using resume_again [OF i m(1) w(4), of e' others now' at' explicit'] by blast
  with res act m w(4,6) show ?thesis by blast
qed

theorem closeout_carried_through_witness:
  "\<exists>a s'. resume_closeout sample_closeout_env undisturbed 7 ''t'' True False ''task-1'' sample_requested = (Inr a, s') \<and>
     has_str a ''action'' ''completed'' \<and> length (cs_cleanups s') = 1 \<and>
     (\<exists>a'. resume_closeout sample_closeout_env taken_over 8 ''u'' True False ''task-1'' s' = (Inr a', s'))"
proof -
  have r: "closeout_ready sample_closeout_env ''task-1'' (cs_store sample_requested)" by code_simp
  have "map_of (tasks (cs_store sample_requested)) ''task-1'' \<noteq> None" "cs_cleanups sample_requested = []" by code_simp+
  then obtain t where t: "map_of (tasks (cs_store sample_requested)) ''task-1'' = Some t" and n: "cs_cleanups sample_requested = []" by blast
  from closeout_carried_through [OF r t, of 7 "''t''" False sample_closeout_env taken_over 8 "''u''" False]
  show ?thesis using n by (elim exE conjE) auto
qed

end
