(* ===== verification/Results.thy ===== *)
theory Results
  imports Prelude
begin

text \<open>
  Sequencing of operations that raise: the next one runs on the value of the one before, and the first
  error is the answer; and the same for operations that also change a state, which stays as it was
  left when one of them raises.
\<close>

fun and_then :: "('e, 'a) result \<Rightarrow> ('a \<Rightarrow> ('e, 'b) result) \<Rightarrow> ('e, 'b) result" where
  "and_then (Inl e) f = Inl e"
| "and_then (Inr x) f = f x"

lemma and_then_cong [fundef_cong]: "r = r' \<Longrightarrow> (\<And>x. r' = Inr x \<Longrightarrow> f x = g x) \<Longrightarrow> and_then r f = and_then r' g"
  by (cases r') auto

lemma and_then_Inr [simp]: "and_then r f = Inr y \<longleftrightarrow> (\<exists>x. r = Inr x \<and> f x = Inr y)"
  by (cases r) auto

lemma and_then_Inl: "and_then r f = Inl e \<longleftrightarrow> r = Inl e \<or> (\<exists>x. r = Inr x \<and> f x = Inl e)"
  by (cases r) auto

text \<open>\<open>if not b: raise e\<close>\<close>

definition require :: "bool \<Rightarrow> 'e \<Rightarrow> ('e, unit) result" where
  "require b e = (if b then return () else raise e)"

lemma require_Inr [simp]: "require b e = Inr u \<longleftrightarrow> b"
  by (simp add: require_def)

lemma require_Inl [simp]: "require b e = Inl e' \<longleftrightarrow> \<not> b \<and> e' = e"
  by (auto simp: require_def)

lemma require_True [simp]: "require True e = Inr ()"
  by (simp add: require_def)

text \<open>A check on every element in order.\<close>

fun each :: "('a \<Rightarrow> ('e, unit) result) \<Rightarrow> 'a list \<Rightarrow> ('e, unit) result" where
  "each f [] = return ()"
| "each f (x # xs) = and_then (f x) (\<lambda>_. each f xs)"

lemma each_Inr: "each f xs = Inr u \<longleftrightarrow> (\<forall>x\<in>set xs. f x = Inr ())"
  by (induction xs) auto

lemma each_Inl: "each f xs = Inl e \<Longrightarrow> \<exists>x\<in>set xs. f x = Inl e"
  by (induction xs) (auto simp: and_then_Inl)

section \<open>With a state\<close>

type_synonym ('s, 'e, 'a) op = "'s \<Rightarrow> ('e, 'a) result \<times> 's"

definition then_do :: "('s, 'e, 'a) op \<Rightarrow> ('a \<Rightarrow> ('s, 'e, 'b) op) \<Rightarrow> ('s, 'e, 'b) op" where
  "then_do m f s = (case m s of (Inl e, s') \<Rightarrow> (Inl e, s') | (Inr x, s') \<Rightarrow> f x s')"

lemma then_do_Inr: "then_do m f s = (Inr y, s2) \<longleftrightarrow> (\<exists>x s1. m s = (Inr x, s1) \<and> f x s1 = (Inr y, s2))"
  by (auto simp: then_do_def split: prod.splits sum.splits)

lemma then_do_Inl:
  "then_do m f s = (Inl e, s2) \<longleftrightarrow> m s = (Inl e, s2) \<or> (\<exists>x s1. m s = (Inr x, s1) \<and> f x s1 = (Inl e, s2))"
  by (auto simp: then_do_def split: prod.splits sum.splits)

text \<open>What every operation of a sequence keeps, the sequence keeps.\<close>

definition keeps :: "('s \<Rightarrow> bool) \<Rightarrow> ('s, 'e, 'a) op \<Rightarrow> bool" where
  "keeps P m \<longleftrightarrow> (\<forall>s. P s \<longrightarrow> P (snd (m s)))"

lemma keeps_then_do: "keeps P m \<Longrightarrow> (\<And>x. keeps P (f x)) \<Longrightarrow> keeps P (then_do m f)"
  by (auto simp: keeps_def then_do_def split: prod.split sum.split)

end
