(* ===== verification/NativeContract.thy ===== *)
theory NativeContract
  imports Results TaskAcceptance
begin

text \<open>
  The wire contract of deployment observers (\<open>packages/st-sdk/st_sdk/native_deployment.py\<close>): what a
  request and an observation must look like. Values are decoded JSON, an object having one entry per
  key; a subscript of a missing key raises.
\<close>

datatype native_error =
    ContractError string
  | NativeError string
  | KeyError string
  | TypeError
  | OSError string
  | AcceptanceFailed

type_synonym 'a checked = "(native_error, 'a) result"

definition item :: "dict \<Rightarrow> string \<Rightarrow> json checked" where
  "item d k = (case map_of d k of Some v \<Rightarrow> return v | None \<Rightarrow> raise (KeyError k))"

definition NATIVE_DEPLOYMENT_CONTRACT_VERSION :: int where
  "NATIVE_DEPLOYMENT_CONTRACT_VERSION = 1"

definition BINDING_KEYS :: "string list" where
  "BINDING_KEYS = [''challenge'', ''task_id'', ''project'', ''accepted_source_commit'', ''acceptance_id'']"

definition REQUEST_KEYS :: "string list" where
  "REQUEST_KEYS = BINDING_KEYS @ [''contract_version'', ''operation'']"

definition RESPONSE_KEYS :: "string list" where
  "RESPONSE_KEYS =
     BINDING_KEYS @ [''schema_version'', ''target_id'', ''deployed_source_commit'', ''checks'', ''runtime_exclusions'', ''runtime_policy_path'']"

section \<open>Fields\<close>

definition check_keys :: "dict \<Rightarrow> string list \<Rightarrow> string \<Rightarrow> unit checked" where
  "check_keys d expected label = require (set (map fst d) = set expected) (ContractError (label @ '' must contain exactly its keys''))"

definition check_version :: "json \<Rightarrow> string \<Rightarrow> unit checked" where
  "check_version v label = require (v = JNum NATIVE_DEPLOYMENT_CONTRACT_VERSION) (ContractError (''unsupported '' @ label))"

definition control_char :: "char \<Rightarrow> bool" where
  "control_char c \<longleftrightarrow> char_nat c < 32 \<or> char_nat c = 127"

definition check_string :: "json \<Rightarrow> string \<Rightarrow> string checked" where
  "check_string v label =
     (case v of
        JStr s \<Rightarrow>
          if s = [] \<or> strip s \<noteq> s then raise (ContractError (label @ '' must be a non-empty unpadded string''))
          else if list_ex control_char s then raise (ContractError (label @ '' must not contain control characters''))
          else return s
      | _ \<Rightarrow> raise (ContractError (label @ '' must be a non-empty unpadded string'')))"

definition check_commit :: "json \<Rightarrow> string \<Rightarrow> unit checked" where
  "check_commit v label =
     (case v of
        JStr s \<Rightarrow> require (is_oid s) (ContractError (label @ '' must be a full lowercase Git commit identity''))
      | _ \<Rightarrow> raise (ContractError (label @ '' must be a full lowercase Git commit identity'')))"

definition is_uuid_hex :: "string \<Rightarrow> bool" where
  "is_uuid_hex s \<longleftrightarrow> length s = 32 \<and> list_all is_hex s"

definition check_challenge :: "json \<Rightarrow> unit checked" where
  "check_challenge v =
     require (case v of JStr s \<Rightarrow> is_uuid_hex s | _ \<Rightarrow> False) (ContractError ''challenge must be a lowercase UUID hex identity'')"

definition check_binding :: "dict \<Rightarrow> unit checked" where
  "check_binding d =
     and_then (item d ''challenge'') (\<lambda>challenge.
     and_then (check_challenge challenge) (\<lambda>_.
     and_then (each (\<lambda>k. and_then (item d k) (\<lambda>v. and_then (check_string v k) (\<lambda>_. return ()))) [''task_id'', ''project'', ''acceptance_id'']) (\<lambda>_.
     and_then (item d ''accepted_source_commit'') (\<lambda>c. check_commit c ''accepted_source_commit''))))"

section \<open>Requests\<close>

definition validate_observation_request :: "dict \<Rightarrow> dict checked" where
  "validate_observation_request d =
     and_then (check_keys d REQUEST_KEYS ''request'') (\<lambda>_.
     and_then (item d ''contract_version'') (\<lambda>v.
     and_then (check_version v ''contract_version'') (\<lambda>_.
     and_then (item d ''operation'') (\<lambda>operation.
     and_then (require (operation = JStr ''observe_deployment'') (ContractError ''unsupported observation operation'')) (\<lambda>_.
     and_then (check_binding d) (\<lambda>_. return d))))))"

section \<open>Exclusions\<close>

definition relative_path :: "json \<Rightarrow> bool \<Rightarrow> string checked" where
  "relative_path v is_prefix =
     (let label = (if is_prefix then ''exclusion prefix'' else ''exclusion path'') in
      and_then (check_string v label) (\<lambda>path.
      if endswith path ''/'' \<noteq> is_prefix then raise (ContractError (label @ '' has an invalid trailing slash''))
      else let components = split_on CHR ''/'' (if is_prefix then butlast path else path)
           in if list_ex (\<lambda>p. p \<in> {[], ''.'', ''..''}) components \<or> list_ex (\<lambda>c. c \<in> set (BSL # '':*?[]'')) path
              then raise (ContractError (label @ '' must be a literal relative POSIX path''))
              else return path))"

fun relative_paths :: "json list \<Rightarrow> bool \<Rightarrow> string list checked" where
  "relative_paths [] is_prefix = return []"
| "relative_paths (v # vs) is_prefix =
     and_then (relative_path v is_prefix) (\<lambda>p. and_then (relative_paths vs is_prefix) (\<lambda>ps. return (p # ps)))"

definition check_exclusion_list :: "dict \<Rightarrow> string \<Rightarrow> unit checked" where
  "check_exclusion_list d key =
     and_then (item d key) (\<lambda>entries.
     case entries of
       JList vs \<Rightarrow>
         and_then (relative_paths vs (key = ''prefixes'')) (\<lambda>ps.
         require (distinct ps) (ContractError (''runtime_exclusions.'' @ key @ '' must not contain duplicates'')))
     | _ \<Rightarrow> raise (ContractError (''runtime_exclusions.'' @ key @ '' must be a list'')))"

definition check_exclusions :: "json \<Rightarrow> unit checked" where
  "check_exclusions v =
     (case v of
        JObj d \<Rightarrow>
          and_then (check_keys d [''rule_version'', ''prefixes'', ''paths''] ''runtime_exclusions'') (\<lambda>_.
          and_then (item d ''rule_version'') (\<lambda>rv.
          and_then (check_version rv ''runtime exclusion rule_version'') (\<lambda>_.
          and_then (each (check_exclusion_list d) [''prefixes'', ''paths'']) (\<lambda>_.
          and_then (item d ''prefixes'') (\<lambda>prefixes.
          and_then (item d ''paths'') (\<lambda>paths.
          require (truth prefixes \<or> truth paths) (ContractError ''runtime_exclusions must not be empty'')))))))
      | _ \<Rightarrow> raise (ContractError ''runtime_exclusions must be a JSON object''))"

section \<open>Observations\<close>

fun check_checks :: "json list \<Rightarrow> string list \<Rightarrow> unit checked" where
  "check_checks [] seen = return ()"
| "check_checks (c # cs) seen =
     (case c of
        JObj d \<Rightarrow>
          and_then (check_keys d [''id'', ''state'', ''evidence''] ''check'') (\<lambda>_.
          and_then (item d ''id'') (\<lambda>i.
          and_then (check_string i ''check.id'') (\<lambda>identifier.
          and_then (require (identifier \<notin> set seen) (ContractError ''check identifiers must be unique'')) (\<lambda>_.
          and_then (item d ''state'') (\<lambda>state.
          and_then (require (state \<in> {JStr ''success'', JStr ''failed''}) (ContractError ''check.state must be success or failed'')) (\<lambda>_.
          and_then (item d ''evidence'') (\<lambda>evidence.
          and_then (require (case evidence of JObj _ \<Rightarrow> True | _ \<Rightarrow> False) (ContractError ''check.evidence must be a JSON object'')) (\<lambda>_.
          check_checks cs (identifier # seen)))))))))
      | _ \<Rightarrow> raise (ContractError ''each check must be a JSON object''))"

text \<open>\<open>all(check["state"] == "success" for check in checks)\<close>\<close>

fun all_succeeded :: "json list \<Rightarrow> bool checked" where
  "all_succeeded [] = return True"
| "all_succeeded (c # cs) =
     (case c of
        JObj d \<Rightarrow> and_then (item d ''state'') (\<lambda>state. if state = JStr ''success'' then all_succeeded cs else return False)
      | _ \<Rightarrow> raise TypeError)"

definition check_request_binding :: "dict \<Rightarrow> dict option \<Rightarrow> unit checked" where
  "check_request_binding d request =
     (case request of
        None \<Rightarrow> return ()
      | Some r \<Rightarrow>
          and_then (validate_observation_request r) (\<lambda>expected.
          each (\<lambda>k. and_then (item d k) (\<lambda>v. and_then (item expected k) (\<lambda>w.
            require (v = w) (ContractError ''response does not match its observation request'')))) BINDING_KEYS))"

definition validate_observation_response :: "dict \<Rightarrow> dict option \<Rightarrow> dict checked" where
  "validate_observation_response d request =
     and_then (check_keys d RESPONSE_KEYS ''response'') (\<lambda>_.
     and_then (item d ''schema_version'') (\<lambda>v.
     and_then (check_version v ''schema_version'') (\<lambda>_.
     and_then (check_binding d) (\<lambda>_.
     and_then (check_request_binding d request) (\<lambda>_.
     and_then (item d ''target_id'') (\<lambda>target.
     and_then (check_string target ''target_id'') (\<lambda>_.
     and_then (item d ''deployed_source_commit'') (\<lambda>deployed.
     and_then (if deployed = JNull then return () else check_commit deployed ''deployed_source_commit'') (\<lambda>_.
     and_then (item d ''runtime_policy_path'') (\<lambda>policy.
     and_then (relative_path policy False) (\<lambda>_.
     and_then (item d ''checks'') (\<lambda>checks.
     case checks of
       JList cs \<Rightarrow>
         and_then (require (cs \<noteq> []) (ContractError ''checks must be a non-empty list'')) (\<lambda>_.
         and_then (check_checks cs []) (\<lambda>_.
         and_then (item d ''runtime_exclusions'') (\<lambda>x.
         and_then (check_exclusions x) (\<lambda>_.
         and_then (if deployed = JNull then all_succeeded cs else return False) (\<lambda>bad.
         and_then (require (\<not> bad) (ContractError ''successful observations require a deployed source commit'')) (\<lambda>_.
         return d))))))
     | _ \<Rightarrow> raise (ContractError ''checks must be a non-empty list'')))))))))))))"

section \<open>The types the contract guarantees\<close>

lemma item_Inr: "item d k = Inr v \<longleftrightarrow> map_of d k = Some v"
  by (simp add: item_def split: option.split)

lemma item_Inl: "item d k = Inl e \<longleftrightarrow> map_of d k = None \<and> e = KeyError k"
  by (auto simp: item_def split: option.split)

definition contract_only :: "'a checked \<Rightarrow> bool" where
  "contract_only r = (case r of Inl (ContractError _) \<Rightarrow> True | Inl _ \<Rightarrow> False | Inr _ \<Rightarrow> True)"

lemma contract_only_simps [simp]:
  "contract_only (Inr x)" "contract_only (Inl (ContractError m))" "contract_only (require b (ContractError m))"
  "contract_only (check_keys d ks l)" "contract_only (check_version v l)" "contract_only (check_challenge v)"
  by (simp_all add: contract_only_def check_keys_def check_version_def check_challenge_def require_def)

lemma contract_only_string [simp]: "contract_only (check_string v l)" "contract_only (check_commit v l)"
  by (simp_all add: check_string_def check_commit_def split: json.split)

lemma contract_only_then:
  "contract_only r \<Longrightarrow> (\<And>x. r = Inr x \<Longrightarrow> contract_only (f x)) \<Longrightarrow> contract_only (and_then r f)"
  by (cases r) (auto simp: contract_only_def split: native_error.splits)

lemma contract_only_each: "(\<And>x. x \<in> set xs \<Longrightarrow> contract_only (f x)) \<Longrightarrow> contract_only (each f xs)"
  by (induction xs) (simp_all add: contract_only_then)

lemma contract_only_item:
  assumes "k \<in> set (map fst d)" and "\<And>v. map_of d k = Some v \<Longrightarrow> contract_only (f v)"
  shows "contract_only (and_then (item d k) f)"
proof -
  obtain v where "map_of d k = Some v" using assms(1) by (metis list.set_map map_of_eq_None_iff not_None_eq)
  then show ?thesis using assms(2) by (simp add: item_def)
qed

lemma check_keys_Inr: "check_keys d ks l = Inr u \<longleftrightarrow> set (map fst d) = set ks"
  by (simp add: check_keys_def)

lemma contract_only_binding:
  assumes "set BINDING_KEYS \<subseteq> fst ` set d"
  shows "contract_only (check_binding d)"
proof -
  have ks: "''challenge'' \<in> fst ` set d" "''task_id'' \<in> fst ` set d" "''project'' \<in> fst ` set d" "''acceptance_id'' \<in> fst ` set d"
    "''accepted_source_commit'' \<in> fst ` set d"
    using assms by (auto simp: BINDING_KEYS_def)
  show ?thesis
    unfolding check_binding_def
    by (intro contract_only_item contract_only_then contract_only_each)
      (auto intro!: contract_only_item contract_only_then simp: ks)
qed

lemma contract_only_request: "contract_only (validate_observation_request d)"
  unfolding validate_observation_request_def
proof (rule contract_only_then, simp)
  fix u assume "check_keys d REQUEST_KEYS ''request'' = Inr u"
  then have k: "fst ` set d = set REQUEST_KEYS" by (simp add: check_keys_Inr)
  then have "contract_only (check_binding d)" by (intro contract_only_binding) (auto simp: REQUEST_KEYS_def)
  then show "contract_only (and_then (item d ''contract_version'') (\<lambda>v. and_then (check_version v ''contract_version'') (\<lambda>_.
      and_then (item d ''operation'') (\<lambda>operation.
      and_then (require (operation = JStr ''observe_deployment'') (ContractError ''unsupported observation operation'')) (\<lambda>_.
      and_then (check_binding d) (\<lambda>_. Inr d))))))"
    using k by (intro contract_only_item contract_only_then) (simp_all add: REQUEST_KEYS_def)
qed

lemma contract_only_path [simp]: "contract_only (relative_path v p)"
  unfolding relative_path_def Let_def by (intro contract_only_then) simp_all

lemma contract_only_paths [simp]: "contract_only (relative_paths vs p)"
  by (induction vs) (simp_all add: contract_only_then)

lemma contract_only_exclusions [simp]: "contract_only (check_exclusions v)"
proof (cases v)
  case (JObj d)
  have el: "contract_only (check_exclusion_list d k)" if "k \<in> set (map fst d)" for k
    unfolding check_exclusion_list_def by (rule contract_only_item [OF that]) (auto split: json.split intro!: contract_only_then)
  let ?keys = "[''rule_version'', ''prefixes'', ''paths'']"
  show ?thesis
    unfolding check_exclusions_def JObj json.case
  proof (rule contract_only_then [OF contract_only_simps(4)])
    fix u assume "check_keys d ?keys ''runtime_exclusions'' = Inr u"
    then have k: "k \<in> set (map fst d)" if "k \<in> set ?keys" for k using that by (simp add: check_keys_Inr)
    have "contract_only (each (check_exclusion_list d) [''prefixes'', ''paths''])"
      by (rule contract_only_each, rule el, rule k) auto
    then show "contract_only (and_then (item d ''rule_version'') (\<lambda>rv. and_then (check_version rv ''runtime exclusion rule_version'') (\<lambda>_.
        and_then (each (check_exclusion_list d) [''prefixes'', ''paths'']) (\<lambda>_. and_then (item d ''prefixes'') (\<lambda>prefixes.
        and_then (item d ''paths'') (\<lambda>paths. require (truth prefixes \<or> truth paths) (ContractError ''runtime_exclusions must not be empty'')))))))"
      by (intro contract_only_item contract_only_then k contract_only_simps) simp_all
  qed
qed (simp_all add: check_exclusions_def)

lemma contract_only_checks: "contract_only (check_checks cs seen)"
proof (induction cs arbitrary: seen)
  case (Cons c cs)
  show ?case
  proof (cases c)
    case (JObj d)
    let ?keys = "[''id'', ''state'', ''evidence'']"
    show ?thesis
      unfolding JObj check_checks.simps json.case
    proof (rule contract_only_then [OF contract_only_simps(4)])
      fix u assume "check_keys d ?keys ''check'' = Inr u"
      then have k: "k \<in> set (map fst d)" if "k \<in> set ?keys" for k using that by (simp add: check_keys_Inr)
      show "contract_only (and_then (item d ''id'') (\<lambda>i. and_then (check_string i ''check.id'') (\<lambda>identifier.
          and_then (require (identifier \<notin> set seen) (ContractError ''check identifiers must be unique'')) (\<lambda>_.
          and_then (item d ''state'') (\<lambda>state.
          and_then (require (state \<in> {JStr ''success'', JStr ''failed''}) (ContractError ''check.state must be success or failed'')) (\<lambda>_.
          and_then (item d ''evidence'') (\<lambda>evidence.
          and_then (require (case evidence of JObj _ \<Rightarrow> True | _ \<Rightarrow> False) (ContractError ''check.evidence must be a JSON object'')) (\<lambda>_.
          check_checks cs (identifier # seen)))))))))"
        by (intro contract_only_item contract_only_then k contract_only_simps contract_only_string Cons.IH) simp_all
    qed
  qed simp_all
qed simp

text \<open>Checked checks are objects with a name, a state and evidence.\<close>

definition check_typed :: "json \<Rightarrow> bool" where
  "check_typed c \<longleftrightarrow>
     (\<exists>d i st ev. c = JObj d \<and> map_of d ''id'' = Some (JStr i) \<and> map_of d ''state'' = Some (JStr st) \<and>
        st \<in> {''success'', ''failed''} \<and> map_of d ''evidence'' = Some (JObj ev))"

lemma check_string_Inr: "check_string v l = Inr s \<Longrightarrow> v = JStr s"
  by (auto simp: check_string_def split: json.split_asm if_split_asm)

lemma check_checks_typed: "check_checks cs seen = Inr u \<Longrightarrow> list_all check_typed cs"
proof (induction cs arbitrary: seen)
  case (Cons c cs)
  obtain d where c: "c = JObj d" using Cons.prems by (cases c) simp_all
  obtain i st ev where d: "map_of d ''id'' = Some (JStr i)" "map_of d ''state'' = Some st" "st \<in> {JStr ''success'', JStr ''failed''}"
    "map_of d ''evidence'' = Some ev" "case ev of JObj _ \<Rightarrow> True | _ \<Rightarrow> False" and rest: "check_checks cs (i # seen) = Inr u"
    using Cons.prems check_string_Inr by (simp add: c item_Inr) blast
  obtain e where "ev = JObj e" using d(5) by (cases ev) simp_all
  then have "check_typed c" using c d by (auto simp: check_typed_def)
  then show ?case using Cons.IH [OF rest] by simp
qed simp

lemma all_succeeded_typed: "list_all check_typed cs \<Longrightarrow> \<exists>b. all_succeeded cs = Inr b"
  by (induction cs) (auto simp: check_typed_def item_def)

definition exclusions_typed :: "dict \<Rightarrow> bool" where
  "exclusions_typed x \<longleftrightarrow>
     (\<exists>v ps qs. map_of x ''rule_version'' = Some v \<and> map_of x ''prefixes'' = Some (JList (map JStr ps)) \<and>
        map_of x ''paths'' = Some (JList (map JStr qs)))"

lemma relative_paths_typed: "relative_paths vs p = Inr ps \<Longrightarrow> vs = map JStr ps"
  by (induction vs arbitrary: ps)
    (auto simp: relative_path_def Let_def split: if_split_asm dest!: check_string_Inr)

lemma check_exclusion_list_typed: "check_exclusion_list d k = Inr u \<Longrightarrow> \<exists>ps. map_of d k = Some (JList (map JStr ps))"
proof -
  assume "check_exclusion_list d k = Inr u"
  then obtain v where v: "map_of d k = Some v" "\<exists>vs ps. v = JList vs \<and> relative_paths vs (k = ''prefixes'') = Inr ps"
    unfolding check_exclusion_list_def and_then_Inr item_Inr by (elim exE conjE) (rename_tac v, case_tac v, auto)
  with relative_paths_typed show ?thesis by blast
qed

lemma check_exclusions_typed:
  assumes "check_exclusions v = Inr u"
  shows "\<exists>x. v = JObj x \<and> exclusions_typed x"
proof -
  obtain x where x: "v = JObj x" using assms by (cases v) (simp_all add: check_exclusions_def)
  then have "\<exists>r. map_of x ''rule_version'' = Some r" "each (check_exclusion_list x) [''prefixes'', ''paths''] = Inr ()"
    using assms by (auto simp: check_exclusions_def item_Inr)
  then show ?thesis using x check_exclusion_list_typed by (auto simp: exclusions_typed_def each_Inr)
qed

text \<open>The shape of an observation: every field the issuer subscripts is there with its type.\<close>

definition observation_typed :: "dict \<Rightarrow> bool" where
  "observation_typed d \<longleftrightarrow>
     (\<exists>target deployed policy cs x source. map_of d ''target_id'' = Some (JStr target) \<and>
        map_of d ''deployed_source_commit'' = Some deployed \<and> (deployed = JNull \<or> (\<exists>c. deployed = JStr c \<and> is_oid c)) \<and>
        map_of d ''runtime_policy_path'' = Some (JStr policy) \<and> map_of d ''checks'' = Some (JList cs) \<and> cs \<noteq> [] \<and>
        list_all check_typed cs \<and> map_of d ''runtime_exclusions'' = Some (JObj x) \<and> exclusions_typed x \<and>
        map_of d ''accepted_source_commit'' = Some (JStr source) \<and> is_oid source)"

lemma check_commit_Inr: "check_commit v l = Inr u \<longleftrightarrow> (\<exists>c. v = JStr c \<and> is_oid c)"
  by (auto simp: check_commit_def split: json.split)

lemma relative_path_typed: "relative_path v p = Inr q \<Longrightarrow> v = JStr q"
  using relative_paths_typed [of "[v]" p "[q]"] by simp

lemma contract_only_response: "contract_only (validate_observation_response d request)"
  unfolding validate_observation_response_def
proof (rule contract_only_then [OF contract_only_simps(4)])
  fix u assume "check_keys d RESPONSE_KEYS ''response'' = Inr u"
  then have ks: "fst ` set d = set RESPONSE_KEYS" by (simp add: check_keys_Inr)
  then have k: "k \<in> set (map fst d)" if "k \<in> set RESPONSE_KEYS" for k using that by simp
  have b: "contract_only (check_binding d)" by (rule contract_only_binding) (auto simp: ks RESPONSE_KEYS_def)
  have rb: "contract_only (check_request_binding d request)"
  proof (cases request)
    case (Some r)
    have "contract_only (each (\<lambda>k. and_then (item d k) (\<lambda>v. and_then (item e k) (\<lambda>w.
        require (v = w) (ContractError ''response does not match its observation request'')))) BINDING_KEYS)"
      if "validate_observation_request r = Inr e" for e
    proof (rule contract_only_each)
      have "e = r" "set (map fst r) = set REQUEST_KEYS" using that by (auto simp: validate_observation_request_def check_keys_Inr)
      then have ek: "k \<in> set (map fst e)" if "k \<in> set BINDING_KEYS" for k using that by (simp add: REQUEST_KEYS_def)
      fix k assume "k \<in> set BINDING_KEYS"
      then show "contract_only (and_then (item d k) (\<lambda>v. and_then (item e k) (\<lambda>w.
          require (v = w) (ContractError ''response does not match its observation request''))))"
        using ek by (intro contract_only_item k) (simp_all add: RESPONSE_KEYS_def)
    qed
    then show ?thesis unfolding check_request_binding_def Some option.case by (intro contract_only_then contract_only_request)
  qed (simp add: check_request_binding_def)
  have tail: "contract_only (and_then (require (cs \<noteq> []) (ContractError ''checks must be a non-empty list'')) (\<lambda>_.
      and_then (check_checks cs []) (\<lambda>_. and_then (item d ''runtime_exclusions'') (\<lambda>x. and_then (check_exclusions x) (\<lambda>_.
      and_then (if deployed = JNull then all_succeeded cs else return False) (\<lambda>bad.
      and_then (require (\<not> bad) (ContractError ''successful observations require a deployed source commit'')) (\<lambda>_. return d)))))))"
    for cs deployed
  proof -
    have "contract_only (if deployed = JNull then all_succeeded cs else Inr False)" if "check_checks cs [] = Inr ()"
      using all_succeeded_typed [OF check_checks_typed [OF that]] by auto
    then show ?thesis
      by (intro contract_only_then contract_only_item contract_only_checks k contract_only_simps contract_only_exclusions)
        (auto simp: RESPONSE_KEYS_def)
  qed
  show "contract_only (and_then (item d ''schema_version'') (\<lambda>v. and_then (check_version v ''schema_version'') (\<lambda>_.
     and_then (check_binding d) (\<lambda>_. and_then (check_request_binding d request) (\<lambda>_. and_then (item d ''target_id'') (\<lambda>target.
     and_then (check_string target ''target_id'') (\<lambda>_. and_then (item d ''deployed_source_commit'') (\<lambda>deployed.
     and_then (if deployed = JNull then return () else check_commit deployed ''deployed_source_commit'') (\<lambda>_.
     and_then (item d ''runtime_policy_path'') (\<lambda>policy. and_then (relative_path policy False) (\<lambda>_.
     and_then (item d ''checks'') (\<lambda>checks.
     case checks of
       JList cs \<Rightarrow>
         and_then (require (cs \<noteq> []) (ContractError ''checks must be a non-empty list'')) (\<lambda>_.
         and_then (check_checks cs []) (\<lambda>_. and_then (item d ''runtime_exclusions'') (\<lambda>x. and_then (check_exclusions x) (\<lambda>_.
         and_then (if deployed = JNull then all_succeeded cs else return False) (\<lambda>bad.
         and_then (require (\<not> bad) (ContractError ''successful observations require a deployed source commit'')) (\<lambda>_. return d))))))
     | _ \<Rightarrow> raise (ContractError ''checks must be a non-empty list'')))))))))))))"
    by (intro contract_only_then contract_only_item k b rb contract_only_simps contract_only_string contract_only_path)
      (auto simp: RESPONSE_KEYS_def tail split: json.split)
qed

lemma check_request_binding_Inr:
  assumes "check_request_binding d (Some r) = Inr u" and "k \<in> set BINDING_KEYS"
  shows "map_of d k = map_of r k"
proof -
  obtain e where "validate_observation_request r = Inr e" and e: "\<exists>v w. map_of d k = Some v \<and> map_of e k = Some w \<and> v = w"
    using assms by (auto simp: check_request_binding_def each_Inr item_Inr)
  moreover from this(1) have "e = r" by (auto simp: validate_observation_request_def)
  ultimately show ?thesis by auto
qed

lemma response_shape:
  assumes "validate_observation_response d request = Inr d'"
  shows "d' = d \<and> observation_typed d \<and> (\<forall>r k. request = Some r \<and> k \<in> set BINDING_KEYS \<longrightarrow> map_of d k = map_of r k)"
proof -
  obtain target deployed policy checks q where b: "check_binding d = Inr ()" "check_request_binding d request = Inr ()"
    and f: "map_of d ''target_id'' = Some (JStr target)" "map_of d ''deployed_source_commit'' = Some deployed"
      "deployed = JNull \<or> check_commit deployed ''deployed_source_commit'' = Inr ()"
      "map_of d ''runtime_policy_path'' = Some policy" "relative_path policy False = Inr q" "map_of d ''checks'' = Some checks"
    and rest: "(case checks of
       JList cs \<Rightarrow>
         and_then (require (cs \<noteq> []) (ContractError ''checks must be a non-empty list'')) (\<lambda>_.
         and_then (check_checks cs []) (\<lambda>_. and_then (item d ''runtime_exclusions'') (\<lambda>x. and_then (check_exclusions x) (\<lambda>_.
         and_then (if deployed = JNull then all_succeeded cs else return False) (\<lambda>bad.
         and_then (require (\<not> bad) (ContractError ''successful observations require a deployed source commit'')) (\<lambda>_. return d))))))
     | _ \<Rightarrow> raise (ContractError ''checks must be a non-empty list'')) = Inr d'"
    using assms unfolding validate_observation_response_def and_then_Inr item_Inr
    by (elim exE conjE) (use check_string_Inr in \<open>fastforce split: if_split_asm\<close>)
  obtain cs where cs: "checks = JList cs" using rest by (cases checks) simp_all
  obtain x where x: "cs \<noteq> []" "check_checks cs [] = Inr ()" "map_of d ''runtime_exclusions'' = Some x" "check_exclusions x = Inr ()" "d' = d"
    using rest by (auto simp: cs item_Inr)
  obtain src where src: "map_of d ''accepted_source_commit'' = Some (JStr src)" "is_oid src"
    using b(1) by (auto simp: check_binding_def item_Inr check_commit_Inr)
  have "observation_typed d"
    unfolding observation_typed_def
    using f cs x src check_checks_typed [OF x(2)] check_exclusions_typed [OF x(4)] relative_path_typed [OF f(5)]
    by (auto simp: check_commit_Inr)
  with b(2) x(5) check_request_binding_Inr show ?thesis by blast
qed


end
