(* ===== verification/NativeDeployment.thy ===== *)
theory NativeDeployment
  imports NativeContract
begin

text \<open>
  Server-issued receipts of native deployments (\<open>backend/app/services/native_deployment.py\<close>): which
  evidence family a project has, the private receipt store, the proof that deployed and accepted
  source have the same runtime inputs, issuing a receipt and validating the one a task refers to.

  Git, the digest of a JSON value, the validation of acceptance receipts and the run of the owner's
  observer are fields of the environment; the catalog of extensions is data.
\<close>

definition NATIVE_OBSERVATION :: string where
  "NATIVE_OBSERVATION = ''native_deployment_observation.v1''"

record extension =
  ex_owner :: "string option"
  ex_operations :: "string list option"
  ex_status :: string
  ex_execution_source :: string
  ex_request_version :: int
  ex_response_version :: int
  ex_effects :: "string list"
  ex_pin :: dict

record native_env =
  ne_diagnostics :: bool
  ne_records :: "extension list"
  ne_digest :: "json \<Rightarrow> string"
  ne_store_root :: string
  ne_ancestor :: "string \<Rightarrow> string \<Rightarrow> bool"
  ne_tree :: "string \<Rightarrow> (string \<times> string list) list option"
  ne_policy :: "string \<Rightarrow> string \<Rightarrow> (string \<times> dict option) option"
  ne_changes :: "string \<Rightarrow> string \<Rightarrow> string list option"
  ne_receipt_root :: "string option"
  ne_validate_acceptance :: "string \<Rightarrow> dict option"
  ne_run_observer :: "extension \<Rightarrow> dict \<Rightarrow> dict \<Rightarrow> dict checked"

section \<open>The evidence family of a project\<close>

definition owned_by :: "string \<Rightarrow> extension \<Rightarrow> bool" where
  "owned_by project x \<longleftrightarrow> ex_owner x = Some project"

definition observes :: "extension \<Rightarrow> bool" where
  "observes x = (case ex_operations x of Some ops \<Rightarrow> ''observe_deployment'' \<in> set ops | None \<Rightarrow> False)"

definition deployment_evidence_family :: "native_env \<Rightarrow> string \<Rightarrow> string" where
  "deployment_evidence_family e project =
     (let owners = filter (owned_by project) (ne_records e) in
      if ne_diagnostics e then ''unknown''
      else if list_ex (\<lambda>x. ex_operations x = None) owners then ''unknown''
      else if list_ex observes owners then ''native'' else ''legacy'')"

section \<open>Runtime inputs\<close>

definition obj :: "json \<Rightarrow> dict checked" where
  "obj v = (case v of JObj d \<Rightarrow> return d | _ \<Rightarrow> raise TypeError)"

definition json_list :: "json \<Rightarrow> json list checked" where
  "json_list v = (case v of JList js \<Rightarrow> return js | _ \<Rightarrow> raise TypeError)"

definition runtime_entries :: "json list \<Rightarrow> json list \<Rightarrow> (string \<times> string list) list \<Rightarrow> (string \<times> string list) list" where
  "runtime_entries paths prefixes entries =
     filter (\<lambda>(path, _). \<not> (JStr path \<in> set paths \<or>
        list_ex (\<lambda>p. case p of JStr q \<Rightarrow> startswith path q | _ \<Rightarrow> False) prefixes)) entries"

definition projection_json :: "(string \<times> string list) list \<Rightarrow> json" where
  "projection_json entries = JObj [(''entries'', JList (map (\<lambda>(path, meta). JList (map JStr (path # meta))) entries))]"

definition runtime_projection :: "native_env \<Rightarrow> string \<Rightarrow> dict \<Rightarrow> string checked" where
  "runtime_projection e commit rule =
     (case ne_tree e commit of
        None \<Rightarrow> raise (NativeError ''Native deployment source objects are unavailable'')
      | Some entries \<Rightarrow>
          and_then (item rule ''paths'') (\<lambda>p. and_then (json_list p) (\<lambda>paths.
          and_then (item rule ''prefixes'') (\<lambda>q. and_then (json_list q) (\<lambda>prefixes.
          return (ne_digest e (projection_json (runtime_entries paths prefixes entries))))))))"

definition json_string :: "json \<Rightarrow> string checked" where
  "json_string v = (case v of JStr s \<Rightarrow> return s | _ \<Rightarrow> raise TypeError)"

definition source_binding :: "native_env \<Rightarrow> dict \<Rightarrow> dict checked" where
  "source_binding e response =
     and_then (and_then (item response ''accepted_source_commit'') json_string) (\<lambda>accepted.
     and_then (and_then (item response ''deployed_source_commit'') json_string) (\<lambda>deployed.
     and_then (require (ne_ancestor e deployed accepted) (NativeError ''Native deployment source objects are unavailable'')) (\<lambda>_.
     and_then (and_then (item response ''runtime_policy_path'') json_string) (\<lambda>policy_path.
     case ne_policy e accepted policy_path of
       None \<Rightarrow> raise (NativeError ''Native deployment source objects are unavailable'')
     | Some (policy_sha, None) \<Rightarrow> raise (ContractError ''payload must contain valid JSON'')
     | Some (policy_sha, Some policy) \<Rightarrow>
         and_then (and_then (item response ''runtime_exclusions'') obj) (\<lambda>rule.
         and_then (require (policy = rule) (NativeError ''Observer runtime rule differs from accepted source'')) (\<lambda>_.
         and_then (runtime_projection e accepted rule) (\<lambda>accepted_hash.
         and_then (runtime_projection e deployed rule) (\<lambda>deployed_hash.
         and_then (require (accepted_hash = deployed_hash) (NativeError ''Deployed runtime inputs differ from accepted source'')) (\<lambda>_.
         case ne_changes e deployed accepted of
           None \<Rightarrow> raise (NativeError ''Native deployment source objects are unavailable'')
         | Some changes \<Rightarrow>
             and_then (item rule ''rule_version'') (\<lambda>rule_version.
             return (jmerge []
               [(''rule_version'', rule_version), (''runtime_policy_path'', JStr policy_path), (''runtime_policy_sha256'', JStr policy_sha),
                (''runtime_exclusions'', JObj rule), (''deployed_source_commit'', JStr deployed), (''accepted_source_commit'', JStr accepted),
                (''deployed_projection'', JStr deployed_hash), (''accepted_projection'', JStr accepted_hash),
                (''changed_paths'', JList (map JStr (filter (\<lambda>p. p \<noteq> []) changes)))])))))))))))"

section \<open>The receipt store\<close>

text \<open>
  The directory is safe if it is no link, belongs to the service account and is closed to others; the
  same two bits are kept of a file, with what its text decodes to.
\<close>

record receipt_file =
  rf_plain :: bool
  rf_private :: bool
  rf_record :: "dict option"

record receipt_store =
  rs_safe :: bool
  rs_files :: "(string \<times> receipt_file) list"

definition record_path :: "native_env \<Rightarrow> string \<Rightarrow> string checked" where
  "record_path e receipt_id =
     (if \<not> is_uuid_hex receipt_id then raise (NativeError ''Invalid native receipt identity'')
      else return (ne_store_root e @ ''/'' @ receipt_id @ ''.json''))"

definition write_record :: "native_env \<Rightarrow> dict \<Rightarrow> receipt_store \<Rightarrow> unit checked \<times> receipt_store" where
  "write_record e rec s =
     (if \<not> rs_safe s then (raise (NativeError ''Native receipt store must be private to the service account''), s)
      else case and_then (item rec ''receipt_id'') json_string of
             Inl err \<Rightarrow> (raise err, s)
           | Inr receipt_id \<Rightarrow>
               (case record_path e receipt_id of
                  Inl err \<Rightarrow> (raise err, s)
                | Inr _ \<Rightarrow>
                    if map_of (rs_files s) receipt_id \<noteq> None then (raise (OSError ''FileExistsError''), s)
                    else (return (), s\<lparr>rs_files := (receipt_id, \<lparr>rf_plain = True, rf_private = True, rf_record = Some rec\<rparr>) # rs_files s\<rparr>)))"

definition read_native_evidence :: "native_env \<Rightarrow> string \<Rightarrow> string option \<Rightarrow> receipt_store \<Rightarrow> dict checked" where
  "read_native_evidence e receipt_id project s =
     and_then (record_path e receipt_id) (\<lambda>_.
     and_then (require (rs_safe s) (NativeError ''Native receipt store must be private to the service account'')) (\<lambda>_.
     case map_of (rs_files s) receipt_id of
       None \<Rightarrow> raise (NativeError ''Native receipt is not service-owned private state'')
     | Some f \<Rightarrow>
         and_then (require (rf_plain f \<and> rf_private f) (NativeError ''Native receipt is not service-owned private state'')) (\<lambda>_.
         case rf_record f of
           None \<Rightarrow> raise (ContractError ''payload must contain valid JSON'')
         | Some rec \<Rightarrow>
             and_then (require (has_str rec ''kind'' NATIVE_OBSERVATION \<and> has_str rec ''receipt_id'' receipt_id)
               (NativeError ''Native receipt identity mismatch'')) (\<lambda>_.
             and_then (require (case project of None \<Rightarrow> True | Some p \<Rightarrow> has_str rec ''project'' p)
               (NativeError ''Native receipt belongs to another project'')) (\<lambda>_. return rec)))))"

section \<open>Descriptors\<close>

fun check_descriptors :: "string \<Rightarrow> string \<Rightarrow> json list \<Rightarrow> json list checked" where
  "check_descriptors artifact digest [] = return []"
| "check_descriptors artifact digest (c # cs) =
     and_then (obj c) (\<lambda>d. and_then (item d ''id'') (\<lambda>i. and_then (item d ''state'') (\<lambda>st.
     and_then (check_descriptors artifact digest cs) (\<lambda>rest.
     return (JObj (jmerge [] [(''id'', i), (''state'', st), (''artifact'', JStr artifact), (''sha256'', JStr digest)]) # rest)))))"

definition descriptors :: "native_env \<Rightarrow> dict \<Rightarrow> (dict \<times> dict) checked" where
  "descriptors e rec =
     and_then (and_then (item rec ''receipt_id'') json_string) (\<lambda>rid.
     and_then (record_path e rid) (\<lambda>artifact.
     and_then (item rec ''project'') (\<lambda>project.
     and_then (item rec ''task_id'') (\<lambda>task_id.
     and_then (item rec ''acceptance_id'') (\<lambda>acceptance_id.
     and_then (and_then (item rec ''observation'') obj) (\<lambda>observation.
     and_then (item observation ''deployed_source_commit'') (\<lambda>deployed.
     and_then (item rec ''accepted_source_commit'') (\<lambda>accepted.
     and_then (item rec ''state'') (\<lambda>state.
     and_then (item rec ''source_binding'') (\<lambda>binding.
     and_then (item observation ''target_id'') (\<lambda>target.
     and_then (and_then (item observation ''checks'') json_list) (\<lambda>checks.
     let digest = ne_digest e (JObj rec);
         common = [(''kind'', JStr NATIVE_OBSERVATION), (''receipt_id'', JStr rid), (''project'', project), (''task_id'', task_id),
                   (''acceptance_id'', acceptance_id), (''source_commit'', deployed), (''accepted_source_commit'', accepted),
                   (''artifact'', JStr artifact), (''sha256'', JStr digest)]
     in and_then (check_descriptors artifact digest checks) (\<lambda>shown.
        return (jmerge [] (common @ [(''state'', state), (''source_binding'', binding), (''target_id'', target)]),
                jmerge [] (common @ [(''checks'', JList shown)])))))))))))))))"

definition validate_native_evidence ::
  "native_env \<Rightarrow> receipt_store \<Rightarrow> dict \<Rightarrow> dict \<Rightarrow> string \<Rightarrow> string \<Rightarrow> dict \<Rightarrow> (dict \<times> dict) checked" where
  "validate_native_evidence e s deployment live task_id project acceptance =
     (let rid = get deployment ''receipt_id'' in
      and_then (read_native_evidence e (if truth rid then json_str rid else []) None s) (\<lambda>rec.
      and_then (require (get rec ''task_id'' = JStr task_id \<and> get rec ''project'' = JStr project \<and>
          get rec ''acceptance_id'' = get acceptance ''acceptance_id'' \<and>
          get rec ''accepted_source_commit'' = get acceptance ''source_commit'')
        (NativeError ''Native receipt is bound to another task or accepted source'')) (\<lambda>_.
      and_then (descriptors e rec) (\<lambda>expected.
      and_then (require (deployment = fst expected \<and> live = snd expected)
        (NativeError ''Submitted native evidence differs from the server-issued receipt'')) (\<lambda>_.
      and_then (item rec ''state'') (\<lambda>state.
      and_then (require (state = JStr ''succeeded'') (NativeError ''Native observations did not succeed'')) (\<lambda>_.
      return expected)))))))"

text \<open>The deployment service the completion gates ask; any exception of the validation is a refusal.\<close>

definition native_service_of :: "native_env \<Rightarrow> receipt_store \<Rightarrow> native_service" where
  "native_service_of e s =
     \<lparr>evidence_family = deployment_evidence_family e,
      native_accepts = (\<lambda>deployment live task_id project acceptance.
        case validate_native_evidence e s deployment live task_id project acceptance of Inr _ \<Rightarrow> True | Inl _ \<Rightarrow> False)\<rparr>"

section \<open>Issuing\<close>

definition READ_ONLY_EFFECTS :: "string list" where
  "READ_ONLY_EFFECTS = [''network'', ''read-remote'', ''read-local'', ''credentials'', ''process'']"

definition observe :: "native_env \<Rightarrow> dict \<Rightarrow> dict \<Rightarrow> string \<Rightarrow> (dict \<times> dict) checked" where
  "observe e accepted request project =
     (case filter (\<lambda>x. owned_by project x \<and> observes x) (ne_records e) of
        [x] \<Rightarrow>
          and_then (require (ex_status x = ''unverified'' \<and> ex_execution_source x = ''checkout'' \<and> ex_request_version x = 1 \<and>
              ex_response_version x = 1 \<and> set (ex_effects x) \<subseteq> set READ_ONLY_EFFECTS)
            (NativeError ''Native observation extension lacks a compatible read-only grant'')) (\<lambda>_.
          and_then (ne_run_observer e x accepted request) (\<lambda>answer.
          and_then (validate_observation_response answer (Some request)) (\<lambda>response. return (response, ex_pin x))))
      | _ \<Rightarrow> raise (NativeError ''Project requires one trusted native observation extension''))"

record observed_task =
  ot_id :: string
  ot_project :: string
  ot_status :: string

text \<open>The names chosen for an attempt and its times, and the resolved place of the acceptance artifact.\<close>

record attempt =
  at_challenge :: string
  at_receipt_id :: string
  at_failed_id :: string
  at_started :: int
  at_completed :: int
  at_artifact :: "(string \<times> string) option"

definition artifact_name :: "string \<Rightarrow> bool" where
  "artifact_name n \<longleftrightarrow> length n = 69 \<and> list_all is_hex (take 64 n) \<and> drop 64 n = ''.json''"

definition new_request :: "observed_task \<Rightarrow> attempt \<Rightarrow> json \<Rightarrow> json \<Rightarrow> dict" where
  "new_request t a source acceptance_id =
     jmerge [] [(''contract_version'', JNum 1), (''operation'', JStr ''observe_deployment''), (''challenge'', JStr (at_challenge a)),
       (''task_id'', JStr (ot_id t)), (''project'', JStr (ot_project t)), (''accepted_source_commit'', source), (''acceptance_id'', acceptance_id)]"

definition observation_record ::
  "observed_task \<Rightarrow> attempt \<Rightarrow> json \<Rightarrow> json \<Rightarrow> json \<Rightarrow> bool \<Rightarrow> dict \<Rightarrow> dict \<Rightarrow> dict \<Rightarrow> dict \<Rightarrow> dict" where
  "observation_record t a acceptance_id source source_tree succeeded request pin proof response =
     jmerge [] [(''kind'', JStr NATIVE_OBSERVATION), (''receipt_id'', JStr (at_receipt_id a)), (''project'', JStr (ot_project t)),
       (''task_id'', JStr (ot_id t)), (''acceptance_id'', acceptance_id), (''accepted_source_commit'', source),
       (''accepted_source_tree'', source_tree), (''started_at'', JNum (at_started a)), (''completed_at'', JNum (at_completed a)),
       (''state'', JStr (if succeeded then ''succeeded'' else ''failed'')), (''request'', JObj request), (''observer'', JObj pin),
       (''source_binding'', JObj proof), (''observation'', JObj response)]"

definition NOT_VERIFIED :: dict where
  "NOT_VERIFIED = [(''reason'', JStr ''observation_failed''), (''state'', JStr ''not_verified'')]"

text \<open>Everything up to the record to write, and whether the observations succeeded.\<close>

definition prepare_record :: "native_env \<Rightarrow> observed_task \<Rightarrow> attempt \<Rightarrow> (dict \<times> bool) checked" where
  "prepare_record e t a =
     and_then (require (ot_status t = ''running'') (NativeError ''Claim the task before observing its required native deployment'')) (\<lambda>_.
     case (at_artifact a, ne_receipt_root e) of
       (Some (parent, name), Some root) \<Rightarrow>
         and_then (require (parent = root \<and> artifact_name name)
           (NativeError ''Native observation requires a canonical local acceptance artifact'')) (\<lambda>_.
         case ne_validate_acceptance e (parent @ ''/'' @ name) of
           None \<Rightarrow> raise AcceptanceFailed
         | Some accepted \<Rightarrow>
             and_then (require (\<not> truth (get accepted ''scope'')) (NativeError ''Native deployment observation requires full source acceptance'')) (\<lambda>_.
             and_then (item accepted ''source_commit'') (\<lambda>source.
             and_then (item accepted ''acceptance_id'') (\<lambda>acceptance_id.
             and_then (validate_observation_request (new_request t a source acceptance_id)) (\<lambda>request.
             and_then (observe e accepted request (ot_project t)) (\<lambda>(response, pin).
             and_then (and_then (item response ''checks'') json_list) (\<lambda>checks.
             and_then (all_succeeded checks) (\<lambda>succeeded.
             and_then (if succeeded then source_binding e response else return NOT_VERIFIED) (\<lambda>proof.
             and_then (item accepted ''source_tree'') (\<lambda>source_tree.
             return (observation_record t a acceptance_id source source_tree succeeded request pin proof response, succeeded)))))))))))
     | _ \<Rightarrow> raise (OSError ''FileNotFoundError''))"

definition issue_record :: "native_env \<Rightarrow> observed_task \<Rightarrow> attempt \<Rightarrow> receipt_store \<Rightarrow> (dict \<times> dict) checked \<times> receipt_store" where
  "issue_record e t a s =
     (case prepare_record e t a of
        Inl err \<Rightarrow> (raise err, s)
      | Inr (rec, succeeded) \<Rightarrow>
          (case write_record e rec s of
             (Inl err, s1) \<Rightarrow> (raise err, s1)
           | (Inr _, s1) \<Rightarrow>
               if \<not> succeeded then (raise (NativeError ''Native observations failed; retained receipt''), s1)
               else (descriptors e rec, s1)))"

text \<open>\<open>type(exc).__name__\<close>\<close>

fun error_name :: "native_error \<Rightarrow> string" where
  "error_name (ContractError _) = ''NativeDeploymentContractError''"
| "error_name (NativeError _) = ''NativeDeploymentError''"
| "error_name AcceptanceFailed = ''NativeDeploymentError''"
| "error_name (KeyError _) = ''KeyError''"
| "error_name TypeError = ''TypeError''"
| "error_name (OSError n) = n"

definition failed_attempt :: "observed_task \<Rightarrow> attempt \<Rightarrow> native_error \<Rightarrow> dict" where
  "failed_attempt t a err =
     jmerge [] [(''kind'', JStr ''native_deployment_attempt.v1''), (''receipt_id'', JStr (at_failed_id a)), (''task_id'', JStr (ot_id t)),
       (''project'', JStr (ot_project t)), (''state'', JStr ''failed''), (''started_at'', JNum (at_started a)),
       (''completed_at'', JNum (at_completed a)), (''failure_type'', JStr (error_name err))]"

definition issue_native_evidence ::
  "native_env \<Rightarrow> observed_task \<Rightarrow> attempt \<Rightarrow> receipt_store \<Rightarrow> (dict \<times> dict) checked \<times> receipt_store" where
  "issue_native_evidence e t a s =
     (case issue_record e t a s of
        (Inr shown, s1) \<Rightarrow> (return shown, s1)
      | (Inl err, s1) \<Rightarrow>
          (case write_record e (failed_attempt t a err) s1 of
             (Inl _, s2) \<Rightarrow> (raise (NativeError ''Native observation failed and its attempt could not be retained''), s2)
           | (Inr _, s2) \<Rightarrow> (raise (NativeError ''retained failed attempt''), s2)))"

end
