(* ===== verification/NativeFacts.thy ===== *)
theory NativeFacts
  imports NativeDeployment
begin

text \<open>
  What a server-issued receipt is worth: every succeeded receipt in the store certifies the runtime
  inputs of the deployed source, a task of a native project completes only on such a receipt, and an
  issued receipt is the one that validation accepts.
\<close>

section \<open>The store\<close>

text \<open>What a succeeded record says about the git objects, whatever the observer claimed.\<close>

definition certified ::
  "(json \<Rightarrow> string) \<Rightarrow> (string \<Rightarrow> (string \<times> string list) list option) \<Rightarrow> (string \<Rightarrow> string \<Rightarrow> bool) \<Rightarrow> dict \<Rightarrow> bool" where
  "certified digest tree ancestor rec \<longleftrightarrow>
     (\<exists>accepted deployed obs rule paths prefixes before after cs.
        has_str rec ''accepted_source_commit'' accepted \<and> map_of rec ''observation'' = Some (JObj obs) \<and>
        has_str obs ''deployed_source_commit'' deployed \<and> map_of obs ''runtime_exclusions'' = Some (JObj rule) \<and>
        map_of rule ''paths'' = Some (JList paths) \<and> map_of rule ''prefixes'' = Some (JList prefixes) \<and> ancestor deployed accepted \<and>
        tree accepted = Some after \<and> tree deployed = Some before \<and>
        digest (projection_json (runtime_entries paths prefixes after)) = digest (projection_json (runtime_entries paths prefixes before)) \<and>
        map_of obs ''checks'' = Some (JList cs) \<and> all_succeeded cs = Inr True)"

lemma json_string_Inr [simp]: "json_string v = Inr s \<longleftrightarrow> v = JStr s"
  by (auto simp: json_string_def split: json.splits)

lemma obj_Inr [simp]: "obj v = Inr d \<longleftrightarrow> v = JObj d"
  by (auto simp: obj_def split: json.splits)

lemma json_list_Inr [simp]: "json_list v = Inr js \<longleftrightarrow> v = JList js"
  by (auto simp: json_list_def split: json.splits)

lemma runtime_projection_Inr:
  "runtime_projection e c rule = Inr h \<longleftrightarrow> (\<exists>entries ps qs. ne_tree e c = Some entries \<and> map_of rule ''paths'' = Some (JList ps) \<and>
     map_of rule ''prefixes'' = Some (JList qs) \<and> h = ne_digest e (projection_json (runtime_entries ps qs entries)))"
  by (auto simp: runtime_projection_def item_Inr split: option.splits)

lemma source_binding_sound:
  assumes "source_binding e response = Inr b"
  shows "\<exists>accepted deployed rule h. has_str response ''accepted_source_commit'' accepted \<and> has_str response ''deployed_source_commit'' deployed \<and>
    map_of response ''runtime_exclusions'' = Some (JObj rule) \<and> ne_ancestor e deployed accepted \<and>
    runtime_projection e accepted rule = Inr h \<and> runtime_projection e deployed rule = Inr h"
  using assms unfolding source_binding_def and_then_Inr item_Inr json_string_Inr
  by (elim exE conjE) (auto simp: item_Inr has_str_def split: option.split_asm prod.split_asm)

lemma observe_typed:
  assumes "observe e accepted request project = Inr (response, pin)"
  shows "observation_typed response \<and> (\<forall>k\<in>set BINDING_KEYS. map_of response k = map_of request k)"
proof -
  have "\<exists>answer. validate_observation_response answer (Some request) = Inr response"
    using assms by (auto simp: observe_def split: list.split_asm)
  with response_shape show ?thesis by blast
qed

lemma validated_request: "validate_observation_request d = Inr r \<Longrightarrow> r = d"
  by (auto simp: validate_observation_request_def)

lemma new_request_source: "map_of (new_request t a source acceptance_id) ''accepted_source_commit'' = Some source"
  by (simp add: new_request_def map_of_jmerge)

lemmas record_fields = observation_record_def map_of_jmerge

lemma prepare_record_sound:
  assumes "prepare_record e t a = Inr (rec, succeeded)"
  shows "has_str rec ''kind'' NATIVE_OBSERVATION" "has_str rec ''receipt_id'' (at_receipt_id a)"
    "has_str rec ''task_id'' (ot_id t)" "has_str rec ''project'' (ot_project t)"
    "has_str rec ''state'' (if succeeded then ''succeeded'' else ''failed'')"
    "succeeded \<Longrightarrow> certified (ne_digest e) (ne_tree e) (ne_ancestor e) rec"
proof -
  obtain accepted source acceptance_id response pin checks pf source_tree where
    v: "observe e accepted (new_request t a source acceptance_id) (ot_project t) = Inr (response, pin)"
    and c: "map_of response ''checks'' = Some (JList checks)" "all_succeeded checks = Inr succeeded"
    and p: "(if succeeded then source_binding e response else return NOT_VERIFIED) = Inr pf"
    and rec: "rec = observation_record t a acceptance_id source source_tree succeeded (new_request t a source acceptance_id) pin pf response"
    using assms
    by (auto simp: prepare_record_def item_Inr dest!: validated_request split: option.split_asm prod.split_asm)
  show "has_str rec ''kind'' NATIVE_OBSERVATION" "has_str rec ''receipt_id'' (at_receipt_id a)"
    "has_str rec ''task_id'' (ot_id t)" "has_str rec ''project'' (ot_project t)"
    "has_str rec ''state'' (if succeeded then ''succeeded'' else ''failed'')"
    by (simp_all add: rec has_str_def record_fields)
  assume s: "succeeded"
  then obtain acc dep rule h where b: "has_str response ''accepted_source_commit'' acc" "has_str response ''deployed_source_commit'' dep"
    "map_of response ''runtime_exclusions'' = Some (JObj rule)" "ne_ancestor e dep acc"
    "runtime_projection e acc rule = Inr h" "runtime_projection e dep rule = Inr h"
    using p source_binding_sound [of e response pf] by auto
  have "source = JStr acc"
    using observe_typed [OF v] b(1) by (auto simp: BINDING_KEYS_def has_str_def new_request_source)
  then have "has_str rec ''accepted_source_commit'' acc" "map_of rec ''observation'' = Some (JObj response)"
    by (simp_all add: rec has_str_def record_fields)
  with b c s show "certified (ne_digest e) (ne_tree e) (ne_ancestor e) rec"
    unfolding certified_def runtime_projection_Inr by auto metis
qed

text \<open>Issuing only ever adds files, and a file it adds is a failed attempt or a prepared record.\<close>

lemma write_record_cases:
  assumes "write_record e rec s = (r, s')"
  shows "(\<exists>err. r = Inl err) \<and> s' = s \<or>
    r = Inr () \<and> rs_safe s \<and> (\<exists>rid. has_str rec ''receipt_id'' rid \<and> is_uuid_hex rid \<and> map_of (rs_files s) rid = None \<and>
      s' = s\<lparr>rs_files := (rid, \<lparr>rf_plain = True, rf_private = True, rf_record = Some rec\<rparr>) # rs_files s\<rparr>)"
  using assms
  by (auto simp: write_record_def record_path_def item_Inr has_str_def split: if_split_asm sum.split_asm)

definition sound_files :: "native_env \<Rightarrow> receipt_store \<Rightarrow> bool" where
  "sound_files e s \<longleftrightarrow>
     (\<forall>rid f rec. (rid, f) \<in> set (rs_files s) \<and> rf_record f = Some rec \<and> has_str rec ''kind'' NATIVE_OBSERVATION \<and>
        has_str rec ''state'' ''succeeded'' \<longrightarrow> certified (ne_digest e) (ne_tree e) (ne_ancestor e) rec)"

lemma write_record_sound:
  assumes "write_record e rec s = (r, s')" and "sound_files e s"
    and "has_str rec ''kind'' NATIVE_OBSERVATION \<and> has_str rec ''state'' ''succeeded'' \<longrightarrow> certified (ne_digest e) (ne_tree e) (ne_ancestor e) rec"
  shows "sound_files e s'"
  using write_record_cases [OF assms(1)] assms(2,3) by (auto simp: sound_files_def)

lemma issue_native_evidence_sound:
  assumes "sound_files e s"
  shows "sound_files e (snd (issue_native_evidence e t a s))"
proof -
  obtain r s1 where r: "issue_record e t a s = (r, s1)" by (rule prod.exhaust)
  have s1: "sound_files e s1"
  proof (cases "prepare_record e t a")
    case (Inl err)
    then show ?thesis using r assms by (simp add: issue_record_def)
  next
    case (Inr x)
    obtain rec succeeded where x: "x = (rec, succeeded)" by (rule prod.exhaust)
    obtain w s' where w: "write_record e rec s = (w, s')" by (rule prod.exhaust)
    have "s1 = s'" using r w by (auto simp: issue_record_def Inr x split: sum.split_asm if_split_asm)
    moreover have "has_str rec ''state'' ''succeeded'' \<longrightarrow> succeeded"
      using prepare_record_sound(5) [OF Inr [unfolded x]] by (auto simp: has_str_def split: if_split_asm)
    then have "sound_files e s'"
      using write_record_sound [OF w assms] prepare_record_sound(6) [OF Inr [unfolded x]] by blast
    ultimately show ?thesis by simp
  qed
  have "\<not> has_str (failed_attempt t a err) ''kind'' NATIVE_OBSERVATION" for err
    by (simp add: failed_attempt_def has_str_def map_of_jmerge NATIVE_OBSERVATION_def)
  then have "sound_files e s2" if "write_record e (failed_attempt t a err) s1 = (w, s2)" for err w s2
    using write_record_sound [OF that s1] by blast
  then show ?thesis using s1 by (simp add: issue_native_evidence_def r split: sum.split prod.split)
qed

text \<open>
  The histories of a store: receipts are issued with whatever catalog, observers and tasks, files get
  lost or lose their protection, and the git objects stay what they are.
\<close>

inductive native_history ::
  "(json \<Rightarrow> string) \<Rightarrow> (string \<Rightarrow> (string \<times> string list) list option) \<Rightarrow> (string \<Rightarrow> string \<Rightarrow> bool) \<Rightarrow> receipt_store \<Rightarrow> bool"
  for digest tree ancestor where
  start: "native_history digest tree ancestor \<lparr>rs_safe = safe, rs_files = []\<rparr>"
| issue: "native_history digest tree ancestor s \<Longrightarrow> ne_digest e = digest \<Longrightarrow> ne_tree e = tree \<Longrightarrow> ne_ancestor e = ancestor \<Longrightarrow>
    native_history digest tree ancestor (snd (issue_native_evidence e t a s))"
| lost: "native_history digest tree ancestor s \<Longrightarrow> native_history digest tree ancestor (s\<lparr>rs_files := filter P (rs_files s)\<rparr>)"
| exposed: "native_history digest tree ancestor s \<Longrightarrow>
    native_history digest tree ancestor (s\<lparr>rs_safe := b, rs_files := map (\<lambda>(i, f). (i, f\<lparr>rf_plain := p i, rf_private := q i\<rparr>)) (rs_files s)\<rparr>)"

lemma native_history_sound:
  assumes "native_history (ne_digest e) (ne_tree e) (ne_ancestor e) s"
  shows "sound_files e s"
  using assms
proof (induction rule: native_history.induct)
  case (issue s e' t a)
  then have "sound_files e' s" by (simp add: sound_files_def)
  from issue_native_evidence_sound [OF this, of t a] show ?case using issue.hyps by (simp add: sound_files_def)
next
  case (exposed s b p q)
  then show ?case by (fastforce simp: sound_files_def)
qed (auto simp: sound_files_def)

section \<open>Completion on native evidence\<close>

lemma read_native_evidence_Inr:
  assumes "read_native_evidence e rid project s = Inr rec"
  shows "\<exists>f. map_of (rs_files s) rid = Some f \<and> rf_record f = Some rec \<and> rf_plain f \<and> rf_private f \<and> rs_safe s \<and>
    has_str rec ''kind'' NATIVE_OBSERVATION \<and> has_str rec ''receipt_id'' rid"
  using assms by (auto simp: read_native_evidence_def split: option.split_asm)

lemma get_JStr: "get d k = JStr v \<longleftrightarrow> has_str d k v"
  by (auto simp: get_def get_or_def has_str_def split: option.splits)

lemma native_family_used:
  assumes "deployment_evidence_family e (ev_project t) = ''native''" and "ev_project t \<noteq> []" and "truth (get req ''deployment'')"
  shows "uses_native (family_of (native_service_of e s) t req) req dep live"
proof -
  have "family_of (native_service_of e s) t req = ''native''" using assms by (simp add: family_of_def native_service_of_def)
  moreover have "map_of req ''deployment'' \<noteq> Some (JBool False)" using assms(3) by (auto simp: get_def get_or_def)
  ultimately show ?thesis by (simp add: uses_native_def)
qed

text \<open>
  C7: A task of a project with native deployments, whose plan declares a deployment, has no open
  gate only if the private store holds a receipt the server issued for exactly this task, project and
  accepted source commit, which succeeded: the deployed commit is an ancestor of the accepted one, both
  have the same runtime inputs under the rule, as digests of their trees, and every check succeeded.
  Nothing a client stores in the task's evidence stands for that.
\<close>

theorem native_completion_certified:
  assumes "native_history (ne_digest e) (ne_tree e) (ne_ancestor e) s"
    and "deployment_evidence_family e (ev_project t) = ''native''" and "ev_project t \<noteq> []"
    and "declared_requirements t = JObj req" and "truth (get req ''deployment'')"
    and "completion_gates (native_service_of e s) t = []"
  shows "\<exists>rid f rec source cov. map_of (rs_files s) rid = Some f \<and> rf_record f = Some rec \<and> rf_private f \<and>
    accepted_source (get_dict (ev_verification t) ''acceptance'') = Some (source, cov) \<and>
    has_str rec ''task_id'' (ev_id t) \<and> has_str rec ''project'' (ev_project t) \<and> has_str rec ''accepted_source_commit'' source \<and>
    has_str rec ''state'' ''succeeded'' \<and> certified (ne_digest e) (ne_tree e) (ne_ancestor e) rec"
proof -
  let ?acc = "get_dict (ev_verification t) ''acceptance''" and ?dep = "get_dict (ev_verification t) ''deployment''"
    and ?live = "get_dict (ev_verification t) ''live_validation''" and ?ns = "native_service_of e s"
  obtain rq where rq: "from_task t = Inr rq" using gates_from_task [OF assms(6)] by blast
  have "native_accepts ?ns ?dep ?live (ev_id t) (ev_project t) ?acc \<and> accepted_source ?acc \<noteq> None"
    using gates_unfold(2) [OF rq assms(6) assms(4) refl refl refl refl] native_family_used [OF assms(2,3,5)] assms(5) by simp
  then obtain x source cov where v: "validate_native_evidence e s ?dep ?live (ev_id t) (ev_project t) ?acc = Inr x"
    and src: "accepted_source ?acc = Some (source, cov)"
    by (auto simp: native_service_of_def split: sum.split_asm)
  obtain rid rec where rd: "read_native_evidence e rid None s = Inr rec" "get rec ''task_id'' = JStr (ev_id t)"
    "get rec ''project'' = JStr (ev_project t)" "get rec ''accepted_source_commit'' = get ?acc ''source_commit''"
    "map_of rec ''state'' = Some (JStr ''succeeded'')"
    using v by (auto simp: validate_native_evidence_def Let_def item_Inr)
  obtain f where f: "map_of (rs_files s) rid = Some f" "rf_record f = Some rec" "rf_private f" "has_str rec ''kind'' NATIVE_OBSERVATION"
    using read_native_evidence_Inr [OF rd(1)] by blast
  have "has_str rec ''accepted_source_commit'' source"
    using rd(4) accepted_source_oid [OF src] by (simp add: get_JStr [symmetric])
  moreover have "certified (ne_digest e) (ne_tree e) (ne_ancestor e) rec"
    using native_history_sound [OF assms(1)] map_of_SomeD [OF f(1)] f(2,4) rd(5) by (auto simp: sound_files_def has_str_def)
  moreover have "has_str rec ''task_id'' (ev_id t)" "has_str rec ''project'' (ev_project t)" "has_str rec ''state'' ''succeeded''"
    using rd(2,3,5) by (simp_all add: get_JStr) (simp add: has_str_def)
  ultimately show ?thesis using f src by blast
qed

section \<open>Issued receipts validate\<close>

text \<open>
  C40: A receipt that was issued is accepted as it was issued, and issuing keeps every earlier one: the
  pair of descriptors the server answers is exactly what validation accepts for that task and
  project, with an acceptance of the same id and source; the files that were there are unchanged,
  those of failed attempts included.
\<close>

theorem issued_receipt_validates:
  assumes "issue_native_evidence e t a s = (Inr (dep, live), s')"
    and "get acceptance ''acceptance_id'' = get dep ''acceptance_id''" and "get acceptance ''source_commit'' = get dep ''accepted_source_commit''"
  shows "validate_native_evidence e s' dep live (ot_id t) (ot_project t) acceptance = Inr (dep, live) \<and>
    (\<forall>rid f. map_of (rs_files s) rid = Some f \<longrightarrow> map_of (rs_files s') rid = Some f)"
proof -
  obtain rec where p: "prepare_record e t a = Inr (rec, True)" and w: "write_record e rec s = (Inr (), s')" and d: "descriptors e rec = Inr (dep, live)"
    using assms(1) by (auto simp: issue_native_evidence_def issue_record_def split: prod.split_asm sum.split_asm if_split_asm)
  note rec = prepare_record_sound [OF p]
  obtain rid where rid: "has_str rec ''receipt_id'' rid" "is_uuid_hex rid" "map_of (rs_files s) rid = None" "rs_safe s"
    "s' = s\<lparr>rs_files := (rid, \<lparr>rf_plain = True, rf_private = True, rf_record = Some rec\<rparr>) # rs_files s\<rparr>"
    using write_record_cases [OF w] by auto
  have dep: "get dep ''receipt_id'' = JStr rid" "get dep ''acceptance_id'' = get rec ''acceptance_id''"
    "get dep ''accepted_source_commit'' = get rec ''accepted_source_commit''"
    using d rid(1) by (auto simp: descriptors_def item_Inr Let_def get_def get_or_def has_str_def map_of_jmerge)
  have ne: "rid \<noteq> []" using rid(2) by (auto simp: is_uuid_hex_def)
  have rd: "read_native_evidence e rid None s' = Inr rec"
    using rid rec(1) by (simp add: read_native_evidence_def record_path_def)
  have g: "get rec ''task_id'' = JStr (ot_id t)" "get rec ''project'' = JStr (ot_project t)" using rec(3,4) by (simp_all add: get_JStr)
  have st: "item rec ''state'' = Inr (JStr ''succeeded'')" using rec(5) by (simp add: item_def has_str_def)
  have "validate_native_evidence e s' dep live (ot_id t) (ot_project t) acceptance = Inr (dep, live)"
    by (simp add: validate_native_evidence_def Let_def json_str_def dep ne rd d g st assms(2,3))
  with rid(3,5) show ?thesis by auto
qed

section \<open>An observed deployment\<close>

text \<open>A deployed commit that differs from the accepted one in an excluded file only.\<close>

definition sample_deployed :: string where
  "sample_deployed = replicate 40 CHR ''b''"

definition sample_rule :: dict where
  "sample_rule = [(''paths'', JList [JStr ''README'']), (''prefixes'', JList []), (''rule_version'', JNum 1)]"

definition sample_observation :: dict where
  "sample_observation =
     [(''acceptance_id'', JStr ''acc''), (''accepted_source_commit'', JStr sample_oid), (''challenge'', JStr (replicate 32 CHR ''0'')),
      (''checks'', JList [JObj [(''evidence'', JObj []), (''id'', JStr ''home''), (''state'', JStr ''success'')]]),
      (''deployed_source_commit'', JStr sample_deployed), (''project'', JStr ''sf''), (''runtime_exclusions'', JObj sample_rule),
      (''runtime_policy_path'', JStr ''policy.json''), (''schema_version'', JNum 1), (''target_id'', JStr ''prod''), (''task_id'', JStr ''task-1'')]"

definition sample_native_env :: native_env where
  "sample_native_env =
     \<lparr>ne_diagnostics = False,
      ne_records = [\<lparr>ex_owner = Some ''sf'', ex_operations = Some [''observe_deployment''], ex_status = ''unverified'',
        ex_execution_source = ''checkout'', ex_request_version = 1, ex_response_version = 1, ex_effects = [''network''], ex_pin = []\<rparr>],
      ne_digest = (\<lambda>j. case j of JObj [(_, JList es)] \<Rightarrow> json_repr (JList es) | _ \<Rightarrow> ''d''), ne_store_root = ''/s'', ne_ancestor = (\<lambda>a b. a = sample_deployed \<and> b = sample_oid),
      ne_tree = (\<lambda>c. Some (if c = sample_oid then [(''README'', [''1'']), (''main.py'', [''7''])] else [(''main.py'', [''7''])])),
      ne_policy = (\<lambda>_ _. Some (''p'', Some sample_rule)), ne_changes = (\<lambda>_ _. Some [''README'']), ne_receipt_root = Some ''/r'',
      ne_validate_acceptance = (\<lambda>_. Some [(''acceptance_id'', JStr ''acc''), (''source_commit'', JStr sample_oid), (''source_tree'', JStr ''tree'')]),
      ne_run_observer = (\<lambda>_ _ _. Inr sample_observation)\<rparr>"

definition sample_attempt :: attempt where
  "sample_attempt =
     \<lparr>at_challenge = replicate 32 CHR ''0'', at_receipt_id = replicate 32 CHR ''1'', at_failed_id = replicate 32 CHR ''2'', at_started = 1,
      at_completed = 2, at_artifact = Some (''/r'', replicate 64 CHR ''c'' @ ''.json'')\<rparr>"

definition sample_observed :: observed_task where
  "sample_observed = \<lparr>ot_id = ''task-1'', ot_project = ''sf'', ot_status = ''running''\<rparr>"

definition sample_issue :: "(dict \<times> dict) checked \<times> receipt_store" where
  "sample_issue = issue_native_evidence sample_native_env sample_observed sample_attempt \<lparr>rs_safe = True, rs_files = []\<rparr>"

definition sample_acceptance :: dict where
  "sample_acceptance = [(''acceptance_id'', JStr ''acc''), (''source_commit'', JStr sample_oid), (''state'', JStr ''success'')]"

definition sample_native_task :: evidence_task where
  "sample_native_task =
     \<lparr>ev_id = ''task-1'', ev_project = ''sf'', ev_context = [(''completion_requirements'', JObj [(''deployment'', JBool True)])],
      ev_requirements = JNull, ev_files_to_modify = JNull, ev_files_to_create = JNull, ev_commits = [sample_oid],
      ev_verification = (case fst sample_issue of
         Inr (dep, live) \<Rightarrow> [(''acceptance'', JObj sample_acceptance), (''deployment'', JObj dep), (''live_validation'', JObj live)] | Inl _ \<Rightarrow> [])\<rparr>"

theorem native_completion_certified_witness:
  "\<exists>rid f rec. map_of (rs_files (snd sample_issue)) rid = Some f \<and> rf_record f = Some rec \<and> has_str rec ''task_id'' ''task-1''"
proof -
  have h: "native_history (ne_digest sample_native_env) (ne_tree sample_native_env) (ne_ancestor sample_native_env) (snd sample_issue)"
    unfolding sample_issue_def by (intro native_history.intros refl)
  have t: "ev_project sample_native_task = ''sf''" "ev_id sample_native_task = ''task-1''"
    "declared_requirements sample_native_task = JObj [(''deployment'', JBool True)]" "truth (get [(''deployment'', JBool True)] ''deployment'')"
    by (simp_all add: sample_native_task_def declared_requirements_def get_def get_or_def)
  have "deployment_evidence_family sample_native_env ''sf'' = ''native''" by code_simp
  then have "deployment_evidence_family sample_native_env (ev_project sample_native_task) = ''native''" "ev_project sample_native_task \<noteq> []"
    by (simp_all add: t)
  moreover have "completion_gates (native_service_of sample_native_env (snd sample_issue)) sample_native_task = []" by code_simp
  ultimately show ?thesis using native_completion_certified [OF h] t by metis
qed

theorem issued_receipt_validates_witness:
  "\<exists>dep live. fst sample_issue = Inr (dep, live) \<and>
     validate_native_evidence sample_native_env (snd sample_issue) dep live ''task-1'' ''sf'' sample_acceptance = Inr (dep, live)"
proof -
  have "case fst sample_issue of Inr (dep, live) \<Rightarrow> get sample_acceptance ''acceptance_id'' = get dep ''acceptance_id'' \<and>
      get sample_acceptance ''source_commit'' = get dep ''accepted_source_commit'' | Inl _ \<Rightarrow> False" by code_simp
  then obtain dep live where d: "fst sample_issue = Inr (dep, live)" "get sample_acceptance ''acceptance_id'' = get dep ''acceptance_id''"
    "get sample_acceptance ''source_commit'' = get dep ''accepted_source_commit''"
    by (auto split: sum.split_asm)
  then have "issue_native_evidence sample_native_env sample_observed sample_attempt \<lparr>rs_safe = True, rs_files = []\<rparr> = (Inr (dep, live), snd sample_issue)"
    unfolding sample_issue_def by (metis prod.collapse)
  from issued_receipt_validates [OF this d(2,3)] d(1) show ?thesis by (simp add: sample_observed_def)
qed


end
