(* ===== verification/ManagedReleases.thy ===== *)
theory ManagedReleases
  imports FileSystem HeavyWork NativeContract
begin

text \<open>
  Managed releases (\<open>backend/cli/lib/service_release.py\<close>): an accepted commit is materialized into a
  release directory with a sealed receipt, its phases are recorded there, and completing it moves the
  \<open>current\<close> and \<open>previous\<close> links and prunes releases nothing refers to.

  The state is the file system and the receipt files, the latter as the JSON value their text decodes
  to (\<open>None\<close> where it does not decode). Git, the digest of a receipt, which releases a running \<open>st\<close>
  holds and which removals fail are fields of the environment; a phase takes its instant as argument.
\<close>

datatype release_error = ReleaseError string | ReleaseOSError | ReleaseKeyError

type_synonym 'a released = "(release_error, 'a) result"

record release_env =
  me_cwd :: path
  me_digest :: "dict \<Rightarrow> string"
  me_commit :: "string \<Rightarrow> string option"
  me_tree :: "string \<Rightarrow> string option"
  me_archive :: "string \<Rightarrow> (path \<times> node) list option"
  me_ancestor :: "string \<Rightarrow> string \<Rightarrow> bool"
  me_in_use :: "path \<Rightarrow> bool"
  me_rm_fault :: "path \<Rightarrow> (path \<Rightarrow> bool) option"
  me_smoke :: "path \<Rightarrow> string option"

record release_state =
  ms_fs :: fs
  ms_receipts :: "(path \<times> json option) list"

section \<open>Paths with links\<close>

text \<open>\<open>os.path.realpath(p, strict=True)\<close>: a missing part or a loop raises.\<close>

function resolve_strict :: "fs \<Rightarrow> (path \<times> path option) list \<Rightarrow> item list \<Rightarrow> path \<Rightarrow> path option" where
  "resolve_strict fs seen [] path = Some path"
| "resolve_strict fs seen (Resolved l # rest) path = resolve_strict fs ((l, Some path) # seen) rest path"
| "resolve_strict fs seen (Part name # rest) path =
     (if name = [] \<or> name = ''.'' then resolve_strict fs seen rest path
      else if name = ''..'' then resolve_strict fs seen rest (butlast path)
      else (case lookup fs (path @ [name]) of
              None \<Rightarrow> None
            | Some (Link target) \<Rightarrow>
                (case map_of seen (path @ [name]) of
                   Some (Some p) \<Rightarrow> resolve_strict fs seen rest p
                 | Some None \<Rightarrow> None
                 | None \<Rightarrow>
                     resolve_strict fs ((path @ [name], None) # seen) (link_parts target @ Resolved (path @ [name]) # rest)
                       (if startswith target ''/'' then [] else path))
            | Some _ \<Rightarrow> resolve_strict fs seen rest (path @ [name])))"
  by pat_completeness auto

termination
proof (relation "measures [\<lambda>(fs, seen, stack, path). card (unseen fs seen), \<lambda>(fs, seen, stack, path). length stack]")
  fix fs seen l rest and path :: path
  show "((fs, (l, Some path) # seen, rest, path), (fs, seen, Resolved l # rest, path))
      \<in> measures [\<lambda>(fs, seen, stack, path). card (unseen fs seen), \<lambda>(fs, seen, stack, path). length stack]"
    using unseen_Cons [of fs l "Some path" seen] by auto
qed (auto simp: unseen_new)

declare resolve_strict.simps(3) [simp del]

definition strict_path :: "fs \<Rightarrow> path \<Rightarrow> path option" where
  "strict_path fs p = resolve_strict fs [] (map Part p) []"

definition lstat :: "fs \<Rightarrow> path \<Rightarrow> node option" where
  "lstat fs p =
     (if p = [] then Some Dir
      else case follow fs 40 (butlast p) [] of Some q \<Rightarrow> lookup fs (q @ [last p]) | None \<Rightarrow> None)"

definition is_symlink :: "fs \<Rightarrow> path \<Rightarrow> bool" where
  "is_symlink fs p = (case lstat fs p of Some (Link _) \<Rightarrow> True | _ \<Rightarrow> False)"

text \<open>\<open>mkdir(parents=True, exist_ok=True)\<close>\<close>

fun mkdirs :: "path \<Rightarrow> path \<Rightarrow> fs \<Rightarrow> fs option" where
  "mkdirs p [] fs = Some fs"
| "mkdirs p (c # cs) fs =
     (if is_dir fs (p @ [c]) then mkdirs (p @ [c]) cs fs
      else case (lstat fs (p @ [c]), follow fs 40 p []) of
             (None, Some r) \<Rightarrow> mkdirs (p @ [c]) cs (fs_put (r @ [c]) Dir fs)
           | _ \<Rightarrow> None)"

section \<open>Accepted sources\<close>

definition text_or_empty :: "dict \<Rightarrow> string \<Rightarrow> json" where
  "text_or_empty d k = JStr (if truth (get d k) then json_str (get d k) else [])"

text \<open>\<open>int(v)\<close> and \<open>float(v)\<close>, numbers being integers.\<close>

definition to_number :: "json \<Rightarrow> int released" where
  "to_number v =
     (case v of
        JNum i \<Rightarrow> return i
      | JBool b \<Rightarrow> return (if b then 1 else 0)
      | JStr s \<Rightarrow> (case parse_int s of Some i \<Rightarrow> return i | None \<Rightarrow> raise (ReleaseError ''Accepted source identity is invalid''))
      | _ \<Rightarrow> raise (ReleaseError ''Accepted source identity is invalid''))"

definition count_of :: "dict \<Rightarrow> string \<Rightarrow> json released" where
  "count_of d k = and_then (to_number (if truth (get d k) then get d k else JNum 0)) (\<lambda>i. return (JNum i))"

definition duration_of :: "dict \<Rightarrow> string \<Rightarrow> json released" where
  "duration_of d k = (if get d k = JNull then return JNull else and_then (to_number (get d k)) (\<lambda>i. return (JNum i)))"

definition scope_of :: "dict \<Rightarrow> json released" where
  "scope_of d =
     (case get_or d ''scope'' (JList []) of
        JList js \<Rightarrow> return (JList (map (JStr \<circ> json_str) js))
      | JObj kvs \<Rightarrow> return (JList (map (JStr \<circ> fst) kvs))
      | JStr s \<Rightarrow> return (JList (map (\<lambda>c. JStr [c]) s))
      | _ \<Rightarrow> raise (ReleaseError ''Accepted source identity is invalid''))"

definition required_text :: "dict \<Rightarrow> string \<Rightarrow> string released" where
  "required_text d k =
     (case map_of d k of Some v \<Rightarrow> return (json_str v) | None \<Rightarrow> raise (ReleaseError (''Accepted source is missing '' @ k)))"

text \<open>\<open>AcceptedSource.from_descriptor(d).evidence()\<close>\<close>

definition from_descriptor :: "dict \<Rightarrow> bool \<Rightarrow> dict released" where
  "from_descriptor d require_full =
     (let coverage = get d ''coverage'' in
      and_then (require (\<not> ((require_full \<or> coverage \<noteq> JNull) \<and> coverage \<noteq> JStr ''full''))
        (ReleaseError ''Managed releases require full acceptance coverage'')) (\<lambda>_.
      and_then (required_text d ''acceptance_id'') (\<lambda>acceptance_id.
      and_then (required_text d ''source_commit'') (\<lambda>source_commit.
      and_then (required_text d ''source_tree'') (\<lambda>source_tree.
      and_then (scope_of d) (\<lambda>scope.
      and_then (count_of d ''check_count'') (\<lambda>check_count.
      and_then (duration_of d ''duration_ms'') (\<lambda>duration.
      and_then (count_of d ''output_bytes'') (\<lambda>output_bytes.
      and_then (duration_of d ''reuse_lookup_ms'') (\<lambda>lookup_ms.
      and_then (require (acceptance_id \<noteq> [] \<and> source_commit \<noteq> [] \<and> source_tree \<noteq> [])
        (ReleaseError ''Accepted source identity is incomplete'')) (\<lambda>_.
      return (jmerge []
        [(''acceptance_id'', JStr acceptance_id), (''source_commit'', JStr source_commit), (''source_tree'', JStr source_tree),
         (''acceptance_artifact'', text_or_empty d ''acceptance_artifact''), (''input_fingerprint'', text_or_empty d ''input_fingerprint''),
         (''acceptance_plan_fingerprint'', text_or_empty d ''acceptance_plan_fingerprint''), (''scope'', scope),
         (''task_id'', text_or_empty d ''task_id''), (''checks'', get d ''checks''), (''check_count'', check_count),
         (''duration_ms'', duration), (''output_bytes'', output_bytes), (''started_at'', get d ''started_at''),
         (''completed_at'', get d ''completed_at''), (''reused'', JBool (truth (get d ''reused''))), (''reuse_lookup_ms'', lookup_ms),
         (''coverage'', coverage)]))))))))))))"

record prepared =
  pr_project :: string
  pr_build :: string
  pr_source :: dict
  pr_root :: path
  pr_source_root :: path
  pr_receipt :: path

definition pr_commit :: "prepared \<Rightarrow> string" where
  "pr_commit r = json_str (get (pr_source r) ''source_commit'')"

section \<open>Where a project's releases are\<close>

definition is_alnum :: "char \<Rightarrow> bool" where
  "is_alnum c \<longleftrightarrow> is_digit c \<or> (65 \<le> char_nat c \<and> char_nat c \<le> 90) \<or> (97 \<le> char_nat c \<and> char_nat c \<le> 122)"

definition safe_project_id :: "string \<Rightarrow> string released" where
  "safe_project_id project =
     (let safe = rstrip_chars ''-'' (lstrip_chars ''-'' (map (\<lambda>c. if is_alnum c \<or> c \<in> set ''-_'' then c else CHR ''-'') project))
      in if safe = [] then raise (ReleaseError ''Invalid managed project id'') else return safe)"

definition project_state :: "string \<Rightarrow> path \<Rightarrow> path released" where
  "project_state project state_root = and_then (safe_project_id project) (\<lambda>safe. return (state_root @ [''projects'', safe]))"

section \<open>Receipts\<close>

definition receipt_id :: "release_env \<Rightarrow> dict \<Rightarrow> string" where
  "receipt_id e value = me_digest e (filter (\<lambda>(k, _). k \<noteq> ''deployment_id'') value)"

definition sealed :: "release_env \<Rightarrow> dict \<Rightarrow> dict" where
  "sealed e value = jput ''deployment_id'' (JStr (receipt_id e value)) value"

definition write_receipt :: "release_env \<Rightarrow> path \<Rightarrow> dict \<Rightarrow> release_state \<Rightarrow> release_state" where
  "write_receipt e p value s = s\<lparr>ms_receipts := dict_set p (Some (JObj (sealed e value))) (ms_receipts s)\<rparr>"

definition intact :: "release_env \<Rightarrow> dict \<Rightarrow> bool" where
  "intact e value \<longleftrightarrow> has_str value ''deployment_id'' (receipt_id e value)"

definition read_receipt :: "release_env \<Rightarrow> prepared \<Rightarrow> release_state \<Rightarrow> dict released" where
  "read_receipt e r s =
     (case map_of (ms_receipts s) (pr_receipt r) of
        Some (Some (JObj value)) \<Rightarrow>
          and_then (require (has_str value ''build_id'' (pr_build r)) (ReleaseError ''Release receipt identity mismatch'')) (\<lambda>_.
          and_then (require (intact e value) (ReleaseError ''Release receipt integrity mismatch'')) (\<lambda>_. return value))
      | Some (Some _) \<Rightarrow> raise (ReleaseError ''Release receipt identity mismatch'')
      | _ \<Rightarrow> raise (ReleaseError ''Release receipt unavailable''))"

definition events_of :: "dict \<Rightarrow> json list released" where
  "events_of value = (case map_of value ''events'' of Some (JList es) \<Rightarrow> return es | _ \<Rightarrow> raise ReleaseKeyError)"

definition phase_event :: "string \<Rightarrow> string \<Rightarrow> int \<Rightarrow> dict \<Rightarrow> dict" where
  "phase_event phase status at evidence = jmerge (jmerge [] [(''phase'', JStr phase), (''status'', JStr status), (''at'', JNum at)]) evidence"

text \<open>Reading a receipt, changing its events and other entries, and writing it back.\<close>

definition update_receipt ::
  "release_env \<Rightarrow> prepared \<Rightarrow> (json list \<Rightarrow> json list) \<Rightarrow> (dict \<Rightarrow> dict) \<Rightarrow> (release_state, release_error, unit) op" where
  "update_receipt e r events change s =
     (case and_then (read_receipt e r s) (\<lambda>value. and_then (events_of value) (\<lambda>es. return (value, es))) of
        Inl err \<Rightarrow> (raise err, s)
      | Inr (value, es) \<Rightarrow> (return (), write_receipt e (pr_receipt r) (change (jput ''events'' (JList (events es)) value)) s))"

definition mark_phase :: "release_env \<Rightarrow> prepared \<Rightarrow> string \<Rightarrow> string \<Rightarrow> int \<Rightarrow> dict \<Rightarrow> (release_state, release_error, unit) op" where
  "mark_phase e r phase status at evidence =
     update_receipt e r (\<lambda>es. es @ [JObj (phase_event phase status at evidence)])
       (\<lambda>value. if phase = ''migrations'' then jput ''migrations'' (JStr status) value else value)"

definition last_is :: "json list \<Rightarrow> string \<Rightarrow> string \<Rightarrow> bool" where
  "last_is events phase status =
     (events \<noteq> [] \<and> (case last events of JObj d \<Rightarrow> has_str d ''phase'' phase \<and> has_str d ''status'' status | _ \<Rightarrow> False))"

definition fail_release :: "release_env \<Rightarrow> prepared \<Rightarrow> string \<Rightarrow> string option \<Rightarrow> int \<Rightarrow> (release_state, release_error, unit) op" where
  "fail_release e r failed_phase migrations at =
     update_receipt e r
       (\<lambda>es. if last_is es failed_phase ''failed'' then es else es @ [JObj (phase_event failed_phase ''failed'' at [])])
       (\<lambda>value. let failed = jmerge value [(''state'', JStr ''failed''), (''failed_phase'', JStr failed_phase), (''completed_at'', JNum at)]
                in case migrations of Some m \<Rightarrow> jput ''migrations'' (JStr m) failed | None \<Rightarrow> failed)"

section \<open>The live release\<close>

definition current_build :: "path \<Rightarrow> fs \<Rightarrow> string option released" where
  "current_build ps fs =
     (if \<not> is_symlink fs (ps @ [''current'']) then return None
      else case strict_path fs (ps @ [''current'']) of
             None \<Rightarrow> return None
           | Some target \<Rightarrow>
               if butlast target \<noteq> ps @ [''releases''] then raise (ReleaseError ''Managed current release points outside the release root'')
               else return (Some (last target)))"

definition current_source_root :: "path \<Rightarrow> fs \<Rightarrow> path option released" where
  "current_source_root ps fs =
     and_then (current_build ps fs) (\<lambda>build.
     case build of
       None \<Rightarrow> return None
     | Some b \<Rightarrow>
         let source_root = ps @ [''releases'', b, ''source'']
         in if is_dir fs source_root then return (Some source_root) else raise (ReleaseError ''Current managed release source is unavailable''))"

definition build_receipt :: "release_env \<Rightarrow> path \<Rightarrow> string \<Rightarrow> release_state \<Rightarrow> dict option" where
  "build_receipt e ps build s =
     (case map_of (ms_receipts s) (ps @ [''receipts'', build @ ''.json'']) of
        Some (Some (JObj value)) \<Rightarrow> if intact e value then Some value else None
      | _ \<Rightarrow> None)"

definition build_commit :: "release_env \<Rightarrow> path \<Rightarrow> string \<Rightarrow> release_state \<Rightarrow> string option" where
  "build_commit e ps build s =
     (case build_receipt e ps build s of
        None \<Rightarrow> None
      | Some value \<Rightarrow> (case get (get_dict value ''source'') ''source_commit'' of JStr c \<Rightarrow> if c \<noteq> [] then Some c else None | _ \<Rightarrow> None))"

definition current_release_commit :: "release_env \<Rightarrow> path \<Rightarrow> release_state \<Rightarrow> string option released" where
  "current_release_commit e ps s =
     and_then (current_build ps (ms_fs s)) (\<lambda>build.
     return (case build of None \<Rightarrow> None | Some b \<Rightarrow> build_commit e ps b s))"

definition require_forward_deploy :: "release_env \<Rightarrow> path \<Rightarrow> string \<Rightarrow> bool \<Rightarrow> release_state \<Rightarrow> unit released" where
  "require_forward_deploy e ps commit rollback s =
     and_then (current_release_commit e ps s) (\<lambda>current.
     case current of
       None \<Rightarrow> return ()
     | Some c \<Rightarrow> require (rollback \<or> c = commit \<or> me_ancestor e c commit) (ReleaseError ''deploy_not_forward''))"

section \<open>Preparing a release\<close>

text \<open>The state root must not be inside the checkout.\<close>

definition outside_checkout :: "release_env \<Rightarrow> path \<Rightarrow> path \<Rightarrow> fs \<Rightarrow> unit released" where
  "outside_checkout e ps repo fs =
     (case strict_path fs repo of
        None \<Rightarrow> raise (ReleaseError ''Development checkout is unavailable'')
      | Some root \<Rightarrow>
          require (\<not> prefix root (realpath fs (me_cwd e) (path_text ps))) (ReleaseError ''Service state root must be outside the development checkout''))"

text \<open>\<open>os.replace\<close> of the staged directory, which holds the archive's files, onto the release's place.\<close>

definition install_release :: "path \<Rightarrow> (path \<times> node) list \<Rightarrow> fs \<Rightarrow> fs released" where
  "install_release root files fs =
     (case follow fs 40 (butlast root) [] of
        None \<Rightarrow> raise ReleaseOSError
      | Some parent \<Rightarrow>
          let place = parent @ [last root] in
          if (case lookup fs place of None \<Rightarrow> True | Some Dir \<Rightarrow> children fs place = [] | _ \<Rightarrow> False)
          then return (fold (\<lambda>(rel, n) fs. fs_put (place @ [''source''] @ rel) n fs) (filter (\<lambda>(rel, _). rel \<noteq> []) files)
                        (fs_put (place @ [''source'']) Dir (fs_put place Dir fs)))
          else raise ReleaseOSError)"

definition first_receipt :: "string \<Rightarrow> string \<Rightarrow> path \<Rightarrow> dict \<Rightarrow> path \<Rightarrow> string option \<Rightarrow> int \<Rightarrow> dict" where
  "first_receipt project build receipt source source_root previous at =
     jmerge []
       [(''schema_version'', JNum 1), (''project'', JStr project), (''build_id'', JStr build), (''deployment_artifact'', JStr (path_text receipt)),
        (''state'', JStr ''prepared''), (''source'', JObj source), (''source_root'', JStr (path_text source_root)),
        (''previous_usable_release'', case previous of Some b \<Rightarrow> JStr b | None \<Rightarrow> JNull), (''migrations'', JStr ''not_started''),
        (''events'', JList [JObj (phase_event ''prepared'' ''succeeded'' at [])])]"

definition checked_identity :: "release_env \<Rightarrow> dict \<Rightarrow> string released" where
  "checked_identity e source =
     (let wanted = json_str (get source ''source_commit'') in
      case me_commit e wanted of
        None \<Rightarrow> raise (ReleaseError ''Accepted source Git object is unavailable'')
      | Some commit \<Rightarrow>
          and_then (require (commit = wanted) (ReleaseError ''Accepted source commit identity mismatch'')) (\<lambda>_.
          case me_tree e commit of
            None \<Rightarrow> raise (ReleaseError ''Accepted source Git object is unavailable'')
          | Some tree \<Rightarrow>
              and_then (require (JStr tree = get source ''source_tree'') (ReleaseError ''Accepted source tree identity mismatch'')) (\<lambda>_. return commit)))"

definition materialize_release ::
  "release_env \<Rightarrow> string \<Rightarrow> path \<Rightarrow> path \<Rightarrow> dict \<Rightarrow> string \<Rightarrow> int \<Rightarrow> (release_state, release_error, prepared) op" where
  "materialize_release e project repo state_root descriptor build at s =
     (case and_then (from_descriptor descriptor False) (\<lambda>source. and_then (checked_identity e source) (\<lambda>commit.
            and_then (project_state project state_root) (\<lambda>ps. and_then (outside_checkout e ps repo (ms_fs s)) (\<lambda>_. return (source, commit, ps))))) of
        Inl err \<Rightarrow> (raise err, s)
      | Inr (source, commit, ps) \<Rightarrow>
          let root = ps @ [''releases'', build]; receipt = ps @ [''receipts'', build @ ''.json''];
              r = \<lparr>pr_project = project, pr_build = build, pr_source = source, pr_root = root, pr_source_root = root @ [''source''],
                   pr_receipt = receipt\<rparr>
          in case mkdirs [] (ps @ [''releases'']) (ms_fs s) of
               None \<Rightarrow> (raise ReleaseOSError, s)
             | Some fs1 \<Rightarrow>
                 (case mkdirs [] (ps @ [''receipts'']) fs1 of
                    None \<Rightarrow> (raise ReleaseOSError, s\<lparr>ms_fs := fs1\<rparr>)
                  | Some fs2 \<Rightarrow>
                      (case me_archive e commit of
                         None \<Rightarrow> (raise (ReleaseError ''Accepted source could not be archived''), s\<lparr>ms_fs := fs2\<rparr>)
                       | Some files \<Rightarrow>
                           (case install_release root files fs2 of
                              Inl err \<Rightarrow> (raise err, s\<lparr>ms_fs := fs2\<rparr>)
                            | Inr fs3 \<Rightarrow>
                                (case current_build ps fs3 of
                                   Inl err \<Rightarrow> (raise err, s\<lparr>ms_fs := fs3\<rparr>)
                                 | Inr previous \<Rightarrow>
                                     (return r, write_receipt e receipt (first_receipt project build receipt source (root @ [''source'']) previous at)
                                                  (s\<lparr>ms_fs := fs3\<rparr>)))))))"

text \<open>The descriptor is what the validation of the acceptance receipt answered; \<open>reused\<close> is kept of a candidate that is no file.\<close>

definition prepare_release ::
  "release_env \<Rightarrow> string \<Rightarrow> path \<Rightarrow> path \<Rightarrow> (string, dict) result \<Rightarrow> dict released \<Rightarrow> bool \<Rightarrow> string \<Rightarrow> int \<Rightarrow>
     (release_state, release_error, prepared) op" where
  "prepare_release e project repo state_root candidate validated rollback build at s =
     (case and_then validated (\<lambda>descriptor. and_then (from_descriptor descriptor True) (\<lambda>_.
            and_then (project_state project state_root) (\<lambda>ps.
            and_then (require_forward_deploy e ps (json_str (get descriptor ''source_commit'')) rollback s) (\<lambda>_. return descriptor)))) of
        Inl err \<Rightarrow> (raise err, s)
      | Inr descriptor \<Rightarrow>
          let d = (case candidate of
                     Inr c \<Rightarrow> jmerge descriptor [(''reused'', JBool (truth (get c ''reused''))), (''reuse_lookup_ms'', get c ''reuse_lookup_ms'')]
                   | Inl file \<Rightarrow> if truth (get descriptor ''acceptance_artifact'') then descriptor
                                 else jput ''acceptance_artifact'' (JStr file) descriptor)
          in materialize_release e project repo state_root d build at s)"

section \<open>Pointers\<close>

definition entry_at :: "path \<Rightarrow> string \<Rightarrow> path" where
  "entry_at dir name = (if name = [] then dir else dir @ [name])"

definition pointer_release :: "fs \<Rightarrow> path \<Rightarrow> path \<Rightarrow> path option released" where
  "pointer_release fs p releases =
     (case lstat fs p of
        Some (Link raw) \<Rightarrow>
          (case strict_path fs p of
             None \<Rightarrow> raise (ReleaseError ''Managed release pointer is unavailable'')
           | Some target \<Rightarrow>
               let name = path_name raw; entry = entry_at releases name in
               (case strict_path fs entry of
                  None \<Rightarrow> raise (ReleaseError ''Managed release pointer is unavailable'')
                | Some resolved \<Rightarrow>
                    if butlast target \<noteq> releases \<or> target \<noteq> resolved \<or> is_symlink fs entry \<or> \<not> is_dir fs entry \<or> \<not> is_uuid_hex name
                    then raise (ReleaseError ''Managed release pointer leaves the release root'')
                    else return (Some target)))
      | _ \<Rightarrow> if exists_at fs p then raise (ReleaseError ''Managed release pointer is not a symlink'') else return None)"

text \<open>A new link renamed onto the old one, where the directory it is in exists.\<close>

definition replace_symlink :: "path \<Rightarrow> path \<Rightarrow> release_state \<Rightarrow> release_state" where
  "replace_symlink p target s =
     (case follow (ms_fs s) 40 (butlast p) [] of
        Some dir \<Rightarrow> s\<lparr>ms_fs := fs_put (dir @ [last p]) (Link (path_text target)) (ms_fs s)\<rparr>
      | None \<Rightarrow> s)"

definition previous_source_root :: "release_env \<Rightarrow> prepared \<Rightarrow> release_state \<Rightarrow> path option released" where
  "previous_source_root e r s =
     and_then (read_receipt e r s) (\<lambda>value.
     case get value ''previous_usable_release'' of
       JStr build \<Rightarrow>
         if build = [] then return None
         else (let source_root = butlast (pr_root r) @ [build, ''source''] in
               case strict_path (ms_fs s) source_root of
                 None \<Rightarrow> raise (ReleaseError ''Previous usable release is unavailable'')
               | Some q \<Rightarrow> if prefix (butlast (pr_root r)) q then return (Some source_root)
                            else raise (ReleaseError ''Previous usable release is unavailable''))
     | _ \<Rightarrow> return None)"

section \<open>Pruning\<close>

definition checked_reference :: "fs \<Rightarrow> path \<Rightarrow> path \<Rightarrow> path released" where
  "checked_reference fs releases reference =
     (if is_symlink fs reference then raise (ReleaseError ''Service release reference is not a real directory'')
      else case strict_path fs reference of
             None \<Rightarrow> raise ReleaseOSError
           | Some q \<Rightarrow>
               if butlast q \<noteq> releases \<or> \<not> is_dir fs q \<or> is_symlink fs q \<or> q = [] \<or> \<not> is_uuid_hex (last q)
               then raise (ReleaseError ''Service release reference is outside managed release storage'')
               else return q)"

fun collect :: "('a \<Rightarrow> ('e, 'b) result) \<Rightarrow> 'a list \<Rightarrow> ('e, 'b list) result" where
  "collect f [] = return []"
| "collect f (x # xs) = and_then (f x) (\<lambda>y. and_then (collect f xs) (\<lambda>ys. return (y # ys)))"

definition directory_entries :: "fs \<Rightarrow> path \<Rightarrow> string list released" where
  "directory_entries fs p =
     (case follow fs 40 p [] of
        Some q \<Rightarrow> if lookup fs q = Some Dir then return (map last (children fs q)) else raise ReleaseOSError
      | None \<Rightarrow> raise ReleaseOSError)"

text \<open>A release entry's own path, once it is known to be a real directory of the release storage.\<close>

definition checked_entry :: "fs \<Rightarrow> path \<Rightarrow> path \<Rightarrow> string \<Rightarrow> path released" where
  "checked_entry fs releases resolved_releases name =
     (let entry = releases @ [name] in
      if is_symlink fs entry \<or> \<not> is_dir fs entry then raise (ReleaseError ''Managed release entry is not a real directory'')
      else case strict_path fs entry of
             None \<Rightarrow> raise ReleaseOSError
           | Some q \<Rightarrow> if butlast q \<noteq> resolved_releases then raise (ReleaseError ''Managed release entry leaves release storage'') else return q)"

definition protected_paths :: "fs \<Rightarrow> prepared \<Rightarrow> path list \<Rightarrow> (path \<times> path list) released" where
  "protected_paths fs r references =
     (let releases = butlast (pr_root r); ps = butlast releases in
      case (strict_path fs releases, strict_path fs (pr_root r)) of
        (Some resolved_releases, Some resolved) \<Rightarrow>
          and_then (require (butlast resolved = resolved_releases \<and> resolved \<noteq> [] \<and> last resolved = pr_build r \<and> is_uuid_hex (pr_build r))
            (ReleaseError ''Completed release path is outside managed release storage'')) (\<lambda>_.
          and_then (pointer_release fs (ps @ [''current'']) resolved_releases) (\<lambda>c.
          and_then (pointer_release fs (ps @ [''previous'']) resolved_releases) (\<lambda>p.
          and_then (collect (checked_reference fs resolved_releases) references) (\<lambda>refs.
          return (resolved_releases, resolved # List.map_filter id [c, p] @ refs)))))
      | _ \<Rightarrow> raise ReleaseOSError)"

definition prune_candidates :: "fs \<Rightarrow> prepared \<Rightarrow> path list \<Rightarrow> path list released" where
  "prune_candidates fs r references =
     (let releases = butlast (pr_root r) in
      and_then (protected_paths fs r references) (\<lambda>(resolved_releases, keep).
      and_then (directory_entries fs releases) (\<lambda>names.
      and_then (collect (checked_entry fs releases resolved_releases) (filter is_uuid_hex names)) (\<lambda>entries.
      return (sort (filter (\<lambda>q. q \<notin> set keep) entries))))))"

text \<open>A removal that fails leaves some of the directory and ends the loop.\<close>

fun remove_releases :: "release_env \<Rightarrow> path list \<Rightarrow> fs \<Rightarrow> path list \<times> fs" where
  "remove_releases e [] fs = ([], fs)"
| "remove_releases e (c # cs) fs =
     (if me_in_use e c then remove_releases e cs fs
      else case me_rm_fault e c of
             Some left \<Rightarrow> ([], filter (\<lambda>(q, _). \<not> prefix c q \<or> left q) fs)
           | None \<Rightarrow> (case remove_releases e cs (fs_remove c fs) of (removed, fs') \<Rightarrow> (c # removed, fs')))"

definition prune_old_releases :: "release_env \<Rightarrow> prepared \<Rightarrow> path list option \<Rightarrow> fs \<Rightarrow> path list \<times> fs" where
  "prune_old_releases e r references fs =
     (case references of
        None \<Rightarrow> ([], fs)
      | Some refs \<Rightarrow> (case prune_candidates fs r refs of Inl _ \<Rightarrow> ([], fs) | Inr cs \<Rightarrow> remove_releases e cs fs))"

section \<open>Completing a release\<close>

definition completed_receipt :: "dict \<Rightarrow> json list \<Rightarrow> path option \<Rightarrow> int \<Rightarrow> dict" where
  "completed_receipt value es old at =
     jmerge (case old of Some t \<Rightarrow> jput ''previous_usable_release'' (JStr (last t)) value | None \<Rightarrow> value)
       [(''state'', JStr ''succeeded''), (''completed_at'', JNum at),
        (''events'', JList (es @ [JObj (phase_event ''completed'' ''succeeded'' at [])]))]"

text \<open>The changes of a completion, in order; a crash leaves those made so far.\<close>

definition pointer_changes :: "prepared \<Rightarrow> path \<Rightarrow> path option \<Rightarrow> (release_state \<Rightarrow> release_state) list" where
  "pointer_changes r ps old =
     (case old of Some t \<Rightarrow> [replace_symlink (ps @ [''previous'']) t] | None \<Rightarrow> []) @ [replace_symlink (ps @ [''current'']) (pr_root r)]"

definition recording_changes ::
  "release_env \<Rightarrow> prepared \<Rightarrow> path list option \<Rightarrow> path option \<Rightarrow> dict \<Rightarrow> json list \<Rightarrow> int \<Rightarrow> (release_state \<Rightarrow> release_state) list" where
  "recording_changes e r references old value es at =
     [write_receipt e (pr_receipt r) (completed_receipt value es old at),
      \<lambda>s. s\<lparr>ms_fs := snd (prune_old_releases e r references (ms_fs s))\<rparr>]"

definition completion_checks :: "release_env \<Rightarrow> prepared \<Rightarrow> release_state \<Rightarrow> (path \<times> path option \<times> dict) released" where
  "completion_checks e r s =
     and_then (read_receipt e r s) (\<lambda>value.
     and_then (project_state (pr_project r) (take (length (pr_root r) - 4) (pr_root r))) (\<lambda>ps.
     and_then (pointer_release (ms_fs s) (ps @ [''current'']) (ps @ [''releases''])) (\<lambda>old.
     and_then (pointer_release (ms_fs s) (ps @ [''previous'']) (ps @ [''releases''])) (\<lambda>_.
     and_then (require (pr_project r \<noteq> ''summitflow'' \<or> me_smoke e (pr_root r) = None) (ReleaseError ''Release st smoke test failed'')) (\<lambda>_.
     and_then (require (is_dir (ms_fs s) ps) ReleaseOSError) (\<lambda>_. return (ps, old, value)))))))"

definition complete_upto ::
  "nat \<Rightarrow> release_env \<Rightarrow> prepared \<Rightarrow> path list option \<Rightarrow> int \<Rightarrow> (release_state, release_error, unit) op" where
  "complete_upto n e r references at s =
     (case completion_checks e r s of
        Inl err \<Rightarrow> (raise err, s)
      | Inr (ps, old, value) \<Rightarrow>
          (case events_of value of
             Inl err \<Rightarrow> (raise err, fold (\<lambda>f. f) (take n (pointer_changes r ps old)) s)
           | Inr es \<Rightarrow>
               (return (), fold (\<lambda>f. f) (take n (pointer_changes r ps old @ recording_changes e r references old value es at)) s)))"

definition complete_release :: "release_env \<Rightarrow> prepared \<Rightarrow> path list option \<Rightarrow> int \<Rightarrow> (release_state, release_error, unit) op" where
  "complete_release e r references at = complete_upto 4 e r references at"

section \<open>Deployment evidence\<close>

definition REQUIRED_PHASES :: "string list" where
  "REQUIRED_PHASES =
     [''backend_dependencies'', ''frontend_build'', ''systemd_units'', ''restart'', ''health'', ''seeds'', ''completed'']"

definition manual_scope :: "json list \<Rightarrow> bool" where
  "manual_scope events =
     list_ex (\<lambda>ev. case ev of JObj d \<Rightarrow> has_str d ''phase'' ''deployment_scope'' \<and> has_str d ''scope'' ''manual'' | _ \<Rightarrow> False) events"

definition phase_succeeded :: "json list \<Rightarrow> string \<Rightarrow> bool" where
  "phase_succeeded events p =
     list_ex (\<lambda>ev. case ev of
          JObj d \<Rightarrow> has_str d ''phase'' p \<and>
            (has_str d ''status'' ''succeeded'' \<or> (manual_scope events \<and> p = ''seeds'' \<and> has_str d ''status'' ''not_applicable''))
        | _ \<Rightarrow> False) events"

definition phase_failed :: "json list \<Rightarrow> string \<Rightarrow> bool" where
  "phase_failed events p =
     list_ex (\<lambda>ev. case ev of JObj d \<Rightarrow> has_str d ''phase'' p \<and> has_str d ''status'' ''failed'' | _ \<Rightarrow> False) events"

definition lifecycle_evidence :: "dict \<Rightarrow> json list \<Rightarrow> unit released" where
  "lifecycle_evidence value events =
     and_then (require (list_all (phase_succeeded events) REQUIRED_PHASES \<and> \<not> list_ex (phase_failed events) REQUIRED_PHASES)
       (ReleaseError ''Deployment receipt is missing successful lifecycle evidence'')) (\<lambda>_.
     require (list_ex (has_str value ''migrations'') [''succeeded'', ''not_applicable'']) (ReleaseError ''Deployment receipt has no successful migration evidence''))"

definition deployed_outside :: "release_env \<Rightarrow> fs \<Rightarrow> path option \<Rightarrow> string \<Rightarrow> unit released" where
  "deployed_outside e fs project_root deployed =
     (case project_root of
        None \<Rightarrow> return ()
      | Some root \<Rightarrow>
          (case (strict_path fs (if startswith deployed ''/'' then text_parts deployed else me_cwd e @ text_parts deployed), strict_path fs root) of
             (Some d, Some r) \<Rightarrow> require (\<not> prefix r d) (ReleaseError ''Deployment receipt points into the development checkout'')
           | _ \<Rightarrow> raise (ReleaseError ''Deployed source root is unavailable'')))"

definition deployment_summary :: "dict \<Rightarrow> dict \<Rightarrow> string \<Rightarrow> json list \<Rightarrow> dict" where
  "deployment_summary value source artifact events =
     jmerge []
       [(''state'', text_or_empty value ''state''), (''deployment_id'', get value ''deployment_id''),
        (''artifact'', if artifact \<noteq> [] then JStr artifact else text_or_empty value ''deployment_artifact''),
        (''project'', text_or_empty value ''project''), (''build_id'', text_or_empty value ''build_id''),
        (''acceptance_id'', get source ''acceptance_id''), (''source_commit'', get source ''source_commit''),
        (''source_tree'', get source ''source_tree''), (''coverage'', get source ''coverage''),
        (''migrations'', text_or_empty value ''migrations''), (''events'', JList events),
        (''source_root'', JStr (pure_path (json_str (text_or_empty value ''source_root''))))]"

definition validate_deployment_receipt ::
  "release_env \<Rightarrow> fs \<Rightarrow> string \<Rightarrow> json \<Rightarrow> bool \<Rightarrow> path option \<Rightarrow> string option \<Rightarrow> dict released" where
  "validate_deployment_receipt e fs artifact content require_success project_root source_commit =
     (case content of
        JObj value \<Rightarrow>
          and_then (require (intact e value) (ReleaseError ''Deployment receipt identity mismatch'')) (\<lambda>_.
          case map_of value ''source'' of
            Some (JObj source) \<Rightarrow>
              and_then (from_descriptor source False) (\<lambda>accepted.
              and_then (require (\<not> require_success \<or> text_or_empty value ''state'' = JStr ''succeeded'')
                (ReleaseError ''Deployment receipt is not successful'')) (\<lambda>_.
              case map_of value ''events'' of
                Some (JList events) \<Rightarrow>
                  and_then (if require_success then lifecycle_evidence value events else return ()) (\<lambda>_.
                  and_then (require (case source_commit of None \<Rightarrow> True | Some c \<Rightarrow> get accepted ''source_commit'' = JStr c)
                    (ReleaseError ''Deployment receipt source commit mismatch'')) (\<lambda>_.
                  and_then (deployed_outside e fs project_root (json_str (text_or_empty value ''source_root''))) (\<lambda>_.
                  return (deployment_summary value accepted artifact events))))
              | _ \<Rightarrow> raise (ReleaseError ''Deployment receipt has no lifecycle evidence'')))
          | _ \<Rightarrow> raise (ReleaseError ''Deployment receipt has no accepted source''))
      | _ \<Rightarrow> raise (ReleaseError ''Deployment receipt identity mismatch''))"

definition publish_deployment_result :: "release_env \<Rightarrow> prepared \<Rightarrow> path \<Rightarrow> release_state \<Rightarrow> dict released" where
  "publish_deployment_result e r project_root s =
     (case map_of (ms_receipts s) (pr_receipt r) of
        Some (Some content) \<Rightarrow>
          validate_deployment_receipt e (ms_fs s) (path_text (pr_receipt r)) content True (Some project_root) (Some (pr_commit r))
      | _ \<Rightarrow> raise (ReleaseError ''Deployment receipt unavailable''))"

end
