(* ===== verification/ReleaseFacts.thy ===== *)
theory ReleaseFacts
  imports ManagedReleases
begin

text \<open>
  Managed releases over their histories: the links always lead to a usable release, whatever crashes,
  and pruning takes nothing that is referred to; what a deployment receipt that validates certifies,
  and that a failed phase is final.
\<close>

section \<open>Directories without links\<close>

lemma follow_dirs:
  assumes "clean q" "lookup fs (p @ q) = Some Dir"
  shows "follow fs n (q @ rest) p = follow fs n rest (p @ q)"
  using assms
proof (induction q arbitrary: p)
  case (Cons c q)
  have "lookup fs (p @ [c]) = Some Dir"
    using Cons.prems(2) lookup_prefix [of fs "p @ [c]" q] by (cases "q = []") auto
  then show ?case using Cons by (simp add: follow.simps(2) clean_name_def)
qed simp

lemma strict_dirs:
  assumes "clean q" "lookup fs (p @ q) = Some Dir"
  shows "resolve_strict fs seen (map Part q @ rest) p = resolve_strict fs seen rest (p @ q)"
  using assms
proof (induction q arbitrary: p)
  case (Cons c q)
  have "lookup fs (p @ [c]) = Some Dir"
    using Cons.prems(2) lookup_prefix [of fs "p @ [c]" q] by (cases "q = []") auto
  then show ?case using Cons by (simp add: resolve_strict.simps(3) clean_name_def)
qed simp

lemma real_directory:
  assumes "clean p" "lookup fs p = Some Dir"
  shows "follow fs n p [] = Some p" "strict_path fs p = Some p" "is_dir fs p" "\<not> is_symlink fs p"
proof -
  show f: "follow fs n p [] = Some p" for n using follow_dirs [OF assms(1), of fs "[]" n "[]"] assms(2) by simp
  show "strict_path fs p = Some p" using strict_dirs [OF assms(1), of fs "[]" "[]" "[]"] assms(2) by (simp add: strict_path_def)
  show "is_dir fs p" using f assms(2) by (simp add: is_dir_def stat_def)
  show "\<not> is_symlink fs p"
  proof (cases "p = []")
    case False
    then have "lookup fs (butlast p) = Some Dir" using lookup_prefix [of fs "butlast p" "[last p]"] assms(2) by simp
    then have "follow fs 40 (butlast p) [] = Some (butlast p)"
      using follow_dirs [of "butlast p" fs "[]" 40 "[]"] clean_butlast [OF assms(1)] by simp
    then show ?thesis using False assms(2) by (simp add: is_symlink_def lstat_def)
  qed (simp add: is_symlink_def lstat_def)
qed

lemma lstat_in_dir: "clean p \<Longrightarrow> lookup fs p = Some Dir \<Longrightarrow> lstat fs (p @ [c]) = lookup fs (p @ [c])"
  by (simp add: lstat_def real_directory(1))

lemma missing_entry:
  assumes "clean p" "lookup fs p = Some Dir" "clean_name c" "lookup fs (p @ [c]) = None"
  shows "\<not> exists_at fs (p @ [c])"
  using follow_dirs [OF assms(1), of fs "[]" 40 "[c]"] assms
  by (simp add: exists_at_def stat_def follow.simps(2) clean_name_def)

text \<open>An absolute link leads to its target where that is a real directory.\<close>

lemma strict_link:
  assumes "clean p" "lookup fs p = Some Dir" "clean_name c" "lookup fs (p @ [c]) = Some (Link (path_text t))"
    and "clean t" "t \<noteq> []" "lookup fs t = Some Dir"
  shows "strict_path fs (p @ [c]) = Some t"
proof -
  have parts: "link_parts (path_text t) = Part [] # map Part t"
    using assms(5,6) by (simp add: link_parts_def path_text_def join_split)
  have "strict_path fs (p @ [c]) = resolve_strict fs [] [Part c] p"
    using strict_dirs [OF assms(1), of fs "[]" "[]" "[Part c]"] assms(2) by (simp add: strict_path_def)
  also have "\<dots> = resolve_strict fs [(p @ [c], None)] (Part [] # map Part t @ [Resolved (p @ [c])]) []"
    using assms(3,4) parts by (simp add: resolve_strict.simps(3) clean_name_def path_text_def)
  also have "\<dots> = resolve_strict fs [(p @ [c], None)] [Resolved (p @ [c])] t"
    using strict_dirs [OF assms(5), of fs "[]" "[(p @ [c], None)]" "[Resolved (p @ [c])]"] assms(7) by (simp add: resolve_strict.simps(3))
  finally show ?thesis by simp
qed

lemma path_name_text: "clean t \<Longrightarrow> t \<noteq> [] \<Longrightarrow> path_name (path_text t) = last t"
proof -
  assume c: "clean t" and ne: "t \<noteq> []"
  have "split_on CHR ''/'' (path_text t) = [] # t" using c ne by (simp add: path_text_def join_split)
  moreover have "filter (\<lambda>c. c \<noteq> [] \<and> c \<noteq> ''.'') t = t" using c by (auto simp: filter_id_conv list_all_iff clean_name_def)
  moreover obtain b l where "t = b @ [l]" using ne by (metis append_butlast_last_id)
  ultimately show ?thesis by (simp add: path_name_def)
qed

lemma lookup_put_dir:
  assumes "lookup fs p = Some Dir" "prefix q p \<longrightarrow> n = Dir"
  shows "lookup (fs_put q n fs) p = Some Dir"
  using assms by (auto simp: lookup_def real_dirs_def list_all_iff take_is_prefix split: if_split_asm)

lemma uuid_clean: "is_uuid_hex b \<Longrightarrow> clean_name b"
proof -
  assume b: "is_uuid_hex b"
  have "\<not> is_hex (CHR ''/'')" by code_simp
  then show ?thesis using b by (auto simp: is_uuid_hex_def clean_name_def list_all_iff)
qed

section \<open>The invariant\<close>

text \<open>A release directory that can serve: it has its source tree.\<close>

abbreviation release_dir :: "path \<Rightarrow> string \<Rightarrow> path" where
  "release_dir ps b \<equiv> ps @ [''releases'', b]"

definition usable :: "path \<Rightarrow> fs \<Rightarrow> string \<Rightarrow> bool" where
  "usable ps fs b \<longleftrightarrow> is_uuid_hex b \<and> lookup fs (release_dir ps b @ [''source'']) = Some Dir"

definition pointer_ok :: "path \<Rightarrow> fs \<Rightarrow> string \<Rightarrow> bool" where
  "pointer_ok ps fs name \<longleftrightarrow>
     map_of fs (ps @ [name]) = None \<or> (\<exists>b. map_of fs (ps @ [name]) = Some (Link (path_text (release_dir ps b))) \<and> usable ps fs b)"

definition releases_ok :: "path \<Rightarrow> fs \<Rightarrow> bool" where
  "releases_ok ps fs \<longleftrightarrow>
     clean ps \<and> lookup fs ps = Some Dir \<and> map_of fs (ps @ [''releases'']) \<in> {None, Some Dir} \<and>
     pointer_ok ps fs ''current'' \<and> pointer_ok ps fs ''previous''"

lemma lookup_child: "lookup fs p = Some Dir \<Longrightarrow> lookup fs (p @ [c]) = map_of fs (p @ [c])"
proof -
  assume d: "lookup fs p = Some Dir"
  have "map_of fs (take n (p @ [c])) = Some Dir" if n: "n \<in> set [1..<length (p @ [c])]" for n
  proof (cases "n = length p")
    case True
    then show ?thesis using d n by (auto simp: lookup_def split: if_split_asm)
  next
    case False
    then show ?thesis using d n by (auto simp: lookup_def real_dirs_def list_all_iff split: if_split_asm)
  qed
  then show ?thesis by (simp add: lookup_def real_dirs_def list_all_iff)
qed

lemma usable_dirs:
  assumes "usable ps fs b" "clean ps"
  shows "lookup fs (release_dir ps b) = Some Dir" "lookup fs (ps @ [''releases'']) = Some Dir" "lookup fs ps = Some Dir"
    "clean (release_dir ps b)" "clean (ps @ [''releases''])" "clean_name b"
  using assms lookup_prefix [of fs "release_dir ps b" "[''source'']"] lookup_prefix [of fs "ps @ [''releases'']" "[b, ''source'']"]
    lookup_prefix [of fs ps "[''releases'', b, ''source'']"] uuid_clean [of b]
  by (auto simp: usable_def clean_name_def)

lemma pointer_cases:
  assumes "clean ps" "lookup fs ps = Some Dir" "pointer_ok ps fs name" "name = ''current'' \<or> name = ''previous''"
  shows "(map_of fs (ps @ [name]) = None \<and> \<not> is_symlink fs (ps @ [name]) \<and> pointer_release fs (ps @ [name]) (ps @ [''releases'']) = Inr None) \<or>
    (\<exists>b. map_of fs (ps @ [name]) = Some (Link (path_text (release_dir ps b))) \<and> usable ps fs b \<and> is_symlink fs (ps @ [name]) \<and>
       strict_path fs (ps @ [name]) = Some (release_dir ps b) \<and>
       pointer_release fs (ps @ [name]) (ps @ [''releases'']) = Inr (Some (release_dir ps b)))"
proof -
  have n: "clean_name name" using assms(4) by (auto simp: clean_name_def)
  have ls: "lstat fs (ps @ [name]) = map_of fs (ps @ [name])"
    using lstat_in_dir [OF assms(1,2)] lookup_child [OF assms(2)] by simp
  show ?thesis
  proof (cases "map_of fs (ps @ [name])")
    case None
    then have "\<not> exists_at fs (ps @ [name])" using missing_entry [OF assms(1,2) n] lookup_child [OF assms(2)] by simp
    then show ?thesis using None ls by (simp add: is_symlink_def pointer_release_def)
  next
    case (Some node)
    then obtain b where b: "map_of fs (ps @ [name]) = Some (Link (path_text (release_dir ps b)))" "usable ps fs b"
      using assms(3) by (auto simp: pointer_ok_def)
    note d = usable_dirs [OF b(2) assms(1)]
    have st: "strict_path fs (ps @ [name]) = Some (release_dir ps b)"
      using strict_link [OF assms(1,2) n _ d(4) _ d(1)] b(1) lookup_child [OF assms(2)] by simp
    have "path_name (path_text (release_dir ps b)) = b" using path_name_text [OF d(4)] by simp
    moreover have "b \<noteq> []" "is_uuid_hex b" using b(2) d(6) by (auto simp: usable_def clean_name_def)
    ultimately have "pointer_release fs (ps @ [name]) (ps @ [''releases'']) = Inr (Some (release_dir ps b))"
      using real_directory [OF d(4,1)] st ls b(1) by (simp add: pointer_release_def entry_at_def butlast_append)
    then show ?thesis using b st ls by (auto simp: is_symlink_def)
  qed
qed

text \<open>In such a state the live source is there, or nothing was ever completed.\<close>

lemma current_source_ok:
  assumes "releases_ok ps fs"
  shows "(map_of fs (ps @ [''current'']) = None \<and> current_source_root ps fs = Inr None) \<or>
    (\<exists>b. usable ps fs b \<and> current_build ps fs = Inr (Some b) \<and> current_source_root ps fs = Inr (Some (release_dir ps b @ [''source''])) \<and>
       is_dir fs (release_dir ps b @ [''source'']))"
proof -
  have o: "clean ps" "lookup fs ps = Some Dir" "pointer_ok ps fs ''current''" using assms by (simp_all add: releases_ok_def)
  from pointer_cases [OF o disjI1 [OF refl]] show ?thesis
  proof (elim disjE exE conjE)
    fix b assume b: "usable ps fs b" "is_symlink fs (ps @ [''current''])" "strict_path fs (ps @ [''current'']) = Some (release_dir ps b)"
    have "clean (release_dir ps b @ [''source''])" using usable_dirs(4) [OF b(1) o(1)] by (simp add: clean_name_def)
    then have "is_dir fs (release_dir ps b @ [''source''])" using real_directory(3) b(1) by (simp add: usable_def)
    then show ?thesis using b by (simp add: current_build_def current_source_root_def butlast_append)
  qed (simp_all add: current_build_def current_source_root_def)
qed

section \<open>What keeps it\<close>

lemma ok_frame:
  assumes "releases_ok ps fs" and "lookup fs' ps = Some Dir" and "map_of fs' (ps @ [''releases'']) \<in> {None, Some Dir}"
    and "\<And>n. n \<in> {''current'', ''previous''} \<Longrightarrow> map_of fs' (ps @ [n]) = map_of fs (ps @ [n])"
    and "\<And>n b. n \<in> {''current'', ''previous''} \<Longrightarrow> map_of fs (ps @ [n]) = Some (Link (path_text (release_dir ps b))) \<Longrightarrow>
      usable ps fs b \<Longrightarrow> usable ps fs' b"
  shows "releases_ok ps fs'"
  using assms unfolding releases_ok_def pointer_ok_def by (metis insertCI)

lemma usable_put: "usable ps fs b \<Longrightarrow> (prefix q (release_dir ps b @ [''source'']) \<longrightarrow> n = Dir) \<Longrightarrow> usable ps (fs_put q n fs) b"
  by (simp add: usable_def lookup_put_dir)

lemma ok_put_dir:
  assumes "releases_ok ps fs" "q \<noteq> ps @ [''current'']" "q \<noteq> ps @ [''previous'']"
  shows "releases_ok ps (fs_put q Dir fs)"
  using assms by (intro ok_frame [OF assms(1)]) (auto simp: releases_ok_def usable_put lookup_put_dir)

lemma ok_put_below:
  assumes "releases_ok ps fs" "rel \<noteq> []"
  shows "releases_ok ps (fs_put (release_dir ps b @ [''source''] @ rel) n fs)"
proof (rule ok_frame [OF assms(1)])
  show "lookup (fs_put (release_dir ps b @ [''source''] @ rel) n fs) ps = Some Dir"
    using assms by (intro lookup_put_dir) (auto simp: releases_ok_def prefix_def)
qed (use assms in \<open>auto simp: releases_ok_def prefix_def intro!: usable_put\<close>)

lemma ok_link:
  assumes "releases_ok ps fs" "usable ps fs b" "name = ''current'' \<or> name = ''previous''"
  shows "releases_ok ps (fs_put (ps @ [name]) (Link (path_text (release_dir ps b))) fs)"
proof -
  let ?fs = "fs_put (ps @ [name]) (Link (path_text (release_dir ps b))) fs"
  have u: "usable ps ?fs b'" if "usable ps fs b'" for b' using that assms(3) by (intro usable_put) auto
  have "pointer_ok ps ?fs n" if "pointer_ok ps fs n" for n
    using that u assms(2) by (auto simp: pointer_ok_def)
  moreover have "lookup ?fs ps = Some Dir" using assms(1) by (intro lookup_put_dir) (auto simp: releases_ok_def prefix_def)
  ultimately show ?thesis using assms by (auto simp: releases_ok_def)
qed

lemma ok_same:
  assumes "releases_ok ps fs"
    and "\<And>q. prefix q ps \<or> (\<exists>n. q = ps @ [n]) \<or> (\<exists>n b. n \<in> {''current'', ''previous''} \<and>
        map_of fs (ps @ [n]) = Some (Link (path_text (release_dir ps b))) \<and> prefix q (release_dir ps b @ [''source''])) \<Longrightarrow> map_of fs' q = map_of fs q"
  shows "releases_ok ps fs'"
proof (rule ok_frame [OF assms(1)])
  show "lookup fs' ps = Some Dir" using assms lookup_same [of ps fs' fs] by (auto simp: releases_ok_def)
  show "usable ps fs' b" if "n \<in> {''current'', ''previous''}" "map_of fs (ps @ [n]) = Some (Link (path_text (release_dir ps b)))" "usable ps fs b" for n b
  proof -
    have "lookup fs' (release_dir ps b @ [''source'']) = lookup fs (release_dir ps b @ [''source''])"
      using assms(2) that(1,2) by (intro lookup_same) blast
    then show ?thesis using that(3) by (simp add: usable_def)
  qed
qed (use assms in \<open>auto simp: releases_ok_def\<close>)

section \<open>Pruning\<close>

lemma collect_Inr: "collect f xs = Inr ys \<Longrightarrow> y \<in> set ys \<Longrightarrow> \<exists>x\<in>set xs. f x = Inr y"
  by (induction xs arbitrary: ys) auto

lemma prune_candidates_sound:
  assumes "prune_candidates fs r refs = Inr cs" "c \<in> set cs"
  shows "\<exists>releases keep. protected_paths fs r refs = Inr (releases, keep) \<and> butlast c = releases \<and> c \<notin> set keep"
proof -
  obtain x where x: "protected_paths fs r refs = Inr x"
    using assms(1) by (cases "protected_paths fs r refs") (simp_all add: prune_candidates_def)
  obtain releases keep where p: "protected_paths fs r refs = Inr (releases, keep)" using x by (cases x) simp
  obtain names where n: "directory_entries fs (butlast (pr_root r)) = Inr names"
    using assms(1) by (cases "directory_entries fs (butlast (pr_root r))") (simp_all only: prune_candidates_def Let_def p prod.case and_then.simps sum.distinct)
  obtain entries where c: "collect (checked_entry fs (butlast (pr_root r)) releases) (filter is_uuid_hex names) = Inr entries"
    using assms(1) by (cases "collect (checked_entry fs (butlast (pr_root r)) releases) (filter is_uuid_hex names)")
      (simp_all only: prune_candidates_def Let_def p n prod.case and_then.simps sum.distinct)
  have cs: "cs = sort (filter (\<lambda>q. q \<notin> set keep) entries)" using assms(1) by (simp only: prune_candidates_def Let_def p n c prod.case and_then.simps sum.inject)
  have "c \<in> set entries" "c \<notin> set keep" using assms(2) cs by auto
  moreover obtain n where "checked_entry fs (butlast (pr_root r)) releases n = Inr c"
    using collect_Inr [OF c \<open>c \<in> set entries\<close>] by blast
  ultimately show ?thesis using p by (auto simp: checked_entry_def Let_def split: if_split_asm option.split_asm)
qed

lemma remove_releases_change:
  assumes "remove_releases e cs fs = (removed, fs')"
  shows "(map_of fs' q \<noteq> map_of fs q \<longrightarrow> (\<exists>c\<in>set cs. prefix c q \<and> \<not> me_in_use e c)) \<and> (\<forall>c\<in>set removed. c \<in> set cs \<and> \<not> me_in_use e c)"
  using assms
proof (induction cs arbitrary: fs removed)
  case (Cons c cs)
  show ?case
  proof (cases "me_in_use e c")
    case True
    then show ?thesis using Cons.IH [of fs removed] Cons.prems by auto
  next
    case False
    show ?thesis
    proof (cases "me_rm_fault e c")
      case (Some left)
      have "map_of (filter (\<lambda>(q, _). \<not> prefix c q \<or> left q) fs) q = map_of fs q" if "\<not> prefix c q" for q
        using that by (induction fs) auto
      then show ?thesis using Cons.prems False Some by auto
    next
      case None
      obtain removed' where r: "remove_releases e cs (fs_remove c fs) = (removed', fs')" "removed = c # removed'"
        using Cons.prems False None by (auto split: prod.split_asm)
      then show ?thesis using Cons.IH [OF r(1)] False by (auto simp: map_of_fs_remove split: if_split_asm)
    qed
  qed
qed simp

lemma prune_change:
  assumes "prune_old_releases e r references fs = (removed, fs')" and "map_of fs' q \<noteq> map_of fs q"
  shows "\<exists>refs releases keep c. references = Some refs \<and> protected_paths fs r refs = Inr (releases, keep) \<and>
    prefix c q \<and> butlast c = releases \<and> c \<notin> set keep \<and> \<not> me_in_use e c"
proof -
  obtain refs where refs: "references = Some refs" using assms by (cases references) (auto simp: prune_old_releases_def)
  obtain cs where cs: "prune_candidates fs r refs = Inr cs"
    using assms by (cases "prune_candidates fs r refs") (auto simp: prune_old_releases_def refs)
  have "remove_releases e cs fs = (removed, fs')" using assms(1) by (simp add: prune_old_releases_def refs cs)
  from remove_releases_change [OF this] assms(2) obtain c where "c \<in> set cs" "prefix c q" "\<not> me_in_use e c" by blast
  with prune_candidates_sound [OF cs] refs show ?thesis by blast
qed

lemma protected_paths_ok:
  assumes "releases_ok ps fs" "pr_root r = release_dir ps (pr_build r)" "usable ps fs (pr_build r)"
    and "protected_paths fs r refs = Inr (releases, keep)"
  shows "releases = ps @ [''releases'']" "pr_root r \<in> set keep"
    "n \<in> {''current'', ''previous''} \<Longrightarrow> map_of fs (ps @ [n]) = Some (Link (path_text (release_dir ps b))) \<Longrightarrow> usable ps fs b \<Longrightarrow>
      release_dir ps b \<in> set keep"
proof -
  have c: "clean ps" "lookup fs ps = Some Dir" using assms(1) by (simp_all add: releases_ok_def)
  note d = usable_dirs [OF assms(3) c(1)]
  have st: "strict_path fs (ps @ [''releases'']) = Some (ps @ [''releases''])" "strict_path fs (pr_root r) = Some (pr_root r)"
    using real_directory(2) [OF d(5,2)] real_directory(2) [OF d(4,1)] assms(2) by simp_all
  have b: "butlast (pr_root r) = ps @ [''releases'']" "butlast (butlast (pr_root r)) = ps" using assms(2) by (simp_all add: butlast_append)
  obtain x y rs where xy: "pointer_release fs (ps @ [''current'']) (ps @ [''releases'']) = Inr x"
      "pointer_release fs (ps @ [''previous'']) (ps @ [''releases'']) = Inr y"
    and k: "releases = ps @ [''releases'']" "keep = pr_root r # List.map_filter id [x, y] @ rs"
    using assms(4) b st by (auto simp: protected_paths_def Let_def)
  show "releases = ps @ [''releases'']" "pr_root r \<in> set keep" using k by simp_all
  have p: "pointer_release fs (ps @ [m]) (ps @ [''releases'']) = Inr (Some (release_dir ps b'))"
    if "m \<in> {''current'', ''previous''}" "map_of fs (ps @ [m]) = Some (Link (path_text (release_dir ps b')))" "usable ps fs b'" for m b'
  proof -
    have ok: "pointer_ok ps fs m" using that(1) assms(1) by (auto simp: releases_ok_def)
    have "m = ''current'' \<or> m = ''previous''" using that(1) by simp
    from pointer_cases [OF c ok this] that(2) obtain b2 where "path_text (release_dir ps b2) = path_text (release_dir ps b')" "usable ps fs b2"
      "pointer_release fs (ps @ [m]) (ps @ [''releases'']) = Inr (Some (release_dir ps b2))" by auto
    moreover have "release_dir ps b2 = release_dir ps b'"
      using path_text_inj [OF usable_dirs(4) [OF \<open>usable ps fs b2\<close> c(1)] usable_dirs(4) [OF that(3) c(1)]] calculation(1) by simp
    ultimately show ?thesis by simp
  qed
  show "release_dir ps b \<in> set keep"
    if "n \<in> {''current'', ''previous''}" "map_of fs (ps @ [n]) = Some (Link (path_text (release_dir ps b)))" "usable ps fs b"
    using p [OF that] that(1) xy by (auto simp: k(2) map_filter_simps split: option.split)
qed

lemma prune_ok:
  assumes "releases_ok ps fs" "pr_root r = release_dir ps (pr_build r)" "usable ps fs (pr_build r)"
    and "prune_old_releases e r references fs = (removed, fs')"
  shows "releases_ok ps fs'" "usable ps fs' (pr_build r)"
proof -
  have kept: "map_of fs' q = map_of fs q"
    if "length q \<le> length ps + 1 \<or> (\<exists>b. prefix q (release_dir ps b @ [''source'']) \<and>
        (b = pr_build r \<or> (\<exists>n. n \<in> {''current'', ''previous''} \<and> map_of fs (ps @ [n]) = Some (Link (path_text (release_dir ps b))) \<and> usable ps fs b)))"
    for q
  proof (rule ccontr)
    assume "map_of fs' q \<noteq> map_of fs q"
    from prune_change [OF assms(4) this] obtain refs releases keep c where c: "protected_paths fs r refs = Inr (releases, keep)"
      "prefix c q" "butlast c = releases" "c \<notin> set keep" by blast
    note k = protected_paths_ok [OF assms(1-3) c(1)]
    have l: "length c = length ps + 2" "c = release_dir ps (last c)"
      using c(3) k(1) by (cases c rule: rev_cases; simp)+
    have "length c \<le> length q" using c(2) by (rule prefix_length_le)
    with that l(1) obtain b where b: "prefix q (release_dir ps b @ [''source''])"
      "b = pr_build r \<or> (\<exists>n. n \<in> {''current'', ''previous''} \<and> map_of fs (ps @ [n]) = Some (Link (path_text (release_dir ps b))) \<and> usable ps fs b)"
      by auto
    have "prefix c (release_dir ps b @ [''source''])" using c(2) b(1) by (rule prefix_order.trans)
    moreover obtain x where x: "c = release_dir ps x" using l(2) by blast
    ultimately have "c = release_dir ps b" by simp
    then show False using b(2) k(2,3) c(4) assms(2) by auto
  qed
  show "releases_ok ps fs'"
  proof (rule ok_frame [OF assms(1)])
    have "map_of fs' q = map_of fs q" if "prefix q ps" for q using kept prefix_length_le [OF that] by simp
    then show "lookup fs' ps = Some Dir" using assms(1) lookup_same [of ps fs' fs] by (simp add: releases_ok_def)
    show "usable ps fs' b" if "n \<in> {''current'', ''previous''}" "map_of fs (ps @ [n]) = Some (Link (path_text (release_dir ps b)))" "usable ps fs b" for n b
      using lookup_same [of "release_dir ps b @ [''source'']" fs' fs] kept that by (auto simp: usable_def)
  qed (use assms(1) kept in \<open>auto simp: releases_ok_def\<close>)
  show "usable ps fs' (pr_build r)"
    using lookup_same [of "release_dir ps (pr_build r) @ [''source'']" fs' fs] kept assms(3) by (auto simp: usable_def)
qed


section \<open>Preparing\<close>

lemma mkdirs_skip:
  assumes "clean p" "clean q" "lookup fs (p @ q) = Some Dir"
  shows "mkdirs p (q @ rest) fs = mkdirs (p @ q) rest fs"
  using assms
proof (induction q arbitrary: p)
  case (Cons c q)
  have "lookup fs (p @ [c]) = Some Dir"
    using Cons.prems(3) lookup_prefix [of fs "p @ [c]" q] by (cases "q = []") auto
  then have "is_dir fs (p @ [c])" using Cons.prems real_directory(3) [of "p @ [c]" fs] by simp
  then show ?case using Cons.IH [of "p @ [c]"] Cons.prems by simp
qed simp

lemma mkdirs_child:
  assumes "clean p" "lookup fs p = Some Dir" "mkdirs [] (p @ [c]) fs = Some fs'"
  shows "fs' = fs \<and> is_dir fs (p @ [c]) \<or> fs' = fs_put (p @ [c]) Dir fs"
  using assms mkdirs_skip [of "[]" p fs "[c]"] real_directory(1) [OF assms(1,2)]
  by (auto split: if_split_asm option.split_asm)

lemma is_dir_child:
  assumes "clean p" "lookup fs p = Some Dir" "clean_name c" "is_dir fs (p @ [c])" "map_of fs (p @ [c]) \<in> {None, Some Dir}"
  shows "lookup fs (p @ [c]) = Some Dir"
  using assms missing_entry [OF assms(1-3)] lookup_child [OF assms(2)] by (auto simp: is_dir_def exists_at_def)

lemma fold_put_below:
  assumes "releases_ok ps fs" "usable ps fs b"
  shows "releases_ok ps (fold (\<lambda>(rel, n) fs. fs_put (release_dir ps b' @ [''source''] @ rel) n fs) (filter (\<lambda>(rel, _). rel \<noteq> []) files) fs) \<and>
    usable ps (fold (\<lambda>(rel, n) fs. fs_put (release_dir ps b' @ [''source''] @ rel) n fs) (filter (\<lambda>(rel, _). rel \<noteq> []) files) fs) b \<and>
    (\<forall>n. map_of (fold (\<lambda>(rel, n) fs. fs_put (release_dir ps b' @ [''source''] @ rel) n fs) (filter (\<lambda>(rel, _). rel \<noteq> []) files) fs) (ps @ [n]) =
      map_of fs (ps @ [n]))"
  using assms
proof (induction files arbitrary: fs)
  case (Cons f files)
  obtain rel n where f: "f = (rel, n)" by (rule prod.exhaust)
  show ?case
  proof (cases "rel = []")
    case False
    have u: "usable ps (fs_put (release_dir ps b' @ [''source''] @ rel) n fs) b"
      using Cons.prems(2) False by (intro usable_put) (auto simp: prefix_def)
    from Cons.IH [OF ok_put_below [OF Cons.prems(1) False] u] False show ?thesis by (simp add: f)
  qed (use Cons in \<open>simp add: f\<close>)
qed simp

lemma install_release_ok:
  assumes "releases_ok ps fs" "lookup fs (ps @ [''releases'']) = Some Dir" "is_uuid_hex b" "install_release (release_dir ps b) files fs = Inr fs'"
  shows "releases_ok ps fs' \<and> usable ps fs' b \<and> (\<forall>n. n \<noteq> ''releases'' \<longrightarrow> map_of fs' (ps @ [n]) = map_of fs (ps @ [n]))"
proof -
  have c: "clean (ps @ [''releases''])" using assms(1) by (simp add: releases_ok_def clean_name_def)
  have f: "follow fs 40 (butlast (release_dir ps b)) [] = Some (ps @ [''releases''])"
    using real_directory(1) [OF c assms(2)] by (simp add: butlast_append)
  define fs1 where "fs1 = fs_put (release_dir ps b @ [''source'']) Dir (fs_put (release_dir ps b) Dir fs)"
  have fs': "fs' = fold (\<lambda>(rel, n) fs. fs_put (release_dir ps b @ [''source''] @ rel) n fs) (filter (\<lambda>(rel, _). rel \<noteq> []) files) fs1"
    using assms(4) f by (simp add: install_release_def Let_def fs1_def split: if_split_asm)
  have ok: "releases_ok ps fs1" unfolding fs1_def using assms(1) by (intro ok_put_dir) simp_all
  have "lookup (fs_put (release_dir ps b) Dir fs) (ps @ [''releases'']) = Some Dir" using assms(2) by (intro lookup_put_dir) simp_all
  then have "lookup (fs_put (release_dir ps b) Dir fs) ((ps @ [''releases'']) @ [b]) = Some Dir" by (subst lookup_child) simp_all
  then have "lookup fs1 (release_dir ps b) = Some Dir" unfolding fs1_def by (simp add: lookup_put_dir)
  then have "lookup fs1 (release_dir ps b @ [''source'']) = Some Dir" by (subst lookup_child) (simp_all add: fs1_def)
  then have "usable ps fs1 b" using assms(3) by (simp add: usable_def)
  from fold_put_below [OF ok this] show ?thesis unfolding fs' by (simp add: fs1_def)
qed

text \<open>What a step of an operation may do: keep the invariant and the link to the live release.\<close>

definition safe_step :: "path \<Rightarrow> fs \<Rightarrow> fs \<Rightarrow> bool" where
  "safe_step ps fs fs' \<longleftrightarrow>
     releases_ok ps fs \<longrightarrow> releases_ok ps fs' \<and> (map_of fs (ps @ [''current'']) \<noteq> None \<longrightarrow> map_of fs' (ps @ [''current'']) \<noteq> None)"

lemma safe_step_refl [simp]: "safe_step ps fs fs"
  by (simp add: safe_step_def)

lemma safe_step_trans: "safe_step ps a b \<Longrightarrow> safe_step ps b c \<Longrightarrow> safe_step ps a c"
  by (auto simp: safe_step_def)

lemma materialize_safe:
  assumes "project_state project state_root = Inr ps" "is_uuid_hex build" "releases_ok ps (ms_fs s)"
    and "materialize_release e project repo state_root d build at s = (r, s')"
  shows "safe_step ps (ms_fs s) (ms_fs s')"
    and "r = Inr p \<Longrightarrow> pr_root p = release_dir ps build \<and> pr_build p = build \<and> pr_project p = project \<and>
      pr_receipt p = ps @ [''receipts'', build @ ''.json''] \<and> usable ps (ms_fs s') build"
    and "map_of (ms_fs s') (ps @ [''current'']) = map_of (ms_fs s) (ps @ [''current''])"
proof -
  let ?same = "\<lambda>fs fs' :: fs. map_of fs' (ps @ [''current'']) = map_of fs (ps @ [''current''])"
  have ok: "clean ps" "lookup (ms_fs s) ps = Some Dir" "map_of (ms_fs s) (ps @ [''releases'']) \<in> {None, Some Dir}"
    using assms(3) by (simp_all add: releases_ok_def)
  have rel: "clean_name ''releases''" by (simp add: clean_name_def)
  have m1: "releases_ok ps fs1 \<and> lookup fs1 (ps @ [''releases'']) = Some Dir \<and> safe_step ps (ms_fs s) fs1 \<and> ?same (ms_fs s) fs1"
    if "mkdirs [] (ps @ [''releases'']) (ms_fs s) = Some fs1" for fs1
    using mkdirs_child [OF ok(1,2) that]
  proof
    assume "fs1 = ms_fs s \<and> is_dir (ms_fs s) (ps @ [''releases''])"
    then show ?thesis using is_dir_child [OF ok(1,2) rel _ ok(3)] assms(3) by simp
  next
    assume f: "fs1 = fs_put (ps @ [''releases'']) Dir (ms_fs s)"
    have "lookup fs1 ps = Some Dir" unfolding f using ok(2) by (intro lookup_put_dir) simp_all
    then have "lookup fs1 (ps @ [''releases'']) = Some Dir" by (subst lookup_child) (simp_all add: f)
    then show ?thesis using ok_put_dir [OF assms(3), of "ps @ [''releases'']"] f by (simp add: safe_step_def)
  qed
  have m2: "releases_ok ps fs2 \<and> lookup fs2 (ps @ [''releases'']) = Some Dir \<and> safe_step ps fs1 fs2 \<and> ?same fs1 fs2"
    if "mkdirs [] (ps @ [''receipts'']) fs1 = Some fs2" "releases_ok ps fs1" "lookup fs1 (ps @ [''releases'']) = Some Dir" for fs1 fs2
  proof -
    have "lookup fs1 ps = Some Dir" using that(2) by (simp add: releases_ok_def)
    from mkdirs_child [OF ok(1) this that(1)] show ?thesis
      using that(2,3) ok_put_dir [OF that(2), of "ps @ [''receipts'']"] by (auto simp: safe_step_def intro: lookup_put_dir)
  qed
  have m3: "safe_step ps fs2 fs3 \<and> usable ps fs3 build \<and> ?same fs2 fs3"
    if "install_release (release_dir ps build) files fs2 = Inr fs3" "releases_ok ps fs2" "lookup fs2 (ps @ [''releases'']) = Some Dir" for files fs2 fs3
    using install_release_ok [OF that(2,3) assms(2) that(1)] by (simp add: safe_step_def)
  note split = if_split_asm sum.split_asm prod.split_asm option.split_asm
  show "safe_step ps (ms_fs s) (ms_fs s')"
    using assms(1,4) by (auto simp: materialize_release_def Let_def write_receipt_def and_then_Inl split: split
        dest!: m1 m2 m3 intro: safe_step_trans)
  show "r = Inr p \<Longrightarrow> pr_root p = release_dir ps build \<and> pr_build p = build \<and> pr_project p = project \<and>
      pr_receipt p = ps @ [''receipts'', build @ ''.json''] \<and> usable ps (ms_fs s') build"
    using assms(1,4) by (auto simp: materialize_release_def Let_def write_receipt_def split: split dest!: m1 m2 m3)
  show "map_of (ms_fs s') (ps @ [''current'']) = map_of (ms_fs s) (ps @ [''current''])"
    using assms(1,4) by (auto simp: materialize_release_def Let_def write_receipt_def and_then_Inl split: split dest!: m1 m2 m3)
qed


section \<open>Completing\<close>

text \<open>What holds throughout the changes of a completion; \<open>live\<close> says whether there was a live release before.\<close>

definition completing :: "path \<Rightarrow> prepared \<Rightarrow> bool \<Rightarrow> release_state \<Rightarrow> bool" where
  "completing ps r live s \<longleftrightarrow>
     releases_ok ps (ms_fs s) \<and> usable ps (ms_fs s) (pr_build r) \<and> (live \<longrightarrow> map_of (ms_fs s) (ps @ [''current'']) \<noteq> None)"

lemma fold_changes: "(\<And>f s. f \<in> set fs \<Longrightarrow> P s \<Longrightarrow> P (f s)) \<Longrightarrow> P s \<Longrightarrow> P (fold (\<lambda>f. f) (take n fs) s)"
proof (induction fs arbitrary: n s)
  case (Cons f fs)
  then show ?case by (cases n) simp_all
qed simp

lemma replace_symlink_ok:
  assumes "completing ps r live s" "usable ps (ms_fs s) b" "name = ''current'' \<or> name = ''previous''"
  shows "completing ps r live (replace_symlink (ps @ [name]) (release_dir ps b) s)"
    "map_of (ms_fs (replace_symlink (ps @ [name]) (release_dir ps b) s)) (ps @ [name]) = Some (Link (path_text (release_dir ps b)))"
proof -
  let ?fs = "fs_put (ps @ [name]) (Link (path_text (release_dir ps b))) (ms_fs s)"
  have c: "clean ps" "lookup (ms_fs s) ps = Some Dir" using assms(1) by (simp_all add: completing_def releases_ok_def)
  have r: "replace_symlink (ps @ [name]) (release_dir ps b) s = s\<lparr>ms_fs := ?fs\<rparr>"
    using real_directory(1) [OF c] by (simp add: replace_symlink_def)
  have "usable ps ?fs (pr_build r)" using assms by (intro usable_put) (auto simp: completing_def)
  then show "completing ps r live (replace_symlink (ps @ [name]) (release_dir ps b) s)"
    using ok_link [OF _ assms(2,3)] assms(1) unfolding r by (auto simp: completing_def)
  show "map_of (ms_fs (replace_symlink (ps @ [name]) (release_dir ps b) s)) (ps @ [name]) = Some (Link (path_text (release_dir ps b)))"
    by (simp add: r)
qed

lemma prune_keeps_pointer:
  assumes "completing ps r live s" "pr_root r = release_dir ps (pr_build r)"
  shows "map_of (snd (prune_old_releases e r refs (ms_fs s))) (ps @ [n]) = map_of (ms_fs s) (ps @ [n])"
    "completing ps r live (s\<lparr>ms_fs := snd (prune_old_releases e r refs (ms_fs s))\<rparr>)"
proof -
  obtain removed fs' where p: "prune_old_releases e r refs (ms_fs s) = (removed, fs')" by (rule prod.exhaust)
  have ok: "releases_ok ps (ms_fs s)" "usable ps (ms_fs s) (pr_build r)" using assms(1) by (simp_all add: completing_def)
  have same: "map_of fs' (ps @ [m]) = map_of (ms_fs s) (ps @ [m])" for m
  proof (rule ccontr)
    assume "map_of fs' (ps @ [m]) \<noteq> map_of (ms_fs s) (ps @ [m])"
    from prune_change [OF p this] obtain rs releases keep c where c: "protected_paths (ms_fs s) r rs = Inr (releases, keep)"
      "prefix c (ps @ [m])" "butlast c = releases" by blast
    with protected_paths_ok(1) [OF ok(1) assms(2) ok(2) c(1)] have "length (butlast c) = length ps + 1" by simp
    with prefix_length_le [OF c(2)] show False by simp
  qed
  then show "map_of (snd (prune_old_releases e r refs (ms_fs s))) (ps @ [n]) = map_of (ms_fs s) (ps @ [n])" by (simp add: p)
  show "completing ps r live (s\<lparr>ms_fs := snd (prune_old_releases e r refs (ms_fs s))\<rparr>)"
    using prune_ok [OF ok(1) assms(2) ok(2) p] same assms(1) by (simp add: completing_def p)
qed

lemma write_receipt_fs [simp]: "ms_fs (write_receipt e q v s) = ms_fs s"
  by (simp add: write_receipt_def)

lemma completing_receipt [simp]: "completing ps r live (write_receipt e q v s) = completing ps r live s"
  by (simp add: completing_def)

lemma completion_checks_old:
  assumes "completion_checks e r s = Inr (ps', old, value)" "releases_ok ps (ms_fs s)"
    and "project_state (pr_project r) (take (length (pr_root r) - 4) (pr_root r)) = Inr ps"
  shows "ps' = ps \<and> (old = None \<and> map_of (ms_fs s) (ps @ [''current'']) = None \<or>
    (\<exists>b. old = Some (release_dir ps b) \<and> usable ps (ms_fs s) b))" "read_receipt e r s = Inr value"
proof -
  have o: "clean ps" "lookup (ms_fs s) ps = Some Dir" "pointer_ok ps (ms_fs s) ''current''" using assms(2) by (simp_all add: releases_ok_def)
  have c: "ps' = ps" "pointer_release (ms_fs s) (ps @ [''current'']) (ps @ [''releases'']) = Inr old" "read_receipt e r s = Inr value"
    using assms(1,3) by (auto simp: completion_checks_def)
  then show "ps' = ps \<and> (old = None \<and> map_of (ms_fs s) (ps @ [''current'']) = None \<or>
      (\<exists>b. old = Some (release_dir ps b) \<and> usable ps (ms_fs s) b))" "read_receipt e r s = Inr value"
    using pointer_cases [OF o disjI1 [OF refl]] by auto
qed

lemma complete_upto_safe:
  assumes "releases_ok ps (ms_fs s)" "pr_root r = release_dir ps (pr_build r)" "usable ps (ms_fs s) (pr_build r)"
    and "project_state (pr_project r) (take (length (pr_root r) - 4) (pr_root r)) = Inr ps"
  shows "completing ps r (map_of (ms_fs s) (ps @ [''current'']) \<noteq> None) (snd (complete_upto n e r refs at s))"
proof (cases "completion_checks e r s")
  case (Inl err)
  then show ?thesis using assms by (simp add: complete_upto_def completing_def)
next
  case (Inr x)
  obtain ps' old v where x: "x = (ps', old, v)" by (metis prod.exhaust)
  note c = completion_checks_old [OF Inr [unfolded x] assms(1,4)]
  let ?live = "map_of (ms_fs s) (ps @ [''current'']) \<noteq> None"
  have start: "completing ps r ?live s" using assms(1,3) by (simp add: completing_def)
  define first where "first = (case old of Some t \<Rightarrow> [replace_symlink (ps @ [''previous'']) t] | None \<Rightarrow> [])"
  have 1: "completing ps r ?live (fold (\<lambda>f. f) (take n first) s)"
  proof (cases old)
    case (Some t)
    with c(1) obtain b where "t = release_dir ps b" "usable ps (ms_fs s) b" by auto
    then show ?thesis using replace_symlink_ok(1) [OF start, of b "''previous''"] start by (cases n) (simp_all add: first_def Some)
  qed (use start in \<open>simp add: first_def\<close>)
  have cur: "completing ps r ?live (replace_symlink (ps @ [''current'']) (pr_root r) s1)" if "completing ps r ?live s1" for s1
    using replace_symlink_ok(1) [OF that, of "pr_build r" "''current''"] that assms(2) by (simp add: completing_def)
  have "completing ps r ?live (fold (\<lambda>f. f) (take (n - length first) (replace_symlink (ps @ [''current'']) (pr_root r) #
      recording_changes e r refs old v es at)) (fold (\<lambda>f. f) (take n first) s))" for es
    by (rule fold_changes [where P = "completing ps r ?live"]) (use 1 cur prune_keeps_pointer(2) [OF _ assms(2)] in \<open>auto simp: recording_changes_def\<close>)
  moreover have "completing ps r ?live (fold (\<lambda>f. f) (take (n - length first) [replace_symlink (ps @ [''current'']) (pr_root r)])
      (fold (\<lambda>f. f) (take n first) s))"
    by (rule fold_changes [where P = "completing ps r ?live"]) (use 1 cur in auto)
  ultimately show ?thesis
    using c(1) by (simp add: complete_upto_def Inr x pointer_changes_def first_def [symmetric] split: sum.split)
qed

lemma complete_release_effect:
  assumes "releases_ok ps (ms_fs s)" "pr_root r = release_dir ps (pr_build r)" "usable ps (ms_fs s) (pr_build r)"
    and "project_state (pr_project r) (take (length (pr_root r) - 4) (pr_root r)) = Inr ps"
    and "complete_release e r refs at s = (Inr (), s')"
  shows "releases_ok ps (ms_fs s') \<and> usable ps (ms_fs s') (pr_build r) \<and>
    map_of (ms_fs s') (ps @ [''current'']) = Some (Link (path_text (pr_root r))) \<and>
    (\<exists>v es old. read_receipt e r s = Inr v \<and> events_of v = Inr es \<and>
       ms_receipts s' = dict_set (pr_receipt r) (Some (JObj (sealed e (completed_receipt v es old at)))) (ms_receipts s))"
proof -
  have safe: "completing ps r (map_of (ms_fs s) (ps @ [''current'']) \<noteq> None) s'"
    using complete_upto_safe [OF assms(1-4), of 4 e refs at] assms(5) by (simp add: complete_release_def)
  obtain x where x: "completion_checks e r s = Inr x"
    using assms(5) by (cases "completion_checks e r s") (simp_all add: complete_release_def complete_upto_def)
  obtain ps' old v where xx: "x = (ps', old, v)" by (metis prod.exhaust)
  note c = completion_checks_old [OF x [unfolded xx] assms(1,4)]
  obtain es where es: "events_of v = Inr es"
    using assms(5) by (cases "events_of v") (simp_all add: complete_release_def complete_upto_def x xx)
  define s1 where "s1 = (case old of Some t \<Rightarrow> replace_symlink (ps @ [''previous'']) t s | None \<Rightarrow> s)"
  define s2 where "s2 = replace_symlink (ps @ [''current'']) (pr_root r) s1"
  let ?w = "write_receipt e (pr_receipt r) (completed_receipt v es old at) s2"
  have s': "s' = ?w\<lparr>ms_fs := snd (prune_old_releases e r refs (ms_fs ?w))\<rparr>"
    using assms(5) c(1) by (cases old) (auto simp: complete_release_def complete_upto_def x xx es pointer_changes_def recording_changes_def s1_def s2_def)
  have start: "completing ps r False s" using assms(1,3) by (simp add: completing_def)
  have c1: "completing ps r False s1"
    using c(1) start replace_symlink_ok(1) [OF start] by (cases old) (auto simp: s1_def)
  then have c2: "completing ps r False s2" "map_of (ms_fs s2) (ps @ [''current'']) = Some (Link (path_text (pr_root r)))"
    using replace_symlink_ok [OF c1, of "pr_build r" "''current''"] assms(2) by (simp_all add: s2_def completing_def)
  have "map_of (ms_fs s') (ps @ [''current'']) = map_of (ms_fs s2) (ps @ [''current''])"
    using prune_keeps_pointer(1) [OF c2(1) assms(2), of e refs "''current''"] by (simp add: s')
  moreover have rr: "ms_receipts (replace_symlink q t u) = ms_receipts u" for q t u by (simp add: replace_symlink_def split: option.split)
  have "ms_receipts s2 = ms_receipts s" by (simp add: s2_def s1_def rr split: option.split)
  ultimately show ?thesis using safe c(2) es c2(2) by (auto simp: completing_def s' write_receipt_def)
qed

section \<open>Histories\<close>

text \<open>
  What happens to a project's releases: preparing, recording and completing them with any environment,
  a completion cut short after any of its changes, and work inside the source trees of releases.
\<close>

inductive release_step :: "path \<Rightarrow> release_state \<Rightarrow> release_state \<Rightarrow> bool" for ps where
  prepares: "project_state project state_root = Inr ps \<Longrightarrow> is_uuid_hex build \<Longrightarrow>
    release_step ps s (snd (prepare_release e project repo state_root candidate validated rollback build at s))"
| marks: "release_step ps s (snd (mark_phase e r phase status at evidence s))"
| fails: "release_step ps s (snd (fail_release e r phase migrations at s))"
| completes: "pr_root r = release_dir ps (pr_build r) \<Longrightarrow>
    project_state (pr_project r) (take (length (pr_root r) - 4) (pr_root r)) = Inr ps \<Longrightarrow> usable ps (ms_fs s) (pr_build r) \<Longrightarrow>
    release_step ps s (snd (complete_upto n e r refs at s))"
| works: "\<forall>q. map_of fs' q \<noteq> map_of (ms_fs s) q \<longrightarrow> (\<exists>b rel. rel \<noteq> [] \<and> q = release_dir ps b @ [''source''] @ rel) \<Longrightarrow>
    release_step ps s (s\<lparr>ms_fs := fs'\<rparr>)"

lemma update_receipt_fs [simp]: "ms_fs (snd (update_receipt e r f g s)) = ms_fs s"
  by (simp add: update_receipt_def split: sum.split prod.split)

lemma work_safe:
  assumes "\<forall>q. map_of fs' q \<noteq> map_of fs q \<longrightarrow> (\<exists>b rel. rel \<noteq> [] \<and> q = release_dir ps b @ [''source''] @ rel)"
  shows "safe_step ps fs fs'"
proof -
  have short: "map_of fs' q = map_of fs q" if "length q \<le> length ps + 3" for q
  proof (rule ccontr)
    assume "map_of fs' q \<noteq> map_of fs q"
    then obtain b rel where "rel \<noteq> []" "q = release_dir ps b @ [''source''] @ rel" using assms by blast
    then show False using that by (cases rel) simp_all
  qed
  have "releases_ok ps fs'" if ok: "releases_ok ps fs"
    by (rule ok_same [OF ok]) (auto intro!: short dest: prefix_length_le)
  then show ?thesis using short [of "ps @ [''current'']"] by (simp add: safe_step_def)
qed

lemma release_step_safe: "release_step ps s s' \<Longrightarrow> safe_step ps (ms_fs s) (ms_fs s')"
proof (induction rule: release_step.induct)
  case (prepares project state_root build s e repo candidate validated rollback at)
  show ?case
  proof (cases "releases_ok ps (ms_fs s)")
    case True
    have "safe_step ps (ms_fs s) (ms_fs (snd (materialize_release e project repo state_root d build at s)))" for d
      using materialize_safe(1) [OF prepares True] by (metis prod.collapse)
    then show ?thesis by (auto simp: prepare_release_def Let_def split: sum.split)
  qed (simp add: safe_step_def)
next
  case (completes r s n e refs at)
  then show ?case
    using complete_upto_safe [OF _ completes(1,3,2), of n e refs at] by (auto simp: safe_step_def completing_def)
qed (simp_all add: mark_phase_def fail_release_def work_safe)

text \<open>
  C17: The live release is always usable. From any state of a project's storage in which the links are
  absent or lead to usable releases, through any history of preparing, recording and completing
  releases, with completions cut short after any of their changes and pruning whatever it may, the live
  source resolves without an error to an existing directory, or nothing was ever completed; and
  once there is a live release there always is one.
\<close>

theorem live_release_stays:
  assumes "releases_ok ps (ms_fs s)" and "(release_step ps)\<^sup>*\<^sup>* s s'"
  shows "(current_source_root ps (ms_fs s') = Inr None \<and> current_source_root ps (ms_fs s) = Inr None) \<or>
    (\<exists>p. current_source_root ps (ms_fs s') = Inr (Some p) \<and> is_dir (ms_fs s') p)"
proof -
  have "safe_step ps (ms_fs s) (ms_fs s')"
    using assms(2) by (induction rule: rtranclp_induct) (auto intro: safe_step_trans release_step_safe)
  then have ok: "releases_ok ps (ms_fs s')"
    and live: "map_of (ms_fs s) (ps @ [''current'']) \<noteq> None \<Longrightarrow> map_of (ms_fs s') (ps @ [''current'']) \<noteq> None"
    using assms(1) by (auto simp: safe_step_def)
  from current_source_ok [OF ok] show ?thesis
  proof
    assume n: "map_of (ms_fs s') (ps @ [''current'']) = None \<and> current_source_root ps (ms_fs s') = Inr None"
    then have m: "map_of (ms_fs s) (ps @ [''current'']) = None" using live by blast
    have "clean ps" "lookup (ms_fs s) ps = Some Dir" "pointer_ok ps (ms_fs s) ''current''" using assms(1) by (simp_all add: releases_ok_def)
    from pointer_cases [OF this disjI1 [OF refl]] m have "current_source_root ps (ms_fs s) = Inr None"
      by (auto simp: current_source_root_def current_build_def)
    then show ?thesis using n by blast
  qed blast
qed

section \<open>Receipts\<close>

lemma filter_out_jput: "filter (\<lambda>(k, _). k \<noteq> j) (jput j w d) = filter (\<lambda>(k, _). k \<noteq> j) d"
  by (induction d) auto

lemma intact_sealed [simp]: "intact e (sealed e v)"
  by (simp add: intact_def sealed_def receipt_id_def filter_out_jput has_str_def)

lemma sealed_fields [simp]: "k \<noteq> ''deployment_id'' \<Longrightarrow> map_of (sealed e v) k = map_of v k"
  by (simp add: sealed_def)

text \<open>The receipt of a release as its readers see it: its entries with its events.\<close>

definition recorded :: "release_env \<Rightarrow> prepared \<Rightarrow> release_state \<Rightarrow> dict \<Rightarrow> json list \<Rightarrow> bool" where
  "recorded e r s v es \<longleftrightarrow> read_receipt e r s = Inr v \<and> map_of v ''events'' = Some (JList es)"

lemma events_of_Inr: "events_of v = Inr es \<longleftrightarrow> map_of v ''events'' = Some (JList es)"
  by (auto simp: events_of_def split: option.splits json.splits)

lemma read_receipt_Inr:
  "read_receipt e r s = Inr v \<longleftrightarrow> map_of (ms_receipts s) (pr_receipt r) = Some (Some (JObj v)) \<and> has_str v ''build_id'' (pr_build r) \<and> intact e v"
proof (cases "map_of (ms_receipts s) (pr_receipt r)")
  case (Some x)
  show ?thesis
  proof (cases x)
    case (Some j)
    then show ?thesis using \<open>map_of (ms_receipts s) (pr_receipt r) = Some x\<close> by (cases j) (auto simp: read_receipt_def)
  qed (use Some in \<open>simp add: read_receipt_def\<close>)
qed (simp add: read_receipt_def)

text \<open>
  A receipt reads back as it was written, under its seal; and what is read has its seal.
\<close>

lemma read_written:
  assumes "has_str v ''build_id'' (pr_build r)"
  shows "read_receipt e r (write_receipt e (pr_receipt r) v s) = Inr (sealed e v)"
  using assms by (simp add: read_receipt_Inr write_receipt_def has_str_def)

lemma from_descriptor_commit:
  assumes "from_descriptor d full = Inr source"
  shows "\<exists>c. map_of d ''source_commit'' = Some c \<and> get source ''source_commit'' = JStr (json_str c)"
proof -
  obtain c where "required_text d ''source_commit'' = Inr c" "get source ''source_commit'' = JStr c"
    using assms by (auto simp: from_descriptor_def Let_def get_def get_or_def jmerge_def)
  then show ?thesis by (auto simp: required_text_def split: option.split_asm)
qed

lemma materialize_recorded:
  assumes "materialize_release e project repo state_root d build at s = (Inr r, s')"
  shows "(\<exists>v. recorded e r s' v [JObj (phase_event ''prepared'' ''succeeded'' at [])]) \<and>
    (\<exists>c. map_of d ''source_commit'' = Some c \<and> pr_commit r = json_str c)"
proof -
  obtain source previous fs3 where f: "from_descriptor d False = Inr source" "pr_source r = source"
    and s': "s' = write_receipt e (pr_receipt r) (first_receipt project (pr_build r) (pr_receipt r) source (pr_root r @ [''source'']) previous at) (s\<lparr>ms_fs := fs3\<rparr>)"
    using assms by (auto simp: materialize_release_def Let_def split: if_split_asm sum.split_asm prod.split_asm option.split_asm)
  let ?v = "first_receipt project (pr_build r) (pr_receipt r) source (pr_root r @ [''source'']) previous at"
  have "has_str ?v ''build_id'' (pr_build r)" "map_of ?v ''events'' = Some (JList [JObj (phase_event ''prepared'' ''succeeded'' at [])])"
    by (simp_all add: first_receipt_def has_str_def jmerge_def)
  then have "recorded e r s' (sealed e ?v) [JObj (phase_event ''prepared'' ''succeeded'' at [])]"
    unfolding s' recorded_def using read_written by simp
  moreover obtain c where "map_of d ''source_commit'' = Some c" "get source ''source_commit'' = JStr (json_str c)"
    using from_descriptor_commit [OF f(1)] by blast
  moreover have "pr_commit r = json_str c" using calculation(3) f(2) by (simp add: pr_commit_def json_str_def)
  ultimately show ?thesis by blast
qed

lemma update_receipt_recorded:
  assumes "update_receipt e r f g s = (a, s')" and "\<And>v. map_of (g v) ''build_id'' = map_of v ''build_id''"
    and "\<And>v. map_of (g v) ''events'' = map_of v ''events''"
  shows "(\<exists>err. a = Inl err) \<and> s' = s \<or>
    (\<exists>v es. a = Inr () \<and> recorded e r s v es \<and> recorded e r s' (sealed e (g (jput ''events'' (JList (f es)) v))) (f es))"
proof (cases "and_then (read_receipt e r s) (\<lambda>value. and_then (events_of value) (\<lambda>es. return (value, es)))")
  case (Inl err)
  then show ?thesis using assms(1) by (auto simp: update_receipt_def)
next
  case (Inr x)
  then obtain v es where x: "x = (v, es)" "read_receipt e r s = Inr v" "map_of v ''events'' = Some (JList es)"
    by (auto simp: events_of_Inr)
  have "has_str (g (jput ''events'' (JList (f es)) v)) ''build_id'' (pr_build r)"
    using x(2) assms(2) by (simp add: read_receipt_Inr has_str_def)
  from read_written [OF this, of e s] have "recorded e r s' (sealed e (g (jput ''events'' (JList (f es)) v))) (f es)"
    using assms(1,3) Inr x(1) by (auto simp: update_receipt_def recorded_def)
  moreover have "a = Inr ()" using assms(1) Inr x(1) by (simp add: update_receipt_def)
  ultimately show ?thesis using x by (auto simp: recorded_def)
qed

lemma mark_phase_recorded:
  assumes "mark_phase e r phase status at evidence s = (a, s')"
  shows "(\<exists>err. a = Inl err) \<and> s' = s \<or>
    (\<exists>v es v'. a = Inr () \<and> recorded e r s v es \<and> recorded e r s' v' (es @ [JObj (phase_event phase status at evidence)]) \<and>
       (\<forall>k. k \<notin> {''events'', ''deployment_id'', ''migrations''} \<longrightarrow> map_of v' k = map_of v k) \<and>
       map_of v' ''migrations'' = (if phase = ''migrations'' then Some (JStr status) else map_of v ''migrations''))"
  using update_receipt_recorded [OF assms [unfolded mark_phase_def]] by fastforce

lemma fail_release_recorded:
  assumes "fail_release e r phase migrations at s = (a, s')"
  shows "(\<exists>err. a = Inl err) \<and> s' = s \<or> (\<exists>v es v' new. a = Inr () \<and> recorded e r s v es \<and> recorded e r s' v' (es @ new))"
proof -
  let ?g = "\<lambda>value. let failed = jmerge value [(''state'', JStr ''failed''), (''failed_phase'', JStr phase), (''completed_at'', JNum at)]
                in case migrations of Some m \<Rightarrow> jput ''migrations'' (JStr m) failed | None \<Rightarrow> failed"
  have g: "map_of (?g v) k = map_of v k" if "k \<in> {''build_id'', ''events''}" for v k
    using that by (auto simp: jmerge_def Let_def split: option.split)
  from update_receipt_recorded [OF assms [unfolded fail_release_def]] g show ?thesis by (auto split: if_split_asm) (metis append_Nil2)+
qed

lemma recorded_receipts: "map_of (ms_receipts s') (pr_receipt r) = map_of (ms_receipts s) (pr_receipt r) \<Longrightarrow> recorded e r s' v es = recorded e r s v es"
  by (simp add: recorded_def read_receipt_Inr)

lemma replace_symlink_receipts [simp]: "ms_receipts (replace_symlink p t s) = ms_receipts s"
  by (simp add: replace_symlink_def split: option.split)

lemma pointer_changes_receipts [simp]: "ms_receipts (fold (\<lambda>f. f) (take n (pointer_changes r ps old)) s) = ms_receipts s"
  by (rule fold_changes [where P = "\<lambda>u. ms_receipts u = ms_receipts s"]) (auto simp: pointer_changes_def split: option.split_asm)

lemma completed_receipt_recorded:
  assumes "recorded e r s v es"
  shows "recorded e r (write_receipt e (pr_receipt r) (completed_receipt v es old at) u) (sealed e (completed_receipt v es old at))
    (es @ [JObj (phase_event ''completed'' ''succeeded'' at [])])"
proof -
  have "map_of (completed_receipt v es old at) ''build_id'' = map_of v ''build_id''"
    by (simp add: completed_receipt_def jmerge_def split: option.split)
  then have "has_str (completed_receipt v es old at) ''build_id'' (pr_build r)"
    using assms by (simp add: recorded_def read_receipt_Inr has_str_def)
  from read_written [OF this] show ?thesis by (simp add: recorded_def completed_receipt_def jmerge_def)
qed

lemma complete_upto_recorded:
  assumes "complete_upto n e r refs at s = (a, s')"
  shows "ms_receipts s' = ms_receipts s \<or> (\<exists>v es v' new. recorded e r s v es \<and> recorded e r s' v' (es @ new))"
proof (cases "completion_checks e r s")
  case (Inl err)
  then show ?thesis using assms by (simp add: complete_upto_def)
next
  case (Inr x)
  obtain ps old v where x: "x = (ps, old, v)" by (metis prod.exhaust)
  show ?thesis
  proof (cases "events_of v")
    case (Inl err)
    then show ?thesis using assms by (auto simp: complete_upto_def Inr x)
  next
    case es: (Inr es)
    let ?u = "fold (\<lambda>f. f) (take n (pointer_changes r ps old)) s" and ?m = "n - length (pointer_changes r ps old)"
    have rec: "recorded e r s v es" using Inr es by (auto simp: x completion_checks_def recorded_def events_of_Inr)
    have s': "s' = fold (\<lambda>f. f) (take ?m (recording_changes e r refs old v es at)) ?u"
      using assms by (auto simp: complete_upto_def Inr x es)
    show ?thesis
    proof (cases ?m)
      case 0
      then show ?thesis using s' by simp
    next
      case (Suc k)
      let ?w = "write_receipt e (pr_receipt r) (completed_receipt v es old at) ?u"
      have "ms_receipts s' = ms_receipts ?w" unfolding s' Suc by (cases k) (simp_all add: recording_changes_def)
      then have "recorded e r s' (sealed e (completed_receipt v es old at)) (es @ [JObj (phase_event ''completed'' ''succeeded'' at [])])"
        using completed_receipt_recorded [OF rec] recorded_receipts [of s' r ?w] by simp
      then show ?thesis using rec by blast
    qed
  qed
qed

text \<open>Everything that may happen to the receipt of one release.\<close>

inductive receipt_step :: "release_env \<Rightarrow> prepared \<Rightarrow> release_state \<Rightarrow> release_state \<Rightarrow> bool" for e r where
  mark: "receipt_step e r s (snd (mark_phase e r phase status at evidence s))"
| fail: "receipt_step e r s (snd (fail_release e r phase migrations at s))"
| complete: "receipt_step e r s (snd (complete_upto n e r refs at s))"
| elsewhere: "map_of (ms_receipts s') (pr_receipt r) = map_of (ms_receipts s) (pr_receipt r) \<Longrightarrow> receipt_step e r s s'"

lemma appended:
  assumes "recorded e r s v es" and "ms_receipts s' = ms_receipts s \<or> (\<exists>v0 es0 v' new. recorded e r s v0 es0 \<and> recorded e r s' v' (es0 @ new))"
  shows "\<exists>v' new. recorded e r s' v' (es @ new)"
  using assms(2)
proof
  assume "ms_receipts s' = ms_receipts s"
  then have "recorded e r s' v (es @ [])" using assms(1) recorded_receipts [of s' r s e v es] by simp
  then show ?thesis by blast
next
  assume "\<exists>v0 es0 v' new. recorded e r s v0 es0 \<and> recorded e r s' v' (es0 @ new)"
  then show ?thesis using assms(1) by (auto simp: recorded_def)
qed

lemma receipt_step_events:
  assumes "receipt_step e r s s'" "recorded e r s v es"
  shows "\<exists>v' new. recorded e r s' v' (es @ new)"
  using assms(1)
proof (cases rule: receipt_step.cases)
  case (mark phase status at evidence)
  with mark_phase_recorded [OF prod.collapse [symmetric], of e r phase status at evidence s]
  show ?thesis by (intro appended [OF assms(2)]) metis
next
  case (fail phase migrations at)
  with fail_release_recorded [OF prod.collapse [symmetric], of e r phase migrations at s]
  show ?thesis by (intro appended [OF assms(2)]) metis
next
  case (complete n refs at)
  with complete_upto_recorded [OF prod.collapse [symmetric], of n e r refs at s]
  show ?thesis by (intro appended [OF assms(2)]) simp
next
  case elsewhere
  then have "recorded e r s' v (es @ [])" using assms(2) recorded_receipts [of s' r s e v es] by simp
  then show ?thesis by blast
qed

text \<open>
  C36: A failed phase is final. Once the sealed receipt of a release records the failure of one of the
  phases a deployment requires, nothing that happens to it afterwards, neither marking the phase as
  succeeded nor completing the release, gives a receipt that is accepted as a successful deployment.
\<close>

theorem failed_phase_is_final:
  assumes "recorded e r s v es" and "phase_failed es p" and "p \<in> set REQUIRED_PHASES" and "(receipt_step e r)\<^sup>*\<^sup>* s s'"
  shows "\<exists>v' es'. recorded e r s' v' es' \<and> phase_failed es' p \<and>
    (\<forall>fs artifact root c d. validate_deployment_receipt e fs artifact (JObj v') True root c \<noteq> Inr d)"
proof -
  have "\<exists>v' new. recorded e r s' v' (es @ new)"
    using assms(4,1)
  proof (induction rule: rtranclp_induct)
    case base
    then show ?case by (metis append_Nil2)
  next
    case (step y z)
    then obtain v' new where "recorded e r y v' (es @ new)" by blast
    from receipt_step_events [OF step(2) this] show ?case by (metis append_assoc)
  qed
  then obtain v' new where r: "recorded e r s' v' (es @ new)" by blast
  have f: "phase_failed (es @ new) p" using assms(2) by (simp add: phase_failed_def)
  then have "list_ex (phase_failed (es @ new)) REQUIRED_PHASES" using assms(3) by (auto simp: list_ex_iff)
  then have "validate_deployment_receipt e fs artifact (JObj v') True root c \<noteq> Inr d" for fs artifact root c d
    using r by (auto simp: validate_deployment_receipt_def lifecycle_evidence_def recorded_def split: option.split_asm json.split_asm)
  with r f show ?thesis by blast
qed

section \<open>Witnesses\<close>

definition sample_release_env :: release_env where
  "sample_release_env =
     \<lparr>me_cwd = [''r''], me_digest = (\<lambda>d. ''d'' @ concat (map fst d)), me_commit = Some, me_tree = (\<lambda>c. Some (''t'' @ c)),
      me_archive = (\<lambda>_. Some [([''main.py''], File ''run'')]), me_ancestor = (\<lambda>a b. a = ''c1'' \<and> b = ''c2''), me_in_use = (\<lambda>_. False),
      me_rm_fault = (\<lambda>_. None), me_smoke = (\<lambda>_. None)\<rparr>"

definition sample_project :: path where
  "sample_project = [''s'', ''projects'', ''sf'']"

definition sample_build :: "char \<Rightarrow> string" where
  "sample_build c = replicate 32 c"

definition sample_files :: fs where
  "sample_files =
     [([''r''], Dir), ([''s''], Dir), ([''s'', ''projects''], Dir), (sample_project, Dir), (sample_project @ [''releases''], Dir),
      (sample_project @ [''receipts''], Dir)] @
     concat (map (\<lambda>c. [(release_dir sample_project (sample_build c), Dir), (release_dir sample_project (sample_build c) @ [''source''], Dir)])
       [CHR ''a'', CHR ''b'', CHR ''c'']) @
     [(sample_project @ [''current''], Link (path_text (release_dir sample_project (sample_build CHR ''b'')))),
      (sample_project @ [''previous''], Link (path_text (release_dir sample_project (sample_build CHR ''a''))))]"

definition sample_release :: prepared where
  "sample_release =
     (let root = release_dir sample_project (sample_build CHR ''c'')
      in \<lparr>pr_project = ''sf'', pr_build = sample_build CHR ''c'', pr_source = [(''source_commit'', JStr ''c2'')], pr_root = root,
          pr_source_root = root @ [''source''], pr_receipt = sample_project @ [''receipts'', sample_build CHR ''c'' @ ''.json'']\<rparr>)"

definition sample_events :: "json list" where
  "sample_events = [JObj (phase_event ''health'' ''failed'' 3 [])]"

definition sample_receipt :: dict where
  "sample_receipt = sealed sample_release_env [(''build_id'', JStr (sample_build CHR ''c'')), (''events'', JList sample_events)]"

definition sample_releases :: release_state where
  "sample_releases = \<lparr>ms_fs = sample_files, ms_receipts = [(pr_receipt sample_release, Some (JObj sample_receipt))]\<rparr>"

text \<open>The state of the storage once the third release has been completed, and before it was pruned.\<close>

definition sample_completed :: release_state where
  "sample_completed = snd (complete_upto 3 sample_release_env sample_release (Some []) 5 sample_releases)"

lemma sample_pruned:
  "let fs = ms_fs sample_completed; p = release_dir sample_project (sample_build CHR ''a'') in
   map_of (snd (prune_old_releases sample_release_env sample_release (Some []) fs)) p = None \<and> map_of fs p = Some Dir"
  by code_simp


lemma sample_ok: "releases_ok sample_project sample_files"
proof -
  have "clean sample_project \<and> lookup sample_files sample_project = Some Dir \<and> map_of sample_files (sample_project @ [''releases'']) = Some Dir \<and>
    map_of sample_files (sample_project @ [''current'']) = Some (Link (path_text (release_dir sample_project (sample_build CHR ''b'')))) \<and>
    map_of sample_files (sample_project @ [''previous'']) = Some (Link (path_text (release_dir sample_project (sample_build CHR ''a'')))) \<and>
    is_uuid_hex (sample_build CHR ''a'') \<and> is_uuid_hex (sample_build CHR ''b'') \<and>
    lookup sample_files (release_dir sample_project (sample_build CHR ''a'') @ [''source'']) = Some Dir \<and>
    lookup sample_files (release_dir sample_project (sample_build CHR ''b'') @ [''source'']) = Some Dir"
    by code_simp
  then show ?thesis unfolding releases_ok_def pointer_ok_def usable_def by blast
qed

lemma sample_release_ok:
  "pr_root sample_release = release_dir sample_project (pr_build sample_release)"
  "project_state (pr_project sample_release) (take (length (pr_root sample_release) - 4) (pr_root sample_release)) = Inr sample_project"
  "usable sample_project sample_files (pr_build sample_release)"
proof -
  show "pr_root sample_release = release_dir sample_project (pr_build sample_release)" by code_simp
  show "project_state (pr_project sample_release) (take (length (pr_root sample_release) - 4) (pr_root sample_release)) = Inr sample_project"
    by code_simp
  show "usable sample_project sample_files (pr_build sample_release)" unfolding usable_def by code_simp
qed

theorem live_release_stays_witness:
  "\<exists>p. current_source_root sample_project (ms_fs sample_completed) = Inr (Some p) \<and> is_dir (ms_fs sample_completed) p"
proof -
  have "release_step sample_project sample_releases sample_completed"
    unfolding sample_completed_def using sample_release_ok by (intro completes) (simp_all add: sample_releases_def)
  then have steps: "(release_step sample_project)\<^sup>*\<^sup>* sample_releases sample_completed" by blast
  have "current_source_root sample_project sample_files \<noteq> Inr None" by code_simp
  then show ?thesis using live_release_stays [OF _ steps] sample_ok by (simp add: sample_releases_def)
qed

theorem failed_phase_is_final_witness:
  "\<exists>v es. recorded sample_release_env sample_release
       (snd (mark_phase sample_release_env sample_release ''health'' ''succeeded'' 4 [] sample_releases)) v es \<and> phase_failed es ''health'' \<and>
     (\<forall>fs artifact root c d. validate_deployment_receipt sample_release_env fs artifact (JObj v) True root c \<noteq> Inr d)"
proof (rule failed_phase_is_final)
  have "read_receipt sample_release_env sample_release sample_releases = Inr sample_receipt \<and>
      map_of sample_receipt ''events'' = Some (JList sample_events)" by code_simp
  then show "recorded sample_release_env sample_release sample_releases sample_receipt sample_events" by (simp add: recorded_def)
  show "phase_failed sample_events ''health''" by code_simp
  show "''health'' \<in> set REQUIRED_PHASES" by (simp add: REQUIRED_PHASES_def)
  show "(receipt_step sample_release_env sample_release)\<^sup>*\<^sup>* sample_releases
      (snd (mark_phase sample_release_env sample_release ''health'' ''succeeded'' 4 [] sample_releases))"
    by (intro r_into_rtranclp mark)
qed

end
