(* ===== verification/Rebuild.thy ===== *)
theory Rebuild
  imports ReleaseFacts
begin

text \<open>
  A rebuild (\<open>backend/cli/commands/service.py\<close>, under the project's deployment lock): preparing the release,
  its build steps, the restart of the services, their health, and then completing it; what is undone
  and recorded when a step fails or raises.

  Every program a rebuild runs is an answer of the environment: an exit code (zero where the code looks
  at no exit code), or an exception. The lock is held throughout; what a rebuild prints is left out.
\<close>

datatype answer = Code nat | RaisesService | RaisesOther

datatype flow_error = ExitWith nat | ServiceFailed | ReleaseFailed release_error | OtherFailed

record rebuild_env =
  rb_release :: release_env
  rb_step :: "string \<Rightarrow> answer"
  rb_restart :: "string \<Rightarrow> answer"
  rb_active :: "string \<Rightarrow> bool"
  rb_at :: "string \<Rightarrow> int"
  rb_took :: "string \<Rightarrow> int"
  rb_restore :: answer
  rb_store_migration :: "(flow_error, string \<times> json) result"
  rb_monitor :: "string \<Rightarrow> answer"
  rb_at_source :: answer
  rb_changed :: answer
  rb_references :: "(flow_error, path list option) result"
  rb_launcher :: answer

datatype scope = Full | Backend | Frontend | Worker

text \<open>What \<open>rebuild\<close> was called with and what it reads of the project.\<close>

record rebuild_plan =
  rp_project :: string
  rp_repo :: path
  rp_state_root :: path
  rp_candidate :: "(string, dict) result"
  rp_validated :: "dict released"
  rp_rollback :: bool
  rp_build :: string
  rp_scope :: scope
  rp_manual :: "string list"
  rp_workers :: "string list"
  rp_backend_service :: string
  rp_frontend_service :: string
  rp_is_monitor :: "string \<Rightarrow> bool"
  rp_has_monitor :: bool
  rp_release_install :: bool
  rp_migrate_store :: bool

text \<open>The components of the scope; a rebuild of manual workers has none.\<close>

definition rp_backend :: "rebuild_plan \<Rightarrow> bool" where
  "rp_backend p \<longleftrightarrow> rp_scope p \<noteq> Frontend \<and> rp_manual p = []"

definition rp_frontend :: "rebuild_plan \<Rightarrow> bool" where
  "rp_frontend p \<longleftrightarrow> rp_scope p \<in> {Full, Frontend} \<and> rp_manual p = []"

fun scope_value :: "scope \<Rightarrow> string" where
  "scope_value Full = ''full''"
| "scope_value Backend = ''backend''"
| "scope_value Frontend = ''frontend''"
| "scope_value Worker = ''worker''"

definition scope_label :: "rebuild_plan \<Rightarrow> string" where
  "scope_label p = (if rp_manual p \<noteq> [] then ''manual'' else scope_value (rp_scope p))"

text \<open>The state of a rebuild: the releases, and what its exception handlers look at.\<close>

record flow =
  fl_state :: release_state
  fl_release :: "prepared option"
  fl_monitor :: bool
  fl_restarted :: bool

type_synonym 'a flow_op = "(flow, flow_error, 'a) op"

definition ret :: "'a \<Rightarrow> 'a flow_op" where
  "ret x f = (return x, f)"

definition fails_with :: "flow_error \<Rightarrow> 'a flow_op" where
  "fails_with err f = (raise err, f)"

definition change :: "(flow \<Rightarrow> flow) \<Rightarrow> unit flow_op" where
  "change g f = (return (), g f)"

definition asking :: "(flow \<Rightarrow> 'a) \<Rightarrow> 'a flow_op" where
  "asking g f = (return (g f), f)"

definition on_release :: "(release_state, release_error, 'a) op \<Rightarrow> 'a flow_op" where
  "on_release m f =
     (case m (fl_state f) of
        (Inl err, s) \<Rightarrow> (raise (ReleaseFailed err), f\<lparr>fl_state := s\<rparr>)
      | (Inr x, s) \<Rightarrow> (return x, f\<lparr>fl_state := s\<rparr>))"

definition reading :: "(release_state \<Rightarrow> 'a released) \<Rightarrow> 'a flow_op" where
  "reading g = on_release (\<lambda>s. (g s, s))"

definition run :: "answer \<Rightarrow> nat flow_op" where
  "run a f = ((case a of Code n \<Rightarrow> return n | RaisesService \<Rightarrow> raise ServiceFailed | RaisesOther \<Rightarrow> raise OtherFailed), f)"

definition catching :: "'a flow_op \<Rightarrow> (flow_error \<Rightarrow> bool) \<Rightarrow> (flow_error \<Rightarrow> 'a flow_op) \<Rightarrow> 'a flow_op" where
  "catching m P h f = (case m f of (Inl err, g) \<Rightarrow> if P err then h err g else (raise err, g) | (Inr x, g) \<Rightarrow> (return x, g))"

fun expected_error :: "flow_error \<Rightarrow> bool" where
  "expected_error ServiceFailed = True"
| "expected_error (ReleaseFailed (ReleaseError _)) = True"
| "expected_error _ = False"

section \<open>Phases\<close>

definition mark :: "rebuild_env \<Rightarrow> prepared \<Rightarrow> string \<Rightarrow> string \<Rightarrow> dict \<Rightarrow> unit flow_op" where
  "mark b r phase status evidence = on_release (mark_phase (rb_release b) r phase status (rb_at b phase) evidence)"

definition fail :: "rebuild_env \<Rightarrow> prepared \<Rightarrow> string \<Rightarrow> string option \<Rightarrow> unit flow_op" where
  "fail b r phase migrations = on_release (fail_release (rb_release b) r phase migrations (rb_at b phase))"

definition timed_phase :: "rebuild_env \<Rightarrow> prepared \<Rightarrow> string \<Rightarrow> nat flow_op" where
  "timed_phase b r name =
     then_do (run (rb_step b name)) (\<lambda>result.
     then_do (mark b r name (if result = 0 then ''succeeded'' else ''failed'') [(''duration_seconds'', JNum (rb_took b name))]) (\<lambda>_. ret result))"

definition release_steps :: "rebuild_plan \<Rightarrow> string list" where
  "release_steps p =
     [''infrastructure'', ''backend_dependencies''] @ (if rp_backend p then [''host_monitor_build''] else []) @ [''frontend_build''] @
     (if rp_backend p then [''migrations''] else []) @ [''systemd_units''] @
     (if rp_backend p \<and> rp_release_install p then [''release_install''] else []) @ (if rp_backend p then [''host_monitor_policy''] else [])"

definition restore_previous_units :: "rebuild_env \<Rightarrow> prepared \<Rightarrow> bool flow_op" where
  "restore_previous_units b r =
     catching
       (then_do (reading (previous_source_root (rb_release b) r)) (\<lambda>previous.
        case previous of
          None \<Rightarrow> then_do (mark b r ''rollback'' ''unavailable'' [(''database'', JStr ''not_rolled_back'')]) (\<lambda>_. ret False)
        | Some root \<Rightarrow>
            then_do (run (rb_restore b)) (\<lambda>result.
            then_do (mark b r ''rollback'' (if result = 0 then ''units_restored'' else ''units_restore_failed'')
              [(''database'', JStr ''not_rolled_back; migration downgrade is unsupported''), (''previous_source_root'', JStr (path_text root)),
               (''running_services'', JStr ''not_restarted_automatically'')]) (\<lambda>_. ret (result = 0)))))
       expected_error
       (\<lambda>_. then_do (mark b r ''rollback'' ''units_restore_failed''
          [(''database'', JStr ''not_rolled_back; migration downgrade is unsupported''), (''running_services'', JStr ''requires_manual_recovery'')])
          (\<lambda>_. ret False))"

fun run_release_steps :: "rebuild_env \<Rightarrow> prepared \<Rightarrow> string list \<Rightarrow> unit flow_op" where
  "run_release_steps b r [] = ret ()"
| "run_release_steps b r (name # names) =
     then_do (timed_phase b r name) (\<lambda>result.
     if result \<noteq> 0
     then then_do (if name = ''systemd_units'' then then_do (restore_previous_units b r) (\<lambda>_. ret ()) else ret ()) (\<lambda>_.
          then_do (fail b r name None) (\<lambda>_. fails_with (ExitWith 1)))
     else run_release_steps b r names)"

section \<open>Restart and health\<close>

text \<open>The units to restart in order; a monitor that was just installed is only recorded.\<close>

definition restart_units :: "rebuild_plan \<Rightarrow> bool \<Rightarrow> (string \<times> bool) list" where
  "restart_units p monitor =
     (if rp_backend p \<and> rp_backend_service p \<noteq> [] then [(rp_backend_service p, True)] else []) @
     map (\<lambda>w. (w, \<not> (monitor \<and> rp_is_monitor p w))) (rp_workers p) @
     (if rp_frontend p \<and> rp_frontend_service p \<noteq> [] then [(rp_frontend_service p, True)] else [])"

fun restart_each :: "rebuild_env \<Rightarrow> (string \<times> bool) list \<Rightarrow> nat flow_op" where
  "restart_each b [] = ret 0"
| "restart_each b ((unit, restarted) # units) =
     then_do (if restarted then run (rb_restart b unit) else ret 0) (\<lambda>result.
     then_do (restart_each b units) (\<lambda>errors. ret ((if result \<noteq> 0 then 1 else 0) + errors)))"

definition restart_services :: "rebuild_env \<Rightarrow> rebuild_plan \<Rightarrow> prepared \<Rightarrow> nat flow_op" where
  "restart_services b p r =
     then_do (asking fl_monitor) (\<lambda>monitor.
     then_do (restart_each b (restart_units p monitor)) (\<lambda>errors.
     then_do (mark b r ''restart'' (if errors = 0 then ''succeeded'' else ''failed'')
       [(''duration_seconds'', JNum (rb_took b ''restart'')),
        (''services'', JList (map (JStr \<circ> fst) (restart_units p monitor)))]) (\<lambda>_. ret errors)))"

definition verify_and_seed :: "rebuild_env \<Rightarrow> rebuild_plan \<Rightarrow> prepared \<Rightarrow> nat \<Rightarrow> nat flow_op" where
  "verify_and_seed b p r errors =
     (let component = (rp_backend p \<or> rp_frontend p); inactive = length (filter (\<lambda>w. \<not> rb_active b w) (rp_workers p)) in
      then_do (if component then timed_phase b r ''health'' else ret 0) (\<lambda>unhealthy.
      let errors' = errors + unhealthy + inactive in
      if \<not> component
      then then_do (mark b r ''health'' (if inactive \<noteq> 0 then ''failed'' else ''succeeded'') [(''reason'', JStr ''manual_worker_scope'')]) (\<lambda>_.
           then_do (mark b r ''seeds'' ''not_applicable'' [(''reason'', JStr ''manual_worker_scope'')]) (\<lambda>_. ret errors'))
      else if errors' = 0
      then then_do (timed_phase b r ''seeds'') (\<lambda>result. ret (if result \<noteq> 0 then 1 else 0))
      else ret errors'))"

section \<open>The host monitor\<close>

definition migrate_store :: "rebuild_env \<Rightarrow> prepared \<Rightarrow> unit flow_op" where
  "migrate_store b r =
     (case rb_store_migration b of
        Inr (status, receipt) \<Rightarrow> mark b r ''host_monitor_store_migration'' status [(''receipt'', receipt)]
      | Inl ServiceFailed \<Rightarrow>
          then_do (mark b r ''host_monitor_store_migration'' ''failed'' []) (\<lambda>_.
          then_do (restore_previous_units b r) (\<lambda>_.
          then_do (fail b r ''host_monitor_store_migration'' None) (\<lambda>_. fails_with ServiceFailed)))
      | Inl err \<Rightarrow> fails_with err)"

definition require_code :: "answer \<Rightarrow> flow_error \<Rightarrow> unit flow_op" where
  "require_code a err = then_do (run a) (\<lambda>n. if n \<noteq> 0 then fails_with err else ret ())"

definition install_monitor :: "rebuild_env \<Rightarrow> prepared \<Rightarrow> unit flow_op" where
  "install_monitor b r =
     then_do (run (rb_monitor b ''install'')) (\<lambda>n.
     if n \<noteq> 0
     then then_do (restore_previous_units b r) (\<lambda>_. then_do (fail b r ''host_monitor_install'' None) (\<lambda>_. fails_with (ExitWith 1)))
     else then_do (change (\<lambda>f. f\<lparr>fl_monitor := True\<rparr>)) (\<lambda>_.
          then_do (mark b r ''host_monitor_install'' ''succeeded'' []) (\<lambda>_. require_code (rb_monitor b ''verify'') ServiceFailed)))"

definition rollback_monitor_and_reader :: "rebuild_env \<Rightarrow> prepared \<Rightarrow> unit flow_op" where
  "rollback_monitor_and_reader b r =
     then_do (asking fl_restarted) (\<lambda>restarted.
     then_do (restore_previous_units b r) (\<lambda>restored.
     if \<not> restored then ret ()
     else then_do (reading (previous_source_root (rb_release b) r)) (\<lambda>previous.
          case previous of
            None \<Rightarrow> ret ()
          | Some _ \<Rightarrow>
              then_do (run (rb_at_source b)) (\<lambda>_.
              then_do (if restarted then run (rb_monitor b ''reader'') else ret 0) (\<lambda>reader.
              if reader \<noteq> 0 then then_do (run (rb_monitor b ''candidate'')) (\<lambda>_. ret ())
              else then_do (run (rb_monitor b ''rollback'')) (\<lambda>rolled.
                   if rolled \<noteq> 0 then then_do (run (rb_monitor b ''candidate'')) (\<lambda>_. ret ())
                   else mark b r ''host_monitor_rollback'' ''succeeded''
                     [(''reader'', JStr (if restarted then ''previous_restarted'' else ''previous_running''))]))))))"

definition finalize_monitor :: "rebuild_env \<Rightarrow> unit flow_op" where
  "finalize_monitor b =
     then_do (asking fl_monitor) (\<lambda>monitor.
      if \<not> monitor then ret ()
      else then_do (require_code (rb_monitor b ''owner_access'') ServiceFailed) (\<lambda>_.
           then_do (require_code (rb_monitor b ''finalize'') ServiceFailed) (\<lambda>_. change (\<lambda>f. f\<lparr>fl_monitor := False\<rparr>))))"

section \<open>The rebuild\<close>

text \<open>\<open>prepare_accepted_release\<close>: an error that is none of the two kinds becomes a service error.\<close>

definition prepare :: "rebuild_env \<Rightarrow> rebuild_plan \<Rightarrow> prepared flow_op" where
  "prepare b p =
     then_do
       (catching
         (on_release (prepare_release (rb_release b) (rp_project p) (rp_repo p) (rp_state_root p) (rp_candidate p) (rp_validated p)
           (rp_rollback p) (rp_build p) (rb_at b ''prepared'')))
         (\<lambda>err. \<not> expected_error err) (\<lambda>_. fails_with ServiceFailed)) (\<lambda>r.
     then_do (run (rb_at_source b)) (\<lambda>_.
     then_do (change (\<lambda>f. f\<lparr>fl_release := Some r\<rparr>)) (\<lambda>_. ret r)))"

definition stop_with_errors :: "rebuild_env \<Rightarrow> rebuild_plan \<Rightarrow> prepared \<Rightarrow> unit flow_op" where
  "stop_with_errors b p r =
     then_do (asking fl_monitor) (\<lambda>monitor.
     then_do (if monitor then then_do (rollback_monitor_and_reader b r) (\<lambda>_. change (\<lambda>f. f\<lparr>fl_monitor := False\<rparr>))
              else then_do (restore_previous_units b r) (\<lambda>_. ret ())) (\<lambda>_.
     then_do (fail b r ''restart_health'' (Some (if rp_backend p then ''applied; automatic database rollback is unsupported'' else ''not_applicable''))) (\<lambda>_.
     fails_with (ExitWith 1))))"

definition build_and_restart :: "rebuild_env \<Rightarrow> rebuild_plan \<Rightarrow> prepared \<Rightarrow> unit flow_op" where
  "build_and_restart b p r =
     then_do (if rp_manual p = [] then run (rb_changed b) else ret 0) (\<lambda>_.
     then_do (mark b r ''deployment_scope'' ''selected''
       [(''release_scope'', JStr ''full''), (''scope'', JStr (scope_label p)), (''workers'', JList (map JStr (rp_workers p)))]) (\<lambda>_.
     then_do (if rp_backend p then ret ()
              else mark b r ''migrations'' ''not_applicable''
                [(''reason'', JStr (if rp_manual p \<noteq> [] then ''manual_worker_scope'' else ''frontend_restart_scope''))]) (\<lambda>_.
     then_do (run_release_steps b r (release_steps p)) (\<lambda>_.
     then_do (if rp_migrate_store p then migrate_store b r else ret ()) (\<lambda>_.
     then_do (if rp_backend p \<and> rp_has_monitor p then install_monitor b r else ret ()) (\<lambda>_.
     then_do (change (\<lambda>f. f\<lparr>fl_restarted := fl_restarted f \<or> rp_backend p \<and> rp_backend_service p \<noteq> []\<rparr>)) (\<lambda>_.
     then_do (restart_services b p r) (\<lambda>restart_errors.
     then_do (verify_and_seed b p r restart_errors) (\<lambda>errors.
     then_do (if errors \<noteq> 0 then stop_with_errors b p r else ret ()) (\<lambda>_. finalize_monitor b))))))))))"

definition go_live :: "rebuild_env \<Rightarrow> rebuild_plan \<Rightarrow> prepared \<Rightarrow> unit flow_op" where
  "go_live b p r =
     then_do (\<lambda>f. (rb_references b, f)) (\<lambda>references.
     then_do (on_release (complete_release (rb_release b) r references (rb_at b ''completed''))) (\<lambda>_.
     then_do (reading (publish_deployment_result (rb_release b) r (rp_repo p))) (\<lambda>_.
     require_code (rb_launcher b) (ExitWith 1))))"

text \<open>The two exception handlers; which errors are suppressed while a failure is recorded depends on the handler.\<close>

definition record_failure :: "rebuild_env \<Rightarrow> (flow_error \<Rightarrow> bool) \<Rightarrow> unit flow_op" where
  "record_failure b suppressed =
     then_do (asking fl_release) (\<lambda>release.
     case release of
       None \<Rightarrow> ret ()
     | Some r \<Rightarrow> catching (fail b r ''deployment'' None) suppressed (\<lambda>_. ret ()))"

definition undo_monitor :: "rebuild_env \<Rightarrow> unit flow_op" where
  "undo_monitor b =
     then_do (asking fl_release) (\<lambda>release.
     then_do (asking fl_monitor) (\<lambda>monitor.
     case release of Some r \<Rightarrow> if monitor then rollback_monitor_and_reader b r else ret () | None \<Rightarrow> ret ()))"

definition undo_unexpected :: "rebuild_env \<Rightarrow> unit flow_op" where
  "undo_unexpected b =
     catching (undo_monitor b) (\<lambda>_. True)
       (\<lambda>_. catching (then_do (run (rb_monitor b ''rollback'')) (\<lambda>_. ret ())) (\<lambda>_. True) (\<lambda>_. ret ()))"

definition handle_error :: "rebuild_env \<Rightarrow> flow_error \<Rightarrow> unit flow_op" where
  "handle_error b err =
     (if expected_error err
      then then_do (undo_monitor b) (\<lambda>_. then_do (record_failure b expected_error) (\<lambda>_. fails_with (ExitWith 1)))
      else then_do (undo_unexpected b) (\<lambda>_.
           then_do (case err of ExitWith _ \<Rightarrow> ret () | _ \<Rightarrow> record_failure b (\<lambda>_. True)) (\<lambda>_. fails_with err)))"

definition rebuild :: "rebuild_env \<Rightarrow> rebuild_plan \<Rightarrow> unit flow_op" where
  "rebuild b p =
     catching (then_do (prepare b p) (\<lambda>r. then_do (build_and_restart b p r) (\<lambda>_. go_live b p r))) (\<lambda>_. True) (handle_error b)"

end
