(* ===== verification/RebuildFacts.thy ===== *)
theory RebuildFacts
  imports Rebuild
begin

text \<open>
  A rebuild moves the live release only once every phase it requires has succeeded, and otherwise leaves
  the links as they were.
\<close>

section \<open>What an operation keeps\<close>

named_theorems flow_keeps

lemma keeps_seq [flow_keeps]: "keeps P m \<Longrightarrow> (\<And>x. keeps P (f x)) \<Longrightarrow> keeps P (then_do m f)"
  by (rule keeps_then_do)

lemma keeps_ret [flow_keeps]: "keeps P (ret x)"
  by (simp add: keeps_def ret_def)

lemma keeps_fails_with [flow_keeps]: "keeps P (fails_with err)"
  by (simp add: keeps_def fails_with_def)

lemma keeps_run [flow_keeps]: "keeps P (run a)"
  by (simp add: keeps_def run_def)

lemma keeps_asking [flow_keeps]: "keeps P (asking g)"
  by (simp add: keeps_def asking_def)

lemma keeps_reading [flow_keeps]: "keeps P (reading g)"
  by (simp add: keeps_def reading_def on_release_def split: sum.split)

lemma keeps_catching [flow_keeps]: "keeps P m \<Longrightarrow> (\<And>err. keeps P (h err)) \<Longrightarrow> keeps P (catching m Q h)"
  by (auto simp: keeps_def catching_def split: prod.split sum.split)

lemma keeps_if [flow_keeps]: "keeps P m \<Longrightarrow> keeps P n \<Longrightarrow> keeps P (if c then m else n)"
  by simp

lemma keeps_option [flow_keeps]: "keeps P m \<Longrightarrow> (\<And>y. keeps P (n y)) \<Longrightarrow> keeps P (case x of None \<Rightarrow> m | Some y \<Rightarrow> n y)"
  by (cases x) simp_all

lemma keeps_answer [flow_keeps]: "keeps P (require_code a err)"
  unfolding require_code_def by (intro flow_keeps)

lemma keeps_restart_each [flow_keeps]: "keeps P (restart_each b units)"
  by (induction b units rule: restart_each.induct) (simp_all only: restart_each.simps, (intro flow_keeps | assumption)+)

lemma keepsD: "keeps P m \<Longrightarrow> m f = (a, g) \<Longrightarrow> P f \<Longrightarrow> P g"
  by (metis keeps_def snd_conv)

section \<open>Undoing\<close>

text \<open>What the recording of a rollback keeps, undoing a rebuild and recording its failure keep.\<close>

locale undoing =
  fixes b :: rebuild_env and r :: prepared and P :: "flow \<Rightarrow> bool"
  assumes rollback: "\<And>status evidence. ''phase'' \<notin> fst ` set evidence \<Longrightarrow> ''status'' \<notin> fst ` set evidence \<Longrightarrow>
      keeps P (mark b r ''rollback'' status evidence)"
    and monitor_rollback: "\<And>text. keeps P (mark b r ''host_monitor_rollback'' ''succeeded'' [(''reader'', text)])"
    and failure: "keeps P (fail b r ''deployment'' None)"
    and monitor: "\<And>x. keeps P (change (\<lambda>f. f\<lparr>fl_monitor := x\<rparr>))"
    and released: "\<And>f. P f \<Longrightarrow> fl_release f = Some r"
begin

lemma keeps_restore: "keeps P (restore_previous_units b r)"
  unfolding restore_previous_units_def by (intro flow_keeps rollback) auto

lemma keeps_rollback: "keeps P (rollback_monitor_and_reader b r)"
  unfolding rollback_monitor_and_reader_def by (intro flow_keeps keeps_restore monitor_rollback)

lemma keeps_finalize: "keeps P (finalize_monitor b)"
  unfolding finalize_monitor_def by (intro flow_keeps monitor)

lemma keeps_released: "keeps P (n (Some r)) \<Longrightarrow> keeps P (then_do (asking fl_release) n)"
  using released by (auto simp: keeps_def then_do_def asking_def)

lemma keeps_undo: "keeps P (undo_monitor b)"
  unfolding undo_monitor_def by (rule keeps_released) (simp, intro flow_keeps keeps_rollback)

lemma keeps_record: "keeps P (record_failure b Q)"
  unfolding record_failure_def by (rule keeps_released) (simp, intro flow_keeps failure)

lemma keeps_handling: "keeps P (handle_error b err)"
proof -
  have "keeps P (undo_unexpected b)" unfolding undo_unexpected_def by (intro flow_keeps keeps_undo)
  moreover have "keeps P (case err of ExitWith _ \<Rightarrow> ret () | _ \<Rightarrow> record_failure b (\<lambda>_. True))"
    by (cases err) (simp_all add: keeps_ret keeps_record)
  ultimately show ?thesis unfolding handle_error_def by (intro flow_keeps keeps_undo keeps_record) simp_all
qed

end

text \<open>What recording anything keeps, every operation before completion keeps.\<close>

locale recording = undoing +
  assumes mark: "\<And>phase status evidence. keeps P (mark b r phase status evidence)"
    and fail: "\<And>phase migrations. keeps P (fail b r phase migrations)"
    and restarted: "\<And>x. keeps P (change (\<lambda>f. f\<lparr>fl_restarted := fl_restarted f \<or> x\<rparr>))"
begin

lemma keeps_phase: "keeps P (timed_phase b r name)"
  unfolding timed_phase_def by (intro flow_keeps mark)

lemma keeps_steps: "keeps P (run_release_steps b r names)"
  by (induction names) (simp_all only: run_release_steps.simps, (intro flow_keeps keeps_phase keeps_restore fail | assumption)+)

lemma keeps_restart: "keeps P (restart_services b p r)"
  unfolding restart_services_def by (intro flow_keeps mark)

lemma keeps_verify: "keeps P (verify_and_seed b p r errors)"
  unfolding verify_and_seed_def Let_def by (intro flow_keeps keeps_phase mark)

lemma keeps_migrate: "keeps P (migrate_store b r)"
proof (cases "rb_store_migration b")
  case (Inl err)
  then show ?thesis by (cases err) (simp_all add: migrate_store_def, (intro flow_keeps mark fail keeps_restore)+)
next
  case (Inr x)
  then show ?thesis by (cases x) (simp add: migrate_store_def mark)
qed

lemma keeps_monitor: "keeps P (install_monitor b r)"
  unfolding install_monitor_def by (intro flow_keeps mark fail keeps_restore monitor)

lemma keeps_stop: "keeps P (stop_with_errors b p r)"
  unfolding stop_with_errors_def by (intro flow_keeps keeps_restore keeps_rollback fail monitor)

lemma keeps_build: "keeps P (build_and_restart b p r)"
  unfolding build_and_restart_def
  by (intro flow_keeps mark keeps_steps keeps_migrate keeps_monitor restarted keeps_restart keeps_verify keeps_stop keeps_finalize)

end

text \<open>The files and the release of a rebuild are such; recordings only write its receipt.\<close>

definition at_release :: "fs \<Rightarrow> prepared \<Rightarrow> flow \<Rightarrow> bool" where
  "at_release fs r f \<longleftrightarrow> ms_fs (fl_state f) = fs \<and> fl_release f = Some r"

lemma on_release_keeps:
  assumes "\<And>s. ms_fs (snd (m s)) = ms_fs s"
  shows "keeps (at_release fs r) (on_release m)"
proof -
  have "at_release fs r (snd (on_release m f))" if "at_release fs r f" for f
    using that assms [of "fl_state f"] by (cases "m (fl_state f)"; cases "fst (m (fl_state f))") (simp_all add: on_release_def at_release_def)
  then show ?thesis by (simp add: keeps_def)
qed

lemma files_mark: "keeps (at_release fs r) (mark b r phase status evidence)"
  unfolding mark_def mark_phase_def by (rule on_release_keeps) simp

lemma files_fail: "keeps (at_release fs r) (fail b r phase migrations)"
  unfolding fail_def fail_release_def by (rule on_release_keeps) simp

interpretation files: recording b r "at_release fs r" for b r fs
proof
  show "fl_release f = Some r" if "at_release fs r f" for f using that by (simp add: at_release_def)
qed (rule files_mark files_fail | simp add: at_release_def keeps_def change_def)+

section \<open>What has been recorded\<close>

text \<open>Phases known to have succeeded, none of the required ones having failed.\<close>

definition proven :: "bool \<Rightarrow> string set \<Rightarrow> dict \<Rightarrow> json list \<Rightarrow> bool" where
  "proven manual known v es \<longleftrightarrow>
     (manual \<longrightarrow> manual_scope es) \<and> (\<forall>p\<in>known - {''migrations''}. phase_succeeded es p) \<and>
     (''migrations'' \<in> known \<longrightarrow> list_ex (has_str v ''migrations'') [''succeeded'', ''not_applicable'']) \<and>
     \<not> list_ex (phase_failed es) REQUIRED_PHASES"

definition at_phase :: "rebuild_env \<Rightarrow> fs \<Rightarrow> prepared \<Rightarrow> bool \<Rightarrow> string set \<Rightarrow> flow \<Rightarrow> bool" where
  "at_phase b fs r manual known f \<longleftrightarrow>
     at_release fs r f \<and> (\<exists>v es. recorded (rb_release b) r (fl_state f) v es \<and> proven manual known v es)"

lemma manual_scope_append [simp]: "manual_scope (es @ es') \<longleftrightarrow> manual_scope es \<or> manual_scope es'"
  by (simp add: manual_scope_def)

lemma phase_failed_append [simp]: "phase_failed (es @ es') p \<longleftrightarrow> phase_failed es p \<or> phase_failed es' p"
  by (simp add: phase_failed_def)

lemma list_ex_obj: "list_ex (\<lambda>ev. case ev of JObj d \<Rightarrow> P d | _ \<Rightarrow> False) es \<longleftrightarrow> (\<exists>d. JObj d \<in> set es \<and> P d)"
proof
  assume "list_ex (\<lambda>ev. case ev of JObj d \<Rightarrow> P d | _ \<Rightarrow> False) es"
  then obtain x where "x \<in> set es" "case x of JObj d \<Rightarrow> P d | _ \<Rightarrow> False" by (auto simp: list_ex_iff)
  then show "\<exists>d. JObj d \<in> set es \<and> P d" by (cases x rule: json.exhaust) auto
qed (auto simp: list_ex_iff intro!: bexI)

lemma phase_succeeded_append: "phase_succeeded es p \<Longrightarrow> phase_succeeded (es @ es') p"
  unfolding phase_succeeded_def list_ex_obj by auto

lemma map_of_event: "k \<notin> fst ` set evidence \<Longrightarrow> map_of (phase_event phase status at evidence) k = map_of [(''phase'', JStr phase), (''status'', JStr status), (''at'', JNum at)] k"
proof -
  have "map_of (jmerge d ev) k = map_of d k" if "k \<notin> fst ` set ev" for d :: dict and ev
    using that by (induction ev arbitrary: d) (auto simp: jmerge_def)
  then show "k \<notin> fst ` set evidence \<Longrightarrow> ?thesis" by (auto simp: phase_event_def jmerge_def)
qed

lemma event_failed:
  assumes "''phase'' \<notin> fst ` set evidence" "''status'' \<notin> fst ` set evidence"
  shows "phase_failed [JObj (phase_event phase status at evidence)] p \<longleftrightarrow> p = phase \<and> status = ''failed''"
    "phase_succeeded (es @ [JObj (phase_event phase ''succeeded'' at evidence)]) phase"
    "manual_scope es \<Longrightarrow> phase_succeeded (es @ [JObj (phase_event ''seeds'' ''not_applicable'' at evidence)]) ''seeds''"
  using map_of_event [OF assms(1)] map_of_event [OF assms(2)] by (auto simp: phase_failed_def phase_succeeded_def has_str_def)

lemma on_release_result:
  assumes "on_release m f = (a, g)"
  shows "\<exists>a' s. m (fl_state f) = (a', s) \<and> g = f\<lparr>fl_state := s\<rparr> \<and> (\<forall>x. a = Inr x \<longleftrightarrow> a' = Inr x)"
  using assms by (auto simp: on_release_def split: prod.split_asm sum.split_asm)

text \<open>A recorded phase adds to what is known, unless it records the failure of a required one.\<close>

lemma mark_at_phase:
  assumes "at_phase b fs r manual known f" "mark b r phase status evidence f = (a, g)"
    and e: "''phase'' \<notin> fst ` set evidence" "''status'' \<notin> fst ` set evidence"
    and "phase = ''migrations'' \<Longrightarrow> status \<in> {''succeeded'', ''not_applicable''}" and "phase \<in> set REQUIRED_PHASES \<Longrightarrow> status \<noteq> ''failed''"
  shows "at_phase b fs r manual known g"
    and "a = Inr () \<Longrightarrow> status = ''succeeded'' \<or> phase = ''migrations'' \<or> manual \<and> phase = ''seeds'' \<and> status = ''not_applicable'' \<Longrightarrow>
      at_phase b fs r manual (insert phase known) g"
    and "a = Inr () \<Longrightarrow> phase = ''deployment_scope'' \<Longrightarrow> map_of evidence ''scope'' = Some (JStr ''manual'') \<Longrightarrow> distinct (map fst evidence) \<Longrightarrow>
      at_phase b fs r True known g"
proof -
  let ?ev = "JObj (phase_event phase status (rb_at b phase) evidence)"
  obtain v es where v: "recorded (rb_release b) r (fl_state f) v es" "proven manual known v es" "at_release fs r f"
    using assms(1) by (auto simp: at_phase_def)
  have g: "at_release fs r g" using files_mark [of fs r b phase status evidence] assms(2) v(3) by (auto simp: keeps_def)
  obtain a' s where s: "mark_phase (rb_release b) r phase status (rb_at b phase) evidence (fl_state f) = (a', s)"
    "g = f\<lparr>fl_state := s\<rparr>" "\<forall>x. a = Inr x \<longleftrightarrow> a' = Inr x"
    using on_release_result [OF assms(2) [unfolded mark_def]] by blast
  from mark_phase_recorded [OF s(1)] consider (same) err where "a' = Inl err" "s = fl_state f"
    | (added) v' where "a' = Inr ()" "recorded (rb_release b) r s v' (es @ [?ev])"
        "map_of v' ''migrations'' = (if phase = ''migrations'' then Some (JStr status) else map_of v ''migrations'')"
    using v(1) by (auto simp: recorded_def)
  then have "at_phase b fs r manual known g \<and>
    (a = Inr () \<longrightarrow> status = ''succeeded'' \<or> phase = ''migrations'' \<or> manual \<and> phase = ''seeds'' \<and> status = ''not_applicable'' \<longrightarrow>
      at_phase b fs r manual (insert phase known) g) \<and>
    (a = Inr () \<longrightarrow> phase = ''deployment_scope'' \<longrightarrow> map_of evidence ''scope'' = Some (JStr ''manual'') \<longrightarrow> distinct (map fst evidence) \<longrightarrow>
      at_phase b fs r True known g)"
  proof cases
    case same
    then have "a \<noteq> Inr ()" using s(3) by auto
    then show ?thesis using same assms(1) s(2) by simp
  next
    case added
    have at: "at_phase b fs r m D g" if "proven m D v' (es @ [?ev])" for m D
      using that added(2) g s(2) by (auto simp: at_phase_def)
    have base: "proven manual known v' (es @ [?ev])"
      using v(2) added(3) assms(5,6) event_failed(1) [OF e] by (auto simp: proven_def has_str_def list_ex_iff intro: phase_succeeded_append)
    have m1: "proven manual (insert phase known) v' (es @ [?ev])"
      if "status = ''succeeded'' \<or> phase = ''migrations'' \<or> manual \<and> phase = ''seeds'' \<and> status = ''not_applicable''"
    proof -
      have "phase_succeeded (es @ [?ev]) phase" if ph: "phase \<noteq> ''migrations''"
      proof (cases "status = ''succeeded''")
        case True
        then show ?thesis using event_failed(2) [OF e] by simp
      next
        case False
        then have "phase = ''seeds''" "status = ''not_applicable''" "manual_scope es"
          using \<open>status = ''succeeded'' \<or> phase = ''migrations'' \<or> manual \<and> phase = ''seeds'' \<and> status = ''not_applicable''\<close> ph v(2)
          by (simp_all add: proven_def)
        then show ?thesis using event_failed(3) [OF e] by simp
      qed
      moreover have "list_ex (has_str v' ''migrations'') [''succeeded'', ''not_applicable'']" if "phase = ''migrations''"
        using that assms(5) added(3) by (auto simp: has_str_def)
      ultimately show ?thesis using base unfolding proven_def by blast
    qed
    have m2: "proven True known v' (es @ [?ev])"
      if "phase = ''deployment_scope''" "map_of evidence ''scope'' = Some (JStr ''manual'')" "distinct (map fst evidence)"
    proof -
      have "map_of (phase_event phase status (rb_at b phase) evidence) ''scope'' = Some (JStr ''manual'')"
        using that(2,3) by (simp add: phase_event_def map_of_jmerge)
      then have "manual_scope [?ev]" using map_of_event [OF e(1)] that(1) by (simp add: manual_scope_def has_str_def)
      then show ?thesis using base by (simp add: proven_def)
    qed
    show ?thesis by (intro conjI impI at base m1 m2)
  qed
  then show "at_phase b fs r manual known g"
    and "a = Inr () \<Longrightarrow> status = ''succeeded'' \<or> phase = ''migrations'' \<or> manual \<and> phase = ''seeds'' \<and> status = ''not_applicable'' \<Longrightarrow>
      at_phase b fs r manual (insert phase known) g"
    and "a = Inr () \<Longrightarrow> phase = ''deployment_scope'' \<Longrightarrow> map_of evidence ''scope'' = Some (JStr ''manual'') \<Longrightarrow> distinct (map fst evidence) \<Longrightarrow>
      at_phase b fs r True known g"
    by blast+
qed

lemma keeps_other_mark:
  assumes "''phase'' \<notin> fst ` set evidence" "''status'' \<notin> fst ` set evidence" "phase \<noteq> ''migrations''" "phase \<notin> set REQUIRED_PHASES"
  shows "keeps (at_phase b fs r manual known) (mark b r phase status evidence)"
  unfolding keeps_def using mark_at_phase(1) [OF _ prod.collapse [symmetric] assms(1,2)] assms(3,4) by blast

lemma fail_at_phase:
  assumes "at_phase b fs r manual known f" "fail b r phase None f = (a, g)" "phase \<notin> set REQUIRED_PHASES"
  shows "at_phase b fs r manual known g"
proof -
  obtain v es where v: "recorded (rb_release b) r (fl_state f) v es" "proven manual known v es" "at_release fs r f"
    using assms(1) by (auto simp: at_phase_def)
  have g: "at_release fs r g" using files_fail [of fs r b phase None] assms(2) v(3) by (auto simp: keeps_def)
  let ?fe = "JObj (phase_event phase ''failed'' (rb_at b phase) [])"
  let ?new = "\<lambda>es. if last_is es phase ''failed'' then es else es @ [?fe]"
  let ?g = "\<lambda>v. jmerge v [(''state'', JStr ''failed''), (''failed_phase'', JStr phase), (''completed_at'', JNum (rb_at b phase))]"
  obtain a' s where s: "update_receipt (rb_release b) r ?new ?g (fl_state f) = (a', s)" "g = f\<lparr>fl_state := s\<rparr>"
    using on_release_result [OF assms(2) [unfolded fail_def fail_release_def]] by auto
  have keeps_fields: "map_of (?g v) k = map_of v k" if "k \<in> {''build_id'', ''events'', ''migrations''}" for v k
    using that by (auto simp: jmerge_def)
  from update_receipt_recorded [OF s(1) keeps_fields keeps_fields] consider "s = fl_state f"
    | "recorded (rb_release b) r s (sealed (rb_release b) (?g (jput ''events'' (JList (?new es)) v))) (?new es)"
    using v(1) by (auto simp: recorded_def)
  then show ?thesis
  proof cases
    case 1
    then show ?thesis using assms(1) s(2) by simp
  next
    case 2
    have "map_of (sealed (rb_release b) (?g (jput ''events'' (JList (?new es)) v))) ''migrations'' = map_of v ''migrations''"
      by (simp add: keeps_fields)
    then have "proven manual known (sealed (rb_release b) (?g (jput ''events'' (JList (?new es)) v))) (?new es)"
      using v(2) event_failed(1) [of "[]" phase "''failed''" "rb_at b phase"] assms(3)
      by (auto simp: proven_def has_str_def list_ex_iff intro: phase_succeeded_append)
    then show ?thesis using 2 g s(2) by (auto simp: at_phase_def)
  qed
qed

interpretation phases: undoing b r "at_phase b fs r manual known" for b r fs manual known
proof
  have ph: "''rollback'' \<notin> set REQUIRED_PHASES" "''host_monitor_rollback'' \<notin> set REQUIRED_PHASES" "''deployment'' \<notin> set REQUIRED_PHASES"
    by (simp_all add: REQUIRED_PHASES_def)
  show "keeps (at_phase b fs r manual known) (mark b r ''rollback'' status evidence)"
    if "''phase'' \<notin> fst ` set evidence" "''status'' \<notin> fst ` set evidence" for status evidence
    using that ph(1) by (intro keeps_other_mark) simp_all
  show "keeps (at_phase b fs r manual known) (mark b r ''host_monitor_rollback'' ''succeeded'' [(''reader'', text)])" for "text"
    using ph(2) by (intro keeps_other_mark) simp_all
  show "keeps (at_phase b fs r manual known) (fail b r ''deployment'' None)"
    unfolding keeps_def using fail_at_phase [OF _ prod.collapse [symmetric] ph(3)] by blast
  show "keeps (at_phase b fs r manual known) (change (\<lambda>f. f\<lparr>fl_monitor := x\<rparr>))" for x
    by (simp add: keeps_def change_def at_phase_def at_release_def)
  show "fl_release f = Some r" if "at_phase b fs r manual known f" for f
    using that by (simp add: at_phase_def at_release_def)
qed

section \<open>Reaching the end\<close>

lemma ret_Inr [simp]: "ret x f = (Inr y, g) \<longleftrightarrow> y = x \<and> g = f"
  by (auto simp: ret_def)

lemma fails_with_Inr [simp]: "fails_with err f \<noteq> (Inr y, g)"
  by (simp add: fails_with_def)

lemma asking_Inr [simp]: "asking h f = (Inr y, g) \<longleftrightarrow> y = h f \<and> g = f"
  by (auto simp: asking_def)

lemma run_Inr: "run a f = (Inr n, g) \<Longrightarrow> g = f"
  by (simp add: run_def)

lemma at_phase_mono: "at_phase b fs r manual known f \<Longrightarrow> known' \<subseteq> known \<Longrightarrow> at_phase b fs r manual known' f"
  by (auto simp: at_phase_def proven_def)

lemma timed_phase_ok:
  assumes "at_phase b fs r manual known f" "timed_phase b r name f = (Inr 0, g)"
  shows "at_phase b fs r manual (insert name known) g"
proof -
  obtain f1 u where "run (rb_step b name) f = (Inr 0, f1)"
    and m: "mark b r name ''succeeded'' [(''duration_seconds'', JNum (rb_took b name))] f1 = (Inr u, g)"
    using assms(2) by (auto simp: timed_phase_def then_do_Inr)
  then have "f1 = f" by (simp add: run_Inr)
  then show ?thesis using mark_at_phase(2) [OF assms(1) m [unfolded \<open>f1 = f\<close>]] by simp
qed

lemma run_release_steps_ok:
  assumes "at_phase b fs r manual known f" "run_release_steps b r names f = (Inr u, g)"
  shows "at_phase b fs r manual (set names \<union> known) g"
  using assms
proof (induction names arbitrary: f known)
  case (Cons name names)
  obtain n f1 where t: "timed_phase b r name f = (Inr n, f1)" and rest: "n = 0" "run_release_steps b r names f1 = (Inr u, g)"
    using Cons.prems(2) by (auto simp: then_do_Inr split: if_split_asm)
  from Cons.IH [OF timed_phase_ok [OF Cons.prems(1) t [unfolded rest(1)]] rest(2)] show ?case by simp
qed simp

lemma then_do_ret [simp]: "then_do (ret x) h f = h x f"
  by (simp add: then_do_def ret_def)

lemma restart_ok:
  assumes "at_phase b fs r manual known f" "restart_services b p r f = (Inr 0, g)"
  shows "at_phase b fs r manual (insert ''restart'' known) g"
proof -
  obtain monitor f0 errors f1 u f2 where 0: "asking fl_monitor f = (Inr monitor, f0)"
    and 1: "restart_each b (restart_units p monitor) f0 = (Inr errors, f1)"
    and 2: "mark b r ''restart'' (if errors = 0 then ''succeeded'' else ''failed'')
      [(''duration_seconds'', JNum (rb_took b ''restart'')), (''services'', JList (map (JStr \<circ> fst) (restart_units p monitor)))] f1 = (Inr u, f2)"
    and 3: "ret errors f2 = (Inr 0, g)"
    using assms(2) unfolding restart_services_def then_do_Inr by blast
  have z: "errors = 0" "f2 = g" "f0 = f" using 0 3 by simp_all
  have "at_phase b fs r manual known f1"
    by (rule keepsD [OF keeps_restart_each [of "at_phase b fs r manual known"] 1]) (simp add: z assms(1))
  from mark_at_phase(2) [OF this 2] show ?thesis by (simp add: z)
qed

lemma verify_zero: "verify_and_seed b p r errors f = (Inr 0, g) \<Longrightarrow> errors = 0"
  by (auto simp: verify_and_seed_def Let_def then_do_Inr split: if_split_asm)

lemma verify_ok:
  assumes "at_phase b fs r manual known f" "verify_and_seed b p r errors f = (Inr 0, g)" "rp_backend p \<or> rp_frontend p \<or> manual"
  shows "at_phase b fs r manual ({''health'', ''seeds''} \<union> known) g"
proof (cases "rp_backend p \<or> rp_frontend p")
  case True
  obtain n f1 where t: "timed_phase b r ''health'' f = (Inr n, f1)"
    and e: "errors = 0" "n = 0" and s: "timed_phase b r ''seeds'' f1 = (Inr 0, g)"
    using assms(2) True by (auto simp: verify_and_seed_def Let_def then_do_Inr split: if_split_asm)
  show ?thesis using timed_phase_ok [OF timed_phase_ok [OF assms(1) t [unfolded e(2)]] s] by (simp add: insert_commute)
next
  case False
  define inactive where "inactive = length (filter (\<lambda>w. \<not> rb_active b w) (rp_workers p))"
  have "then_do (mark b r ''health'' (if inactive \<noteq> 0 then ''failed'' else ''succeeded'') [(''reason'', JStr ''manual_worker_scope'')]) (\<lambda>_.
      then_do (mark b r ''seeds'' ''not_applicable'' [(''reason'', JStr ''manual_worker_scope'')]) (\<lambda>_. ret (errors + 0 + inactive))) f = (Inr 0, g)"
    using assms(2) False unfolding verify_and_seed_def inactive_def by (simp only: Let_def if_False if_True not_False_eq_True then_do_ret)
  then obtain u f1 u' f2 where h0: "mark b r ''health'' (if inactive \<noteq> 0 then ''failed'' else ''succeeded'') [(''reason'', JStr ''manual_worker_scope'')] f = (Inr u, f1)"
    and s0: "mark b r ''seeds'' ''not_applicable'' [(''reason'', JStr ''manual_worker_scope'')] f1 = (Inr u', f2)"
    and "ret (errors + 0 + inactive) f2 = (Inr 0, g)"
    unfolding then_do_Inr by blast
  then have z: "inactive = 0" "f2 = g" by simp_all
  have h: "mark b r ''health'' ''succeeded'' [(''reason'', JStr ''manual_worker_scope'')] f = (Inr u, f1)" using h0 by (simp add: z)
  have s: "mark b r ''seeds'' ''not_applicable'' [(''reason'', JStr ''manual_worker_scope'')] f1 = (Inr u', g)" using s0 by (simp add: z)
  have "at_phase b fs r manual (insert ''health'' known) f1" using mark_at_phase(2) [OF assms(1) h] by simp
  from mark_at_phase(2) [OF this s] show ?thesis using assms(3) False by (simp add: insert_commute)
qed

lemma stop_never_returns: "stop_with_errors b p r f \<noteq> (Inr u, g)"
  by (auto simp: stop_with_errors_def then_do_Inr)

lemma migrate_ok:
  assumes "at_phase b fs r manual known f" "migrate_store b r f = (Inr u, g)"
  shows "at_phase b fs r manual known g"
proof (cases "rb_store_migration b")
  case (Inl err)
  then show ?thesis using assms(2) by (cases err) (auto simp: migrate_store_def then_do_Inr)
next
  case (Inr x)
  obtain status receipt where x: "x = (status, receipt)" by (rule prod.exhaust)
  have k: "keeps (at_phase b fs r manual known) (mark b r ''host_monitor_store_migration'' status [(''receipt'', receipt)])"
    by (rule keeps_other_mark) (simp_all add: REQUIRED_PHASES_def)
  have "mark b r ''host_monitor_store_migration'' status [(''receipt'', receipt)] f = (Inr u, g)"
    using assms(2) by (simp add: migrate_store_def Inr x)
  then show ?thesis using keepsD [OF k] assms(1) by blast
qed

lemma install_ok:
  assumes "at_phase b fs r manual known f" "install_monitor b r f = (Inr u, g)"
  shows "at_phase b fs r manual known g"
proof -
  define m where "m = then_do (change (\<lambda>f. f\<lparr>fl_monitor := True\<rparr>)) (\<lambda>_.
      then_do (mark b r ''host_monitor_install'' ''succeeded'' []) (\<lambda>_. require_code (rb_monitor b ''verify'') ServiceFailed))"
  have k: "keeps (at_phase b fs r manual known) m"
    unfolding m_def by (intro flow_keeps phases.monitor keeps_other_mark) (simp_all add: REQUIRED_PHASES_def)
  obtain n f1 where "run (rb_monitor b ''install'') f = (Inr n, f1)"
    and rest: "(if n \<noteq> 0 then then_do (restore_previous_units b r) (\<lambda>_. then_do (fail b r ''host_monitor_install'' None) (\<lambda>_. fails_with (ExitWith 1)))
       else m) f1 = (Inr u, g)"
    using assms(2) unfolding install_monitor_def m_def [symmetric] then_do_Inr [of "run (rb_monitor b ''install'')"] by blast
  then have f1: "f1 = f" by (simp add: run_Inr)
  have "m f1 = (Inr u, g)" using rest by (auto simp: then_do_Inr split: if_split_asm)
  then show ?thesis using keepsD [OF k] assms(1) f1 by blast
qed

lemma scope_ok:
  assumes "at_phase b fs r False known f"
    and "mark b r ''deployment_scope'' ''selected''
      [(''release_scope'', JStr ''full''), (''scope'', JStr (scope_label p)), (''workers'', ws)] f = (Inr u, g)"
  shows "at_phase b fs r (rp_manual p \<noteq> []) known g"
proof (cases "rp_manual p = []")
  case True
  then show ?thesis using mark_at_phase(1) [OF assms] by (simp add: REQUIRED_PHASES_def)
next
  case False
  then show ?thesis using mark_at_phase(3) [OF assms] by (simp add: scope_label_def)
qed

abbreviation evidence_needed :: "string set" where
  "evidence_needed \<equiv> insert ''migrations'' (set REQUIRED_PHASES - {''completed''})"

lemma evidence_collected:
  "evidence_needed \<subseteq>
     {''health'', ''seeds''} \<union> insert ''restart'' {''backend_dependencies'', ''frontend_build'', ''systemd_units'', ''migrations''}"
  by code_simp

lemma components: "rp_backend p \<or> rp_frontend p \<or> rp_manual p \<noteq> []"
  by (cases "rp_scope p") (auto simp: rp_backend_def rp_frontend_def)

lemma at_phase_restarted: "at_phase b fs r manual known (f\<lparr>fl_restarted := x\<rparr>) = at_phase b fs r manual known f"
  by (simp add: at_phase_def at_release_def)

lemma build_ok:
  assumes "at_phase b fs r False {} f" "build_and_restart b p r f = (Inr u, g)"
  shows "at_phase b fs r (rp_manual p \<noteq> []) evidence_needed g"
proof -
  let ?m = "rp_manual p \<noteq> []"
  let ?D = "(if rp_backend p then {} else {''migrations''}) :: string set"
  obtain n0 f0 u1 f1 u2 f2 u3 f3 u4 f4 u5 f5 u6 f6 errors f7 errors' f8 u9 f9 where
    0: "(if rp_manual p = [] then run (rb_changed b) else ret 0) f = (Inr n0, f0)"
    and 1: "mark b r ''deployment_scope'' ''selected'' [(''release_scope'', JStr ''full''), (''scope'', JStr (scope_label p)),
       (''workers'', JList (map JStr (rp_workers p)))] f0 = (Inr u1, f1)"
    and 2: "(if rp_backend p then ret () else mark b r ''migrations'' ''not_applicable''
       [(''reason'', JStr (if rp_manual p \<noteq> [] then ''manual_worker_scope'' else ''frontend_restart_scope''))]) f1 = (Inr u2, f2)"
    and 3: "run_release_steps b r (release_steps p) f2 = (Inr u3, f3)"
    and 4: "(if rp_migrate_store p then migrate_store b r else ret ()) f3 = (Inr u4, f4)"
    and 5: "(if rp_backend p \<and> rp_has_monitor p then install_monitor b r else ret ()) f4 = (Inr u5, f5)"
    and 6: "change (\<lambda>f. f\<lparr>fl_restarted := fl_restarted f \<or> rp_backend p \<and> rp_backend_service p \<noteq> []\<rparr>) f5 = (Inr u6, f6)"
    and 7: "restart_services b p r f6 = (Inr errors, f7)"
    and 8: "verify_and_seed b p r errors f7 = (Inr errors', f8)"
    and 9: "(if errors' \<noteq> 0 then stop_with_errors b p r else ret ()) f8 = (Inr u9, f9)"
    and 10: "finalize_monitor b f9 = (Inr u, g)"
    using assms(2) unfolding build_and_restart_def then_do_Inr by blast
  have "f0 = f" using 0 by (auto split: if_split_asm dest: run_Inr)
  then have "at_phase b fs r ?m {} f1" using scope_ok [OF assms(1)] 1 by blast
  then have "at_phase b fs r ?m ?D f2"
    using 2 mark_at_phase(2) [of b fs r ?m "{}" f1 "''migrations''" "''not_applicable''"] by (auto simp: REQUIRED_PHASES_def split: if_split_asm)
  from run_release_steps_ok [OF this 3]
  have s: "at_phase b fs r ?m {''backend_dependencies'', ''frontend_build'', ''systemd_units'', ''migrations''} f3"
    by (rule at_phase_mono) (auto simp: release_steps_def)
  have "at_phase b fs r ?m {''backend_dependencies'', ''frontend_build'', ''systemd_units'', ''migrations''} f4"
    using 4 s migrate_ok [OF s] by (auto split: if_split_asm)
  then have s5: "at_phase b fs r ?m {''backend_dependencies'', ''frontend_build'', ''systemd_units'', ''migrations''} f5"
    using 5 install_ok by (auto split: if_split_asm)
  have f6: "f6 = f5\<lparr>fl_restarted := fl_restarted f5 \<or> rp_backend p \<and> rp_backend_service p \<noteq> []\<rparr>" using 6 by (simp add: change_def)
  have s6: "at_phase b fs r ?m {''backend_dependencies'', ''frontend_build'', ''systemd_units'', ''migrations''} f6"
    unfolding f6 at_phase_restarted by (rule s5)
  have e': "errors' = 0" and f9: "f9 = f8" using 9 stop_never_returns by (auto split: if_split_asm)
  have e: "errors = 0" using verify_zero 8 e' by blast
  have "at_phase b fs r ?m ({''health'', ''seeds''} \<union>
      insert ''restart'' {''backend_dependencies'', ''frontend_build'', ''systemd_units'', ''migrations''}) f8"
    using verify_ok [OF restart_ok [OF s6 7 [unfolded e]] 8 [unfolded e']] components [of p] by blast
  then have "at_phase b fs r ?m evidence_needed f8" by (rule at_phase_mono) (rule evidence_collected)
  then show ?thesis using keepsD [OF phases.keeps_finalize] 10 f9 by blast
qed

section \<open>Preparing and going live\<close>

lemma catching_result:
  assumes "catching m Q (\<lambda>_. fails_with err) f = (a, g)"
  shows "\<exists>a'. m f = (a', g) \<and> (\<forall>x. a = Inr x \<longleftrightarrow> a' = Inr x)"
  using assms by (auto simp: catching_def fails_with_def split: prod.split_asm sum.split_asm if_split_asm)

lemma prepare_release_facts:
  assumes "project_state project state_root = Inr ps" "is_uuid_hex build" "releases_ok ps (ms_fs s)"
    and "prepare_release e project repo state_root candidate validated rollback build at s = (a, s')"
  shows "map_of (ms_fs s') (ps @ [''current'']) = map_of (ms_fs s) (ps @ [''current''])"
    and "a = Inr r \<Longrightarrow> releases_ok ps (ms_fs s') \<and> usable ps (ms_fs s') build \<and> pr_root r = release_dir ps build \<and> pr_build r = build \<and>
      pr_project r = project \<and> (\<exists>v. recorded e r s' v [JObj (phase_event ''prepared'' ''succeeded'' at [])]) \<and>
      require_forward_deploy e ps (pr_commit r) rollback s = Inr ()"
proof -
  let ?chk = "and_then validated (\<lambda>descriptor. and_then (from_descriptor descriptor True) (\<lambda>_. and_then (project_state project state_root) (\<lambda>ps.
      and_then (require_forward_deploy e ps (json_str (get descriptor ''source_commit'')) rollback s) (\<lambda>_. return descriptor))))"
  have "map_of (ms_fs s') (ps @ [''current'']) = map_of (ms_fs s) (ps @ [''current'']) \<and>
    (a = Inr r \<longrightarrow> releases_ok ps (ms_fs s') \<and> usable ps (ms_fs s') build \<and> pr_root r = release_dir ps build \<and> pr_build r = build \<and>
      pr_project r = project \<and> (\<exists>v. recorded e r s' v [JObj (phase_event ''prepared'' ''succeeded'' at [])]) \<and>
      require_forward_deploy e ps (pr_commit r) rollback s = Inr ())"
  proof (cases ?chk)
    case (Inl err)
    then show ?thesis using assms(4) by (auto simp: prepare_release_def)
  next
    case (Inr d)
    define d' where "d' = (case candidate of
        Inr c \<Rightarrow> jmerge d [(''reused'', JBool (truth (get c ''reused''))), (''reuse_lookup_ms'', get c ''reuse_lookup_ms'')]
      | Inl file \<Rightarrow> if truth (get d ''acceptance_artifact'') then d else jput ''acceptance_artifact'' (JStr file) d)"
    have m: "materialize_release e project repo state_root d' build at s = (a, s')"
      using assms(4) Inr by (simp add: prepare_release_def d'_def Let_def)
    have forward: "require_forward_deploy e ps (json_str (get d ''source_commit'')) rollback s = Inr ()" using Inr assms(1) by auto
    have "map_of d' ''source_commit'' = map_of d ''source_commit''" by (auto simp: d'_def jmerge_def split: sum.split)
    then have commit: "pr_commit r = json_str (get d ''source_commit'')" if "a = Inr r"
      using materialize_recorded [OF m [unfolded that]] by (auto simp: get_def get_or_def)
    have ok: "releases_ok ps (ms_fs s')" using materialize_safe(1) [OF assms(1-3) m] assms(3) by (simp add: safe_step_def)
    show ?thesis
    proof (intro conjI impI)
      show "map_of (ms_fs s') (ps @ [''current'']) = map_of (ms_fs s) (ps @ [''current''])" by (rule materialize_safe(3) [OF assms(1-3) m])
      assume a: "a = Inr r"
      note safe = materialize_safe(2) [OF assms(1-3) m a]
      show "releases_ok ps (ms_fs s')" by (rule ok)
      show "usable ps (ms_fs s') build" "pr_root r = release_dir ps build" "pr_build r = build" "pr_project r = project" using safe by simp_all
      show "\<exists>v. recorded e r s' v [JObj (phase_event ''prepared'' ''succeeded'' at [])]" using materialize_recorded [OF m [unfolded a]] by blast
      show "require_forward_deploy e ps (pr_commit r) rollback s = Inr ()" using forward commit [OF a] by simp
    qed
  qed
  then show "map_of (ms_fs s') (ps @ [''current'']) = map_of (ms_fs s) (ps @ [''current''])"
    and "a = Inr r \<Longrightarrow> releases_ok ps (ms_fs s') \<and> usable ps (ms_fs s') build \<and> pr_root r = release_dir ps build \<and> pr_build r = build \<and>
      pr_project r = project \<and> (\<exists>v. recorded e r s' v [JObj (phase_event ''prepared'' ''succeeded'' at [])]) \<and>
      require_forward_deploy e ps (pr_commit r) rollback s = Inr ()" by blast+
qed

lemma prepare_facts:
  assumes "project_state (rp_project p) (rp_state_root p) = Inr ps" "is_uuid_hex (rp_build p)" "releases_ok ps (ms_fs (fl_state f))"
    and "prepare b p f = (a, g)"
  shows "map_of (ms_fs (fl_state g)) (ps @ [''current'']) = map_of (ms_fs (fl_state f)) (ps @ [''current''])"
    and "a = Inl err \<Longrightarrow> fl_release g = fl_release f"
    and "a = Inr r \<Longrightarrow> releases_ok ps (ms_fs (fl_state g)) \<and> usable ps (ms_fs (fl_state g)) (pr_build r) \<and> pr_root r = release_dir ps (pr_build r) \<and>
      pr_project r = rp_project p \<and> at_phase b (ms_fs (fl_state g)) r False {} g \<and>
      require_forward_deploy (rb_release b) ps (pr_commit r) (rp_rollback p) (fl_state f) = Inr ()"
proof -
  let ?m = "on_release (prepare_release (rb_release b) (rp_project p) (rp_repo p) (rp_state_root p) (rp_candidate p) (rp_validated p)
           (rp_rollback p) (rp_build p) (rb_at b ''prepared''))"
  let ?c = "catching ?m (\<lambda>err. \<not> expected_error err) (\<lambda>_. fails_with ServiceFailed)"
  obtain a1 f1 where c: "?c f = (a1, f1)" by (rule prod.exhaust)
  obtain a2 where mm: "?m f = (a2, f1)" and a2: "\<forall>x. a1 = Inr x \<longleftrightarrow> a2 = Inr x" using catching_result [OF c] by blast
  obtain a3 s where s: "prepare_release (rb_release b) (rp_project p) (rp_repo p) (rp_state_root p) (rp_candidate p) (rp_validated p)
           (rp_rollback p) (rp_build p) (rb_at b ''prepared'') (fl_state f) = (a3, s)" "f1 = f\<lparr>fl_state := s\<rparr>" "\<forall>x. a2 = Inr x \<longleftrightarrow> a3 = Inr x"
    using on_release_result [OF mm] by blast
  note facts = prepare_release_facts [OF assms(1-3) s(1)]
  have g: "(a1 = Inr r \<longrightarrow> g = f1 \<and> (\<exists>err. a = Inl err) \<or> a = Inr r \<and> g = f1\<lparr>fl_release := Some r\<rparr>)" for r
    using assms(4) c by (cases "rb_at_source b") (auto simp: prepare_def then_do_def run_def change_def ret_def)
  have bad: "a1 = Inl err \<Longrightarrow> (\<exists>err. a = Inl err) \<and> g = f1" for err
    using assms(4) c by (auto simp: prepare_def then_do_def)
  have fl: "fl_state g = s \<and> ((\<exists>err. a = Inl err) \<and> fl_release g = fl_release f \<or> (\<exists>r. a1 = Inr r \<and> a = Inr r \<and> g = f1\<lparr>fl_release := Some r\<rparr>))"
  proof (cases a1)
    case (Inl err)
    then show ?thesis using bad s(2) by simp
  next
    case (Inr r)
    then show ?thesis using g [of r] s(2) by auto
  qed
  show "map_of (ms_fs (fl_state g)) (ps @ [''current'']) = map_of (ms_fs (fl_state f)) (ps @ [''current''])"
    using facts(1) fl by simp
  show "a = Inl err \<Longrightarrow> fl_release g = fl_release f" using fl by auto
  assume ar: "a = Inr r"
  then have r: "a3 = Inr r" "fl_release g = Some r" using fl a2 s(3) by auto
  have "\<not> list_ex (phase_failed [JObj (phase_event ''prepared'' ''succeeded'' x [])]) REQUIRED_PHASES" for x
    by (simp add: event_failed(1) REQUIRED_PHASES_def)
  then have "proven False {} v [JObj (phase_event ''prepared'' ''succeeded'' x [])]" for v x by (simp add: proven_def)
  then show "releases_ok ps (ms_fs (fl_state g)) \<and> usable ps (ms_fs (fl_state g)) (pr_build r) \<and> pr_root r = release_dir ps (pr_build r) \<and>
      pr_project r = rp_project p \<and> at_phase b (ms_fs (fl_state g)) r False {} g \<and>
      require_forward_deploy (rb_release b) ps (pr_commit r) (rp_rollback p) (fl_state f) = Inr ()"
    using facts(2) [OF r(1)] fl r(2) by (auto simp: at_phase_def at_release_def)
qed

text \<open>Completing either raises and changes nothing, or moves the link and records the last phase.\<close>

lemma complete_at_phase:
  assumes "releases_ok ps fs" "pr_root r = release_dir ps (pr_build r)" "usable ps fs (pr_build r)"
    and "project_state (pr_project r) (take (length (pr_root r) - 4) (pr_root r)) = Inr ps"
    and "at_phase b fs r manual known f" "on_release (complete_release (rb_release b) r refs at) f = (a, g)"
  shows "(\<exists>err. a = Inl err) \<and> g = f \<or>
    (\<exists>fs'. a = Inr () \<and> at_phase b fs' r manual (insert ''completed'' known) g \<and> releases_ok ps fs' \<and>
       map_of fs' (ps @ [''current'']) = Some (Link (path_text (pr_root r))))"
proof -
  obtain v es where v: "recorded (rb_release b) r (fl_state f) v es" "proven manual known v es" and f: "ms_fs (fl_state f) = fs" "fl_release f = Some r"
    using assms(5) by (auto simp: at_phase_def at_release_def)
  obtain a' s where s: "complete_release (rb_release b) r refs at (fl_state f) = (a', s)" "g = f\<lparr>fl_state := s\<rparr>" "\<forall>x. a = Inr x \<longleftrightarrow> a' = Inr x"
    using on_release_result [OF assms(6)] by blast
  show ?thesis
  proof (cases "completion_checks (rb_release b) r (fl_state f)")
    case (Inl err)
    then have "a' = Inl err" "s = fl_state f" using s(1) by (simp_all add: complete_release_def complete_upto_def)
    then show ?thesis using s(2,3) by (cases a) auto
  next
    case (Inr x)
    obtain ps' old v1 where x: "x = (ps', old, v1)" by (metis prod.exhaust)
    have "v1 = v" using Inr v(1) by (auto simp: x completion_checks_def recorded_def)
    then have a': "a' = Inr ()" using s(1) v(1) Inr by (simp add: x complete_release_def complete_upto_def recorded_def events_of_def)
    have "complete_release (rb_release b) r refs at (fl_state f) = (Inr (), s)" using s(1) a' by simp
    from complete_release_effect [OF assms(1) [folded f(1)] assms(2) assms(3) [folded f(1)] assms(4) this]
    obtain es1 v2 old1 where e: "releases_ok ps (ms_fs s)" "map_of (ms_fs s) (ps @ [''current'']) = Some (Link (path_text (pr_root r)))"
      "read_receipt (rb_release b) r (fl_state f) = Inr v2" "events_of v2 = Inr es1"
      "ms_receipts s = dict_set (pr_receipt r) (Some (JObj (sealed (rb_release b) (completed_receipt v2 es1 old1 at)))) (ms_receipts (fl_state f))"
      by blast
    have same: "v2 = v" "es1 = es" using e(3,4) v(1) by (auto simp: recorded_def events_of_def)
    let ?v = "sealed (rb_release b) (completed_receipt v es old1 at)" and ?es = "es @ [JObj (phase_event ''completed'' ''succeeded'' at [])]"
    have "ms_receipts s = ms_receipts (write_receipt (rb_release b) (pr_receipt r) (completed_receipt v es old1 at) (fl_state f))"
      using e(5) same by (simp add: write_receipt_def)
    then have rec: "recorded (rb_release b) r s ?v ?es"
      using completed_receipt_recorded [OF v(1)] recorded_receipts [of s r] by metis
    have "map_of ?v ''migrations'' = map_of v ''migrations''" by (simp add: completed_receipt_def jmerge_def split: option.split)
    then have "proven manual (insert ''completed'' known) ?v ?es"
      using v(2) event_failed(1) [of "[]" "''completed''" "''succeeded''" at] event_failed(2) [of "[]" es "''completed''" at]
      by (auto simp: proven_def has_str_def list_ex_iff intro: phase_succeeded_append)
    then have "at_phase b (ms_fs s) r manual (insert ''completed'' known) g" using rec f(2) s(2) by (auto simp: at_phase_def at_release_def)
    then show ?thesis using e(1,2) a' s(3) by blast
  qed
qed

lemma lifecycle_proven: "proven manual (insert ''completed'' evidence_needed) v es \<Longrightarrow> lifecycle_evidence v es = Inr ()"
  by (auto simp: proven_def lifecycle_evidence_def list_all_iff REQUIRED_PHASES_def)

lemma go_live_facts:
  assumes "releases_ok ps fs" "pr_root r = release_dir ps (pr_build r)" "usable ps fs (pr_build r)"
    and "project_state (pr_project r) (take (length (pr_root r) - 4) (pr_root r)) = Inr ps"
    and "at_phase b fs r manual evidence_needed f" "go_live b p r f = (a, g)"
  shows "(\<exists>err. a = Inl err) \<and> at_release fs r g \<or>
    (\<exists>fs'. at_phase b fs' r manual (insert ''completed'' evidence_needed) g \<and> releases_ok ps fs' \<and>
       map_of fs' (ps @ [''current'']) = Some (Link (path_text (pr_root r))))"
proof (cases "rb_references b")
  case (Inl err)
  then show ?thesis using assms(5,6) by (auto simp: go_live_def then_do_def at_phase_def)
next
  case (Inr refs)
  define rest where "rest = (\<lambda>_ :: unit. then_do (reading (publish_deployment_result (rb_release b) r (rp_repo p))) (\<lambda>_. require_code (rb_launcher b) (ExitWith 1)))"
  obtain a1 g1 where c: "on_release (complete_release (rb_release b) r refs (rb_at b ''completed'')) f = (a1, g1)" by (rule prod.exhaust)
  have go: "(case a1 of Inl e \<Rightarrow> (Inl e, g1) | Inr x \<Rightarrow> rest x g1) = (a, g)"
    using assms(6) unfolding go_live_def rest_def [symmetric] by (simp only: then_do_def Inr c prod.case sum.case)
  have k: "keeps P (rest u)" for P u unfolding rest_def by (intro flow_keeps)
  from complete_at_phase [OF assms(1-5) c] show ?thesis
  proof (elim disjE exE conjE)
    fix err assume "a1 = Inl err" "g1 = f"
    then show ?thesis using go assms(5) by (auto simp: at_phase_def)
  next
    fix fs' assume l: "a1 = Inr ()" "at_phase b fs' r manual (insert ''completed'' evidence_needed) g1" "releases_ok ps fs'"
      "map_of fs' (ps @ [''current'']) = Some (Link (path_text (pr_root r)))"
    then have "rest () g1 = (a, g)" using go by simp
    from keepsD [OF k [of "at_phase b fs' r manual (insert ''completed'' evidence_needed)" "()"], OF this l(2)] show ?thesis using l by blast
  qed
qed

lemma handle_error_Inl: "handle_error b err f = (a, g) \<Longrightarrow> \<exists>e. a = Inl e"
  by (cases a) (auto simp: handle_error_def then_do_Inr split: if_split_asm)

lemma handle_error_early: "fl_release f = None \<Longrightarrow> handle_error b err f = (a, g) \<Longrightarrow> fl_state g = fl_state f"
  by (cases err) (auto simp: handle_error_def undo_unexpected_def undo_monitor_def record_failure_def then_do_def asking_def ret_def fails_with_def
      catching_def split: if_split_asm)

section \<open>All or nothing\<close>

text \<open>After the preparation: the files are as they were, or the release is live with its evidence.\<close>

lemma after_prepare:
  assumes ok: "releases_ok ps fs" "pr_root r = release_dir ps (pr_build r)" "usable ps fs (pr_build r)"
    "project_state (pr_project r) (take (length (pr_root r) - 4) (pr_root r)) = Inr ps"
    and at1: "at_phase b fs r False {} f"
    and run: "catching (then_do (build_and_restart b p r) (\<lambda>_. go_live b p r)) (\<lambda>_. True) (handle_error b) f = (a, g)"
  shows "(\<exists>err. a = Inl err) \<and> at_release fs r g \<or>
    (\<exists>fs'. at_phase b fs' r (rp_manual p \<noteq> []) (insert ''completed'' evidence_needed) g \<and> releases_ok ps fs' \<and>
       map_of fs' (ps @ [''current'']) = Some (Link (path_text (pr_root r))))"
proof -
  have kept: "(\<exists>e. a = Inl e) \<and> at_release fs r g" if "at_release fs r h" "handle_error b err h = (a, g)" for h err
    using keepsD [OF files.keeps_handling [of fs r b err], OF that(2,1)] handle_error_Inl [OF that(2)] by blast
  obtain a2 g2 where b: "build_and_restart b p r f = (a2, g2)" by (rule prod.exhaust)
  have at2: "at_release fs r g2" by (rule keepsD [OF files.keeps_build [of fs r b p], OF b]) (use at1 in \<open>simp add: at_phase_def\<close>)
  show ?thesis
  proof (cases a2)
    case (Inl err)
    then have "handle_error b err g2 = (a, g)" using run b by (simp add: catching_def then_do_def)
    then show ?thesis using kept [OF at2] by blast
  next
    case (Inr u)
    from build_ok [OF at1 b [unfolded this]] have at3: "at_phase b fs r (rp_manual p \<noteq> []) evidence_needed g2" .
    obtain a3 g3 where l: "go_live b p r g2 = (a3, g3)" by (rule prod.exhaust)
    have result: "(case a3 of Inl err \<Rightarrow> handle_error b err g3 | Inr x \<Rightarrow> (Inr x, g3)) = (a, g)"
      using run b Inr l by (cases a3) (auto simp: catching_def then_do_def)
    from go_live_facts [OF ok at3 l] show ?thesis
    proof (elim disjE exE conjE)
      fix err assume e: "a3 = Inl err" "at_release fs r g3"
      then show ?thesis using kept [OF e(2)] result by simp
    next
      fix fs' assume live: "at_phase b fs' r (rp_manual p \<noteq> []) (insert ''completed'' evidence_needed) g3" "releases_ok ps fs'"
        "map_of fs' (ps @ [''current'']) = Some (Link (path_text (pr_root r)))"
      have "at_phase b fs' r (rp_manual p \<noteq> []) (insert ''completed'' evidence_needed) g"
      proof (cases a3)
        case (Inl err)
        then have "handle_error b err g3 = (a, g)" using result by simp
        from keepsD [OF phases.keeps_handling, OF this live(1)] show ?thesis .
      qed (use result live(1) in simp)
      then show ?thesis using live(2,3) by blast
    qed
  qed
qed


section \<open>Witness\<close>

definition sample_rebuild_env :: rebuild_env where
  "sample_rebuild_env =
     \<lparr>rb_release = sample_release_env, rb_step = (\<lambda>_. Code 0), rb_restart = (\<lambda>_. Code 0), rb_active = (\<lambda>_. True), rb_at = (\<lambda>_. 7), rb_took = (\<lambda>_. 1),
      rb_restore = Code 0, rb_store_migration = Inl OtherFailed, rb_monitor = (\<lambda>_. Code 0), rb_at_source = Code 0, rb_changed = Code 0,
      rb_references = Inr None, rb_launcher = Code 0\<rparr>"

definition sample_plan :: rebuild_plan where
  "sample_plan =
     \<lparr>rp_project = ''sf'', rp_repo = [''r''], rp_state_root = [''s''], rp_candidate = Inr [],
      rp_validated = Inr [(''acceptance_id'', JStr ''acc''), (''source_commit'', JStr ''c2''), (''source_tree'', JStr ''tc2''), (''coverage'', JStr ''full'')],
      rp_rollback = False, rp_build = sample_build CHR ''d'', rp_scope = Full, rp_manual = [''w''], rp_workers = [''w''], rp_backend_service = ''b'',
      rp_frontend_service = ''f'', rp_is_monitor = (\<lambda>_. False), rp_has_monitor = False, rp_release_install = False, rp_migrate_store = False\<rparr>"

text \<open>The storage of a project before its first release.\<close>

definition sample_empty :: release_state where
  "sample_empty = \<lparr>ms_fs = [([''r''], Dir), ([''s''], Dir), ([''s'', ''projects''], Dir), (sample_project, Dir)], ms_receipts = []\<rparr>"

definition sample_flow :: flow where
  "sample_flow = \<lparr>fl_state = sample_empty, fl_release = None, fl_monitor = False, fl_restarted = False\<rparr>"

lemma sample_rebuild_returns: "case fst (rebuild sample_rebuild_env sample_plan sample_flow) of Inr _ \<Rightarrow> True | Inl _ \<Rightarrow> False"
  by code_simp


end
