(* ===== verification/Spec2Isabelle.thy ===== *)
theory Spec2Isabelle
  imports PublicationHook CommandGuardFacts DispatchFacts DependencyFacts TaskFacts CoordHook HeavyRuns AccessFacts BrowserFacts
    CloseoutFacts NativeFacts RebuildFacts
begin

text \<open>
  \<^bold>\<open>SummitFlow: guards, work records and agent coordination.\<close>

  SummitFlow lets many coding agents work on the same checkouts and deploys what they finish. This
  development models, from the sources under \<open>src/backend\<close> and \<open>src/packages\<close>, the parts that carry
  the rules nobody must break: what a shell command may do, what may be recorded about runs and
  tasks, who may touch what while others work, and which release is live. They meet where a command destroys a path another session
  owns (CommandGuard over PathOwnership), where the hook judges a tool call (PublicationHook over
  PublicationGuard) and where a repository operation asks the coordination store whether anybody
  is in the way (Handshake over Leases over CoordStore), where a task is completed (TaskCloseout over
  TaskStore, whose gates ask NativeDeployment), and where a rebuild records its phases (Rebuild over
  ManagedReleases).

  \<^bold>\<open>Shared.\<close> Prelude holds results as sums (\<open>raise\<close>, \<open>return\<close>), early-leaving
  searches with their introduction rules, and Python dicts as association lists; Results sequences
  operations that raise, with and without a state, and has the rule for what all of them keep. PyStr, Regex,
  Shlex, Json and Fnmatch are the parts of Python's \<open>str\<close>, \<open>os.path\<close>,
  \<open>pathlib\<close>, \<open>re\<close>, \<open>shlex\<close>, \<open>json\<close> and \<open>fnmatch\<close> that the
  sources use; strings are ASCII, JSON numbers integers.

  \<^bold>\<open>Commands.\<close>
  \<^item> GuardTokens and GuardPolicy are \<open>app/services/_command_guard_helpers.py\<close>: segments,
    execution wrappers, git arguments, and the argv policies on deletion, disks, backups and git
    history. GuardFacts: quoting a segment and splitting it again is the identity, a recursive
    deletion of a protected root is denied, and the spelling with two leading slashes is not.
  \<^item> PublicationGuard is \<open>_publication_guard.py\<close> and PublicationHook \<open>publication_hook.py\<close>.
    The evaluators call themselves on heredoc bodies, substitutions and nested shells; their first
    argument is the number of stack frames left, and running out is \<open>RecursionError\<close>. Every
    nested command is strictly shorter than the one that holds it, so as many frames as the
    command has characters always suffice (locale \<open>nested_evaluator\<close> of PublicationFacts,
    interpreted for both evaluators). PublicationFacts: a publication is denied wherever a shell
    would reach it; a segment is judged in the directory the preceding \<open>cd\<close> lead to; verdicts
    never repeat the command; an unquoted comment hides commands. PublicationHook: the hook exits
    normally and denies when its input cannot be evaluated.
  \<^item> PathOwnership is \<open>destructive_path_guard.py\<close> with its helpers, \<open>_scope_paths.py\<close> and
    \<open>_lane_scope.py\<close>; CommandGuard is \<open>command_guard.py\<close>, the interactive guard. Git, the
    file system, the tool registry, the inventory of live sessions and the Agent Hub are fields of
    the records \<open>guard_env\<close> and \<open>surroundings\<close>. CommandGuardFacts: the guard returns within eight
    frames per character (quoting can make a segment longer, at most eightfold), an offence in any
    nested shell is never allowed, paths of other sessions are refused exactly as stated, and
    which spellings of an owned path escape.

  \<^bold>\<open>Records.\<close>
  \<^item> ExclusiveClaims states the contract of a claim that at most one worker can hold, as a locale
    with the race over any number of attempts; the receipt table and the task table interpret it.
  \<^item> AutomationDispatch is \<open>app/storage/automation_dispatches.py\<close>: the table of receipts of
    automation runs, one definition per operation, histories of calls as a relation. DispatchFacts:
    the table invariant, fencing, durability, and that a requested cancellation is never lost.
  \<^item> TaskAcceptance is \<open>app/services/task_acceptance.py\<close> (what a task's evidence must be),
    TaskStore is \<open>app/storage/tasks\<close> (claims, status, closeout, sessions and the dispositions of
    publication repair). TaskFacts: one winner of a claim race, status changes follow the table and
    its guards, and taking a task up again voids its acceptance.
  \<^item> TaskCloseout is \<open>app/services/task_closeout.py\<close>, the resumable completion of a task: each call of the
    storage is one transaction and other processes change the tables before it as they like.
    CloseoutFacts: every write completes a task with its gates passed or touches only the closeout
    entry, a request needs the exact active claim, a superseded resumption does nothing, and an
    undisturbed request is carried through once.
  \<^item> NativeContract is \<open>packages/st-sdk/st_sdk/native_deployment.py\<close>, the wire contract of deployment
    observers, and NativeDeployment \<open>app/services/native_deployment.py\<close>, the receipts the server issues.
    Facts: validation is typed and raises only contract errors; a completed task with a native
    deployment has a server-issued receipt of it; an issued receipt validates.
  \<^item> Dependencies is the ordering of work: Kahn's algorithm, the two dependency tables with the
    trigger of \<open>summitflow-schema.sql\<close> that refuses cycles (it follows at most 100 levels, and
    the theorem states the bound), the gate that lets a subtask pass, and the progress view.

  \<^bold>\<open>Coordination.\<close>
  \<^item> CoordStore is \<open>cli/lib/coord_store.py\<close>. The service that stores the documents is not in
    the repository: it is the parameter \<open>request\<close>, which may let other processes act before any
    answer. What the client relies on is the locale \<open>cas_documents\<close> (reads answer saved contents
    with their version, a write is accepted only against the current version), interpreted on a
    service in which others write between any two requests. A change is retried at most 40 times.
    Facts: a change that returns is one atomic step of the document, and none is lost.
  \<^item> AgentIdentity is who is calling (\<open>leases.identify_agent\<close>, \<open>coord_lineage.py\<close>), with the
    process table as data and at most 40 ancestors looked at; Leases is \<open>cli/lib/leases.py\<close>, a map
    of one document to an answer and perhaps a new document. LeaseFacts: no ordinary call disturbs
    another agent's live lease, claims report and record truthfully, later claims see earlier ones,
    concurrent writes are attributed to nobody, and bracketed paths defeat the conflict check.
  \<^item> Handshake is the request ledger and the guard of repository operations in \<open>cli/lib/coord.py\<close>.
    HandshakeFacts: the fields of a request agree in every reachable ledger, closed requests are
    final, and an operation proceeds only on lease contents the store really had, in which every
    lease of another session is out of the way or its holder agreed.
  \<^item> Lineage is the registry of \<open>coord_lineage.py\<close>: which identities live on which harness process,
    what a context reset leaves open, the notes to peers. A new session owns what the main-thread
    identities of its process held.
  \<^item> CoordHook is the edit and shell hooks of \<open>coord.py\<close> over all of the above. A refused edit
    changes no lease and no writer, one that goes ahead is leased and credited path by path.

  \<^bold>\<open>Heavy work.\<close> HeavyWork and HeavyLanes are \<open>app/utils/heavy_work.py\<close>, the admission of
  heavy jobs on a shared host. The operating system is part of the state (processes, their
  descriptors, open files with their \<open>flock\<close> mode, the generation written in each lane), a job that
  wants to enter is a program counter, and one action is one system call, so that jobs interleave
  between any two calls; processes fork, exit at any moment and put any text into the token
  variable. HeavyFacts: the lanes' invariant and exclusion on each lane and depth. HeavyQueue:
  admission is first come, first served, and the number of running generations is bounded.
  HeavyRuns: concrete schedules, one of which shows that a failed join can stop the queue.
  HeavyWork also has the token's text, read back as written, and the limits on worker pools.

  \<^bold>\<open>Access.\<close> NetAddress has the parts of \<open>ipaddress\<close> and \<open>urllib.parse\<close> that are used, AccessControl is
  \<open>app/access_control.py\<close>, \<open>app/storage/access.py\<close> and \<open>app/request_origin.py\<close>: the check of a request's
  origin, the identity of the caller, and the gate before the routes, in the order \<open>app/main.py\<close>
  installs them. The verification of Access tokens and the token files are fields of \<open>access_env\<close>.
  AccessFacts: who reaches a private route, that requests grant nothing, that other sites' writes are
  refused before anything happens, and which local callers are taken for owners or are not.

  \<^bold>\<open>Files.\<close> FileSystem has file systems with symbolic links, \<open>os.path.realpath\<close> and the kernel's walk;
  FileBrowser is \<open>app/services/file_browser.py\<close>, whose deletion asks the guard of PathOwnership.
  BrowserFacts: the containment check is exact, no sequence of calls changes anything outside the
  root, reads stay inside it and serve no credentials, deletions pass their guard; and renaming or
  deleting a directory gets around the protection of what is in it.

  \<^bold>\<open>Releases.\<close> ManagedReleases is \<open>cli/lib/service_release.py\<close>: releases materialized from an accepted commit
  into directories with sealed receipts, the links \<open>current\<close> and \<open>previous\<close>, pruning, and what a receipt
  must show to count as a deployment. A completion is the list of its changes, so that a crash
  after any of them is a prefix. ReleaseFacts: the live source always resolves, pruning takes
  nothing that is referred to, a failed required phase is final. Rebuild is the rebuild of
  \<open>cli/commands/service.py\<close> over it; each program it runs is an answer of the environment, a code or an
  exception. RebuildFacts: what recordings keep the whole rebuild keeps (locales \<open>undoing\<close> and
  \<open>recording\<close>, interpreted for the files of the release and for its recorded phases), and a rebuild
  goes live with evidence of every required phase or leaves the live release alone.

  Times are integers in microseconds and a stored time that cannot be parsed is \<open>None\<close>. Calls take
  the identity, the instant and a fresh id as arguments, so that histories are sequences of calls.

  \<^bold>\<open>Not modelled.\<close> The HTTP routes, the command line parsing and rendering of \<open>st\<close>, task
  listing and search (SQL passed through), the bodies of service operations and acceptance runs
  (systemd, git and containers), the monitor reader and the frontend: input and output around the
  modelled parts. In \<open>service_release.py\<close> the locks and the copy of a result for detached jobs; of
  \<open>service.py\<close> only the rebuild. In \<open>coord.py\<close> the routing of hook events and the text of notices (git is a
  parameter); in \<open>leases.py\<close> the store in files. \<open>app/scheduling\<close> computes with binary floating point and the croniter library.
  In \<open>heavy_work.py\<close> the readings of the host are inputs of a step, and the holder record shown to
  those who wait and the start of the child process are left out.
\<close>

end
